(* ===== verification/Prelude.thy ===== *)
theory Prelude
  imports Main "HOL-Library.Word" "HOL-Library.Signed_Division" "HOL-Library.Monad_Syntax"
begin

text \<open>
  Shared vocabulary of the development: the C arithmetic of the 32-bit target (LM32),
  checked array accesses and the collections of facts the component theories use.

  A C \<open>int\<close> is an \<open>int\<close> kept in the range of a signed 32-bit word: every C operation that
  can leave the range is written with \<open>add32\<close>, \<open>sub32\<close>, \<open>mul32\<close>, \<open>neg32\<close>, \<open>shl32\<close>, which wrap
  as the two's complement hardware does (the C standard leaves signed overflow undefined;
  the compiled code wraps). The arithmetic right shift is \<open>drop_bit\<close> on \<open>int\<close>, the division
  that truncates towards zero is \<open>sdiv\<close>. Hardware registers and unsigned fields are words.

  A C array access with an index out of range is undefined behaviour: the model makes it
  the value \<open>None\<close>, through \<open>aget\<close> and \<open>aset\<close>.
\<close>

unbundle bit_operations_syntax

type_synonym u8 = "8 word"
type_synonym u16 = "16 word"
type_synonym u32 = "32 word"
type_synonym u64 = "64 word"

named_theorems c_arith "unfolding of the 32-bit C operations"
named_theorems hw_simps "projections of the hardware writes"
named_theorems inv_simps "definitions of the components' invariants"

subsection \<open>Signed 32-bit arithmetic\<close>

definition s32 :: "int \<Rightarrow> int" where
  "s32 i = signed_take_bit 31 i"

definition in32 :: "int \<Rightarrow> bool" where
  "in32 i \<longleftrightarrow> - (2 ^ 31) \<le> i \<and> i < 2 ^ 31"

definition add32 :: "int \<Rightarrow> int \<Rightarrow> int" where
  [c_arith]: "add32 a b = s32 (a + b)"

definition sub32 :: "int \<Rightarrow> int \<Rightarrow> int" where
  [c_arith]: "sub32 a b = s32 (a - b)"

definition mul32 :: "int \<Rightarrow> int \<Rightarrow> int" where
  [c_arith]: "mul32 a b = s32 (a * b)"

definition neg32 :: "int \<Rightarrow> int" where
  [c_arith]: "neg32 a = s32 (- a)"

definition shl32 :: "int \<Rightarrow> nat \<Rightarrow> int" where
  [c_arith]: "shl32 a n = s32 (push_bit n a)"

lemma s32_in32 [simp]: "in32 (s32 i)"
  unfolding in32_def s32_def
  using signed_take_bit_int_greater_eq_minus_exp [of 31 i] signed_take_bit_int_less_exp [of 31 i]
  by simp

lemma s32_id: "in32 i \<Longrightarrow> s32 i = i"
  unfolding in32_def s32_def by (simp add: signed_take_bit_int_eq_self_iff)

lemma s32_eq: "s32 i = (i + 2147483648) mod 4294967296 - 2147483648"
  unfolding s32_def by (simp add: signed_take_bit_eq_take_bit_shift take_bit_eq_mod)

lemma s32_range: "- 2147483648 \<le> s32 i \<and> s32 i < 2147483648"
  using s32_in32 [of i] unfolding in32_def by simp

lemma s32_small [simp]: "- 2147483648 \<le> i \<Longrightarrow> i < 2147483648 \<Longrightarrow> s32 i = i"
  by (rule s32_id) (simp add: in32_def)

lemma s32_abs: "\<bar>i\<bar> < 2 ^ 31 \<Longrightarrow> s32 i = i"
  by (rule s32_small) auto

lemma s32_idem [simp]: "s32 (s32 i) = s32 i"
  by (rule s32_id) simp

lemma s32_eq_iff_mod: "s32 a = s32 b \<longleftrightarrow> a mod 2 ^ 32 = b mod 2 ^ 32"
  unfolding s32_def by (simp add: signed_take_bit_eq_iff_take_bit_eq take_bit_eq_mod)

lemma s32_mod: "s32 a mod 2 ^ 32 = a mod 2 ^ 32"
  using s32_eq_iff_mod [of "s32 a" a] by simp

lemma s32_add_left [simp]: "s32 (s32 a + b) = s32 (a + b)"
  unfolding s32_eq_iff_mod by (metis mod_add_left_eq s32_mod)

lemma s32_add_right [simp]: "s32 (a + s32 b) = s32 (a + b)"
  by (metis add.commute s32_add_left)

lemma s32_diff_left [simp]: "s32 (s32 a - b) = s32 (a - b)"
  unfolding s32_eq_iff_mod by (metis mod_diff_left_eq s32_mod)

lemma s32_diff_right [simp]: "s32 (a - s32 b) = s32 (a - b)"
  unfolding s32_eq_iff_mod by (metis mod_diff_right_eq s32_mod)

lemma s32_mult_left [simp]: "s32 (s32 a * b) = s32 (a * b)"
  unfolding s32_eq_iff_mod by (metis mod_mult_left_eq s32_mod)

lemma s32_mult_right [simp]: "s32 (a * s32 b) = s32 (a * b)"
  by (metis mult.commute s32_mult_left)

lemma s32_minus [simp]: "s32 (- s32 a) = s32 (- a)"
  using s32_diff_right [of 0 a] by simp

lemma s32_congI: "a mod 2 ^ 32 = b mod 2 ^ 32 \<Longrightarrow> s32 a = s32 b"
  by (simp add: s32_eq_iff_mod)

lemma add32_in32 [simp]: "in32 (add32 a b)" by (simp add: c_arith)
lemma sub32_in32 [simp]: "in32 (sub32 a b)" by (simp add: c_arith)
lemma mul32_in32 [simp]: "in32 (mul32 a b)" by (simp add: c_arith)

lemma in32_numeral [simp]:
  "in32 0" "in32 1" "in32 (- 1)"
  by (simp_all add: in32_def)

lemma s32_add_cong: "s32 a = s32 b \<Longrightarrow> s32 (a + k) = s32 (b + k)"
  by (metis s32_add_left)

lemma s32_diff_cong2: "s32 a = s32 b \<Longrightarrow> s32 c = s32 d \<Longrightarrow> s32 (a - c) = s32 (b - d)"
  by (metis s32_diff_left s32_diff_right)

text \<open>\<open>abs\<close> of \<open>stdlib.h\<close>: the most negative value is its own absolute value.\<close>

definition abs32 :: "int \<Rightarrow> int" where
  "abs32 i = s32 \<bar>i\<bar>"

lemma abs32_eq: "in32 i \<Longrightarrow> i \<noteq> - (2 ^ 31) \<Longrightarrow> abs32 i = \<bar>i\<bar>"
  unfolding abs32_def by (rule s32_id) (auto simp: in32_def)

text \<open>Conversions between C \<open>int\<close> and \<open>uint32_t\<close>.\<close>

definition to_u32 :: "int \<Rightarrow> u32" where
  "to_u32 i = word_of_int i"

definition of_u32 :: "u32 \<Rightarrow> int" where
  "of_u32 w = sint w"

lemma of_u32_in32 [simp]: "in32 (of_u32 w)"
  using sint_range_size [of w] by (simp add: in32_def of_u32_def word_size)

lemma of_to_u32: "in32 i \<Longrightarrow> of_u32 (to_u32 i) = i"
  by (simp add: of_u32_def to_u32_def sint_sbintrunc' s32_def [symmetric] s32_id)

subsection \<open>Checked array accesses\<close>

definition aget :: "'a list \<Rightarrow> int \<Rightarrow> 'a option" where
  "aget xs i = (if 0 \<le> i \<and> nat i < length xs then Some (xs ! nat i) else None)"

definition aset :: "'a list \<Rightarrow> int \<Rightarrow> 'a \<Rightarrow> 'a list option" where
  "aset xs i v = (if 0 \<le> i \<and> nat i < length xs then Some (xs[nat i := v]) else None)"

lemma aget_Some: "0 \<le> i \<Longrightarrow> i < int (length xs) \<Longrightarrow> aget xs i = Some (xs ! nat i)"
  by (simp add: aget_def nat_less_iff)

lemma aget_None: "i < 0 \<or> int (length xs) \<le> i \<Longrightarrow> aget xs i = None"
  by (auto simp: aget_def nat_less_iff)

lemma aset_Some: "0 \<le> i \<Longrightarrow> i < int (length xs) \<Longrightarrow> aset xs i v = Some (xs[nat i := v])"
  by (simp add: aset_def nat_less_iff)

lemma aget_SomeD: "aget xs i = Some v \<Longrightarrow> 0 \<le> i \<and> i < int (length xs) \<and> v = xs ! nat i"
  by (auto simp: aget_def nat_less_iff split: if_splits)

lemma aset_SomeD:
  "aset xs i v = Some ys \<Longrightarrow> 0 \<le> i \<and> i < int (length xs) \<and> ys = xs[nat i := v]"
  by (auto simp: aset_def nat_less_iff split: if_splits)

lemma length_aset: "aset xs i v = Some ys \<Longrightarrow> length ys = length xs"
  by (auto dest: aset_SomeD)

lemma aget_aset_same: "aset xs i v = Some ys \<Longrightarrow> aget ys i = Some v"
  by (auto simp: aget_def aset_def split: if_splits)

lemma aget_aset_other: "aset xs i v = Some ys \<Longrightarrow> j \<noteq> i \<Longrightarrow> aget ys j = aget xs j"
  by (auto simp: aget_def aset_def split: if_splits)

lemma list_all_update: "list_all P xs \<Longrightarrow> P v \<Longrightarrow> list_all P (xs[i := v])"
  using set_update_subset_insert [of xs i v] by (auto simp: list_all_iff)

subsection \<open>Loops\<close>

text \<open>\<open>for (i = a; i < b; i++) body\<close>; a body that hits undefined behaviour ends the loop.\<close>

fun for_count :: "nat \<Rightarrow> int \<Rightarrow> (int \<Rightarrow> 's \<Rightarrow> 's option) \<Rightarrow> 's \<Rightarrow> 's option" where
  "for_count 0 i f s = Some s"
| "for_count (Suc n) i f s = do { s \<leftarrow> f i s; for_count n (i + 1) f s }"

definition for_loop :: "int \<Rightarrow> int \<Rightarrow> (int \<Rightarrow> 's \<Rightarrow> 's option) \<Rightarrow> 's \<Rightarrow> 's option" where
  "for_loop a b f s = for_count (nat (b - a)) a f s"

lemma for_count_inv:
  assumes "P i s" "\<And>j s. i \<le> j \<Longrightarrow> j < i + int n \<Longrightarrow> P j s \<Longrightarrow> \<exists>s'. f j s = Some s' \<and> P (j + 1) s'"
  shows "\<exists>s'. for_count n i f s = Some s' \<and> P (i + int n) s'"
  using assms
proof (induction n arbitrary: i s)
  case (Suc n)
  then obtain s1 where s1: "f i s = Some s1" "P (i + 1) s1" by fastforce
  have "\<exists>s'. for_count n (i + 1) f s1 = Some s' \<and> P (i + 1 + int n) s'"
    by (rule Suc.IH [OF s1(2)]) (use Suc.prems(2) in auto)
  then show ?case using s1(1) by (auto simp: algebra_simps)
qed simp

text \<open>The rule for a loop: an invariant indexed by the loop variable.\<close>

lemma for_loop_inv:
  assumes "P a s" "a \<le> b"
    and "\<And>j s. a \<le> j \<Longrightarrow> j < b \<Longrightarrow> P j s \<Longrightarrow> \<exists>s'. f j s = Some s' \<and> P (j + 1) s'"
  shows "\<exists>s'. for_loop a b f s = Some s' \<and> P b s'"
  unfolding for_loop_def
  using for_count_inv [of P a s "nat (b - a)" f] assms by auto

lemma for_loop_empty [simp]: "b \<le> a \<Longrightarrow> for_loop a b f s = Some s"
  by (simp add: for_loop_def)

text \<open>A C truth value.\<close>

abbreviation c_bool :: "bool \<Rightarrow> int" where
  "c_bool p \<equiv> (if p then 1 else 0)"

text \<open>The division of C on the signs.\<close>

lemma sdiv_pos: "0 \<le> a \<Longrightarrow> 0 < b \<Longrightarrow> a sdiv b = a div (b :: int)"
  by (simp add: signed_divide_int_def sgn_if)

lemma sdiv_neg: "0 \<le> a \<Longrightarrow> 0 < b \<Longrightarrow> (- a) sdiv b = - (a div (b :: int))"
  by (simp add: signed_divide_int_def sgn_if)

end
