(* ===== verification/Board.thy ===== *)
theory Board
  imports Prelude
begin

text \<open>
  The two builds of the repository: the PTP core node (\<open>include/board-wrc.h\<close>,
  \<open>CONFIG_WR_NODE\<close>) and the switch real-time CPU (\<open>include/board-wrs.h\<close>,
  \<open>CONFIG_WR_SWITCH\<close>). The constants the code takes from the board header are fields of
  \<open>board_cfg\<close>; the component models take a board as argument, so that a lemma over any
  board holds for both builds.
\<close>

record board_cfg =
  b_wr_switch :: bool
  b_tics_per_second :: int
  b_ref_clock_period_ps :: int
  b_ref_clock_freq_hz :: int
  b_divide_dmtd_clocks :: bool
  b_max_chan_ref :: int
  b_max_chan_aux :: int
  b_max_ptrackers :: int
  b_ns_per_clock :: int

definition board_wrc :: board_cfg where
  "board_wrc = \<lparr>
     b_wr_switch = False,
     b_tics_per_second = 1000,
     b_ref_clock_period_ps = 8000,
     b_ref_clock_freq_hz = 125000000,
     b_divide_dmtd_clocks = True,
     b_max_chan_ref = 1,
     b_max_chan_aux = 2,
     b_max_ptrackers = 1,
     b_ns_per_clock = 8\<rparr>"

definition board_wrs :: board_cfg where
  "board_wrs = \<lparr>
     b_wr_switch = True,
     b_tics_per_second = 100000,
     b_ref_clock_period_ps = 16000,
     b_ref_clock_freq_hz = 62500000,
     b_divide_dmtd_clocks = False,
     b_max_chan_ref = 18,
     b_max_chan_aux = 1,
     b_max_ptrackers = 18,
     b_ns_per_clock = 16\<rparr>"

text \<open>The generic SoftPLL parameters of \<open>include/spll_defs.h\<close>.\<close>

abbreviation (input) TAG_BITS :: nat where "TAG_BITS \<equiv> 22"
abbreviation (input) HPLL_N :: nat where "HPLL_N \<equiv> 14"
abbreviation (input) PI_FRACBITS :: nat where "PI_FRACBITS \<equiv> 12"
abbreviation (input) DAC_BITS :: nat where "DAC_BITS \<equiv> 16"
abbreviation (input) PTRACKER_AVERAGE_SAMPLES :: int where "PTRACKER_AVERAGE_SAMPLES \<equiv> 512"

text \<open>
  \<open>time_after\<close> of \<open>include/syscon.h\<close>: the sign of the wrapped 32-bit difference, so that
  the comparison survives the wrap-around of the tic counter.
\<close>

definition time_after :: "u32 \<Rightarrow> u32 \<Rightarrow> bool" where
  "time_after a b \<longleftrightarrow> sint (b - a) < 0"

definition time_before :: "u32 \<Rightarrow> u32 \<Rightarrow> bool" where
  "time_before a b \<longleftrightarrow> time_after b a"

lemma sint_of_nat_diff_neg:
  assumes "0 < d" "d < 2 ^ 31"
  shows "sint (- word_of_nat d :: u32) = - int d"
proof -
  have "sint (- word_of_nat d :: u32) = sint (word_of_int (- int d) :: u32)" by simp
  also have "\<dots> = signed_take_bit 31 (- int d)" unfolding sint_sbintrunc' by simp
  also have "\<dots> = - int d" using assms by (simp add: signed_take_bit_int_eq_self_iff)
  finally show ?thesis .
qed

lemma sint_of_nat_small: "d < 2 ^ 31 \<Longrightarrow> sint (word_of_nat d :: u32) = int d"
proof -
  assume "d < 2 ^ 31"
  have "sint (word_of_nat d :: u32) = sint (word_of_int (int d) :: u32)" by simp
  also have "\<dots> = signed_take_bit 31 (int d)" unfolding sint_sbintrunc' by simp
  also have "\<dots> = int d" using \<open>d < 2 ^ 31\<close> by (simp add: signed_take_bit_int_eq_self_iff)
  finally show ?thesis .
qed

text \<open>
  After fewer than \<open>2 ^ 31\<close> tics a deadline in the past is recognised, whatever the value
  the counter had when the deadline was set.
\<close>

lemma time_after_wraps:
  assumes "d < 2 ^ 31"
  shows "time_after (t + word_of_nat d) t \<longleftrightarrow> 0 < d"
proof (cases "d = 0")
  case True
  then show ?thesis by (simp add: time_after_def)
next
  case False
  then have "t - (t + word_of_nat d) = - word_of_nat d \<and> 0 < d" by simp
  with assms show ?thesis by (simp only: time_after_def sint_of_nat_diff_neg) simp
qed

lemma not_time_after_future:
  assumes "d < 2 ^ 31"
  shows "\<not> time_after t (t + word_of_nat d)"
  using assms by (simp add: time_after_def sint_of_nat_small)

end
