(* ===== verification/Spll_Common.thy ===== *)
theory Spll_Common
  imports Board
begin

text \<open>
  \<open>softpll/spll_common.c\<close> and \<open>softpll/spll_debug.h\<close>: the register file of the SoftPLL and of
  the PPS generator as the SoftPLL uses them, the PI controller, the lock detector, the
  low-pass filter, the biquad filter and the DDMTD tagger control.
\<close>

section \<open>Registers and globals\<close>

text \<open>
  \<open>struct SPLL_WB\<close> (\<open>softpll/hw/softpll_regs.h\<close>) and \<open>struct PPSG_WB\<close> as written by the
  software, with the inputs the hardware drives: the bits of \<open>ECCR\<close>, \<open>OCCR\<close> and of the PPS
  generator's \<open>ESCR\<close> that the gateware sets (\<open>h_ECCR\<close>, \<open>h_OCCR\<close>, \<open>h_ESCR\<close>), the tag FIFO
  behind \<open>TRR_R0\<close>/\<open>TRR_CSR\<close> (\<open>r_TRR\<close>: every tag word with the status inputs the hardware shows
  while it is processed) and the tic counter read by \<open>timer_get_tics\<close>. \<open>r_DFR_SPLL\<close> lists
  the words pushed into the debug FIFO, oldest first. The globals of \<open>softpll_ng.c\<close> that the
  other SoftPLL files read, and the interrupt registers of the CPU, are here too.
\<close>

record trr_entry =
  te_word :: u32
  te_tics :: u32
  te_ECCR :: u32
  te_ESCR :: u32

record spll_hw =
  r_CSR :: u32
  r_ECCR :: u32
  r_OCCR :: u32
  r_RCER :: u32
  r_OCER :: u32
  r_DAC_HPLL :: u32
  r_DAC_MAIN :: u32
  r_DEGLITCH_THR :: u32
  r_DFR_SPLL :: "u32 list"
  r_EIC_IDR :: u32
  r_EIC_IER :: u32
  r_TRR :: "trr_entry list"
  h_ECCR :: u32
  h_OCCR :: u32
  h_ESCR :: u32
  h_tics :: u32
  p_CR :: u32
  p_ADJ_NSEC :: u32
  p_ADJ_UTCLO :: u32
  p_ADJ_UTCHI :: u32
  p_ESCR :: u32
  cpu_IE :: u32
  cpu_IM :: u32
  spll_n_chan_ref :: int
  spll_n_chan_out :: int

text \<open>Register fields (\<open>WBGEN2_GEN_MASK\<close>, \<open>WBGEN2_GEN_READ\<close>, \<open>WBGEN2_GEN_WRITE\<close>).\<close>

definition gen_mask :: "nat \<Rightarrow> nat \<Rightarrow> u32" where
  "gen_mask offset sz = push_bit offset (mask sz)"

definition gen_write :: "u32 \<Rightarrow> nat \<Rightarrow> nat \<Rightarrow> u32" where
  "gen_write v offset sz = push_bit offset (v AND mask sz)"

definition gen_read :: "u32 \<Rightarrow> nat \<Rightarrow> nat \<Rightarrow> u32" where
  "gen_read reg offset sz = drop_bit offset reg AND mask sz"

abbreviation (input) SPLL_ECCR_EXT_EN :: u32 where "SPLL_ECCR_EXT_EN \<equiv> 0x1"
abbreviation (input) SPLL_ECCR_EXT_SUPPORTED :: u32 where "SPLL_ECCR_EXT_SUPPORTED \<equiv> 0x2"
abbreviation (input) SPLL_ECCR_ALIGN_EN :: u32 where "SPLL_ECCR_ALIGN_EN \<equiv> 0x4"
abbreviation (input) SPLL_ECCR_ALIGN_DONE :: u32 where "SPLL_ECCR_ALIGN_DONE \<equiv> 0x8"
abbreviation (input) SPLL_ECCR_EXT_REF_PRESENT :: u32 where "SPLL_ECCR_EXT_REF_PRESENT \<equiv> 0x10"
abbreviation (input) PPSG_CR_CNT_RST :: u32 where "PPSG_CR_CNT_RST \<equiv> 0x1"
abbreviation (input) PPSG_CR_CNT_EN :: u32 where "PPSG_CR_CNT_EN \<equiv> 0x2"
abbreviation (input) PPSG_ESCR_SYNC :: u32 where "PPSG_ESCR_SYNC \<equiv> 0x1"
abbreviation (input) PPSG_ESCR_PPS_VALID :: u32 where "PPSG_ESCR_PPS_VALID \<equiv> 0x2"
abbreviation (input) PPSG_ESCR_TM_VALID :: u32 where "PPSG_ESCR_TM_VALID \<equiv> 0x4"

text \<open>
  Reads of registers with bits driven by the hardware. The status bits of \<open>ECCR\<close>
  (\<open>EXT_SUPPORTED\<close>, \<open>ALIGN_DONE\<close>, \<open>EXT_REF_PRESENT\<close>), the enable bits of \<open>OCCR\<close> and the
  \<open>SYNC\<close> bit of \<open>ESCR\<close> come from the gateware, the rest reads back what was written.
\<close>

definition rd_ECCR :: "spll_hw \<Rightarrow> u32" where
  "rd_ECCR h = (r_ECCR h AND NOT 0x1a) OR (h_ECCR h AND 0x1a)"

definition rd_OCCR :: "spll_hw \<Rightarrow> u32" where
  "rd_OCCR h = (r_OCCR h AND NOT 0xff) OR (h_OCCR h AND 0xff)"

definition rd_ESCR :: "spll_hw \<Rightarrow> u32" where
  "rd_ESCR h = (p_ESCR h AND NOT PPSG_ESCR_SYNC) OR (h_ESCR h AND PPSG_ESCR_SYNC)"

text \<open>\<open>1 << k\<close> on the LM32, whose shifter uses the low five bits of the count.\<close>

definition bit32 :: "int \<Rightarrow> u32" where
  "bit32 k = push_bit (nat (k mod 32)) 1"

definition spll_debug :: "u32 \<Rightarrow> int \<Rightarrow> int \<Rightarrow> spll_hw \<Rightarrow> spll_hw" where
  "spll_debug what v is_last h = h\<lparr>r_DFR_SPLL := r_DFR_SPLL h @
     [(if is_last \<noteq> 0 then 0x80000000 else 0) OR (to_u32 v AND 0xffffff) OR push_bit 24 what]\<rparr>"

abbreviation (input) DBG_Y :: u32 where "DBG_Y \<equiv> 0"
abbreviation (input) DBG_ERR :: u32 where "DBG_ERR \<equiv> 1"
abbreviation (input) DBG_TAG :: u32 where "DBG_TAG \<equiv> 2"
abbreviation (input) DBG_REF :: u32 where "DBG_REF \<equiv> 5"
abbreviation (input) DBG_EVENT :: u32 where "DBG_EVENT \<equiv> 4"
abbreviation (input) DBG_SAMPLE_ID :: u32 where "DBG_SAMPLE_ID \<equiv> 6"
abbreviation (input) DBG_HELPER :: u32 where "DBG_HELPER \<equiv> 0x20"
abbreviation (input) DBG_EXT :: u32 where "DBG_EXT \<equiv> 0x40"
abbreviation (input) DBG_MAIN :: u32 where "DBG_MAIN \<equiv> 0"
abbreviation (input) DBG_EVT_START :: int where "DBG_EVT_START \<equiv> 1"

abbreviation (input) SPLL_LOCKED :: int where "SPLL_LOCKED \<equiv> 1"
abbreviation (input) SPLL_LOCKING :: int where "SPLL_LOCKING \<equiv> 0"

section \<open>Tagger control\<close>

definition spll_enable_tagger :: "int \<Rightarrow> int \<Rightarrow> spll_hw \<Rightarrow> spll_hw" where
  "spll_enable_tagger channel enable h =
     (if spll_n_chan_ref h \<le> channel then
        (if enable \<noteq> 0
         then h\<lparr>r_OCER := r_OCER h OR bit32 (channel - spll_n_chan_ref h)\<rparr>
         else h\<lparr>r_OCER := r_OCER h AND NOT (bit32 (channel - spll_n_chan_ref h))\<rparr>)
      else
        (if enable \<noteq> 0
         then h\<lparr>r_RCER := r_RCER h OR bit32 channel\<rparr>
         else h\<lparr>r_RCER := r_RCER h AND NOT (bit32 channel)\<rparr>))"

text \<open>Which channels deliver tags: the abstraction of the two enable registers.\<close>

definition tagger_on :: "spll_hw \<Rightarrow> int \<Rightarrow> bool" where
  "tagger_on h ch =
     (if spll_n_chan_ref h \<le> ch then bit (r_OCER h) (nat (ch - spll_n_chan_ref h))
      else bit (r_RCER h) (nat ch))"

section \<open>PI controller\<close>

record spll_pi_t =
  pi_ki :: int
  pi_kp :: int
  pi_integrator :: int
  pi_bias :: int
  pi_anti_windup :: int
  pi_y_min :: int
  pi_y_max :: int
  pi_x :: int
  pi_y :: int

definition pi_update :: "spll_pi_t \<Rightarrow> int \<Rightarrow> int \<times> spll_pi_t" where
  "pi_update p x =
     (let p = p\<lparr>pi_x := x\<rparr>;
          i_new = add32 (pi_integrator p) x;
          y = add32 (drop_bit PI_FRACBITS (add32 (mul32 i_new (pi_ki p)) (mul32 x (pi_kp p))))
                (pi_bias p)
      in if y < pi_y_min p then
           let y = pi_y_min p;
               p = (if (pi_anti_windup p \<noteq> 0 \<and> pi_integrator p < i_new) \<or> pi_anti_windup p = 0
                    then p\<lparr>pi_integrator := i_new\<rparr> else p)
           in (y, p\<lparr>pi_y := y\<rparr>)
         else if pi_y_max p < y then
           let y = pi_y_max p;
               p = (if (pi_anti_windup p \<noteq> 0 \<and> i_new < pi_integrator p) \<or> pi_anti_windup p = 0
                    then p\<lparr>pi_integrator := i_new\<rparr> else p)
           in (y, p\<lparr>pi_y := y\<rparr>)
         else
           (y, p\<lparr>pi_integrator := i_new, pi_y := y\<rparr>))"

definition pi_init :: "spll_pi_t \<Rightarrow> spll_pi_t" where
  "pi_init p = p\<lparr>pi_integrator := 0, pi_y := pi_bias p\<rparr>"

section \<open>Lock detector\<close>

record spll_lock_det_t =
  ld_lock_cnt :: int
  ld_lock_samples :: int
  ld_delock_samples :: int
  ld_threshold :: int
  ld_locked :: int
  ld_lock_changed :: int

definition ld_update :: "spll_lock_det_t \<Rightarrow> int \<Rightarrow> int \<times> spll_lock_det_t" where
  "ld_update d y =
     (let d = d\<lparr>ld_lock_changed := 0\<rparr>
      in if abs32 y \<le> ld_threshold d then
           let d = (if ld_lock_cnt d < ld_lock_samples d
                    then d\<lparr>ld_lock_cnt := add32 (ld_lock_cnt d) 1\<rparr> else d)
           in if ld_lock_cnt d = ld_lock_samples d
              then (1, d\<lparr>ld_lock_changed := 1, ld_locked := 1\<rparr>)
              else (ld_locked d, d)
         else
           let d = (if ld_delock_samples d < ld_lock_cnt d
                    then d\<lparr>ld_lock_cnt := sub32 (ld_lock_cnt d) 1\<rparr> else d)
           in if ld_lock_cnt d = ld_delock_samples d
              then (- 1, d\<lparr>ld_lock_cnt := 0, ld_lock_changed := 1, ld_locked := 0\<rparr>)
              else (ld_locked d, d))"

definition ld_init :: "spll_lock_det_t \<Rightarrow> spll_lock_det_t" where
  "ld_init d = d\<lparr>ld_locked := 0, ld_lock_cnt := 0, ld_lock_changed := 0\<rparr>"

section \<open>Filters\<close>

record spll_lowpass_t =
  lp_alpha :: int
  lp_y_d :: int

text \<open>\<open>0x80000000\<close> stored in an \<open>int\<close> is the most negative value: the mark "no sample yet".\<close>

abbreviation (input) INT_MIN :: int where "INT_MIN \<equiv> - 2147483648"

definition lowpass_init :: "spll_lowpass_t \<Rightarrow> int \<Rightarrow> spll_lowpass_t" where
  "lowpass_init lp alpha = lp\<lparr>lp_y_d := INT_MIN, lp_alpha := alpha\<rparr>"

definition lowpass_update :: "spll_lowpass_t \<Rightarrow> int \<Rightarrow> int \<times> spll_lowpass_t" where
  "lowpass_update lp x =
     (if lp_y_d lp = INT_MIN then (x, lp\<lparr>lp_y_d := x\<rparr>)
      else let scaled = drop_bit 15 (mul32 (lp_alpha lp) (sub32 x (lp_y_d lp)));
               y = add32 (add32 (lp_y_d lp) (drop_bit 1 scaled)) (scaled AND 1)
           in (y, lp\<lparr>lp_y_d := y\<rparr>))"

record spll_biquad_t =
  bq_coefs :: "int list"
  bq_shift :: int
  bq_yd :: "int list"
  bq_xd :: "int list"

definition biquad_init :: "int list \<Rightarrow> int \<Rightarrow> spll_biquad_t" where
  "biquad_init coefs shift =
     \<lparr>bq_coefs = take 5 coefs, bq_shift = shift, bq_yd = [0, 0], bq_xd = [0, 0]\<rparr>"

definition biquad_update :: "spll_biquad_t \<Rightarrow> int \<Rightarrow> int \<times> spll_biquad_t" where
  "biquad_update bq x =
     (let y = mul32 (bq_coefs bq ! 0) x;
          y = add32 y (mul32 (bq_coefs bq ! 1) (bq_xd bq ! 0));
          y = add32 y (mul32 (bq_coefs bq ! 2) (bq_xd bq ! 1));
          y = sub32 y (mul32 (bq_coefs bq ! 3) (bq_yd bq ! 0));
          y = sub32 y (mul32 (bq_coefs bq ! 4) (bq_yd bq ! 1));
          y = drop_bit (nat (bq_shift bq)) y
      in (y, bq\<lparr>bq_xd := [x, bq_xd bq ! 0], bq_yd := [y, bq_yd bq ! 0]\<rparr>))"

section \<open>Frame facts of the hardware writes\<close>

text \<open>A register with hardware-driven bits \<open>m\<close>, read through a mask \<open>k\<close>.\<close>

lemma mixed_read:
  assumes "m AND k = k"
  shows "((a AND NOT m) OR (c AND m)) AND k = c AND (k :: 'a::len word)"
proof (rule bit_word_eqI)
  fix n
  assume "n < LENGTH('a)"
  have "bit (m AND k) n = bit k n" using assms by simp
  then show "bit (((a AND NOT m) OR (c AND m)) AND k) n = bit (c AND k) n"
    using \<open>n < LENGTH('a)\<close> by (auto simp: bit_simps)
qed

lemma mixed_read_other:
  assumes "m AND k = 0"
  shows "((a AND NOT m) OR (c AND m)) AND k = a AND (k :: 'a::len word)"
proof (rule bit_word_eqI)
  fix n
  assume "n < LENGTH('a)"
  have "bit (m AND k) n = bit 0 n" using assms by simp
  then show "bit (((a AND NOT m) OR (c AND m)) AND k) n = bit (a AND k) n"
    using \<open>n < LENGTH('a)\<close> by (auto simp: bit_simps)
qed

lemma rd_ECCR_bits:
  "rd_ECCR h AND SPLL_ECCR_EXT_REF_PRESENT = h_ECCR h AND SPLL_ECCR_EXT_REF_PRESENT"
  "rd_ECCR h AND SPLL_ECCR_EXT_SUPPORTED = h_ECCR h AND SPLL_ECCR_EXT_SUPPORTED"
  "rd_ECCR h AND SPLL_ECCR_ALIGN_DONE = h_ECCR h AND SPLL_ECCR_ALIGN_DONE"
  unfolding rd_ECCR_def by (rule mixed_read, simp)+

lemma spll_debug_frame [simp]:
  "r_CSR (spll_debug wh v l h) = r_CSR h"
  "r_ECCR (spll_debug wh v l h) = r_ECCR h"
  "r_OCCR (spll_debug wh v l h) = r_OCCR h"
  "r_RCER (spll_debug wh v l h) = r_RCER h"
  "r_OCER (spll_debug wh v l h) = r_OCER h"
  "r_DAC_HPLL (spll_debug wh v l h) = r_DAC_HPLL h"
  "r_DAC_MAIN (spll_debug wh v l h) = r_DAC_MAIN h"
  "r_TRR (spll_debug wh v l h) = r_TRR h"
  "h_ECCR (spll_debug wh v l h) = h_ECCR h"
  "h_OCCR (spll_debug wh v l h) = h_OCCR h"
  "h_ESCR (spll_debug wh v l h) = h_ESCR h"
  "h_tics (spll_debug wh v l h) = h_tics h"
  "p_CR (spll_debug wh v l h) = p_CR h"
  "p_ESCR (spll_debug wh v l h) = p_ESCR h"
  "spll_n_chan_ref (spll_debug wh v l h) = spll_n_chan_ref h"
  "spll_n_chan_out (spll_debug wh v l h) = spll_n_chan_out h"
  by (simp_all add: spll_debug_def)

lemma spll_enable_tagger_frame [simp]:
  "r_CSR (spll_enable_tagger c e h) = r_CSR h"
  "r_ECCR (spll_enable_tagger c e h) = r_ECCR h"
  "r_OCCR (spll_enable_tagger c e h) = r_OCCR h"
  "r_DAC_HPLL (spll_enable_tagger c e h) = r_DAC_HPLL h"
  "r_DAC_MAIN (spll_enable_tagger c e h) = r_DAC_MAIN h"
  "r_TRR (spll_enable_tagger c e h) = r_TRR h"
  "h_ECCR (spll_enable_tagger c e h) = h_ECCR h"
  "h_OCCR (spll_enable_tagger c e h) = h_OCCR h"
  "h_ESCR (spll_enable_tagger c e h) = h_ESCR h"
  "h_tics (spll_enable_tagger c e h) = h_tics h"
  "p_CR (spll_enable_tagger c e h) = p_CR h"
  "p_ESCR (spll_enable_tagger c e h) = p_ESCR h"
  "spll_n_chan_ref (spll_enable_tagger c e h) = spll_n_chan_ref h"
  "spll_n_chan_out (spll_enable_tagger c e h) = spll_n_chan_out h"
  by (simp_all add: spll_enable_tagger_def)

section \<open>The tagger interface\<close>

text \<open>
  What the PLLs rely on: a channel of the tagger can be switched on and off, and switching
  one leaves the others as they are. \<open>valid\<close> are the channels the device has.
\<close>

locale tagger_ctl =
  fixes enable :: "int \<Rightarrow> int \<Rightarrow> 'h \<Rightarrow> 'h"
    and on :: "'h \<Rightarrow> int \<Rightarrow> bool"
    and valid :: "'h \<Rightarrow> int \<Rightarrow> bool"
  assumes valid_enable: "valid (enable c e h) d \<longleftrightarrow> valid h d"
    and on_enable: "valid h c \<Longrightarrow> valid h d \<Longrightarrow>
      on (enable c e h) d \<longleftrightarrow> (if d = c then e \<noteq> 0 else on h d)"
begin

lemma on_enable_same: "valid h c \<Longrightarrow> on (enable c e h) c \<longleftrightarrow> e \<noteq> 0"
  by (simp add: on_enable)

lemma on_enable_other: "valid h c \<Longrightarrow> valid h d \<Longrightarrow> d \<noteq> c \<Longrightarrow> on (enable c e h) d \<longleftrightarrow> on h d"
  by (simp add: on_enable)

lemma on_enable_mono: "valid h c \<Longrightarrow> valid h d \<Longrightarrow> on h d \<Longrightarrow> on (enable c 1 h) d"
  by (simp add: on_enable)

lemma enable_pair_on:
  assumes "valid h c" "valid h d"
  shows "on (enable d 1 (enable c 1 h)) c" and "on (enable d 1 (enable c 1 h)) d"
  using assms by (simp_all add: on_enable valid_enable)

end

definition tagger_chan :: "spll_hw \<Rightarrow> int \<Rightarrow> bool" where
  "tagger_chan h ch \<longleftrightarrow> 0 \<le> spll_n_chan_ref h \<and> spll_n_chan_ref h \<le> 32 \<and>
     0 \<le> ch \<and> ch < spll_n_chan_ref h + 32"

lemma bit_bit32: "0 \<le> k \<Longrightarrow> k < 32 \<Longrightarrow> bit (bit32 k) n \<longleftrightarrow> n = nat k"
  by (auto simp: bit32_def bit_simps nat_less_iff)

lemma tagger_on_enable:
  assumes "tagger_chan h c" "tagger_chan h d"
  shows "tagger_on (spll_enable_tagger c e h) d \<longleftrightarrow> (if d = c then e \<noteq> 0 else tagger_on h d)"
proof -
  have c: "spll_n_chan_ref h \<le> c \<Longrightarrow> 0 \<le> c - spll_n_chan_ref h \<and> c - spll_n_chan_ref h < 32"
    and d: "spll_n_chan_ref h \<le> d \<Longrightarrow> 0 \<le> d - spll_n_chan_ref h \<and> d - spll_n_chan_ref h < 32"
    using assms by (auto simp: tagger_chan_def)
  have c': "\<not> spll_n_chan_ref h \<le> c \<Longrightarrow> 0 \<le> c \<and> c < 32"
    and d': "\<not> spll_n_chan_ref h \<le> d \<Longrightarrow> 0 \<le> d \<and> d < 32"
    using assms by (auto simp: tagger_chan_def)
  show ?thesis
    using c d c' d'
    by (cases "spll_n_chan_ref h \<le> c"; cases "spll_n_chan_ref h \<le> d")
      (auto simp: tagger_on_def spll_enable_tagger_def bit_bit32 bit_simps nat_less_iff)
qed

interpretation tg: tagger_ctl spll_enable_tagger tagger_on tagger_chan
  by unfold_locales (simp_all add: tagger_chan_def tagger_on_enable)

lemma tagger_on_debug [simp]: "tagger_on (spll_debug wh v l h) c = tagger_on h c"
  by (simp add: tagger_on_def)

lemma tagger_chan_debug [simp]: "tagger_chan (spll_debug wh v l h) c = tagger_chan h c"
  by (simp add: tagger_chan_def)

section \<open>The PI controller stays in range and its integrator does not wind up\<close>

lemma pi_update_params:
  "pi_ki (snd (pi_update p x)) = pi_ki p"
  "pi_kp (snd (pi_update p x)) = pi_kp p"
  "pi_bias (snd (pi_update p x)) = pi_bias p"
  "pi_anti_windup (snd (pi_update p x)) = pi_anti_windup p"
  "pi_y_min (snd (pi_update p x)) = pi_y_min p"
  "pi_y_max (snd (pi_update p x)) = pi_y_max p"
  "pi_x (snd (pi_update p x)) = x"
  "pi_y (snd (pi_update p x)) = fst (pi_update p x)"
  by (simp_all add: pi_update_def Let_def)

lemma pi_update_clamped:
  "pi_y_min p \<le> pi_y_max p \<Longrightarrow>
   pi_y_min p \<le> fst (pi_update p x) \<and> fst (pi_update p x) \<le> pi_y_max p"
  by (simp add: pi_update_def Let_def)

lemma pi_init_simps [simp]:
  "pi_integrator (pi_init p) = 0" "pi_y (pi_init p) = pi_bias p"
  "pi_ki (pi_init p) = pi_ki p" "pi_kp (pi_init p) = pi_kp p"
  "pi_bias (pi_init p) = pi_bias p" "pi_anti_windup (pi_init p) = pi_anti_windup p"
  "pi_y_min (pi_init p) = pi_y_min p" "pi_y_max (pi_init p) = pi_y_max p"
  by (simp_all add: pi_init_def)

text \<open>
  The controller over unbounded integers: the proportional and the integral branch, scaled
  down by \<open>PI_FRACBITS\<close>, plus the bias, clamped.
\<close>

definition pi_ideal_y :: "int \<Rightarrow> int \<Rightarrow> int \<Rightarrow> int \<Rightarrow> int \<Rightarrow> int" where
  "pi_ideal_y ki kp bias i x = (ki * (i + x) + kp * x) div 4096 + bias"

definition clamp :: "int \<Rightarrow> int \<Rightarrow> int \<Rightarrow> int" where
  "clamp lo hi v = (if v < lo then lo else if hi < v then hi else v)"

definition pi_ideal_i :: "int \<Rightarrow> int \<Rightarrow> int \<Rightarrow> int \<Rightarrow> int" where
  "pi_ideal_i y lo hi d = (if y < lo then max 0 d else if hi < y then min 0 d else d)"

text \<open>The integrator of the ideal controller after a sequence of errors, from zero.\<close>

definition pi_ideal_run :: "int \<Rightarrow> int \<Rightarrow> int \<Rightarrow> int \<Rightarrow> int \<Rightarrow> int list \<Rightarrow> int" where
  "pi_ideal_run ki kp bias lo hi es =
     foldl (\<lambda>i e. i + pi_ideal_i (pi_ideal_y ki kp bias i e) lo hi e) 0 es"

lemma pi_ideal_run_simps [simp]:
  "pi_ideal_run ki kp bias lo hi [] = 0"
  "pi_ideal_run ki kp bias lo hi (es @ [e]) =
     pi_ideal_run ki kp bias lo hi es +
     pi_ideal_i (pi_ideal_y ki kp bias (pi_ideal_run ki kp bias lo hi es) e) lo hi e"
  by (simp_all add: pi_ideal_run_def)

definition pi_run :: "spll_pi_t \<Rightarrow> int list \<Rightarrow> spll_pi_t" where
  "pi_run p es = foldl (\<lambda>p e. snd (pi_update p e)) p es"

text \<open>
  A gain set for which the controller cannot overflow: the errors it is fed are at most \<open>E\<close>
  in absolute value and the integrator is at most \<open>B\<close>. The last three assumptions say that
  the output saturates before the integrator reaches \<open>B\<close>; with the anti-windup rule this
  makes \<open>B\<close> an invariant.
\<close>

locale pi_gains =
  fixes ki kp bias ymin ymax E B :: int
  assumes ki_pos: "0 < ki" and kp_nonneg: "0 \<le> kp" and E_nonneg: "0 \<le> E" and B_nonneg: "0 \<le> B"
    and range: "0 \<le> ymin" "ymin \<le> ymax" "ymax < 2 ^ 20" "0 \<le> bias" "bias < 2 ^ 20"
    and fits: "ki * (B + E) + kp * E < 2 ^ 31"
    and top: "(ymax - bias + 1) * 4096 + kp * E \<le> ki * B"
    and bottom: "(bias - ymin) * 4096 + kp * E \<le> ki * B"
begin

definition gains :: "spll_pi_t \<Rightarrow> bool" where
  "gains p \<longleftrightarrow> pi_ki p = ki \<and> pi_kp p = kp \<and> pi_bias p = bias \<and> pi_y_min p = ymin \<and>
     pi_y_max p = ymax \<and> pi_anti_windup p \<noteq> 0"

definition bounded :: "spll_pi_t \<Rightarrow> bool" where
  "bounded p \<longleftrightarrow> gains p \<and> \<bar>pi_integrator p\<bar> \<le> B"

lemma B_E_small: "B + E < 2 ^ 31"
proof -
  have "B + E \<le> ki * (B + E)" using ki_pos B_nonneg E_nonneg by (simp add: mult_le_cancel_right1)
  moreover have "0 \<le> kp * E" using kp_nonneg E_nonneg by simp
  ultimately show ?thesis using fits by linarith
qed

lemma products:
  assumes "\<bar>i\<bar> \<le> B + E" "\<bar>x\<bar> \<le> E"
  shows "\<bar>ki * i\<bar> \<le> ki * (B + E)" "\<bar>kp * x\<bar> \<le> kp * E"
  using assms ki_pos kp_nonneg by (simp_all add: abs_mult mult_left_mono)

lemma raw_output:
  assumes "\<bar>i\<bar> \<le> B" "\<bar>x\<bar> \<le> E"
  shows "add32 (drop_bit PI_FRACBITS (add32 (mul32 (add32 i x) ki) (mul32 x kp))) bias
    = pi_ideal_y ki kp bias i x"
proof -
  let ?v = "ki * (i + x) + kp * x"
  have ix: "\<bar>i + x\<bar> \<le> B + E" using assms by linarith
  have "\<bar>?v\<bar> \<le> ki * (B + E) + kp * E"
    using products [OF ix assms(2)] by linarith
  with fits have v: "in32 ?v" by (auto simp: in32_def)
  have "add32 i x = i + x" using ix B_E_small by (simp add: c_arith)
  then have "add32 (mul32 (add32 i x) ki) (mul32 x kp) = s32 ?v"
    by (simp add: c_arith ac_simps)
  also have "\<dots> = ?v" using v by (rule s32_id)
  finally have *: "drop_bit PI_FRACBITS (add32 (mul32 (add32 i x) ki) (mul32 x kp)) = ?v div 4096"
    by (simp add: drop_bit_eq_div)
  have "- (2 ^ 19) \<le> ?v div 4096" "?v div 4096 < 2 ^ 19" using v by (auto simp: in32_def)
  with range show ?thesis unfolding * pi_ideal_y_def by (simp add: c_arith)
qed

lemma integrator_step:
  assumes i: "\<bar>i\<bar> \<le> B" and x: "\<bar>x\<bar> \<le> E"
  shows "\<bar>i + pi_ideal_i (pi_ideal_y ki kp bias i x) ymin ymax x\<bar> \<le> B"
proof -
  define v where "v = ki * (i + x) + kp * x"
  have kpx: "\<bar>kp * x\<bar> \<le> kp * E" using products(2) [of 0 x] x B_nonneg E_nonneg by simp
  have y: "pi_ideal_y ki kp bias i x = v div 4096 + bias" by (simp add: pi_ideal_y_def v_def)
  have up: "v div 4096 + bias \<le> ymax \<Longrightarrow> i + x \<le> B"
  proof -
    assume "v div 4096 + bias \<le> ymax"
    then have "v div 4096 * 4096 \<le> (ymax - bias) * 4096" by simp
    moreover have "v = v div 4096 * 4096 + v mod 4096" "v mod 4096 < 4096" by simp_all
    ultimately have "v \<le> (ymax - bias + 1) * 4096" by (simp only: ring_distribs)
    then have "ki * (i + x) \<le> ki * B" using kpx top unfolding v_def by linarith
    then show ?thesis using ki_pos by simp
  qed
  have down: "ymin \<le> v div 4096 + bias \<Longrightarrow> - B \<le> i + x"
  proof -
    assume "ymin \<le> v div 4096 + bias"
    then have "(ymin - bias) * 4096 \<le> v div 4096 * 4096" by simp
    also have "\<dots> \<le> v" by (simp add: minus_mod_eq_div_mult [symmetric])
    finally have "- (bias - ymin) * 4096 \<le> v" by simp
    then have "ki * (- B) \<le> ki * (i + x)" using kpx bottom unfolding v_def by linarith
    then show ?thesis using ki_pos by (simp only: mult_le_cancel_left_pos)
  qed
  show ?thesis using i up down range(2) unfolding y pi_ideal_i_def by auto
qed

text \<open>
  Under those gains \<open>pi_update\<close> is the ideal controller, and the bound on the integrator is
  an invariant: no sequence of admissible errors makes the 32-bit arithmetic overflow.
\<close>

lemma pi_update_ideal:
  assumes "bounded p" "\<bar>x\<bar> \<le> E"
  shows "fst (pi_update p x) = clamp ymin ymax (pi_ideal_y ki kp bias (pi_integrator p) x)"
    and "pi_integrator (snd (pi_update p x)) = pi_integrator p +
      pi_ideal_i (pi_ideal_y ki kp bias (pi_integrator p) x) ymin ymax x"
proof -
  have g: "gains p" and i: "\<bar>pi_integrator p\<bar> \<le> B" using assms(1) by (auto simp: bounded_def)
  have ix: "add32 (pi_integrator p) x = pi_integrator p + x"
    using i assms(2) B_E_small by (simp add: c_arith)
  note y = raw_output [OF i assms(2), unfolded ix]
  show "fst (pi_update p x) = clamp ymin ymax (pi_ideal_y ki kp bias (pi_integrator p) x)"
    using g y range(2) by (simp add: pi_update_def Let_def gains_def clamp_def ix)
  show "pi_integrator (snd (pi_update p x)) = pi_integrator p +
      pi_ideal_i (pi_ideal_y ki kp bias (pi_integrator p) x) ymin ymax x"
    using g y range(2) by (auto simp: pi_update_def Let_def gains_def pi_ideal_i_def ix)
qed

lemma bounded_update:
  assumes "bounded p" "\<bar>x\<bar> \<le> E"
  shows "bounded (snd (pi_update p x))"
  using assms pi_update_ideal(2) [OF assms] integrator_step [of "pi_integrator p" x]
  by (simp add: bounded_def gains_def pi_update_params)

lemma bounded_init: "gains p \<Longrightarrow> bounded (pi_init p)"
  using B_nonneg by (simp add: bounded_def gains_def)

lemma run_ideal:
  assumes "gains p" "\<forall>e\<in>set es. \<bar>e\<bar> \<le> E"
  shows "bounded (pi_run (pi_init p) es) \<and>
    pi_integrator (pi_run (pi_init p) es) = pi_ideal_run ki kp bias ymin ymax es"
  using assms(2)
proof (induction es rule: rev_induct)
  case Nil
  then show ?case using bounded_init [OF assms(1)] by (simp add: pi_run_def)
next
  case (snoc e es)
  then have e: "\<bar>e\<bar> \<le> E" and IH: "bounded (pi_run (pi_init p) es)"
    "pi_integrator (pi_run (pi_init p) es) = pi_ideal_run ki kp bias ymin ymax es" by simp_all
  show ?case using bounded_update [OF IH(1) e] pi_update_ideal(2) [OF IH(1) e] IH(2)
    by (simp add: pi_run_def)
qed

end

section \<open>The lock detector\<close>

definition ld_wf :: "spll_lock_det_t \<Rightarrow> bool" where
  "ld_wf d \<longleftrightarrow> 0 \<le> ld_delock_samples d \<and> ld_delock_samples d < ld_lock_samples d \<and>
     ld_lock_samples d < 2 ^ 31 \<and> 0 \<le> ld_lock_cnt d \<and> ld_lock_cnt d \<le> ld_lock_samples d \<and>
     (ld_locked d = 0 \<or> ld_locked d = 1) \<and>
     (ld_locked d = 1 \<longrightarrow> ld_delock_samples d < ld_lock_cnt d) \<and>
     (ld_locked d = 0 \<longrightarrow> ld_lock_cnt d < ld_lock_samples d)"

definition ld_good :: "spll_lock_det_t \<Rightarrow> int \<Rightarrow> bool" where
  "ld_good d y \<longleftrightarrow> abs32 y \<le> ld_threshold d"

fun ld_run :: "spll_lock_det_t \<Rightarrow> int list \<Rightarrow> spll_lock_det_t" where
  "ld_run d [] = d"
| "ld_run d (y # ys) = ld_run (snd (ld_update d y)) ys"

lemma ld_update_params [simp]:
  "ld_lock_samples (snd (ld_update d y)) = ld_lock_samples d"
  "ld_delock_samples (snd (ld_update d y)) = ld_delock_samples d"
  "ld_threshold (snd (ld_update d y)) = ld_threshold d"
  by (simp_all add: ld_update_def Let_def)

lemma ld_good_update [simp]: "ld_good (snd (ld_update d y)) = ld_good d"
  by (simp add: ld_good_def fun_eq_iff)

lemma ld_run_params [simp]:
  "ld_lock_samples (ld_run d ys) = ld_lock_samples d"
  "ld_delock_samples (ld_run d ys) = ld_delock_samples d"
  "ld_threshold (ld_run d ys) = ld_threshold d"
  by (induction ys arbitrary: d) simp_all

lemma ld_run_append: "ld_run d (xs @ ys) = ld_run (ld_run d xs) ys"
  by (induction xs arbitrary: d) simp_all

lemma ld_update_wf: "ld_wf d \<Longrightarrow> ld_wf (snd (ld_update d y))"
  by (auto simp: ld_wf_def ld_update_def Let_def c_arith)

lemma ld_run_wf: "ld_wf d \<Longrightarrow> ld_wf (ld_run d ys)"
  by (induction ys arbitrary: d) (simp_all add: ld_update_wf)

text \<open>One step of the detector on a well-formed state, over unbounded integers.\<close>

lemma ld_update_good_step:
  assumes "ld_wf d" "ld_good d y"
  shows "ld_lock_cnt (snd (ld_update d y)) = min (ld_lock_samples d) (ld_lock_cnt d + 1)"
    and "ld_locked (snd (ld_update d y)) =
      (if ld_lock_samples d \<le> ld_lock_cnt d + 1 then 1 else ld_locked d)"
  using assms by (auto simp: ld_wf_def ld_good_def ld_update_def Let_def c_arith)

lemma ld_update_bad_step:
  assumes "ld_wf d" "\<not> ld_good d y" "ld_locked d = 1"
  shows "ld_lock_cnt (snd (ld_update d y)) =
      (if ld_lock_cnt d - 1 = ld_delock_samples d then 0 else ld_lock_cnt d - 1)"
    and "ld_locked (snd (ld_update d y)) =
      (if ld_lock_cnt d - 1 = ld_delock_samples d then 0 else 1)"
  using assms by (auto simp: ld_wf_def ld_good_def ld_update_def Let_def c_arith)

lemma ld_run_good:
  assumes "ld_wf d" "list_all (ld_good d) ys"
  shows "ld_lock_cnt (ld_run d ys) = min (ld_lock_samples d) (ld_lock_cnt d + int (length ys)) \<and>
    (ld_locked d = 1 \<longrightarrow> ld_locked (ld_run d ys) = 1)"
  using assms
proof (induction ys arbitrary: d)
  case Nil
  then show ?case by (simp add: ld_wf_def)
next
  case (Cons y ys)
  let ?d = "snd (ld_update d y)"
  have "list_all (ld_good ?d) ys" and g: "ld_good d y" using Cons.prems(2) by simp_all
  note IH = Cons.IH [OF ld_update_wf [OF Cons.prems(1)] this(1)]
  note st = ld_update_good_step [OF Cons.prems(1) g]
  show ?case using IH Cons.prems(1) by (simp add: st min_def)
qed

lemma ld_run_locks:
  assumes wf: "ld_wf d" and good: "list_all (ld_good d) ys"
    and len: "ld_lock_samples d - ld_lock_cnt d \<le> int (length ys)"
  shows "ld_locked (ld_run d ys) = 1"
proof -
  have "ld_lock_cnt (ld_run d ys) = ld_lock_samples (ld_run d ys)"
    using ld_run_good [OF wf good] len by simp
  then show ?thesis using ld_run_wf [OF wf, of ys] by (auto simp: ld_wf_def)
qed

lemma ld_run_bad_keeps:
  assumes "ld_wf d" "ld_locked d = 1" "list_all (\<lambda>y. \<not> ld_good d y) ys"
    and "int (length ys) < ld_lock_cnt d - ld_delock_samples d"
  shows "ld_locked (ld_run d ys) = 1 \<and> ld_lock_cnt (ld_run d ys) = ld_lock_cnt d - int (length ys)"
  using assms
proof (induction ys arbitrary: d)
  case (Cons y ys)
  let ?d = "snd (ld_update d y)"
  note st = ld_update_bad_step [OF Cons.prems(1) _ Cons.prems(2), of y]
  have "ld_locked ?d = 1" "ld_lock_cnt ?d = ld_lock_cnt d - 1"
    using st Cons.prems(3,4) by auto
  with Cons.IH [OF ld_update_wf [OF Cons.prems(1)] this(1)] Cons.prems(3,4) show ?case by simp
qed simp

text \<open>
  A locked detector drops the lock on exactly the \<open>lock_cnt - delock_samples\<close>-th bad sample
  in a row, and starts over from zero.
\<close>

lemma ld_run_bad_drops:
  assumes "ld_wf d" "ld_locked d = 1" "list_all (\<lambda>y. \<not> ld_good d y) ys"
    and len: "int (length ys) = ld_lock_cnt d - ld_delock_samples d"
  shows "ld_locked (ld_run d ys) = 0 \<and> ld_lock_cnt (ld_run d ys) = 0"
proof -
  from len assms(1,2) have "ys \<noteq> []" by (auto simp: ld_wf_def)
  then obtain zs z where ys: "ys = zs @ [z]" by (metis rev_exhaust)
  let ?e = "ld_run d zs"
  have e: "ld_locked ?e = 1" "ld_lock_cnt ?e = ld_delock_samples ?e + 1"
    using ld_run_bad_keeps [OF assms(1,2), of zs] assms(3) len by (simp_all add: ys)
  have "\<not> ld_good ?e z" using assms(3) by (simp add: ys ld_good_def)
  from ld_update_bad_step [OF ld_run_wf [OF assms(1)] this e(1)] e(2)
  show ?thesis by (simp add: ys ld_run_append)
qed

lemma ld_update_result:
  "fst (ld_update d y) \<noteq> - 1 \<Longrightarrow> fst (ld_update d y) = ld_locked (snd (ld_update d y))"
  by (auto simp: ld_update_def Let_def split: if_splits)

lemma ld_update_lock_lost:
  "ld_wf d \<Longrightarrow> fst (ld_update d y) = - 1 \<Longrightarrow> ld_locked (snd (ld_update d y)) = 0"
  by (auto simp: ld_wf_def ld_update_def Let_def split: if_splits)

section \<open>The low-pass filter does not overshoot\<close>

lemma lowpass_first: "fst (lowpass_update (lowpass_init lp alpha) x) = x"
  by (simp add: lowpass_init_def lowpass_update_def)

lemma lowpass_no_overshoot:
  assumes "0 \<le> lp_alpha lp" "lp_alpha lp \<le> 2 ^ 15"
    and "in32 (lp_y_d lp)" "in32 x" "lp_y_d lp \<noteq> INT_MIN"
    and "in32 (x - lp_y_d lp)" "in32 (lp_alpha lp * (x - lp_y_d lp))"
  shows "min x (lp_y_d lp) \<le> fst (lowpass_update lp x) \<and>
    fst (lowpass_update lp x) \<le> max x (lp_y_d lp)"
proof -
  define d where "d = x - lp_y_d lp"
  define sc where "sc = lp_alpha lp * d div 32768"
  have sc: "min 0 d \<le> sc" "sc \<le> max 0 d"
  proof -
    have "32768 * min 0 d \<le> lp_alpha lp * d" "lp_alpha lp * d \<le> 32768 * max 0 d"
      using assms(1,2) by (cases "0 \<le> d"; simp add: mult_right_mono mult_right_mono_neg
          mult_nonneg_nonpos)+
    then show "min 0 d \<le> sc" "sc \<le> max 0 d" unfolding sc_def by linarith+
  qed
  have "min 0 sc \<le> sc div 2 + sc mod 2" "sc div 2 + sc mod 2 \<le> max 0 sc" by presburger+
  with sc have half: "min 0 d \<le> sc div 2 + sc mod 2" "sc div 2 + sc mod 2 \<le> max 0 d" by linarith+
  have "sub32 x (lp_y_d lp) = d" using assms(6) by (simp add: c_arith d_def s32_id)
  moreover have "mul32 (lp_alpha lp) d = lp_alpha lp * d"
    using assms(7) by (simp add: c_arith d_def s32_id)
  moreover have "sc AND 1 = sc mod 2" by (simp add: and_one_eq)
  ultimately have "fst (lowpass_update lp x) = add32 (add32 (lp_y_d lp) (sc div 2)) (sc mod 2)"
    using assms(5) by (simp add: lowpass_update_def Let_def sc_def drop_bit_eq_div)
  also have "\<dots> = s32 (lp_y_d lp + (sc div 2 + sc mod 2))" by (simp add: c_arith add.assoc)
  also have "\<dots> = lp_y_d lp + (sc div 2 + sc mod 2)"
  proof (rule s32_id)
    show "in32 (lp_y_d lp + (sc div 2 + sc mod 2))"
      using assms(3,4) half by (auto simp: in32_def d_def)
  qed
  finally have y: "fst (lowpass_update lp x) = lp_y_d lp + (sc div 2 + sc mod 2)" .
  show ?thesis using half unfolding y d_def by auto
qed

section \<open>Unwrapping a tag counter\<close>

text \<open>
  The tag counters are \<open>TAG_BITS\<close> wide: a tag smaller than its predecessor means one more turn.
\<close>

fun turns :: "int \<Rightarrow> int list \<Rightarrow> int" where
  "turns prev [] = 0"
| "turns prev (t # ts) = (if t < prev then 1 else 0) + turns t ts"

lemma turns_snoc: "turns p (ts @ [t]) = turns p ts + (if t < last (p # ts) then 1 else 0)"
  by (induction ts arbitrary: p) simp_all

lemma s32_diff_cong: "s32 (a - b) = s32 c \<Longrightarrow> s32 (k + a - b) = s32 (k + c)"
proof -
  assume "s32 (a - b) = s32 c"
  then have "s32 (k + s32 (a - b)) = s32 (k + s32 c)" by simp
  then show ?thesis by (simp add: add_diff_eq)
qed

end
