(* ===== verification/Spll_Helper.thy ===== *)
theory Spll_Helper
  imports Spll_Common
begin

text \<open>
  \<open>softpll/spll_helper.c\<close>: the helper PLL, which steers the DDMTD oscillator. The error it
  feeds to its controller is shown to be the phase error of the unwrapped tags, and its
  32-bit arithmetic not to overflow.
\<close>

section \<open>The code\<close>

abbreviation (input) HELPER_TAG_WRAPAROUND :: int where "HELPER_TAG_WRAPAROUND \<equiv> 100000000"
abbreviation (input) HELPER_ERROR_CLAMP :: int where "HELPER_ERROR_CLAMP \<equiv> 150000"

record spll_helper_state =
  hl_p_adder :: int
  hl_p_setpoint :: int
  hl_tag_d0 :: int
  hl_ref_src :: int
  hl_sample_n :: int
  hl_delock_count :: int
  hl_pi :: spll_pi_t
  hl_ld :: spll_lock_det_t
  hl_precomp :: spll_biquad_t

definition helper_precomp_coefs :: "int list" where
  "helper_precomp_coefs = [60648, 60648, 0, 55760, 0]"

definition helper_init :: "spll_helper_state \<Rightarrow> int \<Rightarrow> spll_helper_state" where
  "helper_init s ref_channel = s\<lparr>
     hl_pi := (hl_pi s)\<lparr>pi_y_min := 5, pi_y_max := shl32 1 DAC_BITS - 5, pi_kp := 150, pi_ki := 2,
       pi_anti_windup := 1\<rparr>,
     hl_ld := (hl_ld s)\<lparr>ld_threshold := 200, ld_lock_samples := 10000, ld_delock_samples := 100\<rparr>,
     hl_ref_src := ref_channel,
     hl_delock_count := 0\<rparr>"

definition helper_update ::
  "spll_helper_state \<Rightarrow> int \<Rightarrow> int \<Rightarrow> spll_hw \<Rightarrow> int \<times> spll_helper_state \<times> spll_hw" where
  "helper_update s tag source h =
    (if source = hl_ref_src s then
      let h = spll_debug (DBG_TAG OR DBG_HELPER) tag 0 h;
          h = spll_debug (DBG_REF OR DBG_HELPER) (hl_p_setpoint s) 0 h
      in if hl_tag_d0 s < 0 then
           (SPLL_LOCKING, s\<lparr>hl_p_setpoint := tag, hl_tag_d0 := tag\<rparr>, h)
         else
           let s = (if tag < hl_tag_d0 s
                    then s\<lparr>hl_p_adder := add32 (hl_p_adder s) (shl32 1 TAG_BITS)\<rparr> else s);
               err = sub32 (add32 tag (hl_p_adder s)) (hl_p_setpoint s);
               err = (if err < - HELPER_ERROR_CLAMP then - HELPER_ERROR_CLAMP else err);
               err = (if HELPER_ERROR_CLAMP < err then HELPER_ERROR_CLAMP else err);
               s = (if HELPER_TAG_WRAPAROUND < add32 tag (hl_p_adder s) \<and>
                       HELPER_TAG_WRAPAROUND < hl_p_setpoint s
                    then s\<lparr>hl_p_adder := sub32 (hl_p_adder s) HELPER_TAG_WRAPAROUND,
                           hl_p_setpoint := sub32 (hl_p_setpoint s) HELPER_TAG_WRAPAROUND\<rparr>
                    else s);
               s = s\<lparr>hl_p_setpoint := add32 (hl_p_setpoint s) (shl32 1 HPLL_N), hl_tag_d0 := tag\<rparr>;
               (y, p) = pi_update (hl_pi s) err;
               s = s\<lparr>hl_pi := p\<rparr>;
               h = h\<lparr>r_DAC_HPLL := to_u32 y\<rparr>;
               h = spll_debug (DBG_SAMPLE_ID OR DBG_HELPER) (hl_sample_n s) 0 h;
               s = s\<lparr>hl_sample_n := add32 (hl_sample_n s) 1\<rparr>;
               h = spll_debug (DBG_Y OR DBG_HELPER) y 0 h;
               h = spll_debug (DBG_ERR OR DBG_HELPER) err 1 h;
               (l, d) = ld_update (hl_ld s) err;
               s = s\<lparr>hl_ld := d\<rparr>
           in (if l \<noteq> 0 then SPLL_LOCKED else SPLL_LOCKING, s, h)
     else (SPLL_LOCKING, s, h))"

definition helper_start :: "spll_helper_state \<Rightarrow> spll_hw \<Rightarrow> spll_helper_state \<times> spll_hw" where
  "helper_start s h =
     (let s = s\<lparr>hl_pi := (hl_pi s)\<lparr>pi_bias := pi_y_max (hl_pi s)\<rparr>\<rparr>;
          s = s\<lparr>hl_p_setpoint := 0, hl_p_adder := 0, hl_sample_n := 0, hl_tag_d0 := - 1\<rparr>;
          s = s\<lparr>hl_pi := pi_init (hl_pi s), hl_ld := ld_init (hl_ld s)\<rparr>;
          s = s\<lparr>hl_precomp := biquad_init helper_precomp_coefs 16\<rparr>;
          h = spll_enable_tagger (hl_ref_src s) 1 h;
          h = spll_debug (DBG_EVENT OR DBG_HELPER) DBG_EVT_START 1 h
      in (s, h))"

text \<open>The tags of the reference channel, delivered one by one.\<close>

fun helper_feed ::
  "spll_helper_state \<Rightarrow> int list \<Rightarrow> spll_hw \<Rightarrow> spll_helper_state \<times> spll_hw" where
  "helper_feed s [] h = (s, h)"
| "helper_feed s (t # ts) h =
     (let (l, s, h) = helper_update s t (hl_ref_src s) h in helper_feed s ts h)"

section \<open>The true phase error\<close>

text \<open>
  The tag counter is \<open>TAG_BITS\<close> wide: a tag smaller than its predecessor means one more turn.
  The true error after the tags \<open>t0 # ts\<close> is the distance of the unwrapped tag from a ramp
  that advances by \<open>2 ^ HPLL_N\<close> per tag and starts at \<open>t0\<close>.
\<close>

definition helper_true_err :: "int \<Rightarrow> int list \<Rightarrow> int" where
  "helper_true_err t0 ts =
     last (t0 # ts) + 2 ^ TAG_BITS * turns t0 ts - t0 - 2 ^ HPLL_N * (int (length ts) - 1)"

text \<open>
  The ideal error obeys the recurrence the code computes incrementally: one more turn when
  the tag wraps, one more step of the ramp.
\<close>

lemma helper_true_err_snoc:
  "helper_true_err t0 (ts @ [t]) =
     t + 2 ^ TAG_BITS * (turns t0 ts + (if t < last (t0 # ts) then 1 else 0)) - t0
     - 2 ^ HPLL_N * int (length ts)"
  by (simp add: helper_true_err_def turns_snoc)

section \<open>The controller of the helper does not overflow\<close>

interpretation hg: pi_gains 2 150 65531 5 65531 150000 145500000
  by unfold_locales simp_all

lemma helper_gains:
  "hg.bounded (hl_pi (fst (helper_start (helper_init s ch) h)))"
  by (simp add: helper_start_def helper_init_def Let_def hg.bounded_def hg.gains_def c_arith)

section \<open>The invariant\<close>

definition helper_inv :: "int \<Rightarrow> int list \<Rightarrow> spll_helper_state \<Rightarrow> bool" where
  "helper_inv t0 ts s \<longleftrightarrow> hl_tag_d0 s = last (t0 # ts) \<and>
     s32 (hl_p_adder s - hl_p_setpoint s) =
       s32 (2 ^ TAG_BITS * turns t0 ts - t0 - 2 ^ HPLL_N * int (length ts)) \<and>
     hg.bounded (hl_pi s) \<and> ld_wf (hl_ld s)"

lemma helper_start_first:
  assumes "0 \<le> t0"
  shows "helper_inv t0 [] (fst (snd (helper_update (fst (helper_start (helper_init s ch) h)) t0 ch h')))"
  using assms
  by (simp add: helper_update_def helper_inv_def helper_start_def helper_init_def Let_def
      hg.bounded_def hg.gains_def c_arith ld_wf_def ld_init_def)

abbreviation helper_clamp :: "int \<Rightarrow> int" where
  "helper_clamp \<equiv> clamp (- HELPER_ERROR_CLAMP) HELPER_ERROR_CLAMP"

definition helper_err :: "spll_helper_state \<Rightarrow> int \<Rightarrow> int" where
  "helper_err s t = helper_clamp (sub32 (add32 t
     (if t < hl_tag_d0 s then add32 (hl_p_adder s) (shl32 1 TAG_BITS) else hl_p_adder s))
     (hl_p_setpoint s))"

lemma helper_update_other: "source \<noteq> hl_ref_src s \<Longrightarrow> helper_update s t source h = (SPLL_LOCKING, s, h)"
  by (simp add: helper_update_def)

lemma helper_clamp_code:
  "(if HELPER_ERROR_CLAMP < (if e < - HELPER_ERROR_CLAMP then - HELPER_ERROR_CLAMP else e)
    then HELPER_ERROR_CLAMP
    else if e < - HELPER_ERROR_CLAMP then - HELPER_ERROR_CLAMP else e) = helper_clamp e"
  by (simp add: clamp_def)

lemmas helper_field_distribs =
  if_distrib [of hl_pi] if_distrib [of hl_ld] if_distrib [of hl_p_adder]
  if_distrib [of hl_p_setpoint] if_distrib [of hl_tag_d0] if_distrib [of hl_sample_n]
  if_distrib [of hl_ref_src]

lemma helper_update_track:
  assumes "\<not> hl_tag_d0 s < 0"
  shows "fst (helper_update s t (hl_ref_src s) h) =
      (if fst (ld_update (hl_ld s) (helper_err s t)) \<noteq> 0 then SPLL_LOCKED else SPLL_LOCKING)"
    and "hl_pi (fst (snd (helper_update s t (hl_ref_src s) h))) =
      snd (pi_update (hl_pi s) (helper_err s t))"
    and "hl_ld (fst (snd (helper_update s t (hl_ref_src s) h))) =
      snd (ld_update (hl_ld s) (helper_err s t))"
    and "hl_tag_d0 (fst (snd (helper_update s t (hl_ref_src s) h))) = t"
    and "r_DAC_HPLL (snd (snd (helper_update s t (hl_ref_src s) h))) =
      to_u32 (fst (pi_update (hl_pi s) (helper_err s t)))"
  using assms
  by (simp_all add: helper_update_def helper_err_def case_prod_beta Let_def helper_clamp_code
      helper_field_distribs split del: if_split cong: if_cong)

definition helper_adder :: "spll_helper_state \<Rightarrow> int \<Rightarrow> int" where
  "helper_adder s t =
     (if t < hl_tag_d0 s then add32 (hl_p_adder s) (shl32 1 TAG_BITS) else hl_p_adder s)"

definition helper_rebases :: "spll_helper_state \<Rightarrow> int \<Rightarrow> bool" where
  "helper_rebases s t \<longleftrightarrow> HELPER_TAG_WRAPAROUND < add32 t (helper_adder s t) \<and>
     HELPER_TAG_WRAPAROUND < hl_p_setpoint s"

lemma helper_update_accumulators:
  assumes "\<not> hl_tag_d0 s < 0"
  shows "hl_p_adder (fst (snd (helper_update s t (hl_ref_src s) h))) =
      (if helper_rebases s t then sub32 (helper_adder s t) HELPER_TAG_WRAPAROUND
       else helper_adder s t)"
    and "hl_p_setpoint (fst (snd (helper_update s t (hl_ref_src s) h))) =
      add32 (if helper_rebases s t then sub32 (hl_p_setpoint s) HELPER_TAG_WRAPAROUND
        else hl_p_setpoint s) (shl32 1 HPLL_N)"
    and "hl_ref_src (fst (snd (helper_update s t (hl_ref_src s) h))) = hl_ref_src s"
  using assms
  by (simp_all add: helper_update_def case_prod_beta Let_def helper_rebases_def helper_adder_def
      helper_field_distribs split del: if_split cong: if_cong)

lemma helper_adder_cong:
  "s32 (helper_adder s t - k) =
   s32 (hl_p_adder s - k + (if t < hl_tag_d0 s then 2 ^ TAG_BITS else 0))"
  by (simp add: helper_adder_def c_arith) (simp add: algebra_simps)

text \<open>
  Rebasing subtracts the same amount from both accumulators, so it cannot be seen in their
  difference: only the turn of the tag counter and the step of the ramp can.
\<close>

lemma helper_update_acc:
  assumes "\<not> hl_tag_d0 s < 0"
  shows "s32 (hl_p_adder (fst (snd (helper_update s t (hl_ref_src s) h))) -
       hl_p_setpoint (fst (snd (helper_update s t (hl_ref_src s) h)))) =
     s32 (hl_p_adder s - hl_p_setpoint s + (if t < hl_tag_d0 s then 2 ^ TAG_BITS else 0)
       - 2 ^ HPLL_N)"
proof -
  let ?W = HELPER_TAG_WRAPAROUND
  let ?s' = "fst (snd (helper_update s t (hl_ref_src s) h))"
  note acc = helper_update_accumulators [OF assms, of t h]
  have "s32 (hl_p_adder ?s' - hl_p_setpoint ?s') =
      s32 (helper_adder s t - (hl_p_setpoint s + 2 ^ HPLL_N))"
  proof (cases "helper_rebases s t")
    case True
    then have "s32 (hl_p_adder ?s' - hl_p_setpoint ?s') =
        s32 (helper_adder s t - ?W - (hl_p_setpoint s - ?W + 2 ^ HPLL_N))"
      unfolding acc by (simp add: c_arith)
    then show ?thesis by (simp add: algebra_simps)
  next
    case False
    then show ?thesis unfolding acc by (simp add: c_arith)
  qed
  also have "\<dots> = s32 (hl_p_adder s - (hl_p_setpoint s + 2 ^ HPLL_N) +
      (if t < hl_tag_d0 s then 2 ^ TAG_BITS else 0))"
    by (rule helper_adder_cong)
  finally show ?thesis by (simp add: algebra_simps)
qed

text \<open>
  One tag: the error that reaches the controller and the lock detector is the clamped true
  error, and the invariant holds again.
\<close>

lemma helper_err_true:
  assumes "helper_inv t0 ts s"
  shows "helper_err s t = helper_clamp (s32 (helper_true_err t0 (ts @ [t])))"
proof -
  let ?w = "if t < hl_tag_d0 s then 2 ^ TAG_BITS else 0 :: int"
  have acc: "s32 (hl_p_adder s - hl_p_setpoint s) =
      s32 (2 ^ TAG_BITS * turns t0 ts - t0 - 2 ^ HPLL_N * int (length ts))"
    and d0: "hl_tag_d0 s = last (t0 # ts)"
    using assms by (simp_all add: helper_inv_def)
  have "sub32 (add32 t (helper_adder s t)) (hl_p_setpoint s) =
      s32 (helper_adder s t - (hl_p_setpoint s - t))"
    by (simp add: c_arith algebra_simps)
  also have "\<dots> = s32 ((t + ?w) + hl_p_adder s - hl_p_setpoint s)"
    unfolding helper_adder_cong by (rule arg_cong [where f = s32]) simp
  also have "\<dots> = s32 ((t + ?w) + (2 ^ TAG_BITS * turns t0 ts - t0 - 2 ^ HPLL_N * int (length ts)))"
    by (rule s32_diff_cong [OF acc])
  also have "\<dots> = s32 (helper_true_err t0 (ts @ [t]))"
    by (rule arg_cong [where f = s32]) (simp add: helper_true_err_snoc d0 algebra_simps)
  finally show ?thesis unfolding helper_err_def helper_adder_def [symmetric] by simp
qed

lemma helper_clamp_bound: "\<bar>helper_clamp e\<bar> \<le> HELPER_ERROR_CLAMP"
  by (auto simp: clamp_def)

lemma helper_inv_step:
  assumes inv: "helper_inv t0 ts s" and t: "0 \<le> t" "0 \<le> last (t0 # ts)"
  shows "helper_inv t0 (ts @ [t]) (fst (snd (helper_update s t (hl_ref_src s) h)))"
proof -
  have pos: "\<not> hl_tag_d0 s < 0" using inv t by (simp add: helper_inv_def)
  have "\<bar>helper_err s t\<bar> \<le> 150000" unfolding helper_err_true [OF inv] by (rule helper_clamp_bound)
  then have "hg.bounded (snd (pi_update (hl_pi s) (helper_err s t)))"
    using inv hg.bounded_update by (simp add: helper_inv_def)
  moreover have "ld_wf (snd (ld_update (hl_ld s) (helper_err s t)))"
    using inv by (simp add: helper_inv_def ld_update_wf)
  moreover have "s32 (hl_p_adder s - hl_p_setpoint s + (if t < hl_tag_d0 s then 2 ^ TAG_BITS else 0)
       - 2 ^ HPLL_N) = s32 (2 ^ TAG_BITS * turns t0 (ts @ [t]) - t0 - 2 ^ HPLL_N * int (length (ts @ [t])))"
  proof -
    let ?w = "(if t < hl_tag_d0 s then 2 ^ TAG_BITS else 0) - 2 ^ HPLL_N :: int"
    have "s32 (?w + hl_p_adder s - hl_p_setpoint s) =
        s32 (?w + (2 ^ TAG_BITS * turns t0 ts - t0 - 2 ^ HPLL_N * int (length ts)))"
      by (rule s32_diff_cong) (use inv in \<open>simp add: helper_inv_def\<close>)
    then show ?thesis using inv by (simp add: helper_inv_def turns_snoc algebra_simps)
  qed
  ultimately show ?thesis
    unfolding helper_inv_def helper_update_acc [OF pos] helper_update_track [OF pos] by simp
qed

section \<open>The helper PLL against its specification\<close>

text \<open>
  The errors the specification feeds to the controller and to the lock detector after the
  first tag \<open>t0\<close>: one for every further tag.
\<close>

definition helper_errs :: "int \<Rightarrow> int list \<Rightarrow> int list" where
  "helper_errs t0 ts =
     map (\<lambda>n. helper_clamp (s32 (helper_true_err t0 (take n ts)))) [1..<Suc (length ts)]"

lemma helper_errs_Nil [simp]: "helper_errs t0 [] = []"
  by (simp add: helper_errs_def)

lemma helper_errs_snoc:
  "helper_errs t0 (ts @ [t]) =
     helper_errs t0 ts @ [helper_clamp (s32 (helper_true_err t0 (ts @ [t])))]"
  by (auto simp: helper_errs_def)

lemma helper_feed_snoc:
  "helper_feed s (ts @ [t]) h =
     (let (s', h') = helper_feed s ts h; (l, s'', h'') = helper_update s' t (hl_ref_src s') h'
      in (s'', h''))"
  by (induction ts arbitrary: s h) (simp_all add: Let_def case_prod_beta)

abbreviation helper_boot :: "spll_helper_state \<Rightarrow> int \<Rightarrow> spll_hw \<Rightarrow> spll_helper_state \<times> spll_hw" where
  "helper_boot s ch h \<equiv> helper_start (helper_init s ch) h"

definition helper_after ::
  "spll_helper_state \<Rightarrow> int \<Rightarrow> spll_hw \<Rightarrow> int list \<Rightarrow> spll_helper_state \<times> spll_hw" where
  "helper_after s ch h ts = helper_feed (fst (helper_boot s ch h)) ts (snd (helper_boot s ch h))"

lemma helper_after_snoc:
  "helper_after s ch h (us @ [t]) =
     snd (helper_update (fst (helper_after s ch h us)) t (hl_ref_src (fst (helper_after s ch h us)))
       (snd (helper_after s ch h us)))"
  by (simp add: helper_after_def helper_feed_snoc Let_def case_prod_beta)

lemma ld_run_snoc: "ld_run d (ys @ [y]) = snd (ld_update (ld_run d ys) y)"
  by (simp add: ld_run_append)

lemma helper_after_first:
  assumes "0 \<le> t0"
  shows "helper_inv t0 [] (fst (helper_after s ch h [t0]))"
    and "hl_pi (fst (helper_after s ch h [t0])) = hl_pi (fst (helper_boot s ch h))"
    and "hl_ld (fst (helper_after s ch h [t0])) = hl_ld (fst (helper_boot s ch h))"
  using helper_start_first [OF assms, of s ch h "snd (helper_boot s ch h)"]
  by (simp_all add: helper_after_def helper_update_def helper_start_def helper_init_def Let_def)

lemma helper_boot_pi: "pi_integrator (hl_pi (fst (helper_boot s ch h))) = 0"
  by (simp add: helper_start_def Let_def)

lemma helper_after_inv:
  assumes "0 \<le> t0" "\<forall>t\<in>set ts. 0 \<le> t"
  shows "helper_inv t0 ts (fst (helper_after s ch h (t0 # ts))) \<and>
    pi_integrator (hl_pi (fst (helper_after s ch h (t0 # ts)))) =
      pi_ideal_run 2 150 65531 5 65531 (helper_errs t0 ts) \<and>
    hl_ld (fst (helper_after s ch h (t0 # ts))) =
      ld_run (hl_ld (fst (helper_boot s ch h))) (helper_errs t0 ts)"
  using assms(2)
proof (induction ts rule: rev_induct)
  case Nil
  then show ?case using helper_after_first [OF assms(1), of s ch h] helper_boot_pi by simp
next
  case (snoc t ts)
  let ?s = "fst (helper_after s ch h (t0 # ts))"
  let ?h = "snd (helper_after s ch h (t0 # ts))"
  have IH: "helper_inv t0 ts ?s"
    "pi_integrator (hl_pi ?s) = pi_ideal_run 2 150 65531 5 65531 (helper_errs t0 ts)"
    "hl_ld ?s = ld_run (hl_ld (fst (helper_boot s ch h))) (helper_errs t0 ts)"
    using snoc by simp_all
  have last: "0 \<le> last (t0 # ts)" using snoc.prems assms(1) by auto
  have pos: "\<not> hl_tag_d0 ?s < 0" using IH(1) last by (simp add: helper_inv_def)
  have step: "fst (helper_after s ch h (t0 # ts @ [t])) =
      fst (snd (helper_update ?s t (hl_ref_src ?s) ?h))"
    using helper_after_snoc [of s ch h "t0 # ts" t] by simp
  have small: "\<bar>helper_err ?s t\<bar> \<le> 150000"
    unfolding helper_err_true [OF IH(1)] by (rule helper_clamp_bound)
  have bnd: "hg.bounded (hl_pi ?s)" using IH(1) by (simp add: helper_inv_def)
  show ?case
    unfolding step helper_update_track [OF pos] hg.pi_update_ideal(2) [OF bnd small]
    using helper_inv_step [OF IH(1) _ last, of t ?h] snoc.prems IH(2,3)
    by (simp add: helper_errs_snoc helper_err_true [OF IH(1)] ld_run_snoc)
qed

text \<open>
  C1. The helper PLL implements its specification: after a start and any sequence of
  non-negative tags \<open>t0 # ts @ [t]\<close>, the controller has seen exactly the clamped phase errors
  of the unwrapped tags against the reference ramp (rebasing the accumulators is invisible),
  its integrator is that of the controller over unbounded integers (no 32-bit overflow, no
  wind-up), the lock detector has seen the same errors, and the DAC holds the clamped output.
\<close>

theorem helper_refines_ideal_pll:
  assumes "0 \<le> t0" "\<forall>u\<in>set (ts @ [t]). 0 \<le> u"
  shows "let es = helper_errs t0 ts; e = helper_clamp (s32 (helper_true_err t0 (ts @ [t])));
             (s, h) = helper_start (helper_init s0 ch) h0;
             (s', h') = helper_feed s (t0 # ts @ [t]) h;
             i = pi_ideal_run 2 150 65531 5 65531 es
         in pi_x (hl_pi s') = e \<and>
            pi_integrator (hl_pi s') = pi_ideal_run 2 150 65531 5 65531 (es @ [e]) \<and>
            hl_ld s' = ld_run (hl_ld s) (es @ [e]) \<and>
            r_DAC_HPLL h' = to_u32 (clamp 5 65531 (pi_ideal_y 2 150 65531 i e))"
proof -
  let ?s = "fst (helper_after s0 ch h0 (t0 # ts))"
  let ?h = "snd (helper_after s0 ch h0 (t0 # ts))"
  note inv = helper_after_inv [OF assms(1), of ts s0 ch h0]
  have i: "helper_inv t0 ts ?s" using inv assms(2) by simp
  have "0 \<le> last (t0 # ts)" using assms by auto
  then have pos: "\<not> hl_tag_d0 ?s < 0" using i by (simp add: helper_inv_def)
  have small: "\<bar>helper_err ?s t\<bar> \<le> 150000"
    unfolding helper_err_true [OF i] by (rule helper_clamp_bound)
  have bnd: "hg.bounded (hl_pi ?s)" using i by (simp add: helper_inv_def)
  have step: "helper_after s0 ch h0 (t0 # ts @ [t]) = snd (helper_update ?s t (hl_ref_src ?s) ?h)"
    using helper_after_snoc [of s0 ch h0 "t0 # ts" t] by simp
  have "pi_x (hl_pi (fst (helper_after s0 ch h0 (t0 # ts @ [t])))) =
      helper_clamp (s32 (helper_true_err t0 (ts @ [t])))"
    unfolding step helper_update_track [OF pos] pi_update_params helper_err_true [OF i] ..
  moreover have "r_DAC_HPLL (snd (helper_after s0 ch h0 (t0 # ts @ [t]))) = to_u32 (clamp 5 65531
      (pi_ideal_y 2 150 65531 (pi_integrator (hl_pi ?s)) (helper_err ?s t)))"
    unfolding step helper_update_track(5) [OF pos] hg.pi_update_ideal(1) [OF bnd small] ..
  ultimately show ?thesis
    using helper_after_inv [OF assms, of s0 ch h0] inv assms(2)
    by (simp add: Let_def case_prod_beta helper_errs_snoc helper_err_true [OF i]
        helper_after_def [symmetric] del: helper_feed.simps)
qed

text \<open>The same at a concrete input: a wrap of the tag counter between the second and third tag.\<close>

lemma helper_refines_ideal_pll_witness:
  "\<forall>s0 h0.
   let e = helper_clamp (s32 (helper_true_err 4190000 [4194303, 12000]));
       (s, h) = helper_start (helper_init s0 0) h0;
       (s', h') = helper_feed s [4190000, 4194303, 12000] h
   in e = -80 \<and> pi_x (hl_pi s') = e"
proof (intro allI)
  fix s0 h0
  show "let e = helper_clamp (s32 (helper_true_err 4190000 [4194303, 12000]));
       (s, h) = helper_start (helper_init s0 0) h0;
       (s', h') = helper_feed s [4190000, 4194303, 12000] h
   in e = -80 \<and> pi_x (hl_pi s') = e"
    using helper_refines_ideal_pll [of 4190000 "[4194303]" 12000 s0 0 h0]
    by (simp add: Let_def case_prod_beta helper_true_err_def clamp_def del: helper_feed.simps)
qed

end
