(* ===== verification/Spll_Main.thy ===== *)
theory Spll_Main
  imports Spll_Common
begin

text \<open>
  \<open>softpll/spll_main.c\<close>: the main DDMTD PLL, which locks an output clock to a reference with
  a programmable phase shift. As built (\<open>WITH_SEQUENCING\<close> is undefined), a pair of tags is
  compared as soon as both channels have delivered one.
\<close>

section \<open>The code\<close>

abbreviation (input) MPLL_TAG_WRAPAROUND :: int where "MPLL_TAG_WRAPAROUND \<equiv> 100000000"

abbreviation (input) MATCH_NEXT_TAG :: int where "MATCH_NEXT_TAG \<equiv> 0"

record spll_main_state =
  mp_state :: int
  mp_pi :: spll_pi_t
  mp_ld :: spll_lock_det_t
  mp_adder_ref :: int
  mp_adder_out :: int
  mp_tag_ref :: int
  mp_tag_out :: int
  mp_tag_ref_d :: int
  mp_tag_out_d :: int
  mp_seq_ref :: u32
  mp_seq_out :: u32
  mp_match_state :: int
  mp_match_seq :: int
  mp_phase_shift_target :: int
  mp_phase_shift_current :: int
  mp_id_ref :: int
  mp_id_out :: int
  mp_sample_n :: int
  mp_delock_count :: int
  mp_dac_index :: int

definition mpll_init :: "board_cfg \<Rightarrow> spll_main_state \<Rightarrow> int \<Rightarrow> int \<Rightarrow> spll_hw \<Rightarrow> spll_main_state" where
  "mpll_init b s id_ref id_out h =
     (let s = s\<lparr>mp_pi := (mp_pi s)\<lparr>pi_y_min := 5, pi_y_max := 65530, pi_anti_windup := 1,
                  pi_bias := 65000, pi_kp := (if b_wr_switch b then 1500 else 1100),
                  pi_ki := (if b_wr_switch b then 7 else 30)\<rparr>,
                mp_delock_count := 0,
                mp_ld := (mp_ld s)\<lparr>ld_threshold := 1200, ld_lock_samples := 1000,
                  ld_delock_samples := 100\<rparr>,
                mp_id_ref := id_ref, mp_id_out := id_out,
                mp_dac_index := sub32 id_out (spll_n_chan_ref h)\<rparr>
      in s\<lparr>mp_pi := pi_init (mp_pi s), mp_ld := ld_init (mp_ld s)\<rparr>)"

definition mpll_start :: "spll_main_state \<Rightarrow> spll_hw \<Rightarrow> spll_main_state \<times> spll_hw" where
  "mpll_start s h =
     (let s = s\<lparr>mp_adder_ref := 0, mp_adder_out := 0, mp_tag_ref := - 1, mp_tag_out := - 1,
                mp_tag_ref_d := - 1, mp_tag_out_d := - 1, mp_seq_ref := 0, mp_seq_out := 0,
                mp_match_state := MATCH_NEXT_TAG,
                mp_phase_shift_target := 0, mp_phase_shift_current := 0, mp_sample_n := 0,
                mp_pi := pi_init (mp_pi s), mp_ld := ld_init (mp_ld s)\<rparr>;
          h = spll_enable_tagger (mp_id_ref s) 1 h;
          h = spll_enable_tagger (mp_id_out s) 1 h;
          h = spll_debug (DBG_EVENT OR DBG_MAIN) DBG_EVT_START 1 h
      in (s, h))"

definition mpll_stop :: "spll_main_state \<Rightarrow> spll_hw \<Rightarrow> spll_hw" where
  "mpll_stop s h = spll_enable_tagger (mp_id_out s) 0 h"

text \<open>
  The mask of the error once the PLL is locked: the low \<open>HPLL_N\<close> bits, sign-extended.
\<close>

definition mpll_mask :: "int \<Rightarrow> int" where
  "mpll_mask err =
     (let err = err AND (shl32 1 HPLL_N - 1)
      in if err AND shl32 1 (HPLL_N - 1) \<noteq> 0 then err OR NOT (shl32 1 HPLL_N - 1) else err)"

definition dac_main_value :: "int \<Rightarrow> int \<Rightarrow> u32" where
  "dac_main_value y index = gen_write (to_u32 y) 0 16 OR gen_write (to_u32 index) 16 4"

text \<open>
  \<open>mpll_update\<close>: the tag is stored (\<open>mpll_store\<close>); once both channels have one, the pair is
  processed (\<open>mpll_pair\<close>, the body of the second \<open>if\<close>): the wraps of the tag counters are
  accumulated, the error is computed and fed to the controller, the accumulators are rebased,
  the phase shifter makes a step and the lock detector is updated.
\<close>

definition mpll_store :: "spll_main_state \<Rightarrow> int \<Rightarrow> int \<Rightarrow> spll_main_state" where
  "mpll_store s tag source =
    (let s = (if source = mp_id_ref s then s\<lparr>mp_tag_ref := tag\<rparr> else s)
     in (if source = mp_id_out s then s\<lparr>mp_tag_out := tag\<rparr> else s))"

definition mpll_unwrap :: "spll_main_state \<Rightarrow> spll_main_state" where
  "mpll_unwrap s =
    (let s = (if 0 \<le> mp_tag_ref_d s \<and> mp_tag_ref s < mp_tag_ref_d s
              then s\<lparr>mp_adder_ref := add32 (mp_adder_ref s) (shl32 1 TAG_BITS)\<rparr> else s);
         s = (if 0 \<le> mp_tag_out_d s \<and> mp_tag_out s < mp_tag_out_d s
              then s\<lparr>mp_adder_out := add32 (mp_adder_out s) (shl32 1 TAG_BITS)\<rparr> else s)
     in s\<lparr>mp_tag_ref_d := mp_tag_ref s, mp_tag_out_d := mp_tag_out s\<rparr>)"

definition mpll_rebase :: "spll_main_state \<Rightarrow> spll_main_state" where
  "mpll_rebase s =
    (if mul32 2 MPLL_TAG_WRAPAROUND < mp_adder_ref s \<and>
        mul32 2 MPLL_TAG_WRAPAROUND < mp_adder_out s
     then s\<lparr>mp_adder_ref := sub32 (mp_adder_ref s) MPLL_TAG_WRAPAROUND,
            mp_adder_out := sub32 (mp_adder_out s) MPLL_TAG_WRAPAROUND\<rparr> else s)"

definition mpll_shift :: "spll_main_state \<Rightarrow> spll_main_state" where
  "mpll_shift s =
    (if ld_locked (mp_ld s) \<noteq> 0 then
       if mp_phase_shift_current s < mp_phase_shift_target s
       then s\<lparr>mp_phase_shift_current := add32 (mp_phase_shift_current s) 1,
              mp_adder_ref := add32 (mp_adder_ref s) 1\<rparr>
       else if mp_phase_shift_target s < mp_phase_shift_current s
       then s\<lparr>mp_phase_shift_current := sub32 (mp_phase_shift_current s) 1,
              mp_adder_ref := sub32 (mp_adder_ref s) 1\<rparr>
       else s
     else s)"

definition mpll_pair :: "spll_main_state \<Rightarrow> spll_hw \<Rightarrow> int \<times> spll_main_state \<times> spll_hw" where
  "mpll_pair s h =
    (let s = mpll_unwrap s;
         err = sub32 (sub32 (add32 (mp_adder_ref s) (mp_tag_ref s)) (mp_adder_out s))
                 (mp_tag_out s);
         err = (if ld_locked (mp_ld s) \<noteq> 0 then mpll_mask err else err);
         (y, p) = pi_update (mp_pi s) err;
         s = s\<lparr>mp_pi := p\<rparr>;
         h = h\<lparr>r_DAC_MAIN := dac_main_value y (mp_dac_index s)\<rparr>;
         h = spll_debug (DBG_MAIN OR DBG_REF) (add32 (mp_tag_ref s) (mp_adder_ref s)) 0 h;
         h = spll_debug (DBG_MAIN OR DBG_TAG) (add32 (mp_tag_out s) (mp_adder_out s)) 0 h;
         h = spll_debug (DBG_MAIN OR DBG_ERR) err 0 h;
         h = spll_debug (DBG_MAIN OR DBG_SAMPLE_ID) (mp_sample_n s) 0 h;
         s = s\<lparr>mp_sample_n := add32 (mp_sample_n s) 1\<rparr>;
         h = spll_debug (DBG_MAIN OR DBG_Y) y 1 h;
         s = s\<lparr>mp_tag_out := - 1, mp_tag_ref := - 1\<rparr>;
         s = mpll_rebase s;
         s = mpll_shift s;
         (l, d) = ld_update (mp_ld s) err;
         s = s\<lparr>mp_ld := d\<rparr>
     in (if l \<noteq> 0 then SPLL_LOCKED else SPLL_LOCKING, s, h))"

definition mpll_update ::
  "spll_main_state \<Rightarrow> int \<Rightarrow> int \<Rightarrow> spll_hw \<Rightarrow> int \<times> spll_main_state \<times> spll_hw" where
  "mpll_update s tag source h =
    (let s = mpll_store s tag source
     in if 0 \<le> mp_tag_ref s \<and> 0 \<le> mp_tag_out s then mpll_pair s h
        else (SPLL_LOCKING, s, h))"

definition mpll_set_phase_shift :: "spll_main_state \<Rightarrow> int \<Rightarrow> spll_main_state" where
  "mpll_set_phase_shift s desired_shift = s\<lparr>mp_phase_shift_target := desired_shift\<rparr>"

definition mpll_shifter_busy :: "spll_main_state \<Rightarrow> bool" where
  "mpll_shifter_busy s \<longleftrightarrow> mp_phase_shift_target s \<noteq> mp_phase_shift_current s"

section \<open>The mask of a locked PLL\<close>

lemma mpll_mask_signed: "mpll_mask e = signed_take_bit 13 e"
proof -
  have m: "shl32 1 HPLL_N - 1 = mask 14" "shl32 1 (HPLL_N - 1) = push_bit 13 1"
    by (simp_all add: c_arith mask_eq_exp_minus_1)
  have b: "(e AND mask 14) AND push_bit 13 1 \<noteq> 0 \<longleftrightarrow> bit e 13"
    unfolding bit_iff_and_push_bit_not_eq_0 [symmetric] by (simp add: bit_simps)
  show ?thesis unfolding mpll_mask_def m Let_def b
  proof (rule bit_eqI)
    fix n
    show "bit (if bit e 13 then e AND mask 14 OR NOT (mask 14) else e AND mask 14) n =
        bit (signed_take_bit 13 e) n"
      by (cases "n = 13") (auto simp: bit_simps min_def)
  qed
qed

lemma mpll_mask_eq: "mpll_mask e = (e + 8192) mod 16384 - 8192"
  unfolding mpll_mask_signed by (simp add: signed_take_bit_eq_take_bit_shift take_bit_eq_mod)

lemma mpll_mask_range: "- 8192 \<le> mpll_mask e \<and> mpll_mask e < 8192"
  unfolding mpll_mask_eq by simp

lemma mpll_mask_id: "- 8192 \<le> e \<Longrightarrow> e < 8192 \<Longrightarrow> mpll_mask e = e"
  unfolding mpll_mask_eq by simp

lemma mpll_mask_period: "mpll_mask (e + 2 ^ HPLL_N * k) = mpll_mask e"
proof -
  have "e + 2 ^ HPLL_N * k + 8192 = (e + 8192) + 16384 * k" by simp
  then show ?thesis unfolding mpll_mask_eq by (simp only: mod_mult_self2)
qed

lemma mpll_mask_s32: "mpll_mask (s32 e) = mpll_mask e"
  unfolding mpll_mask_signed s32_def by (simp add: signed_take_bit_signed_take_bit)

section \<open>One pair of tags\<close>

text \<open>The error of a pair, as computed (\<open>mpll_raw_err\<close>) and as used (\<open>mpll_err\<close>).\<close>

definition mpll_wrap :: "int \<Rightarrow> int \<Rightarrow> int" where
  "mpll_wrap prev t = (if 0 \<le> prev \<and> t < prev then 2 ^ TAG_BITS else 0)"

definition mpll_raw_err :: "spll_main_state \<Rightarrow> int" where
  "mpll_raw_err s = s32 (mp_adder_ref s + mpll_wrap (mp_tag_ref_d s) (mp_tag_ref s) + mp_tag_ref s
     - (mp_adder_out s + mpll_wrap (mp_tag_out_d s) (mp_tag_out s) + mp_tag_out s))"

definition mpll_err :: "spll_main_state \<Rightarrow> int" where
  "mpll_err s = (if ld_locked (mp_ld s) \<noteq> 0 then mpll_mask (mpll_raw_err s) else mpll_raw_err s)"

definition mpll_shift_step :: "spll_main_state \<Rightarrow> int" where
  "mpll_shift_step s = (if ld_locked (mp_ld s) \<noteq> 0
     then sgn (mp_phase_shift_target s - mp_phase_shift_current s) else 0)"

text \<open>What the stages leave alone.\<close>

lemma mpll_unwrap_frame [simp]:
  "mp_pi (mpll_unwrap s) = mp_pi s" "mp_ld (mpll_unwrap s) = mp_ld s"
  "mp_tag_ref (mpll_unwrap s) = mp_tag_ref s" "mp_tag_out (mpll_unwrap s) = mp_tag_out s"
  "mp_tag_ref_d (mpll_unwrap s) = mp_tag_ref s" "mp_tag_out_d (mpll_unwrap s) = mp_tag_out s"
  "mp_id_ref (mpll_unwrap s) = mp_id_ref s" "mp_id_out (mpll_unwrap s) = mp_id_out s"
  "mp_dac_index (mpll_unwrap s) = mp_dac_index s"
  "mp_phase_shift_target (mpll_unwrap s) = mp_phase_shift_target s"
  "mp_phase_shift_current (mpll_unwrap s) = mp_phase_shift_current s"
  by (simp_all add: mpll_unwrap_def Let_def)

lemma mpll_rebase_frame [simp]:
  "mp_pi (mpll_rebase s) = mp_pi s" "mp_ld (mpll_rebase s) = mp_ld s"
  "mp_tag_ref (mpll_rebase s) = mp_tag_ref s" "mp_tag_out (mpll_rebase s) = mp_tag_out s"
  "mp_tag_ref_d (mpll_rebase s) = mp_tag_ref_d s" "mp_tag_out_d (mpll_rebase s) = mp_tag_out_d s"
  "mp_id_ref (mpll_rebase s) = mp_id_ref s" "mp_id_out (mpll_rebase s) = mp_id_out s"
  "mp_dac_index (mpll_rebase s) = mp_dac_index s"
  "mp_phase_shift_target (mpll_rebase s) = mp_phase_shift_target s"
  "mp_phase_shift_current (mpll_rebase s) = mp_phase_shift_current s"
  by (simp_all add: mpll_rebase_def)

lemma mpll_shift_frame [simp]:
  "mp_pi (mpll_shift s) = mp_pi s" "mp_ld (mpll_shift s) = mp_ld s"
  "mp_tag_ref (mpll_shift s) = mp_tag_ref s" "mp_tag_out (mpll_shift s) = mp_tag_out s"
  "mp_tag_ref_d (mpll_shift s) = mp_tag_ref_d s" "mp_tag_out_d (mpll_shift s) = mp_tag_out_d s"
  "mp_id_ref (mpll_shift s) = mp_id_ref s" "mp_id_out (mpll_shift s) = mp_id_out s"
  "mp_dac_index (mpll_shift s) = mp_dac_index s"
  "mp_phase_shift_target (mpll_shift s) = mp_phase_shift_target s"
  by (simp_all add: mpll_shift_def)

lemma mpll_unwrap_adders:
  "s32 (mp_adder_ref (mpll_unwrap s)) =
     s32 (mp_adder_ref s + mpll_wrap (mp_tag_ref_d s) (mp_tag_ref s))"
  "s32 (mp_adder_out (mpll_unwrap s)) =
     s32 (mp_adder_out s + mpll_wrap (mp_tag_out_d s) (mp_tag_out s))"
  by (auto simp: mpll_unwrap_def Let_def mpll_wrap_def c_arith)

lemma mpll_raw_err_code:
  "sub32 (sub32 (add32 (mp_adder_ref (mpll_unwrap s)) (mp_tag_ref s))
      (mp_adder_out (mpll_unwrap s))) (mp_tag_out s) = mpll_raw_err s"
proof -
  have "s32 (mp_adder_ref (mpll_unwrap s) + mp_tag_ref s -
      (mp_adder_out (mpll_unwrap s) + mp_tag_out s)) = mpll_raw_err s"
    unfolding mpll_raw_err_def
    by (metis s32_add_left s32_diff_left s32_diff_right mpll_unwrap_adders)
  then show ?thesis by (simp add: sub32_def add32_def diff_diff_eq)
qed

lemma mpll_pair_fields:
  shows "fst (mpll_pair s h) =
      (if fst (ld_update (mp_ld s) (mpll_err s)) \<noteq> 0 then SPLL_LOCKED else SPLL_LOCKING)"
    and "mp_pi (fst (snd (mpll_pair s h))) = snd (pi_update (mp_pi s) (mpll_err s))"
    and "mp_ld (fst (snd (mpll_pair s h))) = snd (ld_update (mp_ld s) (mpll_err s))"
    and "mp_tag_ref_d (fst (snd (mpll_pair s h))) = mp_tag_ref s"
    and "mp_tag_out_d (fst (snd (mpll_pair s h))) = mp_tag_out s"
    and "mp_tag_ref (fst (snd (mpll_pair s h))) = - 1"
    and "mp_tag_out (fst (snd (mpll_pair s h))) = - 1"
    and "mp_id_ref (fst (snd (mpll_pair s h))) = mp_id_ref s"
    and "mp_id_out (fst (snd (mpll_pair s h))) = mp_id_out s"
    and "mp_dac_index (fst (snd (mpll_pair s h))) = mp_dac_index s"
    and "mp_phase_shift_target (fst (snd (mpll_pair s h))) = mp_phase_shift_target s"
    and "r_DAC_MAIN (snd (snd (mpll_pair s h))) =
      dac_main_value (fst (pi_update (mp_pi s) (mpll_err s))) (mp_dac_index s)"
  by (simp_all add: mpll_pair_def mpll_err_def case_prod_beta Let_def mpll_raw_err_code)

lemma mpll_rebase_acc:
  "s32 (mp_adder_ref (mpll_rebase s) - mp_adder_out (mpll_rebase s)) =
   s32 (mp_adder_ref s - mp_adder_out s)"
  by (simp add: mpll_rebase_def c_arith)

lemma mpll_shift_acc:
  "s32 (mp_adder_ref (mpll_shift s) - mp_adder_out (mpll_shift s)) =
   s32 (mp_adder_ref s - mp_adder_out s + mpll_shift_step s)"
  "s32 (mp_phase_shift_current (mpll_shift s)) = s32 (mp_phase_shift_current s + mpll_shift_step s)"
  by (auto simp: mpll_shift_def mpll_shift_step_def c_arith algebra_simps)

lemma mpll_pair_acc:
  shows "s32 (mp_adder_ref (fst (snd (mpll_pair s h))) - mp_adder_out (fst (snd (mpll_pair s h)))) =
     s32 (mp_adder_ref s + mpll_wrap (mp_tag_ref_d s) (mp_tag_ref s)
        - (mp_adder_out s + mpll_wrap (mp_tag_out_d s) (mp_tag_out s)) + mpll_shift_step s)"
  (is ?acc)
  and "s32 (mp_phase_shift_current (fst (snd (mpll_pair s h)))) =
     s32 (mp_phase_shift_current s + mpll_shift_step s)" (is ?cur)
proof -
  define u where "u = (mpll_unwrap s)\<lparr>
    mp_pi := snd (pi_update (mp_pi s) (mpll_err s)),
    mp_sample_n := add32 (mp_sample_n (mpll_unwrap s)) 1, mp_tag_out := - 1, mp_tag_ref := - 1\<rparr>"
  have pair: "mp_adder_ref (fst (snd (mpll_pair s h))) = mp_adder_ref (mpll_shift (mpll_rebase u))"
    "mp_adder_out (fst (snd (mpll_pair s h))) = mp_adder_out (mpll_shift (mpll_rebase u))"
    "mp_phase_shift_current (fst (snd (mpll_pair s h))) =
      mp_phase_shift_current (mpll_shift (mpll_rebase u))"
    by (simp_all add: mpll_pair_def mpll_err_def case_prod_beta Let_def mpll_raw_err_code u_def)
  have step: "mpll_shift_step (mpll_rebase u) = mpll_shift_step s"
    by (simp add: mpll_shift_step_def u_def)
  have "s32 (mp_adder_ref (mpll_rebase u) - mp_adder_out (mpll_rebase u)) =
      s32 (mp_adder_ref (mpll_unwrap s) - mp_adder_out (mpll_unwrap s))"
    unfolding mpll_rebase_acc by (simp add: u_def)
  also have "\<dots> = s32 (mp_adder_ref s + mpll_wrap (mp_tag_ref_d s) (mp_tag_ref s)
        - (mp_adder_out s + mpll_wrap (mp_tag_out_d s) (mp_tag_out s)))"
    by (rule s32_diff_cong2) (rule mpll_unwrap_adders)+
  finally show ?acc unfolding pair mpll_shift_acc step by (rule s32_add_cong)
  show ?cur unfolding pair mpll_shift_acc step by (simp add: u_def)
qed

section \<open>Any interleaving of the two tag streams\<close>

text \<open>What the main PLL is given: tags, and new set points of the phase shifter.\<close>

datatype main_event = MTag int int | MShift int

fun main_step :: "spll_main_state \<times> spll_hw \<Rightarrow> main_event \<Rightarrow> spll_main_state \<times> spll_hw" where
  "main_step (s, h) (MTag t src) = snd (mpll_update s t src h)"
| "main_step (s, h) (MShift d) = (mpll_set_phase_shift s d, h)"

lemma main_step_eq:
  "main_step sh (MTag t src) = snd (mpll_update (fst sh) t src (snd sh))"
  "main_step sh (MShift d) = (mpll_set_phase_shift (fst sh) d, snd sh)"
  by (cases sh, simp)+

definition main_run :: "spll_main_state \<times> spll_hw \<Rightarrow> main_event list \<Rightarrow> spll_main_state \<times> spll_hw" where
  "main_run sh ev = foldl main_step sh ev"

lemma main_run_simps [simp]:
  "main_run sh [] = sh"
  "main_run sh (ev @ [e]) = main_step (main_run sh ev) e"
  by (simp_all add: main_run_def)

definition tag_ok :: "main_event \<Rightarrow> bool" where
  "tag_ok e \<longleftrightarrow> (case e of MTag t src \<Rightarrow> 0 \<le> t | MShift d \<Rightarrow> True)"

text \<open>
  The pairing specification: the newest tag of each channel is kept until both channels have
  one, then they form a pair. The state holds the pending tags and the pairs so far.
\<close>

type_synonym sched = "int option \<times> int option \<times> (int \<times> int) list"

fun sched_step :: "int \<Rightarrow> int \<Rightarrow> sched \<Rightarrow> main_event \<Rightarrow> sched" where
  "sched_step idr ido sc (MShift d) = sc"
| "sched_step idr ido (pr, po, ps) (MTag t src) =
     (let pr = (if src = idr then Some t else pr); po = (if src = ido then Some t else po)
      in case (pr, po) of (Some r, Some v) \<Rightarrow> (None, None, ps @ [(r, v)]) | _ \<Rightarrow> (pr, po, ps))"

definition mpll_sched :: "int \<Rightarrow> int \<Rightarrow> main_event list \<Rightarrow> sched" where
  "mpll_sched idr ido ev = foldl (sched_step idr ido) (None, None, []) ev"

lemma mpll_sched_simps [simp]:
  "mpll_sched idr ido [] = (None, None, [])"
  "mpll_sched idr ido (ev @ [e]) = sched_step idr ido (mpll_sched idr ido ev) e"
  by (simp_all add: mpll_sched_def)

text \<open>The unwrapped phase of the reference minus that of the output, over a list of pairs.\<close>

definition turns_of :: "int list \<Rightarrow> int" where
  "turns_of ts = (case ts of [] \<Rightarrow> 0 | t # us \<Rightarrow> turns t us)"

definition mpll_true_err :: "(int \<times> int) list \<Rightarrow> int" where
  "mpll_true_err ps =
     (last (map fst ps) + 2 ^ TAG_BITS * turns_of (map fst ps)) -
     (last (map snd ps) + 2 ^ TAG_BITS * turns_of (map snd ps))"

definition last_tag :: "int list \<Rightarrow> int" where
  "last_tag ts = (if ts = [] then - 1 else last ts)"

lemma turns_of_snoc:
  "\<forall>u\<in>set ts. 0 \<le> u \<Longrightarrow>
   2 ^ TAG_BITS * turns_of (ts @ [t]) = 2 ^ TAG_BITS * turns_of ts + mpll_wrap (last_tag ts) t"
  by (cases ts) (auto simp: turns_of_def mpll_wrap_def last_tag_def turns_snoc)

definition pend :: "int option \<Rightarrow> int" where
  "pend t = (case t of None \<Rightarrow> - 1 | Some v \<Rightarrow> v)"

lemma pend_simps [simp]: "pend None = - 1" "pend (Some v) = v"
  by (simp_all add: pend_def)

fun mpll_rel :: "sched \<Rightarrow> spll_main_state \<Rightarrow> bool" where
  "mpll_rel (pr, po, ps) s \<longleftrightarrow>
     mp_tag_ref s = pend pr \<and> mp_tag_out s = pend po \<and>
     (\<forall>r. pr = Some r \<longrightarrow> 0 \<le> r) \<and> (\<forall>v. po = Some v \<longrightarrow> 0 \<le> v) \<and> (pr = None \<or> po = None) \<and>
     (\<forall>(r, v)\<in>set ps. 0 \<le> r \<and> 0 \<le> v) \<and>
     mp_tag_ref_d s = last_tag (map fst ps) \<and> mp_tag_out_d s = last_tag (map snd ps) \<and>
     s32 (mp_adder_ref s - mp_adder_out s) =
       s32 (2 ^ TAG_BITS * (turns_of (map fst ps) - turns_of (map snd ps))
            + mp_phase_shift_current s) \<and> ld_wf (mp_ld s)"

lemma mpll_raw_err_true:
  assumes "mpll_rel (pr, po, ps) s" "0 \<le> r" "0 \<le> v"
    and "s' = s\<lparr>mp_tag_ref := r, mp_tag_out := v\<rparr>"
  shows "mpll_raw_err s' = s32 (mpll_true_err (ps @ [(r, v)]) + mp_phase_shift_current s)"
proof -
  have pos: "\<forall>u\<in>set (map fst ps). 0 \<le> u" "\<forall>u\<in>set (map snd ps). 0 \<le> u" using assms(1) by auto
  define k where "k = mpll_wrap (last_tag (map fst ps)) r + r - mpll_wrap (last_tag (map snd ps)) v - v"
  have "mpll_raw_err s' = s32 (k + mp_adder_ref s - mp_adder_out s)"
    using assms(1,4) by (simp add: mpll_raw_err_def k_def algebra_simps)
  also have "\<dots> = s32 (k + (2 ^ TAG_BITS * (turns_of (map fst ps) - turns_of (map snd ps))
            + mp_phase_shift_current s))"
    by (rule s32_diff_cong) (use assms(1) in simp)
  also have "\<dots> = s32 (mpll_true_err (ps @ [(r, v)]) + mp_phase_shift_current s)"
    by (rule arg_cong [where f = s32])
      (simp only: mpll_true_err_def map_append list.map fst_conv snd_conv last_snoc
        turns_of_snoc [OF pos(1)] turns_of_snoc [OF pos(2)] k_def right_diff_distrib; simp)
  finally show ?thesis .
qed

lemma mpll_rel_pair:
  assumes rel: "mpll_rel (pr, po, ps) s" and pos: "0 \<le> r" "0 \<le> v"
    and s': "s' = s\<lparr>mp_tag_ref := r, mp_tag_out := v\<rparr>"
  shows "mpll_rel (None, None, ps @ [(r, v)]) (fst (snd (mpll_pair s' h)))"
proof -
  let ?u = "fst (snd (mpll_pair s' h))"
  have P: "\<forall>u\<in>set (map fst ps). 0 \<le> u" "\<forall>u\<in>set (map snd ps). 0 \<le> u" using rel by auto
  define w where "w = mpll_wrap (last_tag (map fst ps)) r - mpll_wrap (last_tag (map snd ps)) v
    + mpll_shift_step s'"
  have "s32 (mp_adder_ref ?u - mp_adder_out ?u) = s32 (w + mp_adder_ref s - mp_adder_out s)"
    unfolding mpll_pair_acc using rel by (simp add: s' w_def algebra_simps)
  also have "\<dots> = s32 (w + (2 ^ TAG_BITS * (turns_of (map fst ps) - turns_of (map snd ps))
            + mp_phase_shift_current s))"
    by (rule s32_diff_cong) (use rel in simp)
  also have "\<dots> = s32 (2 ^ TAG_BITS * (turns_of (map fst (ps @ [(r, v)])) -
      turns_of (map snd (ps @ [(r, v)]))) + (mp_phase_shift_current s' + mpll_shift_step s'))"
    by (rule arg_cong [where f = s32])
      (simp only: map_append list.map fst_conv snd_conv right_diff_distrib
        turns_of_snoc [OF P(1)] turns_of_snoc [OF P(2)] w_def; simp add: s')
  also have "\<dots> = s32 (2 ^ TAG_BITS * (turns_of (map fst (ps @ [(r, v)])) -
      turns_of (map snd (ps @ [(r, v)]))) + mp_phase_shift_current ?u)"
    by (metis mpll_pair_acc(2) s32_add_right)
  finally have acc: "s32 (mp_adder_ref ?u - mp_adder_out ?u) = \<dots>" .
  have "ld_wf (mp_ld ?u)" using rel by (simp add: mpll_pair_fields s' ld_update_wf)
  then show ?thesis using acc rel pos
    by (auto simp: mpll_pair_fields s' last_tag_def)
qed

lemma mpll_store_eq:
  "mp_id_ref s \<noteq> mp_id_out s \<Longrightarrow> mpll_store s t src =
     s\<lparr>mp_tag_ref := (if src = mp_id_ref s then t else mp_tag_ref s),
       mp_tag_out := (if src = mp_id_out s then t else mp_tag_out s)\<rparr>"
  by (simp add: mpll_store_def Let_def)

lemma mpll_rel_update:
  assumes rel: "mpll_rel sc s" and "mp_id_ref s \<noteq> mp_id_out s" and t: "0 \<le> t"
  shows "mpll_rel (sched_step (mp_id_ref s) (mp_id_out s) sc (MTag t src))
      (fst (snd (mpll_update s t src h)))"
proof -
  obtain pr po ps where sc: "sc = (pr, po, ps)" by (cases sc)
  let ?pr = "if src = mp_id_ref s then Some t else pr"
  let ?po = "if src = mp_id_out s then Some t else po"
  have tags: "mp_tag_ref (mpll_store s t src) = pend ?pr" "mp_tag_out (mpll_store s t src) = pend ?po"
    using rel assms(2) by (auto simp: mpll_store_eq sc)
  have pos: "\<And>r. ?pr = Some r \<Longrightarrow> 0 \<le> r" "\<And>v. ?po = Some v \<Longrightarrow> 0 \<le> v"
    using rel t by (auto simp: sc split: if_splits)
  show ?thesis
  proof (cases "\<exists>r v. ?pr = Some r \<and> ?po = Some v")
    case True
    then obtain r v where rv: "?pr = Some r" "?po = Some v" by blast
    have "mpll_store s t src = s\<lparr>mp_tag_ref := r, mp_tag_out := v\<rparr>"
      using tags assms(2) unfolding rv by (simp add: mpll_store_eq)
    from mpll_rel_pair [OF rel [unfolded sc] pos(1) [OF rv(1)] pos(2) [OF rv(2)] this]
    show ?thesis using tags pos(1) [OF rv(1)] pos(2) [OF rv(2)] unfolding rv
      by (simp add: mpll_update_def sc rv Let_def)
  next
    case False
    then have "\<not> (0 \<le> pend ?pr \<and> 0 \<le> pend ?po)"
      by (cases ?pr; cases ?po) auto
    then have "fst (snd (mpll_update s t src h)) = mpll_store s t src"
      by (simp only: mpll_update_def Let_def tags if_False fst_conv snd_conv)
    moreover have "sched_step (mp_id_ref s) (mp_id_out s) sc (MTag t src) = (?pr, ?po, ps)"
      using False by (auto simp: sc split: option.splits if_splits)
    moreover have "mpll_rel (?pr, ?po, ps) (mpll_store s t src)"
      using rel pos tags False assms(2) by (auto simp: sc mpll_store_eq)
    ultimately show ?thesis by simp
  qed
qed

lemma mpll_store_ids [simp]:
  "mp_id_ref (mpll_store s t src) = mp_id_ref s" "mp_id_out (mpll_store s t src) = mp_id_out s"
  "mp_ld (mpll_store s t src) = mp_ld s" "mp_pi (mpll_store s t src) = mp_pi s"
  "mp_phase_shift_current (mpll_store s t src) = mp_phase_shift_current s"
  "mp_phase_shift_target (mpll_store s t src) = mp_phase_shift_target s"
  by (simp_all add: mpll_store_def Let_def)

lemma mpll_update_ids [simp]:
  "mp_id_ref (fst (snd (mpll_update s t src h))) = mp_id_ref s"
  "mp_id_out (fst (snd (mpll_update s t src h))) = mp_id_out s"
  "mp_phase_shift_target (fst (snd (mpll_update s t src h))) = mp_phase_shift_target s"
  by (simp_all add: mpll_update_def Let_def mpll_pair_fields)

lemma main_step_ids [simp]:
  "mp_id_ref (fst (main_step sh e)) = mp_id_ref (fst sh)"
  "mp_id_out (fst (main_step sh e)) = mp_id_out (fst sh)"
  by (cases sh; cases e; simp add: mpll_set_phase_shift_def)+

lemma main_run_ids [simp]:
  "mp_id_ref (fst (main_run sh ev)) = mp_id_ref (fst sh)"
  "mp_id_out (fst (main_run sh ev)) = mp_id_out (fst sh)"
  by (induction ev rule: rev_induct) simp_all

abbreviation main_boot ::
  "board_cfg \<Rightarrow> spll_main_state \<Rightarrow> int \<Rightarrow> int \<Rightarrow> spll_hw \<Rightarrow> spll_main_state \<times> spll_hw" where
  "main_boot b s idr ido h \<equiv> mpll_start (mpll_init b s idr ido h) h"

lemma main_boot_simps [simp]:
  "mp_id_ref (fst (main_boot b s idr ido h)) = idr"
  "mp_id_out (fst (main_boot b s idr ido h)) = ido"
  by (simp_all add: mpll_start_def mpll_init_def Let_def)

lemma mpll_rel_boot: "mpll_rel (None, None, []) (fst (main_boot b s idr ido h))"
  by (simp add: mpll_start_def mpll_init_def Let_def last_tag_def turns_of_def ld_wf_def ld_init_def)

lemma mpll_rel_set_shift: "mpll_rel sc s \<Longrightarrow> mpll_rel sc (mpll_set_phase_shift s d)"
  by (cases sc) (simp add: mpll_set_phase_shift_def)

lemma mpll_rel_run:
  assumes "idr \<noteq> ido" "list_all tag_ok ev"
  shows "mpll_rel (mpll_sched idr ido ev) (fst (main_run (main_boot b s idr ido h) ev))"
  using assms(2)
proof (induction ev rule: rev_induct)
  case Nil
  show ?case using mpll_rel_boot by (simp del: mpll_rel.simps)
next
  case (snoc e ev)
  let ?sh = "main_run (main_boot b s idr ido h) ev"
  have IH: "mpll_rel (mpll_sched idr ido ev) (fst ?sh)" using snoc by simp
  show ?case
  proof (cases e)
    case (MTag t src)
    then show ?thesis
      using mpll_rel_update [OF IH, of t src "snd ?sh"] snoc.prems assms(1)
      by (simp add: main_step_eq tag_ok_def del: mpll_rel.simps sched_step.simps)
  next
    case (MShift d)
    then show ?thesis using mpll_rel_set_shift [OF IH, of d]
      by (simp add: main_step_eq del: mpll_rel.simps)
  qed
qed

text \<open>
  C2. The main PLL compares what it should: after a start, any interleaving of tags of the two
  channels and of set points of the phase shifter, a tag that completes a pair feeds the
  controller and the lock detector with the difference of the unwrapped phases of reference
  and output plus the phase shift reached so far (masked to \<open>HPLL_N\<close> bits once locked), and
  writes the controller's output to the DAC; rebasing the accumulators is invisible.
\<close>

theorem main_pll_tracks_phase_difference:
  assumes "idr \<noteq> ido" "list_all tag_ok (ev @ [MTag t src])" "src = idr \<or> src = ido"
    and "mpll_sched idr ido (ev @ [MTag t src]) = (None, None, ps)"
  shows "let (s, h) = main_run (mpll_start (mpll_init b s0 idr ido h0) h0) ev;
             (l, s', h') = mpll_update s t src h;
             e = mpll_true_err ps + mp_phase_shift_current s;
             e = (if ld_locked (mp_ld s) \<noteq> 0 then mpll_mask e else s32 e);
             (y, p) = pi_update (mp_pi s) e
         in mp_pi s' = p \<and> r_DAC_MAIN h' = dac_main_value y (mp_dac_index s) \<and>
            mp_ld s' = snd (ld_update (mp_ld s) e) \<and>
            (l = SPLL_LOCKED \<longleftrightarrow> fst (ld_update (mp_ld s) e) \<noteq> 0)"
proof -
  define sh where "sh = main_run (main_boot b s0 idr ido h0) ev"
  define s where "s = fst sh"
  have ids: "mp_id_ref s = idr" "mp_id_out s = ido" by (simp_all add: s_def sh_def)
  obtain pr po qs where sc: "mpll_sched idr ido ev = (pr, po, qs)" by (cases "mpll_sched idr ido ev")
  have rel: "mpll_rel (pr, po, qs) s"
    using mpll_rel_run [OF assms(1), of ev b s0 h0] assms(2) by (simp add: s_def sh_def sc del: mpll_rel.simps)
  obtain r v where rv: "(if src = idr then Some t else pr) = Some r"
      "(if src = ido then Some t else po) = Some v" and ps: "ps = qs @ [(r, v)]"
    using assms(3,4) by (auto simp: sc Let_def split: option.splits if_splits)
  have pos: "0 \<le> r" "0 \<le> v" using rel rv assms(2) by (auto simp: tag_ok_def split: if_splits)
  have store: "mpll_store s t src = s\<lparr>mp_tag_ref := r, mp_tag_out := v\<rparr>"
    using rel rv assms(1) by (auto simp: mpll_store_eq ids split: if_splits)
  have err: "mpll_err (mpll_store s t src) = (let e = mpll_true_err ps + mp_phase_shift_current s
      in if ld_locked (mp_ld s) \<noteq> 0 then mpll_mask e else s32 e)"
    using mpll_raw_err_true [OF rel pos store] by (simp add: mpll_err_def ps mpll_mask_s32)
  have "mpll_update s t src (snd sh) = mpll_pair (mpll_store s t src) (snd sh)"
    using pos by (simp add: mpll_update_def store)
  then show ?thesis
    unfolding sh_def [symmetric] using err
    by (simp add: s_def [symmetric] case_prod_beta Let_def mpll_pair_fields)
      (simp add: store)
qed

text \<open>
  A first reference wrap under way: the second pair is \<open>(5, 4194000)\<close>, that is, the reference
  is 309 ahead of the output, which has not wrapped yet; the phase shifter was set to 7 but
  has not moved, since the PLL is not locked.
\<close>

lemma main_pll_tracks_phase_difference_witness:
  "\<forall>s0 h0.
   let (s, h) = main_run (mpll_start (mpll_init board_wrc s0 0 1 h0) h0)
         [MTag 4194000 0, MShift 7, MTag 4193900 1, MTag 4194000 1];
       (l, s', h') = mpll_update s 5 0 h;
       e = mpll_true_err [(4194000, 4193900), (5, 4194000)] + mp_phase_shift_current s
   in mp_pi s' = snd (pi_update (mp_pi s) (if ld_locked (mp_ld s) \<noteq> 0 then mpll_mask e else s32 e))"
proof (intro allI)
  fix s0 h0
  show "let (s, h) = main_run (mpll_start (mpll_init board_wrc s0 0 1 h0) h0)
         [MTag 4194000 0, MShift 7, MTag 4193900 1, MTag 4194000 1];
       (l, s', h') = mpll_update s 5 0 h;
       e = mpll_true_err [(4194000, 4193900), (5, 4194000)] + mp_phase_shift_current s
   in mp_pi s' = snd (pi_update (mp_pi s) (if ld_locked (mp_ld s) \<noteq> 0 then mpll_mask e else s32 e))"
    using main_pll_tracks_phase_difference [of 0 1 "[MTag 4194000 0, MShift 7, MTag 4193900 1,
        MTag 4194000 1]" 5 0 "[(4194000, 4193900), (5, 4194000)]" board_wrc s0 h0]
    by (simp add: tag_ok_def mpll_sched_def Let_def case_prod_beta)
qed

lemma mpll_true_err_example: "mpll_true_err [(4194000, 4193900), (5, 4194000)] = 309"
  by (simp add: mpll_true_err_def turns_of_def)

section \<open>The controllers of the main PLL do not overflow\<close>

interpretation mgn: pi_gains 30 1100 65000 5 65530 800000 38250000
  by unfold_locales simp_all

interpretation mgs: pi_gains 7 1500 65000 5 65530 600000 166700000
  by unfold_locales simp_all

lemma main_gains:
  "mgn.gains (mp_pi (mpll_init board_wrc s idr ido h))"
  "mgs.gains (mp_pi (mpll_init board_wrs s idr ido h))"
  by (simp_all add: mgn.gains_def mgs.gains_def mpll_init_def board_wrc_def board_wrs_def Let_def)

text \<open>
  C9. The controllers of the main PLL do not overflow: in both builds, as long as no error
  exceeds 600000 in absolute value, the 32-bit controller with its anti-windup rule computes
  after any number of errors the same integrator as the controller over unbounded integers,
  and the next output is the clamped ideal one.
\<close>

theorem main_pi_no_overflow:
  assumes "\<forall>e\<in>set (es @ [x]). \<bar>e\<bar> \<le> 600000" "b = board_wrc \<or> b = board_wrs"
  shows "let p = pi_run (pi_init (mp_pi (mpll_init b s idr ido h))) es;
             ki = (if b_wr_switch b then 7 else 30); kp = (if b_wr_switch b then 1500 else 1100);
             i = pi_ideal_run ki kp 65000 5 65530 es
         in pi_integrator p = i \<and>
            fst (pi_update p x) = clamp 5 65530 (pi_ideal_y ki kp 65000 i x)"
  using assms(2)
proof
  assume b: "b = board_wrc"
  have "\<forall>e\<in>set es. \<bar>e\<bar> \<le> 800000" "\<bar>x\<bar> \<le> 800000" using assms(1) by auto
  then show ?thesis using mgn.run_ideal [OF main_gains(1)] mgn.pi_update_ideal(1)
    by (simp add: b Let_def board_wrc_def [THEN arg_cong [where f = b_wr_switch]])
next
  assume b: "b = board_wrs"
  have "\<forall>e\<in>set es. \<bar>e\<bar> \<le> 600000" "\<bar>x\<bar> \<le> 600000" using assms(1) by auto
  then show ?thesis using mgs.run_ideal [OF main_gains(2)] mgs.pi_update_ideal(1)
    by (simp add: b Let_def board_wrs_def [THEN arg_cong [where f = b_wr_switch]])
qed

lemma main_pi_no_overflow_witness:
  "\<forall>s h. fst (pi_update (pi_run (pi_init (mp_pi (mpll_init board_wrc s 0 1 h))) [20000, -3000]) 100)
     = clamp 5 65530 (pi_ideal_y 30 1100 65000 (-3000) 100)"
proof (intro allI)
  fix s h
  show "fst (pi_update (pi_run (pi_init (mp_pi (mpll_init board_wrc s 0 1 h))) [20000, -3000]) 100)
     = clamp 5 65530 (pi_ideal_y 30 1100 65000 (-3000) 100)"
  proof -
    have i: "pi_ideal_run 30 1100 65000 5 65530 [20000, -3000] = -3000"
      by (simp add: pi_ideal_run_def pi_ideal_y_def pi_ideal_i_def)
    have w: "b_wr_switch board_wrc = False" by (simp add: board_wrc_def)
    show ?thesis
      using main_pi_no_overflow [of "[20000, -3000]" 100 board_wrc s 0 1 h]
      by (simp add: Let_def w i)
  qed
qed

text \<open>
  Outside that range it does overflow. The tags are 22 bits wide and both accumulators start
  at zero, so before the PLL is locked the first errors may be as large as \<open>2 ^ TAG_BITS\<close>; an
  error of 2500000 drives the DAC to the wrong end of its range.
\<close>

lemma main_pi_overflow_wrong_rail:
  "fst (pi_update (pi_init (mp_pi (mpll_init board_wrc s idr ido h))) 2500000) = 5 \<and>
   clamp 5 65530 (pi_ideal_y 30 1100 65000 0 2500000) = 65530"
proof -
  have "s32 2825000000 = - 1469967296" by (simp add: s32_eq)
  then show ?thesis
    by (simp add: pi_update_def Let_def mpll_init_def board_wrc_def c_arith clamp_def
        pi_ideal_y_def drop_bit_eq_div)
qed

text \<open>
  If the reference counter wraps just before the first pair and the output counter just after
  it, the turn of the reference is never counted: every later error is short of one turn.
\<close>

lemma main_start_straddles_wrap:
  "mpll_true_err [(5, 4194000)] = 5 - 4194000 \<and>
   mpll_true_err [(5, 4194000), (16389, 10)] = 16389 - 10 - 2 ^ TAG_BITS"
  by (simp add: mpll_true_err_def turns_of_def)

text \<open>
  A lost lock is reported as \<open>SPLL_LOCKED\<close>: \<open>ld_update\<close> answers \<open>-1\<close>, which is true in C.
\<close>

lemma mpll_update_lock_lost:
  assumes "fst (ld_update (mp_ld s) (mpll_err s)) = - 1"
  shows "fst (mpll_pair s h) = SPLL_LOCKED"
  using assms by (simp add: mpll_pair_fields)

section \<open>The phase shifter\<close>

lemma mpll_shift_current:
  assumes "in32 (mp_phase_shift_current s)" "in32 (mp_phase_shift_target s)"
  shows "mp_phase_shift_current (mpll_shift s) = mp_phase_shift_current s + mpll_shift_step s"
  using assms by (auto simp: mpll_shift_def mpll_shift_step_def c_arith in32_def)

lemma mpll_pair_current:
  assumes "in32 (mp_phase_shift_current s)" "in32 (mp_phase_shift_target s)"
  shows "mp_phase_shift_current (fst (snd (mpll_pair s h))) =
    mp_phase_shift_current s + mpll_shift_step s"
proof -
  have "mp_phase_shift_current (fst (snd (mpll_pair s h))) =
      mp_phase_shift_current (mpll_shift s)"
    by (simp add: mpll_pair_def case_prod_beta Let_def mpll_shift_def)
  then show ?thesis using mpll_shift_current [OF assms] by simp
qed

text \<open>Pairs of tags, the reference first, and the condition that the PLL is locked at each.\<close>

fun pairs_run ::
  "spll_main_state \<Rightarrow> spll_hw \<Rightarrow> (int \<times> int) list \<Rightarrow> spll_main_state \<times> spll_hw" where
  "pairs_run s h [] = (s, h)"
| "pairs_run s h ((r, v) # ps) =
     (let (l, s, h) = mpll_update s r (mp_id_ref s) h;
          (l, s, h) = mpll_update s v (mp_id_out s) h
      in pairs_run s h ps)"

fun locked_throughout :: "spll_main_state \<Rightarrow> spll_hw \<Rightarrow> (int \<times> int) list \<Rightarrow> bool" where
  "locked_throughout s h [] \<longleftrightarrow> True"
| "locked_throughout s h (p # ps) \<longleftrightarrow> ld_locked (mp_ld s) \<noteq> 0 \<and>
     (let (s, h) = pairs_run s h [p] in locked_throughout s h ps)"

lemma one_pair:
  assumes "mp_id_ref s \<noteq> mp_id_out s" "0 \<le> r" "0 \<le> v" "mp_tag_ref s = - 1" "mp_tag_out s = - 1"
  shows "pairs_run s h [(r, v)] = snd (mpll_pair (s\<lparr>mp_tag_ref := r, mp_tag_out := v\<rparr>) h)"
  using assms by (simp add: mpll_update_def mpll_store_def Let_def case_prod_beta)

lemma pairs_run_Cons: "pairs_run s h (p # ps) = (let (s, h) = pairs_run s h [p] in pairs_run s h ps)"
  by (cases p) (simp add: Let_def case_prod_beta)

lemma sgn_step: "\<bar>t - (c + sgn (t - c))\<bar> = max 0 (\<bar>t - c\<bar> - 1)" for t c :: int
  by (auto simp: sgn_if)

lemma in32_sgn_step: "in32 c \<Longrightarrow> in32 t \<Longrightarrow> in32 (c + sgn (t - c))"
  by (auto simp: in32_def sgn_if)

text \<open>
  C8. The phase shifter arrives: while the PLL stays locked, every pair of tags moves the shift
  one unit towards its target and never past it, so that after as many pairs as the distance
  \<open>mpll_shifter_busy\<close> is false.
\<close>

theorem phase_shifter_arrives:
  assumes "mp_id_ref s \<noteq> mp_id_out s" "mp_tag_ref s = - 1" "mp_tag_out s = - 1"
    and "in32 (mp_phase_shift_current s)" "in32 (mp_phase_shift_target s)"
    and "list_all (\<lambda>(r, v). 0 \<le> r \<and> 0 \<le> v) ps" "locked_throughout s h ps"
  shows "let (s', h') = pairs_run s h ps;
             gap = \<bar>mp_phase_shift_target s - mp_phase_shift_current s\<bar>
         in \<bar>mp_phase_shift_target s' - mp_phase_shift_current s'\<bar> = max 0 (gap - int (length ps)) \<and>
            mp_phase_shift_target s' = mp_phase_shift_target s \<and>
            (mpll_shifter_busy s' \<longleftrightarrow> int (length ps) < gap)"
  using assms
proof (induction ps arbitrary: s h)
  case Nil
  then show ?case by (simp add: mpll_shifter_busy_def)
next
  case (Cons p ps)
  obtain r v where p: "p = (r, v)" "0 \<le> r" "0 \<le> v" using Cons.prems(6) by (cases p) auto
  define s1 where "s1 = fst (pairs_run s h [p])"
  define h1 where "h1 = snd (pairs_run s h [p])"
  let ?t = "mp_phase_shift_target s" and ?c = "mp_phase_shift_current s"
  note one = one_pair [OF Cons.prems(1) p(2,3) Cons.prems(2,3), of h]
  have cur: "mp_phase_shift_current s1 = ?c + sgn (?t - ?c)"
    unfolding s1_def p(1) one using mpll_pair_current [of "s\<lparr>mp_tag_ref := r, mp_tag_out := v\<rparr>" h]
      Cons.prems(4,5,7) by (simp add: mpll_shift_step_def)
  have fields: "mp_id_ref s1 = mp_id_ref s" "mp_id_out s1 = mp_id_out s" "mp_tag_ref s1 = - 1"
    "mp_tag_out s1 = - 1" "mp_phase_shift_target s1 = ?t"
    unfolding s1_def p(1) one by (simp_all add: mpll_pair_fields)
  have rest: "locked_throughout s1 h1 ps"
    using Cons.prems(7) by (simp add: s1_def h1_def case_prod_beta Let_def)
  have run: "pairs_run s h (p # ps) = pairs_run s1 h1 ps"
    by (subst pairs_run_Cons) (simp only: s1_def h1_def case_prod_beta Let_def)
  have "let (s', h') = pairs_run s1 h1 ps;
             gap = \<bar>mp_phase_shift_target s1 - mp_phase_shift_current s1\<bar>
         in \<bar>mp_phase_shift_target s' - mp_phase_shift_current s'\<bar> = max 0 (gap - int (length ps)) \<and>
            mp_phase_shift_target s' = mp_phase_shift_target s1 \<and>
            (mpll_shifter_busy s' \<longleftrightarrow> int (length ps) < gap)"
    by (rule Cons.IH)
      (use Cons.prems(1,4,5,6) fields cur rest in32_sgn_step in simp_all)
  then show ?case unfolding run fields cur sgn_step
    by (auto simp: case_prod_beta Let_def)
qed

definition locked_example :: spll_main_state where
  "locked_example = (fst (mpll_start (mpll_init board_wrc undefined 0 1 (undefined\<lparr>spll_n_chan_ref := 1\<rparr>)) undefined))
     \<lparr>mp_ld := \<lparr>ld_lock_cnt = 1000, ld_lock_samples = 1000, ld_delock_samples = 100,
        ld_threshold = 1200, ld_locked = 1, ld_lock_changed = 0\<rparr>, mp_phase_shift_target := 2\<rparr>"

lemma locked_example_simps:
  "mp_id_ref locked_example = 0" "mp_id_out locked_example = 1" "mp_tag_ref locked_example = - 1"
  "mp_tag_out locked_example = - 1" "mp_phase_shift_current locked_example = 0"
  "mp_phase_shift_target locked_example = 2" "ld_locked (mp_ld locked_example) = 1"
  "ld_lock_cnt (mp_ld locked_example) = 1000" "ld_lock_samples (mp_ld locked_example) = 1000"
  "ld_delock_samples (mp_ld locked_example) = 100" "ld_threshold (mp_ld locked_example) = 1200"
  by (simp_all add: locked_example_def mpll_start_def mpll_init_def Let_def)

lemma ld_update_keeps_locked:
  "ld_locked d = 1 \<Longrightarrow> ld_lock_cnt d = ld_lock_samples d \<Longrightarrow> in32 (ld_lock_samples d) \<Longrightarrow>
   0 < ld_lock_samples d \<Longrightarrow>
   ld_delock_samples d + 1 < ld_lock_samples d \<Longrightarrow> ld_locked (snd (ld_update d y)) = 1"
  by (auto simp: ld_update_def Let_def c_arith in32_def)

lemma phase_shifter_arrives_witness:
  "\<forall>h. \<not> mpll_shifter_busy (fst (pairs_run locked_example h [(5, 5), (6, 5)]))"
proof
  fix h
  have "ld_locked (mp_ld (fst (pairs_run locked_example h [(5, 5)]))) = 1"
    by (subst one_pair) (simp_all add: locked_example_simps mpll_pair_fields ld_update_keeps_locked
        in32_def)
  then have "locked_throughout locked_example h [(5, 5), (6, 5)]"
    by (simp add: locked_example_simps case_prod_beta)
  then show "\<not> mpll_shifter_busy (fst (pairs_run locked_example h [(5, 5), (6, 5)]))"
    using phase_shifter_arrives [of locked_example "[(5, 5), (6, 5)]" h]
    by (simp add: locked_example_simps case_prod_beta Let_def in32_def)
qed

end
