(* ===== verification/Spll_External.thy ===== *)
theory Spll_External
  imports Spll_Common
begin

text \<open>
  \<open>softpll/spll_external.c\<close>: the PLL that locks the local reference to an external 10 MHz
  clock in grandmaster mode, and the state machine that realigns the PPS to it.
\<close>

section \<open>The code\<close>

abbreviation (input) BB_ERROR_BITS :: nat where "BB_ERROR_BITS \<equiv> 16"

text \<open>The \<open>REALIGN_*\<close> constants; \<open>REALIGN_NONE\<close> is every other value (no case of the switch).\<close>

datatype realign_state =
    REALIGN_NONE
  | REALIGN_STAGE1
  | REALIGN_STAGE1_WAIT
  | REALIGN_STAGE2
  | REALIGN_STAGE2_WAIT
  | REALIGN_PPS_INVALID
  | REALIGN_DISABLED
  | REALIGN_DONE

record spll_external_state =
  ex_ref_src :: int
  ex_sample_n :: int
  ex_ph_err_offset :: int
  ex_ph_err_cur :: int
  ex_ph_err_d0 :: int
  ex_ph_raw_d0 :: int
  ex_realign_clocks :: int
  ex_realign_state :: realign_state
  ex_realign_timer :: u32
  ex_pi :: spll_pi_t
  ex_lp_short :: spll_lowpass_t
  ex_lp_long :: spll_lowpass_t
  ex_ld :: spll_lock_det_t

definition external_init :: "spll_external_state \<Rightarrow> int \<Rightarrow> int \<Rightarrow> spll_external_state" where
  "external_init s ext_ref realign_clocks =
    (let s = s\<lparr>ex_pi := (ex_pi s)\<lparr>pi_y_min := 5, pi_y_max := shl32 1 DAC_BITS - 5, pi_kp := 300,
                 pi_ki := 1, pi_anti_windup := 1, pi_bias := 32768\<rparr>,
               ex_ld := (ex_ld s)\<lparr>ld_threshold := 400, ld_lock_samples := 10000,
                 ld_delock_samples := 9990\<rparr>,
               ex_ref_src := ext_ref, ex_ph_err_cur := 0, ex_ph_err_d0 := 0, ex_ph_raw_d0 := 0,
               ex_realign_clocks := realign_clocks,
               ex_realign_state := (if realign_clocks \<noteq> 0 then REALIGN_STAGE1 else REALIGN_DISABLED)\<rparr>
     in s\<lparr>ex_pi := pi_init (ex_pi s), ex_ld := ld_init (ex_ld s),
          ex_lp_short := lowpass_init (ex_lp_short s) 4000,
          ex_lp_long := lowpass_init (ex_lp_long s) 300\<rparr>)"

definition realign_fsm ::
  "board_cfg \<Rightarrow> spll_external_state \<Rightarrow> spll_hw \<Rightarrow> spll_external_state \<times> spll_hw" where
  "realign_fsm b s h =
    (case ex_realign_state s of
       REALIGN_STAGE1 \<Rightarrow>
         (s\<lparr>ex_realign_state := REALIGN_STAGE1_WAIT,
            ex_realign_timer := h_tics h + word_of_int (2 * b_tics_per_second b)\<rparr>,
          h\<lparr>r_ECCR := rd_ECCR h OR SPLL_ECCR_ALIGN_EN\<rparr>)
     | REALIGN_STAGE1_WAIT \<Rightarrow>
         if rd_ECCR h AND SPLL_ECCR_ALIGN_DONE \<noteq> 0
         then (s\<lparr>ex_realign_state := REALIGN_STAGE2\<rparr>, h)
         else if time_after (h_tics h) (ex_realign_timer s)
         then (s\<lparr>ex_realign_state := REALIGN_PPS_INVALID\<rparr>,
               h\<lparr>r_ECCR := rd_ECCR h AND NOT SPLL_ECCR_ALIGN_EN\<rparr>)
         else (s, h)
     | REALIGN_STAGE2 \<Rightarrow>
         if ld_locked (ex_ld s) \<noteq> 0
         then (s\<lparr>ex_realign_state := REALIGN_STAGE2_WAIT,
                 ex_realign_timer := h_tics h + word_of_int (2 * b_tics_per_second b)\<rparr>,
               h\<lparr>p_CR := PPSG_CR_CNT_RST OR PPSG_CR_CNT_EN, p_ADJ_UTCLO := 0, p_ADJ_UTCHI := 0,
                 p_ADJ_NSEC := 0, p_ESCR := PPSG_ESCR_SYNC\<rparr>)
         else (s, h)
     | REALIGN_STAGE2_WAIT \<Rightarrow>
         if rd_ESCR h AND PPSG_ESCR_SYNC \<noteq> 0
         then (s\<lparr>ex_realign_state := REALIGN_DONE\<rparr>,
               h\<lparr>p_ESCR := PPSG_ESCR_PPS_VALID OR PPSG_ESCR_TM_VALID\<rparr>)
         else if time_after (h_tics h) (ex_realign_timer s)
         then (s\<lparr>ex_realign_state := REALIGN_PPS_INVALID\<rparr>, h\<lparr>p_ESCR := 0\<rparr>)
         else (s, h)
     | _ \<Rightarrow> (s, h))"

text \<open>
  \<open>external_update\<close>: \<open>external_phase\<close> is its arithmetic on the tag, from the unmasked tag to
  the frequency error.
\<close>

definition external_phase :: "spll_external_state \<Rightarrow> int \<Rightarrow> int \<times> spll_external_state" where
  "external_phase s tag =
    (let wrap = (tag AND shl32 1 BB_ERROR_BITS \<noteq> 0);
         tag = tag AND (shl32 1 BB_ERROR_BITS - 1);
         s = (if wrap then
                if ex_ph_raw_d0 s < tag
                then s\<lparr>ex_ph_err_offset := sub32 (ex_ph_err_offset s) (shl32 1 BB_ERROR_BITS)\<rparr>
                else if tag \<le> ex_ph_raw_d0 s
                then s\<lparr>ex_ph_err_offset := add32 (ex_ph_err_offset s) (shl32 1 BB_ERROR_BITS)\<rparr>
                else s
              else s);
         s = s\<lparr>ex_ph_raw_d0 := tag\<rparr>;
         err = sub32 (add32 tag (ex_ph_err_offset s)) (ex_ph_err_d0 s)
     in (err, s\<lparr>ex_ph_err_d0 := add32 tag (ex_ph_err_offset s)\<rparr>))"

definition external_update ::
  "board_cfg \<Rightarrow> spll_external_state \<Rightarrow> int \<Rightarrow> int \<Rightarrow> spll_hw \<Rightarrow>
   int \<times> spll_external_state \<times> spll_hw" where
  "external_update b s tag source h =
    (if source = ex_ref_src s then
       let (s, h) = realign_fsm b s h;
           (err, s) = external_phase s tag;
           (y, p) = pi_update (ex_pi s) err;
           s = s\<lparr>ex_pi := p\<rparr>;
           (y2, lp) = lowpass_update (ex_lp_short s) y;
           s = s\<lparr>ex_lp_short := lp\<rparr>;
           (ylt, lp) = lowpass_update (ex_lp_long s) y;
           s = s\<lparr>ex_lp_long := lp\<rparr>;
           absent = (rd_ECCR h AND SPLL_ECCR_EXT_REF_PRESENT = 0);
           s = (if absent then s\<lparr>ex_ld := ld_init (ex_ld s)\<rparr> else s);
           y2 = (if absent then 32000 else y2);
           h = h\<lparr>r_DAC_MAIN := to_u32 (y2 AND 0xffff)\<rparr>;
           h = spll_debug (DBG_ERR OR DBG_EXT) ylt 0 h;
           h = spll_debug (DBG_SAMPLE_ID OR DBG_EXT) (ex_sample_n s) 0 h;
           s = s\<lparr>ex_sample_n := add32 (ex_sample_n s) 1\<rparr>;
           h = spll_debug (DBG_Y OR DBG_EXT) y2 1 h;
           (l, d) = ld_update (ex_ld s) (sub32 y2 ylt);
           s = s\<lparr>ex_ld := d\<rparr>
       in (if l \<noteq> 0 then SPLL_LOCKED else SPLL_LOCKING, s, h)
     else (SPLL_LOCKING, s, h))"

definition external_start :: "spll_external_state \<Rightarrow> spll_hw \<Rightarrow> spll_external_state \<times> spll_hw" where
  "external_start s h =
    (let h = h\<lparr>r_ECCR := 0\<rparr>;
         s = s\<lparr>ex_sample_n := 0,
               ex_realign_state := (if ex_realign_clocks s \<noteq> 0 then REALIGN_STAGE1 else REALIGN_DISABLED)\<rparr>;
         h = h\<lparr>r_ECCR := SPLL_ECCR_EXT_EN\<rparr>
     in (s, spll_debug (DBG_EVENT OR DBG_EXT) DBG_EVT_START 1 h))"

definition external_locked :: "spll_external_state \<Rightarrow> bool" where
  "external_locked s \<longleftrightarrow> ld_locked (ex_ld s) \<noteq> 0 \<and>
     (if ex_realign_clocks s \<noteq> 0 then ex_realign_state s = REALIGN_DONE else True)"

section \<open>The realignment as a state machine\<close>

text \<open>The transitions of the realignment; the three final states have none.\<close>

inductive realign_trans :: "realign_state \<Rightarrow> realign_state \<Rightarrow> bool" where
  start: "realign_trans REALIGN_STAGE1 REALIGN_STAGE1_WAIT"
| aligned: "realign_trans REALIGN_STAGE1_WAIT REALIGN_STAGE2"
| no_edge: "realign_trans REALIGN_STAGE1_WAIT REALIGN_PPS_INVALID"
| locked: "realign_trans REALIGN_STAGE2 REALIGN_STAGE2_WAIT"
| synced: "realign_trans REALIGN_STAGE2_WAIT REALIGN_DONE"
| no_sync: "realign_trans REALIGN_STAGE2_WAIT REALIGN_PPS_INVALID"

inductive_cases realign_trans_final:
  "realign_trans REALIGN_DONE r" "realign_trans REALIGN_PPS_INVALID r" "realign_trans REALIGN_DISABLED r"

inductive_simps realign_trans_to:
  "realign_trans r REALIGN_DONE" "realign_trans r REALIGN_STAGE2_WAIT" "realign_trans r REALIGN_STAGE2"
  "realign_trans r REALIGN_STAGE1"

lemma realign_fsm_frame [simp]:
  "ex_ld (fst (realign_fsm b s h)) = ex_ld s" "ex_pi (fst (realign_fsm b s h)) = ex_pi s"
  "ex_lp_short (fst (realign_fsm b s h)) = ex_lp_short s"
  "ex_lp_long (fst (realign_fsm b s h)) = ex_lp_long s"
  "ex_realign_clocks (fst (realign_fsm b s h)) = ex_realign_clocks s"
  "ex_ref_src (fst (realign_fsm b s h)) = ex_ref_src s"
  "ex_ph_err_offset (fst (realign_fsm b s h)) = ex_ph_err_offset s"
  "ex_ph_raw_d0 (fst (realign_fsm b s h)) = ex_ph_raw_d0 s"
  "ex_ph_err_d0 (fst (realign_fsm b s h)) = ex_ph_err_d0 s"
  "h_ECCR (snd (realign_fsm b s h)) = h_ECCR h" "h_tics (snd (realign_fsm b s h)) = h_tics h"
  by (simp_all add: realign_fsm_def split: realign_state.split)

lemma realign_fsm_trans:
  "ex_realign_state (fst (realign_fsm b s h)) = ex_realign_state s \<or>
   realign_trans (ex_realign_state s) (ex_realign_state (fst (realign_fsm b s h)))"
  by (simp add: realign_fsm_def realign_trans.simps split: realign_state.split)

lemma external_phase_frame [simp]:
  "ex_ld (snd (external_phase s t)) = ex_ld s" "ex_pi (snd (external_phase s t)) = ex_pi s"
  "ex_lp_short (snd (external_phase s t)) = ex_lp_short s"
  "ex_lp_long (snd (external_phase s t)) = ex_lp_long s"
  "ex_realign_clocks (snd (external_phase s t)) = ex_realign_clocks s"
  "ex_realign_state (snd (external_phase s t)) = ex_realign_state s"
  "ex_ref_src (snd (external_phase s t)) = ex_ref_src s"
  by (simp_all add: external_phase_def Let_def)

lemma rd_ECCR_debug [simp]: "rd_ECCR (spll_debug w v l h) = rd_ECCR h"
  by (simp add: rd_ECCR_def)

lemma external_update_fields:
  assumes "source = ex_ref_src s"
  shows "ex_realign_state (fst (snd (external_update b s tag source h))) =
      ex_realign_state (fst (realign_fsm b s h))"
    and "ex_realign_clocks (fst (snd (external_update b s tag source h))) = ex_realign_clocks s"
    and "ex_ref_src (fst (snd (external_update b s tag source h))) = ex_ref_src s"
    and "p_ESCR (snd (snd (external_update b s tag source h))) = p_ESCR (snd (realign_fsm b s h))"
    and "h_ECCR (snd (snd (external_update b s tag source h))) = h_ECCR h"
  using assms by (simp_all add: external_update_def Let_def case_prod_beta)

section \<open>The PPS is flagged valid only after the alignment\<close>

text \<open>What the hardware presents when a tag is processed: the tag and the status inputs.\<close>

record ext_event =
  ev_tag :: int
  ev_source :: int
  ev_tics :: u32
  ev_ECCR :: u32
  ev_ESCR :: u32

definition ext_inputs :: "ext_event \<Rightarrow> spll_hw \<Rightarrow> spll_hw" where
  "ext_inputs e h = h\<lparr>h_tics := ev_tics e, h_ECCR := ev_ECCR e, h_ESCR := ev_ESCR e\<rparr>"

fun external_run ::
  "board_cfg \<Rightarrow> spll_external_state \<times> spll_hw \<Rightarrow> ext_event list \<Rightarrow> spll_external_state \<times> spll_hw" where
  "external_run b sh [] = sh"
| "external_run b (s, h) (e # es) =
     external_run b (snd (external_update b s (ev_tag e) (ev_source e) (ext_inputs e h))) es"

definition pps_valid :: "spll_hw \<Rightarrow> bool" where
  "pps_valid h \<longleftrightarrow> p_ESCR h AND PPSG_ESCR_PPS_VALID \<noteq> 0"

definition realign_inv :: "spll_external_state \<Rightarrow> spll_hw \<Rightarrow> bool" where
  "realign_inv s h \<longleftrightarrow> (pps_valid h \<longleftrightarrow> ex_realign_state s = REALIGN_DONE)"

lemma realign_fsm_inv:
  "realign_inv s h \<Longrightarrow> realign_inv (fst (realign_fsm b s h)) (snd (realign_fsm b s h))"
  by (auto simp: realign_inv_def realign_fsm_def pps_valid_def split: realign_state.split)

lemma external_update_inv:
  assumes "realign_inv s h"
  shows "realign_inv (fst (snd (external_update b s tag source h)))
    (snd (snd (external_update b s tag source h)))"
proof (cases "source = ex_ref_src s")
  case True
  then show ?thesis using realign_fsm_inv [OF assms, of b]
    by (simp add: realign_inv_def pps_valid_def external_update_fields)
next
  case False
  then show ?thesis using assms by (simp add: external_update_def)
qed

lemma external_run_inv:
  "realign_inv (fst sh) (snd sh) \<Longrightarrow>
   realign_inv (fst (external_run b sh es)) (snd (external_run b sh es)) \<and>
   ex_realign_clocks (fst (external_run b sh es)) = ex_realign_clocks (fst sh)"
proof (induction es arbitrary: sh)
  case (Cons e es)
  obtain s h where sh: "sh = (s, h)" by (cases sh)
  have "realign_inv s (ext_inputs e h)" using Cons.prems
    by (simp add: sh realign_inv_def ext_inputs_def pps_valid_def)
  note inv = external_update_inv [OF this, of b "ev_tag e" "ev_source e"]
  have "ex_realign_clocks (fst (snd (external_update b s (ev_tag e) (ev_source e) (ext_inputs e h)))) =
      ex_realign_clocks s"
    by (cases "ev_source e = ex_ref_src s")
      (simp_all add: external_update_fields, simp add: external_update_def)
  then show ?case using Cons.IH [OF inv] by (simp add: sh)
qed simp

text \<open>
  C7. In grandmaster mode the PPS is declared valid exactly while the realignment is complete:
  from a reset (\<open>ESCR\<close> zero) and the start of the external PLL, through any sequence of tags,
  timer values and hardware status bits, \<open>PPS_VALID\<close> is set in \<open>ESCR\<close> if and only if the state
  machine is in \<open>REALIGN_DONE\<close>; and if alignment was asked for, the external PLL reports lock
  only with a valid PPS.
\<close>

theorem external_pps_valid_iff_aligned:
  assumes "p_ESCR h0 = 0"
  shows "let (s, h) = external_run b (external_start s0 h0) es
         in (pps_valid h \<longleftrightarrow> ex_realign_state s = REALIGN_DONE) \<and>
            (ex_realign_clocks s0 \<noteq> 0 \<and> external_locked s \<longrightarrow> pps_valid h)"
proof -
  have "realign_inv (fst (external_start s0 h0)) (snd (external_start s0 h0))"
    using assms by (simp add: realign_inv_def pps_valid_def external_start_def Let_def)
  note inv = external_run_inv [OF this, of b es]
  have "ex_realign_clocks (fst (external_start s0 h0)) = ex_realign_clocks s0"
    by (simp add: external_start_def Let_def)
  with inv show ?thesis by (simp add: realign_inv_def case_prod_beta external_locked_def)
qed

lemma external_pps_valid_iff_aligned_witness:
  "\<forall>s0 h0. pps_valid (snd (external_run board_wrs (external_start (s0\<lparr>ex_realign_clocks := 1\<rparr>)
      (h0\<lparr>p_ESCR := 0\<rparr>)) [])) = False"
proof (intro allI)
  fix s0 h0
  show "pps_valid (snd (external_run board_wrs (external_start (s0\<lparr>ex_realign_clocks := 1\<rparr>)
      (h0\<lparr>p_ESCR := 0\<rparr>)) [])) = False"
    using external_pps_valid_iff_aligned [of "h0\<lparr>p_ESCR := 0\<rparr>" board_wrs
        "s0\<lparr>ex_realign_clocks := 1\<rparr>" "[]"]
    by (simp add: case_prod_beta external_start_def Let_def)
qed

text \<open>
  A failed realignment is final: without a restart the state machine never leaves
  \<open>REALIGN_PPS_INVALID\<close>, so the external PLL stays unlocked for the sequencer.
\<close>

lemma realign_invalid_final:
  "ex_realign_state s = REALIGN_PPS_INVALID \<Longrightarrow> realign_fsm b s h = (s, h)"
  by (simp add: realign_fsm_def)

text \<open>
  A restart, as the sequencer does after the external reference is lost, does not clear
  \<open>ESCR\<close>: a PPS that was valid stays flagged valid while the realignment starts over.
\<close>

lemma external_restart_keeps_valid:
  "pps_valid h \<Longrightarrow> ex_realign_clocks s \<noteq> 0 \<Longrightarrow>
   pps_valid (snd (external_start s h)) \<and>
   ex_realign_state (fst (external_start s h)) = REALIGN_STAGE1"
  by (simp add: external_start_def pps_valid_def Let_def)

section \<open>The DAC of the external PLL\<close>

definition lp_ok :: "spll_lowpass_t \<Rightarrow> bool" where
  "lp_ok lp \<longleftrightarrow> 0 \<le> lp_alpha lp \<and> lp_alpha lp \<le> 4000 \<and>
     (lp_y_d lp = INT_MIN \<or> 5 \<le> lp_y_d lp \<and> lp_y_d lp \<le> 65531)"

lemma lowpass_ok:
  assumes "lp_ok lp" "5 \<le> x" "x \<le> 65531"
  shows "5 \<le> fst (lowpass_update lp x) \<and> fst (lowpass_update lp x) \<le> 65531 \<and>
    lp_ok (snd (lowpass_update lp x))"
proof -
  have y: "5 \<le> fst (lowpass_update lp x) \<and> fst (lowpass_update lp x) \<le> 65531"
  proof (cases "lp_y_d lp = INT_MIN")
    case True
    then show ?thesis using assms by (simp add: lowpass_update_def)
  next
    case False
    then have r: "5 \<le> lp_y_d lp" "lp_y_d lp \<le> 65531" using assms(1) by (auto simp: lp_ok_def)
    then have "\<bar>x - lp_y_d lp\<bar> \<le> 65526" using assms(2,3) by linarith
    then have "lp_alpha lp * \<bar>x - lp_y_d lp\<bar> \<le> 4000 * 65526"
      using assms(1) by (intro mult_mono) (auto simp: lp_ok_def)
    then have "\<bar>lp_alpha lp * (x - lp_y_d lp)\<bar> \<le> 4000 * 65526"
      using assms(1) by (simp add: abs_mult lp_ok_def)
    then have "in32 (lp_alpha lp * (x - lp_y_d lp))" by (auto simp: in32_def)
    then show ?thesis using lowpass_no_overshoot [of lp x] r assms(1,2,3) False
      by (auto simp: lp_ok_def in32_def)
  qed
  moreover have "lp_alpha (snd (lowpass_update lp x)) = lp_alpha lp"
    "lp_y_d (snd (lowpass_update lp x)) = fst (lowpass_update lp x)"
    by (simp_all add: lowpass_update_def Let_def)
  ultimately show ?thesis using assms(1) by (auto simp: lp_ok_def)
qed

definition external_inv :: "spll_external_state \<Rightarrow> bool" where
  "external_inv s \<longleftrightarrow> pi_y_min (ex_pi s) = 5 \<and> pi_y_max (ex_pi s) = 65531 \<and>
     lp_ok (ex_lp_short s) \<and> lp_ok (ex_lp_long s) \<and> ld_wf (ex_ld s) \<and>
     1 < ld_lock_samples (ex_ld s) \<and> 1 < ld_delock_samples (ex_ld s)"

lemma external_init_inv: "external_inv (external_init s r a)"
  by (simp add: external_inv_def external_init_def Let_def c_arith lp_ok_def lowpass_init_def
      ld_wf_def ld_init_def)

lemma ld_after_init:
  "1 < ld_lock_samples d \<Longrightarrow> 1 < ld_delock_samples d \<Longrightarrow>
   ld_locked (snd (ld_update (ld_init d) y)) = 0"
  by (simp add: ld_update_def ld_init_def Let_def c_arith)

text \<open>
  The external PLL keeps the DAC in range and lets go without a reference: on the invariant
  that \<open>external_init\<close> establishes and every update keeps, the DAC holds after an update a value
  of the tuning range \<open>5..65531\<close>; if the hardware reports no external reference, the lock is
  dropped and the DAC goes to 32000.
\<close>

theorem external_update_dac:
  assumes "external_inv s"
  shows "let (l, s', h') = external_update b s tag (ex_ref_src s) h
         in external_inv s' \<and>
            (\<exists>v. 5 \<le> v \<and> v \<le> 65531 \<and> r_DAC_MAIN h' = to_u32 v) \<and>
            (h_ECCR h AND SPLL_ECCR_EXT_REF_PRESENT = 0 \<longrightarrow>
              r_DAC_MAIN h' = 32000 \<and> ld_locked (ex_ld s') = 0 \<and> \<not> external_locked s')"
proof -
  define s1 where "s1 = fst (realign_fsm b s h)"
  define h1 where "h1 = snd (realign_fsm b s h)"
  define err where "err = fst (external_phase s1 tag)"
  define y where "y = fst (pi_update (ex_pi s) err)"
  define y2 where "y2 = fst (lowpass_update (ex_lp_short s) y)"
  define ylt where "ylt = fst (lowpass_update (ex_lp_long s) y)"
  define absent where "absent \<longleftrightarrow> rd_ECCR h1 AND SPLL_ECCR_EXT_REF_PRESENT = 0"
  define d where "d = (if absent then ld_init (ex_ld s) else ex_ld s)"
  define v where "v = (if absent then 32000 else y2)"
  define r where "r = external_update b s tag (ex_ref_src s) h"
  have y: "5 \<le> y" "y \<le> 65531"
    using pi_update_clamped [of "ex_pi s" err] assms by (simp_all add: y_def external_inv_def)
  have lp: "lp_ok (ex_lp_short s)" "lp_ok (ex_lp_long s)"
    using assms by (simp_all add: external_inv_def)
  have v: "5 \<le> v" "v \<le> 65531" using lowpass_ok [OF lp(1) y] by (simp_all add: v_def y2_def)
  have mask: "v AND 0xffff = v"
    using v take_bit_eq_mask [of 16 v] by (simp add: mask_eq_exp_minus_1 take_bit_eq_mod)
  have "r_DAC_MAIN (snd (snd r)) = to_u32 (v AND 0xffff)"
    by (simp add: r_def external_update_def Let_def case_prod_beta v_def y2_def y_def err_def
        absent_def s1_def h1_def)
  then have dac: "r_DAC_MAIN (snd (snd r)) = to_u32 v" by (simp only: mask)
  have ld: "ex_ld (fst (snd r)) = snd (ld_update d (sub32 v ylt))"
    by (simp add: r_def external_update_def Let_def case_prod_beta v_def y2_def y_def err_def d_def
        absent_def s1_def h1_def ylt_def)
  have fields: "ex_pi (fst (snd r)) = snd (pi_update (ex_pi s) err)"
    "ex_lp_short (fst (snd r)) = snd (lowpass_update (ex_lp_short s) y)"
    "ex_lp_long (fst (snd r)) = snd (lowpass_update (ex_lp_long s) y)"
    by (simp_all add: r_def external_update_def Let_def case_prod_beta y_def err_def s1_def)
  have "ld_wf d" using assms by (auto simp: d_def external_inv_def ld_wf_def ld_init_def)
  then have inv: "external_inv (fst (snd r))"
    using assms lowpass_ok [OF lp(1) y] lowpass_ok [OF lp(2) y]
    by (simp add: external_inv_def fields ld pi_update_params ld_update_wf d_def ld_init_def)
  have "absent" if "h_ECCR h AND SPLL_ECCR_EXT_REF_PRESENT = 0"
    using that by (simp add: absent_def h1_def rd_ECCR_bits)
  then have "h_ECCR h AND SPLL_ECCR_EXT_REF_PRESENT = 0 \<longrightarrow>
      v = 32000 \<and> ld_locked (ex_ld (fst (snd r))) = 0"
    using assms ld_after_init by (simp add: ld v_def d_def external_inv_def)
  then show ?thesis using inv dac v
    by (auto simp: r_def [symmetric] case_prod_beta external_locked_def to_u32_def)
qed

lemma external_update_dac_witness:
  "\<forall>s0 h. r_DAC_MAIN (snd (snd (external_update board_wrs (external_init s0 2 1) 77 2
      (h\<lparr>h_ECCR := 0\<rparr>)))) = 32000"
proof (intro allI)
  fix s0 h
  have "ex_ref_src (external_init s0 2 1) = 2" by (simp add: external_init_def Let_def)
  then show "r_DAC_MAIN (snd (snd (external_update board_wrs (external_init s0 2 1) 77 2
      (h\<lparr>h_ECCR := 0\<rparr>)))) = 32000"
    using external_update_dac [OF external_init_inv, of board_wrs s0 2 1 77 "h\<lparr>h_ECCR := 0\<rparr>"]
    by (simp add: case_prod_beta Let_def)
qed

end
