(* ===== verification/Spll_Ptracker.thy ===== *)
theory Spll_Ptracker
  imports Spll_Common
begin

text \<open>
  \<open>softpll/spll_ptracker.c\<close>: the phase trackers, which average the phase of every reference
  channel against the local clock. The lookup table that replaces two branches is shown to
  be accessed in range and to average correctly across the wrap of the phase.
\<close>

section \<open>The code\<close>

record spll_ptracker_state =
  pt_enabled :: int
  pt_id :: int
  pt_n_avg :: int
  pt_acc :: int
  pt_avg_count :: int
  pt_preserve_sign :: int
  pt_phase_val :: int
  pt_ready :: int

definition ptracker_init :: "spll_ptracker_state \<Rightarrow> int \<Rightarrow> int \<Rightarrow> spll_ptracker_state" where
  "ptracker_init s ident num_avgs = s\<lparr>pt_id := ident, pt_ready := 0, pt_n_avg := num_avgs,
     pt_acc := 0, pt_avg_count := 0, pt_enabled := 0\<rparr>"

definition ptracker_start ::
  "spll_ptracker_state \<Rightarrow> spll_hw \<Rightarrow> spll_ptracker_state \<times> spll_hw" where
  "ptracker_start s h =
     (let s = s\<lparr>pt_preserve_sign := 0, pt_enabled := 1, pt_ready := 0, pt_acc := 0,
                pt_avg_count := 0\<rparr>;
          h = spll_enable_tagger (pt_id s) 1 h;
          h = spll_enable_tagger (spll_n_chan_ref h) 1 h
      in (s, h))"

definition adj_tab :: "int list" where
  "adj_tab = [0, 0, 0, - shl32 1 HPLL_N,
              0, 0, 0, 0,
              0, 0, 0, 0,
              shl32 1 HPLL_N, 0, 0, 0]"

text \<open>
  \<open>ptrackers_update\<close>: \<open>ptracker_sample\<close> is its last part, what an enabled tracker does with
  a phase sample; \<open>tag_ref\<close> is the file's static variable, the latest tag of the local clock.
\<close>

definition ptracker_sample :: "spll_ptracker_state \<Rightarrow> int \<Rightarrow> spll_ptracker_state option" where
  "ptracker_sample s delta =
    (let index = drop_bit (HPLL_N - 2) delta
     in if pt_avg_count s = 0 then
          Some (s\<lparr>pt_preserve_sign := shl32 index 2, pt_acc := delta,
                  pt_avg_count := add32 (pt_avg_count s) 1\<rparr>)
        else do {
          adj \<leftarrow> aget adj_tab (add32 index (pt_preserve_sign s));
          let s = s\<lparr>pt_acc := add32 (pt_acc s) (add32 delta adj),
                    pt_avg_count := add32 (pt_avg_count s) 1\<rparr>;
          if pt_avg_count s = pt_n_avg s then
            if pt_n_avg s = 0 then None
            else Some (s\<lparr>pt_phase_val := pt_acc s sdiv pt_n_avg s, pt_ready := 1,
                         pt_acc := 0, pt_avg_count := 0\<rparr>)
          else Some s
        })"

definition ptrackers_update ::
  "int \<times> spll_ptracker_state list \<Rightarrow> int \<Rightarrow> int \<Rightarrow> spll_hw \<Rightarrow> (int \<times> spll_ptracker_state list) option" where
  "ptrackers_update tp tag source h =
    (let (tag_ref, ptrackers) = tp in
     if source = spll_n_chan_ref h then Some (tag, ptrackers)
     else do {
       s \<leftarrow> aget ptrackers source;
       if pt_enabled s = 0 then Some (tag_ref, ptrackers)
       else do {
         s \<leftarrow> ptracker_sample s (sub32 tag_ref tag AND (shl32 1 HPLL_N - 1));
         ptrackers \<leftarrow> aset ptrackers source s;
         Some (tag_ref, ptrackers)
       }
     })"

section \<open>The accesses are in range\<close>

definition pt_wf :: "spll_ptracker_state \<Rightarrow> bool" where
  "pt_wf s \<longleftrightarrow> (pt_avg_count s \<noteq> 0 \<longrightarrow> pt_preserve_sign s \<in> {0, 4, 8, 12}) \<and>
     0 \<le> pt_avg_count s \<and> pt_avg_count s < pt_n_avg s \<and> 1 < pt_n_avg s \<and> pt_n_avg s \<le> 2 ^ 16"

lemma delta_mod: "e AND (shl32 1 HPLL_N - 1) = e mod 16384"
  using take_bit_eq_mask [of 14 e] by (simp add: mask_eq_exp_minus_1 take_bit_eq_mod c_arith)

lemma pt_init_wf:
  "1 < n \<Longrightarrow> n \<le> 2 ^ 16 \<Longrightarrow> pt_wf (fst (ptracker_start (ptracker_init s i n) h))"
  by (simp add: pt_wf_def ptracker_start_def ptracker_init_def Let_def)

lemma quarter: "0 \<le> d \<Longrightarrow> d < 16384 \<Longrightarrow> drop_bit (HPLL_N - 2) d \<in> {0, 1, 2, 3 :: int}"
proof -
  assume "0 \<le> d" "d < 16384"
  then have "0 \<le> d div 4096" "d div 4096 < 4" by auto
  then show ?thesis by (auto simp: drop_bit_eq_div)
qed

lemma adj_tab_access:
  assumes "q \<in> {0, 1, 2, 3}" "p \<in> {0, 4, 8, 12}"
  shows "aget adj_tab (add32 q p) =
    Some (if q = 3 \<and> p = 0 then - 16384 else if q = 0 \<and> p = 12 then 16384 else 0)"
proof -
  have "0 \<le> q + p" "q + p < 16" using assms by auto
  then have "aget adj_tab (add32 q p) = Some (adj_tab ! nat (q + p))"
    by (simp add: c_arith aget_def adj_tab_def nat_less_iff)
  also have "adj_tab ! nat (q + p) =
      (if q = 3 \<and> p = 0 then - 16384 else if q = 0 \<and> p = 12 then 16384 else 0)"
    using assms by (elim insertE emptyE) (simp_all add: adj_tab_def c_arith)
  finally show ?thesis .
qed

text \<open>The adjustment of a sample in quarter \<open>q\<close> when the first sample was in quarter \<open>q0\<close>.\<close>

definition pt_adj :: "int \<Rightarrow> int \<Rightarrow> int" where
  "pt_adj q0 q = (if q = 3 \<and> q0 = 0 then - 16384 else if q = 0 \<and> q0 = 3 then 16384 else 0)"

lemma ptracker_sample_first:
  "pt_avg_count s = 0 \<Longrightarrow> 0 \<le> d \<Longrightarrow> d < 16384 \<Longrightarrow>
   ptracker_sample s d =
     Some (s\<lparr>pt_preserve_sign := 4 * (d div 4096), pt_acc := d, pt_avg_count := 1\<rparr>)"
  by (simp add: ptracker_sample_def Let_def c_arith drop_bit_eq_div push_bit_eq_mult)

lemma ptracker_sample_next:
  assumes "pt_wf s" "pt_avg_count s \<noteq> 0" "pt_preserve_sign s = 4 * q0" "0 \<le> d" "d < 16384"
  shows "ptracker_sample s d =
    (let acc = add32 (pt_acc s) (add32 d (pt_adj q0 (d div 4096)))
     in if pt_avg_count s + 1 = pt_n_avg s
        then Some (s\<lparr>pt_acc := 0, pt_avg_count := 0, pt_phase_val := acc sdiv pt_n_avg s, pt_ready := 1\<rparr>)
        else Some (s\<lparr>pt_acc := acc, pt_avg_count := pt_avg_count s + 1\<rparr>))"
proof -
  have "pt_preserve_sign s \<in> {0, 4, 8, 12}" using assms(1,2) by (simp add: pt_wf_def)
  note adj = adj_tab_access [OF quarter [OF assms(4,5)] this]
  have adj: "aget adj_tab (add32 (d div 4096) (pt_preserve_sign s)) = Some (pt_adj q0 (d div 4096))"
    using adj assms(3) by (simp add: drop_bit_eq_div pt_adj_def)
  have "add32 (pt_avg_count s) 1 = pt_avg_count s + 1" "pt_n_avg s \<noteq> 0"
    using assms(1) by (simp_all add: pt_wf_def c_arith)
  then show ?thesis using assms(2) adj by (simp add: ptracker_sample_def Let_def drop_bit_eq_div)
qed

lemma pt_wf_quarter:
  assumes "pt_wf s" "pt_avg_count s \<noteq> 0"
  obtains q0 where "pt_preserve_sign s = 4 * q0"
  using assms that [of 0] that [of 1] that [of 2] that [of 3] by (auto simp: pt_wf_def)

lemma ptracker_sample_some:
  assumes "pt_wf s" "0 \<le> d" "d < 16384"
  shows "\<exists>s'. ptracker_sample s d = Some s' \<and> pt_wf s' \<and> pt_n_avg s' = pt_n_avg s \<and>
    pt_enabled s' = pt_enabled s"
proof (cases "pt_avg_count s = 0")
  case True
  have "4 * (d div 4096) \<in> {0, 4, 8, 12}"
    using quarter [OF assms(2,3)] by (auto simp: drop_bit_eq_div)
  then show ?thesis using ptracker_sample_first [OF True assms(2,3)] assms(1)
    by (auto simp: pt_wf_def)
next
  case False
  from pt_wf_quarter [OF assms(1) False] obtain q0 where q0: "pt_preserve_sign s = 4 * q0" .
  show ?thesis using ptracker_sample_next [OF assms(1) False q0 assms(2,3)] assms(1) False
    by (auto simp: pt_wf_def Let_def)
qed

text \<open>
  The phase trackers never access their lookup table out of range: whatever tags arrive
  on the local channel or on a channel that has a tracker, \<open>ptrackers_update\<close> is defined and
  keeps every tracker well formed.
\<close>

theorem ptrackers_update_in_range:
  assumes "list_all pt_wf pts" "source = spll_n_chan_ref h \<or> 0 \<le> source \<and> source < int (length pts)"
  shows "\<exists>t' pts'. ptrackers_update (t, pts) tag source h = Some (t', pts') \<and>
    list_all pt_wf pts' \<and> length pts' = length pts"
proof (cases "source = spll_n_chan_ref h")
  case True
  then show ?thesis using assms(1) by (simp add: ptrackers_update_def)
next
  case False
  let ?s = "pts ! nat source"
  let ?d = "sub32 t tag AND (shl32 1 HPLL_N - 1)"
  have src: "0 \<le> source" "source < int (length pts)" using False assms(2) by auto
  then have wf: "pt_wf ?s" using assms(1) by (simp add: list_all_length nat_less_iff)
  have "0 \<le> ?d" "?d < 16384" unfolding delta_mod by simp_all
  from ptracker_sample_some [OF wf this] obtain s' where
    s': "ptracker_sample ?s ?d = Some s'" "pt_wf s'" by blast
  have "list_all pt_wf (pts[nat source := s'])"
    using assms(1) s'(2) by (rule list_all_update)
  then show ?thesis using assms(1) False src s'(1)
    by (simp add: ptrackers_update_def aget_Some aset_Some)
qed

section \<open>Averaging across the wrap\<close>

fun pt_feed :: "spll_ptracker_state \<Rightarrow> int list \<Rightarrow> spll_ptracker_state option" where
  "pt_feed s [] = Some s"
| "pt_feed s (d # ds) = do { s \<leftarrow> ptracker_sample s d; pt_feed s ds }"

lemma pt_feed_snoc: "pt_feed s (ds @ [d]) = do { s \<leftarrow> pt_feed s ds; ptracker_sample s d }"
  by (induction ds arbitrary: s) (simp_all add: Option.bind_assoc)

text \<open>
  The table implements unwrapping: a phase at most a quarter of a turn away from the first
  one is accumulated at its true distance from it.
\<close>

lemma mod_small_shift:
  assumes "0 \<le> d1" "d1 < (16384 :: int)" "\<bar>e\<bar> < 4096"
  shows "(d1 + e) mod 16384 =
    (if d1 + e < 0 then d1 + e + 16384 else if 16384 \<le> d1 + e then d1 + e - 16384 else d1 + e)"
proof -
  consider "d1 + e < 0" | "16384 \<le> d1 + e" | "0 \<le> d1 + e" "d1 + e < 16384" by linarith
  then show ?thesis
  proof cases
    case 1
    have "(d1 + e) mod 16384 = (d1 + e + 16384) mod 16384" by simp
    also have "\<dots> = d1 + e + 16384" using 1 assms by (intro mod_pos_pos_trivial) auto
    finally show ?thesis using 1 by simp
  next
    case 2
    have "(d1 + e) mod 16384 = (d1 + e - 16384) mod 16384" by simp
    also have "\<dots> = d1 + e - 16384" using 2 assms by (intro mod_pos_pos_trivial) auto
    finally show ?thesis using 2 by simp
  next
    case 3
    then show ?thesis by simp
  qed
qed

lemma quarter_iff:
  assumes "0 \<le> d" "d < (16384 :: int)"
  shows "d div 4096 = 0 \<longleftrightarrow> d < 4096" "d div 4096 = 3 \<longleftrightarrow> 12288 \<le> d"
  using assms by auto

lemma pt_adj_unwraps:
  assumes "\<bar>q - p\<bar> < 4096"
  shows "q mod 16384 + pt_adj (p mod 16384 div 4096) (q mod 16384 div 4096) =
    q + (p mod 16384 - p)"
proof -
  define d1 where "d1 = p mod 16384"
  define e where "e = q - p"
  have d1: "0 \<le> d1" "d1 < 16384" by (simp_all add: d1_def)
  have q: "q mod 16384 = (d1 + e) mod 16384"
    unfolding d1_def e_def by (simp add: mod_add_left_eq)
  have d: "0 \<le> (d1 + e) mod 16384" "(d1 + e) mod 16384 < 16384" by simp_all
  show ?thesis
    unfolding d1_def [symmetric] q pt_adj_def quarter_iff [OF d] quarter_iff [OF d1]
    using mod_small_shift [OF d1, of e] assms d1 by (auto simp: e_def)
qed

lemma pt_window:
  assumes wf: "pt_wf s" "pt_avg_count s = 0"
    and near: "\<forall>q\<in>set qs. \<bar>q - p\<bar> < 4096" and len: "int (length qs) + 1 < pt_n_avg s"
  shows "\<exists>s'. pt_feed s (map (\<lambda>x. x mod 16384) (p # qs)) = Some s' \<and> pt_wf s' \<and>
    pt_avg_count s' = int (length qs) + 1 \<and> pt_n_avg s' = pt_n_avg s \<and>
    pt_preserve_sign s' = 4 * (p mod 16384 div 4096) \<and>
    pt_acc s' = sum_list (map (\<lambda>x. x + (p mod 16384 - p)) (p # qs)) \<and>
    \<bar>pt_acc s'\<bar> \<le> 20480 * (int (length qs) + 1)"
  using near len
proof (induction qs rule: rev_induct)
  case Nil
  have "4 * (p mod 16384 div 4096) \<in> {0, 4, 8, 12}"
    using quarter [of "p mod 16384"] by (auto simp: drop_bit_eq_div)
  moreover have "p mod 16384 < 16384" "0 \<le> p mod 16384" by simp_all
  ultimately show ?case using wf ptracker_sample_first [OF wf(2), of "p mod 16384"]
    by (auto simp: pt_wf_def)
next
  case (snoc q qs)
  then obtain s' where s': "pt_feed s (map (\<lambda>x. x mod 16384) (p # qs)) = Some s'" "pt_wf s'"
    "pt_avg_count s' = int (length qs) + 1" "pt_n_avg s' = pt_n_avg s"
    "pt_preserve_sign s' = 4 * (p mod 16384 div 4096)"
    "pt_acc s' = sum_list (map (\<lambda>x. x + (p mod 16384 - p)) (p # qs))"
    "\<bar>pt_acc s'\<bar> \<le> 20480 * (int (length qs) + 1)"
    by auto
  define v where "v = q + (p mod 16384 - p)"
  have near: "\<bar>q - p\<bar> < 4096" using snoc.prems by simp
  have "0 \<le> p mod 16384" "p mod 16384 < 16384" by simp_all
  then have v: "\<bar>v\<bar> \<le> 20480" using near unfolding v_def by linarith
  have small: "20480 * (int (length qs) + 2) < 2 ^ 31"
    using snoc.prems(2) wf(1) by (simp add: pt_wf_def)
  have "add32 (q mod 16384) (pt_adj (p mod 16384 div 4096) (q mod 16384 div 4096)) = v"
    using v by (simp add: c_arith pt_adj_unwraps [OF near] v_def [symmetric])
  moreover have acc: "add32 (pt_acc s') v = pt_acc s' + v"
    using s'(7) v small by (simp add: c_arith)
  moreover have cnt: "pt_avg_count s' \<noteq> 0" "pt_avg_count s' + 1 \<noteq> pt_n_avg s'"
    using s'(3,4) snoc.prems(2) by auto
  ultimately have step: "ptracker_sample s' (q mod 16384) =
      Some (s'\<lparr>pt_acc := pt_acc s' + v, pt_avg_count := pt_avg_count s' + 1\<rparr>)"
    using ptracker_sample_next [OF s'(2) cnt(1) s'(5), of "q mod 16384"] by simp
  have "pt_feed s (map (\<lambda>x. x mod 16384) (p # qs @ [q])) = ptracker_sample s' (q mod 16384)"
    using pt_feed_snoc [of s "map (\<lambda>x. x mod 16384) (p # qs)" "q mod 16384"] s'(1)
    by (simp del: pt_feed.simps)
  moreover have "pt_wf (s'\<lparr>pt_acc := pt_acc s' + v, pt_avg_count := pt_avg_count s' + 1\<rparr>)"
    using s'(2,3,4) cnt(1) snoc.prems(2) by (simp add: pt_wf_def)
  moreover have "\<bar>pt_acc s' + v\<bar> \<le> 20480 * (int (length qs) + 2)"
    using s'(7) v by (simp add: distrib_left)
  ultimately show ?case using s' unfolding step by (simp add: v_def algebra_simps)
qed

text \<open>
  C10. A window of phase samples is averaged correctly across the wrap of the phase: if every
  phase of the window is within a quarter of a turn of the first one, then after \<open>n_avg\<close>
  samples, which the tracker sees modulo \<open>2 ^ HPLL_N\<close>, the value is ready and is the mean of the
  true phases, moved by whole turns so that the first lies in the principal interval; nothing
  overflows.
\<close>

theorem ptracker_average:
  assumes "pt_wf s" "pt_avg_count s = 0" "int (length ps) = pt_n_avg s" "\<forall>q\<in>set ps. \<bar>q - hd ps\<bar> < 4096"
  shows "\<exists>s'. pt_feed s (map (\<lambda>x. x mod 2 ^ HPLL_N) ps) = Some s' \<and> pt_ready s' = 1 \<and>
    pt_avg_count s' = 0 \<and>
    pt_phase_val s' = (sum_list ps + pt_n_avg s * (hd ps mod 2 ^ HPLL_N - hd ps)) sdiv pt_n_avg s"
proof -
  have n: "1 < pt_n_avg s" "pt_n_avg s \<le> 2 ^ 16" using assms(1) by (simp_all add: pt_wf_def)
  then obtain p qs q where ps: "ps = p # qs @ [q]"
    using assms(3) by (cases ps; cases "tl ps" rule: rev_cases) auto
  have near: "\<forall>x\<in>set qs. \<bar>x - p\<bar> < 4096" "\<bar>q - p\<bar> < 4096" using assms(4) by (simp_all add: ps)
  from pt_window [OF assms(1,2) near(1)] obtain s' where
    s': "pt_feed s (map (\<lambda>x. x mod 16384) (p # qs)) = Some s'" "pt_wf s'"
    "pt_avg_count s' = int (length qs) + 1" "pt_n_avg s' = pt_n_avg s"
    "pt_preserve_sign s' = 4 * (p mod 16384 div 4096)"
    "pt_acc s' = sum_list (map (\<lambda>x. x + (p mod 16384 - p)) (p # qs))"
    "\<bar>pt_acc s'\<bar> \<le> 20480 * (int (length qs) + 1)"
    using assms(3) by (auto simp: ps)
  define v where "v = q + (p mod 16384 - p)"
  have "0 \<le> p mod 16384" "p mod 16384 < 16384" by simp_all
  then have v: "\<bar>v\<bar> \<le> 20480" using near(2) unfolding v_def by linarith
  have "add32 (q mod 16384) (pt_adj (p mod 16384 div 4096) (q mod 16384 div 4096)) = v"
    using v by (simp add: c_arith pt_adj_unwraps [OF near(2)] v_def [symmetric])
  moreover have "add32 (pt_acc s') v = pt_acc s' + v"
    using s'(7) v n(2) assms(3) by (simp add: c_arith ps)
  moreover have cnt: "pt_avg_count s' \<noteq> 0" "pt_avg_count s' + 1 = pt_n_avg s'"
    using s'(3,4) assms(3) by (simp_all add: ps)
  ultimately have step: "ptracker_sample s' (q mod 16384) = Some (s'\<lparr>pt_acc := 0, pt_avg_count := 0,
      pt_phase_val := (pt_acc s' + v) sdiv pt_n_avg s', pt_ready := 1\<rparr>)"
    using ptracker_sample_next [OF s'(2) cnt(1) s'(5), of "q mod 16384"] by simp
  have "pt_feed s (map (\<lambda>x. x mod 16384) ps) = ptracker_sample s' (q mod 16384)"
    using pt_feed_snoc [of s "map (\<lambda>x. x mod 16384) (p # qs)" "q mod 16384"] s'(1)
    by (simp add: ps del: pt_feed.simps)
  moreover have "pt_acc s' + v = sum_list ps + pt_n_avg s * (p mod 16384 - p)"
  proof -
    have "sum_list (map (\<lambda>x. x + (p mod 16384 - p)) ps) =
        sum_list ps + int (length ps) * (p mod 16384 - p)" by (simp add: sum_list_addf sum_list_triv)
    then show ?thesis using assms(3) by (simp add: s'(6) ps v_def)
  qed
  ultimately show ?thesis unfolding step using s'(4) by (simp add: ps)
qed

lemma ptracker_average_witness:
  "\<exists>s'. pt_feed \<lparr>pt_enabled = 1, pt_id = 0, pt_n_avg = 3, pt_acc = 0, pt_avg_count = 0,
     pt_preserve_sign = 0, pt_phase_val = 0, pt_ready = 0\<rparr> [16380, 8, 2] = Some s' \<and>
     pt_phase_val s' = 16386"
  using ptracker_average [of "\<lparr>pt_enabled = 1, pt_id = 0, pt_n_avg = 3, pt_acc = 0,
     pt_avg_count = 0, pt_preserve_sign = 0, pt_phase_val = 0, pt_ready = 0\<rparr>" "[-4, 8, 2]"]
  by (auto simp: pt_wf_def sdiv_int_numeral_numeral signed_divide_int_def)

lemma ptrackers_update_in_range_witness:
  "\<forall>h. \<exists>t' pts'. ptrackers_update (7, [fst (ptracker_start (ptracker_init undefined 0 512) h)]) 5 0
     (h\<lparr>spll_n_chan_ref := 1\<rparr>) = Some (t', pts')"
proof
  fix h
  show "\<exists>t' pts'. ptrackers_update (7, [fst (ptracker_start (ptracker_init undefined 0 512) h)]) 5 0
     (h\<lparr>spll_n_chan_ref := 1\<rparr>) = Some (t', pts')"
    using ptrackers_update_in_range [of "[fst (ptracker_start (ptracker_init undefined 0 512) h)]" 0
        "h\<lparr>spll_n_chan_ref := 1\<rparr>" 7 5] pt_init_wf [of 512 undefined 0 h]
    by auto
qed

end
