(* ===== verification/Softpll.thy ===== *)
theory Softpll
  imports Spll_Helper Spll_Main Spll_External Spll_Ptracker
begin

text \<open>
  \<open>softpll/softpll_ng.c\<close>: the sequencer that starts the PLLs one after the other, the interrupt
  handler that runs it on every tag, the public interface and the auxiliary clocks, with
  \<open>arch/lm32/irq.c\<close>.
\<close>

section \<open>State\<close>

text \<open>The \<open>SEQ_*\<close> and \<open>AUX_*\<close> constants; \<open>SEQ_NONE\<close> and \<open>AUX_NONE\<close> are every other value.\<close>

datatype seq_state =
    SEQ_NONE
  | SEQ_START_EXT
  | SEQ_WAIT_EXT
  | SEQ_START_HELPER
  | SEQ_WAIT_HELPER
  | SEQ_START_MAIN
  | SEQ_WAIT_MAIN
  | SEQ_DISABLED
  | SEQ_READY
  | SEQ_CLEAR_DACS
  | SEQ_WAIT_CLEAR_DACS

datatype aux_state =
    AUX_NONE
  | AUX_DISABLED
  | AUX_LOCK_PLL
  | AUX_ALIGN_PHASE
  | AUX_READY

abbreviation (input) SPLL_MODE_GRAND_MASTER :: int where "SPLL_MODE_GRAND_MASTER \<equiv> 1"
abbreviation (input) SPLL_MODE_FREE_RUNNING_MASTER :: int where "SPLL_MODE_FREE_RUNNING_MASTER \<equiv> 2"
abbreviation (input) SPLL_MODE_SLAVE :: int where "SPLL_MODE_SLAVE \<equiv> 3"
abbreviation (input) SPLL_MODE_DISABLED :: int where "SPLL_MODE_DISABLED \<equiv> 4"
abbreviation (input) SPLL_ALL_CHANNELS :: int where "SPLL_ALL_CHANNELS \<equiv> - 1"

record spll_aux_state =
  au_seq_state :: aux_state
  au_phase_target :: int
  au_dmtd :: spll_main_state

text \<open>
  \<open>struct softpll_state\<close> with the file's statics \<open>ptracker_mask\<close> and \<open>irq_count\<close> and the
  static \<open>tag_ref\<close> of \<open>spll_ptracker.c\<close>.
\<close>

record softpll_state =
  sp_mode :: int
  sp_seq_state :: seq_state
  sp_dac_timeout :: u32
  sp_default_dac_main :: int
  sp_delock_count :: int
  sp_mpll_shift_ps :: int
  sp_helper :: spll_helper_state
  sp_ext :: spll_external_state
  sp_mpll :: spll_main_state
  sp_aux :: "spll_aux_state list"
  sp_ptrackers :: "spll_ptracker_state list"
  sp_ptracker_mask :: u32
  sp_tag_ref :: int
  sp_irq_count :: int

definition set_aux_dmtd :: "int \<Rightarrow> spll_main_state \<Rightarrow> softpll_state \<Rightarrow> softpll_state option" where
  "set_aux_dmtd i p s = do {
     a \<leftarrow> aget (sp_aux s) i;
     aux \<leftarrow> aset (sp_aux s) i (a\<lparr>au_dmtd := p\<rparr>);
     Some (s\<lparr>sp_aux := aux\<rparr>)
   }"

definition set_aux_seq :: "int \<Rightarrow> aux_state \<Rightarrow> softpll_state \<Rightarrow> softpll_state option" where
  "set_aux_seq i q s = do {
     a \<leftarrow> aget (sp_aux s) i;
     aux \<leftarrow> aset (sp_aux s) i (a\<lparr>au_seq_state := q\<rparr>);
     Some (s\<lparr>sp_aux := aux\<rparr>)
   }"

section \<open>The interrupt bits of the CPU (arch/lm32/irq.c)\<close>

definition disable_irq :: "spll_hw \<Rightarrow> spll_hw" where
  "disable_irq h = h\<lparr>cpu_IE := cpu_IE h AND NOT 1, cpu_IM := cpu_IM h AND NOT 1\<rparr>"

definition enable_irq :: "spll_hw \<Rightarrow> spll_hw" where
  "enable_irq h =
    (let ie = cpu_IE h AND NOT 1;
         h = h\<lparr>cpu_IE := ie\<rparr>;
         h = h\<lparr>cpu_IM := cpu_IM h OR 1\<rparr>
     in h\<lparr>cpu_IE := ie OR 1\<rparr>)"

section \<open>The sequencer\<close>

definition start_ptrackers :: "softpll_state \<Rightarrow> spll_hw \<Rightarrow> (softpll_state \<times> spll_hw) option" where
  "start_ptrackers s h =
    for_loop 0 (spll_n_chan_ref h) (\<lambda>i (s, h).
      if sp_ptracker_mask s AND bit32 i \<noteq> 0 then do {
        p \<leftarrow> aget (sp_ptrackers s) i;
        let (p, h) = ptracker_start p h;
        ps \<leftarrow> aset (sp_ptrackers s) i p;
        Some (s\<lparr>sp_ptrackers := ps\<rparr>, h)
      } else Some (s, h)) (s, h)"

definition update_ptrackers ::
  "softpll_state \<Rightarrow> int \<Rightarrow> int \<Rightarrow> spll_hw \<Rightarrow> softpll_state option" where
  "update_ptrackers s tag_value tag_source h =
    (if spll_n_chan_ref h < tag_source then Some s
     else do {
       (t, ps) \<leftarrow> ptrackers_update (sp_tag_ref s, sp_ptrackers s) tag_value tag_source h;
       Some (s\<lparr>sp_tag_ref := t, sp_ptrackers := ps\<rparr>)
     })"

definition sequencing_fsm ::
  "board_cfg \<Rightarrow> softpll_state \<Rightarrow> spll_hw \<Rightarrow> (softpll_state \<times> spll_hw) option" where
  "sequencing_fsm b s h =
    (case sp_seq_state s of
       SEQ_CLEAR_DACS \<Rightarrow>
         let h = h\<lparr>r_DAC_HPLL := to_u32 (pi_y_max (hl_pi (sp_helper s)))\<rparr>;
             h = h\<lparr>r_DAC_MAIN := to_u32 (add32 (pi_y_max (mp_pi (sp_mpll s)))
                     (pi_y_min (mp_pi (sp_mpll s))) sdiv 2)\<rparr>;
             h = spll_enable_tagger (spll_n_chan_ref h) 1 h
         in Some (s\<lparr>sp_dac_timeout := h_tics h + word_of_int (b_tics_per_second b sdiv 20),
                    sp_seq_state := SEQ_WAIT_CLEAR_DACS\<rparr>, h)
     | SEQ_WAIT_CLEAR_DACS \<Rightarrow>
         if time_after (h_tics h) (sp_dac_timeout s)
         then Some (s\<lparr>sp_seq_state := (if sp_mode s = SPLL_MODE_GRAND_MASTER then SEQ_START_EXT
                                       else SEQ_START_HELPER)\<rparr>, h)
         else Some (s, h)
     | SEQ_DISABLED \<Rightarrow> Some (s, h)
     | SEQ_START_EXT \<Rightarrow>
         let h = spll_enable_tagger (spll_n_chan_ref h) 0 h;
             (e, h) = external_start (sp_ext s) h
         in Some (s\<lparr>sp_ext := e, sp_seq_state := SEQ_WAIT_EXT\<rparr>, h)
     | SEQ_WAIT_EXT \<Rightarrow>
         Some (if external_locked (sp_ext s) then s\<lparr>sp_seq_state := SEQ_START_HELPER\<rparr> else s, h)
     | SEQ_START_HELPER \<Rightarrow>
         let (p, h) = helper_start (sp_helper s) h
         in Some (s\<lparr>sp_helper := p, sp_seq_state := SEQ_WAIT_HELPER\<rparr>, h)
     | SEQ_WAIT_HELPER \<Rightarrow>
         if ld_locked (hl_ld (sp_helper s)) \<noteq> 0 \<and> ld_lock_changed (hl_ld (sp_helper s)) \<noteq> 0 then
           if sp_mode s = SPLL_MODE_SLAVE then Some (s\<lparr>sp_seq_state := SEQ_START_MAIN\<rparr>, h)
           else do {
             (s, h) \<leftarrow> start_ptrackers s h;
             Some (s\<lparr>sp_seq_state := SEQ_READY\<rparr>, h)
           }
         else Some (s, h)
     | SEQ_START_MAIN \<Rightarrow>
         let (p, h) = mpll_start (sp_mpll s) h
         in Some (s\<lparr>sp_mpll := p, sp_seq_state := SEQ_WAIT_MAIN\<rparr>, h)
     | SEQ_WAIT_MAIN \<Rightarrow>
         if ld_locked (mp_ld (sp_mpll s)) \<noteq> 0 then do {
           (s, h) \<leftarrow> start_ptrackers s h;
           Some (s\<lparr>sp_seq_state := SEQ_READY\<rparr>, h)
         } else Some (s, h)
     | SEQ_READY \<Rightarrow>
         Some (if ld_locked (hl_ld (sp_helper s)) = 0
               then s\<lparr>sp_delock_count := add32 (sp_delock_count s) 1, sp_seq_state := SEQ_CLEAR_DACS\<rparr>
               else if sp_mode s = SPLL_MODE_GRAND_MASTER \<and> \<not> external_locked (sp_ext s)
               then s\<lparr>sp_delock_count := add32 (sp_delock_count s) 1, sp_seq_state := SEQ_START_EXT\<rparr>
               else if sp_mode s = SPLL_MODE_SLAVE \<and> ld_locked (mp_ld (sp_mpll s)) = 0
               then s\<lparr>sp_delock_count := add32 (sp_delock_count s) 1, sp_seq_state := SEQ_CLEAR_DACS\<rparr>
               else s, h)
     | SEQ_NONE \<Rightarrow> Some (s, h))"

text \<open>
  \<open>update_loops\<close>, one block after the other: the external PLL (\<open>loops_ext\<close>), the helper
  (\<open>loops_helper\<close>), the main PLL while it is locking (\<open>loops_main\<close>), and what runs once
  everything is ready (\<open>loops_ready\<close>).
\<close>

definition loops_ext ::
  "board_cfg \<Rightarrow> int \<Rightarrow> int \<Rightarrow> softpll_state \<times> spll_hw \<Rightarrow> softpll_state \<times> spll_hw" where
  "loops_ext b tag_value tag_source = (\<lambda>(s, h).
     if sp_mode s = SPLL_MODE_GRAND_MASTER \<and>
        sp_seq_state s \<in> {SEQ_WAIT_EXT, SEQ_START_HELPER, SEQ_WAIT_HELPER, SEQ_START_MAIN,
          SEQ_WAIT_MAIN, SEQ_READY}
     then let (l, e, h) = external_update b (sp_ext s) tag_value tag_source h in (s\<lparr>sp_ext := e\<rparr>, h)
     else (s, h))"

definition loops_helper :: "int \<Rightarrow> int \<Rightarrow> softpll_state \<times> spll_hw \<Rightarrow> softpll_state \<times> spll_hw" where
  "loops_helper tag_value tag_source = (\<lambda>(s, h).
     if sp_seq_state s \<in> {SEQ_WAIT_HELPER, SEQ_START_MAIN, SEQ_WAIT_MAIN, SEQ_READY}
     then let (l, p, h) = helper_update (sp_helper s) tag_value tag_source h in (s\<lparr>sp_helper := p\<rparr>, h)
     else (s, h))"

definition loops_main :: "int \<Rightarrow> int \<Rightarrow> softpll_state \<times> spll_hw \<Rightarrow> softpll_state \<times> spll_hw" where
  "loops_main tag_value tag_source = (\<lambda>(s, h).
     if sp_seq_state s = SEQ_WAIT_MAIN
     then let (l, p, h) = mpll_update (sp_mpll s) tag_value tag_source h in (s\<lparr>sp_mpll := p\<rparr>, h)
     else (s, h))"

definition loop_aux ::
  "int \<Rightarrow> int \<Rightarrow> int \<Rightarrow> softpll_state \<times> spll_hw \<Rightarrow> (softpll_state \<times> spll_hw) option" where
  "loop_aux tag_value tag_source i = (\<lambda>(s, h). do {
     a \<leftarrow> aget (sp_aux s) i;
     let (l, p, h) = mpll_update (au_dmtd a) tag_value tag_source h;
     s \<leftarrow> set_aux_dmtd i p s;
     Some (s, h)
   })"

definition loops_ready ::
  "int \<Rightarrow> int \<Rightarrow> softpll_state \<times> spll_hw \<Rightarrow> (softpll_state \<times> spll_hw) option" where
  "loops_ready tag_value tag_source = (\<lambda>(s, h). do {
     (s, h) \<leftarrow>
       (if sp_mode s = SPLL_MODE_SLAVE
        then let (l, p, h) = mpll_update (sp_mpll s) tag_value tag_source h
             in for_loop 0 (spll_n_chan_out h - 1) (loop_aux tag_value tag_source) (s\<lparr>sp_mpll := p\<rparr>, h)
        else Some (s, h));
     s \<leftarrow> update_ptrackers s tag_value tag_source h;
     Some (s, h)
   })"

definition update_loops ::
  "board_cfg \<Rightarrow> softpll_state \<Rightarrow> int \<Rightarrow> int \<Rightarrow> spll_hw \<Rightarrow> (softpll_state \<times> spll_hw) option" where
  "update_loops b s tag_value tag_source h =
    (let sh = loops_ext b tag_value tag_source (s, h);
         sh = loops_helper tag_value tag_source sh;
         sh = loops_main tag_value tag_source sh
     in if sp_seq_state (fst sh) = SEQ_READY then loops_ready tag_value tag_source sh else Some sh)"

text \<open>
  \<open>_irq_entry\<close>: one tag of the FIFO is one step; the hardware inputs are those shown when the
  tag is read.
\<close>

definition trr_inputs :: "trr_entry \<Rightarrow> spll_hw \<Rightarrow> spll_hw" where
  "trr_inputs t h = h\<lparr>h_tics := te_tics t, h_ECCR := te_ECCR t, h_ESCR := te_ESCR t\<rparr>"

definition irq_tag ::
  "board_cfg \<Rightarrow> trr_entry \<Rightarrow> softpll_state \<times> spll_hw \<Rightarrow> (softpll_state \<times> spll_hw) option" where
  "irq_tag b t sh =
    (let (s, h) = sh;
         h = trr_inputs t h;
         tag_source = uint (gen_read (te_word t) 24 7);
         tag_value = uint (gen_read (te_word t) 0 24)
     in do {
       (s, h) \<leftarrow> sequencing_fsm b s h;
       update_loops b s tag_value tag_source h
     })"

fun irq_tags ::
  "board_cfg \<Rightarrow> trr_entry list \<Rightarrow> softpll_state \<times> spll_hw \<Rightarrow> (softpll_state \<times> spll_hw) option" where
  "irq_tags b [] sh = Some sh"
| "irq_tags b (t # ts) sh = do { sh \<leftarrow> irq_tag b t sh; irq_tags b ts sh }"

definition irq_entry :: "board_cfg \<Rightarrow> softpll_state \<Rightarrow> spll_hw \<Rightarrow> (softpll_state \<times> spll_hw) option" where
  "irq_entry b s h = do {
     (s, h) \<leftarrow> irq_tags b (r_TRR h) (s, h\<lparr>r_TRR := []\<rparr>);
     Some (s\<lparr>sp_irq_count := add32 (sp_irq_count s) 1\<rparr>, h)
   }"

section \<open>Start and stop\<close>

definition spll_modes :: "string list" where
  "spll_modes = [[], ''grandmaster'', ''freemaster'', ''slave'', ''disabled'']"

abbreviation PPS_WIDTH :: "board_cfg \<Rightarrow> int" where
  "PPS_WIDTH b \<equiv> (10 * 1000 * 1000) sdiv b_ns_per_clock b"

text \<open>
  \<open>spll_init\<close>. The registers that identify the channels are read first; \<open>modes[mode]\<close> of the
  trace message is an access out of range for a mode outside \<open>0..4\<close>. Grandmaster mode on a
  hardware without external reference returns early, with the interrupts off.
\<close>

text \<open>The channel counts in \<open>CSR\<close>, \<open>N_REF\<close> and \<open>N_OUT\<close>, and \<open>DBG_SUPPORTED\<close> are read-only: a write of zero leaves them.\<close>

abbreviation (input) CSR_N_FIELDS :: u32 where "CSR_N_FIELDS \<equiv> 0xF3F00"

definition init_regs :: "board_cfg \<Rightarrow> spll_hw \<Rightarrow> spll_hw" where
  "init_regs b h = h\<lparr>r_DAC_HPLL := 0, r_DAC_MAIN := 0, r_CSR := r_CSR h AND CSR_N_FIELDS, r_OCER := 0, r_RCER := 0,
     r_ECCR := 0, r_OCCR := 0, r_DEGLITCH_THR := 1000, p_ESCR := 0,
     p_CR := PPSG_CR_CNT_EN OR PPSG_CR_CNT_RST OR gen_write (to_u32 (PPS_WIDTH b)) 4 28\<rparr>"

definition init_plls ::
  "board_cfg \<Rightarrow> int \<Rightarrow> int \<Rightarrow> int \<Rightarrow> softpll_state \<Rightarrow> spll_hw \<Rightarrow> softpll_state" where
  "init_plls b mode slave_ref_channel align_pps s h =
    (let s = (if mode = SPLL_MODE_GRAND_MASTER
              then s\<lparr>sp_ext := external_init (sp_ext s) (spll_n_chan_ref h + spll_n_chan_out h) align_pps\<rparr>
              else s);
         s = s\<lparr>sp_seq_state := (if mode = SPLL_MODE_DISABLED then SEQ_DISABLED else SEQ_CLEAR_DACS)\<rparr>;
         helper_ref = (if mode = SPLL_MODE_SLAVE then slave_ref_channel else spll_n_chan_ref h)
     in s\<lparr>sp_helper := helper_init (sp_helper s) helper_ref,
          sp_mpll := mpll_init b (sp_mpll s) slave_ref_channel (spll_n_chan_ref h) h\<rparr>)"

definition init_aux ::
  "board_cfg \<Rightarrow> int \<Rightarrow> spll_hw \<Rightarrow> int \<Rightarrow> softpll_state \<Rightarrow> softpll_state option" where
  "init_aux b slave_ref_channel h i s = do {
     a \<leftarrow> aget (sp_aux s) i;
     s \<leftarrow> set_aux_dmtd i (mpll_init b (au_dmtd a) slave_ref_channel (spll_n_chan_ref h + i + 1) h) s;
     set_aux_seq i AUX_DISABLED s
   }"

definition init_tracker :: "int \<Rightarrow> softpll_state \<Rightarrow> softpll_state option" where
  "init_tracker i s = do {
     p \<leftarrow> aget (sp_ptrackers s) i;
     ps \<leftarrow> aset (sp_ptrackers s) i (ptracker_init p i PTRACKER_AVERAGE_SAMPLES);
     Some (s\<lparr>sp_ptrackers := ps\<rparr>)
   }"

definition spll_init ::
  "board_cfg \<Rightarrow> int \<Rightarrow> int \<Rightarrow> int \<Rightarrow> softpll_state \<Rightarrow> spll_hw \<Rightarrow> (softpll_state \<times> spll_hw) option" where
  "spll_init b mode slave_ref_channel align_pps s h =
    (let h = disable_irq h;
         csr = r_CSR h;
         h = h\<lparr>spll_n_chan_ref := uint (gen_read csr 8 6), spll_n_chan_out := uint (gen_read csr 16 3)\<rparr>;
         s = s\<lparr>sp_mode := mode, sp_delock_count := 0\<rparr>;
         h = init_regs b h
     in if mode = SPLL_MODE_GRAND_MASTER \<and> rd_ECCR h AND SPLL_ECCR_EXT_SUPPORTED = 0 then Some (s, h)
        else do {
          let s = init_plls b mode slave_ref_channel align_pps s h;
          s \<leftarrow> for_loop 0 (spll_n_chan_out h - 1) (init_aux b slave_ref_channel h) s;
          let h = (if mode = SPLL_MODE_FREE_RUNNING_MASTER
                   then h\<lparr>p_ESCR := PPSG_ESCR_PPS_VALID OR PPSG_ESCR_TM_VALID\<rparr> else h);
          s \<leftarrow> for_loop 0 (spll_n_chan_ref h) init_tracker s;
          _ \<leftarrow> aget spll_modes mode;
          let h = h\<lparr>r_TRR := [], r_EIC_IER := 1, r_OCER := r_OCER h OR 1\<rparr>;
          Some (s, enable_irq h)
        })"

definition spll_shutdown :: "spll_hw \<Rightarrow> spll_hw" where
  "spll_shutdown h =
    (let h = disable_irq h
     in h\<lparr>r_OCER := 0, r_RCER := 0, r_ECCR := 0, r_EIC_IDR := 1\<rparr>)"

definition spll_start_channel ::
  "int \<Rightarrow> softpll_state \<Rightarrow> spll_hw \<Rightarrow> (softpll_state \<times> spll_hw) option" where
  "spll_start_channel channel s h =
    (if sp_seq_state s \<noteq> SEQ_READY \<or> channel = 0 then Some (s, h)
     else do {
       a \<leftarrow> aget (sp_aux s) (channel - 1);
       let (p, h) = mpll_start (au_dmtd a) h;
       s \<leftarrow> set_aux_dmtd (channel - 1) p s;
       Some (s, h)
     })"

definition spll_stop_channel :: "int \<Rightarrow> softpll_state \<Rightarrow> spll_hw \<Rightarrow> spll_hw option" where
  "spll_stop_channel channel s h =
    (if channel = 0 then Some h
     else do {
       a \<leftarrow> aget (sp_aux s) (channel - 1);
       Some (mpll_stop (au_dmtd a) h)
     })"

definition spll_check_lock :: "int \<Rightarrow> softpll_state \<Rightarrow> bool option" where
  "spll_check_lock channel s =
    (if channel = 0 \<or> sp_seq_state s \<noteq> SEQ_READY then Some (sp_seq_state s = SEQ_READY)
     else do {
       a \<leftarrow> aget (sp_aux s) (channel - 1);
       Some (ld_locked (mp_ld (au_dmtd a)) \<noteq> 0)
     })"

section \<open>Phase shifts\<close>

text \<open>
  The two implementations of \<open>from_picos\<close>. The PPSI build uses \<open>__div64_32\<close> of the ppsi
  submodule, which replaces the 64-bit number by its quotient and returns the remainder: it is
  the parameter \<open>div64\<close>.
\<close>

definition from_picos_ppsi :: "(u64 \<Rightarrow> u32 \<Rightarrow> u64 \<times> u32) \<Rightarrow> board_cfg \<Rightarrow> int \<Rightarrow> int" where
  "from_picos_ppsi div64 b ps =
    (let base = word_of_int (b_ref_clock_period_ps b)
     in if 0 \<le> ps then
          let ups = (word_of_int ps :: u64) * word_of_int (shl32 1 HPLL_N);
              (ups, r) = div64 ups base
          in s32 (uint ups)
        else
          let ups = (word_of_int (mul32 (neg32 ps) (shl32 1 HPLL_N)) :: u64);
              (ups, r) = div64 ups base
          in s32 (uint (- ups)))"

definition from_picos :: "board_cfg \<Rightarrow> int \<Rightarrow> int" where
  "from_picos b ps = s32 ((ps * shl32 1 HPLL_N) sdiv b_ref_clock_period_ps b)"

definition to_picos :: "board_cfg \<Rightarrow> int \<Rightarrow> int" where
  "to_picos b units = s32 (drop_bit HPLL_N (units * b_ref_clock_period_ps b))"

abbreviation dmtd_div :: "board_cfg \<Rightarrow> int" where
  "dmtd_div b \<equiv> (if b_divide_dmtd_clocks b then 2 else 1)"

text \<open>\<open>fp\<close> is the \<open>from_picos\<close> of the build.\<close>

definition set_phase_shift :: "board_cfg \<Rightarrow> (int \<Rightarrow> int) \<Rightarrow> int \<Rightarrow> int \<Rightarrow> softpll_state \<Rightarrow> softpll_state option" where
  "set_phase_shift b fp channel value_picoseconds s = do {
     let shift = fp value_picoseconds sdiv dmtd_div b;
     s \<leftarrow> (if channel = 0 then Some (s\<lparr>sp_mpll := mpll_set_phase_shift (sp_mpll s) shift\<rparr>)
          else do {
            a \<leftarrow> aget (sp_aux s) (channel - 1);
            set_aux_dmtd (channel - 1) (mpll_set_phase_shift (au_dmtd a) shift) s
          });
     Some (s\<lparr>sp_mpll_shift_ps := value_picoseconds\<rparr>)
   }"

definition spll_set_phase_shift ::
  "board_cfg \<Rightarrow> (int \<Rightarrow> int) \<Rightarrow> int \<Rightarrow> int \<Rightarrow> softpll_state \<Rightarrow> spll_hw \<Rightarrow> softpll_state option" where
  "spll_set_phase_shift b fp channel v s h =
    (if channel = SPLL_ALL_CHANNELS then do {
       s \<leftarrow> set_phase_shift b fp 0 v s;
       for_loop 0 (spll_n_chan_out h - 1) (\<lambda>i s. do {
         a \<leftarrow> aget (sp_aux s) i;
         if au_seq_state a = AUX_READY then set_phase_shift b fp (i + 1) v s else Some s
       }) s
     } else set_phase_shift b fp channel v s)"

definition channel_pll :: "int \<Rightarrow> softpll_state \<Rightarrow> spll_main_state option" where
  "channel_pll channel s =
    (if channel = 0 then Some (sp_mpll s)
     else do { a \<leftarrow> aget (sp_aux s) (channel - 1); Some (au_dmtd a) })"

definition spll_get_phase_shift :: "board_cfg \<Rightarrow> int \<Rightarrow> softpll_state \<Rightarrow> (int \<times> int) option" where
  "spll_get_phase_shift b channel s = do {
     st \<leftarrow> channel_pll channel s;
     Some (to_picos b (mul32 (mp_phase_shift_current st) (dmtd_div b)),
           to_picos b (mul32 (mp_phase_shift_target st) (dmtd_div b)))
   }"

definition spll_shifter_busy :: "int \<Rightarrow> softpll_state \<Rightarrow> bool option" where
  "spll_shifter_busy channel s = do { st \<leftarrow> channel_pll channel s; Some (mpll_shifter_busy st) }"

section \<open>Phase trackers\<close>

definition spll_read_ptracker :: "board_cfg \<Rightarrow> int \<Rightarrow> softpll_state \<Rightarrow> (int \<times> int \<times> int) option" where
  "spll_read_ptracker b channel s = do {
     st \<leftarrow> aget (sp_ptrackers s) channel;
     let phase = pt_phase_val st;
     let phase = (if phase < 0 then add32 phase (shl32 1 HPLL_N)
                  else if shl32 1 HPLL_N \<le> phase then sub32 phase (shl32 1 HPLL_N) else phase);
     let phase = (if b_divide_dmtd_clocks b then shl32 phase 1 AND (shl32 1 HPLL_N - 1) else phase);
     Some (to_picos b phase, c_bool (sp_ptracker_mask s AND bit32 (pt_id st) \<noteq> 0), pt_ready st)
   }"

definition spll_enable_ptracker ::
  "int \<Rightarrow> int \<Rightarrow> softpll_state \<Rightarrow> spll_hw \<Rightarrow> (softpll_state \<times> spll_hw) option" where
  "spll_enable_ptracker ref_channel enable s h =
    (if enable \<noteq> 0 then do {
       let h = spll_enable_tagger ref_channel 1 h;
       p \<leftarrow> aget (sp_ptrackers s) ref_channel;
       let (p, h) = ptracker_start p h;
       ps \<leftarrow> aset (sp_ptrackers s) ref_channel p;
       Some (s\<lparr>sp_ptrackers := ps, sp_ptracker_mask := sp_ptracker_mask s OR bit32 ref_channel\<rparr>, h)
     } else
       let s = s\<lparr>sp_ptracker_mask := sp_ptracker_mask s AND NOT (bit32 ref_channel)\<rparr>
       in Some (s, if ref_channel \<noteq> mp_id_ref (sp_mpll s)
                   then spll_enable_tagger ref_channel 0 h else h))"

section \<open>Auxiliary clocks\<close>

definition aux_locking_enabled :: "int \<Rightarrow> spll_hw \<Rightarrow> bool" where
  "aux_locking_enabled channel h \<longleftrightarrow> gen_read (rd_OCCR h) 0 8 AND bit32 channel \<noteq> 0"

definition aux_set_channel_status :: "int \<Rightarrow> int \<Rightarrow> spll_hw \<Rightarrow> spll_hw" where
  "aux_set_channel_status channel locked h =
    (if locked = 0 then h\<lparr>r_OCCR := rd_OCCR h AND NOT (gen_write (bit32 channel) 8 8)\<rparr>
     else h\<lparr>r_OCCR := rd_OCCR h OR gen_write (bit32 channel) 8 8\<rparr>)"

text \<open>
  The body of the loop of \<open>spll_update_aux_clocks\<close>: first a channel whose enable bit went away
  is stopped (\<open>aux_check_enable\<close>), then its state machine makes a step (\<open>aux_fsm\<close>).
\<close>

definition aux_check_enable ::
  "int \<Rightarrow> softpll_state \<times> spll_hw \<Rightarrow> (softpll_state \<times> spll_hw) option" where
  "aux_check_enable ch = (\<lambda>(s, h). do {
     a \<leftarrow> aget (sp_aux s) (ch - 1);
     if au_seq_state a \<noteq> AUX_DISABLED \<and> \<not> aux_locking_enabled ch h then do {
       h \<leftarrow> spll_stop_channel ch s h;
       let h = aux_set_channel_status ch 0 h;
       s \<leftarrow> set_aux_seq (ch - 1) AUX_DISABLED s;
       Some (s, h)
     } else Some (s, h)
   })"

definition aux_fsm ::
  "board_cfg \<Rightarrow> (int \<Rightarrow> int) \<Rightarrow> int \<Rightarrow> softpll_state \<times> spll_hw \<Rightarrow> (softpll_state \<times> spll_hw) option" where
  "aux_fsm b fp ch = (\<lambda>(s, h). do {
     a \<leftarrow> aget (sp_aux s) (ch - 1);
     case au_seq_state a of
        AUX_DISABLED \<Rightarrow>
          if ld_locked (mp_ld (sp_mpll s)) \<noteq> 0 \<and> aux_locking_enabled ch h then do {
            (s, h) \<leftarrow> spll_start_channel ch s h;
            s \<leftarrow> set_aux_seq (ch - 1) AUX_LOCK_PLL s;
            Some (s, h)
          } else Some (s, h)
      | AUX_LOCK_PLL \<Rightarrow>
          if ld_locked (mp_ld (au_dmtd a)) \<noteq> 0 then do {
            s \<leftarrow> set_phase_shift b fp ch (sp_mpll_shift_ps s) s;
            s \<leftarrow> set_aux_seq (ch - 1) AUX_ALIGN_PHASE s;
            Some (s, h)
          } else Some (s, h)
      | AUX_ALIGN_PHASE \<Rightarrow>
          if \<not> mpll_shifter_busy (au_dmtd a) then do {
            let h = aux_set_channel_status ch 1 h;
            s \<leftarrow> set_aux_seq (ch - 1) AUX_READY s;
            Some (s, h)
          } else Some (s, h)
      | AUX_READY \<Rightarrow>
          if ld_locked (mp_ld (sp_mpll s)) = 0 \<or> ld_locked (mp_ld (au_dmtd a)) = 0 then do {
            let h = aux_set_channel_status ch 0 h;
            s \<leftarrow> set_aux_seq (ch - 1) AUX_DISABLED s;
            Some (s, h)
          } else Some (s, h)
      | AUX_NONE \<Rightarrow> Some (s, h)
   })"

definition aux_step ::
  "board_cfg \<Rightarrow> (int \<Rightarrow> int) \<Rightarrow> int \<Rightarrow> softpll_state \<times> spll_hw \<Rightarrow> (softpll_state \<times> spll_hw) option" where
  "aux_step b fp ch sh = do { sh \<leftarrow> aux_check_enable ch sh; aux_fsm b fp ch sh }"

definition spll_update_aux_clocks ::
  "board_cfg \<Rightarrow> (int \<Rightarrow> int) \<Rightarrow> softpll_state \<Rightarrow> spll_hw \<Rightarrow> (softpll_state \<times> spll_hw) option" where
  "spll_update_aux_clocks b fp s h =
    for_loop 1 (spll_n_chan_out h) (aux_step b fp) (s, h)"

definition spll_get_aux_status :: "int \<Rightarrow> softpll_state \<Rightarrow> int option" where
  "spll_get_aux_status channel s = do {
     a \<leftarrow> aget (sp_aux s) channel;
     Some ((if au_seq_state a \<noteq> AUX_DISABLED then 1 else 0) OR
           (if au_seq_state a = AUX_READY then 2 else 0))
   }"

definition spll_get_aux_status_string :: "int \<Rightarrow> softpll_state \<Rightarrow> string option" where
  "spll_get_aux_status_string channel s = do {
     a \<leftarrow> aget (sp_aux s) channel;
     Some (case au_seq_state a of
        AUX_DISABLED \<Rightarrow> ''disabled'' | AUX_LOCK_PLL \<Rightarrow> ''locking''
      | AUX_ALIGN_PHASE \<Rightarrow> ''aligning'' | AUX_READY \<Rightarrow> ''locked'' | AUX_NONE \<Rightarrow> [])
   }"

section \<open>DACs\<close>

definition spll_get_dac :: "int \<Rightarrow> softpll_state \<Rightarrow> int option" where
  "spll_get_dac index s =
    (if index < 0 then Some (pi_y (hl_pi (sp_helper s)))
     else do { st \<leftarrow> channel_pll index s; Some (pi_y (mp_pi st)) })"

definition spll_set_dac ::
  "int \<Rightarrow> int \<Rightarrow> softpll_state \<Rightarrow> spll_hw \<Rightarrow> (softpll_state \<times> spll_hw) option" where
  "spll_set_dac index v s h =
    (if index < 0 then
       Some (s\<lparr>sp_helper := (sp_helper s)\<lparr>hl_pi := (hl_pi (sp_helper s))\<lparr>pi_y := v\<rparr>\<rparr>\<rparr>,
             h\<lparr>r_DAC_HPLL := to_u32 v\<rparr>)
     else do {
       let h = h\<lparr>r_DAC_MAIN := gen_write (to_u32 index) 16 4 OR to_u32 (v AND 0xffff)\<rparr>;
       if index = 0
       then Some (s\<lparr>sp_mpll := (sp_mpll s)\<lparr>mp_pi := (mp_pi (sp_mpll s))\<lparr>pi_y := v\<rparr>\<rparr>\<rparr>, h)
       else do {
         a \<leftarrow> aget (sp_aux s) (index - 1);
         s \<leftarrow> set_aux_dmtd (index - 1) ((au_dmtd a)\<lparr>mp_pi := (mp_pi (au_dmtd a))\<lparr>pi_y := v\<rparr>\<rparr>) s;
         Some (s, h)
       }
     })"

section \<open>The conversions of phase shifts\<close>

text \<open>
  \<open>__div64_32\<close> of ppsi, as documented: the quotient replaces the number, the remainder is
  returned.
\<close>

definition div64_ok :: "(u64 \<Rightarrow> u32 \<Rightarrow> u64 \<times> u32) \<Rightarrow> bool" where
  "div64_ok div64 \<longleftrightarrow> (\<forall>n base. base \<noteq> 0 \<longrightarrow> fst (div64 n base) = n div ucast base)"

definition period_ok :: "board_cfg \<Rightarrow> bool" where
  "period_ok b \<longleftrightarrow> b_ref_clock_period_ps b = 8000 \<or> b_ref_clock_period_ps b = 16000"

lemma period_boards [simp]: "period_ok board_wrc" "period_ok board_wrs"
  by (simp_all add: period_ok_def board_wrc_def board_wrs_def)

lemma u64_div:
  assumes "div64_ok div64" "0 \<le> n" "n < 2 ^ 64" "0 < p" "p < 2 ^ 32"
  shows "uint (fst (div64 (word_of_int n) (word_of_int p))) = n div p"
proof -
  have p: "uint (word_of_int p :: u32) = p"
    using assms(4,5) by (simp add: uint_word_of_int)
  then have p64: "uint (ucast (word_of_int p :: u32) :: u64) = p"
    using assms(4,5) by (simp add: unsigned_ucast_eq take_bit_eq_mod)
  have "(word_of_int p :: u32) \<noteq> 0" using p assms(4) by auto
  then have "fst (div64 (word_of_int n) (word_of_int p)) = word_of_int n div ucast (word_of_int p :: u32)"
    using assms(1) by (simp add: div64_ok_def)
  moreover have "uint (word_of_int n :: u64) = n" using assms(2,3) by (simp add: uint_word_of_int)
  ultimately show ?thesis using p64 by (simp add: uint_div_distrib)
qed

lemma s32_uint_neg: "s32 (uint (- (word_of_int q :: u64))) = s32 (- q)"
proof -
  have "uint (word_of_int (- q) :: u64) = (- q) mod 2 ^ 64"
    unfolding uint_word_of_int by (simp add: take_bit_eq_mod)
  then have "uint (- (word_of_int q :: u64)) = (- q) mod 2 ^ 64" by simp
  then show ?thesis by (simp add: s32_eq_iff_mod mod_mod_cancel)
qed

text \<open>
  Both builds convert phase shifts alike: with the documented \<open>__div64_32\<close>, the PPSI
  implementation of \<open>from_picos\<close> and the plain one agree, truncating towards zero, for every
  \<open>int32_t\<close> number of picoseconds from \<open>-131071\<close> up.
\<close>

theorem from_picos_builds_agree:
  assumes "div64_ok div64" "b = board_wrc \<or> b = board_wrs" "- 131071 \<le> ps" "ps < 2 ^ 31"
  shows "from_picos_ppsi div64 b ps = from_picos b ps"
proof -
  define p where "p = b_ref_clock_period_ps b"
  have p: "0 < p" "p < 2 ^ 32"
    using assms(2) by (auto simp: p_def board_wrc_def board_wrs_def)
  show ?thesis
  proof (cases "0 \<le> ps")
    case True
    have "(word_of_int ps :: u64) * word_of_int (shl32 1 HPLL_N) = word_of_int (ps * 16384)"
      by (simp add: c_arith)
    moreover have "uint (fst (div64 (word_of_int (ps * 16384)) (word_of_int p))) = ps * 16384 div p"
      using True assms(4) by (intro u64_div [OF assms(1) _ _ p]) auto
    ultimately show ?thesis using True p
      by (simp add: from_picos_ppsi_def from_picos_def Let_def case_prod_beta p_def [symmetric]
          sdiv_pos c_arith del: wi_homs)
  next
    case False
    then have m: "mul32 (neg32 ps) (shl32 1 HPLL_N) = (- ps) * 16384"
      using assms(3) by (simp add: c_arith)
    have q: "uint (fst (div64 (word_of_int ((- ps) * 16384)) (word_of_int p))) = (- ps) * 16384 div p"
      using False assms(3) by (intro u64_div [OF assms(1) _ _ p]) auto
    define q where "q = (- ps) * 16384 div p"
    have "fst (div64 (word_of_int ((- ps) * 16384)) (word_of_int p)) = word_of_int q"
      using q unfolding q_def by (metis word_of_int_uint)
    then have "from_picos_ppsi div64 b ps = s32 (- q)"
      using False by (simp add: from_picos_ppsi_def Let_def case_prod_beta p_def [symmetric] m
          s32_uint_neg del: wi_homs)
    moreover have "(ps * 16384) sdiv p = - q"
      using sdiv_neg [of "(- ps) * 16384" p] False p by (simp add: q_def)
    ultimately show ?thesis by (simp add: from_picos_def p_def [symmetric] c_arith)
  qed
qed

lemma from_picos_builds_agree_witness:
  "from_picos_ppsi (\<lambda>n base. (n div ucast base, 0)) board_wrc (- 4001) = from_picos board_wrc (- 4001)"
  by (rule from_picos_builds_agree) (simp_all add: div64_ok_def)

text \<open>
  Below that the 32-bit product \<open>-ps * (1 << HPLL_N)\<close> overflows before it is widened, and the
  PPSI build returns an unrelated value.
\<close>

lemma from_picos_ppsi_overflow:
  "from_picos_ppsi (\<lambda>n base. (n div ucast base, 0)) board_wrc (- 200000) \<noteq> from_picos board_wrc (- 200000)"
proof -
  have m: "mul32 (neg32 (- 200000)) (shl32 1 HPLL_N) = - 1018167296"
    by (simp add: c_arith s32_eq)
  have l: "from_picos_ppsi (\<lambda>n base. (n div ucast base, 0)) board_wrc (- 200000) =
      s32 (uint (- ((word_of_int (- 1018167296) :: u64) div ucast (word_of_int 8000 :: u32))))"
    by (simp only: from_picos_ppsi_def Let_def m board_wrc_def) simp
  have "uint ((word_of_int (- 1018167296) :: u64) div ucast (word_of_int 8000 :: u32)) =
      (2 ^ 64 - 1018167296) div 8000"
    by (simp add: uint_div_distrib uint_word_of_int)
  then have "(word_of_int (- 1018167296) :: u64) div ucast (word_of_int 8000 :: u32) =
      word_of_int ((2 ^ 64 - 1018167296) div 8000)"
    by (metis word_of_int_uint)
  then have "from_picos_ppsi (\<lambda>n base. (n div ucast base, 0)) board_wrc (- 200000) =
      s32 (- ((2 ^ 64 - 1018167296) div 8000))"
    unfolding l by (simp only: s32_uint_neg)
  moreover have "from_picos board_wrc (- 200000) = - 409600"
    by (simp add: from_picos_def board_wrc_def c_arith)
  ultimately show ?thesis by (simp add: s32_eq)
qed

lemma phase_round_trip_arith:
  fixes ps p :: int
  assumes "p = 8000 \<and> d = 2 \<or> p = 16000 \<and> d = (1 :: int)" "\<bar>ps\<bar> \<le> 10 ^ 9"
  shows "\<bar>((ps * 16384) sdiv p) sdiv d * d * p div 16384 - ps\<bar> \<le> 2 \<and>
    \<bar>(ps * 16384) sdiv p\<bar> < 2 ^ 31 \<and> \<bar>((ps * 16384) sdiv p) sdiv d * d\<bar> < 2 ^ 31"
proof -
  have p: "0 < p" "0 < d" "d \<le> 2" "d * p = 16000" using assms(1) by auto
  have near: "\<bar>x div 16384 - n\<bar> \<le> 2 \<and> \<bar>- x div 16384 + n\<bar> \<le> 2"
    if "(n - 1) * 16384 \<le> x" "x \<le> n * 16384" for x n :: int
  proof -
    have "n - 1 \<le> x div 16384" "x div 16384 \<le> n" "- n \<le> - x div 16384"
      "- x div 16384 \<le> - n + 1"
      using that zdiv_mono1 [of "(n - 1) * 16384" x 16384] zdiv_mono1 [of x "n * 16384" 16384]
        zdiv_mono1 [of "- n * 16384" "- x" 16384] zdiv_mono1 [of "- x" "(- n + 1) * 16384" 16384]
      by (simp_all only: nonzero_mult_div_cancel_right) simp_all
    then show ?thesis by linarith
  qed
  have pos: "\<bar>n * 16384 div p div d * d * p div 16384 - n\<bar> \<le> 2 \<and>
      \<bar>- (n * 16384 div p div d * d * p) div 16384 + n\<bar> \<le> 2 \<and>
      n * 16384 div p < 2 ^ 31 \<and> 0 \<le> n * 16384 div p \<and>
      n * 16384 div p div d * d < 2 ^ 31 \<and> 0 \<le> n * 16384 div p div d * d"
    if "0 \<le> n" "n \<le> 10 ^ 9" for n
  proof -
    define t where "t = n * 16384 div p div d"
    have t: "t = n * 16384 div 16000"
      unfolding t_def using p(2) by (simp add: p(4) [symmetric] zdiv_zmult2_eq mult.commute [of d p])
    have t2: "t * 16000 \<le> n * 16384" "n * 16384 < t * 16000 + 16000" 
      using div_mult_mod_eq [of "n * 16384" 16000] pos_mod_bound [of 16000 "n * 16384"]
        pos_mod_sign [of 16000 "n * 16384"] unfolding t by linarith+
    have "t * d * p = t * 16000" using p(4) by (simp add: mult.assoc)
    moreover have "(n - 1) * 16384 \<le> t * 16000" using t2 by (simp add: left_diff_distrib)
    ultimately have "\<bar>t * d * p div 16384 - n\<bar> \<le> 2 \<and> \<bar>- (t * d * p) div 16384 + n\<bar> \<le> 2"
      using near [of n "t * d * p"] t2(1) by metis
    moreover have "t * d \<le> t * 2" using p(3) t2 that by (intro mult_left_mono) auto
    moreover have "n * 16384 div p \<le> n * 16384 div 8000"
      using assms(1) that by (auto intro: zdiv_mono2)
    moreover have "n * 16384 div 8000 < 2 ^ 31" "t * 2 < 2 ^ 31" using that t2 by simp_all
    moreover have "0 \<le> n * 16384 div p" "0 \<le> t" using that p(1) t2 by (simp_all add: pos_imp_zdiv_nonneg_iff)
    ultimately show ?thesis
      using p(2) unfolding t_def [symmetric] by auto
  qed
  show ?thesis
  proof (cases "0 \<le> ps")
    case True
    then show ?thesis using pos [of ps] assms(2) p by (simp add: sdiv_pos)
  next
    case False
    have "(ps * 16384) sdiv p = - (- ps * 16384 div p)"
      using sdiv_neg [of "- ps * 16384" p] False p by simp
    moreover have "(- (- ps * 16384 div p)) sdiv d = - (- ps * 16384 div p div d)"
      using sdiv_neg [of "- ps * 16384 div p" d] False p by (simp add: pos_imp_zdiv_nonneg_iff)
    ultimately show ?thesis using pos [of "- ps"] assms(2) False by simp
  qed
qed

text \<open>
  A phase shift set through the interface reads back: after \<open>spll_set_phase_shift\<close> on
  channel 0 with any set point up to a millisecond in absolute value, the target reported by
  \<open>spll_get_phase_shift\<close> is within two picoseconds of it, in both builds, and the current
  shift is that of the PLL.
\<close>

theorem phase_shift_round_trip:
  assumes "b = board_wrc \<or> b = board_wrs" "\<bar>ps\<bar> \<le> 10 ^ 9"
  shows "\<exists>s' tgt. spll_set_phase_shift b (from_picos b) 0 ps s h = Some s' \<and>
    spll_get_phase_shift b 0 s' =
      Some (to_picos b (mul32 (mp_phase_shift_current (sp_mpll s)) (dmtd_div b)), tgt) \<and>
    \<bar>tgt - ps\<bar> \<le> 2"
proof -
  define p where "p = b_ref_clock_period_ps b"
  define d where "d = dmtd_div b"
  have pd: "p = 8000 \<and> d = 2 \<or> p = 16000 \<and> d = 1"
    using assms(1) by (auto simp: p_def d_def board_wrc_def board_wrs_def)
  define u where "u = ((ps * 16384) sdiv p) sdiv d"
  note ar = phase_round_trip_arith [OF pd assms(2)]
  have "from_picos b ps sdiv d = u"
    using ar s32_abs [of "(ps * 16384) sdiv p"]
    by (simp add: from_picos_def p_def [symmetric] c_arith u_def)
  moreover have "mul32 u d = u * d" using ar s32_abs [of "u * d"] by (simp add: c_arith u_def)
  moreover have "to_picos b (u * d) = u * d * p div 16384"
  proof -
    have "\<bar>u * d * p div 16384 - ps\<bar> \<le> 2" using ar by (simp add: u_def)
    then have "in32 (u * d * p div 16384)" using assms(2) by (auto simp: in32_def)
    then show ?thesis by (simp add: to_picos_def drop_bit_eq_div p_def [symmetric] s32_id)
  qed
  moreover have "\<bar>u * d * p div 16384 - ps\<bar> \<le> 2" using ar by (simp add: u_def)
  ultimately show ?thesis
    by (simp add: spll_set_phase_shift_def set_phase_shift_def spll_get_phase_shift_def
        channel_pll_def mpll_set_phase_shift_def d_def [symmetric])
qed

lemma phase_shift_round_trip_witness:
  "\<forall>s h. \<exists>s' c tgt. spll_set_phase_shift board_wrc (from_picos board_wrc) 0 (- 4001) s h = Some s' \<and>
     spll_get_phase_shift board_wrc 0 s' = Some (c, tgt) \<and> \<bar>tgt + 4001\<bar> \<le> 2"
proof (intro allI)
  fix s h
  show "\<exists>s' c tgt. spll_set_phase_shift board_wrc (from_picos board_wrc) 0 (- 4001) s h = Some s' \<and>
     spll_get_phase_shift board_wrc 0 s' = Some (c, tgt) \<and> \<bar>tgt + 4001\<bar> \<le> 2"
    using phase_shift_round_trip [of board_wrc "- 4001" s h] by auto
qed

end
