(* ===== verification/Softpll_Seq.thy ===== *)
theory Softpll_Seq
  imports Softpll
begin

text \<open>
  The sequencer of \<open>softpll_ng.c\<close> against an abstract state machine: the interrupt handler is
  total, follows the transitions of the mode, and is ready only on the locks it has checked.
\<close>

section \<open>The sequencer as a state machine\<close>

text \<open>The transitions the sequencer may make in a mode.\<close>

inductive seq_trans :: "int \<Rightarrow> seq_state \<Rightarrow> seq_state \<Rightarrow> bool" for m where
  clear: "seq_trans m SEQ_CLEAR_DACS SEQ_WAIT_CLEAR_DACS"
| cleared_gm: "m = SPLL_MODE_GRAND_MASTER \<Longrightarrow> seq_trans m SEQ_WAIT_CLEAR_DACS SEQ_START_EXT"
| cleared: "m \<noteq> SPLL_MODE_GRAND_MASTER \<Longrightarrow> seq_trans m SEQ_WAIT_CLEAR_DACS SEQ_START_HELPER"
| start_ext: "seq_trans m SEQ_START_EXT SEQ_WAIT_EXT"
| ext_locked: "seq_trans m SEQ_WAIT_EXT SEQ_START_HELPER"
| start_helper: "seq_trans m SEQ_START_HELPER SEQ_WAIT_HELPER"
| helper_slave: "m = SPLL_MODE_SLAVE \<Longrightarrow> seq_trans m SEQ_WAIT_HELPER SEQ_START_MAIN"
| helper_ready: "m \<noteq> SPLL_MODE_SLAVE \<Longrightarrow> seq_trans m SEQ_WAIT_HELPER SEQ_READY"
| start_main: "seq_trans m SEQ_START_MAIN SEQ_WAIT_MAIN"
| main_ready: "seq_trans m SEQ_WAIT_MAIN SEQ_READY"
| delock: "seq_trans m SEQ_READY SEQ_CLEAR_DACS"
| ext_lost: "m = SPLL_MODE_GRAND_MASTER \<Longrightarrow> seq_trans m SEQ_READY SEQ_START_EXT"

inductive_cases seq_trans_disabled: "seq_trans m SEQ_DISABLED q"
inductive_simps seq_trans_ready: "seq_trans m q SEQ_READY"
inductive_simps seq_trans_from_ready: "seq_trans m SEQ_READY q"

inductive seq_reach :: "int \<Rightarrow> seq_state \<Rightarrow> seq_state \<Rightarrow> bool" for m where
  here: "seq_reach m q q"
| step: "seq_reach m q q' \<Longrightarrow> seq_trans m q' q'' \<Longrightarrow> seq_reach m q q''"

text \<open>The states that belong to a mode.\<close>

definition mode_states :: "int \<Rightarrow> seq_state set" where
  "mode_states m =
     (if m = SPLL_MODE_DISABLED then {SEQ_DISABLED}
      else {SEQ_CLEAR_DACS, SEQ_WAIT_CLEAR_DACS, SEQ_START_HELPER, SEQ_WAIT_HELPER, SEQ_READY} \<union>
        (if m = SPLL_MODE_GRAND_MASTER then {SEQ_START_EXT, SEQ_WAIT_EXT} else {}) \<union>
        (if m = SPLL_MODE_SLAVE then {SEQ_START_MAIN, SEQ_WAIT_MAIN} else {}))"

lemma mode_states_closed: "seq_trans m q q' \<Longrightarrow> q \<in> mode_states m \<Longrightarrow> q' \<in> mode_states m"
  by (induction rule: seq_trans.induct) (auto simp: mode_states_def split: if_splits)

lemma seq_reach_trans: "seq_reach m q q' \<Longrightarrow> seq_reach m q' q'' \<Longrightarrow> seq_reach m q q''"
  by (rotate_tac, induction rule: seq_reach.induct) (auto intro: seq_reach.step)

lemma mode_states_reach: "seq_reach m q q' \<Longrightarrow> q \<in> mode_states m \<Longrightarrow> q' \<in> mode_states m"
  by (induction rule: seq_reach.induct) (auto dest: mode_states_closed)

section \<open>The interrupt handler is defined and keeps the state well formed\<close>

definition sp_wf :: "softpll_state \<Rightarrow> spll_hw \<Rightarrow> bool" where
  "sp_wf s h \<longleftrightarrow> 0 \<le> spll_n_chan_ref h \<and> spll_n_chan_ref h \<le> int (length (sp_ptrackers s)) \<and>
     spll_n_chan_out h - 1 \<le> int (length (sp_aux s)) \<and>
     (\<forall>i. 0 \<le> i \<and> i < spll_n_chan_ref h \<longrightarrow> pt_wf (sp_ptrackers s ! nat i))"

definition same_chans :: "spll_hw \<Rightarrow> spll_hw \<Rightarrow> bool" where
  "same_chans h h' \<longleftrightarrow> spll_n_chan_ref h' = spll_n_chan_ref h \<and> spll_n_chan_out h' = spll_n_chan_out h"

lemma same_chans_refl [simp]: "same_chans h h"
  by (simp add: same_chans_def)

lemma chans_of_steps [simp]:
  "spll_n_chan_ref (snd (helper_start p h)) = spll_n_chan_ref h"
  "spll_n_chan_out (snd (helper_start p h)) = spll_n_chan_out h"
  "spll_n_chan_ref (snd (mpll_start q h)) = spll_n_chan_ref h"
  "spll_n_chan_out (snd (mpll_start q h)) = spll_n_chan_out h"
  "spll_n_chan_ref (snd (external_start e h)) = spll_n_chan_ref h"
  "spll_n_chan_out (snd (external_start e h)) = spll_n_chan_out h"
  "spll_n_chan_ref (snd (ptracker_start t h)) = spll_n_chan_ref h"
  "spll_n_chan_out (snd (ptracker_start t h)) = spll_n_chan_out h"
  by (simp_all add: helper_start_def mpll_start_def external_start_def ptracker_start_def Let_def)

lemma chans_of_updates [simp]:
  "spll_n_chan_ref (snd (snd (helper_update p t src h))) = spll_n_chan_ref h"
  "spll_n_chan_out (snd (snd (helper_update p t src h))) = spll_n_chan_out h"
  "spll_n_chan_ref (snd (snd (mpll_update q t src h))) = spll_n_chan_ref h"
  "spll_n_chan_out (snd (snd (mpll_update q t src h))) = spll_n_chan_out h"
  "spll_n_chan_ref (snd (snd (external_update b e t src h))) = spll_n_chan_ref h"
  "spll_n_chan_out (snd (snd (external_update b e t src h))) = spll_n_chan_out h"
  by (simp_all add: helper_update_def mpll_update_def mpll_pair_def external_update_def
      realign_fsm_def Let_def case_prod_beta split: realign_state.split)

lemma ptracker_start_wf: "pt_wf p \<Longrightarrow> pt_wf (fst (ptracker_start p h))"
  by (simp add: ptracker_start_def pt_wf_def Let_def)

lemma start_ptrackers_ok:
  assumes "sp_wf s h"
  shows "\<exists>s' h'. start_ptrackers s h = Some (s', h') \<and> sp_wf s' h' \<and> same_chans h h' \<and>
    s' = s\<lparr>sp_ptrackers := sp_ptrackers s'\<rparr>"
proof -
  define P where "P = (\<lambda>i :: int. \<lambda>(s', h'). sp_wf s' h' \<and> same_chans h h' \<and>
    (\<exists>ps. s' = s\<lparr>sp_ptrackers := ps\<rparr>))"
  have "\<exists>r. start_ptrackers s h = Some r \<and> P (spll_n_chan_ref h) r"
    unfolding start_ptrackers_def
  proof (rule for_loop_inv)
    have "s = s\<lparr>sp_ptrackers := sp_ptrackers s\<rparr>" by simp
    then have "\<exists>ps. s = s\<lparr>sp_ptrackers := ps\<rparr>" ..
    then show "P 0 (s, h)" using assms by (simp add: P_def)
    show "0 \<le> spll_n_chan_ref h" using assms by (simp add: sp_wf_def)
  next
    fix j and sh :: "softpll_state \<times> spll_hw"
    assume j: "0 \<le> j" "j < spll_n_chan_ref h" and P: "P j sh"
    obtain s1 h1 where sh: "sh = (s1, h1)" by (cases sh)
    let ?p = "fst (ptracker_start (sp_ptrackers s1 ! nat j) h1)"
    have wf: "sp_wf s1 h1" and ch: "same_chans h h1" using P by (simp_all add: P_def sh)
    obtain qs where qs: "s1 = s\<lparr>sp_ptrackers := qs\<rparr>" using P by (auto simp: P_def sh)
    have len: "j < int (length (sp_ptrackers s1))" "j < spll_n_chan_ref h1"
      using j wf ch by (auto simp: sp_wf_def same_chans_def)
    then have "sp_wf (s1\<lparr>sp_ptrackers := (sp_ptrackers s1)[nat j := ?p]\<rparr>)
        (snd (ptracker_start (sp_ptrackers s1 ! nat j) h1))"
      using wf j by (auto simp: sp_wf_def nth_list_update intro!: ptracker_start_wf)
    then show "\<exists>r. (case sh of (s, h) \<Rightarrow> if sp_ptracker_mask s AND bit32 j \<noteq> 0 then
        aget (sp_ptrackers s) j \<bind> (\<lambda>p. let (p, h) = ptracker_start p h in
          aset (sp_ptrackers s) j p \<bind> (\<lambda>ps. Some (s\<lparr>sp_ptrackers := ps\<rparr>, h)))
        else Some (s, h)) = Some r \<and> P (j + 1) r"
      using P j len by (auto simp: sh aget_Some aset_Some case_prod_beta P_def Let_def same_chans_def qs)
  qed
  then show ?thesis by (auto simp: P_def)
qed

lemma sp_wf_cong:
  "sp_wf s h \<Longrightarrow> same_chans h h' \<Longrightarrow> sp_ptrackers s' = sp_ptrackers s \<Longrightarrow>
   length (sp_aux s') = length (sp_aux s) \<Longrightarrow> sp_wf s' h'"
  by (simp add: sp_wf_def same_chans_def)

definition seq_ok :: "softpll_state \<times> spll_hw \<Rightarrow> softpll_state \<times> spll_hw \<Rightarrow> bool" where
  "seq_ok = (\<lambda>(s, h) (s', h'). sp_wf s' h' \<and> same_chans h h' \<and> sp_mode s' = sp_mode s)"

lemma sequencing_fsm_ok:
  assumes "sp_wf s h"
  shows "\<exists>s' h'. sequencing_fsm b s h = Some (s', h') \<and> seq_ok (s, h) (s', h') \<and>
    (sp_seq_state s' = sp_seq_state s \<or> seq_trans (sp_mode s) (sp_seq_state s) (sp_seq_state s'))"
proof -
  from start_ptrackers_ok [OF assms] obtain s1 h1 where st: "start_ptrackers s h = Some (s1, h1)"
    "sp_wf s1 h1" "same_chans h h1" and eq: "s1 = s\<lparr>sp_ptrackers := sp_ptrackers s1\<rparr>"
    by blast
  have same: "sp_mode s1 = sp_mode s" "sp_seq_state s1 = sp_seq_state s"
    by (subst eq, simp)+
  have wf1: "sp_wf (s1\<lparr>sp_seq_state := q\<rparr>) h1" for q
    by (rule sp_wf_cong [OF st(2)]) simp_all
  show ?thesis
  proof (cases "sp_seq_state s")
    case SEQ_WAIT_HELPER
    then show ?thesis using assms st same wf1
      by (auto simp: sequencing_fsm_def seq_ok_def intro: sp_wf_cong [OF assms] seq_trans.intros)
  next
    case SEQ_WAIT_MAIN
    then show ?thesis using assms st same wf1
      by (auto simp: sequencing_fsm_def seq_ok_def intro: sp_wf_cong [OF assms] seq_trans.intros)
  next
    case SEQ_CLEAR_DACS
    then show ?thesis using assms
      by (auto simp: sequencing_fsm_def seq_ok_def Let_def same_chans_def
          intro: sp_wf_cong [OF assms] seq_trans.intros)
  qed (use assms in \<open>auto simp: sequencing_fsm_def seq_ok_def Let_def same_chans_def case_prod_beta
        intro: sp_wf_cong [OF assms] seq_trans.intros\<close>)
qed

lemma ptrackers_update_ok:
  assumes wf: "sp_wf s h" and src: "0 \<le> source" "source \<le> spll_n_chan_ref h"
  shows "\<exists>t ps. ptrackers_update (sp_tag_ref s, sp_ptrackers s) tag source h = Some (t, ps) \<and>
    sp_wf (s\<lparr>sp_tag_ref := t, sp_ptrackers := ps\<rparr>) h"
proof (cases "source = spll_n_chan_ref h")
  case True
  then show ?thesis using wf by (simp add: ptrackers_update_def sp_wf_def)
next
  case False
  let ?p = "sp_ptrackers s ! nat source"
  let ?d = "sub32 (sp_tag_ref s) tag AND (shl32 1 HPLL_N - 1)"
  have lt: "source < spll_n_chan_ref h" using False src by simp
  then have p: "pt_wf ?p" "source < int (length (sp_ptrackers s))"
    using wf src by (auto simp: sp_wf_def)
  have "0 \<le> ?d" "?d < 16384" unfolding delta_mod by simp_all
  from ptracker_sample_some [OF p(1) this] obtain p' where
    p': "ptracker_sample ?p ?d = Some p'" "pt_wf p'" by blast
  have "sp_wf (s\<lparr>sp_tag_ref := sp_tag_ref s, sp_ptrackers := (sp_ptrackers s)[nat source := p']\<rparr>) h"
    using wf p'(2) p(2) src by (auto simp: sp_wf_def nth_list_update nat_less_iff)
  then show ?thesis using False src p p'(1) wf
    by (simp add: ptrackers_update_def aget_Some aset_Some)
qed

lemma set_aux_dmtd_ok:
  "0 \<le> i \<Longrightarrow> i < int (length (sp_aux s)) \<Longrightarrow>
   set_aux_dmtd i p s = Some (s\<lparr>sp_aux := (sp_aux s)[nat i := (sp_aux s ! nat i)\<lparr>au_dmtd := p\<rparr>]\<rparr>)"
  by (simp add: set_aux_dmtd_def aget_Some aset_Some)

lemma set_aux_seq_ok:
  "0 \<le> i \<Longrightarrow> i < int (length (sp_aux s)) \<Longrightarrow>
   set_aux_seq i q s = Some (s\<lparr>sp_aux := (sp_aux s)[nat i := (sp_aux s ! nat i)\<lparr>au_seq_state := q\<rparr>]\<rparr>)"
  by (simp add: set_aux_seq_def aget_Some aset_Some)

lemma loops_frame:
  "seq_ok sh sh' \<Longrightarrow> seq_ok sh (loops_ext b t src sh')"
  "seq_ok sh sh' \<Longrightarrow> seq_ok sh (loops_helper t src sh')"
  "seq_ok sh sh' \<Longrightarrow> seq_ok sh (loops_main t src sh')"
  "sp_seq_state (fst (loops_ext b t src sh')) = sp_seq_state (fst sh')"
  "sp_seq_state (fst (loops_helper t src sh')) = sp_seq_state (fst sh')"
  "sp_seq_state (fst (loops_main t src sh')) = sp_seq_state (fst sh')"
  by (cases sh, cases sh', auto simp: loops_ext_def loops_helper_def loops_main_def seq_ok_def
      case_prod_beta Let_def same_chans_def intro: sp_wf_cong)+

lemma loop_aux_ok:
  assumes "0 \<le> i" "i < int (length (sp_aux s))" "sp_wf s h"
  shows "\<exists>s' h'. loop_aux t src i (s, h) = Some (s', h') \<and> seq_ok (s, h) (s', h') \<and>
    sp_seq_state s' = sp_seq_state s \<and> length (sp_aux s') = length (sp_aux s)"
  using assms
  by (auto simp: loop_aux_def aget_Some set_aux_dmtd_ok case_prod_beta Let_def seq_ok_def
      same_chans_def intro: sp_wf_cong)

lemma seq_ok_trans: "seq_ok a b \<Longrightarrow> seq_ok b c \<Longrightarrow> seq_ok a c"
  by (auto simp: seq_ok_def same_chans_def)

lemma update_ptrackers_ok:
  assumes "sp_wf s h" "0 \<le> source"
  shows "\<exists>s'. update_ptrackers s tag source h = Some s' \<and> sp_wf s' h \<and>
    sp_mode s' = sp_mode s \<and> sp_seq_state s' = sp_seq_state s"
proof (cases "spll_n_chan_ref h < source")
  case True
  then show ?thesis using assms by (simp add: update_ptrackers_def)
next
  case False
  then show ?thesis using ptrackers_update_ok [OF assms, of tag]
    by (auto simp: update_ptrackers_def)
qed

lemma loops_ready_ok:
  assumes wf: "sp_wf s h" and src: "0 \<le> source"
  shows "\<exists>s' h'. loops_ready tag source (s, h) = Some (s', h') \<and> seq_ok (s, h) (s', h') \<and>
    sp_seq_state s' = sp_seq_state s"
proof -
  define k where "k = (if sp_mode s = SPLL_MODE_SLAVE
    then let (l, p, h) = mpll_update (sp_mpll s) tag source h
         in for_loop 0 (spll_n_chan_out h - 1) (loop_aux tag source) (s\<lparr>sp_mpll := p\<rparr>, h)
    else Some (s, h))"
  have "\<exists>s1 h1. k = Some (s1, h1) \<and> seq_ok (s, h) (s1, h1) \<and> sp_seq_state s1 = sp_seq_state s"
  proof (cases "sp_mode s = SPLL_MODE_SLAVE")
    case False
    then show ?thesis using wf by (simp add: k_def seq_ok_def)
  next
    case True
    define s0 where "s0 = s\<lparr>sp_mpll := fst (snd (mpll_update (sp_mpll s) tag source h))\<rparr>"
    define h0 where "h0 = snd (snd (mpll_update (sp_mpll s) tag source h))"
    have wf0: "seq_ok (s, h) (s0, h0)" "spll_n_chan_out h0 = spll_n_chan_out h"
      using wf by (auto simp: s0_def h0_def seq_ok_def same_chans_def intro: sp_wf_cong)
    have k: "k = for_loop 0 (spll_n_chan_out h0 - 1) (loop_aux tag source) (s0, h0)"
      using True by (simp add: k_def s0_def h0_def case_prod_beta)
    define P where "P = (\<lambda>i :: int. \<lambda>(s', h'). seq_ok (s0, h0) (s', h') \<and>
      sp_seq_state s' = sp_seq_state s0 \<and> length (sp_aux s') = length (sp_aux s0))"
    have "\<exists>r. k = Some r \<and> P (max 0 (spll_n_chan_out h0 - 1)) r"
    proof (cases "0 \<le> spll_n_chan_out h0 - 1")
      case True
      have "\<exists>r. for_loop 0 (spll_n_chan_out h0 - 1) (loop_aux tag source) (s0, h0) = Some r \<and>
          P (spll_n_chan_out h0 - 1) r"
      proof (rule for_loop_inv)
        show "P 0 (s0, h0)" using wf0 by (simp add: P_def seq_ok_def)
        show "0 \<le> spll_n_chan_out h0 - 1" by fact
        fix j and sh :: "softpll_state \<times> spll_hw"
        assume j: "0 \<le> j" "j < spll_n_chan_out h0 - 1" and P: "P j sh"
        obtain s1 h1 where sh: "sh = (s1, h1)" by (cases sh)
        have ok: "seq_ok (s0, h0) (s1, h1)" "length (sp_aux s1) = length (sp_aux s0)"
          "sp_seq_state s1 = sp_seq_state s0" using P by (simp_all add: P_def sh)
        have "j < int (length (sp_aux s1))" "sp_wf s1 h1"
          using j wf0 ok by (auto simp: seq_ok_def sp_wf_def)
        from loop_aux_ok [OF j(1) this, of tag source] obtain s2 h2 where
          s2: "loop_aux tag source j (s1, h1) = Some (s2, h2)" "seq_ok (s1, h1) (s2, h2)"
          "sp_seq_state s2 = sp_seq_state s1" "length (sp_aux s2) = length (sp_aux s1)" by blast
        then show "\<exists>r. loop_aux tag source j sh = Some r \<and> P (j + 1) r"
          using ok seq_ok_trans [OF ok(1) s2(2)] by (simp add: sh P_def)
      qed
      then show ?thesis using True by (simp add: k)
    next
      case False
      then show ?thesis using wf0 by (simp add: k P_def seq_ok_def)
    qed
    then obtain s1 h1 where "k = Some (s1, h1)" "seq_ok (s0, h0) (s1, h1)"
      "sp_seq_state s1 = sp_seq_state s0" by (auto simp: P_def)
    then show ?thesis using seq_ok_trans [OF wf0(1)] by (simp add: s0_def)
  qed
  then obtain s1 h1 where s1: "k = Some (s1, h1)" "seq_ok (s, h) (s1, h1)"
    "sp_seq_state s1 = sp_seq_state s" by blast
  then have "sp_wf s1 h1" by (simp add: seq_ok_def)
  from update_ptrackers_ok [OF this src, of tag] obtain s2 where
    s2: "update_ptrackers s1 tag source h1 = Some s2" "sp_wf s2 h1" "sp_mode s2 = sp_mode s1"
    "sp_seq_state s2 = sp_seq_state s1" by blast
  have "loops_ready tag source (s, h) = Some (s2, h1)"
    using s1(1) s2(1) by (simp add: loops_ready_def k_def)
  then show ?thesis using s1 s2 by (auto simp: seq_ok_def)
qed

lemma update_loops_ok:
  assumes wf: "sp_wf s h" and src: "0 \<le> source"
  shows "\<exists>s' h'. update_loops b s tag source h = Some (s', h') \<and> seq_ok (s, h) (s', h') \<and>
    sp_seq_state s' = sp_seq_state s"
proof -
  define sh where "sh = loops_main tag source (loops_helper tag source (loops_ext b tag source (s, h)))"
  have "seq_ok (s, h) (s, h)" using wf by (simp add: seq_ok_def)
  then have ok: "seq_ok (s, h) sh" unfolding sh_def by (intro loops_frame)
  have q: "sp_seq_state (fst sh) = sp_seq_state s" by (simp add: sh_def loops_frame)
  obtain s1 h1 where s1: "sh = (s1, h1)" by (cases sh)
  have "sp_wf s1 h1" using ok by (simp add: s1 seq_ok_def)
  from loops_ready_ok [OF this src, of tag] obtain s2 h2 where
    s2: "loops_ready tag source (s1, h1) = Some (s2, h2)" "seq_ok (s1, h1) (s2, h2)"
    "sp_seq_state s2 = sp_seq_state s1" by blast
  have "update_loops b s tag source h =
      (if sp_seq_state s1 = SEQ_READY then Some (s2, h2) else Some (s1, h1))"
    using s2(1) by (simp add: update_loops_def Let_def sh_def [symmetric] s1)
  then show ?thesis using ok q s2 seq_ok_trans [OF _ s2(2)] by (auto simp: s1)
qed

lemma irq_tag_ok:
  assumes "sp_wf s h"
  shows "\<exists>s' h'. irq_tag b t (s, h) = Some (s', h') \<and> seq_ok (s, h) (s', h') \<and>
    (sp_seq_state s' = sp_seq_state s \<or> seq_trans (sp_mode s) (sp_seq_state s) (sp_seq_state s'))"
proof -
  let ?h = "trr_inputs t h"
  have same: "same_chans h ?h" by (simp add: same_chans_def trr_inputs_def)
  have wf: "sp_wf s ?h" using sp_wf_cong [OF assms same] by simp
  from sequencing_fsm_ok [OF wf, of b] obtain s1 h1 where s1: "sequencing_fsm b s ?h = Some (s1, h1)"
    "seq_ok (s, ?h) (s1, h1)"
    "sp_seq_state s1 = sp_seq_state s \<or> seq_trans (sp_mode s) (sp_seq_state s) (sp_seq_state s1)" by blast
  then have "sp_wf s1 h1" by (simp add: seq_ok_def)
  from update_loops_ok [OF this, of "uint (gen_read (te_word t) 24 7)" b "uint (gen_read (te_word t) 0 24)"]
  obtain s2 h2 where s2: "update_loops b s1 (uint (gen_read (te_word t) 0 24))
      (uint (gen_read (te_word t) 24 7)) h1 = Some (s2, h2)" "seq_ok (s1, h1) (s2, h2)"
    "sp_seq_state s2 = sp_seq_state s1" by auto
  have "seq_ok (s, h) (s2, h2)"
    using seq_ok_trans [OF s1(2) s2(2)] same by (simp add: seq_ok_def same_chans_def)
  then show ?thesis using s1 s2 by (simp add: irq_tag_def Let_def)
qed

lemma irq_tags_ok:
  assumes "sp_wf s h"
  shows "\<exists>s' h'. irq_tags b ts (s, h) = Some (s', h') \<and> seq_ok (s, h) (s', h') \<and>
    seq_reach (sp_mode s) (sp_seq_state s) (sp_seq_state s')"
  using assms
proof (induction ts arbitrary: s h)
  case Nil
  then show ?case by (simp add: seq_ok_def seq_reach.here)
next
  case (Cons t ts)
  from irq_tag_ok [OF Cons.prems, of b t] obtain s1 h1 where s1: "irq_tag b t (s, h) = Some (s1, h1)"
    "seq_ok (s, h) (s1, h1)"
    "sp_seq_state s1 = sp_seq_state s \<or> seq_trans (sp_mode s) (sp_seq_state s) (sp_seq_state s1)" by blast
  then have "sp_wf s1 h1" "sp_mode s1 = sp_mode s" by (simp_all add: seq_ok_def)
  from Cons.IH [OF this(1)] this(2) obtain s2 h2 where s2: "irq_tags b ts (s1, h1) = Some (s2, h2)"
    "seq_ok (s1, h1) (s2, h2)" "seq_reach (sp_mode s) (sp_seq_state s1) (sp_seq_state s2)" by auto
  have "seq_reach (sp_mode s) (sp_seq_state s) (sp_seq_state s1)"
    using s1(3) by (auto intro: seq_reach.intros)
  then have "seq_reach (sp_mode s) (sp_seq_state s) (sp_seq_state s2)"
    using s2(3) by (rule seq_reach_trans)
  then show ?case using s1(1) s2(1) seq_ok_trans [OF s1(2) s2(2)] by simp
qed

lemma irq_entry_ok:
  assumes "sp_wf s h" "sp_seq_state s \<in> mode_states (sp_mode s)"
  shows "\<exists>s' h'. irq_entry b s h = Some (s', h') \<and> sp_wf s' h' \<and> sp_mode s' = sp_mode s \<and>
    seq_reach (sp_mode s) (sp_seq_state s) (sp_seq_state s') \<and> same_chans h h' \<and>
    sp_seq_state s' \<in> mode_states (sp_mode s)"
proof -
  have "sp_wf s (h\<lparr>r_TRR := []\<rparr>)" using sp_wf_cong [OF assms(1)] by (simp add: same_chans_def)
  from irq_tags_ok [OF this, of b "r_TRR h"] obtain s1 h1 where
    s1: "irq_tags b (r_TRR h) (s, h\<lparr>r_TRR := []\<rparr>) = Some (s1, h1)"
    "seq_ok (s, h\<lparr>r_TRR := []\<rparr>) (s1, h1)"
    "seq_reach (sp_mode s) (sp_seq_state s) (sp_seq_state s1)" by blast
  define s2 where "s2 = s1\<lparr>sp_irq_count := add32 (sp_irq_count s1) 1\<rparr>"
  have "sp_wf s2 h1"
    using s1(2) by (auto simp: seq_ok_def s2_def intro: sp_wf_cong [of s1 h1 h1])
  moreover have "irq_entry b s h = Some (s2, h1)" using s1(1) by (simp add: irq_entry_def s2_def)
  moreover have "same_chans h h1" using s1(2) by (simp add: seq_ok_def same_chans_def)
  moreover have "sp_mode s2 = sp_mode s" "sp_seq_state s2 = sp_seq_state s1"
    using s1(2) by (simp_all add: s2_def seq_ok_def)
  ultimately show ?thesis using s1(3) mode_states_reach [OF s1(3) assms(2)]
    by (intro exI [of _ s2] exI [of _ h1]) simp
qed

text \<open>
  C3. The interrupt handler is total and follows the sequencer's state machine: if the channel
  counts fit the arrays and the trackers are initialised, \<open>_irq_entry\<close> processes any FIFO
  contents without an access out of range, keeps that invariant and the mode, and moves the
  sequencer only along the transitions of the mode, so that it stays in the mode's states.
\<close>

theorem irq_entry_refines_sequencer:
  assumes "sp_wf s h" "sp_seq_state s \<in> mode_states (sp_mode s)"
  shows "\<exists>s' h'. irq_entry b s h = Some (s', h') \<and> sp_wf s' h' \<and> sp_mode s' = sp_mode s \<and>
    seq_reach (sp_mode s) (sp_seq_state s) (sp_seq_state s') \<and>
    sp_seq_state s' \<in> mode_states (sp_mode s)"
  using irq_entry_ok [OF assms] by blast

text \<open>
  C4. The sequencer declares itself ready only on locks it has checked: a step of
  \<open>sequencing_fsm\<close> ends in \<open>SEQ_READY\<close> only if it stays there with the helper locked, in
  grandmaster mode the external PLL locked and in slave mode the main PLL locked, or if it
  arrives with the helper (not slave) or the main PLL (slave or otherwise) locked; a lost lock
  leaves \<open>SEQ_READY\<close> at once and is counted.
\<close>

theorem ready_means_locked:
  assumes "sequencing_fsm b s h = Some (s', h')"
  shows "(sp_seq_state s' = SEQ_READY \<longrightarrow>
      (sp_seq_state s = SEQ_READY \<and> ld_locked (hl_ld (sp_helper s)) \<noteq> 0 \<and>
       (sp_mode s = SPLL_MODE_GRAND_MASTER \<longrightarrow> external_locked (sp_ext s)) \<and>
       (sp_mode s = SPLL_MODE_SLAVE \<longrightarrow> ld_locked (mp_ld (sp_mpll s)) \<noteq> 0)) \<or>
      (sp_seq_state s = SEQ_WAIT_HELPER \<and> sp_mode s \<noteq> SPLL_MODE_SLAVE \<and>
       ld_locked (hl_ld (sp_helper s)) \<noteq> 0) \<or>
      (sp_seq_state s = SEQ_WAIT_MAIN \<and> ld_locked (mp_ld (sp_mpll s)) \<noteq> 0)) \<and>
    (sp_seq_state s = SEQ_READY \<and> sp_seq_state s' \<noteq> SEQ_READY \<longrightarrow>
      sp_delock_count s' = add32 (sp_delock_count s) 1) \<and>
    (sp_seq_state s = SEQ_READY \<and> sp_seq_state s' = SEQ_READY \<longrightarrow> s' = s \<and> h' = h)"
proof (cases "sp_seq_state s")
  case SEQ_WAIT_HELPER
  show ?thesis
  proof (cases "ld_locked (hl_ld (sp_helper s)) \<noteq> 0 \<and> ld_lock_changed (hl_ld (sp_helper s)) \<noteq> 0")
    case True
    then show ?thesis using assms SEQ_WAIT_HELPER
      by (cases "sp_mode s = SPLL_MODE_SLAVE") (simp_all add: sequencing_fsm_def, auto)
  next
    case False
    then have "sequencing_fsm b s h = Some (s, h)"
      using SEQ_WAIT_HELPER by (auto simp: sequencing_fsm_def)
    then show ?thesis using assms SEQ_WAIT_HELPER by simp
  qed
next
  case SEQ_WAIT_MAIN
  show ?thesis
  proof (cases "ld_locked (mp_ld (sp_mpll s)) = 0")
    case True
    then show ?thesis using assms SEQ_WAIT_MAIN by (simp add: sequencing_fsm_def)
  next
    case False
    then show ?thesis using SEQ_WAIT_MAIN by simp
  qed
next
  case SEQ_READY
  then show ?thesis using assms by (auto simp: sequencing_fsm_def split: if_splits)
qed (use assms in \<open>auto simp: sequencing_fsm_def Let_def case_prod_beta split: if_splits\<close>)

lemma irq_entry_refines_sequencer_witness:
  "\<forall>s h. \<exists>s' h'. irq_entry board_wrc
     (s\<lparr>sp_mode := 2, sp_seq_state := SEQ_CLEAR_DACS, sp_ptrackers := [], sp_aux := []\<rparr>)
     (h\<lparr>spll_n_chan_ref := 0, spll_n_chan_out := 1\<rparr>) = Some (s', h') \<and>
     seq_reach 2 SEQ_CLEAR_DACS (sp_seq_state s')"
proof (intro allI)
  fix s :: softpll_state and h :: spll_hw
  have "sp_wf (s\<lparr>sp_mode := 2, sp_seq_state := SEQ_CLEAR_DACS, sp_ptrackers := [], sp_aux := []\<rparr>)
      (h\<lparr>spll_n_chan_ref := 0, spll_n_chan_out := 1\<rparr>)" by (simp add: sp_wf_def) linarith
  from irq_entry_refines_sequencer [OF this, of board_wrc]
  show "\<exists>s' h'. irq_entry board_wrc
     (s\<lparr>sp_mode := 2, sp_seq_state := SEQ_CLEAR_DACS, sp_ptrackers := [], sp_aux := []\<rparr>)
     (h\<lparr>spll_n_chan_ref := 0, spll_n_chan_out := 1\<rparr>) = Some (s', h') \<and>
     seq_reach 2 SEQ_CLEAR_DACS (sp_seq_state s')"
    by (auto simp: mode_states_def)
qed

lemma ready_means_locked_witness:
  "\<forall>s h. let s = s\<lparr>sp_mode := 2, sp_seq_state := SEQ_READY, sp_delock_count := 3,
       sp_helper := (sp_helper s)\<lparr>hl_ld := (hl_ld (sp_helper s))\<lparr>ld_locked := 0\<rparr>\<rparr>\<rparr>
     in \<exists>s'. sequencing_fsm board_wrc s h = Some (s', h) \<and> sp_delock_count s' = 4"
proof (intro allI)
  fix s :: softpll_state and h :: spll_hw
  define t where "t = s\<lparr>sp_mode := 2, sp_seq_state := SEQ_READY, sp_delock_count := 3,
       sp_helper := (sp_helper s)\<lparr>hl_ld := (hl_ld (sp_helper s))\<lparr>ld_locked := 0\<rparr>\<rparr>\<rparr>"
  define t' where "t' = t\<lparr>sp_delock_count := 4, sp_seq_state := SEQ_CLEAR_DACS\<rparr>"
  have "sequencing_fsm board_wrc t h = Some (t', h)"
    by (simp add: sequencing_fsm_def t'_def) (simp add: t_def c_arith)
  from ready_means_locked [OF this] this have "sp_delock_count t' = add32 3 1"
    by (simp add: t'_def) (simp add: t_def)
  with \<open>sequencing_fsm board_wrc t h = Some (t', h)\<close>
  show "let s = s\<lparr>sp_mode := 2, sp_seq_state := SEQ_READY, sp_delock_count := 3,
       sp_helper := (sp_helper s)\<lparr>hl_ld := (hl_ld (sp_helper s))\<lparr>ld_locked := 0\<rparr>\<rparr>\<rparr>
     in \<exists>s'. sequencing_fsm board_wrc s h = Some (s', h) \<and> sp_delock_count s' = 4"
    by (simp add: t_def [symmetric] c_arith)
qed

end
