(* ===== verification/Softpll_Init.thy ===== *)
theory Softpll_Init
  imports Softpll_Seq
begin

text \<open>
  \<open>spll_init\<close> and the auxiliary clocks of \<open>softpll_ng.c\<close>: what initialisation establishes, and
  that the lock status shown to the gateware is that of the auxiliary state machines.
\<close>

section \<open>Initialisation\<close>

definition init_fits :: "softpll_state \<Rightarrow> spll_hw \<Rightarrow> bool" where
  "init_fits s h \<longleftrightarrow> uint (gen_read (r_CSR h) 8 6) \<le> int (length (sp_ptrackers s)) \<and>
     uint (gen_read (r_CSR h) 16 3) - 1 \<le> int (length (sp_aux s))"

lemma init_aux_loop:
  assumes "n - 1 \<le> int (length (sp_aux s))"
  shows "\<exists>s'. for_loop 0 (n - 1) (init_aux b r h) s = Some s' \<and> (\<exists>aux. s' = s\<lparr>sp_aux := aux\<rparr>) \<and> length (sp_aux s') = length (sp_aux s) \<and>
     (\<forall>i. 0 \<le> i \<and> i < n - 1 \<longrightarrow> au_seq_state (sp_aux s' ! nat i) = AUX_DISABLED)"
proof (cases "0 \<le> n - 1")
  case True
  show ?thesis
  proof (rule for_loop_inv [where P = "\<lambda>j s'. (\<exists>aux. s' = s\<lparr>sp_aux := aux\<rparr>) \<and>
      length (sp_aux s') = length (sp_aux s) \<and>
      (\<forall>i. 0 \<le> i \<and> i < j \<longrightarrow> au_seq_state (sp_aux s' ! nat i) = AUX_DISABLED)"])
    have "s = s\<lparr>sp_aux := sp_aux s\<rparr>" by simp
    then have "\<exists>aux. s = s\<lparr>sp_aux := aux\<rparr>" ..
    then show "(\<exists>aux. s = s\<lparr>sp_aux := aux\<rparr>) \<and> length (sp_aux s) = length (sp_aux s) \<and>
      (\<forall>i. 0 \<le> i \<and> i < 0 \<longrightarrow> au_seq_state (sp_aux s ! nat i) = AUX_DISABLED)" by auto
  next
    show "0 \<le> n - 1" by fact
  next
    fix j s1
    assume j: "0 \<le> j" "j < n - 1" and P: "(\<exists>aux. s1 = s\<lparr>sp_aux := aux\<rparr>) \<and>
      length (sp_aux s1) = length (sp_aux s) \<and>
      (\<forall>i. 0 \<le> i \<and> i < j \<longrightarrow> au_seq_state (sp_aux s1 ! nat i) = AUX_DISABLED)"
    then obtain aux where s1: "s1 = s\<lparr>sp_aux := aux\<rparr>" by blast
    have len: "j < int (length aux)" using P j assms by (simp add: s1)
    have dis: "\<And>i. 0 \<le> i \<Longrightarrow> i < j \<Longrightarrow> au_seq_state (aux ! nat i) = AUX_DISABLED"
      using P by (simp add: s1)
    define x where "x = (aux ! nat j)\<lparr>au_dmtd := mpll_init b (au_dmtd (aux ! nat j)) r (spll_n_chan_ref h + j + 1) h,
      au_seq_state := AUX_DISABLED\<rparr>"
    have "init_aux b r h j s1 =
        Some (s\<lparr>sp_aux := aux[nat j := x]\<rparr>)"
      using j len by (simp add: s1 aget_Some set_aux_dmtd_ok set_aux_seq_ok x_def nat_less_iff init_aux_def)
    moreover have "au_seq_state (aux[nat j := x] ! nat i) = AUX_DISABLED" if "0 \<le> i" "i < j + 1" for i
    proof (cases "i = j")
      case True
      then show ?thesis using len j by (simp add: x_def nat_less_iff)
    next
      case False
      then have "nat j \<noteq> nat i" using j that by simp
      then show ?thesis using dis that False by simp
    qed
    moreover have "length aux = length (sp_aux s)" using P by (simp add: s1)
    ultimately show "\<exists>s'. init_aux b r h j s1 = Some s' \<and>
      (\<exists>aux. s' = s\<lparr>sp_aux := aux\<rparr>) \<and> length (sp_aux s') = length (sp_aux s) \<and>
      (\<forall>i. 0 \<le> i \<and> i < j + 1 \<longrightarrow> au_seq_state (sp_aux s' ! nat i) = AUX_DISABLED)"
      by (intro exI [of _ "s\<lparr>sp_aux := aux[nat j := x]\<rparr>"]) auto
  qed
next
  case False
  have "s = s\<lparr>sp_aux := sp_aux s\<rparr>" by simp
  then have "\<exists>aux. s = s\<lparr>sp_aux := aux\<rparr>" ..
  then show ?thesis using False by auto
qed

lemma init_trackers_loop:
  assumes "0 \<le> n" "n \<le> int (length (sp_ptrackers s))"
  shows "\<exists>s'. for_loop 0 n init_tracker s = Some s' \<and> (\<exists>ps. s' = s\<lparr>sp_ptrackers := ps\<rparr>) \<and>
     length (sp_ptrackers s') = length (sp_ptrackers s) \<and>
     (\<forall>i. 0 \<le> i \<and> i < n \<longrightarrow> pt_wf (sp_ptrackers s' ! nat i))"
proof (rule for_loop_inv [where P = "\<lambda>j s'. (\<exists>ps. s' = s\<lparr>sp_ptrackers := ps\<rparr>) \<and>
      length (sp_ptrackers s') = length (sp_ptrackers s) \<and>
      (\<forall>i. 0 \<le> i \<and> i < j \<longrightarrow> pt_wf (sp_ptrackers s' ! nat i))"])
  have "s = s\<lparr>sp_ptrackers := sp_ptrackers s\<rparr>" by simp
  then have "\<exists>ps. s = s\<lparr>sp_ptrackers := ps\<rparr>" ..
  then show "(\<exists>ps. s = s\<lparr>sp_ptrackers := ps\<rparr>) \<and> length (sp_ptrackers s) = length (sp_ptrackers s) \<and>
      (\<forall>i. 0 \<le> i \<and> i < 0 \<longrightarrow> pt_wf (sp_ptrackers s ! nat i))" by auto
next
  show "0 \<le> n" by fact
next
  fix j s1
  assume j: "0 \<le> j" "j < n" and P: "(\<exists>ps. s1 = s\<lparr>sp_ptrackers := ps\<rparr>) \<and>
    length (sp_ptrackers s1) = length (sp_ptrackers s) \<and>
    (\<forall>i. 0 \<le> i \<and> i < j \<longrightarrow> pt_wf (sp_ptrackers s1 ! nat i))"
  then obtain ps where s1: "s1 = s\<lparr>sp_ptrackers := ps\<rparr>" by blast
  have len: "j < int (length ps)" "length ps = length (sp_ptrackers s)"
    using P j assms by (simp_all add: s1)
  have wf: "\<And>i. 0 \<le> i \<Longrightarrow> i < j \<Longrightarrow> pt_wf (ps ! nat i)" using P by (simp add: s1)
  define x where "x = ptracker_init (ps ! nat j) j PTRACKER_AVERAGE_SAMPLES"
  have "pt_wf x" by (simp add: x_def pt_wf_def ptracker_init_def)
  have "pt_wf (ps[nat j := x] ! nat i)" if "0 \<le> i" "i < j + 1" for i
  proof (cases "i = j")
    case True
    then show ?thesis using len j \<open>pt_wf x\<close> by (simp add: nat_less_iff)
  next
    case False
    then have "nat j \<noteq> nat i" using j that by simp
    then show ?thesis using wf that False by simp
  qed
  moreover have "init_tracker j s1 = Some (s\<lparr>sp_ptrackers := ps[nat j := x]\<rparr>)"
    using j len by (simp add: s1 aget_Some aset_Some x_def init_tracker_def)
  ultimately show "\<exists>s'. init_tracker j s1 = Some s' \<and>
    (\<exists>ps. s' = s\<lparr>sp_ptrackers := ps\<rparr>) \<and> length (sp_ptrackers s') = length (sp_ptrackers s) \<and>
    (\<forall>i. 0 \<le> i \<and> i < j + 1 \<longrightarrow> pt_wf (sp_ptrackers s' ! nat i))"
    using len by (intro exI [of _ "s\<lparr>sp_ptrackers := ps[nat j := x]\<rparr>"]) auto
qed

lemma enable_irq_bits [simp]:
  "cpu_IE (enable_irq h) AND 1 = 1" "cpu_IM (enable_irq h) AND 1 = 1"
  "spll_n_chan_ref (enable_irq h) = spll_n_chan_ref h" "spll_n_chan_out (enable_irq h) = spll_n_chan_out h"
  "r_OCER (enable_irq h) = r_OCER h" "r_RCER (enable_irq h) = r_RCER h" "r_TRR (enable_irq h) = r_TRR h"
  "p_ESCR (enable_irq h) = p_ESCR h" "r_OCCR (enable_irq h) = r_OCCR h"
  by (simp_all add: enable_irq_def Let_def and.assoc bit_eq_iff bit_simps)

lemma spll_init_ok:
  assumes "init_fits s h" "mode \<in> {1, 2, 3, 4}"
    and "mode = SPLL_MODE_GRAND_MASTER \<longrightarrow> h_ECCR h AND SPLL_ECCR_EXT_SUPPORTED \<noteq> 0"
  shows "\<exists>s' h'. spll_init b mode ref al s h = Some (s', h') \<and> sp_wf s' h' \<and> sp_mode s' = mode \<and>
    sp_seq_state s' \<in> mode_states mode \<and>
    sp_seq_state s' = (if mode = SPLL_MODE_DISABLED then SEQ_DISABLED else SEQ_CLEAR_DACS) \<and>
    r_TRR h' = [] \<and> r_OCER h' = 1 \<and> r_RCER h' = 0 \<and> cpu_IE h' AND 1 = 1 \<and>
    (\<forall>i. 0 \<le> i \<and> i < spll_n_chan_out h' - 1 \<longrightarrow> au_seq_state (sp_aux s' ! nat i) = AUX_DISABLED)"
proof -
  define nr where "nr = uint (gen_read (r_CSR h) 8 6)"
  define no where "no = uint (gen_read (r_CSR h) 16 3)"
  define h0 where "h0 = init_regs b ((disable_irq h)\<lparr>spll_n_chan_ref := nr, spll_n_chan_out := no\<rparr>)"
  define s0 where "s0 = init_plls b mode ref al (s\<lparr>sp_mode := mode, sp_delock_count := 0\<rparr>) h0"
  have h0: "spll_n_chan_ref h0 = nr" "spll_n_chan_out h0 = no" "r_OCER h0 = 0" "r_RCER h0 = 0"
    by (simp_all add: h0_def init_regs_def)
  have s0: "sp_mode s0 = mode" "sp_aux s0 = sp_aux s" "sp_ptrackers s0 = sp_ptrackers s"
    "sp_seq_state s0 = (if mode = SPLL_MODE_DISABLED then SEQ_DISABLED else SEQ_CLEAR_DACS)"
    by (simp_all add: s0_def init_plls_def Let_def)
  have fits: "0 \<le> nr" "nr \<le> int (length (sp_ptrackers s))" "no - 1 \<le> int (length (sp_aux s))"
    using assms(1) by (simp_all add: init_fits_def nr_def no_def)
  obtain s1 aux where s1: "for_loop 0 (no - 1) (init_aux b ref h0) s0 = Some s1"
    "s1 = s0\<lparr>sp_aux := aux\<rparr>" "length aux = length (sp_aux s)"
    "\<forall>i. 0 \<le> i \<and> i < no - 1 \<longrightarrow> au_seq_state (aux ! nat i) = AUX_DISABLED"
    using init_aux_loop [of no s0 b ref h0] fits s0 by auto
  obtain s2 ps where s2: "for_loop 0 nr init_tracker s1 = Some s2" "s2 = s1\<lparr>sp_ptrackers := ps\<rparr>" "length ps = length (sp_ptrackers s)"
     "\<forall>i. 0 \<le> i \<and> i < nr \<longrightarrow> pt_wf (ps ! nat i)"
    using init_trackers_loop [of nr s1] fits s0 by (auto simp: s1(2))
  have name: "\<exists>v. aget spll_modes mode = Some v"
    using assms(2) by (auto simp: aget_def spll_modes_def)
  have gm: "\<not> (mode = SPLL_MODE_GRAND_MASTER \<and> rd_ECCR h0 AND SPLL_ECCR_EXT_SUPPORTED = 0)"
    using assms(3) by (simp add: rd_ECCR_bits h0_def init_regs_def disable_irq_def)
  define h1 where "h1 = (if mode = SPLL_MODE_FREE_RUNNING_MASTER
    then h0\<lparr>p_ESCR := PPSG_ESCR_PPS_VALID OR PPSG_ESCR_TM_VALID\<rparr> else h0)"
  define h2 where "h2 = enable_irq (h1\<lparr>r_TRR := [], r_EIC_IER := 1, r_OCER := r_OCER h1 OR 1\<rparr>)"
  have h1: "spll_n_chan_ref h1 = nr" "spll_n_chan_out h1 = no" "r_OCER h1 = 0" "r_RCER h1 = 0"
    using h0 by (simp_all add: h1_def)
  have "spll_init b mode ref al s h = Some (s2, h2)"
    unfolding spll_init_def Let_def
    using gm s1(1) s2(1) name h0 h1
    by (auto simp: nr_def [symmetric] no_def [symmetric] h0_def [symmetric] s0_def [symmetric]
        h1_def h2_def disable_irq_def [THEN arg_cong [where f = r_CSR]])
  moreover have "sp_wf s2 h2"
    using fits s1 s2 s0 h1 by (simp add: sp_wf_def h2_def)
  moreover have "sp_mode s2 = mode" "sp_seq_state s2 = sp_seq_state s0" "sp_aux s2 = aux"
    using s1 s2 s0 by simp_all
  moreover have "r_TRR h2 = []" "r_OCER h2 = 1" "r_RCER h2 = 0" "spll_n_chan_out h2 = no"
    "cpu_IE h2 AND 1 = 1" using h1 by (simp_all add: h2_def)
  moreover have "sp_seq_state s0 \<in> mode_states mode" using s0(4) by (simp add: mode_states_def)
  ultimately show ?thesis using s0(4) s1(4) by auto
qed

text \<open>
  C5. Initialisation succeeds exactly for the modes of the interface and leaves the SoftPLL
  ready to run: with channel counts that fit the arrays, and in grandmaster mode with external
  reference hardware, \<open>spll_init\<close> is defined for the modes \<open>1..4\<close>; it establishes the
  invariant of the interrupt handler with the sequencer at the start of the mode, empties the
  tag FIFO, enables the tags of the local channel only, disables every auxiliary clock and
  turns the interrupts on.
\<close>

theorem spll_init_establishes:
  assumes "init_fits s h" "mode \<in> {1, 2, 3, 4}"
    and "mode = SPLL_MODE_GRAND_MASTER \<longrightarrow> h_ECCR h AND SPLL_ECCR_EXT_SUPPORTED \<noteq> 0"
  shows "\<exists>s' h'. spll_init b mode ref al s h = Some (s', h') \<and> sp_wf s' h' \<and> sp_mode s' = mode \<and>
    sp_seq_state s' \<in> mode_states mode \<and>
    sp_seq_state s' = (if mode = SPLL_MODE_DISABLED then SEQ_DISABLED else SEQ_CLEAR_DACS) \<and>
    r_TRR h' = [] \<and> r_OCER h' = 1 \<and> r_RCER h' = 0 \<and> cpu_IE h' AND 1 = 1 \<and>
    (\<forall>i. 0 \<le> i \<and> i < spll_n_chan_out h' - 1 \<longrightarrow> au_seq_state (sp_aux s' ! nat i) = AUX_DISABLED)"
  by (rule spll_init_ok [OF assms])

lemma spll_init_establishes_witness:
  "\<forall>s h a p. \<exists>s' h'. spll_init board_wrc 3 0 0 (s\<lparr>sp_aux := [a, a], sp_ptrackers := [p]\<rparr>)
      (h\<lparr>r_CSR := 0x10100\<rparr>) = Some (s', h') \<and> sp_seq_state s' = SEQ_CLEAR_DACS"
proof (intro allI)
  fix s h a p
  have "init_fits (s\<lparr>sp_aux := [a, a], sp_ptrackers := [p]\<rparr>) (h\<lparr>r_CSR := 0x10100\<rparr>)"
    by (simp add: init_fits_def gen_read_def mask_eq_exp_minus_1 drop_bit_eq_div)
  from spll_init_establishes [OF this, of 3 board_wrc 0 0]
  show "\<exists>s' h'. spll_init board_wrc 3 0 0 (s\<lparr>sp_aux := [a, a], sp_ptrackers := [p]\<rparr>)
      (h\<lparr>r_CSR := 0x10100\<rparr>) = Some (s', h') \<and> sp_seq_state s' = SEQ_CLEAR_DACS"
    by auto
qed

text \<open>
  A mode outside the interface reads the table of mode names out of range, and grandmaster mode
  without the hardware returns with the interrupts off and the sequencer unchanged.
\<close>

lemma spll_init_bad_mode:
  "init_fits s h \<Longrightarrow> mode < 0 \<or> 4 < mode \<Longrightarrow> spll_init b mode ref al s h = None"
  by (auto simp: spll_init_def Let_def aget_None spll_modes_def bind_eq_None_conv)

lemma spll_init_no_gm_hardware:
  assumes "h_ECCR h AND SPLL_ECCR_EXT_SUPPORTED = 0"
  shows "\<exists>s' h'. spll_init b SPLL_MODE_GRAND_MASTER ref al s h = Some (s', h') \<and>
    sp_seq_state s' = sp_seq_state s \<and> cpu_IE h' AND 1 = 0 \<and> sp_mode s' = SPLL_MODE_GRAND_MASTER"
  using assms
  by (simp add: spll_init_def Let_def rd_ECCR_bits init_regs_def disable_irq_def and.assoc)

end
