(* ===== verification/Softpll_Aux.thy ===== *)
theory Softpll_Aux
  imports Softpll_Init
begin

text \<open>
  The auxiliary clocks of \<open>softpll_ng.c\<close>: the state machine of \<open>spll_update_aux_clocks\<close> and the
  lock bits it shows to the gateware in \<open>OCCR\<close>.
\<close>

section \<open>The lock bits\<close>

definition lock_bit :: "spll_hw \<Rightarrow> int \<Rightarrow> bool" where
  "lock_bit h ch \<longleftrightarrow> bit (r_OCCR h) (nat (8 + ch))"

lemma bit_lock_mask:
  assumes "0 \<le> ch" "ch < 8"
  shows "bit (gen_write (bit32 ch) 8 8) n \<longleftrightarrow> n = nat (8 + ch)"
proof -
  have "bit (gen_write (bit32 ch) 8 8) n \<longleftrightarrow> 8 \<le> n \<and> n < 32 \<and> n - 8 < 8 \<and> n - 8 = nat ch"
    using assms by (simp add: gen_write_def bit_push_bit_iff bit_and_iff bit_mask_iff bit_bit32)
      auto
  also have "\<dots> \<longleftrightarrow> n = nat (8 + ch)" using assms by (auto simp: nat_add_distrib)
  finally show ?thesis .
qed

lemma ff_mask: "(0xff :: u32) = mask 8"
  by (simp add: mask_eq_exp_minus_1)

lemma lock_bit_set:
  assumes "0 \<le> ch" "ch < 8" "0 \<le> j" "j < 8"
  shows "lock_bit (aux_set_channel_status ch v h) j \<longleftrightarrow> (if j = ch then v \<noteq> 0 else lock_bit h j)"
proof -
  have n: "\<not> nat (8 + j) < 8" "nat (8 + j) < 32" using assms by simp_all
  have rd: "bit (rd_OCCR h) (nat (8 + j)) \<longleftrightarrow> lock_bit h j"
    using n by (simp add: rd_OCCR_def lock_bit_def ff_mask bit_or_iff bit_and_iff bit_not_iff bit_mask_iff)
  have eq: "nat (8 + j) = nat (8 + ch) \<longleftrightarrow> j = ch" using assms by auto
  show ?thesis
  proof (cases "v = 0")
    case True
    then show ?thesis using n rd eq assms(1,2)
      by (simp add: aux_set_channel_status_def lock_bit_def bit_and_iff bit_not_iff bit_lock_mask)
  next
    case False
    then show ?thesis using n rd eq assms(1,2)
      by (simp add: aux_set_channel_status_def lock_bit_def bit_or_iff bit_lock_mask)
  qed
qed

lemma aux_set_channel_status_frame [simp]:
  "spll_n_chan_ref (aux_set_channel_status ch v h) = spll_n_chan_ref h"
  "spll_n_chan_out (aux_set_channel_status ch v h) = spll_n_chan_out h"
  "h_OCCR (aux_set_channel_status ch v h) = h_OCCR h"
  by (simp_all add: aux_set_channel_status_def)

lemma lock_bit_frame [simp]:
  "lock_bit (mpll_stop p h) j = lock_bit h j"
  "lock_bit (snd (mpll_start p h)) j = lock_bit h j"
  "spll_n_chan_out (mpll_stop p h) = spll_n_chan_out h"
  "h_OCCR (mpll_stop p h) = h_OCCR h" "h_OCCR (snd (mpll_start p h)) = h_OCCR h"
  by (simp_all add: lock_bit_def mpll_stop_def mpll_start_def Let_def)

lemma aux_locking_frame:
  "h_OCCR h' = h_OCCR h \<Longrightarrow> aux_locking_enabled ch h' = aux_locking_enabled ch h"
proof -
  assume "h_OCCR h' = h_OCCR h"
  then have "gen_read (rd_OCCR h') 0 8 = gen_read (rd_OCCR h) 0 8"
    unfolding gen_read_def rd_OCCR_def ff_mask
    by (simp add: mixed_read)
  then show ?thesis by (simp add: aux_locking_enabled_def)
qed

section \<open>One channel\<close>

text \<open>The state of a channel and what a step may do to it.\<close>

definition aux_chan :: "softpll_state \<Rightarrow> int \<Rightarrow> aux_state" where
  "aux_chan s ch = au_seq_state (sp_aux s ! nat (ch - 1))"

definition aux_frame :: "int \<Rightarrow> softpll_state \<times> spll_hw \<Rightarrow> softpll_state \<times> spll_hw \<Rightarrow> bool" where
  "aux_frame ch = (\<lambda>(s, h) (s', h'). length (sp_aux s') = length (sp_aux s) \<and>
     spll_n_chan_out h' = spll_n_chan_out h \<and> h_OCCR h' = h_OCCR h \<and>
     (\<forall>j. 1 \<le> j \<and> j \<le> 7 \<and> j \<noteq> ch \<longrightarrow> aux_chan s' j = aux_chan s j \<and> lock_bit h' j = lock_bit h j))"

lemma aux_frame_trans: "aux_frame ch a b \<Longrightarrow> aux_frame ch b c \<Longrightarrow> aux_frame ch a c"
  by (auto simp: aux_frame_def)

lemma aux_frame_refl [simp]: "aux_frame ch a a"
  by (auto simp: aux_frame_def)

definition chan_fits :: "int \<Rightarrow> softpll_state \<Rightarrow> bool" where
  "chan_fits ch s \<longleftrightarrow> 1 \<le> ch \<and> ch \<le> 7 \<and> ch - 1 < int (length (sp_aux s))"

lemma chan_fits_frame: "chan_fits ch s \<Longrightarrow> aux_frame c (s, h) (s', h') \<Longrightarrow> chan_fits ch s'"
  by (simp add: chan_fits_def aux_frame_def)

lemma chan_index:
  assumes "chan_fits ch s"
  shows "nat (ch - 1) < length (sp_aux s)" "1 \<le> j \<Longrightarrow> j \<noteq> ch \<Longrightarrow> nat (ch - 1) \<noteq> nat (j - 1)"
    "aget (sp_aux s) (ch - 1) = Some (sp_aux s ! nat (ch - 1))"
  using assms by (auto simp: chan_fits_def nat_less_iff aget_Some)

lemma set_aux_seq_step:
  assumes "chan_fits ch s"
  shows "\<exists>s'. set_aux_seq (ch - 1) q s = Some s' \<and> aux_chan s' ch = q \<and>
    (\<forall>h. aux_frame ch (s, h) (s', h))"
  using assms chan_index [OF assms]
  by (auto simp: set_aux_seq_ok aux_chan_def aux_frame_def chan_fits_def)

lemma set_aux_dmtd_step:
  assumes "chan_fits ch s"
  shows "\<exists>s'. set_aux_dmtd (ch - 1) p s = Some s' \<and> aux_chan s' ch = aux_chan s ch \<and>
    (\<forall>h. aux_frame ch (s, h) (s', h))"
  using assms chan_index [OF assms]
  by (auto simp: set_aux_dmtd_ok aux_chan_def aux_frame_def chan_fits_def)

lemma set_phase_shift_step:
  assumes "chan_fits ch s"
  shows "\<exists>s'. set_phase_shift b fp ch v s = Some s' \<and> aux_chan s' ch = aux_chan s ch \<and>
    (\<forall>h. aux_frame ch (s, h) (s', h))"
proof -
  let ?p = "mpll_set_phase_shift (au_dmtd (sp_aux s ! nat (ch - 1))) (fp v sdiv dmtd_div b)"
  from set_aux_dmtd_step [OF assms, of ?p] obtain s1 where
    s1: "set_aux_dmtd (ch - 1) ?p s = Some s1" "aux_chan s1 ch = aux_chan s ch"
      "\<forall>h. aux_frame ch (s, h) (s1, h)" by blast
  have "ch \<noteq> 0" using assms by (simp add: chan_fits_def)
  then have "set_phase_shift b fp ch v s = Some (s1\<lparr>sp_mpll_shift_ps := v\<rparr>)"
    using s1(1) chan_index(3) [OF assms] by (simp add: set_phase_shift_def Let_def)
  then show ?thesis using s1 by (auto simp: aux_chan_def aux_frame_def)
qed

lemma aux_frame_hw:
  assumes "spll_n_chan_out h' = spll_n_chan_out h" "h_OCCR h' = h_OCCR h"
    and "\<forall>j. 1 \<le> j \<and> j \<le> 7 \<and> j \<noteq> ch \<longrightarrow> lock_bit h' j = lock_bit h j"
  shows "aux_frame ch (s, h) (s, h')"
  using assms by (simp add: aux_frame_def)

lemma start_channel_step:
  assumes "chan_fits ch s"
  shows "\<exists>s' h'. spll_start_channel ch s h = Some (s', h') \<and> aux_chan s' ch = aux_chan s ch \<and>
    lock_bit h' ch = lock_bit h ch \<and> aux_frame ch (s, h) (s', h')"
proof (cases "sp_seq_state s = SEQ_READY")
  case False
  then show ?thesis by (simp add: spll_start_channel_def)
next
  case True
  let ?p = "mpll_start (au_dmtd (sp_aux s ! nat (ch - 1))) h"
  from set_aux_dmtd_step [OF assms, of "fst ?p"] obtain s1 where
    s1: "set_aux_dmtd (ch - 1) (fst ?p) s = Some s1" "aux_chan s1 ch = aux_chan s ch"
      "\<forall>h. aux_frame ch (s, h) (s1, h)" by blast
  have "ch \<noteq> 0" using assms by (simp add: chan_fits_def)
  then have "spll_start_channel ch s h = Some (s1, snd ?p)"
    using True s1(1) chan_index(3) [OF assms] by (simp add: spll_start_channel_def case_prod_beta)
  moreover have "aux_frame ch (s1, h) (s1, snd ?p)"
    by (rule aux_frame_hw) simp_all
  ultimately show ?thesis using s1 by (auto intro: aux_frame_trans)
qed

definition chan_ok :: "int \<Rightarrow> softpll_state \<times> spll_hw \<Rightarrow> bool" where
  "chan_ok ch = (\<lambda>(s, h). lock_bit h ch \<longleftrightarrow> aux_chan s ch = AUX_READY)"

text \<open>Showing a state to the gateware: the lock bit and the new state go together.\<close>

lemma show_state_step:
  assumes fits: "chan_fits ch s" and v: "v \<noteq> 0 \<longleftrightarrow> q = AUX_READY"
  shows "\<exists>s'. set_aux_seq (ch - 1) q s = Some s' \<and> aux_chan s' ch = q \<and>
    aux_frame ch (s, h) (s', aux_set_channel_status ch v h) \<and>
    chan_ok ch (s', aux_set_channel_status ch v h)"
proof -
  have ch: "0 \<le> ch" "ch < 8" using fits by (simp_all add: chan_fits_def)
  from set_aux_seq_step [OF fits, of q] obtain s1 where
    s1: "set_aux_seq (ch - 1) q s = Some s1" "aux_chan s1 ch = q"
      "\<forall>h. aux_frame ch (s, h) (s1, h)" by blast
  have "aux_frame ch (s1, h) (s1, aux_set_channel_status ch v h)"
    by (rule aux_frame_hw) (use ch in \<open>simp_all add: lock_bit_set\<close>)
  then show ?thesis using s1 ch v
    by (auto simp: chan_ok_def lock_bit_set intro: aux_frame_trans)
qed

lemma aux_check_enable_step:
  assumes fits: "chan_fits ch s" and ok: "chan_ok ch (s, h)"
  shows "\<exists>s' h'. aux_check_enable ch (s, h) = Some (s', h') \<and> aux_frame ch (s, h) (s', h') \<and>
    chan_ok ch (s', h') \<and> (\<not> aux_locking_enabled ch h \<longrightarrow> aux_chan s' ch = AUX_DISABLED)"
proof (cases "aux_chan s ch \<noteq> AUX_DISABLED \<and> \<not> aux_locking_enabled ch h")
  case False
  then show ?thesis using ok chan_index(3) [OF fits]
    by (auto simp: aux_check_enable_def aux_chan_def)
next
  case True
  define h1 where "h1 = mpll_stop (au_dmtd (sp_aux s ! nat (ch - 1))) h"
  have stop: "spll_stop_channel ch s h = Some h1"
    using fits chan_index(3) [OF fits] by (simp add: spll_stop_channel_def h1_def chan_fits_def)
  from show_state_step [OF fits, of 0 AUX_DISABLED h1] obtain s2 where
    s2: "set_aux_seq (ch - 1) AUX_DISABLED s = Some s2" "aux_chan s2 ch = AUX_DISABLED"
      "aux_frame ch (s, h1) (s2, aux_set_channel_status ch 0 h1)"
      "chan_ok ch (s2, aux_set_channel_status ch 0 h1)" by auto
  have "aux_frame ch (s, h) (s, h1)"
    by (rule aux_frame_hw) (simp_all add: h1_def)
  then have "aux_frame ch (s, h) (s2, aux_set_channel_status ch 0 h1)"
    using s2(3) by (rule aux_frame_trans)
  moreover have "aux_check_enable ch (s, h) = Some (s2, aux_set_channel_status ch 0 h1)"
    using True stop s2(1) chan_index(3) [OF fits]
    by (simp add: aux_check_enable_def aux_chan_def Let_def)
  ultimately show ?thesis using s2 by blast
qed

lemma aux_fsm_step:
  assumes fits: "chan_fits ch s" and ok: "chan_ok ch (s, h)"
  shows "\<exists>s' h'. aux_fsm b fp ch (s, h) = Some (s', h') \<and> aux_frame ch (s, h) (s', h') \<and>
    chan_ok ch (s', h') \<and>
    (\<not> aux_locking_enabled ch h \<and> aux_chan s ch = AUX_DISABLED \<longrightarrow> aux_chan s' ch = AUX_DISABLED)"
proof -
  note idx = chan_index(3) [OF fits]
  note q = aux_chan_def [of s ch, symmetric]
  show ?thesis
  proof (cases "aux_chan s ch")
    case AUX_NONE
    then show ?thesis using ok idx q by (simp add: aux_fsm_def)
  next
    case AUX_DISABLED
    from start_channel_step [OF fits, of h] obtain s1 h1 where
      s1: "spll_start_channel ch s h = Some (s1, h1)" "aux_chan s1 ch = aux_chan s ch"
        "lock_bit h1 ch = lock_bit h ch" "aux_frame ch (s, h) (s1, h1)" by blast
    from set_aux_seq_step [OF chan_fits_frame [OF fits s1(4)], of AUX_LOCK_PLL] obtain s2 where
      s2: "set_aux_seq (ch - 1) AUX_LOCK_PLL s1 = Some s2" "aux_chan s2 ch = AUX_LOCK_PLL"
        "\<forall>h. aux_frame ch (s1, h) (s2, h)" by blast
    have "chan_ok ch (s2, h1)" using ok s1 s2 AUX_DISABLED by (simp add: chan_ok_def)
    moreover have "aux_frame ch (s, h) (s2, h1)" using s1(4) s2(3) by (blast intro: aux_frame_trans)
    ultimately show ?thesis using ok idx q AUX_DISABLED s1(1) s2(1) by (auto simp: aux_fsm_def)
  next
    case AUX_LOCK_PLL
    from set_phase_shift_step [OF fits, of b fp "sp_mpll_shift_ps s"] obtain s1 where
      s1: "set_phase_shift b fp ch (sp_mpll_shift_ps s) s = Some s1" "aux_chan s1 ch = aux_chan s ch"
        "\<forall>h. aux_frame ch (s, h) (s1, h)" by blast
    have fits1: "chan_fits ch s1" using chan_fits_frame [OF fits] s1(3) by blast
    from set_aux_seq_step [OF fits1, of AUX_ALIGN_PHASE] obtain s2 where
      s2: "set_aux_seq (ch - 1) AUX_ALIGN_PHASE s1 = Some s2" "aux_chan s2 ch = AUX_ALIGN_PHASE"
        "\<forall>h. aux_frame ch (s1, h) (s2, h)" by blast
    have "chan_ok ch (s2, h)" using ok s2 AUX_LOCK_PLL by (simp add: chan_ok_def)
    moreover have "aux_frame ch (s, h) (s2, h)" using s1(3) s2(3) by (blast intro: aux_frame_trans)
    ultimately show ?thesis using ok idx q AUX_LOCK_PLL s1(1) s2(1) by (auto simp: aux_fsm_def)
  next
    case AUX_ALIGN_PHASE
    from show_state_step [OF fits, of 1 AUX_READY h] obtain s2 where
      "set_aux_seq (ch - 1) AUX_READY s = Some s2" "aux_chan s2 ch = AUX_READY"
      "aux_frame ch (s, h) (s2, aux_set_channel_status ch 1 h)"
      "chan_ok ch (s2, aux_set_channel_status ch 1 h)" by auto
    then show ?thesis using ok idx q AUX_ALIGN_PHASE by (auto simp: aux_fsm_def Let_def)
  next
    case AUX_READY
    from show_state_step [OF fits, of 0 AUX_DISABLED h] obtain s2 where
      "set_aux_seq (ch - 1) AUX_DISABLED s = Some s2" "aux_chan s2 ch = AUX_DISABLED"
      "aux_frame ch (s, h) (s2, aux_set_channel_status ch 0 h)"
      "chan_ok ch (s2, aux_set_channel_status ch 0 h)" by auto
    then show ?thesis using ok idx q AUX_READY by (auto simp: aux_fsm_def Let_def)
  qed
qed

lemma aux_step_ok:
  assumes fits: "chan_fits ch s" and ok: "chan_ok ch (s, h)"
  shows "\<exists>s' h'. aux_step b fp ch (s, h) = Some (s', h') \<and> aux_frame ch (s, h) (s', h') \<and>
    chan_ok ch (s', h') \<and> (\<not> aux_locking_enabled ch h \<longrightarrow> aux_chan s' ch = AUX_DISABLED)"
proof -
  from aux_check_enable_step [OF assms] obtain s1 h1 where
    s1: "aux_check_enable ch (s, h) = Some (s1, h1)" "aux_frame ch (s, h) (s1, h1)"
      "chan_ok ch (s1, h1)" "\<not> aux_locking_enabled ch h \<longrightarrow> aux_chan s1 ch = AUX_DISABLED" by blast
  from aux_fsm_step [OF chan_fits_frame [OF fits s1(2)] s1(3), of b fp] obtain s2 h2 where
    s2: "aux_fsm b fp ch (s1, h1) = Some (s2, h2)" "aux_frame ch (s1, h1) (s2, h2)"
      "chan_ok ch (s2, h2)"
      "\<not> aux_locking_enabled ch h1 \<and> aux_chan s1 ch = AUX_DISABLED \<longrightarrow> aux_chan s2 ch = AUX_DISABLED"
    by blast
  have "aux_locking_enabled ch h1 = aux_locking_enabled ch h"
    by (rule aux_locking_frame) (use s1(2) in \<open>simp add: aux_frame_def\<close>)
  then show ?thesis
    using s1 s2 aux_frame_trans [OF s1(2) s2(2)] by (auto simp: aux_step_def)
qed

section \<open>All channels\<close>

text \<open>
  C6. The lock bit the gateware sees is the state of the auxiliary clock: if for every
  auxiliary output the bit in \<open>OCCR\<close> is set exactly when its state is \<open>AUX_READY\<close>, this still
  holds after \<open>spll_update_aux_clocks\<close>, which never accesses the channels out of range; a
  channel whose enable bit is off is afterwards disabled and shown unlocked.
\<close>

theorem aux_lock_bits_tell_state:
  assumes "spll_n_chan_out h \<le> 8" "spll_n_chan_out h - 1 \<le> int (length (sp_aux s))"
    and "\<forall>ch. 1 \<le> ch \<and> ch < spll_n_chan_out h \<longrightarrow> (lock_bit h ch \<longleftrightarrow> aux_chan s ch = AUX_READY)"
  shows "\<exists>s' h'. spll_update_aux_clocks b fp s h = Some (s', h') \<and>
    (\<forall>ch. 1 \<le> ch \<and> ch < spll_n_chan_out h \<longrightarrow>
      (lock_bit h' ch \<longleftrightarrow> aux_chan s' ch = AUX_READY) \<and>
      (\<not> aux_locking_enabled ch h \<longrightarrow> aux_chan s' ch = AUX_DISABLED \<and> \<not> lock_bit h' ch))"
proof (cases "1 \<le> spll_n_chan_out h")
  case False
  then show ?thesis by (auto simp: spll_update_aux_clocks_def)
next
  case True
  let ?n = "spll_n_chan_out h"
  define P where "P = (\<lambda>i. \<lambda>(s', h'). length (sp_aux s') = length (sp_aux s) \<and> h_OCCR h' = h_OCCR h \<and>
    (\<forall>ch. 1 \<le> ch \<and> ch < ?n \<longrightarrow> chan_ok ch (s', h')) \<and>
    (\<forall>ch. 1 \<le> ch \<and> ch < i \<longrightarrow> \<not> aux_locking_enabled ch h \<longrightarrow> aux_chan s' ch = AUX_DISABLED))"
  have "\<exists>r. for_loop 1 ?n (aux_step b fp) (s, h) = Some r \<and> P ?n r"
  proof (rule for_loop_inv)
    show "P 1 (s, h)" using assms(3) by (auto simp: P_def chan_ok_def)
    show "1 \<le> ?n" by fact
    fix j and sh :: "softpll_state \<times> spll_hw"
    assume j: "1 \<le> j" "j < ?n" and P: "P j sh"
    obtain s1 h1 where sh: "sh = (s1, h1)" by (cases sh)
    have fits: "chan_fits j s1" and ok: "chan_ok j (s1, h1)"
      using P j assms(1,2) by (simp_all add: P_def sh chan_fits_def)
    from aux_step_ok [OF this, of b fp] obtain s2 h2 where
      s2: "aux_step b fp j (s1, h1) = Some (s2, h2)" "aux_frame j (s1, h1) (s2, h2)"
        "chan_ok j (s2, h2)" "\<not> aux_locking_enabled j h1 \<longrightarrow> aux_chan s2 j = AUX_DISABLED" by blast
    have en: "aux_locking_enabled j h1 = aux_locking_enabled j h"
      using P by (intro aux_locking_frame) (simp add: P_def sh)
    have "chan_ok ch (s2, h2)" if "1 \<le> ch" "ch < ?n" for ch
      using that s2(2,3) P assms(1) by (cases "ch = j") (auto simp: P_def sh chan_ok_def aux_frame_def)
    moreover have "aux_chan s2 ch = AUX_DISABLED" if "1 \<le> ch" "ch < j + 1" "\<not> aux_locking_enabled ch h" for ch
      using that s2(2,4) P assms(1) j en by (cases "ch = j") (auto simp: P_def sh aux_frame_def)
    ultimately have "P (j + 1) (s2, h2)" using s2(2) P by (auto simp: P_def sh aux_frame_def)
    then show "\<exists>r. aux_step b fp j sh = Some r \<and> P (j + 1) r" using s2(1) sh by auto
  qed
  then obtain s' h' where "for_loop 1 ?n (aux_step b fp) (s, h) = Some (s', h')" "P ?n (s', h')" by auto
  then show ?thesis by (auto simp: spll_update_aux_clocks_def P_def chan_ok_def)
qed

lemma aux_lock_bits_tell_state_witness:
  "\<forall>s h a. \<exists>s' h'. spll_update_aux_clocks board_wrc (from_picos board_wrc)
     (s\<lparr>sp_aux := [a\<lparr>au_seq_state := AUX_LOCK_PLL\<rparr>]\<rparr>)
     (h\<lparr>spll_n_chan_out := 2, r_OCCR := 0, h_OCCR := 0\<rparr>) = Some (s', h') \<and>
     aux_chan s' 1 = AUX_DISABLED"
proof (intro allI)
  fix s :: softpll_state and h :: spll_hw and a :: spll_aux_state
  let ?s = "s\<lparr>sp_aux := [a\<lparr>au_seq_state := AUX_LOCK_PLL\<rparr>]\<rparr>"
  let ?h = "h\<lparr>spll_n_chan_out := 2, r_OCCR := 0, h_OCCR := 0\<rparr>"
  have "\<not> aux_locking_enabled 1 ?h" by (simp add: aux_locking_enabled_def gen_read_def rd_OCCR_def)
  moreover have "ch = 1" if "1 \<le> ch" "ch < 2" for ch :: int using that by simp
  ultimately show "\<exists>s' h'. spll_update_aux_clocks board_wrc (from_picos board_wrc) ?s ?h = Some (s', h') \<and>
     aux_chan s' 1 = AUX_DISABLED"
    using aux_lock_bits_tell_state [of ?h ?s board_wrc "from_picos board_wrc"]
    by (auto simp: lock_bit_def aux_chan_def)
qed

text \<open>
  \<open>spll_start_channel\<close> refuses when the sequencer is not ready, but the state machine moves on:
  the channel is then in \<open>AUX_LOCK_PLL\<close> with a PLL that was never started.
\<close>

lemma aux_starts_without_pll:
  assumes "chan_fits ch s" "aux_chan s ch = AUX_DISABLED" "sp_seq_state s \<noteq> SEQ_READY"
    and "ld_locked (mp_ld (sp_mpll s)) \<noteq> 0" "aux_locking_enabled ch h"
  shows "\<exists>s'. aux_fsm b fp ch (s, h) = Some (s', h) \<and> aux_chan s' ch = AUX_LOCK_PLL"
  using assms chan_index(3) [OF assms(1)] set_aux_seq_step [OF assms(1), of AUX_LOCK_PLL]
  by (auto simp: aux_fsm_def aux_chan_def spll_start_channel_def)

end
