(* ===== verification/Bytes.thy ===== *)
theory Bytes
  imports Prelude
begin

text \<open>
  Memory images. The target CPU (LM32) is big endian: \<open>be_bytes n v\<close> is what \<open>memcpy\<close> takes
  out of an \<open>n\<close>-byte unsigned integer of value \<open>v\<close>, \<open>be_val\<close> the value of a byte string put
  into one. \<open>ring_read\<close> reads a byte string out of a circular buffer.
\<close>

fun be_bytes :: "nat \<Rightarrow> nat \<Rightarrow> u8 list" where
  "be_bytes 0 v = []"
| "be_bytes (Suc n) v = be_bytes n (v div 256) @ [word_of_nat v]"

definition be_val :: "u8 list \<Rightarrow> nat" where
  "be_val bs = foldl (\<lambda>a b. a * 256 + unat b) 0 bs"

lemma length_be_bytes [simp]: "length (be_bytes n v) = n"
  by (induction n arbitrary: v) auto

lemma be_bytes_2: "be_bytes 2 v = [word_of_nat (v div 256), word_of_nat v]"
  unfolding numeral_2_eq_2 by simp

lemma be_bytes_4: "be_bytes 4 v = [word_of_nat (v div 256 div 256 div 256),
    word_of_nat (v div 256 div 256), word_of_nat (v div 256), word_of_nat v]"
proof -
  have "(4 :: nat) = Suc (Suc 2)" by simp
  then show ?thesis by (simp only: be_bytes.simps be_bytes_2) simp
qed

lemma be_val_Nil [simp]: "be_val [] = 0"
  by (simp add: be_val_def)

lemma be_val_snoc [simp]: "be_val (bs @ [b]) = be_val bs * 256 + unat b"
  by (simp add: be_val_def)

lemma be_val_single [simp]: "be_val [b] = unat b"
  using be_val_snoc [of "[]" b] by simp

lemma be_val_two: "be_val [a, b] = unat a * 256 + unat b"
  using be_val_snoc [of "[a]" b] by simp

lemma be_val_four:
  "be_val [a, b, c, d] = ((unat a * 256 + unat b) * 256 + unat c) * 256 + unat d"
  by (simp add: be_val_def)

lemma unat_u8_of_nat [simp]: "unat (word_of_nat v :: u8) = v mod 256"
  by (simp add: unat_of_nat)

lemma be_val_bytes: "be_val (be_bytes n v) = v mod 256 ^ n"
proof (induction n arbitrary: v)
  case (Suc n)
  then show ?case
    using mod_mult2_eq [of v 256 "256 ^ n"] by (simp add: mult.commute)
qed simp

lemma be_val_bytes_id [simp]: "v < 256 ^ n \<Longrightarrow> be_val (be_bytes n v) = v"
  by (simp add: be_val_bytes)

lemma be_val_less: "be_val bs < 256 ^ length bs"
proof (induction bs rule: rev_induct)
  case (snoc b bs)
  have "unat b < 256" using unsigned_less [of b] by simp
  with snoc show ?case by simp
qed simp

lemma be_bytes_inj: "be_bytes n v = be_bytes n w \<Longrightarrow> v < 256 ^ n \<Longrightarrow> w < 256 ^ n \<Longrightarrow> v = w"
  by (metis be_val_bytes_id)

lemma be_bytes_val [simp]: "be_bytes (length bs) (be_val bs) = bs"
proof (induction bs rule: rev_induct)
  case (snoc b bs)
  have b: "unat b < 256" using unsigned_less [of b] by simp
  then have "(be_val bs * 256 + unat b) div 256 = be_val bs" by simp
  moreover have "word_of_nat (be_val bs * 256 + unat b) = b"
    unfolding word_unat_eq_iff unat_u8_of_nat using b by simp
  ultimately show ?case using snoc by simp
qed (simp add: be_val_def)

text \<open>A property of bytes holds when it holds of all 256.\<close>

lemma byte_exhaust: "list_all (\<lambda>n. P (word_of_nat n :: u8)) [0..<256] \<Longrightarrow> P b"
  using unsigned_less [of b] by (auto simp: list_all_iff dest: bspec [of _ _ "unat b"])

text \<open>The value of a masked word.\<close>

lemma unat_and_mask: "unat (w AND mask n) = unat w mod 2 ^ n"
  unfolding take_bit_eq_mask [symmetric] unsigned_take_bit_eq by (rule take_bit_eq_mod)

subsection \<open>Circular buffers\<close>

definition ring_read :: "nat \<Rightarrow> 'a list \<Rightarrow> nat \<Rightarrow> nat \<Rightarrow> 'a list" where
  "ring_read N buf off n = map (\<lambda>i. buf ! ((off + i) mod N)) [0..<n]"

lemma length_ring_read [simp]: "length (ring_read N buf off n) = n"
  by (simp add: ring_read_def)

lemma ring_read_0 [simp]: "ring_read N buf off 0 = []"
  by (simp add: ring_read_def)

lemma ring_read_Suc: "ring_read N buf off (Suc n) = buf ! (off mod N) # ring_read N buf (Suc off) n"
  by (rule nth_equalityI) (auto simp: ring_read_def nth_Cons split: nat.split simp del: upt_Suc)

lemma ring_read_mod [simp]: "ring_read N buf (off mod N) n = ring_read N buf off n"
  by (simp add: ring_read_def mod_add_left_eq)

lemma ring_read_snoc:
  "ring_read N buf off (Suc n) = ring_read N buf off n @ [buf ! ((off + n) mod N)]"
  by (simp add: ring_read_def)

lemma ring_read_append:
  "ring_read N buf off (m + n) = ring_read N buf off m @ ring_read N buf (off + m) n"
  by (induction n) (simp_all add: ring_read_snoc add.assoc)

lemma ring_read_take: "m \<le> n \<Longrightarrow> take m (ring_read N buf off n) = ring_read N buf off m"
  by (simp add: ring_read_def take_map)

lemma ring_read_nth [simp]: "i < n \<Longrightarrow> ring_read N buf off n ! i = buf ! ((off + i) mod N)"
  by (simp add: ring_read_def)

lemma ring_read_linear:
  "off + n \<le> N \<Longrightarrow> length buf = N \<Longrightarrow> ring_read N buf off n = take n (drop off buf)"
  by (rule nth_equalityI) auto

text \<open>A position outside the part that is read does not matter.\<close>

lemma ring_mod_inj:
  assumes "i < (N :: nat)" "j < N" "(off + i) mod N = (off + j) mod N" shows "i = j"
proof -
  have "int N dvd int (off + i) - int (off + j)"
    using assms(3) by (metis mod_eq_dvd_iff of_nat_mod)
  then have "int N dvd int i - int j" by simp
  moreover have "\<bar>int i - int j\<bar> < int N" using assms by auto
  ultimately have "int i - int j = 0"
    by (metis dvd_imp_le_int not_less abs_of_nat)
  then show ?thesis by simp
qed

lemma ring_read_update_outside:
  assumes "length buf = N" "n \<le> k" "k < N"
  shows "ring_read N (buf[(off + k) mod N := v]) off n = ring_read N buf off n"
proof (rule nth_equalityI)
  fix i assume "i < length (ring_read N (buf[(off + k) mod N := v]) off n)"
  then have i: "i < n" by simp
  with assms have "(off + i) mod N \<noteq> (off + k) mod N" using ring_mod_inj [of i N k off] by auto
  with i show "ring_read N (buf[(off + k) mod N := v]) off n ! i = ring_read N buf off n ! i"
    by simp
qed simp

lemma ring_read_push:
  assumes "length buf = N" "k < N"
  shows "ring_read N (buf[(off + k) mod N := v]) off (Suc k) = ring_read N buf off k @ [v]"
proof -
  have "(off + k) mod N < length buf" using assms by simp
  then show ?thesis
    using ring_read_update_outside [OF assms(1) order_refl assms(2)] by (simp add: ring_read_snoc)
qed

subsection \<open>Copies in memory\<close>

text \<open>\<open>memcpy\<close> out of and into an array; a copy that leaves the array is undefined.\<close>

definition mem_get :: "'a list \<Rightarrow> nat \<Rightarrow> nat \<Rightarrow> 'a list option" where
  "mem_get buf off n = (if off + n \<le> length buf then Some (take n (drop off buf)) else None)"

definition mem_put :: "'a list \<Rightarrow> nat \<Rightarrow> 'a list \<Rightarrow> 'a list option" where
  "mem_put buf off bs = (if off + length bs \<le> length buf
     then Some (take off buf @ bs @ drop (off + length bs) buf) else None)"

lemma length_mem_put: "mem_put buf off bs = Some buf' \<Longrightarrow> length buf' = length buf"
  by (auto simp: mem_put_def split: if_splits)

lemma length_mem_get: "mem_get buf off n = Some bs \<Longrightarrow> length bs = n"
  by (auto simp: mem_get_def split: if_splits)

lemma mem_put_defined: "off + length bs \<le> length buf \<Longrightarrow> \<exists>buf'. mem_put buf off bs = Some buf'"
  by (simp add: mem_put_def)

lemma nth_mem_put:
  "mem_put buf off bs = Some buf' \<Longrightarrow> i < length buf \<Longrightarrow>
    buf' ! i = (if off \<le> i \<and> i < off + length bs then bs ! (i - off) else buf ! i)"
  by (auto simp: mem_put_def nth_append split: if_splits)

lemma mem_get_put_same: "mem_put buf off bs = Some buf' \<Longrightarrow> mem_get buf' off (length bs) = Some bs"
  by (auto simp: mem_get_def mem_put_def split: if_splits)

lemma mem_get_put_other:
  "mem_put buf off bs = Some buf' \<Longrightarrow> a + n \<le> off \<or> off + length bs \<le> a \<Longrightarrow>
    mem_get buf' a n = mem_get buf a n"
  using length_mem_put [of buf off bs buf']
  by (auto simp: mem_get_def nth_mem_put intro!: nth_equalityI)

end
