(* ===== verification/Pps_gen.thy ===== *)
theory Pps_gen
  imports Spll_Common Bytes
begin

text \<open>
  \<open>dev/pps_gen.c\<close>: the driver of the PPS generator, the clock every timestamp refers to. The
  gateware's counters are inputs of the model: every read of a counter register is a sample
  of the registers at that moment, so that the time may advance between any two reads.
\<close>

section \<open>The code\<close>

text \<open>
  The writes to the registers are listed in the order they are done; \<open>rd_CR\<close> and \<open>rd_ES\<close> are
  the values the hardware returns for \<open>CR\<close> and \<open>ESCR\<close>.
\<close>

datatype ppsg_reg = PPSG_CR | PPSG_ADJ_UTCLO | PPSG_ADJ_UTCHI | PPSG_ADJ_NSEC | PPSG_ESCR

type_synonym ppsg_write = "ppsg_reg \<times> u32"

abbreviation (input) PPSG_CR_CNT_ADJ :: u32 where "PPSG_CR_CNT_ADJ \<equiv> gen_mask 2 1"
abbreviation (input) PPSG_CR_CNT_SET :: u32 where "PPSG_CR_CNT_SET \<equiv> gen_mask 3 1"
abbreviation (input) PPSG_ESCR_SEC_SET :: u32 where "PPSG_ESCR_SEC_SET \<equiv> gen_mask 3 1"
abbreviation (input) PPSG_ESCR_NSEC_SET :: u32 where "PPSG_ESCR_NSEC_SET \<equiv> gen_mask 4 1"

abbreviation (input) PPSG_ADJUST_SEC :: int where "PPSG_ADJUST_SEC \<equiv> 1"
abbreviation (input) PPSG_ADJUST_NSEC :: int where "PPSG_ADJUST_NSEC \<equiv> 2"
abbreviation (input) PPSG_SET_SEC :: int where "PPSG_SET_SEC \<equiv> 1"
abbreviation (input) PPSG_SET_NSEC :: int where "PPSG_SET_NSEC \<equiv> 2"
abbreviation (input) PPSG_SET_ALL :: int where "PPSG_SET_ALL \<equiv> 3"

text \<open>A C \<open>int64_t\<close>.\<close>

definition s64 :: "int \<Rightarrow> int" where
  "s64 i = signed_take_bit 63 i"

lemma s64_small: "- (2 ^ 63) \<le> i \<Longrightarrow> i < 2 ^ 63 \<Longrightarrow> s64 i = i"
  unfolding s64_def by (simp add: signed_take_bit_int_eq_self_iff)

definition shw_pps_gen_init :: "board_cfg \<Rightarrow> ppsg_write list" where
  "shw_pps_gen_init b =
     (let cr = PPSG_CR_CNT_EN OR gen_write (to_u32 ((10 * 1000 * 1000) sdiv b_ns_per_clock b)) 4 28
      in [(PPSG_CR, cr), (PPSG_ADJ_UTCLO, 0), (PPSG_ADJ_UTCHI, 0), (PPSG_ADJ_NSEC, 0),
          (PPSG_CR, cr OR PPSG_CR_CNT_SET), (PPSG_CR, cr), (PPSG_ESCR, 0)])"

text \<open>The conversion of nanoseconds to clock cycles that \<open>adjust\<close> and \<open>set_time\<close> share.\<close>

definition ns_to_cycles :: "board_cfg \<Rightarrow> int \<Rightarrow> u32" where
  "ns_to_cycles b ns = word_of_int (s64 (ns * 1000) sdiv b_ref_clock_period_ps b)"

definition utc_lo :: "u64 \<Rightarrow> u32" where
  "utc_lo s = ucast (s AND mask 32)"

definition utc_hi :: "u64 \<Rightarrow> u32" where
  "utc_hi s = ucast (drop_bit 32 s) AND 0xff"

definition shw_pps_gen_adjust ::
  "board_cfg \<Rightarrow> int \<Rightarrow> int \<Rightarrow> u32 \<Rightarrow> int \<times> ppsg_write list" where
  "shw_pps_gen_adjust b counter how_much rd_CR =
     (0, (if counter = PPSG_ADJUST_NSEC
          then [(PPSG_ADJ_UTCLO, 0), (PPSG_ADJ_UTCHI, 0), (PPSG_ADJ_NSEC, ns_to_cycles b how_much)]
          else [(PPSG_ADJ_UTCLO, utc_lo (word_of_int how_much)),
                (PPSG_ADJ_UTCHI, utc_hi (word_of_int how_much)), (PPSG_ADJ_NSEC, 0)])
         @ [(PPSG_CR, rd_CR OR PPSG_CR_CNT_ADJ)])"

definition shw_pps_gen_set_time ::
  "board_cfg \<Rightarrow> u64 \<Rightarrow> u32 \<Rightarrow> int \<Rightarrow> u32 \<Rightarrow> u32 \<Rightarrow> ppsg_write list" where
  "shw_pps_gen_set_time b seconds nanoseconds counter rd_CR rd_ES =
     [(PPSG_ADJ_UTCLO, utc_lo seconds), (PPSG_ADJ_UTCHI, utc_hi seconds),
      (PPSG_ADJ_NSEC, ns_to_cycles b (uint nanoseconds))] @
     (if counter = PPSG_SET_ALL then [(PPSG_CR, (rd_CR AND 0xfffffffb) OR PPSG_CR_CNT_SET)]
      else if counter = PPSG_SET_SEC then [(PPSG_ESCR, (rd_ES AND 0xffffffe7) OR PPSG_ESCR_SEC_SET)]
      else if counter = PPSG_SET_NSEC then [(PPSG_ESCR, (rd_ES AND 0xffffffe7) OR PPSG_ESCR_NSEC_SET)]
      else [])"

text \<open>A sample of the counter registers.\<close>

record ppsg_cntr =
  CNTR_UTCLO :: u32
  CNTR_UTCHI :: u32
  CNTR_NSEC :: u32

text \<open>\<open>pps_get_utc\<close> reads the two halves of the seconds at two moments.\<close>

definition pps_get_utc :: "ppsg_cntr \<Rightarrow> ppsg_cntr \<Rightarrow> u64" where
  "pps_get_utc r1 r2 =
     (let low = CNTR_UTCLO r1; high = CNTR_UTCHI r2; high = high AND 0xFF
      in ucast low OR push_bit 32 (ucast high))"

text \<open>
  The loop of \<open>shw_pps_gen_get_time\<close>: five reads per turn. The list holds what the reads
  return; \<open>None\<close> means that it was too short for the loop to end.
\<close>

fun shw_pps_gen_get_time :: "board_cfg \<Rightarrow> ppsg_cntr list \<Rightarrow> (u64 \<times> u32) option" where
  "shw_pps_gen_get_time b (r1 # r2 # r3 # r4 # r5 # rs) =
     (let sec1 = pps_get_utc r1 r2;
          ns_cnt = CNTR_NSEC r3 AND 0xFFFFFFF;
          sec2 = pps_get_utc r4 r5
      in if sec2 \<noteq> sec1 then shw_pps_gen_get_time b rs
         else Some (sec2, word_of_int (uint ns_cnt * b_ref_clock_period_ps b sdiv 1000)))"
| "shw_pps_gen_get_time b rs = None"

text \<open>The result is 1 when the adjustment is not finished yet, as in the source.\<close>

definition shw_pps_gen_busy :: "u32 \<Rightarrow> int" where
  "shw_pps_gen_busy rd_CR = (if rd_CR AND PPSG_CR_CNT_ADJ \<noteq> 0 then 0 else 1)"

definition shw_pps_gen_enable_output :: "int \<Rightarrow> u32 \<Rightarrow> int \<times> ppsg_write list" where
  "shw_pps_gen_enable_output enable rd_ES =
     (0, [(PPSG_ESCR, if enable \<noteq> 0 then rd_ES OR (PPSG_ESCR_PPS_VALID OR PPSG_ESCR_TM_VALID)
                      else rd_ES AND NOT (PPSG_ESCR_PPS_VALID OR PPSG_ESCR_TM_VALID))])"

section \<open>Reading a clock that runs\<close>

text \<open>
  What the counters show at the time \<open>T\<close>, in clock cycles: the seconds have 40 bits, the bits
  of \<open>CNTR_UTCHI\<close> and \<open>CNTR_NSEC\<close> that are not part of a counter are arbitrary.
\<close>

definition clock_freq :: "board_cfg \<Rightarrow> nat" where
  "clock_freq b = nat (b_ref_clock_freq_hz b)"

definition counter_shows :: "board_cfg \<Rightarrow> nat \<Rightarrow> ppsg_cntr \<Rightarrow> bool" where
  "counter_shows b T r \<longleftrightarrow>
     unat (CNTR_UTCLO r) = (T div clock_freq b) mod 2 ^ 32 \<and>
     unat (CNTR_UTCHI r AND 0xFF) = (T div clock_freq b) div 2 ^ 32 \<and>
     unat (CNTR_NSEC r AND 0xFFFFFFF) = T mod clock_freq b"

lemma disjoint_or_add:
  fixes low high :: u32
  shows "unat (ucast low OR push_bit 32 (ucast (high AND 0xFF)) :: u64) =
    unat low + 2 ^ 32 * unat (high AND 0xFF)"
proof -
  let ?a = "ucast low :: u64" and ?b = "push_bit 32 (ucast (high AND 0xFF)) :: u64"
  have "\<not> bit ?a n \<or> \<not> bit ?b n" for n
    using bit_imp_le_length [of low n] by (auto simp: bit_simps)
  then have or: "?a OR ?b = ?a + ?b" by (simp add: disjunctive_add)
  have low: "unat low < 2 ^ 32" using unsigned_less [of low] by simp
  have high: "unat (high AND 0xFF) < 256"
  proof -
    have "high AND 0xFF = take_bit 8 high" by (simp add: take_bit_eq_mask mask_eq_exp_minus_1)
    then show ?thesis using take_bit_nat_less_exp [of 8 "unat high"] by (simp add: unsigned_take_bit_eq)
  qed
  have a: "unat ?a = unat low"
    using low by (simp add: unsigned_ucast_eq take_bit_nat_eq_self)
  have c: "unat (ucast (high AND 0xFF) :: u64) = unat (high AND 0xFF)"
    unfolding unsigned_ucast_eq by (rule take_bit_nat_eq_self) (use high in simp)
  have b: "unat ?b = 2 ^ 32 * unat (high AND 0xFF)"
    using high by (simp add: push_bit_eq_mult unat_word_ariths c)
  have "unat (?a + ?b) = unat ?a + unat ?b"
    using low high by (simp add: unat_word_ariths a b)
  then show ?thesis by (simp add: or a b)
qed

lemma unat_pps_get_utc:
  "unat (pps_get_utc r1 r2) = unat (CNTR_UTCLO r1) + 2 ^ 32 * unat (CNTR_UTCHI r2 AND 0xFF)"
  by (simp add: pps_get_utc_def Let_def disjoint_or_add)

text \<open>
  One turn of the loop: if the two readings of the seconds agree, the whole turn happened
  within that second, although low and high half were read at different times.
\<close>

lemma utc_reading:
  assumes "counter_shows b T1 r1" "counter_shows b T2 r2"
  shows "unat (pps_get_utc r1 r2) =
    (T1 div clock_freq b) mod 2 ^ 32 + 2 ^ 32 * ((T2 div clock_freq b) div 2 ^ 32)"
  using assms by (simp add: counter_shows_def unat_pps_get_utc)

lemma utc_reading_same:
  assumes "counter_shows b T1 r1" "counter_shows b T2 r2"
    "T1 div clock_freq b = s" "T2 div clock_freq b = s"
  shows "unat (pps_get_utc r1 r2) = s"
  by (simp only: utc_reading [OF assms(1,2)] assms(3,4)) (simp add: mod_mult_div_eq)

lemma seconds_span:
  fixes T T' F :: nat
  assumes "T' < T + F" "0 < F" shows "T' div F \<le> Suc (T div F)"
proof -
  have "T' div F \<le> (T + F) div F" using assms(1) by (intro div_le_mono) simp
  also have "\<dots> = Suc (T div F)" using assms(2) div_add_self2 [of F T] by simp
  finally show ?thesis .
qed

lemma half_words:
  assumes "m + 2 ^ 32 * h = m' + 2 ^ 32 * h'" "m < 2 ^ 32" "m' < (2 :: nat) ^ 32"
  shows "m = m' \<and> h = h'"
proof -
  have "(m + 2 ^ 32 * h) div 2 ^ 32 = h" "(m' + 2 ^ 32 * h') div 2 ^ 32 = h'"
    using assms(2,3) by auto
  then have "h = h'" using assms(1) by simp
  then show ?thesis using assms(1) by simp
qed

lemma half_words_mod:
  assumes "a mod 2 ^ 32 + 2 ^ 32 * h = b mod 2 ^ 32 + 2 ^ 32 * h'"
  shows "a mod 2 ^ 32 = (b :: nat) mod 2 ^ 32"
proof -
  have "a mod 2 ^ 32 < 2 ^ 32" "b mod 2 ^ 32 < 2 ^ 32" by (rule mod_less_divisor; simp)+
  from half_words [OF assms this] show ?thesis by (rule conjunct1)
qed

lemma mod_Suc_neq: "k mod 2 ^ 32 = Suc k mod 2 ^ 32 \<Longrightarrow> False"
  using mod_Suc [of k "2 ^ 32"] by (simp split: if_splits)

lemma agreeing_seconds:
  assumes "counter_shows b T1 r1" "counter_shows b T2 r2" "counter_shows b T4 r4"
    "counter_shows b T5 r5" "T1 \<le> T2" "T2 \<le> T4" "T4 \<le> T5" "T5 < T1 + clock_freq b"
    "0 < clock_freq b" "pps_get_utc r4 r5 = pps_get_utc r1 r2"
  shows "T4 div clock_freq b = T1 div clock_freq b \<and>
    unat (pps_get_utc r4 r5) = T1 div clock_freq b"
proof -
  let ?s1 = "T1 div clock_freq b" and ?s2 = "T2 div clock_freq b"
  let ?s4 = "T4 div clock_freq b" and ?s5 = "T5 div clock_freq b"
  have le: "?s1 \<le> ?s2" "?s2 \<le> ?s4" "?s4 \<le> ?s5" "?s5 \<le> Suc ?s1"
    using assms seconds_span [OF assms(8,9)] by (auto intro: div_le_mono)
  have "?s1 mod 2 ^ 32 + 2 ^ 32 * (?s2 div 2 ^ 32) = ?s4 mod 2 ^ 32 + 2 ^ 32 * (?s5 div 2 ^ 32)"
    using utc_reading [OF assms(1,2)] utc_reading [OF assms(3,4)] assms(10) by simp
  then have eq: "?s1 mod 2 ^ 32 = ?s4 mod 2 ^ 32"
    by (rule half_words_mod)
  have s4: "?s4 = ?s1"
  proof (rule ccontr)
    assume "?s4 \<noteq> ?s1"
    then have "?s4 = Suc ?s1" using le by linarith
    then have "?s1 mod 2 ^ 32 = Suc ?s1 mod 2 ^ 32" using eq by simp
    then show False by (rule mod_Suc_neq)
  qed
  then have "?s2 = ?s1" using le by linarith
  then have "unat (pps_get_utc r1 r2) = ?s1" using utc_reading_same [OF assms(1,2)] by simp
  then show ?thesis using s4 assms(10) by simp
qed

lemma same_second_agrees:
  assumes "counter_shows b T1 r1" "counter_shows b T2 r2" "counter_shows b T4 r4"
    "counter_shows b T5 r5" "T1 \<le> T2" "T2 \<le> T4" "T4 \<le> T5"
    "T5 div clock_freq b = T1 div clock_freq b"
  shows "pps_get_utc r4 r5 = pps_get_utc r1 r2"
proof -
  have "T1 div clock_freq b \<le> T2 div clock_freq b" "T2 div clock_freq b \<le> T4 div clock_freq b"
    "T4 div clock_freq b \<le> T5 div clock_freq b"
    using assms(5-7) by (auto intro: div_le_mono)
  then have "T2 div clock_freq b = T1 div clock_freq b" "T4 div clock_freq b = T1 div clock_freq b"
    using assms(8) by linarith+
  then show ?thesis
    using utc_reading_same [OF assms(1,2) refl] utc_reading_same [OF assms(3,4) _ assms(8)]
    by (simp add: word_unat_eq_iff)
qed

text \<open>The time \<open>T\<close> as the pair that \<open>shw_pps_gen_get_time\<close> returns.\<close>

definition time_of :: "board_cfg \<Rightarrow> nat \<Rightarrow> u64 \<times> u32" where
  "time_of b T = (word_of_nat (T div clock_freq b),
     word_of_nat ((T mod clock_freq b) * nat (b_ref_clock_period_ps b) div 1000))"

lemma nsec_of_counter:
  assumes "counter_shows b T r" "0 \<le> b_ref_clock_period_ps b"
  shows "word_of_int (uint (CNTR_NSEC r AND 0xFFFFFFF) * b_ref_clock_period_ps b sdiv 1000)
    = snd (time_of b T)"
proof -
  let ?n = "T mod clock_freq b" and ?p = "b_ref_clock_period_ps b"
  have "uint (CNTR_NSEC r AND 0xFFFFFFF) = int ?n"
  proof -
    have "unat (CNTR_NSEC r AND 0xFFFFFFF) = ?n" using assms(1) by (simp add: counter_shows_def)
    moreover have "uint w = int (unat w)" for w :: u32 by simp
    ultimately show ?thesis by metis
  qed
  moreover have "int ?n * ?p sdiv 1000 = int (?n * nat ?p div 1000)"
    using assms(2) by (simp add: signed_divide_int_def sgn_if zdiv_int)
  ultimately show ?thesis by (simp add: time_of_def)
qed

lemma get_time_turn:
  assumes "counter_shows b T1 r1" "counter_shows b T2 r2" "counter_shows b T3 r3"
    "counter_shows b T4 r4" "counter_shows b T5 r5"
    "T1 \<le> T2" "T2 \<le> T3" "T3 \<le> T4" "T4 \<le> T5" "T5 < T1 + clock_freq b"
    "0 < clock_freq b" "0 \<le> b_ref_clock_period_ps b"
  shows "shw_pps_gen_get_time b (r1 # r2 # r3 # r4 # r5 # rs) = Some (time_of b T3) \<or>
    T5 div clock_freq b \<noteq> T1 div clock_freq b \<and>
    shw_pps_gen_get_time b (r1 # r2 # r3 # r4 # r5 # rs) = shw_pps_gen_get_time b rs"
proof (cases "pps_get_utc r4 r5 = pps_get_utc r1 r2")
  case True
  have 24: "T2 \<le> T4" using assms(7,8) by linarith
  note s = agreeing_seconds [OF assms(1,2,4,5,6) 24 assms(9,10,11) True]
  have "T1 div clock_freq b \<le> T3 div clock_freq b" "T3 div clock_freq b \<le> T4 div clock_freq b"
    using assms(6-8) by (auto intro: div_le_mono)
  then have "T3 div clock_freq b = T1 div clock_freq b" using s by linarith
  then have "pps_get_utc r4 r5 = fst (time_of b T3)"
  proof -
    have "word_of_nat (unat (pps_get_utc r4 r5)) = pps_get_utc r4 r5" by simp
    then show ?thesis using s \<open>T3 div clock_freq b = T1 div clock_freq b\<close>
      by (simp add: time_of_def)
  qed
  then show ?thesis using True nsec_of_counter [OF assms(3,12)]
    by (simp add: Let_def)
next
  case False
  have "T2 \<le> T4" using assms(7,8) by linarith
  with False have "T5 div clock_freq b \<noteq> T1 div clock_freq b"
    using same_second_agrees [OF assms(1,2,4,5,6) _ assms(9)] by blast
  then show ?thesis using False by (simp add: Let_def)
qed

text \<open>
  C11. Reading the time while it runs. If ten consecutive register reads take less than a second,
  \<open>shw_pps_gen_get_time\<close> ends within two turns of its loop, and what it returns is the time at
  one instant of the call: the seconds, whose halves are read separately, and the nanoseconds
  belong together, even if the seconds (or their upper half) change between two reads.
\<close>

theorem get_time_exact:
  assumes "list_all2 (counter_shows b) Ts rs" "length Ts = 10" "sorted Ts"
    and "last Ts < hd Ts + clock_freq b" "0 < clock_freq b" "0 \<le> b_ref_clock_period_ps b"
  shows "\<exists>T \<in> set Ts. shw_pps_gen_get_time b (rs @ rest) = Some (time_of b T)"
proof -
  obtain T1 T2 T3 T4 T5 T6 T7 T8 T9 T10 where Ts: "Ts = [T1, T2, T3, T4, T5, T6, T7, T8, T9, T10]"
    using assms(2) by (auto simp: length_Suc_conv eval_nat_numeral)
  then obtain r1 r2 r3 r4 r5 r6 r7 r8 r9 r10 where
    rs: "rs = [r1, r2, r3, r4, r5, r6, r7, r8, r9, r10]" and
    sh: "counter_shows b T1 r1" "counter_shows b T2 r2" "counter_shows b T3 r3"
      "counter_shows b T4 r4" "counter_shows b T5 r5" "counter_shows b T6 r6"
      "counter_shows b T7 r7" "counter_shows b T8 r8" "counter_shows b T9 r9"
      "counter_shows b T10 r10"
    using assms(1) by (auto simp: list_all2_Cons1)
  have le: "T1 \<le> T2" "T2 \<le> T3" "T3 \<le> T4" "T4 \<le> T5" "T5 \<le> T6" "T6 \<le> T7" "T7 \<le> T8"
    "T8 \<le> T9" "T9 \<le> T10" and span: "T10 < T1 + clock_freq b"
    using assms(3,4) by (auto simp: Ts)
  have s5: "T5 < T1 + clock_freq b" and s10: "T10 < T6 + clock_freq b" using le span by linarith+
  note one = get_time_turn [OF sh(1-5) le(1-4) s5 assms(5,6)]
  note two = get_time_turn [OF sh(6-10) le(6-9) s10 assms(5,6)]
  have seconds: "T10 div clock_freq b = T6 div clock_freq b"
    if "T5 div clock_freq b \<noteq> T1 div clock_freq b"
  proof -
    have "T1 div clock_freq b \<le> T5 div clock_freq b" "T5 div clock_freq b \<le> T6 div clock_freq b"
      "T6 div clock_freq b \<le> T10 div clock_freq b"
      using le by (auto intro: div_le_mono)
    moreover have "T10 div clock_freq b \<le> Suc (T1 div clock_freq b)"
      by (rule seconds_span [OF span assms(5)])
    ultimately show ?thesis using that by linarith
  qed
  have "shw_pps_gen_get_time b (rs @ rest) = Some (time_of b T3) \<or>
    shw_pps_gen_get_time b (rs @ rest) = Some (time_of b T8)"
    using one [of "r6 # r7 # r8 # r9 # r10 # rest"] two [of rest] seconds
    by (simp only: rs append_Cons append_Nil) metis
  then show ?thesis by (auto simp: Ts)
qed

text \<open>The second of a read turn changes here: the first turn is repeated.\<close>

lemma get_time_exact_witness:
  "let T = 124999999 :: nat; T' = 125000000;
       r = \<lparr>CNTR_UTCLO = 0, CNTR_UTCHI = 0x100, CNTR_NSEC = 124999999\<rparr>;
       r' = \<lparr>CNTR_UTCLO = 1, CNTR_UTCHI = 0, CNTR_NSEC = 0\<rparr>
   in \<exists>t \<in> set [T, T, T, T, T', T', T', T', T', T'].
    shw_pps_gen_get_time board_wrc ([r, r, r, r, r', r', r', r', r', r'] @ []) =
      Some (time_of board_wrc t)"
proof -
  let ?T = "124999999 :: nat" and ?T' = "125000000 :: nat"
  let ?r = "\<lparr>CNTR_UTCLO = 0, CNTR_UTCHI = 0x100, CNTR_NSEC = 124999999\<rparr>"
  let ?r' = "\<lparr>CNTR_UTCLO = 1, CNTR_UTCHI = 0, CNTR_NSEC = 0\<rparr>"
  have "counter_shows board_wrc ?T ?r" "counter_shows board_wrc ?T' ?r'"
    by (simp_all add: counter_shows_def clock_freq_def board_wrc_def)
  then have l: "list_all2 (counter_shows board_wrc) [?T, ?T, ?T, ?T, ?T', ?T', ?T', ?T', ?T', ?T']
      [?r, ?r, ?r, ?r, ?r', ?r', ?r', ?r', ?r', ?r']"
    by simp
  show ?thesis unfolding Let_def
    by (rule get_time_exact [OF l]) (simp_all add: clock_freq_def board_wrc_def)
qed

text \<open>The conversions of the seconds to and from the two registers.\<close>

lemma utc_lo_hi:
  assumes "unat s < 2 ^ 40"
  shows "unat (utc_lo s) = unat s mod 2 ^ 32" "unat (utc_hi s AND 0xFF) = unat s div 2 ^ 32"
proof -
  show "unat (utc_lo s) = unat s mod 2 ^ 32"
    unfolding utc_lo_def unsigned_ucast_eq unat_and_mask by (simp add: take_bit_eq_mod)
  have d: "unat s div 2 ^ 32 < 256" using assms by (simp add: less_mult_imp_div_less)
  have m: "(0xFF :: u32) = mask 8" by (simp add: mask_eq_exp_minus_1)
  have "utc_hi s AND 0xFF = ucast (drop_bit 32 s) AND mask 8"
    unfolding utc_hi_def m and.assoc and.idem ..
  then have "unat (utc_hi s AND 0xFF) = unat (ucast (drop_bit 32 s) :: u32) mod 2 ^ 8"
    by (simp only: unat_and_mask)
  also have "\<dots> = unat s div 2 ^ 32"
    unfolding unsigned_ucast_eq unsigned_drop_bit_eq
    unfolding drop_bit_eq_div take_bit_eq_mod using d by simp
  finally show "unat (utc_hi s AND 0xFF) = unat s div 2 ^ 32" .
qed

lemma cycles_round_trip:
  assumes "0 < k" "b_ref_clock_period_ps b = 1000 * int k" "n div k < 2 ^ 28" "n < 2 ^ 32"
  shows "uint (ns_to_cycles b (int n) AND 0xFFFFFFF) * b_ref_clock_period_ps b sdiv 1000
    = int (n div k * k)"
proof -
  have pos: "sgn (int n * 1000) * sgn (1000 * int k) = (if n = 0 then 0 else 1)"
    using assms(1) by (simp add: sgn_mult)
  have "s64 (int n * 1000) sdiv (1000 * int k) = int n * 1000 div (1000 * int k)"
    using assms(1,4) by (subst s64_small) (auto simp: signed_divide_int_def sgn_if)
  also have "\<dots> = int (n div k)"
    using div_mult_mult2 [of 1000 "int n" "int k"] by (simp add: mult.commute zdiv_int)
  finally have c: "ns_to_cycles b (int n) = word_of_nat (n div k)"
    by (simp add: ns_to_cycles_def assms(2))
  have "ns_to_cycles b (int n) AND 0xFFFFFFF = word_of_nat (n div k) AND mask 28"
    by (simp add: c mask_eq_exp_minus_1)
  then have "unat (ns_to_cycles b (int n) AND 0xFFFFFFF) = n div k"
    using assms(3) by (simp only: unat_and_mask unat_of_nat) simp
  moreover have "uint w = int (unat w)" for w :: u32 by simp
  ultimately have "uint (ns_to_cycles b (int n) AND 0xFFFFFFF) = int (n div k)" by metis
  then show ?thesis
    by (simp add: assms(2) signed_divide_int_def sgn_if)
qed

lemma signed_period_pos: "b = board_wrc \<or> b = board_wrs \<Longrightarrow>
  \<exists>k. 0 < k \<and> b_ref_clock_period_ps b = 1000 * int k \<and> b_ns_per_clock b = int k \<and> 8 \<le> k"
  by (auto simp: board_wrc_def board_wrs_def intro: exI [of _ 8] exI [of _ 16])

text \<open>
  Setting the time and reading it back. The values that \<open>shw_pps_gen_set_time\<close> writes to the
  adjustment registers, shown by counters that stand still, are read as the same seconds and
  as the nanoseconds rounded down to a clock cycle, on both boards.
\<close>

theorem set_time_get_time:
  assumes "b = board_wrc \<or> b = board_wrs" "unat s < 2 ^ 40" "unat ns < 1000000000"
  shows "let w = shw_pps_gen_set_time b s ns counter rd_CR rd_ES;
             r = \<lparr>CNTR_UTCLO = the (map_of w PPSG_ADJ_UTCLO), CNTR_UTCHI = the (map_of w PPSG_ADJ_UTCHI),
                  CNTR_NSEC = the (map_of w PPSG_ADJ_NSEC)\<rparr>
         in shw_pps_gen_get_time b [r, r, r, r, r] =
              Some (s, word_of_nat (unat ns - unat ns mod nat (b_ns_per_clock b)))"
proof -
  obtain k where k: "0 < k" "b_ref_clock_period_ps b = 1000 * int k" "b_ns_per_clock b = int k" "8 \<le> k"
    using signed_period_pos [OF assms(1)] by blast
  have "unat ns div k \<le> unat ns div 8" using k(4) by (simp add: div_le_mono2)
  also have "\<dots> < 2 ^ 28" using assms(3) by simp
  finally have fits: "unat ns div k < 2 ^ 28" .
  have ns32: "unat ns < 2 ^ 32" using assms(3) by simp
  have "pps_get_utc \<lparr>CNTR_UTCLO = utc_lo s, CNTR_UTCHI = utc_hi s, CNTR_NSEC = c\<rparr>
    \<lparr>CNTR_UTCLO = utc_lo s, CNTR_UTCHI = utc_hi s, CNTR_NSEC = c\<rparr> = s" for c
    unfolding word_unat_eq_iff unat_pps_get_utc ppsg_cntr.select_convs utc_lo_hi [OF assms(2)]
    by (rule mod_mult_div_eq)
  moreover have "uint (ns_to_cycles b (uint ns) AND 0xFFFFFFF) * b_ref_clock_period_ps b sdiv 1000
      = int (unat ns div k * k)"
    using cycles_round_trip [OF k(1,2) fits ns32] by simp
  moreover have "unat ns div k * k = unat ns - unat ns mod k" by (simp add: minus_mod_eq_div_mult)
  ultimately show ?thesis
    by (simp add: shw_pps_gen_set_time_def Let_def k(3))
qed

lemma set_time_get_time_witness:
  "let w = shw_pps_gen_set_time board_wrc 0x123456789A 500000003 PPSG_SET_ALL 0 0;
       r = \<lparr>CNTR_UTCLO = the (map_of w PPSG_ADJ_UTCLO), CNTR_UTCHI = the (map_of w PPSG_ADJ_UTCHI),
            CNTR_NSEC = the (map_of w PPSG_ADJ_NSEC)\<rparr>
   in shw_pps_gen_get_time board_wrc [r, r, r, r, r] =
        Some (0x123456789A, word_of_nat (unat (500000003 :: u32) - unat (500000003 :: u32) mod
          nat (b_ns_per_clock board_wrc)))"
  by (rule set_time_get_time) simp_all

end
