(* ===== verification/Minic.thy ===== *)
theory Minic
  imports Pps_gen
begin

text \<open>
  \<open>dev/minic.c\<close>: the driver of the mini-NIC. Received frames lie in a circular DMA buffer, each
  behind a descriptor word; the driver copies them out, across the end of the buffer if need
  be, and rebuilds the full reception time from the low-order counters in the frame's tail.
\<close>

section \<open>The code\<close>

record hw_timestamp =
  ts_valid :: u8
  ts_ahead :: int
  ts_sec :: u64
  ts_nsec :: u32
  ts_phase :: u32

datatype minic_reg = MINIC_REG_MCR | MINIC_REG_TX_ADDR | MINIC_REG_RX_ADDR | MINIC_REG_RX_SIZE |
  MINIC_REG_RX_AVAIL | MINIC_REG_MPROT | MINIC_REG_EIC_IDR | MINIC_REG_EIC_IER | MINIC_REG_EIC_ISR

text \<open>
  \<open>struct wr_minic\<close> and the two DMA buffers with the addresses \<open>a_rx\<close>, \<open>a_tx\<close> the linker gave
  them. \<open>mn_writes\<close> lists the register writes, in order. The hardware fills \<open>dma_rx_buf\<close>; its
  content is an input of the model.
\<close>

record wr_minic =
  mn_rx_head :: u32
  mn_rx_base :: u32
  mn_rx_size :: u32
  mn_tx_head :: u32
  mn_tx_base :: u32
  mn_tx_avail :: u32
  mn_tx_size :: u32
  mn_tx_count :: int
  mn_rx_count :: int
  dma_rx_buf :: "u8 list"
  dma_tx_buf :: "u8 list"
  a_rx :: u32
  a_tx :: u32
  mn_writes :: "(minic_reg \<times> u32) list"

abbreviation (input) MINIC_DMA_TX_BUF_SIZE :: nat where "MINIC_DMA_TX_BUF_SIZE \<equiv> 1024"
abbreviation (input) MINIC_DMA_RX_BUF_SIZE :: nat where "MINIC_DMA_RX_BUF_SIZE \<equiv> 2048"
abbreviation (input) ETH_HEADER_SIZE :: nat where "ETH_HEADER_SIZE \<equiv> 14"
abbreviation (input) RX_OOB_SIZE :: nat where "RX_OOB_SIZE \<equiv> 6"

definition RX_DESC_VALID :: "u32 \<Rightarrow> bool" where "RX_DESC_VALID d \<longleftrightarrow> bit d 31"
definition RX_DESC_ERROR :: "u32 \<Rightarrow> bool" where "RX_DESC_ERROR d \<longleftrightarrow> bit d 30"
definition RX_DESC_HAS_OOB :: "u32 \<Rightarrow> bool" where "RX_DESC_HAS_OOB d \<longleftrightarrow> bit d 29"
definition RX_DESC_SIZE :: "u32 \<Rightarrow> u32" where
  "RX_DESC_SIZE d = (if bit d 0 then - 1 else 0) + (d AND 0xffe)"

abbreviation (input) MINIC_MCR_TX_START :: u32 where "MINIC_MCR_TX_START \<equiv> gen_mask 0 1"
abbreviation (input) MINIC_MCR_TX_IDLE :: u32 where "MINIC_MCR_TX_IDLE \<equiv> gen_mask 1 1"
abbreviation (input) MINIC_MCR_RX_FULL :: u32 where "MINIC_MCR_RX_FULL \<equiv> gen_mask 9 1"
abbreviation (input) MINIC_MCR_RX_EN :: u32 where "MINIC_MCR_RX_EN \<equiv> gen_mask 10 1"
abbreviation (input) MINIC_MCR_TX_TS_READY :: u32 where "MINIC_MCR_TX_TS_READY \<equiv> gen_mask 11 1"
abbreviation (input) MINIC_EIC_RX :: u32 where "MINIC_EIC_RX \<equiv> gen_mask 1 1"
abbreviation (input) TX_DESC_VALID :: u32 where "TX_DESC_VALID \<equiv> 0x80000000"
abbreviation (input) TX_DESC_WITH_OOB :: u32 where "TX_DESC_WITH_OOB \<equiv> 0x40000000"

definition minic_writel :: "minic_reg \<Rightarrow> u32 \<Rightarrow> wr_minic \<Rightarrow> wr_minic" where
  "minic_writel r v s = s\<lparr>mn_writes := mn_writes s @ [(r, v)]\<rparr>"

text \<open>An address of the receive buffer as an index of its bytes.\<close>

definition rx_off :: "wr_minic \<Rightarrow> u32 \<Rightarrow> nat" where
  "rx_off s a = unat (a - a_rx s)"

text \<open>
  \<open>minic_rx_memcpy\<close>: the first step brings an address behind the buffer back into it. \<open>room\<close> is
  the size of the object \<open>dst\<close> points to.
\<close>

definition rx_wrap :: "wr_minic \<Rightarrow> u32 \<Rightarrow> u32" where
  "rx_wrap s a = mn_rx_base s + (a - mn_rx_base s) mod push_bit 2 (mn_rx_size s)"

definition minic_rx_memcpy :: "wr_minic \<Rightarrow> nat \<Rightarrow> u32 \<Rightarrow> u32 \<Rightarrow> u8 list option" where
  "minic_rx_memcpy s room src sz =
    (let src = rx_wrap s src
     in if room < unat sz then None
        else if src + sz \<le> mn_rx_base s + push_bit 2 (mn_rx_size s)
        then mem_get (dma_rx_buf s) (rx_off s src) (unat sz)
        else let part = mn_rx_base s + push_bit 2 (mn_rx_size s) - src
             in do {
               xs \<leftarrow> mem_get (dma_rx_buf s) (rx_off s src) (unat part);
               ys \<leftarrow> mem_get (dma_rx_buf s) (rx_off s (mn_rx_base s)) (unat (sz - part));
               Some (xs @ ys)
             })"

definition rx_fill :: "u32 \<Rightarrow> u8 \<Rightarrow> u32 \<Rightarrow> wr_minic \<Rightarrow> wr_minic option" where
  "rx_fill a c sz s = do {
     buf \<leftarrow> mem_put (dma_rx_buf s) (rx_off s a) (replicate (unat sz) c);
     Some (s\<lparr>dma_rx_buf := buf\<rparr>)
   }"

definition minic_rx_memset :: "u32 \<Rightarrow> u8 \<Rightarrow> u32 \<Rightarrow> wr_minic \<Rightarrow> wr_minic option" where
  "minic_rx_memset mem c sz s =
    (let src = rx_wrap s mem
     in if src + sz \<le> mn_rx_base s + push_bit 2 (mn_rx_size s) then rx_fill src c sz s
        else let part = mn_rx_base s + push_bit 2 (mn_rx_size s) - src
             in do {
               s \<leftarrow> rx_fill src c part s;
               rx_fill (mn_rx_base s) c (sz - part) s
             })"

definition minic_new_rx_buffer :: "wr_minic \<Rightarrow> wr_minic option" where
  "minic_new_rx_buffer s = do {
     let s = minic_writel MINIC_REG_MCR 0 s;
     let s = s\<lparr>mn_rx_base := a_rx s, mn_rx_size := word_of_nat (MINIC_DMA_RX_BUF_SIZE div 4)\<rparr>;
     let s = s\<lparr>mn_rx_head := mn_rx_base s\<rparr>;
     s \<leftarrow> minic_rx_memset (mn_rx_base s) 0 (push_bit 2 (mn_rx_size s)) s;
     let s = minic_writel MINIC_REG_RX_ADDR (mn_rx_base s) s;
     let s = minic_writel MINIC_REG_RX_SIZE (mn_rx_size s) s;
     let s = minic_writel MINIC_REG_EIC_ISR MINIC_EIC_RX s;
     Some (minic_writel MINIC_REG_MCR MINIC_MCR_RX_EN s)
   }"

definition minic_rxbuf_free :: "u32 \<Rightarrow> wr_minic \<Rightarrow> wr_minic option" where
  "minic_rxbuf_free words s = do {
     s \<leftarrow> minic_rx_memset (mn_rx_head s) 0 (push_bit 2 words) s;
     Some (minic_writel MINIC_REG_RX_AVAIL words s)
   }"

definition minic_new_tx_buffer :: "wr_minic \<Rightarrow> wr_minic" where
  "minic_new_tx_buffer s =
    (let s = s\<lparr>mn_tx_base := a_tx s, mn_tx_size := word_of_nat (MINIC_DMA_TX_BUF_SIZE div 4)\<rparr>;
         s = s\<lparr>mn_tx_head := mn_tx_base s, mn_tx_avail := mn_tx_size s\<rparr>
     in minic_writel MINIC_REG_TX_ADDR (mn_tx_base s) s)"

definition minic_init :: "wr_minic \<Rightarrow> wr_minic option" where
  "minic_init s = do {
     let s = minic_writel MINIC_REG_EIC_IDR MINIC_EIC_RX s;
     let s = minic_writel MINIC_REG_EIC_ISR MINIC_EIC_RX s;
     let s = s\<lparr>mn_rx_base := a_rx s, mn_rx_size := word_of_nat MINIC_DMA_RX_BUF_SIZE\<rparr>;
     let lo = drop_bit 2 (mn_rx_base s);
     let hi = drop_bit 2 (mn_rx_base s) + word_of_nat (MINIC_DMA_RX_BUF_SIZE div 4) - 1;
     let s = minic_writel MINIC_REG_MPROT (gen_write lo 0 16 OR gen_write hi 16 16) s;
     let s = s\<lparr>mn_tx_base := a_tx s, mn_tx_size := word_of_nat (MINIC_DMA_TX_BUF_SIZE div 4),
               mn_tx_count := 0, mn_rx_count := 0\<rparr>;
     s \<leftarrow> minic_new_rx_buffer s;
     Some (minic_writel MINIC_REG_EIC_IER MINIC_EIC_RX s)
   }"

definition minic_disable :: "wr_minic \<Rightarrow> wr_minic" where
  "minic_disable s = minic_writel MINIC_REG_MCR 0 s"

definition minic_poll_rx :: "u32 \<Rightarrow> int" where
  "minic_poll_rx rd_ISR = (if rd_ISR AND MINIC_EIC_RX \<noteq> 0 then 1 else 0)"

subsection \<open>Reception\<close>

text \<open>\<open>EXPLODE_WR_TIMESTAMP\<close>: the counters of the rising and of the falling clock edge.\<close>

definition ts_rising :: "u32 \<Rightarrow> u32" where "ts_rising raw = raw AND 0xfffffff"
definition ts_falling :: "u32 \<Rightarrow> u32" where "ts_falling raw = drop_bit 28 raw AND 0xf"

text \<open>The second a timestamp belongs to, from the time at which the driver looks at it.\<close>

definition ts_second :: "board_cfg \<Rightarrow> u32 \<Rightarrow> u64 \<Rightarrow> u32 \<Rightarrow> u64" where
  "ts_second b counter_r sec counter_ppsg =
     (if to_u32 (3 * b_ref_clock_freq_hz b sdiv 4) < counter_r \<and> counter_ppsg < 250000000
      then sec - 1 else sec)"

definition rx_timestamp ::
  "board_cfg \<Rightarrow> u32 \<Rightarrow> u16 \<Rightarrow> u64 \<times> u32 \<Rightarrow> hw_timestamp \<Rightarrow> hw_timestamp" where
  "rx_timestamp b raw_ts dhdr now hwts =
    (let counter_r = ts_rising raw_ts; counter_f = ts_falling raw_ts;
         sec = ts_second b counter_r (fst now) (snd now);
         cntr_diff = of_u32 ((counter_r AND 0xf) - counter_f)
     in hwts\<lparr>ts_sec := sec AND 0x7fffffff,
             ts_ahead := (if cntr_diff = 1 \<or> cntr_diff = - 15 then 1 else 0),
             ts_nsec := counter_r * to_u32 (b_ref_clock_period_ps b sdiv 1000),
             ts_valid := (if bit dhdr 11 then 0 else 1)\<rparr>)"

text \<open>
  What the registers return during a call of \<open>minic_rx_frame\<close>: \<open>EIC_ISR\<close>, \<open>MCR\<close> (read at most
  once) and the counters of the PPS generator.
\<close>

record rx_io =
  io_ISR :: u32
  io_MCR :: u32
  io_cntr :: "ppsg_cntr list"

definition rx_desc :: "wr_minic \<Rightarrow> u32 option" where
  "rx_desc s = do {
     bs \<leftarrow> mem_get (dma_rx_buf s) (rx_off s (mn_rx_head s)) 4;
     Some (word_of_nat (be_val bs))
   }"

text \<open>The part that reads the timestamp out of the frame's tail; \<open>hwts\<close> may be \<open>NULL\<close>.\<close>

definition rx_oob ::
  "board_cfg \<Rightarrow> rx_io \<Rightarrow> wr_minic \<Rightarrow> u32 \<Rightarrow> u32 \<Rightarrow> hw_timestamp option \<Rightarrow>
    (u32 \<times> hw_timestamp option) option" where
  "rx_oob b io s desc_hdr payload_size hwts =
    (case hwts of
       None \<Rightarrow> Some (payload_size, None)
     | Some ts \<Rightarrow>
         if \<not> RX_DESC_HAS_OOB desc_hdr then Some (payload_size, Some ts)
         else do {
           let payload_size = payload_size - word_of_nat RX_OOB_SIZE;
           raw_ts \<leftarrow> minic_rx_memcpy s 4 (mn_rx_head s + payload_size + 6) 4;
           dhdr \<leftarrow> minic_rx_memcpy s 2 (mn_rx_head s + payload_size + 4) 2;
           now \<leftarrow> shw_pps_gen_get_time b (io_cntr io);
           Some (payload_size, Some (rx_timestamp b (word_of_nat (be_val raw_ts))
                                                  (word_of_nat (be_val dhdr)) now ts))
         })"

definition rx_copy ::
  "wr_minic \<Rightarrow> u8 list \<Rightarrow> u32 \<Rightarrow> u32 \<Rightarrow> (u8 list \<times> u8 list) option" where
  "rx_copy s payload payload_size n_recvd = do {
     hdr \<leftarrow> minic_rx_memcpy s ETH_HEADER_SIZE (mn_rx_head s + 4) (word_of_nat ETH_HEADER_SIZE);
     pl \<leftarrow> minic_rx_memcpy s (length payload) (mn_rx_head s + 4 + word_of_nat ETH_HEADER_SIZE)
             (n_recvd - word_of_nat ETH_HEADER_SIZE);
     Some (hdr, pl @ drop (length pl) payload)
   }"

text \<open>The end of the function: the buffer is given back and the head moves on.\<close>

definition rx_move_head :: "u32 \<Rightarrow> wr_minic \<Rightarrow> wr_minic" where
  "rx_move_head num_words s =
     s\<lparr>mn_rx_head := mn_rx_base s + (mn_rx_head s + push_bit 2 num_words - mn_rx_base s)
                        mod push_bit 2 (mn_rx_size s)\<rparr>"

definition rx_check_next :: "rx_io \<Rightarrow> wr_minic \<Rightarrow> wr_minic option" where
  "rx_check_next io s = do {
     d \<leftarrow> rx_desc s;
     if RX_DESC_VALID d then Some s
     else do {
       s \<leftarrow> (if io_MCR io AND MINIC_MCR_RX_FULL \<noteq> 0 then minic_new_rx_buffer s else Some s);
       Some (minic_writel MINIC_REG_EIC_ISR MINIC_EIC_RX s)
     }
   }"

definition rx_advance :: "rx_io \<Rightarrow> u32 \<Rightarrow> wr_minic \<Rightarrow> wr_minic option" where
  "rx_advance io num_words s = do {
     s \<leftarrow> minic_rxbuf_free num_words s;
     rx_check_next io (rx_move_head num_words s)
   }"

type_synonym rx_result = "int \<times> u8 list \<times> u8 list \<times> hw_timestamp option \<times> wr_minic"

definition minic_rx_frame ::
  "board_cfg \<Rightarrow> rx_io \<Rightarrow> u8 list \<Rightarrow> u8 list \<Rightarrow> u32 \<Rightarrow> hw_timestamp option \<Rightarrow> wr_minic \<Rightarrow>
    rx_result option" where
  "minic_rx_frame b io hdr payload buf_size hwts s =
    (if io_ISR io AND MINIC_EIC_RX = 0 then Some (0, hdr, payload, hwts, s)
     else do {
       desc_hdr \<leftarrow> rx_desc s;
       if \<not> RX_DESC_VALID desc_hdr then do {
         s \<leftarrow> minic_new_rx_buffer s;
         Some (0, hdr, payload, hwts, s)
       } else do {
         let payload_size = RX_DESC_SIZE desc_hdr;
         let num_words = drop_bit 2 (payload_size + 3) + 1;
         (n_recvd, hdr, payload, hwts, s) \<leftarrow>
           (if \<not> RX_DESC_ERROR desc_hdr then do {
              (payload_size, hwts) \<leftarrow> rx_oob b io s desc_hdr payload_size hwts;
              let n_recvd = (if buf_size < payload_size then buf_size else payload_size);
              let s = s\<lparr>mn_rx_count := add32 (mn_rx_count s) 1\<rparr>;
              (hdr, payload) \<leftarrow> rx_copy s payload payload_size n_recvd;
              Some (of_u32 n_recvd, hdr, payload, hwts, s)
            } else Some (- 1, hdr, payload, hwts, s));
         s \<leftarrow> rx_advance io num_words s;
         Some (n_recvd, hdr, payload, hwts, s)
       }
     })"

subsection \<open>Transmission\<close>

text \<open>
  What the registers return during a call of \<open>minic_tx_frame\<close>: \<open>tx_MCR k\<close> is the value of the
  \<open>k\<close>-th read of \<open>MCR\<close>.
\<close>

record tx_io =
  tx_MCR :: "nat \<Rightarrow> u32"
  tx_TSR0 :: u32
  tx_TSR1 :: u32
  tx_cntr :: "ppsg_cntr list"

text \<open>
  The polling loops: at most \<open>n\<close> reads, starting with read \<open>k\<close>; the result says whether the bit
  was seen (the C code tells it by \<open>i == n\<close>) and which read comes next.
\<close>

fun wait_mcr :: "(nat \<Rightarrow> u32) \<Rightarrow> u32 \<Rightarrow> nat \<Rightarrow> nat \<Rightarrow> bool \<times> nat" where
  "wait_mcr f msk 0 k = (False, k)"
| "wait_mcr f msk (Suc n) k = (if f k AND msk \<noteq> 0 then (True, Suc k) else wait_mcr f msk n (Suc k))"

definition tx_put :: "nat \<Rightarrow> u8 list \<Rightarrow> wr_minic \<Rightarrow> wr_minic option" where
  "tx_put off bs s = do {
     buf \<leftarrow> mem_put (dma_tx_buf s) off bs;
     Some (s\<lparr>dma_tx_buf := buf\<rparr>)
   }"

text \<open>The frame in the transmit buffer; \<open>tx_head\<close> is the start of \<open>dma_tx_buf\<close>.\<close>

definition tx_fill :: "u8 list \<Rightarrow> u8 list \<Rightarrow> u32 \<Rightarrow> wr_minic \<Rightarrow> wr_minic option" where
  "tx_fill hdr payload sz s = do {
     s \<leftarrow> tx_put 0 (replicate (unat (sz + 16)) 0) s;
     s \<leftarrow> tx_put 4 (replicate (if sz < 60 then 60 else unat sz) 0) s;
     h \<leftarrow> mem_get hdr 0 ETH_HEADER_SIZE;
     s \<leftarrow> tx_put 4 h s;
     p \<leftarrow> mem_get payload 0 (unat (sz - word_of_nat ETH_HEADER_SIZE));
     tx_put (4 + ETH_HEADER_SIZE) p s
   }"

definition tx_desc :: "u32 \<Rightarrow> bool \<Rightarrow> u32" where
  "tx_desc nwords with_ts = (if with_ts then TX_DESC_WITH_OOB else 0) OR (TX_DESC_VALID OR nwords)"

definition tx_start :: "tx_io \<Rightarrow> u32 \<Rightarrow> bool \<Rightarrow> wr_minic \<Rightarrow> wr_minic option" where
  "tx_start io sz with_ts s = do {
     let nwords = drop_bit 1 (sz + 1);
     s \<leftarrow> tx_put 0 (be_bytes 4 (unat (tx_desc nwords with_ts))) s;
     s \<leftarrow> tx_put (4 * unat nwords) (replicate 4 0) s;
     Some (minic_writel MINIC_REG_MCR (tx_MCR io 0 OR MINIC_MCR_TX_START) s)
   }"

definition tx_timestamp :: "board_cfg \<Rightarrow> tx_io \<Rightarrow> bool \<Rightarrow> u64 \<times> u32 \<Rightarrow> hw_timestamp \<Rightarrow> hw_timestamp" where
  "tx_timestamp b io ready now hwts =
    (let valid = (if ready then ucast (tx_TSR0 io AND gen_mask 0 1) else 0);
         counter_r = ts_rising (tx_TSR1 io)
     in hwts\<lparr>ts_valid := valid, ts_sec := ts_second b counter_r (fst now) (snd now),
             ts_ahead := 0, ts_nsec := counter_r * 8\<rparr>)"

definition minic_tx_frame ::
  "board_cfg \<Rightarrow> tx_io \<Rightarrow> u8 list \<Rightarrow> u8 list \<Rightarrow> u32 \<Rightarrow> hw_timestamp option \<Rightarrow> wr_minic \<Rightarrow>
    (int \<times> hw_timestamp option \<times> wr_minic) option" where
  "minic_tx_frame b io hdr payload sz hwts s = do {
     let s = minic_new_tx_buffer s;
     s \<leftarrow> tx_fill hdr payload sz s;
     let sz = (if sz < 60 then 60 else sz);
     s \<leftarrow> tx_start io sz (hwts \<noteq> None) s;
     let (done, k) = wait_mcr (tx_MCR io) MINIC_MCR_TX_IDLE 1000 1;
     case hwts of
       None \<Rightarrow> Some (of_u32 sz, None, s)
     | Some ts \<Rightarrow> do {
         let (ready, k) = wait_mcr (tx_MCR io) MINIC_MCR_TX_TS_READY 100 k;
         now \<leftarrow> shw_pps_gen_get_time b (tx_cntr io);
         Some (of_u32 sz, Some (tx_timestamp b io ready now ts),
               s\<lparr>mn_tx_count := add32 (mn_tx_count s) 1\<rparr>)
       }
   }"

definition minic_get_stats :: "wr_minic \<Rightarrow> int \<times> int" where
  "minic_get_stats s = (mn_tx_count s, mn_rx_count s)"

end
