(* ===== verification/Net.thy ===== *)
theory Net
  imports Minic
begin

text \<open>
  \<open>lib/net.c\<close>: the raw Ethernet sockets. Every socket has a queue of received frames, a byte
  ring that holds size, header, timestamp and payload of each frame; the reception timestamps
  are combined with the phase measured by the SoftPLL.
\<close>

section \<open>The code\<close>

record wr_sockaddr =
  sa_if_name :: string
  sa_family :: int
  sa_mac :: "u8 list"
  sa_mac_dest :: "u8 list"
  sa_ip :: u32
  sa_port :: u16
  sa_ethertype :: u16
  sa_physical_port :: u16

record wr_timestamp =
  wt_sec :: int
  wt_nsec :: int
  wt_phase :: int
  wt_raw_phase :: int
  wt_raw_nsec :: int
  wt_raw_ahead :: int
  wt_correct :: int

text \<open>\<open>head\<close>, \<open>tail\<close>, \<open>avail\<close> and \<open>n\<close> are \<open>uint16_t\<close>: kept as integers modulo \<open>2 ^ 16\<close>.\<close>

definition u16i :: "int \<Rightarrow> int" where
  [c_arith]: "u16i i = i mod 65536"

record sockq =
  sq_buf :: "u8 list"
  sq_head :: int
  sq_tail :: int
  sq_avail :: int
  sq_n :: int

record my_socket =
  so_in_use :: int
  so_bind_addr :: wr_sockaddr
  so_local_mac :: "u8 list"
  so_phase_transition :: u32
  so_dmtd_phase :: u32
  so_queue :: sockq

text \<open>The sockets, and the static receive buffers of \<open>update_rx_queues\<close>.\<close>

record net =
  socks :: "my_socket list"
  rx_hdr :: "u8 list"
  rx_payload :: "u8 list"

abbreviation (input) NET_SKBUF_SIZE :: int where "NET_SKBUF_SIZE \<equiv> 512"
abbreviation (input) NET_MAX_SOCKETS :: nat where "NET_MAX_SOCKETS \<equiv> 4"
abbreviation (input) PTPD_SOCK_RAW_ETHERNET :: int where "PTPD_SOCK_RAW_ETHERNET \<equiv> 1"

definition zero_sockaddr :: wr_sockaddr where
  "zero_sockaddr = \<lparr>sa_if_name = replicate 16 (CHR 0x00), sa_family = 0, sa_mac = replicate 6 0,
     sa_mac_dest = replicate 6 0, sa_ip = 0, sa_port = 0, sa_ethertype = 0, sa_physical_port = 0\<rparr>"

definition zero_socket :: my_socket where
  "zero_socket = \<lparr>so_in_use = 0, so_bind_addr = zero_sockaddr, so_local_mac = replicate 6 0,
     so_phase_transition = 0, so_dmtd_phase = 0,
     so_queue = \<lparr>sq_buf = replicate 512 0, sq_head = 0, sq_tail = 0, sq_avail = 0, sq_n = 0\<rparr>\<rparr>"

definition ptpd_netif_init :: "net \<Rightarrow> int \<times> net" where
  "ptpd_netif_init s = (0, s\<lparr>socks := replicate NET_MAX_SOCKETS zero_socket\<rparr>)"

definition ptpd_netif_set_phase_transition :: "u32 \<Rightarrow> net \<Rightarrow> net" where
  "ptpd_netif_set_phase_transition phase s =
     s\<lparr>socks := map (\<lambda>k. k\<lparr>so_phase_transition := phase\<rparr>) (socks s)\<rparr>"

text \<open>
  \<open>ptpd_netif_create_socket\<close>: the result is the index of the socket or \<open>None\<close> for \<open>NULL\<close>. The
  return value, transition and phase of \<open>halexp_get_port_state\<close> and the address that
  \<open>get_mac_addr\<close> reads are arguments.
\<close>

fun first_free :: "nat \<Rightarrow> my_socket list \<Rightarrow> nat option" where
  "first_free i [] = None"
| "first_free i (k # ks) = (if so_in_use k = 0 then Some i else first_free (Suc i) ks)"

definition ptpd_netif_create_socket ::
  "int \<Rightarrow> wr_sockaddr \<Rightarrow> int \<times> u32 \<times> u32 \<Rightarrow> u8 list \<Rightarrow> net \<Rightarrow> nat option \<times> net" where
  "ptpd_netif_create_socket sock_type bind_addr hal mac s =
    (case first_free 0 (socks s) of
       None \<Rightarrow> (None, s)
     | Some i \<Rightarrow>
         if sock_type \<noteq> PTPD_SOCK_RAW_ETHERNET then (None, s)
         else if fst hal < 0 then (None, s)
         else let k = socks s ! i;
                  k = k\<lparr>so_bind_addr := bind_addr, so_local_mac := mac,
                        so_phase_transition := fst (snd hal), so_dmtd_phase := snd (snd hal),
                        so_queue := (so_queue k)\<lparr>sq_head := 0, sq_tail := 0,
                                                 sq_avail := NET_SKBUF_SIZE, sq_n := 0\<rparr>,
                        so_in_use := 1\<rparr>
              in (Some i, s\<lparr>socks := (socks s)[i := k]\<rparr>))"

definition ptpd_netif_close_socket :: "nat option \<Rightarrow> net \<Rightarrow> int \<times> net" where
  "ptpd_netif_close_socket sock s =
    (case sock of None \<Rightarrow> (0, s)
     | Some i \<Rightarrow> (0, s\<lparr>socks := (socks s)[i := (socks s ! i)\<lparr>so_in_use := 0\<rparr>]\<rparr>))"

subsection \<open>Timestamps\<close>

definition lin_phase_r :: "int \<Rightarrow> int \<Rightarrow> int \<Rightarrow> int" where
  "lin_phase_r raw_phase transition_point clock_period =
    (let phase_r = sub32 raw_phase transition_point
     in if phase_r < 0 then add32 phase_r clock_period else phase_r)"

definition lin_nsec_f :: "int \<Rightarrow> int \<Rightarrow> int \<Rightarrow> int" where
  "lin_nsec_f nsec cntr_ahead clock_period =
    (if cntr_ahead \<noteq> 0 then sub32 nsec (clock_period sdiv 1000) else nsec)"

definition lin_phase_f :: "int \<Rightarrow> int \<Rightarrow> int \<Rightarrow> int" where
  "lin_phase_f raw_phase transition_point clock_period =
    (let phase_f = add32 (sub32 raw_phase transition_point) (clock_period sdiv 2);
         phase_f = (if phase_f < 0 then add32 phase_f clock_period else phase_f)
     in if clock_period \<le> phase_f then sub32 phase_f clock_period else phase_f)"

text \<open>The choice between the two counters: nanoseconds and phase of the one that is stable.\<close>

definition lin_pick :: "int \<Rightarrow> int \<Rightarrow> int \<Rightarrow> int \<Rightarrow> int \<Rightarrow> int \<times> int" where
  "lin_pick nsec_r nsec_f phase_r phase_f clock_period =
    (if mul32 3 clock_period sdiv 4 < phase_r \<or> phase_r < clock_period sdiv 4
     then let phase = add32 phase_f (clock_period sdiv 2)
          in if clock_period \<le> phase
             then (add32 nsec_f (clock_period sdiv 1000), sub32 phase clock_period)
             else (nsec_f, phase)
     else (nsec_r, phase_r))"

definition ptpd_netif_linearize_rx_timestamp ::
  "wr_timestamp \<Rightarrow> int \<Rightarrow> int \<Rightarrow> int \<Rightarrow> int \<Rightarrow> wr_timestamp" where
  "ptpd_netif_linearize_rx_timestamp ts dmtd_phase cntr_ahead transition_point clock_period =
    (let ts = ts\<lparr>wt_raw_phase := dmtd_phase\<rparr>;
         nsec_r = wt_nsec ts;
         nsec_f = lin_nsec_f (wt_nsec ts) cntr_ahead clock_period;
         phase_r = lin_phase_r (wt_raw_phase ts) transition_point clock_period;
         phase_f = lin_phase_f (wt_raw_phase ts) transition_point clock_period;
         (nsec, phase) = lin_pick nsec_r nsec_f phase_r phase_f clock_period;
         ts = ts\<lparr>wt_nsec := nsec, wt_phase := phase\<rparr>
     in if 1000000000 \<le> wt_nsec ts
        then ts\<lparr>wt_nsec := sub32 (wt_nsec ts) 1000000000, wt_sec := s64 (wt_sec ts + 1)\<rparr>
        else ts)"

subsection \<open>The queue\<close>

fun wrap_copy_in :: "nat \<Rightarrow> sockq \<Rightarrow> (u8 list \<times> sockq) option" where
  "wrap_copy_in 0 q = Some ([], q)"
| "wrap_copy_in (Suc i) q = do {
     b \<leftarrow> aget (sq_buf q) (sq_tail q);
     let q = q\<lparr>sq_tail := u16i (sq_tail q + 1)\<rparr>;
     let q = (if sq_tail q = NET_SKBUF_SIZE then q\<lparr>sq_tail := 0\<rparr> else q);
     (bs, q) \<leftarrow> wrap_copy_in i q;
     Some (b # bs, q)
   }"

fun wrap_copy_out :: "u8 list \<Rightarrow> sockq \<Rightarrow> sockq option" where
  "wrap_copy_out [] q = Some q"
| "wrap_copy_out (b # bs) q = do {
     buf \<leftarrow> aset (sq_buf q) (sq_head q) b;
     let q = q\<lparr>sq_buf := buf, sq_head := u16i (sq_head q + 1)\<rparr>;
     let q = (if sq_head q = NET_SKBUF_SIZE then q\<lparr>sq_head := 0\<rparr> else q);
     wrap_copy_out bs q
   }"

text \<open>\<open>q->avail += wrap_copy_in (..)\<close> and \<open>q->avail -= wrap_copy_out (..)\<close>.\<close>

definition deq :: "nat \<Rightarrow> sockq \<Rightarrow> (u8 list \<times> sockq) option" where
  "deq len q = do {
     (bs, q) \<leftarrow> wrap_copy_in len q;
     Some (bs, q\<lparr>sq_avail := u16i (sq_avail q + int len)\<rparr>)
   }"

definition enq :: "u8 list \<Rightarrow> sockq \<Rightarrow> sockq option" where
  "enq bs q = do {
     q \<leftarrow> wrap_copy_out bs q;
     Some (q\<lparr>sq_avail := u16i (sq_avail q - int (length bs))\<rparr>)
   }"

text \<open>\<open>struct hw_timestamp\<close> in memory: 24 bytes, three of them padding.\<close>

definition hwts_image :: "hw_timestamp \<Rightarrow> u8 list" where
  "hwts_image t = ts_valid t # replicate 3 0 @ be_bytes 4 (unat (to_u32 (ts_ahead t))) @
     be_bytes 8 (unat (ts_sec t)) @ be_bytes 4 (unat (ts_nsec t)) @ be_bytes 4 (unat (ts_phase t))"

definition hwts_of_image :: "u8 list \<Rightarrow> hw_timestamp" where
  "hwts_of_image bs = \<lparr>ts_valid = bs ! 0,
     ts_ahead = of_u32 (word_of_nat (be_val (take 4 (drop 4 bs)))),
     ts_sec = word_of_nat (be_val (take 8 (drop 8 bs))),
     ts_nsec = word_of_nat (be_val (take 4 (drop 16 bs))),
     ts_phase = word_of_nat (be_val (take 4 (drop 20 bs)))\<rparr>"

text \<open>\<open>struct ethhdr\<close>: destination, source, type.\<close>

definition eth_dstmac :: "u8 list \<Rightarrow> u8 list" where "eth_dstmac h = take 6 h"
definition eth_srcmac :: "u8 list \<Rightarrow> u8 list" where "eth_srcmac h = take 6 (drop 6 h)"
definition eth_type :: "u8 list \<Rightarrow> u16" where "eth_type h = word_of_nat (be_val (drop 12 h))"

definition rx_ts_of :: "wr_timestamp \<Rightarrow> hw_timestamp \<Rightarrow> int \<Rightarrow> u32 \<Rightarrow> board_cfg \<Rightarrow> wr_timestamp" where
  "rx_ts_of t hwts raw_phase transition b =
    (let t = t\<lparr>wt_raw_nsec := of_u32 (ts_nsec hwts), wt_raw_ahead := ts_ahead hwts,
               wt_raw_phase := raw_phase, wt_sec := sint (ts_sec hwts),
               wt_nsec := of_u32 (ts_nsec hwts), wt_phase := 0,
               wt_correct := int (unat (ts_valid hwts))\<rparr>
     in ptpd_netif_linearize_rx_timestamp t (wt_raw_phase t) (ts_ahead hwts) (of_u32 transition)
          (b_ref_clock_period_ps b))"

text \<open>
  \<open>ptpd_netif_recvfrom\<close>: \<open>data_length\<close> is the room of the caller's buffer, \<open>raw_phase\<close> what
  \<open>spll_read_ptracker\<close> returns. The result is the length, the sender's address, the bytes put
  into the buffer, the timestamp and the socket. \<open>size - sizeof (hdr)\<close> is computed in \<open>size_t\<close>.
\<close>

type_synonym recv_result = "int \<times> wr_sockaddr \<times> u8 list \<times> wr_timestamp option \<times> my_socket"

definition ptpd_netif_recvfrom ::
  "board_cfg \<Rightarrow> nat \<Rightarrow> int \<Rightarrow> wr_sockaddr \<Rightarrow> wr_timestamp option \<Rightarrow> my_socket \<Rightarrow>
    recv_result option" where
  "ptpd_netif_recvfrom b data_length raw_phase frm rx_ts s =
    (if sq_n (so_queue s) = 0 then Some (0, frm, [], rx_ts, s)
     else do {
       let q = (so_queue s)\<lparr>sq_n := u16i (sq_n (so_queue s) - 1)\<rparr>;
       (sz, q) \<leftarrow> deq 2 q;
       (hdr, q) \<leftarrow> deq 14 q;
       (ts, q) \<leftarrow> deq 24 q;
       let sz = be_val sz;
       (data, q) \<leftarrow> deq (min sz data_length) q;
       let frm = frm\<lparr>sa_ethertype := eth_type hdr, sa_mac := eth_srcmac hdr,
                     sa_mac_dest := eth_dstmac hdr\<rparr>;
       let rx_ts = map_option (\<lambda>t. rx_ts_of t (hwts_of_image ts) raw_phase (so_phase_transition s) b) rx_ts;
       Some (int (min (unat (word_of_nat sz - 14 :: u32)) data_length), frm, data, rx_ts,
             s\<lparr>so_queue := q\<rparr>)
     })"

definition ptpd_netif_select :: "nat \<Rightarrow> int" where
  "ptpd_netif_select sock = 0"

definition ptpd_netif_sendto ::
  "board_cfg \<Rightarrow> tx_io \<Rightarrow> my_socket \<Rightarrow> wr_sockaddr \<Rightarrow> u8 list \<Rightarrow> nat \<Rightarrow> hw_timestamp \<Rightarrow>
    wr_timestamp option \<Rightarrow> wr_minic \<Rightarrow> (int \<times> wr_timestamp option \<times> wr_minic) option" where
  "ptpd_netif_sendto b io s to data data_length hwts0 tx_ts m = do {
     let hdr = sa_mac to @ so_local_mac s @ be_bytes 2 (unat (sa_ethertype to));
     (rval, hwts, m) \<leftarrow> minic_tx_frame b io hdr data
                          (word_of_nat (data_length + ETH_HEADER_SIZE)) (Some hwts0) m;
     hwts \<leftarrow> hwts;
     Some (rval,
           map_option (\<lambda>t. t\<lparr>wt_sec := sint (ts_sec hwts), wt_nsec := of_u32 (ts_nsec hwts),
                              wt_phase := 0, wt_correct := int (unat (ts_valid hwts))\<rparr>) tx_ts, m)
   }"

text \<open>\<open>update_rx_queues\<close>: the socket a frame is for, and the frame's way into its queue.\<close>

fun find_socket :: "u8 list \<Rightarrow> nat \<Rightarrow> my_socket list \<Rightarrow> nat option" where
  "find_socket hdr i [] = None"
| "find_socket hdr i (k # ks) =
     (if so_in_use k \<noteq> 0 \<and> eth_dstmac hdr = sa_mac (so_bind_addr k) \<and>
         eth_type hdr = sa_ethertype (so_bind_addr k)
      then Some i else find_socket hdr (Suc i) ks)"

definition rx_enqueue ::
  "int \<Rightarrow> u8 list \<Rightarrow> hw_timestamp \<Rightarrow> u8 list \<Rightarrow> sockq \<Rightarrow> sockq option" where
  "rx_enqueue recvd hdr hwts payload q =
    (let q_required = 14 + recvd + 24 + 2
     in if sq_avail q < q_required then Some q
        else do {
          let sz = u16i recvd;
          q \<leftarrow> enq (be_bytes 2 (nat sz)) q;
          q \<leftarrow> enq hdr q;
          q \<leftarrow> enq (hwts_image hwts) q;
          bs \<leftarrow> mem_get payload 0 (nat sz);
          q \<leftarrow> enq bs q;
          Some (q\<lparr>sq_n := u16i (sq_n q + 1)\<rparr>)
        })"

definition rx_dispatch :: "int \<Rightarrow> hw_timestamp \<Rightarrow> net \<Rightarrow> net option" where
  "rx_dispatch recvd hwts s =
    (if recvd \<le> 0 then Some s
     else case find_socket (rx_hdr s) 0 (socks s) of
            None \<Rightarrow> Some s
          | Some i \<Rightarrow> do {
              q \<leftarrow> rx_enqueue recvd (rx_hdr s) hwts (rx_payload s) (so_queue (socks s ! i));
              Some (s\<lparr>socks := (socks s)[i := (socks s ! i)\<lparr>so_queue := q\<rparr>]\<rparr>)
            })"

definition update_rx_queues ::
  "board_cfg \<Rightarrow> rx_io \<Rightarrow> hw_timestamp \<Rightarrow> net \<Rightarrow> wr_minic \<Rightarrow> (net \<times> wr_minic) option" where
  "update_rx_queues b io hwts0 s m = do {
     (recvd, hdr, payload, hwts, m) \<leftarrow>
       minic_rx_frame b io (rx_hdr s) (rx_payload s) (word_of_nat (512 - 32)) (Some hwts0) m;
     hwts \<leftarrow> hwts;
     s \<leftarrow> rx_dispatch recvd hwts (s\<lparr>rx_hdr := hdr, rx_payload := payload\<rparr>);
     Some (s, m)
   }"

end
