(* ===== verification/Minic_Props.thy ===== *)
theory Minic_Props
  imports Minic
begin

text \<open>
  Properties of the mini-NIC driver: frames that lie across the end of the receive buffer, the
  invariant of the buffer, the time of reception and of transmission, the image of a frame
  that is sent.
\<close>

section \<open>The receive buffer is a ring\<close>

definition rx_ok :: "wr_minic \<Rightarrow> bool" where
  [inv_simps]: "rx_ok s \<longleftrightarrow> length (dma_rx_buf s) = 2048 \<and> mn_rx_base s = a_rx s \<and>
     mn_rx_size s = 512 \<and> unat (a_rx s) + 8192 < 2 ^ 32"

text \<open>The position of an address in the ring.\<close>

definition rx_pos :: "wr_minic \<Rightarrow> u32 \<Rightarrow> nat" where
  "rx_pos s a = unat (a - a_rx s) mod 2048"

abbreviation rx_ring :: "wr_minic \<Rightarrow> nat \<Rightarrow> nat \<Rightarrow> u8 list" where
  "rx_ring s \<equiv> ring_read 2048 (dma_rx_buf s)"

lemma rx_pos_less: "rx_pos s a < 2048"
  by (simp add: rx_pos_def)

lemma rx_wrap_eq:
  assumes "rx_ok s"
  shows "rx_wrap s a = a_rx s + word_of_nat (rx_pos s a)"
proof -
  have "push_bit 2 (mn_rx_size s) = 2048" "mn_rx_base s = a_rx s"
    using assms by (simp_all add: rx_ok_def push_bit_eq_mult)
  then show ?thesis by (simp only: rx_wrap_def rx_pos_def word_arith_nat_mod) simp
qed

lemma rx_off_wrap: "rx_ok s \<Longrightarrow> rx_off s (rx_wrap s a) = rx_pos s a"
  using rx_pos_less [of s a]
  by (simp add: rx_off_def rx_wrap_eq unat_of_nat)

lemma rx_fits:
  assumes "rx_ok s" "unat sz \<le> 4096"
  shows "rx_wrap s a + sz \<le> mn_rx_base s + push_bit 2 (mn_rx_size s) \<longleftrightarrow>
    rx_pos s a + unat sz \<le> 2048"
proof -
  have p: "rx_pos s a < 2048" by (rule rx_pos_less)
  have "unat (rx_wrap s a + sz) = unat (a_rx s) + rx_pos s a + unat sz"
    using assms p by (simp add: rx_wrap_eq rx_ok_def unat_word_ariths unat_of_nat)
  moreover have "unat (mn_rx_base s + push_bit 2 (mn_rx_size s)) = unat (a_rx s) + 2048"
    using assms by (simp add: rx_ok_def push_bit_eq_mult unat_word_ariths)
  ultimately show ?thesis by (simp add: word_le_nat_alt)
qed

lemma rx_part:
  assumes "rx_ok s"
  shows "unat (mn_rx_base s + push_bit 2 (mn_rx_size s) - rx_wrap s a) = 2048 - rx_pos s a"
proof -
  have p: "rx_pos s a < 2048" by (rule rx_pos_less)
  have "mn_rx_base s + push_bit 2 (mn_rx_size s) - rx_wrap s a = word_of_nat (2048 - rx_pos s a)"
    using assms p of_nat_diff [of "rx_pos s a" 2048, where 'a = u32]
    by (simp add: rx_wrap_eq rx_ok_def push_bit_eq_mult)
  then have "unat (mn_rx_base s + push_bit 2 (mn_rx_size s) - rx_wrap s a) =
      (2048 - rx_pos s a) mod 2 ^ 32"
    by (simp only: unat_of_nat) simp
  then show ?thesis by simp
qed

lemma rx_rest:
  assumes "rx_ok s" "2048 < rx_pos s a + unat sz"
  shows "unat (sz - (mn_rx_base s + push_bit 2 (mn_rx_size s) - rx_wrap s a)) =
    unat sz - (2048 - rx_pos s a)"
  using assms rx_part [OF assms(1), of a]
  by (subst unat_sub) (auto simp: word_le_nat_alt)

lemma rx_off_base: "rx_ok s \<Longrightarrow> rx_off s (mn_rx_base s) = 0"
  by (simp add: rx_off_def rx_ok_def)

text \<open>\<open>minic_rx_memcpy\<close> reads the ring.\<close>

lemma minic_rx_memcpy_ring:
  assumes "rx_ok s" "unat sz \<le> 2048" "unat sz \<le> room"
  shows "minic_rx_memcpy s room src sz = Some (rx_ring s (rx_pos s src) (unat sz))"
proof (cases "rx_pos s src + unat sz \<le> 2048")
  case True
  then show ?thesis
    using assms rx_fits [OF assms(1), of sz src] ring_read_linear [OF True, of "dma_rx_buf s"]
    by (simp add: minic_rx_memcpy_def rx_off_wrap mem_get_def rx_ok_def Let_def)
next
  case False
  let ?p = "rx_pos s src"
  have p: "?p < 2048" by (rule rx_pos_less)
  have len: "length (dma_rx_buf s) = 2048" using assms(1) by (simp add: rx_ok_def)
  have sz: "unat sz = (2048 - ?p) + (unat sz - (2048 - ?p))" using False by simp
  have "rx_ring s ?p (unat sz) = rx_ring s ?p (2048 - ?p) @
      rx_ring s (?p + (2048 - ?p)) (unat sz - (2048 - ?p))"
    by (subst sz) (rule ring_read_append)
  also have "rx_ring s ?p (2048 - ?p) = take (2048 - ?p) (drop ?p (dma_rx_buf s))"
    using p len by (intro ring_read_linear) auto
  also have "rx_ring s (?p + (2048 - ?p)) (unat sz - (2048 - ?p)) =
      rx_ring s 0 (unat sz - (2048 - ?p))"
    using p ring_read_mod [of 2048 "dma_rx_buf s" 2048] by simp
  also have "\<dots> = take (unat sz - (2048 - ?p)) (drop 0 (dma_rx_buf s))"
    using p len assms(2) by (intro ring_read_linear) auto
  finally show ?thesis
    using assms False rx_fits [OF assms(1), of sz src] p len
    by (simp add: minic_rx_memcpy_def rx_off_wrap mem_get_def Let_def rx_part rx_rest rx_off_base)
qed

text \<open>\<open>minic_rx_memset\<close> fills a part of the ring and leaves the rest alone.\<close>

definition ring_filled :: "nat \<Rightarrow> nat \<Rightarrow> 'a \<Rightarrow> 'a list \<Rightarrow> 'a list \<Rightarrow> bool" where
  "ring_filled p n c xs ys \<longleftrightarrow> length ys = 2048 \<and>
     (\<forall>i < 2048. ys ! ((p + i) mod 2048) = (if i < n then c else xs ! ((p + i) mod 2048)))"

lemma ring_pos_cases: "p < 2048 \<Longrightarrow> i < 2048 \<Longrightarrow>
  (p + i) mod 2048 = (if p + i < 2048 then p + i else p + i - (2048 :: nat))"
  by (simp add: mod_if)

lemma minic_rx_memset_ring:
  assumes "rx_ok s" "unat sz \<le> 2048"
  shows "\<exists>buf. minic_rx_memset a c sz s = Some (s\<lparr>dma_rx_buf := buf\<rparr>) \<and>
    ring_filled (rx_pos s a) (unat sz) c (dma_rx_buf s) buf"
proof (cases "rx_pos s a + unat sz \<le> 2048")
  case True
  have len: "length (dma_rx_buf s) = 2048" using assms(1) by (simp add: rx_ok_def)
  obtain buf where buf: "mem_put (dma_rx_buf s) (rx_pos s a) (replicate (unat sz) c) = Some buf"
    using True len by (simp add: mem_put_def)
  have "ring_filled (rx_pos s a) (unat sz) c (dma_rx_buf s) buf"
    using True len length_mem_put [OF buf] rx_pos_less [of s a]
    by (auto simp: ring_filled_def ring_pos_cases nth_mem_put [OF buf])
  moreover have "minic_rx_memset a c sz s = Some (s\<lparr>dma_rx_buf := buf\<rparr>)"
    using True assms rx_fits [OF assms(1), of sz a] buf
    by (simp add: minic_rx_memset_def rx_fill_def rx_off_wrap Let_def)
  ultimately show ?thesis by blast
next
  case False
  let ?p = "rx_pos s a"
  have p: "?p < 2048" by (rule rx_pos_less)
  have len: "length (dma_rx_buf s) = 2048" using assms(1) by (simp add: rx_ok_def)
  obtain b1 where b1: "mem_put (dma_rx_buf s) ?p (replicate (2048 - ?p) c) = Some b1"
    using p len by (simp add: mem_put_def)
  have len1: "length b1 = 2048" using length_mem_put [OF b1] len by simp
  obtain b2 where b2: "mem_put b1 0 (replicate (unat sz - (2048 - ?p)) c) = Some b2"
  proof -
    have "0 + length (replicate (unat sz - (2048 - ?p)) c) \<le> length b1"
      using len1 assms(2) by simp
    from mem_put_defined [OF this] that show thesis by blast
  qed
  have "ring_filled ?p (unat sz) c (dma_rx_buf s) b2"
    using False p len len1 assms(2) length_mem_put [OF b2]
    by (auto simp: ring_filled_def ring_pos_cases nth_mem_put [OF b2] nth_mem_put [OF b1])
  moreover have "rx_off (s\<lparr>dma_rx_buf := b1\<rparr>) (mn_rx_base s) = 0"
    using rx_off_base [OF assms(1)] by (simp add: rx_off_def)
  then have "minic_rx_memset a c sz s = Some (s\<lparr>dma_rx_buf := b2\<rparr>)"
    using False assms rx_fits [OF assms(1), of sz a] b1 b2
    by (simp add: minic_rx_memset_def rx_fill_def rx_off_wrap Let_def rx_part rx_rest)
  ultimately show ?thesis by blast
qed

lemma ring_filled_read:
  assumes "ring_filled p n c xs ys" "n + m \<le> 2048"
  shows "ring_read 2048 ys p n = replicate n c" "ring_read 2048 ys (p + n) m = ring_read 2048 xs (p + n) m"
  using assms by (auto simp: ring_filled_def add.assoc intro!: nth_equalityI)

section \<open>The driver keeps its place in the ring\<close>

definition rx_inv :: "wr_minic \<Rightarrow> bool" where
  [inv_simps]: "rx_inv s \<longleftrightarrow> rx_ok s \<and> rx_off s (mn_rx_head s) < 2048 \<and>
     4 dvd rx_off s (mn_rx_head s)"

abbreviation rx_at :: "wr_minic \<Rightarrow> nat" where
  "rx_at s \<equiv> rx_off s (mn_rx_head s)"

lemma rx_inv_ok: "rx_inv s \<Longrightarrow> rx_ok s"
  by (simp add: rx_inv_def)

lemma rx_pos_head: "rx_inv s \<Longrightarrow> rx_pos s (mn_rx_head s) = rx_at s"
  by (simp add: rx_inv_def rx_pos_def rx_off_def)

lemma rx_pos_add: "rx_pos s (a + w) = (rx_pos s a + unat w) mod 2048"
proof -
  have "rx_pos s (a + w) = unat ((a - a_rx s) + w) mod 2048"
    by (simp add: rx_pos_def algebra_simps)
  also have "\<dots> = (unat (a - a_rx s) + unat w) mod 2048"
    by (simp add: unat_word_ariths mod_mod_cancel)
  finally show ?thesis by (simp add: rx_pos_def mod_add_left_eq)
qed

lemma rx_head_fits: "rx_inv s \<Longrightarrow> rx_at s \<le> 2044"
proof -
  assume inv: "rx_inv s"
  then obtain k where "rx_at s = 4 * k" "4 * k < 2048" by (auto simp: rx_inv_def elim: dvdE)
  then show "rx_at s \<le> 2044" by simp
qed

lemma rx_desc_ring: "rx_inv s \<Longrightarrow> rx_desc s = Some (word_of_nat (be_val (rx_ring s (rx_at s) 4)))"
  using rx_head_fits [of s] ring_read_linear [of "rx_at s" 4 2048 "dma_rx_buf s"]
  by (simp add: rx_desc_def mem_get_def rx_inv_def rx_ok_def)

lemma rx_ok_frame:
  assumes "rx_ok s"
  shows "rx_ok (minic_writel r v s)" "rx_ok (s\<lparr>mn_rx_head := h\<rparr>)" "rx_ok (s\<lparr>mn_rx_count := n\<rparr>)"
    "length buf = 2048 \<Longrightarrow> rx_ok (s\<lparr>dma_rx_buf := buf\<rparr>)"
  using assms by (simp_all add: rx_ok_def minic_writel_def)

lemma rx_inv_writel [simp]: "rx_inv (minic_writel r v s) = rx_inv s"
  by (simp add: rx_inv_def rx_ok_def minic_writel_def rx_off_def)

text \<open>A new receive buffer: all zero, with the head at its start.\<close>

lemma minic_new_rx_buffer_ok:
  assumes "length (dma_rx_buf s) = 2048" "unat (a_rx s) + 8192 < 2 ^ 32"
  shows "\<exists>s'. minic_new_rx_buffer s = Some s' \<and> rx_inv s' \<and> rx_at s' = 0 \<and>
    dma_rx_buf s' = replicate 2048 0 \<and> a_rx s' = a_rx s \<and> (\<exists>ws. mn_writes s' = mn_writes s @ ws)"
proof -
  let ?s = "minic_writel MINIC_REG_MCR 0 s\<lparr>mn_rx_base := a_rx s, mn_rx_size := 512,
    mn_rx_head := a_rx s\<rparr>"
  have ok: "rx_ok ?s" using assms by (simp add: rx_ok_def minic_writel_def)
  have sz: "push_bit 2 (512 :: u32) = 2048" by (simp add: push_bit_eq_mult)
  have pos: "rx_pos ?s (a_rx s) = 0" by (simp add: rx_pos_def minic_writel_def)
  have "unat (2048 :: u32) \<le> 2048" by simp
  from minic_rx_memset_ring [OF ok this, of "a_rx s" 0] obtain buf where
    buf: "minic_rx_memset (a_rx s) 0 2048 ?s = Some (?s\<lparr>dma_rx_buf := buf\<rparr>)"
    and fill: "ring_filled (rx_pos ?s (a_rx s)) (unat (2048 :: u32)) 0 (dma_rx_buf ?s) buf"
    by blast
  have "ring_filled 0 2048 0 (dma_rx_buf ?s) buf" using fill unfolding pos by simp
  then have zero: "buf = replicate 2048 0"
    by (auto simp: ring_filled_def intro!: nth_equalityI)
  have "minic_new_rx_buffer s = Some (minic_writel MINIC_REG_MCR MINIC_MCR_RX_EN
      (minic_writel MINIC_REG_EIC_ISR MINIC_EIC_RX (minic_writel MINIC_REG_RX_SIZE 512
        (minic_writel MINIC_REG_RX_ADDR (a_rx s) (?s\<lparr>dma_rx_buf := buf\<rparr>)))))"
    using buf by (simp add: minic_new_rx_buffer_def Let_def sz minic_writel_def)
  then show ?thesis
    using assms zero by (simp add: minic_writel_def rx_inv_def rx_ok_def rx_off_def)
qed

text \<open>
  Giving \<open>n\<close> bytes at the head back, of a buffer in which more follows: exactly these bytes are cleared, the hardware gets their words,
  and the head is behind them. Only if there is no valid descriptor behind them and the hardware says that the buffer is
  full, the driver starts with an empty one.
\<close>

definition rx_desc_at :: "wr_minic \<Rightarrow> nat \<Rightarrow> u32" where
  "rx_desc_at s p = word_of_nat (be_val (rx_ring s p 4))"

definition rx_given_back :: "rx_io \<Rightarrow> nat \<Rightarrow> wr_minic \<Rightarrow> wr_minic \<Rightarrow> bool" where
  "rx_given_back io n s s' \<longleftrightarrow>
     take 1 (drop (length (mn_writes s)) (mn_writes s')) = [(MINIC_REG_RX_AVAIL, word_of_nat (n div 4))] \<and>
     (if \<not> RX_DESC_VALID (rx_desc_at s (rx_at s + n)) \<and> io_MCR io AND MINIC_MCR_RX_FULL \<noteq> 0
      then rx_at s' = 0 \<and> dma_rx_buf s' = replicate 2048 0
      else rx_at s' = (rx_at s + n) mod 2048 \<and> ring_filled (rx_at s) n 0 (dma_rx_buf s) (dma_rx_buf s'))"

lemma rx_advance_ok:
  assumes inv: "rx_inv s" and nw: "unat nw \<le> 512"
  shows "\<exists>s'. rx_advance io nw s = Some s' \<and> rx_inv s' \<and> a_rx s' = a_rx s \<and>
    (unat nw \<le> 511 \<longrightarrow> rx_given_back io (4 * unat nw) s s')"
proof -
  have ok: "rx_ok s" using inv by (rule rx_inv_ok)
  have sz: "unat (push_bit 2 nw) = 4 * unat nw"
    using nw by (simp add: push_bit_eq_mult unat_word_ariths)
  obtain buf where buf: "minic_rx_memset (mn_rx_head s) 0 (push_bit 2 nw) s = Some (s\<lparr>dma_rx_buf := buf\<rparr>)"
    and fill: "ring_filled (rx_at s) (4 * unat nw) 0 (dma_rx_buf s) buf"
    using minic_rx_memset_ring [OF ok, of "push_bit 2 nw" "mn_rx_head s" 0] nw sz
      rx_pos_head [OF inv] by auto
  define s1 where "s1 = rx_move_head nw (minic_writel MINIC_REG_RX_AVAIL nw (s\<lparr>dma_rx_buf := buf\<rparr>))"
  have h: "mn_rx_head s1 = rx_wrap s (mn_rx_head s + push_bit 2 nw)"
    by (simp add: s1_def rx_move_head_def rx_wrap_def minic_writel_def)
  have "rx_off s (mn_rx_head s1) = (rx_at s + 4 * unat nw) mod 2048"
    unfolding h rx_off_wrap [OF ok] rx_pos_add rx_pos_head [OF inv] sz ..
  then have at1: "rx_at s1 = (rx_at s + 4 * unat nw) mod 2048"
    by (simp add: s1_def rx_move_head_def minic_writel_def rx_off_def)
  have len: "length buf = 2048" using fill by (simp add: ring_filled_def)
  have "4 dvd (rx_at s + 4 * unat nw) mod 2048"
    using inv by (intro dvd_mod) (auto simp: rx_inv_def)
  then have inv1: "rx_inv s1" using ok len at1
    by (simp add: rx_inv_def rx_ok_def s1_def rx_move_head_def minic_writel_def)
  have step: "rx_advance io nw s = rx_check_next io s1"
    using buf by (simp add: rx_advance_def minic_rxbuf_free_def s1_def)
  note nxt = step [unfolded rx_check_next_def rx_desc_ring [OF inv1]]
  have bufs: "dma_rx_buf s1 = buf" "a_rx s1 = a_rx s" "mn_writes s1 = mn_writes s @ [(MINIC_REG_RX_AVAIL, nw)]"
    by (simp_all add: s1_def rx_move_head_def minic_writel_def)
  have old: "rx_ring s1 (rx_at s1) 4 = rx_ring s (rx_at s + 4 * unat nw) 4" if "unat nw \<le> 511"
    using ring_filled_read(2) [OF fill, of 4] that by (simp add: at1 bufs)
  show ?thesis
  proof (cases "RX_DESC_VALID (word_of_nat (be_val (rx_ring s1 (rx_at s1) 4)))")
    case True
    then show ?thesis using nxt inv1 at1 fill bufs old
      by (cases "unat nw \<le> 511") (simp_all add: rx_given_back_def rx_desc_at_def)
  next
    case False
    show ?thesis
    proof (cases "io_MCR io AND MINIC_MCR_RX_FULL \<noteq> 0")
      case full: True
      have "length (dma_rx_buf s1) = 2048" "unat (a_rx s1) + 8192 < 2 ^ 32"
        using inv1 by (simp_all add: rx_inv_def rx_ok_def)
      from minic_new_rx_buffer_ok [OF this] obtain s2 where
        s2: "minic_new_rx_buffer s1 = Some s2" "rx_inv s2" "rx_at s2 = 0"
          "dma_rx_buf s2 = replicate 2048 0" "a_rx s2 = a_rx s1" "\<exists>ws. mn_writes s2 = mn_writes s1 @ ws" by blast
      then obtain ws where ws: "mn_writes s2 = mn_writes s1 @ ws" by blast
      show ?thesis using False full nxt s2 bufs ws old
        by (cases "unat nw \<le> 511") (simp_all add: minic_writel_def rx_inv_def rx_ok_def rx_off_def rx_given_back_def rx_desc_at_def)
    next
      case notfull: False
      then show ?thesis using False nxt inv1 bufs fill at1
        by (simp add: minic_writel_def rx_inv_def rx_ok_def rx_off_def rx_given_back_def)
    qed
  qed
qed

section \<open>Receiving a frame\<close>

text \<open>
  A frame as the mini-NIC puts it behind the head: descriptor, Ethernet header, data and the
  tail with the status word and the raw timestamp, possibly across the end of the buffer.
\<close>

definition rx_frame_at :: "wr_minic \<Rightarrow> u32 \<Rightarrow> u8 list \<Rightarrow> u8 list \<Rightarrow> u16 \<Rightarrow> u32 \<Rightarrow> bool" where
  "rx_frame_at s desc hdr data dhdr raw \<longleftrightarrow>
     RX_DESC_VALID desc \<and> \<not> RX_DESC_ERROR desc \<and> RX_DESC_HAS_OOB desc \<and>
     unat (RX_DESC_SIZE desc) = 20 + length data \<and> length hdr = 14 \<and>
     rx_ring s (rx_at s) (4 + (14 + (length data + (2 + 4)))) =
       be_bytes 4 (unat desc) @ hdr @ data @ be_bytes 2 (unat dhdr) @ be_bytes 4 (unat raw)"

lemma rx_frame_parts:
  assumes "rx_frame_at s desc hdr data dhdr raw"
  shows "rx_ring s (rx_at s) 4 = be_bytes 4 (unat desc)"
    "rx_ring s (rx_at s + 4) 14 = hdr"
    "rx_ring s (rx_at s + 18) (length data) = data"
    "rx_ring s (rx_at s + 18 + length data) 2 = be_bytes 2 (unat dhdr)"
    "rx_ring s (rx_at s + 20 + length data) 4 = be_bytes 4 (unat raw)"
proof -
  have "rx_ring s (rx_at s) 4 @ rx_ring s (rx_at s + 4) 14 @
      rx_ring s (rx_at s + 4 + 14) (length data) @ rx_ring s (rx_at s + 4 + 14 + length data) 2 @
      rx_ring s (rx_at s + 4 + 14 + length data + 2) 4 =
    be_bytes 4 (unat desc) @ hdr @ data @ be_bytes 2 (unat dhdr) @ be_bytes 4 (unat raw)"
    using assms unfolding rx_frame_at_def ring_read_append by simp
  then show "rx_ring s (rx_at s) 4 = be_bytes 4 (unat desc)"
    "rx_ring s (rx_at s + 4) 14 = hdr"
    "rx_ring s (rx_at s + 18) (length data) = data"
    "rx_ring s (rx_at s + 18 + length data) 2 = be_bytes 2 (unat dhdr)"
    "rx_ring s (rx_at s + 20 + length data) 4 = be_bytes 4 (unat raw)"
    using assms unfolding rx_frame_at_def by (auto simp: algebra_simps)
qed

lemma be_val_word_bytes [simp]:
  "be_val (be_bytes 4 (unat (w4 :: u32))) = unat w4" "be_val (be_bytes 2 (unat (w2 :: u16))) = unat w2"
proof -
  have "unat w4 < 2 ^ 32" "unat w2 < 2 ^ 16" using unsigned_less [of w4] unsigned_less [of w2] by auto
  then show "be_val (be_bytes 4 (unat w4)) = unat w4" "be_val (be_bytes 2 (unat w2)) = unat w2"
    by simp_all
qed

text \<open>Reading at an address given relative to the head.\<close>

lemma rx_read_at:
  assumes "rx_inv s" "unat sz \<le> 2048" "unat sz \<le> room" "unat w = k"
  shows "minic_rx_memcpy s room (mn_rx_head s + w) sz = Some (rx_ring s (rx_at s + k) (unat sz))"
  using minic_rx_memcpy_ring [OF rx_inv_ok [OF assms(1)] assms(2,3)]
  by (simp only: rx_pos_add rx_pos_head [OF assms(1)] assms(4) ring_read_mod)

lemma rx_oob_frame:
  assumes inv: "rx_inv s" and frame: "rx_frame_at s desc hdr data dhdr raw"
    and clock: "shw_pps_gen_get_time b (io_cntr io) = Some now"
    and size: "length data \<le> 2000"
  shows "rx_oob b io s desc (RX_DESC_SIZE desc) (Some ts) =
    Some (word_of_nat (14 + length data), Some (rx_timestamp b raw dhdr now ts))"
proof -
  let ?ps = "word_of_nat (14 + length data) :: u32"
  have oob: "RX_DESC_HAS_OOB desc" and sz: "unat (RX_DESC_SIZE desc) = 20 + length data"
    using frame by (simp_all add: rx_frame_at_def)
  have "RX_DESC_SIZE desc = word_of_nat (unat (RX_DESC_SIZE desc))" by simp
  then have ps: "RX_DESC_SIZE desc - 6 = ?ps" unfolding sz by simp
  have u: "unat (word_of_nat (k + length data) :: u32) = k + length data" if "k \<le> 20" for k
    using size that by (simp only: unat_of_nat) simp
  have w: "unat (?ps + 6) = 20 + length data" "unat (?ps + 4) = 18 + length data"
    using u [of 20] u [of 18] by simp_all
  have raw: "minic_rx_memcpy s 4 (mn_rx_head s + (?ps + 6)) 4 = Some (be_bytes 4 (unat raw))"
    using rx_read_at [OF inv _ _ w(1), of 4 4] rx_frame_parts(5) [OF frame]
    by (simp add: add.assoc)
  have dhdr: "minic_rx_memcpy s 2 (mn_rx_head s + (?ps + 4)) 2 = Some (be_bytes 2 (unat dhdr))"
    using rx_read_at [OF inv _ _ w(2), of 2 2] rx_frame_parts(4) [OF frame]
    by (simp add: add.assoc)
  show ?thesis
    using oob ps raw dhdr clock by (simp add: rx_oob_def Let_def add.assoc)
qed

lemma rx_copy_frame:
  assumes inv: "rx_inv s" and frame: "rx_frame_at s desc hdr data dhdr raw"
    and size: "length data \<le> length payload" "length data \<le> 2000"
  shows "rx_copy s payload ps (word_of_nat (14 + length data)) =
    Some (hdr, data @ drop (length data) payload)"
proof -
  have u: "unat (word_of_nat (length data) :: u32) = length data"
    using size by (simp only: unat_of_nat) simp
  have h: "minic_rx_memcpy s 14 (mn_rx_head s + 4) 14 = Some hdr"
    using rx_read_at [OF inv, of 14 14 4 4] rx_frame_parts(2) [OF frame] by simp
  have p: "minic_rx_memcpy s (length payload) (mn_rx_head s + 18) (word_of_nat (length data)) = Some data"
    using rx_read_at [OF inv, of "word_of_nat (length data)" "length payload" 18 18]
      rx_frame_parts(3) [OF frame] size u by simp
  show ?thesis using h p by (simp add: rx_copy_def add.assoc)
qed

text \<open>
  C12. Reception. If the hardware reports a frame, and the frame behind the head carries a header
  and \<open>data\<close> that fits into the caller's buffer, \<open>minic_rx_frame\<close> returns the length of header
  and data, exactly this header and this data, also when the frame lies across the end of the
  buffer, and the timestamp of the frame's tail. The words of the frame, one for the descriptor and one for each four bytes or
  part of it, are cleared and given back to the hardware and no others; the head is behind
  them, where the next frame is, unless nothing follows and the hardware reports that the buffer is full: then
  the driver has started with an empty one.
\<close>

theorem rx_frame_delivers:
  assumes inv: "rx_inv s" and isr: "io_ISR io AND MINIC_EIC_RX \<noteq> 0"
    and frame: "rx_frame_at s desc hdr data dhdr raw"
    and clock: "shw_pps_gen_get_time b (io_cntr io) = Some now"
    and size: "14 + length data \<le> unat buf_size" "length data \<le> length payload" "length data \<le> 2000"
  shows "\<exists>s'. minic_rx_frame b io hdr0 payload buf_size (Some ts) s =
      Some (int (14 + length data), hdr, data @ drop (length data) payload,
            Some (rx_timestamp b raw dhdr now ts), s') \<and> rx_inv s' \<and>
    rx_given_back io (4 + 4 * ((23 + length data) div 4)) s s'"
proof -
  have desc: "rx_desc s = Some desc"
    using rx_desc_ring [OF inv] rx_frame_parts(1) [OF frame] by simp
  have valid: "RX_DESC_VALID desc" "\<not> RX_DESC_ERROR desc"
    and sz: "unat (RX_DESC_SIZE desc) = 20 + length data"
    using frame by (simp_all add: rx_frame_at_def)
  have u: "unat (word_of_nat (14 + length data) :: u32) = 14 + length data"
    using size by (simp only: unat_of_nat) simp
  have n: "(if buf_size < word_of_nat (14 + length data) then buf_size
      else word_of_nat (14 + length data)) = word_of_nat (14 + length data)"
    using size(1) u by (simp only: word_less_nat_alt) auto
  have int: "of_u32 (word_of_nat (14 + length data)) = int (14 + length data)"
    unfolding of_u32_def by (rule sint_of_nat_small) (use size in simp)
  let ?s = "s\<lparr>mn_rx_count := add32 (mn_rx_count s) 1\<rparr>"
  let ?nw = "drop_bit 2 (RX_DESC_SIZE desc + 3) + 1"
  have inv': "rx_inv ?s" using inv by (simp add: rx_inv_def rx_ok_def rx_off_def)
  have frame': "rx_frame_at ?s desc hdr data dhdr raw"
    using frame by (simp add: rx_frame_at_def rx_off_def)
  have a: "unat (RX_DESC_SIZE desc + 3) = 23 + length data"
    using size(3) sz by (simp add: unat_word_ariths)
  have "unat (drop_bit 2 (RX_DESC_SIZE desc + 3)) = (23 + length data) div 4"
    unfolding unsigned_drop_bit_eq using a size(3) by (simp add: drop_bit_eq_div take_bit_eq_mod)
  then have nw: "unat ?nw = (23 + length data) div 4 + 1" using size(3) by (simp add: unat_word_ariths)
  then have "unat ?nw \<le> 512" "unat ?nw \<le> 511" using size(3) by simp_all
  then obtain s' where s': "rx_advance io ?nw ?s = Some s'" "rx_inv s'" "rx_given_back io (4 * unat ?nw) ?s s'"
    using rx_advance_ok [OF inv', of ?nw io] by blast
  then have g: "rx_given_back io (4 + 4 * ((23 + length data) div 4)) s s'"
    by (simp add: rx_given_back_def rx_desc_at_def rx_off_def nw cong: if_cong)
  show ?thesis
    using isr desc valid rx_oob_frame [OF inv frame clock size(3)] n int
      rx_copy_frame [OF inv' frame' size(2,3)] s'(1,2) g
    by (simp add: minic_rx_frame_def Let_def del: of_nat_add)
qed

text \<open>A frame with two bytes of data whose header lies across the end of the buffer.\<close>

definition rx_demo :: wr_minic where
  "rx_demo = \<lparr>mn_rx_head = 0x10000 + 2040, mn_rx_base = 0x10000, mn_rx_size = 512,
     mn_tx_head = 0, mn_tx_base = 0, mn_tx_avail = 0, mn_tx_size = 0, mn_tx_count = 0,
     mn_rx_count = 0,
     dma_rx_buf = [5, 6, 7, 8, 9, 10, 11, 12, 0x88, 0xf7, 1, 2, 0, 0, 0x10, 0, 0, 0] @
       replicate 2022 0 @ [0xA0, 0, 0, 22, 1, 2, 3, 4],
     dma_tx_buf = [], a_rx = 0x10000, a_tx = 0, mn_writes = []\<rparr>"

lemma rx_demo_inv: "rx_inv rx_demo"
  by (simp add: rx_inv_def rx_ok_def rx_off_def rx_demo_def)

lemma rx_demo_frame:
  "rx_frame_at rx_demo 0xA0000016 [1, 2, 3, 4, 5, 6, 7, 8, 9, 10, 11, 12, 0x88, 0xf7] [1, 2] 0 0x10000000"
proof -
  have "rx_ring rx_demo 2040 8 = take 8 (drop 2040 (dma_rx_buf rx_demo))"
    by (rule ring_read_linear) (simp_all add: rx_demo_def)
  moreover have "rx_ring rx_demo 2048 18 = take 18 (drop 0 (dma_rx_buf rx_demo))"
    using ring_read_mod [of 2048 "dma_rx_buf rx_demo" 2048 18]
      ring_read_linear [of 0 18 2048 "dma_rx_buf rx_demo"]
    by (simp add: rx_demo_def)
  ultimately have "rx_ring rx_demo 2040 (8 + 18) =
      take 8 (drop 2040 (dma_rx_buf rx_demo)) @ take 18 (drop 0 (dma_rx_buf rx_demo))"
    by (simp only: ring_read_append) simp
  also have "\<dots> = [0xA0, 0, 0, 22, 1, 2, 3, 4] @
      [5, 6, 7, 8, 9, 10, 11, 12, 0x88, 0xf7, 1, 2, 0, 0, 0x10, 0, 0, 0]"
    by (simp add: rx_demo_def)
  finally have "rx_ring rx_demo 2040 26 = [0xA0, 0, 0, 22, 1, 2, 3, 4, 5, 6, 7, 8, 9, 10, 11, 12,
      0x88, 0xf7, 1, 2, 0, 0, 0x10, 0, 0, 0]" by simp
  moreover have "rx_at rx_demo = 2040" by (simp add: rx_off_def rx_demo_def)
  moreover have "be_bytes 4 (unat (0xA0000016 :: u32)) = [0xA0, 0, 0, 22]"
    "be_bytes 4 (unat (0x10000000 :: u32)) = [0x10, 0, 0, 0]" "be_bytes 2 (unat (0 :: u16)) = [0, 0]"
    by (simp_all add: be_bytes_2 be_bytes_4)
  ultimately show ?thesis
    by (simp add: rx_frame_at_def RX_DESC_VALID_def RX_DESC_ERROR_def RX_DESC_HAS_OOB_def
      RX_DESC_SIZE_def)
qed

lemma rx_frame_delivers_witness:
  "let r = \<lparr>CNTR_UTCLO = 7, CNTR_UTCHI = 0, CNTR_NSEC = 100\<rparr>;
       io = \<lparr>io_ISR = 2, io_MCR = 0, io_cntr = [r, r, r, r, r]\<rparr>;
       ts = \<lparr>ts_valid = 0, ts_ahead = 0, ts_sec = 0, ts_nsec = 0, ts_phase = 0\<rparr>
   in \<exists>s'. minic_rx_frame board_wrc io (replicate 14 0) [9, 9, 9, 9] 480 (Some ts) rx_demo =
      Some (int (14 + length [1, 2 :: u8]), [1, 2, 3, 4, 5, 6, 7, 8, 9, 10, 11, 12, 0x88, 0xf7],
        [1, 2] @ drop (length [1, 2 :: u8]) [9, 9, 9, 9],
        Some (rx_timestamp board_wrc 0x10000000 0 (7, 800) ts), s') \<and> rx_inv s' \<and>
      rx_given_back io (4 + 4 * ((23 + length [1, 2 :: u8]) div 4)) rx_demo s'"
  unfolding Let_def
  by (rule rx_frame_delivers [OF rx_demo_inv _ rx_demo_frame])
    (simp_all add: gen_mask_def mask_eq_exp_minus_1 pps_get_utc_def board_wrc_def)

section \<open>The time of a frame\<close>

lemma quarter_seconds:
  assumes "F = 4 * k" "T \<le> T'" "T' < T + k" "0 < (k :: nat)"
  shows "T' div F = T div F \<and> T mod F \<le> T' mod F \<or>
    T' div F = Suc (T div F) \<and> 3 * k < T mod F \<and> T' mod F < k"
proof -
  have F: "0 < F" using assms(1,4) by simp
  have le: "T div F \<le> T' div F" "T' div F \<le> Suc (T div F)"
    using assms seconds_span [of T' T F] by (auto intro: div_le_mono)
  have eq: "T = T div F * F + T mod F" "T' = T' div F * F + T' mod F" by simp_all
  have r: "T mod F < F" "T' mod F < F" using F by simp_all
  consider "T' div F = T div F" | "T' div F = Suc (T div F)" using le by linarith
  then show ?thesis
  proof cases
    case 1
    then have "T mod F \<le> T' mod F" using eq assms(2) by (metis nat_add_left_cancel_le)
    with 1 show ?thesis by simp
  next
    case 2
    then have "T' = T div F * F + F + T' mod F" using eq(2) by simp
    then have "F + T' mod F < T mod F + k" using eq(1) assms(3) by linarith
    then show ?thesis using 2 r assms(1) by linarith
  qed
qed

lemma ts_second_exact:
  assumes b: "b = board_wrc \<or> b = board_wrs" and T: "T \<le> T'" "T' < T + clock_freq b div 4"
  shows "ts_second b (word_of_nat (T mod clock_freq b)) (fst (time_of b T')) (snd (time_of b T'))
    = word_of_nat (T div clock_freq b)"
proof -
  let ?F = "clock_freq b"
  obtain k p where k: "?F = 4 * k" "0 < k" "b_ref_clock_freq_hz b = 4 * int k"
      "b_ref_clock_period_ps b = 1000 * int p" "k * p = 250000000" "k < 2 ^ 26" "4 * k * p < 2 ^ 31"
    using b by (auto simp: clock_freq_def board_wrc_def board_wrs_def
      intro: that [of 31250000 8] that [of 15625000 16])
  have p: "0 < p" using k(5) by (cases p) auto
  have small: "T mod ?F < 4 * k" "T' mod ?F < 4 * k" using k by simp_all
  have c: "unat (word_of_nat (T mod ?F) :: u32) = T mod ?F"
    using small(1) k(6) by (simp only: unat_of_nat) simp
  have "T' mod ?F * p < 4 * k * p" using small(2) p by (rule mult_strict_right_mono)
  also have "\<dots> < 2 ^ 31" by (rule k(7))
  finally have lt: "T' mod ?F * p < 2 ^ 32" by simp
  have "T' mod ?F * nat (1000 * int p) div 1000 = T' mod ?F * p"
    by (simp add: nat_mult_distrib mult.left_commute)
  then have "snd (time_of b T') = word_of_nat (T' mod ?F * p)"
    unfolding time_of_def snd_conv k(4) by (rule arg_cong)
  then have n: "unat (snd (time_of b T')) = T' mod ?F * p"
    using lt by (simp only: unat_of_nat) simp
  have th: "to_u32 (3 * b_ref_clock_freq_hz b sdiv 4) = word_of_nat (3 * k)"
    using k(3) by (simp add: to_u32_def signed_divide_int_def sgn_if)
  have th': "unat (word_of_nat (3 * k) :: u32) = 3 * k"
    using k(6) by (simp only: unat_of_nat) simp
  have cond: "to_u32 (3 * b_ref_clock_freq_hz b sdiv 4) < (word_of_nat (T mod ?F) :: u32) \<and>
      snd (time_of b T') < 250000000 \<longleftrightarrow> 3 * k < T mod ?F \<and> T' mod ?F < k"
  proof -
    have "T' mod ?F * p < 250000000 \<longleftrightarrow> T' mod ?F < k"
      using p by (simp flip: k(5))
    then show ?thesis unfolding th word_less_nat_alt c th' n by simp
  qed
  have "T' < T + k" using T(2) k(1) by simp
  from quarter_seconds [OF k(1) T(1) this k(2)] show ?thesis
    unfolding ts_second_def cond using small
    by (auto simp: time_of_def)
qed

lemma nsec_of_cycles:
  assumes b: "b = board_wrc \<or> b = board_wrs"
  shows "word_of_nat (T mod clock_freq b) * to_u32 (b_ref_clock_period_ps b sdiv 1000) = snd (time_of b T)"
  using b by (auto simp: time_of_def board_wrc_def board_wrs_def to_u32_def signed_divide_int_def sgn_if)

text \<open>
  C13. The timestamps are exact. The hardware records only the cycle within the second; the driver
  completes it with the time at which it looks at the frame. If that is less than a quarter of
  a second later, the rebuilt time is the time of the frame, also when a second has begun in
  between; the other fields are the validity bit of the status word and the comparison of the
  two edge counters modulo 16.
\<close>

theorem rx_timestamp_exact:
  assumes "b = board_wrc \<or> b = board_wrs" "T \<le> T'" "T' < T + clock_freq b div 4"
    and "T' div clock_freq b < 2 ^ 31" "ts_rising raw = word_of_nat (T mod clock_freq b)"
  shows "let r = rx_timestamp b raw dhdr (time_of b T') ts
         in (ts_sec r, ts_nsec r) = time_of b T \<and>
            (ts_valid r = 1 \<longleftrightarrow> \<not> bit dhdr 11) \<and>
            (ts_ahead r = 1 \<longleftrightarrow> (uint (ts_rising raw) - uint (ts_falling raw)) mod 16 = 1)"
proof -
  have "T div clock_freq b \<le> T' div clock_freq b" using assms(2) by (rule div_le_mono)
  then have s31: "T div clock_freq b < 2 ^ 31" using assms(4) by linarith
  have m: "(0x7fffffff :: u64) = mask 31" by (simp add: mask_eq_exp_minus_1)
  have "unat (word_of_nat (T div clock_freq b) AND (0x7fffffff :: u64)) = T div clock_freq b"
    unfolding m unat_and_mask using s31 by (simp add: unat_of_nat)
  moreover have "unat (word_of_nat (T div clock_freq b) :: u64) = T div clock_freq b"
    using s31 by (simp add: unat_of_nat)
  ultimately have sec: "word_of_nat (T div clock_freq b) AND (0x7fffffff :: u64) =
      word_of_nat (T div clock_freq b)"
    unfolding word_unat_eq_iff by simp
  let ?r = "ts_rising raw" and ?f = "ts_falling raw"
  have m4: "(0xf :: u32) = mask 4" by (simp add: mask_eq_exp_minus_1)
  have r: "unat (?r AND 0xf) = unat ?r mod 16" unfolding m4 unat_and_mask by simp
  have f: "unat ?f < 16" unfolding ts_falling_def m4 unat_and_mask by simp
  define rm fm where "rm = int (unat ?r mod 16)" and "fm = int (unat ?f)"
  have rm: "0 \<le> rm" "rm < 16" and fm: "0 \<le> fm" "fm < 16" using f by (simp_all add: rm_def fm_def del: of_nat_unat)
  have u: "uint (?r AND 0xf) = rm" "uint ?f = fm" "uint ?r mod 16 = rm"
    using r unfolding rm_def fm_def by (metis uint_nat) (simp_all add: of_nat_mod)
  have "(?r AND 0xf) - ?f = word_of_int (uint (?r AND 0xf) - uint ?f)" by simp
  then have "(?r AND 0xf) - ?f = to_u32 (rm - fm)" unfolding u to_u32_def .
  moreover have "in32 (rm - fm)" using rm fm by (simp add: in32_def)
  ultimately have d: "of_u32 ((?r AND 0xf) - ?f) = rm - fm" by (simp add: of_to_u32)
  have "(uint ?r - uint ?f) mod 16 = (rm - fm) mod 16"
    unfolding u(2) u(3) [symmetric] by (rule mod_diff_left_eq [symmetric])
  moreover have "(rm - fm) mod 16 = (if rm < fm then rm - fm + 16 else rm - fm)"
  proof -
    have "(rm - fm + 16) mod 16 = rm - fm + 16" if "rm < fm"
      using that rm fm by (intro mod_pos_pos_trivial) auto
    then show ?thesis using rm fm by (simp add: mod_pos_pos_trivial)
  qed
  ultimately have ahead: "(of_u32 ((?r AND 0xf) - ?f) = 1 \<or> of_u32 ((?r AND 0xf) - ?f) = - 15) \<longleftrightarrow>
      (uint ?r - uint ?f) mod 16 = 1"
    unfolding d using rm fm by auto
  show ?thesis
    using ts_second_exact [OF assms(1-3)] nsec_of_cycles [OF assms(1), of T] sec ahead
    by (simp add: rx_timestamp_def Let_def assms(5) time_of_def)
qed

text \<open>A frame 8 microseconds before the end of a second, looked at in the next second.\<close>

lemma rx_timestamp_exact_witness:
  "\<forall>ts. let r = rx_timestamp board_wrc 2004047192 0 (time_of board_wrc 1000000010) ts
     in (ts_sec r, ts_nsec r) = time_of board_wrc 999999000 \<and>
        (ts_valid r = 1 \<longleftrightarrow> \<not> bit (0 :: u16) 11) \<and>
        (ts_ahead r = 1 \<longleftrightarrow> (uint (ts_rising 2004047192) - uint (ts_falling 2004047192)) mod 16 = 1)"
proof
  fix ts :: hw_timestamp
  have "ts_rising 2004047192 = word_of_nat (999999000 mod clock_freq board_wrc)"
    by (simp add: ts_rising_def clock_freq_def board_wrc_def)
  from rx_timestamp_exact [OF _ _ _ _ this, of 1000000010 0 ts]
  show "let r = rx_timestamp board_wrc 2004047192 0 (time_of board_wrc 1000000010) ts
     in (ts_sec r, ts_nsec r) = time_of board_wrc 999999000 \<and>
        (ts_valid r = 1 \<longleftrightarrow> \<not> bit (0 :: u16) 11) \<and>
        (ts_ahead r = 1 \<longleftrightarrow> (uint (ts_rising 2004047192) - uint (ts_falling 2004047192)) mod 16 = 1)"
    by (simp add: clock_freq_def board_wrc_def)
qed

text \<open>
  A frame with the error flag is dropped: the caller sees \<open>-1\<close>, its buffers are untouched and
  the driver goes on behind the frame.
\<close>

lemma rx_error_frame:
  assumes inv: "rx_inv s" and isr: "io_ISR io AND MINIC_EIC_RX \<noteq> 0"
    and desc: "rx_desc s = Some desc" "RX_DESC_VALID desc" "RX_DESC_ERROR desc"
      "unat (RX_DESC_SIZE desc) \<le> 2040"
  shows "\<exists>s'. minic_rx_frame b io hdr payload buf_size hwts s = Some (- 1, hdr, payload, hwts, s') \<and>
    rx_inv s'"
proof -
  let ?nw = "drop_bit 2 (RX_DESC_SIZE desc + 3) + 1"
  have "unat (RX_DESC_SIZE desc + 3) \<le> 2043"
    using desc(4) by (simp add: unat_word_ariths)
  then have "unat (drop_bit 2 (RX_DESC_SIZE desc + 3)) \<le> 510"
    unfolding unsigned_drop_bit_eq by (simp add: drop_bit_eq_div take_bit_eq_mod)
  then have nw: "unat ?nw \<le> 512" by (simp add: unat_word_ariths)
  from rx_advance_ok [OF inv nw] obtain s' where "rx_advance io ?nw s = Some s'" "rx_inv s'" by blast
  then show ?thesis using isr desc by (simp add: minic_rx_frame_def Let_def)
qed

section \<open>Sending a frame\<close>

lemma tx_put_Some: "tx_put off bs s = Some s' \<longleftrightarrow>
  (\<exists>buf. mem_put (dma_tx_buf s) off bs = Some buf \<and> s' = s\<lparr>dma_tx_buf := buf\<rparr>)"
  by (auto simp: tx_put_def split: bind_splits)

lemma tx_put_ok: "off + length bs \<le> length (dma_tx_buf s) \<Longrightarrow>
  \<exists>s'. tx_put off bs s = Some s' \<and> length (dma_tx_buf s') = length (dma_tx_buf s)"
  using mem_put_defined [of off bs "dma_tx_buf s"] length_mem_put
  by (fastforce simp: tx_put_def)

lemma tx_put_nth: "tx_put off bs s = Some s' \<Longrightarrow> i < length (dma_tx_buf s) \<Longrightarrow>
  dma_tx_buf s' ! i = (if off \<le> i \<and> i < off + length bs then bs ! (i - off) else dma_tx_buf s ! i)"
  by (auto simp: tx_put_Some nth_mem_put)

lemma tx_fill_image:
  assumes "length (dma_tx_buf s) = 1024" "length hdr = 14" "length payload + 14 = unat sz" "unat sz \<le> 510"
  shows "\<exists>s'. tx_fill hdr payload sz s = Some s' \<and> length (dma_tx_buf s') = 1024 \<and>
    mem_get (dma_tx_buf s') 4 (max 60 (unat sz)) =
      Some (hdr @ payload @ replicate (60 - unat sz) 0)"
proof -
  let ?n = "unat sz"
  have l: "(if sz < 60 then 60 else ?n) = max 60 ?n" by (auto simp: word_less_nat_alt)
  have p: "unat (sz - 14) = length payload"
    using assms(3) by (subst unat_sub) (auto simp: word_le_nat_alt)
  have z: "unat (sz + 16) = ?n + 16" using assms(4) by (simp add: unat_word_ariths)
  obtain s1 where s1: "tx_put 0 (replicate (unat (sz + 16)) 0) s = Some s1" "length (dma_tx_buf s1) = 1024"
    using tx_put_ok [of 0 "replicate (unat (sz + 16)) 0" s] assms z by auto
  obtain s2 where s2: "tx_put 4 (replicate (max 60 ?n) 0) s1 = Some s2" "length (dma_tx_buf s2) = 1024"
    using tx_put_ok [of 4 "replicate (max 60 ?n) 0" s1] assms s1 by auto
  obtain s3 where s3: "tx_put 4 hdr s2 = Some s3" "length (dma_tx_buf s3) = 1024"
    using tx_put_ok [of 4 hdr s2] assms s2 by auto
  obtain s4 where s4: "tx_put 18 payload s3 = Some s4" "length (dma_tx_buf s4) = 1024"
    using tx_put_ok [of 18 payload s3] assms s3 by auto
  have run: "tx_fill hdr payload sz s = Some s4"
    using s1(1) s2(1) s3(1) s4(1) assms(2) p
    by (simp add: tx_fill_def l mem_get_def)
  have "dma_tx_buf s4 ! (4 + i) = (hdr @ payload @ replicate (60 - ?n) 0) ! i" if "i < max 60 ?n" for i
  proof -
    have i: "4 + i < 1024" using that assms(4) by simp
    have b4: "dma_tx_buf s4 ! (4 + i) =
        (if 14 \<le> i \<and> i < 14 + length payload then payload ! (i - 14) else dma_tx_buf s3 ! (4 + i))"
      using tx_put_nth [OF s4(1), of "4 + i"] i s3(2) by simp
    have b3: "dma_tx_buf s3 ! (4 + i) = (if i < 14 then hdr ! i else dma_tx_buf s2 ! (4 + i))"
      using tx_put_nth [OF s3(1), of "4 + i"] i s2(2) assms(2) by simp
    have b2: "dma_tx_buf s2 ! (4 + i) = 0"
      using tx_put_nth [OF s2(1), of "4 + i"] i s1(2) that by simp
    show ?thesis using that assms(2,3) unfolding b4 b3 b2 by (auto simp: nth_append)
  qed
  then have "mem_get (dma_tx_buf s4) 4 (max 60 ?n) = Some (hdr @ payload @ replicate (60 - ?n) 0)"
    using s4(2) assms(2,3,4) by (auto simp: mem_get_def intro!: nth_equalityI)
  then show ?thesis using run s4(2) by blast
qed

text \<open>The polling loops end after at most \<open>n\<close> reads, and tell truly whether the bit was seen.\<close>

lemma wait_mcr_bounds: "wait_mcr f msk n k = (r, k') \<Longrightarrow> k' \<le> k + n"
  by (induction f msk n k rule: wait_mcr.induct) (auto split: if_splits)

lemma wait_mcr_seen:
  "fst (wait_mcr f msk n k) \<Longrightarrow> \<exists>i < k + n. f i AND msk \<noteq> 0"
proof (induction n arbitrary: k)
  case (Suc n)
  show ?case
  proof (cases "f k AND msk = 0")
    case True
    then have "fst (wait_mcr f msk n (Suc k))" using Suc.prems by simp
    from Suc.IH [OF this] show ?thesis by simp
  next
    case False
    then show ?thesis by (intro exI [of _ k]) simp
  qed
qed simp

lemma word_of_unat: "unat w = n \<Longrightarrow> w = word_of_nat n"
  by auto

lemma tx_start_image:
  assumes "length (dma_tx_buf s) = 1024" "60 \<le> unat sz" "unat sz \<le> 510"
  shows "\<exists>s'. tx_start io sz w s = Some s' \<and>
    mem_get (dma_tx_buf s') 0 4 = Some (be_bytes 4 (unat (tx_desc (drop_bit 1 (sz + 1)) w))) \<and>
    mem_get (dma_tx_buf s') 4 (unat sz) = mem_get (dma_tx_buf s) 4 (unat sz)"
proof -
  let ?d = "be_bytes 4 (unat (tx_desc (drop_bit 1 (sz + 1)) w))"
  have "unat (sz + 1) = unat sz + 1" using assms(3) by (simp add: unat_word_ariths)
  then have nw: "unat (drop_bit 1 (sz + 1)) = (unat sz + 1) div 2"
    unfolding unsigned_drop_bit_eq using assms(3) by (simp add: drop_bit_eq_div take_bit_eq_mod)
  obtain b1 where b1: "mem_put (dma_tx_buf s) 0 ?d = Some b1" "length b1 = 1024"
    using mem_put_defined [of 0 ?d "dma_tx_buf s"] length_mem_put assms(1) by fastforce
  have "(unat sz + 1) div 2 \<le> 511 div 2" using assms(3) by (intro div_le_mono) simp
  then have fit: "4 * ((unat sz + 1) div 2) + 4 \<le> 1024" by simp
  obtain b2 where b2: "mem_put b1 (4 * ((unat sz + 1) div 2)) (replicate 4 0) = Some b2"
    using mem_put_defined [of _ "replicate 4 0" b1] b1(2) fit by fastforce
  have run: "tx_start io sz w s =
      Some (minic_writel MINIC_REG_MCR (tx_MCR io 0 OR MINIC_MCR_TX_START) (s\<lparr>dma_tx_buf := b2\<rparr>))"
    using b1(1) b2 nw by (simp add: tx_start_def tx_put_def)
  have "n \<le> 2 * ((n + 1) div 2)" for n :: nat by presburger
  from this [of "unat sz"] have "4 + unat sz \<le> 4 * ((unat sz + 1) div 2)" using assms(2) by linarith
  then have "mem_get b2 0 4 = mem_get b1 0 4" "mem_get b2 4 (unat sz) = mem_get b1 4 (unat sz)"
    using mem_get_put_other [OF b2] by auto
  moreover have "mem_get b1 0 4 = Some ?d" using mem_get_put_same [OF b1(1)] by simp
  moreover have "mem_get b1 4 (unat sz) = mem_get (dma_tx_buf s) 4 (unat sz)"
    using mem_get_put_other [OF b1(1), of 4 "unat sz"] by simp
  ultimately show ?thesis using run by (simp add: minic_writel_def)
qed

text \<open>
  Transmission. For a frame of up to 510 bytes, \<open>minic_tx_frame\<close> puts the descriptor, the
  header, the data and the padding to 60 bytes into the DMA buffer, within its bounds, returns
  the padded length, and gives up waiting after a bounded number of polls: a timestamp is only
  marked valid if the hardware said that it was ready.
\<close>

theorem tx_frame_image:
  assumes "length (dma_tx_buf s) = 1024" "length hdr = 14" "length payload + 14 = unat sz"
    and "unat sz \<le> 510" "shw_pps_gen_get_time b (tx_cntr io) = Some now"
  shows "\<exists>s' ts'. minic_tx_frame b io hdr payload sz (Some ts) s =
      Some (int (max 60 (unat sz)), Some ts', s') \<and>
    mem_get (dma_tx_buf s') 0 4 =
      Some (be_bytes 4 (unat (0xC0000000 OR word_of_nat ((max 60 (unat sz) + 1) div 2) :: u32))) \<and>
    mem_get (dma_tx_buf s') 4 (max 60 (unat sz)) =
      Some (hdr @ payload @ replicate (60 - unat sz) 0) \<and>
    (ts_valid ts' \<noteq> 0 \<longrightarrow> (\<exists>k < 1101. tx_MCR io k AND MINIC_MCR_TX_TS_READY \<noteq> 0))"
proof -
  let ?s0 = "minic_new_tx_buffer s"
  let ?sz = "if sz < 60 then 60 else sz"
  have sz: "unat ?sz = max 60 (unat sz)" by (auto simp: word_less_nat_alt)
  have "length (dma_tx_buf ?s0) = 1024"
    using assms(1) by (simp add: minic_new_tx_buffer_def Let_def minic_writel_def)
  from tx_fill_image [OF this assms(2-4)] obtain s1 where
    s1: "tx_fill hdr payload sz ?s0 = Some s1" "length (dma_tx_buf s1) = 1024"
      "mem_get (dma_tx_buf s1) 4 (max 60 (unat sz)) = Some (hdr @ payload @ replicate (60 - unat sz) 0)"
    by blast
  have "60 \<le> unat ?sz" "unat ?sz \<le> 510" using assms(4) unfolding sz by auto
  from tx_start_image [OF s1(2) this, of io True] obtain s2 where
    s2: "tx_start io ?sz True s1 = Some s2"
      "mem_get (dma_tx_buf s2) 0 4 = Some (be_bytes 4 (unat (tx_desc (drop_bit 1 (?sz + 1)) True)))"
      "mem_get (dma_tx_buf s2) 4 (unat ?sz) = mem_get (dma_tx_buf s1) 4 (unat ?sz)"
    by blast
  have "unat (?sz + 1) = max 60 (unat sz) + 1"
    using assms(4) sz by (simp add: unat_word_ariths del: if_split)
  then have "unat (drop_bit 1 (?sz + 1)) = (max 60 (unat sz) + 1) div 2"
    unfolding unsigned_drop_bit_eq using assms(4) by (simp add: drop_bit_eq_div take_bit_eq_mod)
  then have nw: "drop_bit 1 (?sz + 1) = word_of_nat ((max 60 (unat sz) + 1) div 2)"
    by (rule word_of_unat)
  have desc: "tx_desc (drop_bit 1 (?sz + 1)) True =
      0xC0000000 OR word_of_nat ((max 60 (unat sz) + 1) div 2)"
    unfolding tx_desc_def nw by (simp flip: or.assoc)
  have ret: "of_u32 ?sz = int (max 60 (unat sz))"
  proof -
    have "?sz = word_of_nat (max 60 (unat sz))" using sz by (rule word_of_unat)
    then have "of_u32 ?sz = sint (word_of_nat (max 60 (unat sz)) :: u32)"
      unfolding of_u32_def by (rule arg_cong)
    also have "\<dots> = int (max 60 (unat sz))" by (rule sint_of_nat_small) (use assms(4) in simp)
    finally show ?thesis .
  qed
  obtain d k where w1: "wait_mcr (tx_MCR io) MINIC_MCR_TX_IDLE 1000 1 = (d, k)" by force
  obtain r k' where w2: "wait_mcr (tx_MCR io) MINIC_MCR_TX_TS_READY 100 k = (r, k')" by force
  have "r \<longrightarrow> (\<exists>k < 1101. tx_MCR io k AND MINIC_MCR_TX_TS_READY \<noteq> 0)"
  proof
    assume r
    then obtain i where "i < k + 100" "tx_MCR io i AND MINIC_MCR_TX_TS_READY \<noteq> 0"
      using wait_mcr_seen [of "tx_MCR io" MINIC_MCR_TX_TS_READY 100 k] unfolding w2 by auto
    moreover have "k \<le> 1001" using wait_mcr_bounds [OF w1] by simp
    ultimately show "\<exists>k < 1101. tx_MCR io k AND MINIC_MCR_TX_TS_READY \<noteq> 0"
      by (intro exI [of _ i]) simp
  qed
  then have valid: "ts_valid (tx_timestamp b io r now ts) \<noteq> 0 \<longrightarrow>
      (\<exists>k < 1101. tx_MCR io k AND MINIC_MCR_TX_TS_READY \<noteq> 0)"
    by (cases r) (simp_all add: tx_timestamp_def Let_def)
  have "minic_tx_frame b io hdr payload sz (Some ts) s = Some (of_u32 ?sz,
      Some (tx_timestamp b io r now ts), s2\<lparr>mn_tx_count := add32 (mn_tx_count s2) 1\<rparr>)"
    using s1(1) s2(1) w1 w2 assms(5) by (simp add: minic_tx_frame_def Let_def del: if_split)
  then show ?thesis
    using s2(2,3) s1(3) valid unfolding sz desc ret by simp
qed

text \<open>
  The terminating zero is written at \<open>tx_head + nwords\<close>, where \<open>tx_head\<close> points to 32-bit words and
  \<open>nwords\<close> counts 16-bit words: for more than 510 bytes it lies behind the buffer of 1024 bytes,
  although the frame itself would fit.
\<close>

lemma tx_frame_too_long:
  assumes "length (dma_tx_buf s) = 1024" "510 < unat sz" "unat sz \<le> 1000"
  shows "minic_tx_frame b io hdr payload sz hwts s = None"
proof -
  have len: "length (dma_tx_buf s') = 1024"
    if "tx_fill hdr payload sz (minic_new_tx_buffer s) = Some s'" for s'
    using that assms(1)
    by (auto simp: tx_fill_def tx_put_Some bind_eq_Some_conv minic_new_tx_buffer_def Let_def
      minic_writel_def dest!: length_mem_put)
  have "\<not> sz < 60" using assms(2) by (simp add: word_less_nat_alt)
  moreover have "tx_start io sz w s' = None" if "length (dma_tx_buf s') = 1024" for s' w
  proof -
    have "unat (sz + 1) = unat sz + 1" using assms(3) by (simp add: unat_word_ariths)
    then have nw: "unat (drop_bit 1 (sz + 1)) = (unat sz + 1) div 2"
      unfolding unsigned_drop_bit_eq using assms(3) by (simp add: drop_bit_eq_div take_bit_eq_mod)
    have "512 div 2 \<le> (unat sz + 1) div 2" using assms(2) by (intro div_le_mono) simp
    then have "1024 < 4 * ((unat sz + 1) div 2) + 4" by simp
    then have no: "mem_put buf (4 * ((unat sz + 1) div 2)) (replicate 4 0) = None"
      if "length buf = 1024" for buf :: "u8 list"
      using that by (simp add: mem_put_def)
    let ?d = "be_bytes 4 (unat (tx_desc (drop_bit 1 (sz + 1)) w))"
    obtain b1 where b1: "mem_put (dma_tx_buf s') 0 ?d = Some b1"
      using mem_put_defined [of 0 ?d "dma_tx_buf s'"] \<open>length (dma_tx_buf s') = 1024\<close> by auto
    then have "length b1 = 1024" using length_mem_put \<open>length (dma_tx_buf s') = 1024\<close> by metis
    then have "mem_put b1 (4 * unat (drop_bit 1 (sz + 1))) (replicate 4 0) = None"
      unfolding nw by (rule no)
    then show ?thesis using b1 by (simp add: tx_start_def tx_put_def)
  qed
  moreover have "(if sz < 60 then 60 else sz) = sz" using calculation(1) by simp
  ultimately show ?thesis
    using len by (auto simp: minic_tx_frame_def Let_def bind_eq_None_conv)
qed

lemma tx_frame_image_witness:
  "let r = \<lparr>CNTR_UTCLO = 7, CNTR_UTCHI = 0, CNTR_NSEC = 100\<rparr>;
       io = \<lparr>tx_MCR = (\<lambda>k. if k = 3 then 0x802 else 0), tx_TSR0 = 1, tx_TSR1 = 50, tx_cntr = [r, r, r, r, r]\<rparr>;
       ts = \<lparr>ts_valid = 0, ts_ahead = 0, ts_sec = 0, ts_nsec = 0, ts_phase = 0\<rparr>;
       s = rx_demo\<lparr>dma_tx_buf := replicate 1024 0xAA\<rparr>
   in \<exists>s' ts'. minic_tx_frame board_wrc io (replicate 14 1) [9, 9, 9] 17 (Some ts) s =
      Some (int (max 60 (unat (17 :: u32))), Some ts', s') \<and>
    mem_get (dma_tx_buf s') 0 4 =
      Some (be_bytes 4 (unat (0xC0000000 OR word_of_nat ((max 60 (unat (17 :: u32)) + 1) div 2) :: u32))) \<and>
    mem_get (dma_tx_buf s') 4 (max 60 (unat (17 :: u32))) =
      Some (replicate 14 1 @ [9, 9, 9] @ replicate (60 - unat (17 :: u32)) 0) \<and>
    (ts_valid ts' \<noteq> 0 \<longrightarrow> (\<exists>k < 1101. tx_MCR io k AND MINIC_MCR_TX_TS_READY \<noteq> 0))"
  unfolding Let_def
  by (rule tx_frame_image [where now = "(7, 800)"])
    (simp_all add: rx_demo_def pps_get_utc_def board_wrc_def)

end
