(* ===== verification/Net_Props.thy ===== *)
theory Net_Props
  imports Net Minic_Props
begin

text \<open>
  Properties of the sockets: the byte ring is a queue of frames (through the interface
  \<open>byte_fifo\<close>, of which the ring is an instance), frames come out in the order they went in
  and unchanged, a full queue drops frames whole; the linearised timestamp does not jump.
\<close>

section \<open>A queue of bytes\<close>

text \<open>
  What the frame layer needs from the ring: bytes come out in the order they went in, as long
  as no more are put in than there is room for.
\<close>

locale byte_fifo =
  fixes put :: "'b list \<Rightarrow> 'q \<Rightarrow> 'q option"
    and get :: "nat \<Rightarrow> 'q \<Rightarrow> ('b list \<times> 'q) option"
    and ok :: "'q \<Rightarrow> bool"
    and items :: "'q \<Rightarrow> 'b list"
    and room :: "'q \<Rightarrow> nat"
    and tag :: "'q \<Rightarrow> 't"
  assumes put_ok: "ok q \<Longrightarrow> length xs \<le> room q \<Longrightarrow>
      \<exists>q'. put xs q = Some q' \<and> ok q' \<and> items q' = items q @ xs \<and>
        room q' = room q - length xs \<and> tag q' = tag q"
    and get_ok: "ok q \<Longrightarrow> n \<le> length (items q) \<Longrightarrow>
      \<exists>q'. get n q = Some (take n (items q), q') \<and> ok q' \<and> items q' = drop n (items q) \<and>
        room q' = room q + n \<and> tag q' = tag q"
begin

lemma get_prefix:
  assumes "ok q" "items q = xs @ ys"
  shows "\<exists>q'. get (length xs) q = Some (xs, q') \<and> ok q' \<and> items q' = ys \<and>
    room q' = room q + length xs \<and> tag q' = tag q"
  using get_ok [OF assms(1), of "length xs"] assms(2) by simp

text \<open>A record of several fields is written and read field by field.\<close>

lemma put_four:
  assumes "ok q" "length (a @ b @ c @ d) \<le> room q"
  shows "\<exists>q1 q2 q3 q4. put a q = Some q1 \<and> put b q1 = Some q2 \<and> put c q2 = Some q3 \<and>
    put d q3 = Some q4 \<and> ok q4 \<and> items q4 = items q @ a @ b @ c @ d \<and>
    room q4 = room q - length (a @ b @ c @ d) \<and> tag q4 = tag q"
proof -
  obtain q1 where q1: "put a q = Some q1" "ok q1" "items q1 = items q @ a"
      "room q1 = room q - length a" "tag q1 = tag q"
    using put_ok [OF assms(1), of a] assms(2) by auto
  obtain q2 where q2: "put b q1 = Some q2" "ok q2" "items q2 = items q1 @ b"
      "room q2 = room q1 - length b" "tag q2 = tag q1"
  proof -
    have "length b \<le> room q1" using assms(2) q1(4) by simp
    from put_ok [OF q1(2) this] that show thesis by blast
  qed
  obtain q3 where q3: "put c q2 = Some q3" "ok q3" "items q3 = items q2 @ c"
      "room q3 = room q2 - length c" "tag q3 = tag q2"
  proof -
    have "length c \<le> room q2" using assms(2) q1(4) q2(4) by simp
    from put_ok [OF q2(2) this] that show thesis by blast
  qed
  obtain q4 where q4: "put d q3 = Some q4" "ok q4" "items q4 = items q3 @ d"
      "room q4 = room q3 - length d" "tag q4 = tag q3"
  proof -
    have "length d \<le> room q3" using assms(2) q1(4) q2(4) q3(4) by simp
    from put_ok [OF q3(2) this] that show thesis by blast
  qed
  show ?thesis using q1 q2 q3 q4
    by (intro exI [of _ q1] exI [of _ q2] exI [of _ q3] exI [of _ q4]) simp
qed

lemma get_four:
  assumes "ok q" "items q = a @ b @ c @ d @ e"
  shows "\<exists>q1 q2 q3 q4. get (length a) q = Some (a, q1) \<and> get (length b) q1 = Some (b, q2) \<and>
    get (length c) q2 = Some (c, q3) \<and> get (length d) q3 = Some (d, q4) \<and> ok q4 \<and>
    items q4 = e \<and> room q4 = room q + length (a @ b @ c @ d) \<and> tag q4 = tag q"
proof -
  obtain q1 where q1: "get (length a) q = Some (a, q1)" "ok q1" "items q1 = b @ c @ d @ e"
      "room q1 = room q + length a" "tag q1 = tag q"
    using get_prefix [OF assms(1), of a] assms(2) by auto
  obtain q2 where q2: "get (length b) q1 = Some (b, q2)" "ok q2" "items q2 = c @ d @ e"
      "room q2 = room q1 + length b" "tag q2 = tag q1"
    using get_prefix [OF q1(2), of b] q1(3) by auto
  obtain q3 where q3: "get (length c) q2 = Some (c, q3)" "ok q3" "items q3 = d @ e"
      "room q3 = room q2 + length c" "tag q3 = tag q2"
    using get_prefix [OF q2(2), of c] q2(3) by auto
  obtain q4 where q4: "get (length d) q3 = Some (d, q4)" "ok q4" "items q4 = e"
      "room q4 = room q3 + length d" "tag q4 = tag q3"
    using get_prefix [OF q3(2), of d] q3(3) by auto
  show ?thesis using q1 q2 q3 q4
    by (intro exI [of _ q1] exI [of _ q2] exI [of _ q3] exI [of _ q4]) simp
qed

end

section \<open>The ring of a socket is such a queue\<close>

definition q_used :: "sockq \<Rightarrow> nat" where
  "q_used q = nat (NET_SKBUF_SIZE - sq_avail q)"

definition q_ok :: "sockq \<Rightarrow> bool" where
  [inv_simps]: "q_ok q \<longleftrightarrow> length (sq_buf q) = 512 \<and> 0 \<le> sq_tail q \<and> sq_tail q < 512 \<and>
     0 \<le> sq_avail q \<and> sq_avail q \<le> 512 \<and> sq_head q = int ((nat (sq_tail q) + q_used q) mod 512)"

definition q_items :: "sockq \<Rightarrow> u8 list" where
  "q_items q = ring_read 512 (sq_buf q) (nat (sq_tail q)) (q_used q)"

lemma ring_step: "0 \<le> i \<Longrightarrow> i < 512 \<Longrightarrow>
  (if u16i (i + 1) = 512 then 0 else u16i (i + 1)) = int (Suc (nat i) mod 512)"
  by (auto simp: u16i_def mod_Suc nat_eq_iff split: if_splits)

lemma wrap_copy_in_ring:
  assumes "length (sq_buf q) = 512" "0 \<le> sq_tail q" "sq_tail q < 512"
  shows "wrap_copy_in n q = Some (ring_read 512 (sq_buf q) (nat (sq_tail q)) n,
    q\<lparr>sq_tail := int ((nat (sq_tail q) + n) mod 512)\<rparr>)"
  using assms
proof (induction n arbitrary: q)
  case 0
  then have "int (nat (sq_tail q) mod 512) = sq_tail q" by simp
  then show ?case by simp
next
  case (Suc n)
  let ?q = "q\<lparr>sq_tail := int (Suc (nat (sq_tail q)) mod 512)\<rparr>"
  have "wrap_copy_in (Suc n) q = do {
      (bs, q') \<leftarrow> wrap_copy_in n ?q;
      Some (sq_buf q ! nat (sq_tail q) # bs, q')
    }"
    using Suc.prems ring_step [of "sq_tail q"] by (auto simp: aget_Some Let_def)
  also have "wrap_copy_in n ?q = Some (ring_read 512 (sq_buf ?q) (nat (sq_tail ?q)) n,
      ?q\<lparr>sq_tail := int ((nat (sq_tail ?q) + n) mod 512)\<rparr>)"
    by (rule Suc.IH) (use Suc.prems in auto)
  finally show ?case using Suc.prems by (simp add: ring_read_Suc mod_Suc_eq mod_add_left_eq nat_less_iff)
qed

lemma wrap_copy_out_ring:
  assumes "length (sq_buf q) = 512" "t < 512" "sq_head q = int ((t + k) mod 512)"
    "k + length bs \<le> 512"
  shows "\<exists>buf. wrap_copy_out bs q = Some (q\<lparr>sq_buf := buf, sq_head := int ((t + k + length bs) mod 512)\<rparr>) \<and>
    length buf = 512 \<and> ring_read 512 buf t (k + length bs) = ring_read 512 (sq_buf q) t k @ bs"
  using assms
proof (induction bs arbitrary: q k)
  case Nil
  then show ?case by (intro exI [of _ "sq_buf q"]) simp
next
  case (Cons b bs)
  let ?i = "(t + k) mod 512"
  let ?q = "q\<lparr>sq_buf := (sq_buf q)[?i := b], sq_head := int ((t + Suc k) mod 512)\<rparr>"
  have "wrap_copy_out (b # bs) q = wrap_copy_out bs ?q"
    using Cons.prems ring_step [of "int ?i"] by (auto simp: aset_Some Let_def mod_Suc_eq)
  moreover obtain buf where buf: "wrap_copy_out bs ?q =
      Some (?q\<lparr>sq_buf := buf, sq_head := int ((t + Suc k + length bs) mod 512)\<rparr>)" "length buf = 512"
      "ring_read 512 buf t (Suc k + length bs) = ring_read 512 (sq_buf ?q) t (Suc k) @ bs"
    using Cons.IH [of ?q "Suc k"] Cons.prems by auto
  moreover have "ring_read 512 (sq_buf ?q) t (Suc k) = ring_read 512 (sq_buf q) t k @ [b]"
    using ring_read_push [of "sq_buf q" 512 k t b] Cons.prems by simp
  ultimately show ?case by (intro exI [of _ buf]) (simp add: algebra_simps)
qed

lemma q_avail: "q_ok q \<Longrightarrow> sq_avail q = int (512 - q_used q) \<and> q_used q \<le> 512"
  by (auto simp: q_ok_def q_used_def)

lemma q_avail_nat: "q_ok q \<Longrightarrow> nat (sq_avail q) = 512 - q_used q"
  using q_avail by (metis nat_int)

lemma enq_ok:
  assumes ok: "q_ok q" and room: "length xs \<le> nat (sq_avail q)"
  shows "\<exists>q'. enq xs q = Some q' \<and> q_ok q' \<and> q_items q' = q_items q @ xs \<and>
    nat (sq_avail q') = nat (sq_avail q) - length xs \<and> sq_n q' = sq_n q"
proof -
  have h: "sq_head q = int ((nat (sq_tail q) + q_used q) mod 512)" "length (sq_buf q) = 512"
    "nat (sq_tail q) < 512" using ok by (auto simp: q_ok_def)
  have u: "q_used q + length xs \<le> 512"
    using q_avail [OF ok] room unfolding q_avail_nat [OF ok] by linarith
  obtain buf where buf: "wrap_copy_out xs q = Some (q\<lparr>sq_buf := buf,
      sq_head := int ((nat (sq_tail q) + q_used q + length xs) mod 512)\<rparr>)" "length buf = 512"
      "ring_read 512 buf (nat (sq_tail q)) (q_used q + length xs) = q_items q @ xs"
    using wrap_copy_out_ring [OF h(2,3,1) u] by (auto simp: q_items_def)
  have a: "u16i (sq_avail q - int (length xs)) = sq_avail q - int (length xs)"
    using q_avail [OF ok] u by (simp add: u16i_def)
  have used: "nat (512 - (sq_avail q - int (length xs))) = q_used q + length xs"
    using q_avail [OF ok] u by simp
  let ?q = "q\<lparr>sq_buf := buf, sq_head := int ((nat (sq_tail q) + q_used q + length xs) mod 512),
    sq_avail := sq_avail q - int (length xs)\<rparr>"
  have uq: "q_used ?q = q_used q + length xs" using used by (simp add: q_used_def [of ?q])
  have av: "0 \<le> sq_avail q - int (length xs)" using q_avail [OF ok] u by simp
  have "q_ok ?q" unfolding q_ok_def uq using ok buf(2) av by (simp add: q_ok_def add.assoc)
  moreover have "q_items ?q = q_items q @ xs"
    unfolding q_items_def [of ?q] uq using buf(3) by simp
  moreover have "nat (sq_avail q - int (length xs)) = nat (sq_avail q) - length xs"
    using av by simp
  ultimately show ?thesis using buf(1) a by (simp add: enq_def)
qed

lemma deq_ok:
  assumes ok: "q_ok q" and n: "n \<le> length (q_items q)"
  shows "\<exists>q'. deq n q = Some (take n (q_items q), q') \<and> q_ok q' \<and> q_items q' = drop n (q_items q) \<and>
    nat (sq_avail q') = nat (sq_avail q) + n \<and> sq_n q' = sq_n q"
proof -
  let ?t = "nat (sq_tail q)"
  have n': "n \<le> q_used q" using n by (simp add: q_items_def)
  have a: "u16i (sq_avail q + int n) = sq_avail q + int n"
    using q_avail [OF ok] n' by (simp add: u16i_def)
  have used: "nat (512 - (sq_avail q + int n)) = q_used q - n"
    using q_avail [OF ok] n' by simp
  have items: "q_items q = ring_read 512 (sq_buf q) ?t n @ ring_read 512 (sq_buf q) (?t + n) (q_used q - n)"
    using ring_read_append [of 512 "sq_buf q" ?t n "q_used q - n"] n' by (simp add: q_items_def)
  have run: "wrap_copy_in n q = Some (ring_read 512 (sq_buf q) ?t n, q\<lparr>sq_tail := int ((?t + n) mod 512)\<rparr>)"
    by (rule wrap_copy_in_ring) (use ok in \<open>simp_all add: q_ok_def\<close>)
  have "((?t + n) mod 512 + (q_used q - n)) mod 512 = (?t + n + (q_used q - n)) mod 512"
    by (rule mod_add_left_eq)
  also have "?t + n + (q_used q - n) = ?t + q_used q" using n' by simp
  finally have h: "((?t + n) mod 512 + (q_used q - n)) mod 512 = (?t + q_used q) mod 512" .
  have pos: "sq_avail q + int n \<le> 512" using q_avail [OF ok] n' by simp
  let ?q = "q\<lparr>sq_tail := int ((?t + n) mod 512), sq_avail := sq_avail q + int n\<rparr>"
  have u: "q_used ?q = q_used q - n" using used by (simp add: q_used_def [of ?q])
  have "q_ok ?q" unfolding q_ok_def u using ok pos h by (simp add: q_ok_def)
  moreover have "q_items ?q = drop n (q_items q)"
    unfolding q_items_def [of ?q] u items by simp
  moreover have "take n (q_items q) = ring_read 512 (sq_buf q) ?t n" unfolding items by simp
  ultimately show ?thesis
    using run a ok by (simp add: deq_def q_ok_def [of q] nat_add_distrib)
qed

interpretation sq: byte_fifo enq deq q_ok q_items "\<lambda>q. nat (sq_avail q)" sq_n
proof unfold_locales
  show "\<exists>q'. enq xs q = Some q' \<and> q_ok q' \<and> q_items q' = q_items q @ xs \<and>
      nat (sq_avail q') = nat (sq_avail q) - length xs \<and> sq_n q' = sq_n q"
    if "q_ok q" "length xs \<le> nat (sq_avail q)" for q xs
    using that by (rule enq_ok)
  show "\<exists>q'. deq n q = Some (take n (q_items q), q') \<and> q_ok q' \<and> q_items q' = drop n (q_items q) \<and>
      nat (sq_avail q') = nat (sq_avail q) + n \<and> sq_n q' = sq_n q"
    if "q_ok q" "n \<le> length (q_items q)" for q n
    using that by (rule deq_ok)
qed

section \<open>A queue of frames\<close>

text \<open>What the queue holds for a frame, and the frames a queue holds.\<close>

record frame =
  fr_hdr :: "u8 list"
  fr_ts :: hw_timestamp
  fr_data :: "u8 list"

definition frame_ok :: "frame \<Rightarrow> bool" where
  "frame_ok f \<longleftrightarrow> length (fr_hdr f) = 14 \<and> length (fr_data f) < 65536"

definition frame_image :: "frame \<Rightarrow> u8 list" where
  "frame_image f = be_bytes 2 (length (fr_data f)) @ fr_hdr f @ hwts_image (fr_ts f) @ fr_data f"

definition q_frames :: "sockq \<Rightarrow> frame list \<Rightarrow> bool" where
  "q_frames q fs \<longleftrightarrow> q_ok q \<and> q_items q = concat (map frame_image fs) \<and>
     sq_n q = int (length fs) \<and> list_all frame_ok fs"

lemma length_hwts_image [simp]: "length (hwts_image t) = 24"
  by (simp add: hwts_image_def)

lemma length_frame_image: "frame_ok f \<Longrightarrow> length (frame_image f) = 40 + length (fr_data f)"
  by (simp add: frame_image_def frame_ok_def)

lemma length_q_items: "q_ok q \<Longrightarrow> length (q_items q) = 512 - nat (sq_avail q)"
proof -
  assume ok: "q_ok q"
  have "q_used q = 512 - (512 - q_used q)" using q_avail [OF ok] by simp
  then show ?thesis unfolding q_avail_nat [OF ok] q_items_def length_ring_read .
qed

lemma frames_count: "list_all frame_ok fs \<Longrightarrow> 40 * length fs \<le> length (concat (map frame_image fs))"
proof (induction fs)
  case (Cons f fs)
  then show ?case using length_frame_image [of f] by simp
qed simp

lemma q_frames_few: "q_frames q fs \<Longrightarrow> length fs \<le> 12"
  using frames_count [of fs] length_q_items [of q] by (auto simp: q_frames_def)

lemma hwts_round_trip:
  assumes "in32 (ts_ahead t)"
  shows "hwts_of_image (hwts_image t) = t"
proof -
  let ?a = "unat (to_u32 (ts_ahead t))"
  have b: "?a < 256 ^ 4" "unat (ts_sec t) < 256 ^ 8" "unat (ts_nsec t) < 256 ^ 4" "unat (ts_phase t) < 256 ^ 4"
    using unsigned_less [of "to_u32 (ts_ahead t)"] unsigned_less [of "ts_sec t"]
      unsigned_less [of "ts_nsec t"] unsigned_less [of "ts_phase t"] by simp_all
  show ?thesis
    using b assms by (simp add: hwts_of_image_def hwts_image_def numeral_3_eq_3 of_to_u32)
qed

lemma enqueue_frame:
  assumes q: "q_frames q fs" and hdr: "length hdr = 14" and recvd: "0 < recvd" "nat recvd \<le> length payload"
      "length payload \<le> 480"
  shows "\<exists>q'. rx_enqueue recvd hdr ts payload q = Some q' \<and>
    q_frames q' (if sq_avail q < 40 + recvd then fs
                 else fs @ [\<lparr>fr_hdr = hdr, fr_ts = ts, fr_data = take (nat recvd) payload\<rparr>])"
proof (cases "sq_avail q < 40 + recvd")
  case True
  then show ?thesis using q by (simp add: rx_enqueue_def)
next
  case False
  let ?f = "\<lparr>fr_hdr = hdr, fr_ts = ts, fr_data = take (nat recvd) payload\<rparr>"
  have ok: "q_ok q" using q by (simp add: q_frames_def)
  have u: "u16i recvd = recvd" using recvd by (simp add: u16i_def)
  have len: "length (take (nat recvd) payload) = nat recvd" using recvd by simp
  have f: "frame_ok ?f" using hdr len recvd by (simp add: frame_ok_def)
  have img: "frame_image ?f = be_bytes 2 (nat recvd) @ hdr @ hwts_image ts @ take (nat recvd) payload"
    using len by (simp add: frame_image_def)
  have "length (frame_image ?f) \<le> nat (sq_avail q)"
    using length_frame_image [OF f] len False recvd by simp
  then obtain q1 q2 q3 q4 where qs: "enq (be_bytes 2 (nat recvd)) q = Some q1" "enq hdr q1 = Some q2"
      "enq (hwts_image ts) q2 = Some q3" "enq (take (nat recvd) payload) q3 = Some q4" "q_ok q4"
      "q_items q4 = q_items q @ frame_image ?f" "sq_n q4 = sq_n q"
    using sq.put_four [OF ok, of "be_bytes 2 (nat recvd)" hdr "hwts_image ts" "take (nat recvd) payload"]
    unfolding img by auto
  have "length fs \<le> 12" using q by (rule q_frames_few)
  then have n: "u16i (sq_n q + 1) = int (length (fs @ [?f]))"
    using q by (simp add: q_frames_def u16i_def)
  let ?q = "q4\<lparr>sq_n := u16i (sq_n q + 1)\<rparr>"
  have run: "rx_enqueue recvd hdr ts payload q = Some ?q"
    using False qs u recvd by (simp add: rx_enqueue_def mem_get_def)
  have "q_ok ?q" "q_items ?q = q_items q4"
    using qs(5) by (simp_all add: q_ok_def q_items_def q_used_def)
  then have "q_frames ?q (fs @ [?f])"
    using q f n qs(6) by (simp add: q_frames_def)
  then show ?thesis using False run by simp
qed

text \<open>
  C16. The queue of a socket holds whole frames. A received frame for which there is room is
  appended with its header, timestamp and bytes; one that does not fit is dropped and leaves
  the queue as it was.
\<close>

theorem rx_enqueue_refines:
  assumes q: "q_frames q fs" and hdr: "length hdr = 14" and recvd: "0 < recvd" "nat recvd \<le> length payload"
      "length payload \<le> 480"
  shows "\<exists>q'. rx_enqueue recvd hdr ts payload q = Some q' \<and>
    q_frames q' (if sq_avail q < 40 + recvd then fs
                 else fs @ [\<lparr>fr_hdr = hdr, fr_ts = ts, fr_data = take (nat recvd) payload\<rparr>])"
  using assms by (rule enqueue_frame)

lemma q_frames_new: "q_frames \<lparr>sq_buf = replicate 512 0, sq_head = 0, sq_tail = 0, sq_avail = 512, sq_n = 0\<rparr> []"
  by (simp add: q_frames_def q_ok_def q_items_def q_used_def)

lemma rx_enqueue_refines_witness:
  "let q = \<lparr>sq_buf = replicate 512 0, sq_head = 0, sq_tail = 0, sq_avail = 512, sq_n = 0\<rparr>;
       ts = \<lparr>ts_valid = 1, ts_ahead = 1, ts_sec = 3, ts_nsec = 800, ts_phase = 0\<rparr>
   in \<exists>q'. rx_enqueue 16 (replicate 14 5) ts (replicate 480 7) q = Some q' \<and>
    q_frames q' (if sq_avail q < 40 + 16 then []
                 else [] @ [\<lparr>fr_hdr = replicate 14 5, fr_ts = ts, fr_data = take (nat 16) (replicate 480 7)\<rparr>])"
  unfolding Let_def by (rule rx_enqueue_refines [OF q_frames_new]) simp_all

text \<open>Reading a frame into a buffer of any size, as far as the bytes of the queue go.\<close>

lemma recvfrom_frame:
  assumes q: "q_frames (so_queue s) (f # fs)"
  shows "\<exists>q'. ptpd_netif_recvfrom b room raw_phase frm rx_ts s =
      Some (int (min (unat (word_of_nat (length (fr_data f)) - 14 :: u32)) room),
            frm\<lparr>sa_ethertype := eth_type (fr_hdr f), sa_mac := eth_srcmac (fr_hdr f),
                sa_mac_dest := eth_dstmac (fr_hdr f)\<rparr>,
            take room (fr_data f),
            map_option (\<lambda>t. rx_ts_of t (hwts_of_image (hwts_image (fr_ts f))) raw_phase
              (so_phase_transition s) b) rx_ts,
            s\<lparr>so_queue := q'\<rparr>) \<and>
    q_ok q' \<and> sq_n q' = int (length fs) \<and>
    q_items q' = drop room (fr_data f) @ concat (map frame_image fs)"
proof -
  have ok: "q_ok (so_queue s)" and f: "frame_ok f" and n: "sq_n (so_queue s) = int (Suc (length fs))"
    using q by (simp_all add: q_frames_def)
  let ?q = "(so_queue s)\<lparr>sq_n := u16i (sq_n (so_queue s) - 1)\<rparr>"
  have ok': "q_ok ?q" using ok by (simp add: q_ok_def q_used_def)
  have items: "q_items ?q = be_bytes 2 (length (fr_data f)) @ fr_hdr f @ hwts_image (fr_ts f) @
      take room (fr_data f) @ drop room (fr_data f) @ concat (map frame_image fs)"
    using q by (simp add: q_frames_def q_items_def q_used_def frame_image_def)
  have few: "length (f # fs) \<le> 12" using q by (rule q_frames_few)
  have n': "sq_n ?q = int (length fs)" using few by (simp add: n u16i_def)
  obtain q1 q2 q3 q4 where qs: "deq 2 ?q = Some (be_bytes 2 (length (fr_data f)), q1)"
      "deq 14 q1 = Some (fr_hdr f, q2)" "deq 24 q2 = Some (hwts_image (fr_ts f), q3)"
      "deq (length (take room (fr_data f))) q3 = Some (take room (fr_data f), q4)" "q_ok q4"
      "q_items q4 = drop room (fr_data f) @ concat (map frame_image fs)" "sq_n q4 = sq_n ?q"
    using sq.get_four [OF ok' items] f by (auto simp: frame_ok_def)
  have sz: "be_val (be_bytes 2 (length (fr_data f))) = length (fr_data f)"
    using f by (simp add: frame_ok_def)
  have "length (take room (fr_data f)) = min (length (fr_data f)) room" by (simp add: min.commute)
  then have "deq (min (length (fr_data f)) room) q3 = Some (take room (fr_data f), q4)"
    using qs(4) by simp
  then have "ptpd_netif_recvfrom b room raw_phase frm rx_ts s =
      Some (int (min (unat (word_of_nat (length (fr_data f)) - 14 :: u32)) room),
            frm\<lparr>sa_ethertype := eth_type (fr_hdr f), sa_mac := eth_srcmac (fr_hdr f),
                sa_mac_dest := eth_dstmac (fr_hdr f)\<rparr>,
            take room (fr_data f),
            map_option (\<lambda>t. rx_ts_of t (hwts_of_image (hwts_image (fr_ts f))) raw_phase
              (so_phase_transition s) b) rx_ts,
            s\<lparr>so_queue := q4\<rparr>)"
    using qs(1-3) n sz by (simp add: ptpd_netif_recvfrom_def Let_def)
  then show ?thesis using qs(5-7) n' by (intro exI [of _ q4]) simp
qed

text \<open>
  C15. Reading a frame into a buffer of \<open>room\<close> bytes. \<open>ptpd_netif_recvfrom\<close> returns the source, destination, type and timestamp
  of the first frame and as many of its bytes as there is room for. If there is room for all of them, it takes
  exactly this frame out of the queue and the other frames stay. If not, the remaining bytes stay in front of the other
  frames, where the next call takes them for a frame.
\<close>

theorem recvfrom_refines:
  assumes "q_frames (so_queue s) (f # fs)" "14 \<le> length (fr_data f)" "in32 (ts_ahead (fr_ts f))"
  shows "\<exists>q'. ptpd_netif_recvfrom b room raw_phase frm (Some t) s =
      Some (min (int (length (fr_data f)) - 14) (int room),
            frm\<lparr>sa_ethertype := eth_type (fr_hdr f), sa_mac := eth_srcmac (fr_hdr f),
                sa_mac_dest := eth_dstmac (fr_hdr f)\<rparr>,
            take room (fr_data f), Some (rx_ts_of t (fr_ts f) raw_phase (so_phase_transition s) b),
            s\<lparr>so_queue := q'\<rparr>) \<and>
    (if length (fr_data f) \<le> room then take room (fr_data f) = fr_data f \<and> q_frames q' fs
     else q_ok q' \<and> sq_n q' = int (length fs) \<and> q_items q' = drop room (fr_data f) @ concat (map frame_image fs))"
proof -
  have f: "length (fr_data f) < 65536" and fs: "list_all frame_ok fs"
    using assms(1) by (simp_all add: q_frames_def frame_ok_def)
  have "word_of_nat (length (fr_data f)) - 14 = (word_of_nat (length (fr_data f) - 14) :: u32)"
    using assms(2) by (simp add: of_nat_diff)
  then have "unat (word_of_nat (length (fr_data f)) - 14 :: u32) = length (fr_data f) - 14"
    using f by (simp only: unat_of_nat) simp
  then have r: "int (min (unat (word_of_nat (length (fr_data f)) - 14 :: u32)) room) =
      min (int (length (fr_data f)) - 14) (int room)"
    using assms(2) by simp
  show ?thesis
    using recvfrom_frame [OF assms(1), of b room raw_phase frm "Some t"] assms(3) fs
    unfolding r by (auto simp: hwts_round_trip q_frames_def)
qed

text \<open>A socket that has received one frame.\<close>

definition demo_frame :: frame where
  "demo_frame = \<lparr>fr_hdr = replicate 14 5,
     fr_ts = \<lparr>ts_valid = 1, ts_ahead = 1, ts_sec = 3, ts_nsec = 800, ts_phase = 0\<rparr>,
     fr_data = replicate 16 7\<rparr>"

lemma demo_queue: "\<exists>q. q_frames q [demo_frame]"
  using enqueue_frame [OF q_frames_new, of "fr_hdr demo_frame" 16 "replicate 480 7" "fr_ts demo_frame"]
  by (auto simp: demo_frame_def)

lemma recvfrom_refines_witness:
  "\<forall>t frm. \<exists>s. \<forall>room\<in>{10, 100}. \<exists>q'. ptpd_netif_recvfrom board_wrc room 1234 frm (Some t) s =
      Some (min (int (length (fr_data demo_frame)) - 14) (int room),
            frm\<lparr>sa_ethertype := eth_type (fr_hdr demo_frame), sa_mac := eth_srcmac (fr_hdr demo_frame),
                sa_mac_dest := eth_dstmac (fr_hdr demo_frame)\<rparr>,
            take room (fr_data demo_frame), Some (rx_ts_of t (fr_ts demo_frame) 1234 (so_phase_transition s) board_wrc),
            s\<lparr>so_queue := q'\<rparr>)"
proof (intro allI)
  fix t :: wr_timestamp and frm :: wr_sockaddr
  obtain q where "q_frames q [demo_frame]" using demo_queue by blast
  then have q: "q_frames (so_queue (zero_socket\<lparr>so_queue := q\<rparr>)) [demo_frame]" by simp
  have f: "14 \<le> length (fr_data demo_frame)" "in32 (ts_ahead (fr_ts demo_frame))"
    by (simp_all add: demo_frame_def)
  note read = recvfrom_refines [OF q f, of board_wrc _ 1234 frm t]
  show "\<exists>s. \<forall>room\<in>{10, 100}. \<exists>q'. ptpd_netif_recvfrom board_wrc room 1234 frm (Some t) s =
      Some (min (int (length (fr_data demo_frame)) - 14) (int room),
            frm\<lparr>sa_ethertype := eth_type (fr_hdr demo_frame), sa_mac := eth_srcmac (fr_hdr demo_frame),
                sa_mac_dest := eth_dstmac (fr_hdr demo_frame)\<rparr>,
            take room (fr_data demo_frame), Some (rx_ts_of t (fr_ts demo_frame) 1234 (so_phase_transition s) board_wrc),
            s\<lparr>so_queue := q'\<rparr>)"
    by (rule exI [of _ "zero_socket\<lparr>so_queue := q\<rparr>"]) (use read [of 10] read [of 100] in blast)
qed

text \<open>
  A frame longer than the caller's buffer is not skipped to its end: the rest of its bytes stays
  at the front of the queue, where the next call takes them for the size and header of a frame.
\<close>

lemma recvfrom_short_buffer:
  assumes "q_frames (so_queue s) (f # fs)" "room < length (fr_data f)"
  shows "\<exists>n frm' ts q'. ptpd_netif_recvfrom b room raw_phase frm rx_ts s =
      Some (n, frm', take room (fr_data f), ts, s\<lparr>so_queue := q'\<rparr>) \<and>
    sq_n q' = int (length fs) \<and>
    q_items q' = drop room (fr_data f) @ concat (map frame_image fs) \<and> drop room (fr_data f) \<noteq> []"
  using recvfrom_frame [OF assms(1), of b room raw_phase frm rx_ts] assms(2) by auto

section \<open>The timestamps do not jump\<close>

lemma mod_below: "- P \<le> v \<Longrightarrow> v < 0 \<Longrightarrow> v mod P = v + (P :: int)"
  using mod_add_self2 [of v P] mod_pos_pos_trivial [of "v + P" P] by simp

lemma mod_above: "P \<le> v \<Longrightarrow> v < 2 * P \<Longrightarrow> v mod P = v - (P :: int)"
  using mod_add_self2 [of "v - P" P] mod_pos_pos_trivial [of "v - P" P] by simp

lemma lin_phase_f_eq:
  assumes P: "P = 8000 \<or> P = 16000" and tp: "0 \<le> tp" "tp < P" and raw: "raw = (x + tp) mod P"
  shows "lin_phase_f raw tp P = (x - P div 2) mod P"
proof -
  have r: "0 \<le> raw" "raw < P" using P raw by auto
  have e: "(x - P div 2) mod P = (raw - tp + P div 2) mod P"
  proof -
    have "raw - tp + P div 2 = (x + tp) mod P + (P div 2 - tp)" unfolding raw by simp
    then have "(raw - tp + P div 2) mod P = (x + tp + (P div 2 - tp)) mod P"
      by (simp only: mod_add_left_eq)
    also have "x + tp + (P div 2 - tp) = x - P div 2 + P" using P by auto
    finally show ?thesis by simp
  qed
  let ?v = "raw - tp + P div 2"
  have v: "- P < ?v" "?v < 2 * P" using r tp P by auto
  have "?v mod P = (if ?v < 0 then ?v + P else if P \<le> ?v then ?v - P else ?v)"
    using v mod_below [of P ?v] mod_above [of P ?v] mod_pos_pos_trivial [of ?v P] by auto
  moreover have "P sdiv 2 = P div 2" using P by auto
  ultimately show ?thesis
    using r tp P by (auto simp: lin_phase_f_def c_arith Let_def e)
qed

text \<open>
  C14. The linearised reception time is exact. Let \<open>x\<close> be the true arrival time in picoseconds
  within the second, and let the phase of the detector follow it with the offset
  \<open>transition_point\<close>. The falling-edge counter is off by half a period; the rising-edge counter
  may read its old or its new value near its own transition (the outer quarters of the
  period) and is exact elsewhere. Whatever it reads, \<open>ptpd_netif_linearize_rx_timestamp\<close>
  returns \<open>x\<close>: no jump at either counter's transition.
\<close>

theorem linearize_exact:
  assumes P: "P = 8000 \<or> P = 16000" and x: "0 \<le> x" "x < 1000000000000"
    and tp: "0 \<le> tp" "tp < P" and cf: "cf = (x - P div 2) div P"
    and cr: "cr = cf \<and> ahead = 0 \<or> cr = cf + 1 \<and> ahead = 1"
    and stable: "P div 4 \<le> x mod P \<longrightarrow> x mod P \<le> 3 * P div 4 \<longrightarrow> cr = x div P"
    and ts: "wt_nsec t = cr * (P div 1000)" "0 \<le> wt_sec t" "wt_sec t < 2 ^ 62"
  shows "let r = ptpd_netif_linearize_rx_timestamp t ((x + tp) mod P) ahead tp P
         in wt_sec r * 1000000000000 + wt_nsec r * 1000 + wt_phase r =
              wt_sec t * 1000000000000 + x \<and>
            0 \<le> wt_phase r \<and> wt_phase r < P \<and> wt_nsec r < 1000000000"
proof -
  define raw where "raw = (x + tp) mod P"
  define phf where "phf = (x - P div 2) mod P"
  define y where "y = x mod P"
  have y: "0 \<le> y" "y < P" and phf: "0 \<le> phf" "phf < P" and raw: "0 \<le> raw" "raw < P"
    using P by (auto simp: y_def phf_def raw_def)
  have xy: "x = x div P * P + y" by (simp add: y_def)
  have xf: "x - P div 2 = cf * P + phf" by (simp add: cf phf_def)
  have pr: "lin_phase_r raw tp P = y"
  proof -
    have "(raw - tp) mod P = y" unfolding raw_def y_def by (simp add: mod_diff_left_eq)
    moreover have "(raw - tp) mod P = (if raw - tp < 0 then raw - tp + P else raw - tp)"
      using raw tp mod_below [of P "raw - tp"] mod_pos_pos_trivial [of "raw - tp" P] by auto
    ultimately show ?thesis using raw tp P by (auto simp: lin_phase_r_def Let_def c_arith)
  qed
  have pf: "lin_phase_f raw tp P = phf"
    unfolding phf_def by (rule lin_phase_f_eq [OF P tp]) (simp add: raw_def)
  have k: "P sdiv 1000 = P div 1000" "P sdiv 2 = P div 2" "P sdiv 4 = P div 4"
    "mul32 3 P sdiv 4 = 3 * P div 4" "P div 1000 * 1000 = P"
    using P by (auto simp: c_arith)
  have cfb: "- 1 \<le> cf" "cf \<le> 125000000" "cr \<le> 125000001"
    using x xf phf P cr by auto
  define nf where "nf = cf * (P div 1000)"
  have nr: "lin_nsec_f (wt_nsec t) ahead P = nf"
  proof -
    have "wt_nsec t - P div 1000 = nf" if "ahead = 1"
      using that cr ts(1) by (auto simp: nf_def algebra_simps)
    moreover have "- 2147483648 \<le> nf \<and> nf < 2147483648" using cfb P by (auto simp: nf_def)
    moreover have "wt_nsec t = nf" if "ahead = 0" using that cr ts(1) by (auto simp: nf_def)
    ultimately show ?thesis using cr k(1) by (auto simp: lin_nsec_f_def c_arith)
  qed
  have nfx: "nf * 1000 + phf = x - P div 2" using xf k(5) by (simp add: nf_def mult.assoc)
  obtain n ph where pick: "lin_pick (wt_nsec t) nf y phf P = (n, ph)" by fastforce
  have res: "n * 1000 + ph = x \<and> 0 \<le> ph \<and> ph < P"
  proof (cases "3 * P div 4 < y \<or> y < P div 4")
    case False
    then have "cr = x div P" using stable by (auto simp: y_def)
    then have "wt_nsec t * 1000 + y = x" using ts(1) xy k(5) by (simp add: mult.assoc)
    then show ?thesis using pick False y k by (simp add: lin_pick_def)
  next
    case True
    have b: "- 100 \<le> nf" "nf \<le> 2000000000" using cfb P by (auto simp: nf_def)
    have a: "add32 phf (P div 2) = phf + P div 2" using phf P by (auto simp: c_arith)
    show ?thesis
    proof (cases "P \<le> phf + P div 2")
      case over: True
      have "add32 nf (P div 1000) = nf + P div 1000" using b P by (auto simp: c_arith)
      moreover have "sub32 (phf + P div 2) P = phf + P div 2 - P" using phf P by (auto simp: c_arith)
      ultimately have "n = nf + P div 1000 \<and> ph = phf + P div 2 - P"
        using pick True over a k by (simp add: lin_pick_def Let_def)
      then show ?thesis using nfx k(5) over phf P by (auto simp: ring_distribs)
    next
      case under: False
      then have "n = nf \<and> ph = phf + P div 2" using pick True a k by (simp add: lin_pick_def Let_def)
      then show ?thesis using nfx under phf P by auto
    qed
  qed
  have nb: "n < 1000000000" using res x by linarith
  have "ptpd_netif_linearize_rx_timestamp t raw ahead tp P =
      t\<lparr>wt_raw_phase := raw, wt_nsec := n, wt_phase := ph\<rparr>"
    using nb by (simp add: ptpd_netif_linearize_rx_timestamp_def Let_def pr pf nr pick)
  then show ?thesis using res nb by (simp add: raw_def)
qed

text \<open>Witness: an arrival just before a rising transition, where the rising counter already reads
  the next value.\<close>

lemma linearize_exact_witness:
  "\<forall>t. let t = t\<lparr>wt_nsec := 8008, wt_sec := 5\<rparr>;
         r = ptpd_netif_linearize_rx_timestamp t ((8007900 + 1234) mod 8000) 1 1234 8000
     in wt_sec r * 1000000000000 + wt_nsec r * 1000 + wt_phase r =
          wt_sec t * 1000000000000 + 8007900 \<and>
        0 \<le> wt_phase r \<and> wt_phase r < 8000 \<and> wt_nsec r < 1000000000"
proof
  fix t :: wr_timestamp
  show "let t = t\<lparr>wt_nsec := 8008, wt_sec := 5\<rparr>;
         r = ptpd_netif_linearize_rx_timestamp t ((8007900 + 1234) mod 8000) 1 1234 8000
     in wt_sec r * 1000000000000 + wt_nsec r * 1000 + wt_phase r =
          wt_sec t * 1000000000000 + 8007900 \<and>
        0 \<le> wt_phase r \<and> wt_phase r < 8000 \<and> wt_nsec r < 1000000000"
    using linearize_exact [of 8000 8007900 1234 1000 1001 1 "t\<lparr>wt_nsec := 8008, wt_sec := 5\<rparr>"]
    by (simp add: Let_def)
qed

text \<open>
  The nanoseconds may be negative: if the rising counter has just begun a second that the
  falling one has not reached, the result is \<open>-8\<close>, not the last cycle of the second before.
\<close>

lemma linearize_negative_nsec:
  "wt_nsec (ptpd_netif_linearize_rx_timestamp (t\<lparr>wt_nsec := 0, wt_sec := 1\<rparr>) 7900 1 0 8000) = - 8"
  by (simp add: ptpd_netif_linearize_rx_timestamp_def lin_pick_def lin_phase_f_def Let_def lin_phase_r_def lin_nsec_f_def c_arith)

section \<open>From the wire to the socket\<close>

lemma q_frames_empty:
  "length (sq_buf q) = 512 \<Longrightarrow>
    q_frames (q\<lparr>sq_head := 0, sq_tail := 0, sq_avail := NET_SKBUF_SIZE, sq_n := 0\<rparr>) []"
  by (simp add: q_frames_def q_ok_def q_items_def q_used_def)

text \<open>The frames in the queue of every open socket.\<close>

definition net_inv :: "net \<Rightarrow> bool" where
  [inv_simps]: "net_inv s \<longleftrightarrow> length (rx_payload s) = 480 \<and> length (socks s) = 4 \<and>
     list_all (\<lambda>k. length (sq_buf (so_queue k)) = 512 \<and>
       (so_in_use k \<noteq> 0 \<longrightarrow> (\<exists>fs. q_frames (so_queue k) fs))) (socks s)"

lemma net_inv_sock: "net_inv s \<Longrightarrow> i < length (socks s) \<Longrightarrow> so_in_use (socks s ! i) \<noteq> 0 \<Longrightarrow>
  \<exists>fs. q_frames (so_queue (socks s ! i)) fs"
  by (auto simp: net_inv_def list_all_length)

lemma find_socket_Some:
  "find_socket hdr n ks = Some i \<Longrightarrow> n \<le> i \<and> i < n + length ks \<and> so_in_use (ks ! (i - n)) \<noteq> 0 \<and>
    eth_dstmac hdr = sa_mac (so_bind_addr (ks ! (i - n))) \<and>
    eth_type hdr = sa_ethertype (so_bind_addr (ks ! (i - n)))"
proof (induction ks arbitrary: n)
  case (Cons k ks)
  show ?case
  proof (cases "so_in_use k \<noteq> 0 \<and> eth_dstmac hdr = sa_mac (so_bind_addr k) \<and>
      eth_type hdr = sa_ethertype (so_bind_addr k)")
    case False
    then have "find_socket hdr (Suc n) ks = Some i" using Cons.prems by (simp split: if_splits)
    from Cons.IH [OF this] show ?thesis by (auto simp: nth_Cons')
  qed (use Cons.prems in auto)
qed simp

lemma first_free_Some: "first_free n ks = Some i \<Longrightarrow> n \<le> i \<and> i < n + length ks"
  by (induction n ks rule: first_free.induct) (auto split: if_splits)

text \<open>
  The life of the sockets: initialisation, opening, closing, calibration, reception of a frame
  and reading it into a buffer of any size. The flag \<open>w\<close> says that every read so far had room for the frame that it took.
\<close>

definition read_fits :: "nat \<Rightarrow> my_socket \<Rightarrow> bool" where
  "read_fits room k \<longleftrightarrow> sq_n (so_queue k) = 0 \<or> be_val (take 2 (q_items (so_queue k))) \<le> room"

inductive net_reach :: "bool \<Rightarrow> net \<Rightarrow> bool" where
  net_init: "length (rx_payload s) = 480 \<Longrightarrow> net_reach True (snd (ptpd_netif_init s))"
| net_open: "net_reach w s \<Longrightarrow> net_reach w (snd (ptpd_netif_create_socket ty addr hal mac s))"
| net_close: "net_reach w s \<Longrightarrow> i < 4 \<Longrightarrow> net_reach w (snd (ptpd_netif_close_socket (Some i) s))"
| net_phase: "net_reach w s \<Longrightarrow> net_reach w (ptpd_netif_set_phase_transition ph s)"
| net_recv: "net_reach w s \<Longrightarrow> length hdr = 14 \<Longrightarrow> length payload = 480 \<Longrightarrow> recvd \<le> 480 \<Longrightarrow>
    rx_dispatch recvd ts (s\<lparr>rx_hdr := hdr, rx_payload := payload\<rparr>) = Some s' \<Longrightarrow> net_reach w s'"
| net_read: "net_reach w s \<Longrightarrow> i < 4 \<Longrightarrow> so_in_use (socks s ! i) \<noteq> 0 \<Longrightarrow>
    ptpd_netif_recvfrom b room raw frm rx_ts (socks s ! i) = Some (n, frm', data, rx_ts', k) \<Longrightarrow>
    net_reach (w \<and> read_fits room (socks s ! i)) (s\<lparr>socks := (socks s)[i := k]\<rparr>)"

text \<open>What holds after short reads too: the indices stay in the buffers.\<close>

definition ring_safe :: "sockq \<Rightarrow> bool" where
  [inv_simps]: "ring_safe q \<longleftrightarrow> length (sq_buf q) = 512 \<and> 0 \<le> sq_head q \<and> sq_head q < 512 \<and> 0 \<le> sq_tail q \<and> sq_tail q < 512"

definition net_safe :: "net \<Rightarrow> bool" where
  [inv_simps]: "net_safe s \<longleftrightarrow> length (rx_payload s) = 480 \<and> length (socks s) = 4 \<and> list_all (\<lambda>k. ring_safe (so_queue k)) (socks s)"

lemma ring_safe_upd [simp]: "ring_safe (q\<lparr>sq_avail := a\<rparr>) = ring_safe q" "ring_safe (q\<lparr>sq_n := n\<rparr>) = ring_safe q"
  by (simp_all add: ring_safe_def)

lemma deq_safe: "ring_safe q \<Longrightarrow> \<exists>bs q'. deq n q = Some (bs, q') \<and> ring_safe q'"
  using wrap_copy_in_ring [of q n] by (auto simp: deq_def ring_safe_def)

lemma enq_safe: "ring_safe q \<Longrightarrow> \<exists>q'. enq bs q = Some q' \<and> ring_safe q'"
proof -
  have "\<exists>q'. wrap_copy_out bs q = Some q' \<and> ring_safe q'" if "ring_safe q" for q
    using that
  proof (induction bs arbitrary: q)
    case (Cons b bs)
    let ?q = "q\<lparr>sq_buf := (sq_buf q)[nat (sq_head q) := b], sq_head := int (Suc (nat (sq_head q)) mod 512)\<rparr>"
    have "ring_safe ?q" using Cons.prems by (simp add: ring_safe_def)
    then show ?case
      using Cons.IH [of ?q] Cons.prems ring_step [of "sq_head q"] by (auto simp: aset_Some Let_def ring_safe_def)
  qed simp
  then show "ring_safe q \<Longrightarrow> \<exists>q'. enq bs q = Some q' \<and> ring_safe q'" by (fastforce simp: enq_def)
qed

lemma rx_enqueue_safe:
  assumes "ring_safe q" "0 < recvd" "recvd \<le> 480" "length payload = 480"
  shows "\<exists>q'. rx_enqueue recvd hdr ts payload q = Some q' \<and> ring_safe q'"
proof -
  have u: "u16i recvd = recvd" "nat recvd \<le> 480" using assms by (simp_all add: u16i_def)
  obtain q1 where q1: "enq (be_bytes 2 (nat recvd)) q = Some q1" "ring_safe q1" using enq_safe [OF assms(1)] by blast
  obtain q2 where q2: "enq hdr q1 = Some q2" "ring_safe q2" using enq_safe [OF q1(2)] by blast
  obtain q3 where q3: "enq (hwts_image ts) q2 = Some q3" "ring_safe q3" using enq_safe [OF q2(2)] by blast
  obtain q4 where q4: "enq (take (nat recvd) payload) q3 = Some q4" "ring_safe q4" using enq_safe [OF q3(2)] by blast
  show ?thesis using assms q1 q2 q3 q4 u by (simp add: rx_enqueue_def mem_get_def)
qed

lemma recvfrom_safe:
  assumes "ring_safe (so_queue k)"
  shows "\<exists>n frm' data ts k'. ptpd_netif_recvfrom b room raw frm rx_ts k = Some (n, frm', data, ts, k') \<and> ring_safe (so_queue k')"
proof (cases "sq_n (so_queue k) = 0")
  case False
  let ?q = "(so_queue k)\<lparr>sq_n := u16i (sq_n (so_queue k) - 1)\<rparr>"
  have q: "ring_safe ?q" using assms by simp
  obtain sz q1 where q1: "deq 2 ?q = Some (sz, q1)" "ring_safe q1" using deq_safe [OF q] by blast
  obtain h q2 where q2: "deq 14 q1 = Some (h, q2)" "ring_safe q2" using deq_safe [OF q1(2)] by blast
  obtain t q3 where q3: "deq 24 q2 = Some (t, q3)" "ring_safe q3" using deq_safe [OF q2(2)] by blast
  obtain d q4 where q4: "deq (min (be_val sz) room) q3 = Some (d, q4)" "ring_safe q4" using deq_safe [OF q3(2)] by blast
  show ?thesis using False q1 q2 q3 q4 by (simp add: ptpd_netif_recvfrom_def Let_def)
qed (use assms in \<open>simp add: ptpd_netif_recvfrom_def\<close>)

lemma rx_dispatch_safe:
  assumes "net_safe s" "recvd \<le> 480"
  shows "\<exists>s'. rx_dispatch recvd ts s = Some s' \<and> net_safe s'"
proof (cases "recvd \<le> 0 \<or> find_socket (rx_hdr s) 0 (socks s) = None")
  case True
  then show ?thesis using assms by (auto simp: rx_dispatch_def)
next
  case False
  then obtain i where i: "find_socket (rx_hdr s) 0 (socks s) = Some i" by auto
  from find_socket_Some [OF this] have "i < length (socks s)" by simp
  then have "ring_safe (so_queue (socks s ! i))" using assms(1) by (simp add: net_safe_def list_all_length)
  from rx_enqueue_safe [OF this, of recvd "rx_payload s" "rx_hdr s" ts] obtain q' where
    "rx_enqueue recvd (rx_hdr s) ts (rx_payload s) (so_queue (socks s ! i)) = Some q'" "ring_safe q'"
    using assms False by (auto simp: net_safe_def)
  then show ?thesis using i False assms(1) by (simp add: rx_dispatch_def net_safe_def list_all_update)
qed

definition sock_ok :: "my_socket \<Rightarrow> bool" where
  "sock_ok k \<longleftrightarrow> length (sq_buf (so_queue k)) = 512 \<and>
     (so_in_use k \<noteq> 0 \<longrightarrow> (\<exists>fs. q_frames (so_queue k) fs))"

lemma net_inv_alt: "net_inv s \<longleftrightarrow> length (rx_payload s) = 480 \<and> length (socks s) = 4 \<and> list_all sock_ok (socks s)"
  unfolding net_inv_def sock_ok_def by simp

lemma q_frames_buf: "q_frames q fs \<Longrightarrow> length (sq_buf q) = 512"
  by (simp add: q_frames_def q_ok_def)

lemma net_inv_upd: "net_inv s \<Longrightarrow> sock_ok k \<Longrightarrow> net_inv (s\<lparr>socks := (socks s)[i := k]\<rparr>)"
  by (simp add: net_inv_alt list_all_update)

lemma rx_dispatch_inv:
  assumes inv: "net_inv s" and hdr: "length (rx_hdr s) = 14" and recvd: "recvd \<le> 480"
  shows "\<exists>s'. rx_dispatch recvd ts s = Some s' \<and> net_inv s'"
proof (cases "recvd \<le> 0 \<or> find_socket (rx_hdr s) 0 (socks s) = None")
  case True
  then show ?thesis using inv by (auto simp: rx_dispatch_def)
next
  case False
  then obtain i where i: "find_socket (rx_hdr s) 0 (socks s) = Some i" by auto
  from find_socket_Some [OF this] have i': "i < length (socks s)" "so_in_use (socks s ! i) \<noteq> 0" by simp_all
  then obtain fs where fs: "q_frames (so_queue (socks s ! i)) fs" using net_inv_sock [OF inv] by blast
  have "nat recvd \<le> length (rx_payload s)" "length (rx_payload s) \<le> 480" "0 < recvd"
    using inv recvd False by (auto simp: net_inv_def)
  with enqueue_frame [OF fs hdr, of recvd "rx_payload s" ts] obtain q' fs' where
    q': "rx_enqueue recvd (rx_hdr s) ts (rx_payload s) (so_queue (socks s ! i)) = Some q'" "q_frames q' fs'"
    by blast
  then have "sock_ok ((socks s ! i)\<lparr>so_queue := q'\<rparr>)" using q_frames_buf by (auto simp: sock_ok_def)
  from net_inv_upd [OF inv this, of i] show ?thesis using i q'(1) False by (simp add: rx_dispatch_def)
qed

lemma recvfrom_inv:
  assumes "q_frames (so_queue k) fs" "read_fits room k"
    "ptpd_netif_recvfrom b room raw frm rx_ts k = Some (n, frm', data, ts, k')"
  shows "sock_ok k'"
proof (cases fs)
  case Nil
  then have "sq_n (so_queue k) = 0" using assms(1) by (simp add: q_frames_def)
  then show ?thesis using assms q_frames_buf by (auto simp: ptpd_netif_recvfrom_def sock_ok_def)
next
  case (Cons f gs)
  then have q: "q_frames (so_queue k) (f # gs)" using assms(1) by simp
  have "take 2 (q_items (so_queue k)) = be_bytes 2 (length (fr_data f))" "length (fr_data f) < 65536"
    using q by (simp_all add: q_frames_def frame_image_def frame_ok_def)
  then have "drop room (fr_data f) = []" using assms(2) q by (auto simp: read_fits_def q_frames_def)
  with recvfrom_frame [OF q, of b room raw frm rx_ts] obtain n frm' data ts q' where
    r: "ptpd_netif_recvfrom b room raw frm rx_ts k = Some (n, frm', data, ts, k\<lparr>so_queue := q'\<rparr>)"
    and q': "q_ok q'" "sq_n q' = int (length gs)" "q_items q' = concat (map frame_image gs)"
    by (metis append_Nil)
  have "q_frames q' gs" using q q' by (simp add: q_frames_def)
  then show ?thesis using r assms(3) q_frames_buf by (auto simp: sock_ok_def)
qed

lemma net_reach_safe: "net_reach w s \<Longrightarrow> net_safe s"
proof (induction rule: net_reach.induct)
  case (net_init s)
  then show ?case by (simp add: ptpd_netif_init_def net_safe_def ring_safe_def zero_socket_def list_all_length)
next
  case (net_open w s ty addr hal mac)
  then show ?case using first_free_Some [of 0 "socks s"]
    by (fastforce simp: ptpd_netif_create_socket_def Let_def net_safe_def ring_safe_def list_all_length nth_list_update
      split: option.splits)
next
  case (net_close w s i)
  then show ?case by (auto simp: ptpd_netif_close_socket_def net_safe_def list_all_length nth_list_update)
next
  case (net_phase w s ph)
  then show ?case by (simp add: ptpd_netif_set_phase_transition_def net_safe_def list_all_length)
next
  case (net_recv w s hdr payload recvd ts s')
  then have "net_safe (s\<lparr>rx_hdr := hdr, rx_payload := payload\<rparr>)" by (simp add: net_safe_def)
  from rx_dispatch_safe [OF this, of recvd ts] net_recv show ?case by auto
next
  case (net_read w s i b room raw frm rx_ts n frm' data rx_ts' k)
  then have "ring_safe (so_queue (socks s ! i))" by (simp add: net_safe_def list_all_length)
  from recvfrom_safe [OF this, of b room raw frm rx_ts] net_read have "ring_safe (so_queue k)" by auto
  then show ?case using net_read by (simp add: net_safe_def list_all_update)
qed

lemma net_reach_whole: "net_reach w s \<Longrightarrow> w \<Longrightarrow> net_inv s"
proof (induction rule: net_reach.induct)
  case (net_init s)
  then show ?case
    by (simp add: ptpd_netif_init_def net_inv_alt sock_ok_def zero_socket_def list_all_length)
next
  case (net_open w s ty addr hal mac)
  show ?case
  proof (cases "first_free 0 (socks s)")
    case (Some i)
    then have "i < length (socks s)" using first_free_Some by fastforce
    then have "length (sq_buf (so_queue (socks s ! i))) = 512"
      using net_open by (auto simp: net_inv_def list_all_length)
    from this q_frames_empty [OF this] show ?thesis
      using net_open Some
        \<open>length (sq_buf (so_queue (socks s ! i))) = 512\<close>
      by (auto simp: ptpd_netif_create_socket_def Let_def sock_ok_def intro!: net_inv_upd exI)
  qed (use net_open in \<open>simp add: ptpd_netif_create_socket_def\<close>)
next
  case (net_close w s i)
  then have "sock_ok (socks s ! i)" by (simp add: net_inv_alt list_all_length)
  then show ?case using net_close
    by (auto simp: ptpd_netif_close_socket_def sock_ok_def intro!: net_inv_upd)
next
  case (net_phase w s ph)
  then show ?case by (simp add: ptpd_netif_set_phase_transition_def net_inv_alt sock_ok_def list_all_length)
next
  case (net_recv w s hdr payload recvd ts s')
  then have "net_inv (s\<lparr>rx_hdr := hdr, rx_payload := payload\<rparr>)" by (simp add: net_inv_def)
  with rx_dispatch_inv [OF this, of recvd ts] net_recv show ?case by auto
next
  case (net_read w s i b room raw frm rx_ts n frm' data rx_ts' k)
  then obtain fs where "q_frames (so_queue (socks s ! i)) fs"
    using net_inv_sock [of s i] by (auto simp: net_inv_def)
  from recvfrom_inv [OF this _ net_read.hyps(4)] net_read show ?case by (auto intro: net_inv_upd)
qed

text \<open>
  C17. The sockets are safe, and whole. In every state that the operations on sockets can reach, with frames
  arriving at any time for any address and reads into buffers of any size, the indices of every queue stay in its buffer and
  neither the reception of a frame nor a read, of any size, leaves the buffers. As long as every read had room
  for the frame that it took, the queue of every open socket is a sequence of whole frames.
\<close>

theorem sockets_invariant:
  assumes "net_reach w s"
  shows "net_safe s \<and> (w \<longrightarrow> net_inv s) \<and>
    (length hdr = 14 \<and> length payload = 480 \<and> recvd \<le> 480 \<longrightarrow>
      rx_dispatch recvd ts (s\<lparr>rx_hdr := hdr, rx_payload := payload\<rparr>) \<noteq> None) \<and>
    (i < 4 \<and> so_in_use (socks s ! i) \<noteq> 0 \<longrightarrow>
      ptpd_netif_recvfrom b room raw frm rx_ts (socks s ! i) \<noteq> None)"
proof -
  have safe: "net_safe s" using assms by (rule net_reach_safe)
  have "net_safe (s\<lparr>rx_hdr := hdr, rx_payload := payload\<rparr>)" if "length payload = 480"
    using that safe by (simp add: net_safe_def)
  moreover have "ring_safe (so_queue (socks s ! i))" if "i < 4" using that safe by (simp add: net_safe_def list_all_length)
  ultimately show ?thesis
    using safe net_reach_whole [OF assms] rx_dispatch_safe [of "s\<lparr>rx_hdr := hdr, rx_payload := payload\<rparr>" recvd ts]
      recvfrom_safe [of "socks s ! i" b room raw frm rx_ts] by auto
qed

lemma sockets_invariant_witness:
  "\<forall>ty addr mac ts frm. let s0 = \<lparr>socks = [], rx_hdr = replicate 14 0, rx_payload = replicate 480 0\<rparr>;
       s = snd (ptpd_netif_create_socket ty addr (0, 0, 0) mac (snd (ptpd_netif_init s0)))
   in net_safe s \<and> (True \<longrightarrow> net_inv s) \<and>
    (length (replicate 14 (1 :: u8)) = 14 \<and> length (replicate 480 (1 :: u8)) = 480 \<and> (200 :: int) \<le> 480 \<longrightarrow>
      rx_dispatch 200 ts (s\<lparr>rx_hdr := replicate 14 1, rx_payload := replicate 480 1\<rparr>) \<noteq> None) \<and>
    ((0 :: nat) < 4 \<and> so_in_use (socks s ! 0) \<noteq> 0 \<longrightarrow>
      ptpd_netif_recvfrom board_wrc 400 0 frm None (socks s ! 0) \<noteq> None)"
  unfolding Let_def
  by (intro allI, rule sockets_invariant, rule net_open, rule net_init) simp

end
