(* ===== verification/Ipv4.thy ===== *)
theory Ipv4
  imports Net
begin

text \<open>
  The minimal IP stack: \<open>lib/ipv4.c\<close>, \<open>lib/icmp.c\<close>, \<open>lib/arp.c\<close> and \<open>lib/bootp.c\<close>. Packets are built
  in place in a buffer on the stack, whose contents at entry are an argument; an access outside it
  is \<open>None\<close>. The MAC address of \<open>get_mac_addr\<close> is an argument. The register of the Etherbone core
  holds what was last written. A packet handed to \<open>ptpd_netif_sendto\<close> is part of the result.
\<close>

section \<open>Writes into a packet\<close>

text \<open>A sequence of assignments and copies, each an offset with the bytes put there.\<close>

fun put_all :: "(nat \<times> u8 list) list \<Rightarrow> u8 list \<Rightarrow> u8 list option" where
  "put_all [] buf = Some buf"
| "put_all ((off, bs) # ws) buf = do { buf \<leftarrow> mem_put buf off bs; put_all ws buf }"

text \<open>The two bytes of a 16-bit value: \<open>v >> 8\<close> and \<open>v & 0xff\<close>.\<close>

definition hi_lo :: "int \<Rightarrow> u8 list" where
  "hi_lo v = [word_of_int (drop_bit 8 v), word_of_int (v AND 0xff)]"

section \<open>Layout\<close>

abbreviation (input) IP_VERSION :: nat where "IP_VERSION \<equiv> 0"
abbreviation (input) IP_TOS :: nat where "IP_TOS \<equiv> 1"
abbreviation (input) IP_LEN :: nat where "IP_LEN \<equiv> 2"
abbreviation (input) IP_ID :: nat where "IP_ID \<equiv> 4"
abbreviation (input) IP_FLAGS :: nat where "IP_FLAGS \<equiv> 6"
abbreviation (input) IP_TTL :: nat where "IP_TTL \<equiv> 8"
abbreviation (input) IP_PROTOCOL :: nat where "IP_PROTOCOL \<equiv> 9"
abbreviation (input) IP_CHECKSUM :: nat where "IP_CHECKSUM \<equiv> 10"
abbreviation (input) IP_SOURCE :: nat where "IP_SOURCE \<equiv> 12"
abbreviation (input) IP_DEST :: nat where "IP_DEST \<equiv> 16"
abbreviation (input) IP_END :: nat where "IP_END \<equiv> 20"

abbreviation (input) ICMP_TYPE :: nat where "ICMP_TYPE \<equiv> 20"
abbreviation (input) ICMP_CODE :: nat where "ICMP_CODE \<equiv> 21"
abbreviation (input) ICMP_CHECKSUM :: nat where "ICMP_CHECKSUM \<equiv> 22"

abbreviation (input) ARP_HTYPE :: nat where "ARP_HTYPE \<equiv> 0"
abbreviation (input) ARP_PTYPE :: nat where "ARP_PTYPE \<equiv> 2"
abbreviation (input) ARP_HLEN :: nat where "ARP_HLEN \<equiv> 4"
abbreviation (input) ARP_PLEN :: nat where "ARP_PLEN \<equiv> 5"
abbreviation (input) ARP_OPER :: nat where "ARP_OPER \<equiv> 6"
abbreviation (input) ARP_SHA :: nat where "ARP_SHA \<equiv> 8"
abbreviation (input) ARP_SPA :: nat where "ARP_SPA \<equiv> 14"
abbreviation (input) ARP_THA :: nat where "ARP_THA \<equiv> 18"
abbreviation (input) ARP_TPA :: nat where "ARP_TPA \<equiv> 24"
abbreviation (input) ARP_END :: nat where "ARP_END \<equiv> 28"

abbreviation (input) UDP_VIRT_SADDR :: nat where "UDP_VIRT_SADDR \<equiv> 8"
abbreviation (input) UDP_VIRT_DADDR :: nat where "UDP_VIRT_DADDR \<equiv> 12"
abbreviation (input) UDP_VIRT_ZEROS :: nat where "UDP_VIRT_ZEROS \<equiv> 16"
abbreviation (input) UDP_VIRT_PROTO :: nat where "UDP_VIRT_PROTO \<equiv> 17"
abbreviation (input) UDP_VIRT_LENGTH :: nat where "UDP_VIRT_LENGTH \<equiv> 18"
abbreviation (input) UDP_SPORT :: nat where "UDP_SPORT \<equiv> 20"
abbreviation (input) UDP_DPORT :: nat where "UDP_DPORT \<equiv> 22"
abbreviation (input) UDP_LENGTH :: nat where "UDP_LENGTH \<equiv> 24"
abbreviation (input) UDP_CHECKSUM :: nat where "UDP_CHECKSUM \<equiv> 26"

abbreviation (input) BOOTP_OP :: nat where "BOOTP_OP \<equiv> 28"
abbreviation (input) BOOTP_HTYPE :: nat where "BOOTP_HTYPE \<equiv> 29"
abbreviation (input) BOOTP_HLEN :: nat where "BOOTP_HLEN \<equiv> 30"
abbreviation (input) BOOTP_HOPS :: nat where "BOOTP_HOPS \<equiv> 31"
abbreviation (input) BOOTP_XID :: nat where "BOOTP_XID \<equiv> 32"
abbreviation (input) BOOTP_SECS :: nat where "BOOTP_SECS \<equiv> 36"
abbreviation (input) BOOTP_UNUSED :: nat where "BOOTP_UNUSED \<equiv> 38"
abbreviation (input) BOOTP_CIADDR :: nat where "BOOTP_CIADDR \<equiv> 40"
abbreviation (input) BOOTP_YIADDR :: nat where "BOOTP_YIADDR \<equiv> 44"
abbreviation (input) BOOTP_SIADDR :: nat where "BOOTP_SIADDR \<equiv> 48"
abbreviation (input) BOOTP_GIADDR :: nat where "BOOTP_GIADDR \<equiv> 52"
abbreviation (input) BOOTP_CHADDR :: nat where "BOOTP_CHADDR \<equiv> 56"
abbreviation (input) BOOTP_SNAME :: nat where "BOOTP_SNAME \<equiv> 72"
abbreviation (input) BOOTP_FILE :: nat where "BOOTP_FILE \<equiv> 136"
abbreviation (input) BOOTP_VEND :: nat where "BOOTP_VEND \<equiv> 264"
abbreviation (input) BOOTP_END :: nat where "BOOTP_END \<equiv> 328"

section \<open>\<open>lib/ipv4.c\<close>\<close>

text \<open>The statics of \<open>ipv4.c\<close> and \<open>arp.c\<close>: the sockets are indices into those of \<open>net.c\<close>.\<close>

record ip_state =
  needIP :: bool
  myIP :: "u8 list"
  ipv4_socket :: "nat option"
  arp_socket :: "nat option"
  bootp_retry :: int
  bootp_timer :: int
  eb_ip :: u32

fun shorts_of :: "u8 list \<Rightarrow> u32 list" where
  "shorts_of (a # b # bs) = word_of_nat (be_val [a, b]) # shorts_of bs"
| "shorts_of _ = []"

definition fold_sum :: "u32 \<Rightarrow> u32" where
  "fold_sum s = (let s = drop_bit 16 s + (s AND 0xffff) in s + drop_bit 16 s)"

definition ipv4_checksum :: "u8 list \<Rightarrow> nat \<Rightarrow> int \<Rightarrow> u32 option" where
  "ipv4_checksum buf off shorts = do {
     bs \<leftarrow> mem_get buf off (2 * nat shorts);
     let s = foldl (+) 0 (shorts_of bs);
     Some (NOT (fold_sum s) AND 0xffff)
   }"

text \<open>\<open>memset\<close> and \<open>strcpy\<close> into the \<open>wr_sockaddr_t\<close> on the stack.\<close>

definition raw_addr :: "string \<Rightarrow> u8 list \<Rightarrow> u16 \<Rightarrow> wr_sockaddr" where
  "raw_addr if_name mac ethertype =
     zero_sockaddr\<lparr>sa_if_name := if_name, sa_mac := mac, sa_ethertype := ethertype,
       sa_family := PTPD_SOCK_RAW_ETHERNET\<rparr>"

definition ipv4_init ::
  "string \<Rightarrow> int \<times> u32 \<times> u32 \<Rightarrow> u8 list \<Rightarrow> ip_state \<Rightarrow> net \<Rightarrow> ip_state \<times> net" where
  "ipv4_init if_name hal mac p s =
    (let p = p\<lparr>needIP := True\<rparr>;
         (k, s) = ptpd_netif_create_socket PTPD_SOCK_RAW_ETHERNET (raw_addr if_name mac 0x0800) hal mac s
     in (p\<lparr>ipv4_socket := k\<rparr>, s))"

definition getIP :: "ip_state \<Rightarrow> u8 list" where
  "getIP p = take 4 (myIP p)"

text \<open>\<open>while (*eb_ip != ip) *eb_ip = ip;\<close>: at most one write to a register that reads back.\<close>

definition eb_write :: "u32 \<Rightarrow> ip_state \<Rightarrow> ip_state" where
  "eb_write ip p = (if eb_ip p \<noteq> ip then p\<lparr>eb_ip := ip\<rparr> else p)"

definition setIP :: "u8 list \<Rightarrow> ip_state \<Rightarrow> ip_state" where
  "setIP IP p =
    (let p = p\<lparr>myIP := take 4 IP\<rparr>;
         ip = (push_bit 24 (ucast (myIP p ! 0)) OR push_bit 16 (ucast (myIP p ! 1)) OR
               push_bit 8 (ucast (myIP p ! 2)) OR ucast (myIP p ! 3) :: u32);
         p = eb_write ip p;
         p = p\<lparr>needIP := (ip = 0)\<rparr>
     in if \<not> needIP p then p\<lparr>bootp_retry := 0, bootp_timer := 0\<rparr> else p)"

section \<open>\<open>lib/icmp.c\<close>\<close>

text \<open>The result is the length of the reply, 0 for none, and the buffer.\<close>

definition process_icmp :: "ip_state \<Rightarrow> u8 list \<Rightarrow> int \<Rightarrow> (int \<times> u8 list) option" where
  "process_icmp p buf len = do {
     let my = getIP p;
     ver \<leftarrow> aget buf (int IP_VERSION);
     dest \<leftarrow> mem_get buf IP_DEST 4;
     if ver \<noteq> 0x45 \<or> dest \<noteq> my then Some (0, buf)
     else do {
       l \<leftarrow> mem_get buf IP_LEN 2;
       let iplen = int (be_val l);
       proto \<leftarrow> aget buf (int IP_PROTOCOL);
       typ \<leftarrow> aget buf (int ICMP_TYPE);
       if proto \<noteq> 1 \<or> typ \<noteq> 8 then Some (0, buf)
       else do {
         let body = iplen - 24;
         let body = (if body > 64 then 64 else body);
         hisIP \<leftarrow> mem_get buf IP_SOURCE 4;
         buf \<leftarrow> put_all [(IP_VERSION, [0x45]), (IP_TOS, [0]), (IP_LEN, hi_lo (body + 24)), (IP_ID, [0, 0]),
                   (IP_FLAGS, [0, 0]), (IP_TTL, [63]), (IP_PROTOCOL, [1]), (IP_CHECKSUM, [0, 0]),
                   (IP_SOURCE, my), (IP_DEST, hisIP),
                   (ICMP_TYPE, [0]), (ICMP_CODE, [0]), (ICMP_CHECKSUM, [0, 0])] buf;
         s \<leftarrow> ipv4_checksum buf ICMP_TYPE ((body + 4 + 1) sdiv 2);
         buf \<leftarrow> mem_put buf ICMP_CHECKSUM (hi_lo (uint s));
         s \<leftarrow> ipv4_checksum buf IP_VERSION 10;
         buf \<leftarrow> mem_put buf IP_CHECKSUM (hi_lo (uint s));
         Some (24 + body, buf)
       }
     }
   }"

section \<open>\<open>lib/arp.c\<close>\<close>

definition arp_init ::
  "string \<Rightarrow> int \<times> u32 \<times> u32 \<Rightarrow> u8 list \<Rightarrow> ip_state \<Rightarrow> net \<Rightarrow> ip_state \<times> net" where
  "arp_init if_name hal mac p s =
    (let (k, s) = ptpd_netif_create_socket PTPD_SOCK_RAW_ETHERNET
                    (raw_addr if_name (replicate 6 0xFF) 0x0806) hal mac s
     in (p\<lparr>arp_socket := k\<rparr>, s))"

definition process_arp :: "u8 list \<Rightarrow> ip_state \<Rightarrow> u8 list \<Rightarrow> int \<Rightarrow> (int \<times> u8 list) option" where
  "process_arp mac p buf len =
    (if len < int ARP_END then Some (0, buf)
     else do {
       let my = getIP p;
       oper \<leftarrow> mem_get buf ARP_OPER 2;
       tpa \<leftarrow> mem_get buf ARP_TPA 4;
       if oper \<noteq> [0, 1] \<or> tpa \<noteq> my then Some (0, buf)
       else do {
         hisMAC \<leftarrow> mem_get buf ARP_SHA 6;
         hisIP \<leftarrow> mem_get buf ARP_SPA 4;
         buf \<leftarrow> put_all [(ARP_HTYPE, [0, 1]), (ARP_PTYPE, [8, 0]), (ARP_HLEN, [6]), (ARP_PLEN, [4]),
                   (ARP_OPER, [0, 2]), (ARP_SHA, mac), (ARP_SPA, my), (ARP_THA, hisMAC), (ARP_TPA, hisIP)] buf;
         Some (int ARP_END, buf)
       }
     })"

section \<open>\<open>lib/bootp.c\<close>\<close>

definition send_bootp :: "u8 list \<Rightarrow> u8 list \<Rightarrow> int \<Rightarrow> (int \<times> u8 list) option" where
  "send_bootp mac buf retry = do {
     buf \<leftarrow> put_all [(BOOTP_OP, [1]), (BOOTP_HTYPE, [1]), (BOOTP_HLEN, [6]), (BOOTP_HOPS, [0]), (BOOTP_XID, mac)] buf;
     x \<leftarrow> mem_get buf BOOTP_XID 6;
     let r = hi_lo retry;
     buf \<leftarrow> put_all [(BOOTP_XID, [x ! 0 XOR x ! 4, x ! 1 XOR x ! 5, x ! 2 XOR r ! 0, x ! 3 XOR r ! 1]),
               (BOOTP_SECS, r), (BOOTP_UNUSED, replicate 2 0),
               (BOOTP_CIADDR, replicate 4 0), (BOOTP_YIADDR, replicate 4 0), (BOOTP_SIADDR, replicate 4 0),
               (BOOTP_GIADDR, replicate 4 0), (BOOTP_CHADDR, replicate 16 0), (BOOTP_CHADDR, mac),
               (BOOTP_SNAME, replicate 64 0), (BOOTP_FILE, replicate 128 0), (BOOTP_VEND, replicate 64 0),
               (UDP_VIRT_SADDR, replicate 4 0), (UDP_VIRT_DADDR, replicate 4 0xFF), (UDP_VIRT_ZEROS, [0]),
               (UDP_VIRT_PROTO, [0x11]), (UDP_VIRT_LENGTH, hi_lo (int BOOTP_END - int IP_END)),
               (UDP_SPORT, [0, 68]), (UDP_DPORT, [0, 67]), (UDP_LENGTH, hi_lo (int BOOTP_END - int IP_END)),
               (UDP_CHECKSUM, [0, 0])] buf;
     s \<leftarrow> ipv4_checksum buf UDP_VIRT_SADDR ((int BOOTP_END - int UDP_VIRT_SADDR) sdiv 2);
     let s = (if s = 0 then 0xFFFF else s);
     buf \<leftarrow> mem_put buf UDP_CHECKSUM (hi_lo (uint s));
     buf \<leftarrow> put_all [(IP_VERSION, [0x45]), (IP_TOS, [0]), (IP_LEN, hi_lo (int BOOTP_END)), (IP_ID, [0, 0]),
               (IP_FLAGS, [0, 0]), (IP_TTL, [63]), (IP_PROTOCOL, [17]), (IP_CHECKSUM, [0, 0]),
               (IP_SOURCE, replicate 4 0), (IP_DEST, replicate 4 0xFF)] buf;
     s \<leftarrow> ipv4_checksum buf IP_VERSION ((int IP_END - int IP_VERSION) sdiv 2);
     buf \<leftarrow> mem_put buf IP_CHECKSUM (hi_lo (uint s));
     Some (int BOOTP_END, buf)
   }"

text \<open>The message that \<open>process_bootp\<close> prints is left out.\<close>

definition process_bootp :: "u8 list \<Rightarrow> u8 list \<Rightarrow> int \<Rightarrow> ip_state \<Rightarrow> (int \<times> ip_state) option" where
  "process_bootp mac buf len p =
    (if len \<noteq> int BOOTP_END then Some (0, p)
     else do {
       ver \<leftarrow> aget buf (int IP_VERSION);
       proto \<leftarrow> aget buf (int IP_PROTOCOL);
       ports \<leftarrow> mem_get buf UDP_SPORT 4;
       chaddr \<leftarrow> mem_get buf BOOTP_CHADDR 6;
       if ver \<noteq> 0x45 then Some (0, p)
       else if proto \<noteq> 17 \<or> drop 2 ports \<noteq> [0, 68] \<or> take 2 ports \<noteq> [0, 67] then Some (0, p)
       else if chaddr \<noteq> mac then Some (0, p)
       else do { yi \<leftarrow> mem_get buf BOOTP_YIADDR 4; Some (1, setIP yi p) }
     })"

section \<open>The polling functions\<close>

text \<open>
  \<open>ptpd_netif_recvfrom\<close> with the socket's index; \<open>buf0\<close> is the buffer before the call. What it
  returns: the length, the sender, the buffer and the sockets.
\<close>

definition recv_into ::
  "board_cfg \<Rightarrow> nat option \<Rightarrow> u8 list \<Rightarrow> wr_sockaddr \<Rightarrow> net \<Rightarrow> (int \<times> wr_sockaddr \<times> u8 list \<times> net) option" where
  "recv_into b sock buf0 addr0 s = do {
     i \<leftarrow> sock;
     (len, addr, bs, ts, k) \<leftarrow> ptpd_netif_recvfrom b (length buf0) 0 addr0 None (socks s ! i);
     buf \<leftarrow> mem_put buf0 0 bs;
     Some (len, addr, buf, s\<lparr>socks := (socks s)[i := k]\<rparr>)
   }"

type_synonym packet = "wr_sockaddr \<times> u8 list"

definition ipv4_poll ::
  "board_cfg \<Rightarrow> u8 list \<Rightarrow> u8 list \<Rightarrow> wr_sockaddr \<Rightarrow> ip_state \<Rightarrow> net \<Rightarrow> (packet list \<times> ip_state \<times> net) option" where
  "ipv4_poll b mac buf0 addr0 p s = do {
     (len, addr, buf, s) \<leftarrow> recv_into b (ipv4_socket p) buf0 addr0 s;
     (out, buf, p) \<leftarrow>
       (if len > 0 then do {
          (_, p) \<leftarrow> (if needIP p then process_bootp mac buf len p else Some (0, p));
          if \<not> needIP p then do {
            (len, buf) \<leftarrow> process_icmp p buf len;
            bs \<leftarrow> mem_get buf 0 (nat len);
            Some (if len > 0 then [(addr, bs)] else [], buf, p)
          } else Some ([], buf, p)
        } else Some ([], buf, p));
     (out, p) \<leftarrow>
       (if needIP p \<and> bootp_timer p = 0 then do {
          let p = p\<lparr>bootp_retry := add32 (bootp_retry p) 1\<rparr>;
          (len, buf) \<leftarrow> send_bootp mac buf (bootp_retry p);
          bs \<leftarrow> mem_get buf 0 (nat len);
          Some (out @ [(addr\<lparr>sa_mac := replicate 6 0xFF, sa_ethertype := 0x0800\<rparr>, bs)], p)
        } else Some (out, p));
     let p = (if needIP p then
                let p = p\<lparr>bootp_timer := add32 (bootp_timer p) 1\<rparr>
                in if bootp_timer p = 100000 then p\<lparr>bootp_timer := 0\<rparr> else p
              else p);
     Some (out, p, s)
   }"

definition arp_poll ::
  "board_cfg \<Rightarrow> u8 list \<Rightarrow> u8 list \<Rightarrow> wr_sockaddr \<Rightarrow> ip_state \<Rightarrow> net \<Rightarrow> (packet list \<times> net) option" where
  "arp_poll b mac buf0 addr0 p s =
    (if needIP p then Some ([], s)
     else do {
       (len, addr, buf, s) \<leftarrow> recv_into b (arp_socket p) buf0 addr0 s;
       if len > 0 then do {
         (len, buf) \<leftarrow> process_arp mac p buf len;
         bs \<leftarrow> mem_get buf 0 (nat len);
         Some (if len > 0 then [(addr, bs)] else [], s)
       } else Some ([], s)
     })"

end
