(* ===== verification/Ipv4_Props.thy ===== *)
theory Ipv4_Props
  imports Ipv4
begin

text \<open>
  Properties of the IP stack: the checksum is the ones' complement sum of RFC 1071, replies and
  requests carry valid checksums and the right fields, and the address is asked for at a steady
  pace until there is one.
\<close>

section \<open>The checksum\<close>

text \<open>The sum of the shorts as a number, and the ones' complement sum it stands for.\<close>

fun bsum :: "u8 list \<Rightarrow> nat" where
  "bsum (a # b # bs) = 256 * unat a + unat b + bsum bs"
| "bsum _ = 0"

definition ones_sum :: "nat \<Rightarrow> nat" where
  "ones_sum n = (if n = 0 then 0 else (n - 1) mod 65535 + 1)"

lemma bsum_append: "even (length xs) \<Longrightarrow> bsum (xs @ ys) = bsum xs + bsum ys"
  by (induction xs rule: bsum.induct) auto

lemma bsum_bound: "bsum bs \<le> 65535 * (length bs div 2)"
proof (induction bs rule: bsum.induct)
  case (1 a b bs)
  have "unat a < 256" "unat b < 256" using unsigned_less [of a] unsigned_less [of b] by simp_all
  then show ?case using 1 by simp
qed simp_all

lemma unat_add_small: "unat (a :: u32) + unat b < 4294967296 \<Longrightarrow> unat (a + b) = unat a + unat b"
  by (simp add: unat_word_ariths)

lemma unat_short: "unat (word_of_nat (be_val [a, b]) :: u32) = 256 * unat (a :: u8) + unat b"
proof -
  have "unat a < 256" "unat b < 256" using unsigned_less [of a] unsigned_less [of b] by simp_all
  then show ?thesis by (simp only: unat_of_nat be_val_two) simp
qed

lemma foldl_shorts:
  "unat a + bsum bs < 4294967296 \<Longrightarrow> unat (foldl (+) a (shorts_of bs)) = unat a + bsum bs"
proof (induction bs arbitrary: a rule: bsum.induct)
  case (1 x y bs)
  have "unat (a + word_of_nat (be_val [x, y])) = unat a + (256 * unat x + unat y)"
    using 1(2) unat_short [of x y] by (subst unat_add_small) simp_all
  then show ?case using 1 by simp
qed simp_all

lemma unat_low16: "unat (w AND 0xffff :: u32) = unat w mod 65536"
  using unat_and_mask [of w 16] by (simp add: mask_eq_exp_minus_1)

lemma unat_high16: "unat (drop_bit 16 w :: u32) = unat w div 65536"
proof -
  have "unat w < 4294967296" using unsigned_less [of w, where 'a = nat] by simp
  then show ?thesis unfolding unsigned_drop_bit_eq by (simp add: drop_bit_eq_div take_bit_eq_mod)
qed

lemma ones_sum_fold:
  assumes "n < 4294967296"
  defines "t \<equiv> n div 65536 + n mod 65536"
  shows "(t + t div 65536) mod 65536 = ones_sum n" "t + t div 65536 < 4294967296"
proof -
  have n: "n = 65536 * (n div 65536) + n mod 65536" by simp
  have b: "n div 65536 \<le> 65535" "n mod 65536 \<le> 65535" using assms(1) by auto
  then have t: "t \<le> 131070" by (simp add: t_def)
  then show "t + t div 65536 < 4294967296" by linarith
  have nt: "n = 65535 * (n div 65536) + t" unfolding t_def using n by linarith
  show "(t + t div 65536) mod 65536 = ones_sum n"
  proof (cases "t = 0")
    case True
    then have "n div 65536 = 0" by (simp add: t_def)
    then show ?thesis using nt True by (simp add: ones_sum_def)
  next
    case False
    then have "(n - 1) mod 65535 = (65535 * (n div 65536) + (t - 1)) mod 65535"
      using nt by (metis Nat.add_diff_assoc One_nat_def Suc_leI neq0_conv)
    then have m: "(n - 1) mod 65535 = (t - 1) mod 65535" by simp
    have n0: "n \<noteq> 0" using False by (auto simp: t_def)
    show ?thesis
    proof (cases "t < 65536")
      case True
      then show ?thesis using False n0 m by (simp add: ones_sum_def)
    next
      case big: False
      then obtain e where e: "t = 65536 + e" by (metis le_add_diff_inverse linorder_not_less)
      have "e \<le> 65534" using e t by linarith
      then have "t div 65536 = 1" unfolding e by simp
      then have "t + t div 65536 = e + 1 + 65536" unfolding e by simp
      then have "(t + t div 65536) mod 65536 = e + 1" using \<open>e \<le> 65534\<close> by (simp only: mod_add_self2) simp
      moreover have "(t - 1) mod 65535 = e" using \<open>e \<le> 65534\<close> by (simp add: e)
      ultimately show ?thesis using n0 m by (simp add: ones_sum_def)
    qed
  qed
qed

lemma fold_sum_ones: "unat (fold_sum s) mod 65536 = ones_sum (unat s)"
proof -
  have s: "unat s < 4294967296" using unsigned_less [of s, where 'a = nat] by simp
  define t where "t = drop_bit 16 s + (s AND 0xffff)"
  have ut: "unat t = unat s div 65536 + unat s mod 65536"
    unfolding t_def unat_high16 [symmetric] unat_low16 [symmetric]
    by (rule unat_add_small) (use s in \<open>auto simp: unat_high16 unat_low16 intro: add_strict_mono\<close>)
  have "unat (t + drop_bit 16 t) = unat t + unat t div 65536"
    unfolding unat_high16 [symmetric]
    by (rule unat_add_small) (use ones_sum_fold(2) [OF s] ut in \<open>simp add: unat_high16\<close>)
  then show ?thesis using ones_sum_fold(1) [OF s] ut by (simp add: fold_sum_def t_def Let_def)
qed

lemma ones_sum_le: "ones_sum n \<le> 65535"
  using pos_mod_bound [of 65535] by (simp add: ones_sum_def Suc_le_eq)

lemma unat_not_low16: "unat (NOT w AND 0xffff :: u32) = 65535 - unat w mod 65536"
proof -
  have w: "unat w < 4294967296" using unsigned_less [of w, where 'a = nat] by simp
  have "NOT w = - 1 - w" by (simp add: not_eq_complement)
  then have "unat (NOT w) = unat (- 1 :: u32) - unat w" by (simp only: unat_sub word_n1_ge)
  then have "unat (NOT w) = 4294967295 - unat w"
    by (simp add: unsigned_minus_1_eq_mask mask_eq_exp_minus_1)
  moreover have "4294967295 - unat w = 65536 * (65535 - unat w div 65536) + (65535 - unat w mod 65536)"
  proof -
    have "unat w = 65536 * (unat w div 65536) + unat w mod 65536" by simp
    moreover have "unat w div 65536 \<le> 65535" "unat w mod 65536 \<le> 65535" using w by auto
    ultimately show ?thesis by linarith
  qed
  ultimately have "unat (NOT w) mod 65536 = (65535 - unat w mod 65536) mod 65536"
    by (simp only: mod_mult_self4)
  then show ?thesis unfolding unat_low16 by simp
qed

lemma shorts_even: "bsum bs < 4294967296 \<Longrightarrow> unat (foldl (+) 0 (shorts_of bs)) = bsum bs"
  using foldl_shorts [of 0 bs] by simp

lemma checksum_value:
  assumes "mem_get buf off (2 * nat n) = Some bs" "n \<le> 65536"
  obtains c where "ipv4_checksum buf off n = Some c" "unat c = 65535 - ones_sum (bsum bs)"
proof -
  have "length bs div 2 \<le> 65536" using length_mem_get [OF assms(1)] assms(2) by simp
  then have "bsum bs < 4294967296" using bsum_bound [of bs] by linarith
  then show thesis
    using that assms(1) unat_not_low16 [of "fold_sum (foldl (+) 0 (shorts_of bs))"]
      fold_sum_ones [of "foldl (+) 0 (shorts_of bs)"] shorts_even [of bs]
    by (simp add: ipv4_checksum_def Let_def)
qed

text \<open>A sum that is a positive multiple of 65535 checks.\<close>

lemma ones_sum_full:
  assumes "0 < n" "n mod 65535 = 0"
  shows "ones_sum n = 65535"
proof -
  obtain k where k: "n = 65535 * k" using assms(2) by blast
  then obtain j where "k = Suc j" using assms(1) by (cases k) auto
  then have "n - 1 = 65534 + 65535 * j" using k by simp
  then have "(n - 1) mod 65535 = 65534" by (simp only: mod_mult_self2) simp
  then show ?thesis using assms(1) by (simp add: ones_sum_def)
qed

lemma ones_sum_cong: "ones_sum n mod 65535 = n mod 65535"
  by (cases n) (simp_all add: ones_sum_def mod_Suc_eq)

lemma bsum_insert:
  assumes "even (length xs)"
  shows "bsum (xs @ [h, l] @ ys) = bsum (xs @ [0, 0] @ ys) + (256 * unat h + unat l)"
  using assms by (simp add: bsum_append)

lemma unat_of_int_u8: "0 \<le> i \<Longrightarrow> unat (word_of_int i :: u8) = nat i mod 256"
  by (metis int_nat_eq of_int_of_nat_eq unat_u8_of_nat)

lemma hi_lo_nat: "hi_lo (int v) = [word_of_nat (v div 256), word_of_nat v]"
proof -
  have "int v AND 0xff = int (v mod 256)"
    using take_bit_eq_mask [of 8 "int v"] by (simp add: mask_eq_exp_minus_1 take_bit_eq_mod zmod_int)
  then have "(word_of_int (int v AND 0xff) :: u8) = word_of_nat (v mod 256)" by simp
  moreover have "(word_of_nat (v mod 256) :: u8) = word_of_nat v"
    unfolding word_unat_eq_iff unat_u8_of_nat by simp
  moreover have "drop_bit 8 (int v) = int (v div 256)" by (simp add: drop_bit_eq_div)
  ultimately show ?thesis by (simp add: hi_lo_def)
qed

lemma length_hi_lo [simp]: "length (hi_lo v) = 2"
  by (simp add: hi_lo_def)

lemma hi_lo_val: "v < 65536 \<Longrightarrow> be_val (hi_lo (int v)) = v"
  by (simp add: hi_lo_nat be_val_two)

text \<open>
  Putting the checksum (or another value with the same remainder) into a field that was zero makes
  the region check.
\<close>

lemma checksum_insert:
  assumes get: "mem_get buf off (2 * nat n) = Some bs" and n: "n \<le> 65536"
    and z: "mem_get buf (off + k) 2 = Some [0, 0]" and k: "even k" "k + 2 \<le> 2 * nat n"
    and v: "v < 65536" "(bsum bs + v) mod 65535 = 0" "0 < bsum bs + v"
    and put: "mem_put buf (off + k) (hi_lo (int v)) = Some buf'"
  shows "ipv4_checksum buf' off n = Some 0"
proof -
  have len: "off + 2 * nat n \<le> length buf" "bs = take (2 * nat n) (drop off buf)"
    using get by (auto simp: mem_get_def split: if_splits)
  define xs ys where "xs = take k bs" "ys = drop (k + 2) bs"
  have lb: "length bs = 2 * nat n" using len by simp
  have "take 2 (drop k bs) = take 2 (drop (off + k) buf)"
    using len k by (simp add: drop_take take_take min_def add.commute)
  also have "\<dots> = [0, 0]" using z by (simp add: mem_get_def split: if_splits)
  finally have t2: "take 2 (drop k bs) = [0, 0]" .
  have "xs @ [0, 0] @ ys = take k bs @ take 2 (drop k bs) @ drop 2 (drop k bs)"
    by (simp add: t2 xs_ys_def add.commute)
  then have bs: "bs = xs @ [0, 0] @ ys" by (simp only: append_take_drop_id)
  have lx: "length xs = k" using k lb by (simp add: xs_ys_def)
  have b': "buf' = take (off + k) buf @ hi_lo (int v) @ drop (off + k + 2) buf"
    using put by (simp add: mem_put_def split: if_splits)
  have g': "mem_get buf' off (2 * nat n) = Some (xs @ hi_lo (int v) @ ys)"
  proof -
    have kk: "\<not> length buf - off \<le> k" using len(1) k(2) by linarith
    have "length buf' = length buf" by (rule length_mem_put [OF put])
    moreover have "drop off buf' = drop off (take (off + k) buf) @ hi_lo (int v) @ drop (off + k + 2) buf"
      unfolding b' using len k by simp
    then have "take (2 * nat n) (drop off buf') =
        take k (drop off buf) @ hi_lo (int v) @ take (2 * nat n - k - 2) (drop (off + k + 2) buf)"
      using len k kk by (simp add: drop_take min_def)
    moreover have "ys = take (2 * nat n - k - 2) (drop (off + k + 2) buf)"
      using len(2) by (simp add: xs_ys_def drop_take add.commute add.left_commute)
    moreover have "xs = take k (drop off buf)" using len(2) k by (simp add: xs_ys_def min_def)
    ultimately show ?thesis using len by (simp add: mem_get_def)
  qed
  have "bsum (xs @ hi_lo (int v) @ ys) = bsum bs + v"
    using k(1) lx v(1) hi_lo_val [OF v(1)] bsum_insert [of xs "word_of_nat (v div 256)" "word_of_nat v" ys]
    unfolding bs hi_lo_nat be_val_two by simp
  then have "ones_sum (bsum (xs @ hi_lo (int v) @ ys)) = 65535" using ones_sum_full v(2,3) by simp
  moreover obtain c where "ipv4_checksum buf' off n = Some c"
      "unat c = 65535 - ones_sum (bsum (xs @ hi_lo (int v) @ ys))"
    by (rule checksum_value [OF g' n])
  ultimately show ?thesis by (simp add: unat_eq_zero)
qed

lemma checksum_insert_sum:
  assumes get: "mem_get buf off (2 * nat n) = Some bs" and n: "n \<le> 65536"
    and z: "mem_get buf (off + k) 2 = Some [0, 0]" and k: "even k" "k + 2 \<le> 2 * nat n"
    and c: "ipv4_checksum buf off n = Some c"
    and put: "mem_put buf (off + k) (hi_lo (uint c)) = Some buf'"
  shows "ipv4_checksum buf' off n = Some 0"
proof -
  have u: "unat c = 65535 - ones_sum (bsum bs)" using checksum_value [OF get n] c by auto
  have "(bsum bs + unat c) mod 65535 = (ones_sum (bsum bs) + unat c) mod 65535"
    using ones_sum_cong [of "bsum bs"] by (metis mod_add_left_eq)
  also have "\<dots> = 0" using u ones_sum_le [of "bsum bs"] by simp
  finally have m: "(bsum bs + unat c) mod 65535 = 0" .
  have p: "0 < bsum bs + unat c" using u by (cases "bsum bs = 0") (simp_all add: ones_sum_def)
  have ux: "uint c = int (unat c)" by simp
  show ?thesis
    by (rule checksum_insert [OF get n z k _ m p put [unfolded ux]]) (use u in simp)
qed

section \<open>Packets in the buffer\<close>

text \<open>The byte that a sequence of writes leaves at a position.\<close>

fun written :: "(nat \<times> u8 list) list \<Rightarrow> nat \<Rightarrow> u8 \<Rightarrow> u8" where
  "written [] i x = x"
| "written ((off, bs) # ws) i x =
     written ws i (if off \<le> i \<and> i < off + length bs then bs ! (i - off) else x)"

lemma put_all_written:
  assumes "list_all (\<lambda>(off, bs). off + length bs \<le> length buf) ws"
  obtains buf' where "put_all ws buf = Some buf'" "length buf' = length buf"
    "\<And>i. i < length buf \<Longrightarrow> buf' ! i = written ws i (buf ! i)"
proof -
  have "\<exists>buf'. put_all ws buf = Some buf' \<and> length buf' = length buf \<and>
      (\<forall>i < length buf. buf' ! i = written ws i (buf ! i))"
    using assms
  proof (induction ws arbitrary: buf)
    case (Cons w ws)
    obtain off bs where w: "w = (off, bs)" by fastforce
    obtain b1 where b1: "mem_put buf off bs = Some b1"
      using mem_put_defined [of off bs buf] Cons.prems w by auto
    have l: "length b1 = length buf" by (rule length_mem_put [OF b1])
    have "list_all (\<lambda>(off, bs). off + length bs \<le> length b1) ws" using Cons.prems l by simp
    from Cons.IH [OF this] obtain b2 where "put_all ws b1 = Some b2" "length b2 = length b1"
        "\<forall>i < length b1. b2 ! i = written ws i (b1 ! i)"
      by blast
    then show ?case using b1 l w by (simp add: nth_mem_put [OF b1])
  qed simp
  then show thesis using that by blast
qed

declare put_all.simps [simp del]

lemma mem_get_nth: "off + n \<le> length buf \<Longrightarrow> mem_get buf off n = Some (map (\<lambda>i. buf ! (off + i)) [0..<n])"
  by (auto simp: mem_get_def intro!: nth_equalityI)

lemma mem_get_sub:
  "mem_get buf off n = Some bs \<Longrightarrow> k + m \<le> n \<Longrightarrow> mem_get buf (off + k) m = Some (take m (drop k bs))"
  by (auto simp: mem_get_def drop_take min_def add.commute split: if_splits)

lemma mem_get_SomeD: "mem_get buf off n = Some bs \<Longrightarrow> i < n \<Longrightarrow> bs ! i = buf ! (off + i)"
  by (auto simp: mem_get_def split: if_splits)

lemma mem_get_Some_length: "mem_get buf off n = Some bs \<Longrightarrow> off + n \<le> length buf"
  by (auto simp: mem_get_def split: if_splits)

lemma checksum_of_region:
  "mem_get buf off (2 * nat n) = mem_get buf' off' (2 * nat n) \<Longrightarrow>
    ipv4_checksum buf off n = ipv4_checksum buf' off' n"
  by (simp add: ipv4_checksum_def)

lemma list4: "length xs = 4 \<Longrightarrow> xs = [xs ! 0, xs ! 1, xs ! 2, xs ! 3]"
  by (intro nth_equalityI) (auto simp: less_Suc_eq numeral_eq_Suc)

lemma list6: "length xs = 6 \<Longrightarrow> xs = [xs ! 0, xs ! 1, xs ! 2, xs ! 3, xs ! 4, xs ! 5]"
  by (intro nth_equalityI) (auto simp: less_Suc_eq numeral_eq_Suc)

text \<open>
  The answer to an ARP request for our address is exactly the reply of RFC 826: hardware and protocol
  types and lengths, operation 2, our hardware and protocol address as the sender's and the
  requester's as the target's, in 28 bytes.
\<close>

theorem arp_reply:
  assumes len: "28 \<le> len" "28 \<le> length buf" and my: "length (myIP p) = 4" "length mac = 6"
    and req: "mem_get buf 6 2 = Some [0, 1]" "mem_get buf 24 4 = Some (myIP p)"
    and his: "mem_get buf 8 6 = Some hisMAC" "mem_get buf 14 4 = Some hisIP"
  shows "\<exists>buf'. process_arp mac p buf len = Some (28, buf') \<and>
    mem_get buf' 0 28 = Some ([0, 1, 8, 0, 6, 4, 0, 2] @ mac @ myIP p @ hisMAC @ hisIP)"
proof -
  let ?ws = "[(0, [0, 1]), (2, [8, 0]), (4, [6]), (5, [4]), (6, [0, 2]), (8, mac), (14, myIP p),
    (18, hisMAC), (24, hisIP)] :: (nat \<times> u8 list) list"
  have lh: "length hisMAC = 6" "length hisIP = 4" using his by (auto dest: length_mem_get)
  obtain buf' where b: "put_all ?ws buf = Some buf'" "length buf' = length buf"
    "\<And>i. i < length buf \<Longrightarrow> buf' ! i = written ?ws i (buf ! i)"
    using put_all_written [of buf ?ws] len my lh by auto
  have "process_arp mac p buf len = Some (28, buf')"
    using len my req his b(1) by (simp add: process_arp_def getIP_def Let_def)
  moreover have "mem_get buf' 0 28 = Some ([0, 1, 8, 0, 6, 4, 0, 2] @ mac @ myIP p @ hisMAC @ hisIP)"
  proof -
    have ne: "buf \<noteq> []" using len by auto
    have "mem_get buf' 0 28 = Some (map (\<lambda>i. buf' ! (0 + i)) [0..<28])"
      using len b(2) by (intro mem_get_nth) simp
    also have "map (\<lambda>i. buf' ! (0 + i)) [0..<28] = [0, 1, 8, 0, 6, 4, 0, 2] @
        [mac ! 0, mac ! 1, mac ! 2, mac ! 3, mac ! 4, mac ! 5] @
        [myIP p ! 0, myIP p ! 1, myIP p ! 2, myIP p ! 3] @
        [hisMAC ! 0, hisMAC ! 1, hisMAC ! 2, hisMAC ! 3, hisMAC ! 4, hisMAC ! 5] @
        [hisIP ! 0, hisIP ! 1, hisIP ! 2, hisIP ! 3]"
      using len my lh ne by (simp add: upt_conv_Cons b(3)) (simp add: eval_nat_numeral)
    finally show ?thesis
      using list6 [OF my(2)] list4 [OF my(1)] list6 [OF lh(1)] list4 [OF lh(2)] by simp
  qed
  ultimately show ?thesis by blast
qed

text \<open>What a sequence of writes leaves in a field, when this follows from the offsets alone.\<close>

fun put_view :: "(nat \<times> u8 list) list \<Rightarrow> nat \<Rightarrow> nat \<Rightarrow> u8 list option \<Rightarrow> u8 list option" where
  "put_view [] a n v = v"
| "put_view ((off, bs) # ws) a n v =
     put_view ws a n (if off = a \<and> length bs = n then Some bs
                      else if a + n \<le> off \<or> off + length bs \<le> a then v else None)"

lemma put_all_view:
  "put_all ws buf = Some buf' \<Longrightarrow> (\<And>x. v = Some x \<Longrightarrow> mem_get buf a n = Some x) \<Longrightarrow>
    put_view ws a n v = Some bs \<Longrightarrow> mem_get buf' a n = Some bs"
proof (induction ws arbitrary: buf v)
  case (Cons w ws)
  obtain off ys where w: "w = (off, ys)" by fastforce
  obtain b1 where b1: "mem_put buf off ys = Some b1" "put_all ws b1 = Some buf'"
    using Cons.prems(1) by (auto simp: w put_all.simps bind_eq_Some_conv)
  show ?case
    by (rule Cons.IH [OF b1(2) _ Cons.prems(3) [unfolded w put_view.simps]])
       (use Cons.prems(2) mem_get_put_same [OF b1(1)] mem_get_put_other [OF b1(1)] in \<open>auto split: if_splits\<close>)
qed (auto simp: put_all.simps)

lemma put_all_other:
  assumes "put_all ws buf = Some buf'" "list_all (\<lambda>(off, bs). a + n \<le> off \<or> off + length bs \<le> a) ws"
  shows "mem_get buf' a n = mem_get buf a n"
  using assms
proof (induction ws arbitrary: buf)
  case (Cons w ws)
  then show ?case
    by (cases w) (auto simp: put_all.simps bind_eq_Some_conv dest: mem_get_put_other)
qed (simp add: put_all.simps)

lemma put_all_length: "put_all ws buf = Some buf' \<Longrightarrow> length buf' = length buf"
proof (induction ws arbitrary: buf)
  case (Cons w ws)
  then show ?case
    by (cases w) (auto simp: put_all.simps bind_eq_Some_conv length_mem_put)
qed (simp add: put_all.simps)

lemma put_all_defined:
  assumes "list_all (\<lambda>(off, bs). off + length bs \<le> length buf) ws"
  obtains buf' where "put_all ws buf = Some buf'" "length buf' = length buf"
  using put_all_written [OF assms] by blast

lemma mem_get_join:
  "mem_get buf off n = Some xs \<Longrightarrow> mem_get buf (off + n) m = Some ys \<Longrightarrow> mem_get buf off (n + m) = Some (xs @ ys)"
  by (auto simp: mem_get_def take_add add.commute [of n off] split: if_splits)

lemma mem_get_some: "off + n \<le> length buf \<Longrightarrow> mem_get buf off n = Some (take n (drop off buf))"
  by (simp add: mem_get_def)

lemma checksum_defined: "off + 2 * nat n \<le> length buf \<Longrightarrow> \<exists>c. ipv4_checksum buf off n = Some c"
  by (simp add: ipv4_checksum_def mem_get_some)

lemma mem_put_ok: "off + length bs \<le> length buf \<Longrightarrow> \<exists>b. mem_put buf off bs = Some b \<and> length b = length buf"
  using mem_put_defined length_mem_put by blast


lemma checksum_insert_udp:
  assumes get: "mem_get buf off (2 * nat n) = Some bs" and n: "n \<le> 65536"
    and z: "mem_get buf (off + k) 2 = Some [0, 0]" and k: "even k" "k + 2 \<le> 2 * nat n"
    and c: "ipv4_checksum buf off n = Some c"
    and put: "mem_put buf (off + k) (hi_lo (uint (if c = 0 then 0xFFFF else c))) = Some buf'"
  shows "ipv4_checksum buf' off n = Some 0" "mem_get buf' (off + k) 2 \<noteq> Some [0, 0]"
proof -
  define v where "v = (if c = 0 then 65535 else unat c)"
  have u: "unat c = 65535 - ones_sum (bsum bs)" using checksum_value [OF get n] c by auto
  have "unat c \<le> 65535" unfolding u by (rule diff_le_self)
  then have v: "v < 65536" by (simp add: v_def)
  have v0: "0 < v" by (simp add: v_def unat_gt_0)
  have vx: "uint (if c = 0 then 0xFFFF else c) = int v" by (simp add: v_def)
  have "(bsum bs + v) mod 65535 = (ones_sum (bsum bs) + v) mod 65535"
    using ones_sum_cong [of "bsum bs"] by (metis mod_add_left_eq)
  also have "ones_sum (bsum bs) + v = 65535 \<or> ones_sum (bsum bs) + v = 65535 + 65535"
    using u ones_sum_le [of "bsum bs"] by (auto simp: v_def)
  then have "(ones_sum (bsum bs) + v) mod 65535 = 0" by (elim disjE; simp only:) simp_all
  finally have m: "(bsum bs + v) mod 65535 = 0" .
  show "ipv4_checksum buf' off n = Some 0"
    by (rule checksum_insert [OF get n z k v m _ put [unfolded vx]]) (use v0 in simp)
  have "mem_get buf' (off + k) 2 = Some (hi_lo (int v))"
    using mem_get_put_same [OF put] by (simp add: vx)
  moreover have "hi_lo (int v) \<noteq> [0, 0]" using hi_lo_val [OF v] v0 by (auto simp: be_val_two)
  ultimately show "mem_get buf' (off + k) 2 \<noteq> Some [0, 0]" by simp
qed

text \<open>The request: what the fields hold. The pseudo header of the UDP checksum is the one of RFC 768.\<close>

definition udp_pseudo :: "u8 list" where
  "udp_pseudo = [0, 0, 0, 0, 0xFF, 0xFF, 0xFF, 0xFF, 0, 17, 1, 52]"

definition bootp_ok :: "u8 list \<Rightarrow> int \<Rightarrow> u8 list \<Rightarrow> bool" where
  "bootp_ok mac retry buf \<longleftrightarrow>
     mem_get buf 0 10 = Some [0x45, 0, 1, 72, 0, 0, 0, 0, 63, 17] \<and>
     mem_get buf 12 8 = Some [0, 0, 0, 0, 0xFF, 0xFF, 0xFF, 0xFF] \<and>
     mem_get buf 20 6 = Some [0, 68, 0, 67, 1, 52] \<and>
     mem_get buf 28 4 = Some [1, 1, 6, 0] \<and>
     mem_get buf 36 2 = Some (hi_lo retry) \<and> mem_get buf 56 6 = Some mac \<and>
     ipv4_checksum buf 0 10 = Some 0 \<and> mem_get buf 26 2 \<noteq> Some [0, 0] \<and>
     (\<exists>udp. mem_get buf 20 308 = Some udp \<and> ipv4_checksum (udp_pseudo @ udp) 0 160 = Some 0)"

lemma bootp_frame:
  assumes mac: "length mac = 6" and buf: "328 \<le> length buf"
  shows "\<exists>buf'. send_bootp mac buf retry = Some (328, buf') \<and> length buf' = length buf \<and> bootp_ok mac retry buf'"
proof -
  let ?w0 = "[(28, [1]), (29, [1]), (30, [6]), (31, [0]), (32, mac)] :: (nat \<times> u8 list) list"
  obtain b0 where b0: "put_all ?w0 buf = Some b0" "length b0 = length buf"
    and w0: "\<And>i. i < length buf \<Longrightarrow> b0 ! i = written ?w0 i (buf ! i)"
    using put_all_written [of buf ?w0] buf mac by auto
  obtain x where x: "mem_get b0 32 6 = Some x" using b0(2) buf by (simp add: mem_get_def)
  let ?r = "hi_lo retry"
  let ?w1 = "[(32, [x ! 0 XOR x ! 4, x ! 1 XOR x ! 5, x ! 2 XOR ?r ! 0, x ! 3 XOR ?r ! 1]),
     (36, ?r), (38, replicate 2 0), (40, replicate 4 0), (44, replicate 4 0), (48, replicate 4 0),
     (52, replicate 4 0), (56, replicate 16 0), (56, mac), (72, replicate 64 0), (136, replicate 128 0),
     (264, replicate 64 0), (8, replicate 4 0), (12, replicate 4 0xFF), (16, [0]), (17, [0x11]),
     (18, hi_lo 308), (20, [0, 68]), (22, [0, 67]), (24, hi_lo 308), (26, [0, 0])] :: (nat \<times> u8 list) list"
  obtain b1 where b1: "put_all ?w1 b0 = Some b1" "length b1 = length buf"
    using put_all_written [of b0 ?w1] b0(2) buf mac by auto
  obtain c1 where c1: "ipv4_checksum b1 8 160 = Some c1"
    using checksum_defined [of 8 160 b1] buf b1(2) by auto
  let ?c1 = "if c1 = 0 then 0xFFFF else c1"
  obtain b2 where b2: "mem_put b1 26 (hi_lo (uint ?c1)) = Some b2" "length b2 = length buf"
    using mem_put_ok [of 26 "hi_lo (uint ?c1)" b1] buf b1(2) by auto
  let ?w3 = "[(0, [0x45]), (1, [0]), (2, hi_lo 328), (4, [0, 0]), (6, [0, 0]), (8, [63]), (9, [17]), (10, [0, 0]),
     (12, replicate 4 0), (16, replicate 4 0xFF)] :: (nat \<times> u8 list) list"
  obtain b3 where b3: "put_all ?w3 b2 = Some b3" "length b3 = length buf"
    and w3: "\<And>i. i < length buf \<Longrightarrow> b3 ! i = written ?w3 i (b2 ! i)"
    using put_all_written [of b2 ?w3] b2(2) buf by auto
  obtain c4 where c4: "ipv4_checksum b3 0 10 = Some c4"
    using checksum_defined [of 0 10 b3] buf b3(2) by auto
  obtain b4 where b4: "mem_put b3 10 (hi_lo (uint c4)) = Some b4" "length b4 = length buf"
    using mem_put_ok [of 10 "hi_lo (uint c4)" b3] buf b3(2) by auto
  have sd: "(328 - 8 :: int) sdiv 2 = 160" "(20 :: int) sdiv 2 = 10" by (simp_all add: signed_divide_int_def)
  have res: "send_bootp mac buf retry = Some (328, b4)"
    using b0(1) x b1(1) c1 b2(1) b3(1) c4 b4(1)
    by (simp add: send_bootp_def Let_def sd)
  note view1 = put_all_view [OF b1(1), where v = None, simplified]
  note view3 = put_all_view [OF b3(1), where v = None, simplified]
  have r: "replicate 4 (0 :: u8) = [0, 0, 0, 0]" "replicate 4 (0xFF :: u8) = [0xFF, 0xFF, 0xFF, 0xFF]"
    by (simp_all add: numeral_eq_Suc)
  have hl: "hi_lo 308 = [1, 52]" "hi_lo 328 = [1, 72]"
    using hi_lo_nat [of 308] hi_lo_nat [of 328] by simp_all
  have v1: "mem_get b1 8 4 = Some [0, 0, 0, 0]" "mem_get b1 (8 + 4) 4 = Some [0xFF, 0xFF, 0xFF, 0xFF]"
    "mem_get b1 16 1 = Some [0]" "mem_get b1 (16 + 1) 1 = Some [0x11]" "mem_get b1 (16 + 2) 2 = Some [1, 52]"
    "mem_get b1 20 2 = Some [0, 68]" "mem_get b1 (20 + 2) 2 = Some [0, 67]" "mem_get b1 (20 + 4) 2 = Some [1, 52]"
    "mem_get b1 (8 + 18) 2 = Some [0, 0]" "mem_get b1 36 2 = Some ?r" "mem_get b1 56 6 = Some mac"
    by (rule view1; simp add: mac r hl)+
  have keep: "mem_get b4 a k = mem_get b1 a k" if "20 \<le> a" "a + k \<le> 26 \<or> 28 \<le> a" for a k
    using that mem_get_put_other [OF b2(1), of a k] put_all_other [OF b3(1), of a k]
      mem_get_put_other [OF b4(1), of a k] by simp
  have ne: "buf \<noteq> []" using buf by auto
  have "mem_get b3 0 10 = Some (map (\<lambda>i. b3 ! (0 + i)) [0..<10])"
    using buf b3(2) by (intro mem_get_nth) simp
  also have "map (\<lambda>i. b3 ! (0 + i)) [0..<10] = [0x45, 0, 1, 72, 0, 0, 0, 0, 63, 17]"
    using buf ne by (simp add: upt_conv_Cons w3 hl)
  finally have h0: "mem_get b4 0 10 = Some [0x45, 0, 1, 72, 0, 0, 0, 0, 63, 17]"
    using mem_get_put_other [OF b4(1), of 0 10] by simp
  have "mem_get b0 28 4 = Some (map (\<lambda>i. b0 ! (28 + i)) [0..<4])"
    using buf b0(2) by (intro mem_get_nth) simp
  also have "map (\<lambda>i. b0 ! (28 + i)) [0..<4] = [1, 1, 6, 0]"
    using buf by (simp add: upt_conv_Cons w0)
  finally have h28: "mem_get b4 28 4 = Some [1, 1, 6, 0]"
    using keep [of 28 4] put_all_other [OF b1(1), of 28 4] mac by simp
  have v3: "mem_get b3 12 4 = Some [0, 0, 0, 0]" "mem_get b3 (12 + 4) 4 = Some [0xFF, 0xFF, 0xFF, 0xFF]"
    "mem_get b3 (0 + 10) 2 = Some [0, 0]"
    by (rule view3; simp add: r hl)+
  have h12: "mem_get b4 12 8 = Some [0, 0, 0, 0, 0xFF, 0xFF, 0xFF, 0xFF]"
    using mem_get_join [OF v3(1,2)] mem_get_put_other [OF b4(1), of 12 8] by simp
  have "mem_get b1 20 (2 + 2) = Some ([0, 68] @ [0, 67])" by (rule mem_get_join [OF v1(6,7)])
  then have "mem_get b1 20 (4 + 2) = Some (([0, 68] @ [0, 67]) @ [1, 52])"
    by (intro mem_get_join v1(8)) simp
  then have h20: "mem_get b4 20 6 = Some [0, 68, 0, 67, 1, 52]" using keep [of 20 6] by simp
  have s0: "ipv4_checksum b4 0 10 = Some 0"
    by (rule checksum_insert_sum [OF mem_get_some _ v3(3) _ _ c4]) (use buf b3(2) b4(1) in auto)
  have g1: "mem_get b1 8 (2 * nat 160) = Some (take 320 (drop 8 b1))" using buf b1(2) by (simp add: mem_get_def)
  have ui: "ipv4_checksum b2 8 160 = Some 0" "mem_get b2 (8 + 18) 2 \<noteq> Some [0, 0]"
    by (rule checksum_insert_udp [OF g1 _ v1(9) _ _ c1]; simp add: b2(1))+
  have same: "mem_get b4 a k = mem_get b2 a k" if "20 \<le> a" for a k
    using that put_all_other [OF b3(1), of a k] mem_get_put_other [OF b4(1), of a k] by simp
  obtain udp where udp: "mem_get b4 20 308 = Some udp" using buf b4(2) by (simp add: mem_get_def)
  have "mem_get b1 8 (4 + 4) = Some ([0, 0, 0, 0] @ [0xFF, 0xFF, 0xFF, 0xFF])" by (rule mem_get_join [OF v1(1,2)])
  moreover have "mem_get b1 16 (1 + 1) = Some ([0] @ [0x11])" by (rule mem_get_join [OF v1(3,4)])
  then have "mem_get b1 16 (2 + 2) = Some (([0] @ [0x11]) @ [1, 52])"
    by (intro mem_get_join v1(5)) (simp add: numeral_2_eq_2)
  ultimately have "mem_get b1 8 (8 + 4) = Some (([0, 0, 0, 0] @ [0xFF, 0xFF, 0xFF, 0xFF]) @ ([0] @ [0x11]) @ [1, 52])"
    by (intro mem_get_join) simp_all
  then have "mem_get b2 8 12 = Some udp_pseudo"
    using mem_get_put_other [OF b2(1), of 8 12] by (simp add: udp_pseudo_def)
  then have "mem_get b2 8 (12 + 308) = Some (udp_pseudo @ udp)"
    using udp same [of 20 308] by (intro mem_get_join) simp_all
  moreover have "length udp = 308" by (rule length_mem_get [OF udp])
  then have "mem_get (udp_pseudo @ udp) 0 320 = Some (udp_pseudo @ udp)"
    by (simp add: mem_get_def udp_pseudo_def)
  ultimately have "ipv4_checksum (udp_pseudo @ udp) 0 160 = ipv4_checksum b2 8 160"
    by (intro checksum_of_region) simp
  then have "bootp_ok mac retry b4"
    unfolding bootp_ok_def
    using h0 h12 h20 h28 keep [of 36 2] keep [of 56 6] v1(10,11) s0 ui udp same [of 26 2] by simp
  then show ?thesis using res b4(2) by blast
qed

lemma mem_get_prefix:
  "mem_get buf 0 m = Some bs \<Longrightarrow> a + n \<le> m \<Longrightarrow> mem_get bs a n = mem_get buf a n"
  by (auto simp: mem_get_def drop_take min_def split: if_splits)

lemma bootp_ok_prefix:
  assumes "mem_get buf 0 328 = Some bs" "bootp_ok mac retry buf"
  shows "bootp_ok mac retry bs"
proof -
  note eq = mem_get_prefix [OF assms(1)]
  have "ipv4_checksum bs 0 10 = ipv4_checksum buf 0 10"
    by (intro checksum_of_region eq) simp
  then show ?thesis using assms(2) unfolding bootp_ok_def by (simp add: eq)
qed

text \<open>A ping and an ARP request for 192.168.1.7.\<close>

definition ip_example :: ip_state where
  "ip_example = \<lparr>needIP = False, myIP = [192, 168, 1, 7], ipv4_socket = None, arp_socket = None,
     bootp_retry = 0, bootp_timer = 0, eb_ip = 0xc0a80107\<rparr>"


definition arp_example :: "u8 list" where
  "arp_example = [0, 1, 8, 0, 6, 4, 0, 1, 2, 0, 0, 0, 0, 9, 10, 0, 0, 9, 0, 0, 0, 0, 0, 0, 192, 168, 1, 7]"


theorem arp_reply_witness:
  "\<exists>buf'. process_arp [2, 0, 0, 0, 0, 7] ip_example arp_example 28 = Some (28, buf') \<and>
    mem_get buf' 0 28 = Some [0, 1, 8, 0, 6, 4, 0, 2, 2, 0, 0, 0, 0, 7, 192, 168, 1, 7, 2, 0, 0, 0, 0, 9, 10, 0, 0, 9]"
  using arp_reply [of 28 arp_example ip_example "[2, 0, 0, 0, 0, 7]" "[2, 0, 0, 0, 0, 9]" "[10, 0, 0, 9]"]
  by (simp add: ip_example_def) (simp add: arp_example_def mem_get_def)

section \<open>Asking for an address\<close>

definition quiet :: "ip_state \<Rightarrow> net \<Rightarrow> bool" where
  "quiet p s \<longleftrightarrow> (\<exists>i < length (socks s). ipv4_socket p = Some i \<and> sq_n (so_queue (socks s ! i)) = 0)"

lemma recv_quiet:
  "quiet p s \<Longrightarrow> recv_into b (ipv4_socket p) buf addr s = Some (0, addr, buf, s)"
  by (auto simp: quiet_def recv_into_def ptpd_netif_recvfrom_def mem_put_def)

lemma poll_waits:
  assumes "quiet p s" "needIP p" "0 < bootp_timer p" "bootp_timer p < 100000"
  shows "ipv4_poll b mac buf addr p s =
    Some ([], p\<lparr>bootp_timer := (bootp_timer p + 1) mod 100000\<rparr>, s)"
  using assms by (auto simp: ipv4_poll_def recv_quiet Let_def c_arith mod_if)

lemma poll_asks:
  assumes "quiet p s" "needIP p" "bootp_timer p = 0" "length mac = 6" "328 \<le> length buf"
  shows "\<exists>a bs. ipv4_poll b mac buf addr p s =
      Some ([(a, bs)], p\<lparr>bootp_retry := add32 (bootp_retry p) 1, bootp_timer := 1\<rparr>, s) \<and>
    sa_mac a = replicate 6 0xFF \<and> sa_ethertype a = 0x0800 \<and> bootp_ok mac (add32 (bootp_retry p) 1) bs"
proof -
  obtain buf' where b: "send_bootp mac buf (add32 (bootp_retry p) 1) = Some (328, buf')" "length buf' = length buf"
      "bootp_ok mac (add32 (bootp_retry p) 1) buf'"
    using bootp_frame [OF assms(4,5)] by blast
  have g: "mem_get buf' 0 328 = Some (take 328 buf')" using assms(5) b(2) by (simp add: mem_get_def)
  have "bootp_ok mac (add32 (bootp_retry p) 1) (take 328 buf')" by (rule bootp_ok_prefix [OF g b(3)])
  then show ?thesis
    using assms(1,2,3) b(1) g by (simp add: ipv4_poll_def recv_quiet Let_def add32_def)
qed

text \<open>A run of the polling function, with the contents of its stack frame at each call.\<close>

primrec polls ::
  "board_cfg \<Rightarrow> u8 list \<Rightarrow> (nat \<Rightarrow> u8 list) \<Rightarrow> (nat \<Rightarrow> wr_sockaddr) \<Rightarrow> nat \<Rightarrow> ip_state \<Rightarrow> net \<Rightarrow>
    (packet list \<times> ip_state \<times> net) option" where
  "polls b mac bufs addrs 0 p s = Some ([], p, s)"
| "polls b mac bufs addrs (Suc n) p s = do {
     (out, p, s) \<leftarrow> polls b mac bufs addrs n p s;
     (out', p, s) \<leftarrow> ipv4_poll b mac (bufs n) (addrs n) p s;
     Some (out @ out', p, s)
   }"

definition requests :: "u8 list \<Rightarrow> packet list \<Rightarrow> bool" where
  "requests mac out \<longleftrightarrow> (\<forall>k < length out. sa_mac (fst (out ! k)) = replicate 6 0xFF \<and>
     sa_ethertype (fst (out ! k)) = 0x0800 \<and> bootp_ok mac (s32 (int k + 1)) (snd (out ! k)))"

lemma ceil_step:
  "(Suc n + 99999) div 100000 = (n + 99999) div 100000 + (if n mod 100000 = 0 then 1 else 0 :: nat)"
proof -
  define k r where "k = n div 100000" "r = n mod 100000"
  then have n: "n = 100000 * k + r" "r < 100000" by simp_all
  show ?thesis
  proof (cases "r = 0")
    case True
    then show ?thesis using n(1) by simp
  next
    case False
    have "Suc n + 99999 = 100000 * (k + 1) + r" "n + 99999 = 100000 * (k + 1) + (r - 1)"
      using n False by simp_all
    then have "(Suc n + 99999) div 100000 = k + 1" "(n + 99999) div 100000 = k + 1"
      using n(2) by simp_all
    then show ?thesis using False k_r_def by simp
  qed
qed

lemma polls_run:
  assumes q: "quiet p s" "needIP p" "bootp_timer p = 0" "bootp_retry p = 0"
    and mac: "length mac = 6" and bufs: "\<And>k. 328 \<le> length (bufs k)"
  shows "\<exists>out p'. polls b mac bufs addrs n p s = Some (out, p', s) \<and> quiet p' s \<and> needIP p' \<and>
    bootp_timer p' = int (n mod 100000) \<and> bootp_retry p' = s32 (int (length out)) \<and>
    length out = (n + 99999) div 100000 \<and> requests mac out"
proof (induction n)
  case 0
  then show ?case using q by (simp add: requests_def)
next
  case (Suc n)
  then obtain out p' where IH: "polls b mac bufs addrs n p s = Some (out, p', s)" "quiet p' s" "needIP p'"
    "bootp_timer p' = int (n mod 100000)" "bootp_retry p' = s32 (int (length out))"
    "length out = (n + 99999) div 100000" "requests mac out" by blast
  show ?case
  proof (cases "n mod 100000 = 0")
    case True
    then have t0: "bootp_timer p' = 0" using IH(4) by simp
    obtain a bs where a: "ipv4_poll b mac (bufs n) (addrs n) p' s =
        Some ([(a, bs)], p'\<lparr>bootp_retry := add32 (bootp_retry p') 1, bootp_timer := 1\<rparr>, s)"
      "sa_mac a = replicate 6 0xFF" "sa_ethertype a = 0x0800" "bootp_ok mac (add32 (bootp_retry p') 1) bs"
      using poll_asks [OF IH(2,3) t0 mac bufs] by blast
    have r: "add32 (bootp_retry p') 1 = s32 (int (length out) + 1)" by (simp add: IH(5) add32_def)
    have "requests mac (out @ [(a, bs)])"
      using IH(7) a(2,3,4) r unfolding requests_def by (auto simp: nth_append less_Suc_eq)
    moreover have "Suc n mod 100000 = 1" using True by (simp add: mod_Suc)
    ultimately show ?thesis
      using IH(1,2,3,6) a(1) r True ceil_step [of n] by (simp add: quiet_def add.commute)
  next
    case False
    have "ipv4_poll b mac (bufs n) (addrs n) p' s =
        Some ([], p'\<lparr>bootp_timer := (bootp_timer p' + 1) mod 100000\<rparr>, s)"
      using IH(2,3,4) False by (intro poll_waits) simp_all
    moreover have "(int (n mod 100000) + 1) mod 100000 = int (Suc n mod 100000)"
      by (simp add: zmod_int mod_add_left_eq add.commute [of 1])
    ultimately show ?thesis
      using IH False ceil_step [of n] by (simp add: quiet_def)
  qed
qed

text \<open>
  C22. The pace of the address requests: as long as nothing is received, \<open>n\<close> calls of \<open>ipv4_poll\<close> after
  the initialisation send exactly \<open>n / 100000\<close> requests, rounded up: one at the first call and one at
  every 100000th after it. Every request is a broadcast BOOTP frame with valid IP and UDP checksums, the
  address of the node and a running retry number; no access leaves the buffer.
\<close>

theorem bootp_pace:
  assumes "quiet p s" "needIP p" "bootp_timer p = 0" "bootp_retry p = 0"
    and "length mac = 6" "\<And>k. 328 \<le> length (bufs k)"
  shows "\<exists>out p'. polls b mac bufs addrs n p s = Some (out, p', s) \<and> needIP p' \<and>
    length out = (n + 99999) div 100000 \<and> requests mac out"
  using polls_run [where bufs = bufs, OF assms] by blast

definition net_example :: net where
  "net_example = \<lparr>socks = [zero_socket], rx_hdr = [], rx_payload = []\<rparr>"

theorem bootp_pace_witness:
  "\<forall>b. \<exists>out p'. polls b [2, 0, 0, 0, 0, 7] (\<lambda>_. replicate 400 0) (\<lambda>_. zero_sockaddr) 250000
      (ip_example\<lparr>needIP := True, ipv4_socket := Some 0\<rparr>) net_example = Some (out, p', net_example) \<and>
    needIP p' \<and> length out = 3 \<and> requests [2, 0, 0, 0, 0, 7] out"
proof
  fix b
  show "\<exists>out p'. polls b [2, 0, 0, 0, 0, 7] (\<lambda>_. replicate 400 0) (\<lambda>_. zero_sockaddr) 250000
      (ip_example\<lparr>needIP := True, ipv4_socket := Some 0\<rparr>) net_example = Some (out, p', net_example) \<and>
    needIP p' \<and> length out = 3 \<and> requests [2, 0, 0, 0, 0, 7] out"
    using bootp_pace [of "ip_example\<lparr>needIP := True, ipv4_socket := Some 0\<rparr>" net_example
        "[2, 0, 0, 0, 0, 7]" "\<lambda>_. replicate 400 0" b "\<lambda>_. zero_sockaddr" 250000]
    by (simp add: ip_example_def quiet_def net_example_def zero_socket_def del: polls.simps)
qed

text \<open>
  The limit of this: for an odd length the byte behind the message is summed too, so the reply's
  checksum is wrong unless that byte is zero.
\<close>

lemma icmp_odd_length:
  "case process_icmp ip_example
      [0x45, 0, 0, 25, 0, 0, 0, 0, 64, 1, 0, 0, 10, 0, 0, 9, 192, 168, 1, 7, 8, 0, 0, 0, 1, 2] 26 of
    Some (len, buf') \<Rightarrow> len = 25 \<and> ipv4_checksum (take 25 buf' @ [0]) 20 3 \<noteq> Some 0
  | None \<Rightarrow> False"
  by (simp add: process_icmp_def getIP_def ip_example_def mem_get_def mem_put_def put_all.simps aget_def hi_lo_def
      be_val_two ipv4_checksum_def Let_def fold_sum_def signed_divide_int_def)

end
