(* ===== verification/Printf.thy ===== *)
theory Printf
  imports Prelude "HOL-Library.Char_ord"
begin

text \<open>
  \<open>pp_printf/\<close>: the formatted output. The repository has four implementations of
  \<open>pp_vsprintf\<close>, of which the build picks one (\<open>CONFIG_PRINTF_XINT\<close> in all the shipped
  configurations); all four are here, and \<open>lib/atoi.c\<close>, which reads numbers back.
  The output buffer is the string written so far; the arguments are a list, and fetching one
  of the wrong kind, or one too many, is undefined behaviour (\<open>None\<close>).
\<close>

section \<open>Arguments and characters\<close>

datatype pf_arg = A_int u32 | A_str "string option" | A_ptr u32

definition va_int :: "pf_arg list \<Rightarrow> (u32 \<times> pf_arg list) option" where
  "va_int args = (case args of A_int v # as \<Rightarrow> Some (v, as) | _ \<Rightarrow> None)"

definition va_str :: "pf_arg list \<Rightarrow> (string option \<times> pf_arg list) option" where
  "va_str args = (case args of A_str s # as \<Rightarrow> Some (s, as) | _ \<Rightarrow> None)"

definition va_ptr :: "pf_arg list \<Rightarrow> (u32 \<times> pf_arg list) option" where
  "va_ptr args = (case args of A_ptr v # as \<Rightarrow> Some (v, as) | _ \<Rightarrow> None)"

definition byte_char :: "u32 \<Rightarrow> char" where
  "byte_char v = char_of (unat v)"

definition is_digit :: "char \<Rightarrow> bool" where
  "is_digit c \<longleftrightarrow> CHR ''0'' \<le> c \<and> c \<le> CHR ''9''"

definition hex_asc :: string where
  "hex_asc = ''0123456789abcdef''"

section \<open>\<open>vsprintf-none.c\<close> and \<open>vsprintf-mini.c\<close>\<close>

text \<open>The returned count of \<open>vsprintf-none.c\<close> includes the terminating zero.\<close>

definition none_vsprintf :: "string \<Rightarrow> pf_arg list \<Rightarrow> string \<times> int" where
  "none_vsprintf fmt args = (fmt, int (length fmt) + 1)"

definition mini_hex :: "u32 \<Rightarrow> string" where
  "mini_hex i = map (\<lambda>j. hex_asc ! unat (drop_bit j i AND 0xf)) [28, 24, 20, 16, 12, 8, 4, 0]"

text \<open>
  The character of a conversion as the \<open>switch\<close> sorts it: \<open>SW_more\<close> is what leads back to the
  label \<open>repeat\<close>.
\<close>

datatype pf_switch = SW_star | SW_char | SW_str | SW_count | SW_percent | SW_int | SW_more

definition mini_switch :: "char \<Rightarrow> pf_switch" where
  "mini_switch c =
     (if c = CHR ''*'' then SW_star else if c = CHR ''c'' then SW_char
      else if c = CHR ''s'' then SW_str else if c = CHR ''n'' then SW_count
      else if c = CHR ''%'' then SW_percent else if c \<in> set ''oxXdiup'' then SW_int else SW_more)"

definition is_percent :: "char \<Rightarrow> bool" where
  "is_percent c \<longleftrightarrow> c = CHR ''%''"

text \<open>
  The parsers walk along the format string; the flag says whether they are inside a conversion.
\<close>

fun mini_fmt :: "string \<Rightarrow> bool \<Rightarrow> pf_arg list \<Rightarrow> string \<Rightarrow> string option" where
  "mini_fmt [] inside args out = Some out"
| "mini_fmt (c # cs) inside args out =
     (if \<not> inside then
        (if is_percent c then mini_fmt cs True args out else mini_fmt cs False args (out @ [c]))
      else case mini_switch c of
        SW_star \<Rightarrow> do { (v, as) \<leftarrow> va_int args; mini_fmt cs True as out }
      | SW_char \<Rightarrow> do { (v, as) \<leftarrow> va_int args; mini_fmt cs False as (out @ [byte_char v]) }
      | SW_str \<Rightarrow> do { (s, as) \<leftarrow> va_str args; s \<leftarrow> s; mini_fmt cs False as (out @ s) }
      | SW_count \<Rightarrow> mini_fmt cs False args out
      | SW_percent \<Rightarrow> mini_fmt cs False args (out @ [c])
      | SW_int \<Rightarrow> do {
          (i, as) \<leftarrow> va_int args;
          mini_fmt cs False as (out @ [CHR ''<''] @ mini_hex i @ [CHR ''>''])
        }
      | SW_more \<Rightarrow> mini_fmt cs True args out)"

definition mini_vsprintf :: "string \<Rightarrow> pf_arg list \<Rightarrow> (string \<times> int) option" where
  "mini_vsprintf fmt args = do {
     out \<leftarrow> mini_fmt fmt False args [];
     Some (out, int (length out))
   }"

section \<open>\<open>vsprintf-xint.c\<close>\<close>

text \<open>
  \<open>number\<close>: the array \<open>tmp[16]\<close> is filled from its end; the list is its used part, so \<open>i\<close> is 16
  minus its length. A write before its beginning is undefined. The first loop stops when \<open>i\<close>
  reaches 0; the base is an \<open>int\<close> used as unsigned.
\<close>

definition tmp_push :: "char \<Rightarrow> string \<Rightarrow> string option" where
  "tmp_push c tmp = (if length tmp < 16 then Some (c # tmp) else None)"

fun xint_digits :: "nat \<Rightarrow> nat \<Rightarrow> nat \<Rightarrow> string \<Rightarrow> string option" where
  "xint_digits 0 val base tmp = Some tmp"
| "xint_digits (Suc i) val base tmp =
     (if val = 0 then Some tmp
      else if base = 0 then None
      else do {
        d \<leftarrow> aget hex_asc (int (val mod base));
        tmp \<leftarrow> tmp_push d tmp;
        xint_digits i (val div base) base tmp
      })"

text \<open>The padding loop \<open>while (i > 16 - wid + negative)\<close>; it pushes at most \<open>wid\<close> characters.\<close>

fun xint_pad :: "nat \<Rightarrow> char \<Rightarrow> int \<Rightarrow> string \<Rightarrow> string option" where
  "xint_pad 0 lead w tmp = Some tmp"
| "xint_pad (Suc n) lead w tmp =
     (if int (length tmp) < w then do { tmp \<leftarrow> tmp_push lead tmp; xint_pad n lead w tmp }
      else Some tmp)"

definition xint_number :: "u32 \<Rightarrow> int \<Rightarrow> char \<Rightarrow> int \<Rightarrow> string option" where
  "xint_number val base lead wid = do {
     let negative = sint val < 0 \<and> base = 10;
     let val = (if negative then - val else val);
     tmp \<leftarrow> xint_digits 16 (unat val) (unat (to_u32 base)) [];
     tmp \<leftarrow> (if tmp = [] then tmp_push (CHR ''0'') tmp else Some tmp);
     (tmp, negative) \<leftarrow> (if negative \<and> lead = CHR '' '' then do {
         tmp \<leftarrow> tmp_push (CHR ''-'') tmp;
         Some (tmp, False)
       } else Some (tmp, negative));
     let w = wid - c_bool negative;
     tmp \<leftarrow> xint_pad (nat w) lead w tmp;
     if negative then tmp_push (CHR ''-'') tmp else Some tmp
   }"

text \<open>A conversion in progress: base, padding character and width.\<close>

type_synonym xint_spec = "int \<times> char \<times> int"

definition xint_switch :: "char \<Rightarrow> pf_switch" where
  "xint_switch c =
     (if c = CHR ''*'' then SW_star else if c = CHR ''c'' then SW_char
      else if c = CHR ''s'' then SW_str else if c = CHR ''n'' then SW_count
      else if c = CHR ''%'' then SW_percent else if c \<in> set ''pxXodiu'' then SW_int else SW_more)"

text \<open>The cases \<open>p\<close>, \<open>x\<close>, \<open>X\<close>, \<open>o\<close> fall through to each other.\<close>

definition xint_base :: "char \<Rightarrow> int \<Rightarrow> int" where
  "xint_base c base =
     (let base = (if c = CHR ''p'' \<or> c = CHR ''x'' \<or> c = CHR ''X'' then 16 else base)
      in if (c = CHR ''p'' \<or> c = CHR ''x'' \<or> c = CHR ''X'' \<or> c = CHR ''o'') \<and> base = 10
         then 8 else base)"

definition xint_more :: "char \<Rightarrow> xint_spec \<Rightarrow> xint_spec" where
  "xint_more c spec = (case spec of (base, lead, wid) \<Rightarrow>
     if c = CHR ''0'' then (base, CHR ''0'', wid)
     else if CHR ''1'' \<le> c \<and> c \<le> CHR ''9'' then (base, lead, int (of_char c) - 48)
     else spec)"

fun xint_fmt :: "string \<Rightarrow> xint_spec option \<Rightarrow> pf_arg list \<Rightarrow> string \<Rightarrow> string option" where
  "xint_fmt [] spec args out = Some out"
| "xint_fmt (c # cs) None args out =
     (if is_percent c then xint_fmt cs (Some (10, CHR '' '', 1)) args out
      else xint_fmt cs None args (out @ [c]))"
| "xint_fmt (c # cs) (Some spec) args out =
     (case xint_switch c of
        SW_star \<Rightarrow> do { (v, as) \<leftarrow> va_int args; xint_fmt cs (Some (of_u32 v, snd spec)) as out }
      | SW_char \<Rightarrow> do { (v, as) \<leftarrow> va_int args; xint_fmt cs None as (out @ [byte_char v]) }
      | SW_str \<Rightarrow> do { (s, as) \<leftarrow> va_str args; s \<leftarrow> s; xint_fmt cs None as (out @ s) }
      | SW_count \<Rightarrow> xint_fmt cs None args out
      | SW_percent \<Rightarrow> xint_fmt cs None args (out @ [c])
      | SW_int \<Rightarrow> do {
          (v, as) \<leftarrow> va_int args;
          n \<leftarrow> xint_number v (xint_base c (fst spec)) (fst (snd spec)) (snd (snd spec));
          xint_fmt cs None as (out @ n)
        }
      | SW_more \<Rightarrow> xint_fmt cs (Some (xint_more c spec)) args out)"

definition xint_vsprintf :: "string \<Rightarrow> pf_arg list \<Rightarrow> (string \<times> int) option" where
  "xint_vsprintf fmt args = do {
     out \<leftarrow> xint_fmt fmt None args [];
     Some (out, int (length out))
   }"

section \<open>\<open>vsprintf-full.c\<close>\<close>

record pf_flags =
  ZEROPAD :: bool
  SIGN :: bool
  PLUS :: bool
  SPACE :: bool
  LEFT :: bool
  SMALL :: bool
  SPECIAL :: bool

definition no_flags :: pf_flags where
  "no_flags = \<lparr>ZEROPAD = False, SIGN = False, PLUS = False, SPACE = False, LEFT = False,
     SMALL = False, SPECIAL = False\<rparr>"

text \<open>\<open>skip_atoi\<close>; \<open>i*10 + *((*s)++) - '0'\<close> wraps like any \<open>int\<close>.\<close>

fun skip_atoi :: "int \<Rightarrow> string \<Rightarrow> int \<times> string" where
  "skip_atoi i [] = (i, [])"
| "skip_atoi i (c # cs) =
     (if is_digit c then skip_atoi (sub32 (add32 (mul32 i 10) (int (of_char c))) 48) cs
      else (i, c # cs))"

text \<open>\<open>d + '0'\<close> stored in a \<open>char\<close>.\<close>

definition digit_char :: "u32 \<Rightarrow> char" where
  "digit_char d = char_of (unat (d + 48))"

text \<open>
  \<open>put_dec_trunc\<close> and \<open>put_dec_full\<close>: the digits of a number below 100000, the least
  significant one first, without a division.
\<close>

definition dec_start :: "u32 \<Rightarrow> u32 \<times> u32 \<times> u32 \<times> u32" where
  "dec_start q = (drop_bit 12 q, drop_bit 8 q AND 0xf, drop_bit 4 q AND 0xf, q AND 0xf)"

definition dec_step :: "u32 \<Rightarrow> u32 \<Rightarrow> nat \<Rightarrow> u32 \<times> u32" where
  "dec_step d k sh = (let q = drop_bit sh (d * k) in (q, d - 10 * q))"

definition put_dec_trunc :: "u32 \<Rightarrow> string" where
  "put_dec_trunc q =
    (let (d3, d2, d1, low) = dec_start q;
         (q, d0) = dec_step (6 * (d3 + d2 + d1) + low) 0xcd 11;
         d1 = q + 9 * d3 + 5 * d2 + d1
     in digit_char d0 #
        (if d1 = 0 then []
         else let (q, d1) = dec_step d1 0xcd 11;
                  d2 = q + 2 * d2
              in digit_char d1 #
                 (if d2 = 0 \<and> d3 = 0 then []
                  else let (q, d2) = dec_step d2 0xd 7;
                           d3 = q + 4 * d3
                       in digit_char d2 #
                          (if d3 = 0 then []
                           else let (q, d3) = dec_step d3 0xcd 11
                                in digit_char d3 # (if q = 0 then [] else [digit_char q])))))"

definition put_dec_full :: "u32 \<Rightarrow> string" where
  "put_dec_full q =
    (let (d3, d2, d1, low) = dec_start q;
         (q, d0) = dec_step (6 * (d3 + d2 + d1) + low) 0xcd 11;
         (q, d1) = dec_step (q + 9 * d3 + 5 * d2 + d1) 0xcd 11;
         (q, d2) = dec_step (q + 2 * d2) 0xd 7;
         (q, d3) = dec_step (q + 4 * d3) 0xcd 11
     in [digit_char d0, digit_char d1, digit_char d2, digit_char d3, digit_char q])"

function put_dec :: "nat \<Rightarrow> string" where
  "put_dec num = (if num < 100000 then put_dec_trunc (word_of_nat num)
     else put_dec_full (word_of_nat (num mod 100000)) @ put_dec (num div 100000))"
  by auto
termination by (relation "measure id") auto

text \<open>The digits in base 8 or 16, again the least significant one first.\<close>

definition DIGITS :: string where
  "DIGITS = ''0123456789ABCDEF''"

definition to_locase :: "bool \<Rightarrow> char \<Rightarrow> char" where
  "to_locase low c = (if low then char_of (unat ((word_of_nat (of_char c) :: u8) OR 0x20)) else c)"

function pow2_digits :: "nat \<Rightarrow> bool \<Rightarrow> nat \<Rightarrow> string" where
  "pow2_digits base low num =
     to_locase low (DIGITS ! (num mod base)) #
       (let num' = num div (if base = 16 then 16 else 8)
        in if num' = 0 then [] else pow2_digits base low num')"
  by auto
termination by (relation "measure (\<lambda>(_, _, n). n)") (auto split: if_splits)

text \<open>
  The padding loops: \<open>while (--size >= 0)\<close> of \<open>number\<close> and \<open>while (len < field_width--)\<close> of
  \<open>string\<close>, with the value the counter has afterwards.
\<close>

definition pad_size :: "char \<Rightarrow> int \<Rightarrow> string \<times> int" where
  "pad_size c sz = (let sz = sub32 sz 1 in
     if 0 \<le> sz then (replicate (nat sz + 1) c, - 1) else ([], sz))"

definition pad_width :: "int \<Rightarrow> int \<Rightarrow> string \<times> int" where
  "pad_width len fw = (replicate (nat (fw - len)) (CHR '' ''), sub32 (min len fw) 1)"

text \<open>\<open>number\<close>: the sign with the value and the room left for the rest.\<close>

definition num_sign :: "pf_flags \<Rightarrow> u32 \<Rightarrow> int \<Rightarrow> string \<times> u32 \<times> int" where
  "num_sign ty num sz =
     (if SIGN ty then
        if sint num < 0 then (''-'', - num, sub32 sz 1)
        else if PLUS ty then (''+'', num, sub32 sz 1)
        else if SPACE ty then ('' '', num, sub32 sz 1)
        else ([], num, sz)
      else ([], num, sz))"

definition num_digits :: "u32 \<Rightarrow> int \<Rightarrow> bool \<Rightarrow> string" where
  "num_digits num base low =
     (if num = 0 then ''0''
      else if base \<noteq> 10 then pow2_digits (nat base) low (unat num)
      else put_dec (unat num))"

definition number :: "u32 \<Rightarrow> int \<Rightarrow> int \<Rightarrow> int \<Rightarrow> pf_flags \<Rightarrow> string" where
  "number num base sz precision ty =
    (let need_pfx = SPECIAL ty \<and> base \<noteq> 10;
         zeropad = ZEROPAD ty \<and> \<not> LEFT ty;
         (sgn, num, sz) = num_sign ty num sz;
         sz = (if need_pfx then sub32 (sub32 sz 1) (if base = 16 then 1 else 0) else sz);
         tmp = num_digits num base (SMALL ty);
         i = int (length tmp);
         precision = (if precision < i then i else precision);
         sz = sub32 sz precision;
         (lead, sz) = (if \<not> zeropad \<and> \<not> LEFT ty then pad_size (CHR '' '') sz else ([], sz));
         pfx = (if need_pfx then CHR ''0'' # (if base = 16 then [to_locase (SMALL ty) (CHR ''X'')] else [])
                else []);
         (fill, sz) = (if \<not> LEFT ty then pad_size (if zeropad then CHR ''0'' else CHR '' '') sz
                       else ([], sz));
         zeros = replicate (nat (precision - i)) (CHR ''0'');
         (trail, sz) = pad_size (CHR '' '') sz
     in lead @ sgn @ pfx @ fill @ zeros @ rev tmp @ trail)"

definition pf_string :: "string option \<Rightarrow> int \<Rightarrow> int \<Rightarrow> pf_flags \<Rightarrow> string" where
  "pf_string s field_width precision flags =
    (let s = (case s of None \<Rightarrow> ''<NULL>'' | Some s \<Rightarrow> s);
         len = (if precision < 0 then length s else min (length s) (nat precision));
         (lead, field_width) = (if \<not> LEFT flags then pad_width (int len) field_width
                                else ([], field_width));
         (trail, field_width) = pad_width (int len) field_width
     in lead @ take len s @ trail)"

text \<open>\<open>pointer\<close> as compiled: without \<open>CONFIG_CMD_NET\<close> the suffixes have no meaning.\<close>

definition pointer :: "u32 \<Rightarrow> int \<Rightarrow> int \<Rightarrow> pf_flags \<Rightarrow> string" where
  "pointer ptr field_width precision flags =
     (if ptr = 0 then pf_string (Some ''(null)'') field_width precision flags
      else let flags = flags\<lparr>SMALL := True\<rparr>
           in if field_width = - 1 then number ptr 16 8 precision (flags\<lparr>ZEROPAD := True\<rparr>)
              else number ptr 16 field_width precision flags)"

subsection \<open>The parser\<close>

fun parse_flags :: "string \<Rightarrow> pf_flags \<Rightarrow> pf_flags \<times> string" where
  "parse_flags [] f = (f, [])"
| "parse_flags (c # cs) f =
     (if c = CHR ''-'' then parse_flags cs (f\<lparr>LEFT := True\<rparr>)
      else if c = CHR ''+'' then parse_flags cs (f\<lparr>PLUS := True\<rparr>)
      else if c = CHR '' '' then parse_flags cs (f\<lparr>SPACE := True\<rparr>)
      else if c = CHR ''#'' then parse_flags cs (f\<lparr>SPECIAL := True\<rparr>)
      else if c = CHR ''0'' then parse_flags cs (f\<lparr>ZEROPAD := True\<rparr>)
      else (f, c # cs))"

text \<open>The first character of what is left; \<open>CHR 0x00\<close> at the end, as in C.\<close>

definition cur :: "string \<Rightarrow> char" where
  "cur cs = (case cs of [] \<Rightarrow> CHR 0x00 | c # _ \<Rightarrow> c)"

definition parse_width ::
  "string \<Rightarrow> pf_flags \<Rightarrow> pf_arg list \<Rightarrow> (int \<times> string \<times> pf_flags \<times> pf_arg list) option" where
  "parse_width cs f args =
     (if is_digit (cur cs) then let (w, cs) = skip_atoi 0 cs in Some (w, cs, f, args)
      else if cur cs = CHR ''*'' then do {
        (v, args) \<leftarrow> va_int args;
        let w = of_u32 v;
        Some (if w < 0 then (neg32 w, tl cs, f\<lparr>LEFT := True\<rparr>, args) else (w, tl cs, f, args))
      } else Some (- 1, cs, f, args))"

definition parse_precision :: "string \<Rightarrow> pf_arg list \<Rightarrow> (int \<times> string \<times> pf_arg list) option" where
  "parse_precision cs args =
     (if cur cs \<noteq> CHR ''.'' then Some (- 1, cs, args)
      else do {
        let cs = tl cs;
        (p, cs, args) \<leftarrow>
          (if is_digit (cur cs) then let (p, cs) = skip_atoi 0 cs in Some (p, cs, args)
           else if cur cs = CHR ''*'' then do { (v, args) \<leftarrow> va_int args; Some (of_u32 v, tl cs, args) }
           else Some (- 1, cs, args));
        Some (if p < 0 then 0 else p, cs, args)
      })"

definition parse_qualifier :: "string \<Rightarrow> char option \<times> string" where
  "parse_qualifier cs =
     (if cur cs = CHR ''h'' \<or> cur cs = CHR ''l'' \<or> cur cs = CHR ''L'' \<or> cur cs = CHR ''Z'' \<or>
         cur cs = CHR ''z'' \<or> cur cs = CHR ''t''
      then if cur cs = CHR ''l'' \<and> cur (tl cs) = CHR ''l'' then (Some (CHR ''L''), tl (tl cs))
           else (Some (cur cs), tl cs)
      else (None, cs))"

text \<open>
  The value of an integer argument: \<open>long\<close>, \<open>size_t\<close> and \<open>int\<close> are all 32 bits wide, and
  \<open>CONFIG_SYS_64BIT_VSPRINTF\<close> is not set.
\<close>

definition int_arg :: "char option \<Rightarrow> pf_flags \<Rightarrow> u32 \<Rightarrow> u32" where
  "int_arg qualifier f v =
     (if qualifier = Some (CHR ''h'')
      then if SIGN f then scast (ucast v :: u16) else ucast (ucast v :: u16)
      else v)"

definition isalnum :: "char \<Rightarrow> bool" where
  "isalnum c \<longleftrightarrow> CHR ''a'' \<le> c \<and> c \<le> CHR ''z'' \<or> CHR ''A'' \<le> c \<and> c \<le> CHR ''Z'' \<or> is_digit c"

text \<open>
  One conversion, after flags, width, precision and qualifier: what is written, what is left of
  the format and the arguments, and what \<open>%n\<close> stores. \<open>n\<close> is the number of characters written.
\<close>

type_synonym pf_result = "string \<times> string \<times> pf_arg list \<times> (u32 \<times> int) list"

definition conv_int ::
  "int \<Rightarrow> pf_flags \<Rightarrow> int \<Rightarrow> int \<Rightarrow> char option \<Rightarrow> string \<Rightarrow> pf_arg list \<Rightarrow> pf_result option" where
  "conv_int base f w p q cs args = do {
     (v, args) \<leftarrow> va_int args;
     Some (number (int_arg q f v) base w p f, cs, args, [])
   }"

definition conv_char :: "pf_flags \<Rightarrow> int \<Rightarrow> string \<Rightarrow> pf_arg list \<Rightarrow> pf_result option" where
  "conv_char f w cs args = do {
     let pad = replicate (nat (w - 1)) (CHR '' '');
     (v, args) \<leftarrow> va_int args;
     Some (if LEFT f then byte_char v # pad else pad @ [byte_char v], cs, args, [])
   }"

text \<open>The last \<open>switch\<close>: for an integer the base, and whether it is in lower case, and signed.\<close>

datatype full_conv = FC_char | FC_str | FC_ptr | FC_count | FC_percent | FC_int int bool bool | FC_other

definition full_switch :: "char \<Rightarrow> full_conv" where
  "full_switch c =
     (if c = CHR ''c'' then FC_char else if c = CHR ''s'' then FC_str
      else if c = CHR ''p'' then FC_ptr else if c = CHR ''n'' then FC_count
      else if c = CHR ''%'' then FC_percent else if c = CHR ''o'' then FC_int 8 False False
      else if c = CHR ''x'' then FC_int 16 True False else if c = CHR ''X'' then FC_int 16 False False
      else if c = CHR ''d'' \<or> c = CHR ''i'' then FC_int 10 False True
      else if c = CHR ''u'' then FC_int 10 False False else FC_other)"

definition convert ::
  "int \<Rightarrow> pf_flags \<Rightarrow> int \<Rightarrow> int \<Rightarrow> char option \<Rightarrow> string \<Rightarrow> pf_arg list \<Rightarrow> pf_result option" where
  "convert n f w p q cs args =
    (case cs of
       [] \<Rightarrow> Some (''%'', [], args, [])
     | c # cs \<Rightarrow>
         (case full_switch c of
            FC_char \<Rightarrow> conv_char f w cs args
          | FC_str \<Rightarrow> do { (s, args) \<leftarrow> va_str args; Some (pf_string s w p f, cs, args, []) }
          | FC_ptr \<Rightarrow> do {
              (v, args) \<leftarrow> va_ptr args;
              Some (pointer v w p f, dropWhile isalnum cs, args, [])
            }
          | FC_count \<Rightarrow> do { (v, args) \<leftarrow> va_ptr args; Some ([], cs, args, [(v, n)]) }
          | FC_percent \<Rightarrow> Some (''%'', cs, args, [])
          | FC_int bs sm sg \<Rightarrow>
              conv_int bs (f\<lparr>SMALL := SMALL f \<or> sm, SIGN := SIGN f \<or> sg\<rparr>) w p q cs args
          | FC_other \<Rightarrow> Some ([CHR ''%'', c], cs, args, [])))"

definition directive :: "int \<Rightarrow> string \<Rightarrow> pf_arg list \<Rightarrow> pf_result option" where
  "directive n cs args = do {
     let (f, cs) = parse_flags cs no_flags;
     (w, cs, f, args) \<leftarrow> parse_width cs f args;
     (p, cs, args) \<leftarrow> parse_precision cs args;
     let (q, cs) = parse_qualifier cs;
     convert n f w p q cs args
   }"

lemma parse_flags_shorter: "length (snd (parse_flags cs f)) \<le> length cs"
  by (induction cs f rule: parse_flags.induct) auto

lemma skip_atoi_shorter: "length (snd (skip_atoi i cs)) \<le> length cs"
  by (induction i cs rule: skip_atoi.induct) auto

lemma parse_width_shorter:
  "parse_width cs f args = Some (w, cs', f', args') \<Longrightarrow> length cs' \<le> length cs"
  using skip_atoi_shorter [of 0 cs]
  by (auto simp: parse_width_def Let_def split_beta bind_eq_Some_conv split: if_splits)

lemma parse_precision_shorter:
  "parse_precision cs args = Some (p, cs', args') \<Longrightarrow> length cs' \<le> length cs"
  using skip_atoi_shorter [of 0 "tl cs"]
  by (auto simp: parse_precision_def Let_def split_beta bind_eq_Some_conv split: if_splits)

lemma parse_qualifier_shorter: "length (snd (parse_qualifier cs)) \<le> length cs"
  by (simp add: parse_qualifier_def)

lemma convert_shorter: "convert n f w p q cs args = Some (out, cs', args', st) \<Longrightarrow> length cs' \<le> length cs"
  using length_dropWhile_le [of isalnum "tl cs"]
  by (auto simp: convert_def conv_char_def conv_int_def Let_def bind_eq_Some_conv
      split: list.splits full_conv.splits)

lemma directive_shorter:
  assumes "directive n cs args = Some (out, cs', args', st)"
  shows "length cs' \<le> length cs"
proof -
  obtain f cs1 where f: "parse_flags cs no_flags = (f, cs1)" by fastforce
  obtain w cs2 f2 args2 where w: "parse_width cs1 f args = Some (w, cs2, f2, args2)"
    using assms f by (auto simp: directive_def bind_eq_Some_conv)
  obtain p cs3 args3 where p: "parse_precision cs2 args2 = Some (p, cs3, args3)"
    using assms f w by (auto simp: directive_def bind_eq_Some_conv)
  obtain q cs4 where q: "parse_qualifier cs3 = (q, cs4)" by fastforce
  have "convert n f2 w p q cs4 args3 = Some (out, cs', args', st)"
    using assms f w p q by (simp add: directive_def)
  then have "length cs' \<le> length cs4" by (rule convert_shorter)
  also have "\<dots> \<le> length cs3" using parse_qualifier_shorter [of cs3] q by simp
  also have "\<dots> \<le> length cs2" by (rule parse_precision_shorter [OF p])
  also have "\<dots> \<le> length cs1" by (rule parse_width_shorter [OF w])
  also have "\<dots> \<le> length cs" using parse_flags_shorter [of cs no_flags] f by simp
  finally show ?thesis .
qed

text \<open>The main loop: the characters written and the stores of \<open>%n\<close>.\<close>

function full_fmt :: "string \<Rightarrow> pf_arg list \<Rightarrow> string \<Rightarrow> (u32 \<times> int) list \<Rightarrow>
    (string \<times> (u32 \<times> int) list) option" where
  "full_fmt [] args out st = Some (out, st)"
| "full_fmt (c # cs) args out st =
     (if \<not> is_percent c then full_fmt cs args (out @ [c]) st
      else case directive (int (length out)) cs args of
             None \<Rightarrow> None
           | Some (o1, cs1, args1, st1) \<Rightarrow> full_fmt cs1 args1 (out @ o1) (st @ st1))"
  by pat_completeness auto
termination
  by (relation "measure (\<lambda>(cs, _, _, _). length cs)") (auto dest: directive_shorter)

definition full_vsprintf :: "string \<Rightarrow> pf_arg list \<Rightarrow> (string \<times> int \<times> (u32 \<times> int) list) option" where
  "full_vsprintf fmt args = do {
     (out, st) \<leftarrow> full_fmt fmt args [] [];
     Some (out, int (length out), st)
   }"

section \<open>\<open>printf.c\<close>\<close>

text \<open>
  \<open>pp_vprintf\<close> formats into a static buffer of \<open>CONFIG_PRINT_BUFSIZE\<close> bytes; \<open>vsp\<close> is the
  \<open>pp_vsprintf\<close> of the build. The result is what \<open>puts\<close> sends and the returned count.
\<close>

definition pp_vprintf ::
  "nat \<Rightarrow> (string \<Rightarrow> pf_arg list \<Rightarrow> (string \<times> int) option) \<Rightarrow> string \<Rightarrow> pf_arg list \<Rightarrow>
    (string \<times> int) option" where
  "pp_vprintf bufsize vsp fmt args = do {
     (out, ret) \<leftarrow> vsp fmt args;
     if bufsize < length out + 1 then None else Some (out, ret)
   }"

definition pp_printf ::
  "nat \<Rightarrow> (string \<Rightarrow> pf_arg list \<Rightarrow> (string \<times> int) option) \<Rightarrow> string \<Rightarrow> pf_arg list \<Rightarrow>
    (string \<times> int) option" where
  "pp_printf bufsize vsp fmt args = pp_vprintf bufsize vsp fmt args"

definition pp_sprintf ::
  "(string \<Rightarrow> pf_arg list \<Rightarrow> (string \<times> int) option) \<Rightarrow> string \<Rightarrow> pf_arg list \<Rightarrow>
    (string \<times> int) option" where
  "pp_sprintf vsp fmt args = vsp fmt args"

section \<open>\<open>lib/atoi.c\<close>\<close>

text \<open>\<open>res * 10 + *s++ - '0'\<close> on \<open>int\<close>, from left to right.\<close>

fun atoi_digits :: "int \<Rightarrow> string \<Rightarrow> int" where
  "atoi_digits res [] = res"
| "atoi_digits res (c # cs) =
     (if is_digit c then atoi_digits (sub32 (add32 (mul32 res 10) (int (of_char c))) 48) cs else res)"

definition atoi :: "string \<Rightarrow> int" where
  "atoi s =
     (let (sgn, s) = (case s of c # cs \<Rightarrow> if c = CHR ''-'' then (- 1, cs) else (1, s) | [] \<Rightarrow> (1, s))
      in mul32 (atoi_digits 0 s) sgn)"

end
