(* ===== verification/Printf_Props.thy ===== *)
theory Printf_Props
  imports Printf
begin

text \<open>
  Properties of the formatted output: the decimal conversion without division is right on its
  whole range, the implementations agree on plain conversions, and \<open>atoi\<close> reads back what they
  print.
\<close>

section \<open>Digits\<close>

text \<open>The reference: the digits of a number, least significant first, and its numeral.\<close>

fun rdigits :: "nat \<Rightarrow> nat \<Rightarrow> nat list" where
  "rdigits b n = (if n < b \<or> b < 2 then [n] else n mod b # rdigits b (n div b))"

declare rdigits.simps [simp del]

definition dchar :: "nat \<Rightarrow> char" where
  "dchar d = hex_asc ! d"

definition numeral_of :: "nat \<Rightarrow> nat \<Rightarrow> string" where
  "numeral_of b n = rev (map dchar (rdigits b n))"

lemma rdigits_small: "n < b \<Longrightarrow> rdigits b n = [n]"
  by (simp add: rdigits.simps)

lemma rdigits_big: "2 \<le> b \<Longrightarrow> b \<le> n \<Longrightarrow> rdigits b n = n mod b # rdigits b (n div b)"
  by (subst rdigits.simps) simp

lemma rdigits_not_Nil [simp]: "rdigits b n \<noteq> []"
  by (subst rdigits.simps) simp

lemma rdigits_less: "2 \<le> b \<Longrightarrow> list_all (\<lambda>d. d < b) (rdigits b n)"
proof (induction b n rule: rdigits.induct)
  case (1 b n)
  then show ?case by (cases "n < b") (auto simp: rdigits_small rdigits_big)
qed

lemma rdigits_length: "2 \<le> b \<Longrightarrow> n < b ^ Suc k \<Longrightarrow> length (rdigits b n) \<le> Suc k"
proof (induction k arbitrary: n)
  case 0
  then show ?case by (simp add: rdigits_small)
next
  case (Suc k)
  show ?case
  proof (cases "n < b")
    case False
    have "n div b < b ^ Suc k"
      using Suc.prems by (simp add: less_mult_imp_div_less mult.commute)
    then show ?thesis using Suc.IH [of "n div b"] Suc.prems(1) False by (simp add: rdigits_big)
  qed (simp add: rdigits_small)
qed

lemma char_of_digit:
  assumes "d < 10"
  shows "char_of (d + 48) = dchar d"
proof -
  have "\<forall>d \<in> set [0, 1, 2, 3, 4, 5, 6, 7, 8, 9 :: nat]. char_of (d + 48) = dchar d"
    by (simp add: dchar_def hex_asc_def char_of_def bit_nat_def)
  moreover have "d \<in> set [0, 1, 2, 3, 4, 5, 6, 7, 8, 9]" using assms by auto
  ultimately show ?thesis by blast
qed

lemma digit_char_dchar:
  assumes "d < 10"
  shows "digit_char (word_of_nat d) = dchar d"
proof -
  have "word_of_nat d + (48 :: u32) = word_of_nat (d + 48)" by simp
  moreover have "unat (word_of_nat (d + 48) :: u32) = d + 48"
    using assms by (simp only: unat_of_nat) simp
  ultimately show ?thesis using char_of_digit [OF assms] by (simp add: digit_char_def)
qed

section \<open>The decimal conversion\<close>

lemma mult_205: "n \<le> 1019 \<Longrightarrow> n * 205 div 2048 = n div (10 :: nat)"
proof -
  assume n: "n \<le> 1019"
  obtain k r where kr: "n = 10 * k + r" "r < 10" by (metis mod_less_divisor mult_div_mod_eq zero_less_numeral)
  have "n * 205 = 2048 * k + (2 * k + 205 * r)" using kr(1) by simp
  moreover have "2 * k + 205 * r < 2048" using kr n by linarith
  ultimately have "n * 205 div 2048 = k" by simp
  then show ?thesis using kr by simp
qed

lemma mult_13: "n \<le> 63 \<Longrightarrow> n * 13 div 128 = n div (10 :: nat)"
proof -
  assume n: "n \<le> 63"
  obtain k r where kr: "n = 10 * k + r" "r < 10" by (metis mod_less_divisor mult_div_mod_eq zero_less_numeral)
  have "n * 13 = 128 * k + (2 * k + 13 * r)" using kr(1) by simp
  moreover have "2 * k + 13 * r < 128" using kr n by linarith
  ultimately have "n * 13 div 128 = k" by simp
  then show ?thesis using kr by simp
qed

lemma drop_bit_of_nat: "n < 2 ^ 32 \<Longrightarrow> drop_bit k (word_of_nat n :: u32) = word_of_nat (n div 2 ^ k)"
  unfolding word_unat_eq_iff unsigned_drop_bit_eq
  unfolding unat_of_nat drop_bit_eq_div take_bit_eq_mod
  by (simp add: le_less_trans [OF div_le_dividend])

lemma minus_ten: "(word_of_nat n :: u32) - 10 * word_of_nat (n div 10) = word_of_nat (n mod 10)"
proof -
  have "n = n mod 10 + 10 * (n div 10)" by simp
  then have "(word_of_nat n :: u32) = word_of_nat (n mod 10 + 10 * (n div 10))" by (rule arg_cong)
  then show ?thesis by (metis add_diff_cancel_right' of_nat_add of_nat_mult of_nat_numeral)
qed

lemma dec_step_205:
  assumes "n \<le> 1019"
  shows "dec_step (word_of_nat n) 0xcd 11 = (word_of_nat (n div 10), word_of_nat (n mod 10))"
proof -
  have "(word_of_nat n :: u32) * 0xcd = word_of_nat (n * 205)" by simp
  moreover have "drop_bit 11 (word_of_nat (n * 205) :: u32) = word_of_nat (n * 205 div 2 ^ 11)"
    by (rule drop_bit_of_nat) (use assms in simp)
  ultimately have "drop_bit 11 ((word_of_nat n :: u32) * 0xcd) = word_of_nat (n div 10)"
    using mult_205 [OF assms] by simp
  then show ?thesis by (simp add: dec_step_def minus_ten)
qed

lemma dec_step_13:
  assumes "n \<le> 63"
  shows "dec_step (word_of_nat n) 0xd 7 = (word_of_nat (n div 10), word_of_nat (n mod 10))"
proof -
  have "(word_of_nat n :: u32) * 0xd = word_of_nat (n * 13)" by simp
  moreover have "drop_bit 7 (word_of_nat (n * 13) :: u32) = word_of_nat (n * 13 div 2 ^ 7)"
    by (rule drop_bit_of_nat) (use assms in simp)
  ultimately have "drop_bit 7 ((word_of_nat n :: u32) * 0xd) = word_of_nat (n div 10)"
    using mult_13 [OF assms] by simp
  then show ?thesis by (simp add: dec_step_def minus_ten)
qed

lemma and_mask_of_nat: "n < 2 ^ 32 \<Longrightarrow> (word_of_nat n :: u32) AND 0xf = word_of_nat (n mod 16)"
proof -
  assume n: "n < 2 ^ 32"
  have m: "(0xf :: u32) = mask 4" by (simp add: mask_eq_exp_minus_1)
  have "unat ((word_of_nat n :: u32) AND 0xf) = n mod 16"
    unfolding m take_bit_eq_mask [symmetric] unsigned_take_bit_eq
    using n by (simp add: unat_of_nat take_bit_eq_mod)
  then have "word_of_nat (unat ((word_of_nat n :: u32) AND 0xf)) = (word_of_nat (n mod 16) :: u32)"
    by (rule arg_cong)
  then show ?thesis by simp
qed

text \<open>The nibbles of a number below 100000, and the weights by which they enter the digits.\<close>

lemma dec_start_nat:
  assumes "n < 100000"
  shows "dec_start (word_of_nat n) = (word_of_nat (n div 4096), word_of_nat (n div 256 mod 16),
    word_of_nat (n div 16 mod 16), word_of_nat (n mod 16))"
proof -
  have n: "n < 2 ^ 32" using assms by simp
  have "n div 256 < 2 ^ 32" "n div 16 < 2 ^ 32" using assms by simp_all
  then show ?thesis
    using n drop_bit_of_nat [OF n, of 12] drop_bit_of_nat [OF n, of 8] drop_bit_of_nat [OF n, of 4]
    by (simp add: dec_start_def and_mask_of_nat)
qed

lemma nibbles: "n = 4096 * (n div 4096) + 256 * (n div 256 mod 16) + 16 * (n div 16 mod 16) + n mod (16 :: nat)"
proof -
  have "n = 16 * (n div 16) + n mod 16" by simp
  moreover have "n div 16 = 16 * (n div 256) + n div 16 mod 16"
    using mult_div_mod_eq [of 16 "n div 16"] by (simp add: div_mult2_eq [symmetric])
  moreover have "n div 256 = 16 * (n div 4096) + n div 256 mod 16"
    using mult_div_mod_eq [of 16 "n div 256"] by (simp add: div_mult2_eq [symmetric])
  ultimately show ?thesis by linarith
qed

text \<open>The carries of the schoolbook addition the code performs are those of the division.\<close>

lemma carry_step: "n = 10 * x + y \<Longrightarrow> n div 10 = x + y div (10 :: nat) \<and> n mod 10 = y mod 10"
  by simp

lemma dec_carries:
  fixes d3 d2 d1 d0 :: nat
  defines "n \<equiv> 4096 * d3 + 256 * d2 + 16 * d1 + d0"
    and "s0 \<equiv> 6 * (d3 + d2 + d1) + d0"
  defines "s1 \<equiv> s0 div 10 + 9 * d3 + 5 * d2 + d1"
  defines "s2 \<equiv> s1 div 10 + 2 * d2"
  defines "s3 \<equiv> s2 div 10 + 4 * d3"
  shows "n mod 10 = s0 mod 10" "n div 10 mod 10 = s1 mod 10" "n div 100 mod 10 = s2 mod 10"
    "n div 1000 mod 10 = s3 mod 10" "n div 10000 = s3 div 10" "n div 10 = s1 + 10 * (40 * d3 + 2 * d2)"
    "n div 100 = s2 + 40 * d3" "n div 1000 = s3"
proof -
  have n: "n = 10 * (409 * d3 + 25 * d2 + d1) + s0" by (simp add: n_def s0_def)
  then have n10: "n div 10 = (409 * d3 + 25 * d2 + d1) + s0 div 10" "n mod 10 = s0 mod 10"
    using carry_step by blast+
  have a1: "n div 10 = 10 * (40 * d3 + 2 * d2) + s1" unfolding n10 s1_def by simp
  have "n div 100 = n div 10 div 10" by (simp add: div_mult2_eq [symmetric])
  then have n100: "n div 100 = 40 * d3 + 2 * d2 + s1 div 10" "n div 10 mod 10 = s1 mod 10"
    using carry_step [OF a1] by simp_all
  have a2: "n div 100 = 10 * (4 * d3) + s2" unfolding n100 s2_def by simp
  have "n div 1000 = n div 100 div 10" by (simp add: div_mult2_eq [symmetric])
  then have n1000: "n div 1000 = 4 * d3 + s2 div 10" "n div 100 mod 10 = s2 mod 10"
    using carry_step [OF a2] by simp_all
  have a3: "n div 1000 = s3" unfolding n1000 s3_def by simp
  have "n div 10000 = n div 1000 div 10" by (simp add: div_mult2_eq [symmetric])
  then show "n div 10000 = s3 div 10" unfolding a3 .
  show "n mod 10 = s0 mod 10" by (rule n10)
  show "n div 10 mod 10 = s1 mod 10" by (rule n100)
  show "n div 100 mod 10 = s2 mod 10" by (rule n1000)
  show "n div 1000 mod 10 = s3 mod 10" by (simp only: a3)
  show "n div 10 = s1 + 10 * (40 * d3 + 2 * d2)" using a1 by simp
  show "n div 100 = s2 + 40 * d3" using a2 by simp
  show "n div 1000 = s3" by (rule a3)
qed

text \<open>The five digits, as the code computes them.\<close>

definition dec5 :: "nat \<Rightarrow> nat list" where
  "dec5 n = [n mod 10, n div 10 mod 10, n div 100 mod 10, n div 1000 mod 10, n div 10000]"

lemma dec_words:
  "(6 :: u32) * (word_of_nat a + word_of_nat b + word_of_nat c) + word_of_nat d = word_of_nat (6 * (a + b + c) + d)"
  "word_of_nat q + (9 :: u32) * word_of_nat a + 5 * word_of_nat b + word_of_nat c = word_of_nat (q + 9 * a + 5 * b + c)"
  "word_of_nat q + (2 :: u32) * word_of_nat b = word_of_nat (q + 2 * b)"
  "word_of_nat q + (4 :: u32) * word_of_nat b = word_of_nat (q + 4 * b)"
  by simp_all

text \<open>
  The chain of the steps of both variants, with the carries of \<open>dec_carries\<close>.
\<close>

lemma dec_chain:
  assumes n: "n < 100000"
  obtains d3 d2 d1 d0 s1 s2 s3 :: nat where
    "dec_start (word_of_nat n) = (word_of_nat d3, word_of_nat d2, word_of_nat d1, word_of_nat d0)"
    "dec_step (word_of_nat (6 * (d3 + d2 + d1) + d0)) 0xcd 11 =
       (word_of_nat ((6 * (d3 + d2 + d1) + d0) div 10), word_of_nat (n mod 10))"
    "s1 = (6 * (d3 + d2 + d1) + d0) div 10 + 9 * d3 + 5 * d2 + d1" "s1 \<le> 339"
    "dec_step (word_of_nat s1) 0xcd 11 = (word_of_nat (s1 div 10), word_of_nat (n div 10 mod 10))"
    "s2 = s1 div 10 + 2 * d2" "s2 \<le> 63"
    "dec_step (word_of_nat s2) 0xd 7 = (word_of_nat (s2 div 10), word_of_nat (n div 100 mod 10))"
    "s3 = s2 div 10 + 4 * d3" "s3 \<le> 102" "d3 \<le> 24" "d2 \<le> 15"
    "dec_step (word_of_nat s3) 0xcd 11 = (word_of_nat (n div 10000), word_of_nat (n div 1000 mod 10))"
    "n div 10 = s1 + 10 * (40 * d3 + 2 * d2)" "n div 100 = s2 + 40 * d3" "n div 1000 = s3"
proof -
  define d3 d2 d1 d0 where d: "d3 = n div 4096" "d2 = n div 256 mod 16" "d1 = n div 16 mod 16" "d0 = n mod 16"
  define s0 where s0: "s0 = 6 * (d3 + d2 + d1) + d0"
  define s1 where s1: "s1 = s0 div 10 + 9 * d3 + 5 * d2 + d1"
  define s2 where s2: "s2 = s1 div 10 + 2 * d2"
  define s3 where s3: "s3 = s2 div 10 + 4 * d3"
  have nn: "n = 4096 * d3 + 256 * d2 + 16 * d1 + d0" unfolding d by (rule nibbles)
  note car = dec_carries [of d3 d2 d1 d0, folded nn, folded s0, folded s1, folded s2, folded s3]
  have b: "d3 \<le> 24" "d2 \<le> 15" "d1 \<le> 15" "d0 \<le> 15" using n unfolding d by auto
  have b0: "s0 \<le> 339" unfolding s0 distrib_left using b by linarith
  have b1: "s1 \<le> 339" unfolding s1 using b b0 by linarith
  have b2: "s2 \<le> 63" unfolding s2 using b b1 by linarith
  have b3: "s3 \<le> 102" unfolding s3 using b b2 by linarith
  have "dec_start (word_of_nat n) = (word_of_nat d3, word_of_nat d2, word_of_nat d1, word_of_nat d0)"
    unfolding d by (rule dec_start_nat [OF n])
  moreover have "dec_step (word_of_nat s0) 0xcd 11 = (word_of_nat (s0 div 10), word_of_nat (n mod 10))"
    using dec_step_205 [of s0] b0 car(1) by simp
  moreover have "dec_step (word_of_nat s1) 0xcd 11 = (word_of_nat (s1 div 10), word_of_nat (n div 10 mod 10))"
    using dec_step_205 [of s1] b1 car(2) by simp
  moreover have "dec_step (word_of_nat s2) 0xd 7 = (word_of_nat (s2 div 10), word_of_nat (n div 100 mod 10))"
    using dec_step_13 [of s2] b2 car(3) by simp
  moreover have "dec_step (word_of_nat s3) 0xcd 11 = (word_of_nat (n div 10000), word_of_nat (n div 1000 mod 10))"
    using dec_step_205 [of s3] b3 car(4,5) by simp
  ultimately show thesis
    using that [of d3 d2 d1 d0 s1 s2 s3] b b1 b2 b3 car(6,7,8) s0 s1 s2 s3 by metis
qed

lemma dec_digits_chars:
  "digit_char (word_of_nat (n mod 10)) = dchar (n mod 10)"
  "n < 10 \<Longrightarrow> digit_char (word_of_nat n) = dchar n"
  by (simp_all add: digit_char_dchar)

lemma put_dec_full_digits:
  assumes "n < 100000"
  shows "put_dec_full (word_of_nat n) = map dchar (dec5 n)"
proof -
  have "n div 10000 < 10" using assms by simp
  then have q: "digit_char (word_of_nat (n div 10000)) = dchar (n div 10000)" by (rule digit_char_dchar)
  show ?thesis
    by (rule dec_chain [OF assms])
       (simp only: put_dec_full_def Let_def dec_words prod.case dec5_def dec_digits_chars q list.map)
qed

lemma word_zero_small: "k < 100000 \<Longrightarrow> (word_of_nat k = (0 :: u32)) \<longleftrightarrow> k = 0"
  unfolding word_unat_eq_iff by (simp only: unat_of_nat) simp

lemma rdigits_unroll:
  assumes "n < 100000"
  shows "rdigits 10 n = n mod 10 # (if n div 10 = 0 then [] else n div 10 mod 10 #
    (if n div 100 = 0 then [] else n div 100 mod 10 # (if n div 1000 = 0 then [] else n div 1000 mod 10 #
    (if n div 10000 = 0 then [] else [n div 10000]))))"
proof -
  have step: "rdigits 10 k = k mod 10 # (if k div 10 = 0 then [] else rdigits 10 (k div 10))" for k
    by (cases "k < 10") (simp_all add: rdigits_small rdigits_big div_eq_0_iff)
  have e: "n div 10 div 10 = n div 100" "n div 100 div 10 = n div 1000" "n div 1000 div 10 = n div 10000"
    by (simp_all add: div_mult2_eq [symmetric])
  have "rdigits 10 (n div 10000) = [n div 10000]"
    using assms by (simp add: rdigits_small)
  then show ?thesis
    unfolding step [of n] step [of "n div 10"] step [of "n div 100"] step [of "n div 1000"] e by simp
qed

lemma put_dec_trunc_digits:
  assumes n: "n < 100000"
  shows "put_dec_trunc (word_of_nat n) = map dchar (rdigits 10 n)"
proof (rule dec_chain [OF n])
  fix d3 d2 d1 d0 s1 s2 s3 :: nat
  assume st: "dec_start (word_of_nat n) = (word_of_nat d3, word_of_nat d2, word_of_nat d1, word_of_nat d0)"
      "dec_step (word_of_nat (6 * (d3 + d2 + d1) + d0)) 0xcd 11 =
        (word_of_nat ((6 * (d3 + d2 + d1) + d0) div 10), word_of_nat (n mod 10))"
      "dec_step (word_of_nat s1) 0xcd 11 = (word_of_nat (s1 div 10), word_of_nat (n div 10 mod 10))"
      "dec_step (word_of_nat s2) 0xd 7 = (word_of_nat (s2 div 10), word_of_nat (n div 100 mod 10))"
      "dec_step (word_of_nat s3) 0xcd 11 = (word_of_nat (n div 10000), word_of_nat (n div 1000 mod 10))"
    and s: "s1 = (6 * (d3 + d2 + d1) + d0) div 10 + 9 * d3 + 5 * d2 + d1" "s2 = s1 div 10 + 2 * d2"
      "s3 = s2 div 10 + 4 * d3"
    and b: "s1 \<le> 339" "s2 \<le> 63" "s3 \<le> 102" "d3 \<le> 24" "d2 \<le> 15"
    and q: "n div 10 = s1 + 10 * (40 * d3 + 2 * d2)" "n div 100 = s2 + 40 * d3" "n div 1000 = s3"
  have z1: "word_of_nat s1 = (0 :: u32) \<longleftrightarrow> n div 10 = 0"
    using word_zero_small [of s1] b(1) q(1) s(1) by auto
  have z2: "(word_of_nat s2 = (0 :: u32) \<and> word_of_nat d3 = (0 :: u32)) \<longleftrightarrow> n div 100 = 0"
    using word_zero_small [of s2] word_zero_small [of d3] b q(2) by auto
  have z3: "word_of_nat s3 = (0 :: u32) \<longleftrightarrow> n div 1000 = 0"
    using word_zero_small [of s3] b(3) q(3) by auto
  have z4: "word_of_nat (n div 10000) = (0 :: u32) \<longleftrightarrow> n div 10000 = 0"
    using n by (intro word_zero_small) simp
  have c4: "digit_char (word_of_nat (n div 10000)) = dchar (n div 10000)"
    using n by (intro digit_char_dchar) simp
  show ?thesis
    unfolding put_dec_trunc_def st(1) prod.case dec_words st(2) Let_def s(1) [symmetric] st(3)
      s(2) [symmetric] st(4) s(3) [symmetric] st(5) z1 z2 z3 z4 c4 dec_digits_chars(1) rdigits_unroll [OF n]
    by simp
qed

lemma mod_div_swap: "0 < a \<Longrightarrow> n mod (a * b) div a = n div a mod (b :: nat)"
  by (simp add: mod_mult2_eq)

lemma rdigits_split:
  assumes "100000 \<le> n"
  shows "rdigits 10 n = dec5 (n mod 100000) @ rdigits 10 (n div 100000)"
proof -
  have e: "n div 10 div 10 = n div 100" "n div 100 div 10 = n div 1000" "n div 1000 div 10 = n div 10000"
    "n div 10000 div 10 = n div 100000"
    by (simp_all add: div_mult2_eq [symmetric])
  have b: "10 \<le> n" "10 \<le> n div 10" "10 \<le> n div 100" "10 \<le> n div 1000" "10 \<le> n div 10000"
    using assms by simp_all
  have m: "n mod 100000 mod 10 = n mod 10" "n mod 100000 div 10 mod 10 = n div 10 mod 10"
    "n mod 100000 div 100 mod 10 = n div 100 mod 10" "n mod 100000 div 1000 mod 10 = n div 1000 mod 10"
    "n mod 100000 div 10000 = n div 10000 mod 10"
    using mod_div_swap [of 10 n 10000] mod_div_swap [of 100 n 1000] mod_div_swap [of 1000 n 100]
      mod_div_swap [of 10000 n 10]
    by (simp_all add: mod_mod_cancel)
  show ?thesis
    unfolding dec5_def m
    by (simp only: rdigits_big [OF _ b(1)] rdigits_big [OF _ b(2)] rdigits_big [OF _ b(3)]
        rdigits_big [OF _ b(4)] rdigits_big [OF _ b(5)] e) simp
qed

lemma put_dec_digits: "put_dec n = map dchar (rdigits 10 n)"
proof (induction n rule: less_induct)
  case (less n)
  show ?case
  proof (cases "n < 100000")
    case True
    then show ?thesis by (subst put_dec.simps) (simp del: put_dec.simps add: put_dec_trunc_digits)
  next
    case False
    have "put_dec (n div 100000) = map dchar (rdigits 10 (n div 100000))"
      using False by (intro less.IH) simp
    then show ?thesis
      using False put_dec_full_digits [of "n mod 100000"]
      by (subst put_dec.simps) (simp del: put_dec.simps add: rdigits_split)
  qed
qed

lemma rdigits_32:
  "length (rdigits 10 (unat (v :: u32))) \<le> 10" "length (rdigits 16 (unat v)) \<le> 8"
proof -
  have v: "unat v < 2 ^ 32" using unsigned_less [of v] by simp
  show "length (rdigits 10 (unat v)) \<le> 10"
    using rdigits_length [of 10 "unat v" 9] v by simp
  show "length (rdigits 16 (unat v)) \<le> 8"
    using rdigits_length [of 16 "unat v" 7] v by simp
qed

lemma lower_digits: "map (to_locase True) DIGITS = hex_asc"
  by code_simp

lemma length_DIGITS: "length DIGITS = 16"
  by (simp add: DIGITS_def)

lemma hex_digit: "d < 16 \<Longrightarrow> to_locase True (DIGITS ! d) = dchar d"
  using nth_map [of d DIGITS "to_locase True"] by (simp add: lower_digits dchar_def length_DIGITS)

lemma hex_digits: "pow2_digits 16 True n = map dchar (rdigits 16 n)"
proof (induction n rule: less_induct)
  case (less n)
  show ?case
  proof (cases "n < 16")
    case True
    then show ?thesis
      by (subst pow2_digits.simps) (simp del: pow2_digits.simps add: rdigits_small hex_digit)
  next
    case False
    have "pow2_digits 16 True (n div 16) = map dchar (rdigits 16 (n div 16))"
      using False by (intro less.IH) simp
    then show ?thesis
      using False
      by (subst pow2_digits.simps) (simp del: pow2_digits.simps add: rdigits_big hex_digit div_eq_0_iff)
  qed
qed

lemma num_digits_rev:
  "rev (num_digits v 10 low) = numeral_of 10 (unat v)" "rev (num_digits v 16 True) = numeral_of 16 (unat v)"
  by (simp_all add: num_digits_def put_dec_digits hex_digits numeral_of_def rdigits_small dchar_def hex_asc_def
      del: put_dec.simps pow2_digits.simps)

lemma pad_size_eq:
  "- 2147483647 \<le> sz \<Longrightarrow> sz < 2147483648 \<Longrightarrow>
    pad_size c sz = (replicate (nat sz) c, if 0 < sz then - 1 else sz - 1)"
  by (simp add: pad_size_def sub32_def Let_def Suc_nat_eq_nat_zadd1)

section \<open>The reference for a conversion\<close>

text \<open>A number in a field of \<open>w\<close> characters, filled with blanks or, after the sign, with zeros.\<close>

definition pad_num :: "bool \<Rightarrow> nat \<Rightarrow> string \<Rightarrow> string \<Rightarrow> string" where
  "pad_num z w sn ds =
     (if z then sn @ replicate (w - length sn - length ds) (CHR ''0'') @ ds
      else replicate (w - length sn - length ds) (CHR '' '') @ sn @ ds)"

definition width_arg :: "nat \<Rightarrow> int" where
  "width_arg w = (if w = 0 then - 1 else int w)"

lemma number_plain:
  assumes f: "f = no_flags\<lparr>ZEROPAD := z, SMALL := low, SIGN := sg\<rparr>" and w: "w < 1000"
    and s: "num_sign f v (width_arg w) = (sn, v', width_arg w - int (length sn))"
    and d: "rev (num_digits v' base low) = ds" "length ds \<le> 100" "length sn \<le> 1"
  shows "number v base (width_arg w) (- 1) f = pad_num z w sn ds"
proof -
  have l: "length (num_digits v' base low) = length ds" using d(1) by auto
  have f': "SPECIAL f = False" "LEFT f = False" "ZEROPAD f = z" "SMALL f = low"
    by (simp_all add: f no_flags_def)
  define k where "k = width_arg w - int (length sn) - int (length ds)"
  have k: "- 200 \<le> k" "k \<le> 1000" using w d by (auto simp: k_def width_arg_def)
  have nk: "nat k = w - length sn - length ds" by (auto simp: k_def width_arg_def)
  show ?thesis
  proof (cases z)
    case True
    then show ?thesis
      using k nk by (simp add: number_def f' s d l Let_def sub32_def k_def [symmetric] pad_size_eq pad_num_def)
  next
    case False
    then show ?thesis
      using k nk by (simp add: number_def f' s d l Let_def sub32_def k_def [symmetric] pad_size_eq pad_num_def)
  qed
qed

section \<open>The numbers of \<open>vsprintf-xint.c\<close>\<close>

lemma length_numeral_of [simp]: "length (numeral_of b n) = length (rdigits b n)"
  by (simp add: numeral_of_def)

lemma numeral_of_not_Nil [simp]: "numeral_of b n \<noteq> []"
  by (simp add: numeral_of_def)

lemma aget_hex: "d < 16 \<Longrightarrow> aget hex_asc (int d) = Some (dchar d)"
  by (simp add: aget_def hex_asc_def dchar_def)

lemma xint_digits_zero: "xint_digits i 0 b tmp = Some tmp"
  by (cases i) simp_all

lemma xint_digits_eq:
  assumes "0 < n" "2 \<le> b" "b \<le> 16"
  shows "length (rdigits b n) \<le> i \<Longrightarrow> i + length tmp \<le> 16 \<Longrightarrow>
    xint_digits i n b tmp = Some (numeral_of b n @ tmp)"
  using assms
proof (induction i n b tmp rule: xint_digits.induct)
  case (2 i n b tmp)
  have g: "aget hex_asc (int (n mod b)) = Some (dchar (n mod b))"
    using 2 by (intro aget_hex) (meson less_le_trans mod_less_divisor zero_less_numeral order_less_le_trans)
  have p: "tmp_push (dchar (n mod b)) tmp = Some (dchar (n mod b) # tmp)"
    using 2 by (simp add: tmp_push_def)
  show ?case
  proof (cases "n < b")
    case True
    then show ?thesis
      using 2 g p by (simp add: xint_digits_zero numeral_of_def rdigits_small)
  next
    case False
    then have "xint_digits i (n div b) b (dchar (n mod b) # tmp) =
        Some (numeral_of b (n div b) @ dchar (n mod b) # tmp)"
      using 2 g p by (intro "2.IH") (simp_all add: rdigits_big div_greater_zero_iff)
    then show ?thesis using 2 g p False by (simp add: numeral_of_def rdigits_big zmod_int)
  qed
qed simp

lemma xint_pad_eq:
  "w \<le> 16 \<Longrightarrow> nat w \<le> n + length tmp \<Longrightarrow>
    xint_pad n lead w tmp = Some (replicate (nat w - length tmp) lead @ tmp)"
proof (induction n arbitrary: tmp)
  case (Suc n)
  show ?case
  proof (cases "int (length tmp) < w")
    case True
    then have "nat w - length tmp = Suc (nat w - length (lead # tmp))" by simp
    moreover have "replicate k lead @ lead # tmp = lead # replicate k lead @ tmp" for k
      by (simp add: replicate_app_Cons_same)
    ultimately show ?thesis using Suc True by (simp add: tmp_push_def)
  qed simp
qed simp

definition lead_char :: "bool \<Rightarrow> char" where
  "lead_char z = (if z then CHR ''0'' else CHR '' '')"

lemma xint_first:
  assumes "nat base = 10 \<or> nat base = 16"
  obtains t where "xint_digits 16 (unat (v :: u32)) (nat base) [] = Some t"
    "(if t = [] then tmp_push (CHR ''0'') t else Some t) = Some (numeral_of (nat base) (unat v))"
    "1 \<le> length (rdigits (nat base) (unat v))" "length (rdigits (nat base) (unat v)) \<le> 10"
proof -
  have l: "length (rdigits (nat base) (unat v)) \<le> 10" "1 \<le> length (rdigits (nat base) (unat v))"
    using assms rdigits_32 [of v] by (auto simp: Suc_le_eq)
  have b: "2 \<le> nat base" "nat base \<le> 16" using assms by auto
  show thesis
  proof (cases "unat v = 0")
    case True
    then show thesis
      using b by (intro that [of "[]"] l)
        (simp_all add: xint_digits_zero tmp_push_def numeral_of_def rdigits_small dchar_def hex_asc_def)
  next
    case False
    then show thesis
      using b l xint_digits_eq [of "unat v" "nat base" 16 "[]"]
      by (intro that [of "numeral_of (nat base) (unat v)"] l) simp_all
  qed
qed

lemma base_u32: "base = 10 \<or> base = 16 \<Longrightarrow> unat (to_u32 base) = nat base"
  by (auto simp: to_u32_def)

lemma xint_number_pos:
  assumes b: "(base = 10 \<and> 0 \<le> sint v) \<or> base = 16" and w: "w \<le> 9"
  shows "xint_number v base (lead_char z) (max 1 (int w)) = Some (pad_num z w [] (numeral_of (nat base) (unat v)))"
proof -
  have ng: "(sint v < 0 \<and> base = 10) = False" using b by auto
  have bs: "unat (to_u32 base) = nat base" using b by (intro base_u32) auto
  have b': "nat base = 10 \<or> nat base = 16" using b by auto
  obtain t where t: "xint_digits 16 (unat v) (nat base) [] = Some t"
    "(if t = [] then tmp_push (CHR ''0'') t else Some t) = Some (numeral_of (nat base) (unat v))"
    "1 \<le> length (rdigits (nat base) (unat v))" "length (rdigits (nat base) (unat v)) \<le> 10"
    by (rule xint_first [OF b'])
  have p: "xint_pad (nat (max 1 (int w))) (lead_char z) (max 1 (int w)) (numeral_of (nat base) (unat v)) =
      Some (replicate (w - length (rdigits (nat base) (unat v))) (lead_char z) @ numeral_of (nat base) (unat v))"
    using w t(3,4) by (subst xint_pad_eq) (auto simp: max_def)
  show ?thesis
    unfolding xint_number_def Let_def ng bs if_False
    by (simp add: t(1,2) p) (simp add: pad_num_def lead_char_def)
qed

lemma xint_number_neg:
  assumes v: "sint v < 0" and w: "w \<le> 9"
  shows "xint_number v 10 (lead_char z) (max 1 (int w)) = Some (pad_num z w ''-'' (numeral_of 10 (unat (- v))))"
proof -
  have ng: "(sint v < 0 \<and> (10 :: int) = 10) = True" using v by auto
  have bs: "unat (to_u32 10) = 10" by (simp add: to_u32_def)
  define ds where "ds = numeral_of 10 (unat (- v))"
  obtain t where t0: "xint_digits 16 (unat (- v)) (nat 10) [] = Some t"
    "(if t = [] then tmp_push (CHR ''0'') t else Some t) = Some (numeral_of (nat 10) (unat (- v)))"
    "1 \<le> length (rdigits (nat 10) (unat (- v)))" "length (rdigits (nat 10) (unat (- v))) \<le> 10"
    by (rule xint_first [of 10]) simp
  then have t: "xint_digits 16 (unat (- v)) 10 [] = Some t"
    "(if t = [] then tmp_push (CHR ''0'') t else Some t) = Some ds" "1 \<le> length ds" "length ds \<le> 10"
    by (simp_all add: ds_def)
  show ?thesis
  proof (cases z)
    case False
    have p: "xint_pad (nat (max 1 (int w))) (CHR '' '') (max 1 (int w)) (CHR ''-'' # ds) =
        Some (replicate (w - 1 - length ds) (CHR '' '') @ CHR ''-'' # ds)"
      using w t(3,4) by (subst xint_pad_eq) (auto simp: max_def)
    have "tmp_push (CHR ''-'') ds = Some (CHR ''-'' # ds)" using t(4) by (simp add: tmp_push_def)
    then show ?thesis
      unfolding xint_number_def Let_def ng bs if_True
      using False by (simp add: t(1,2) p lead_char_def) (simp add: pad_num_def ds_def)
  next
    case True
    have p: "xint_pad (nat (max 1 (int w) - 1)) (CHR ''0'') (max 1 (int w) - 1) ds =
        Some (replicate (w - 1 - length ds) (CHR ''0'') @ ds)"
      using w t(3,4) by (subst xint_pad_eq) (auto simp: max_def nat_diff_distrib)
    have "tmp_push (CHR ''-'') (replicate (w - 1 - length ds) (CHR ''0'') @ ds) =
        Some (CHR ''-'' # replicate (w - 1 - length ds) (CHR ''0'') @ ds)"
      using t(4) w by (simp add: tmp_push_def)
    then show ?thesis
      unfolding xint_number_def Let_def ng bs if_True
      using True by (simp add: t(1,2) p lead_char_def) (simp add: pad_num_def ds_def)
  qed
qed

section \<open>The reference for a format\<close>

text \<open>
  A format as the list of its items: literal characters, \<open>%%\<close>, \<open>%c\<close>, \<open>%s\<close>, and the integer
  conversions with an optional zero flag and a width of one digit. \<open>item_out\<close> is what an item
  stands for, \<open>item_txt\<close> how it is written and \<open>item_args\<close> what it takes from the arguments.
\<close>

datatype pf_item = P_lit char | P_percent | P_char u32 | P_str string
  | P_dec bool nat u32 | P_uns bool nat u32 | P_hex bool nat u32

definition width_txt :: "bool \<Rightarrow> nat \<Rightarrow> string" where
  "width_txt z w = (if z then ''0'' else []) @ (if w = 0 then [] else [dchar w])"

primrec item_txt :: "pf_item \<Rightarrow> string" where
  "item_txt (P_lit c) = [c]"
| "item_txt P_percent = ''%%''"
| "item_txt (P_char v) = ''%c''"
| "item_txt (P_str s) = ''%s''"
| "item_txt (P_dec z w v) = ''%'' @ width_txt z w @ ''d''"
| "item_txt (P_uns z w v) = ''%'' @ width_txt z w @ ''u''"
| "item_txt (P_hex z w v) = ''%'' @ width_txt z w @ ''x''"

primrec item_args :: "pf_item \<Rightarrow> pf_arg list" where
  "item_args (P_lit c) = []"
| "item_args P_percent = []"
| "item_args (P_char v) = [A_int v]"
| "item_args (P_str s) = [A_str (Some s)]"
| "item_args (P_dec z w v) = [A_int v]"
| "item_args (P_uns z w v) = [A_int v]"
| "item_args (P_hex z w v) = [A_int v]"

definition dec_sign :: "u32 \<Rightarrow> string" where
  "dec_sign v = (if sint v < 0 then ''-'' else [])"

definition dec_abs :: "u32 \<Rightarrow> string" where
  "dec_abs v = numeral_of 10 (nat \<bar>sint v\<bar>)"

primrec item_out :: "pf_item \<Rightarrow> string" where
  "item_out (P_lit c) = [c]"
| "item_out P_percent = ''%''"
| "item_out (P_char v) = [byte_char v]"
| "item_out (P_str s) = s"
| "item_out (P_dec z w v) = pad_num z w (dec_sign v) (dec_abs v)"
| "item_out (P_uns z w v) = pad_num z w [] (numeral_of 10 (unat v))"
| "item_out (P_hex z w v) = pad_num z w [] (numeral_of 16 (unat v))"

primrec item_ok :: "pf_item \<Rightarrow> bool" where
  "item_ok (P_lit c) \<longleftrightarrow> \<not> is_percent c"
| "item_ok P_percent \<longleftrightarrow> True"
| "item_ok (P_char v) \<longleftrightarrow> True"
| "item_ok (P_str s) \<longleftrightarrow> True"
| "item_ok (P_dec z w v) \<longleftrightarrow> w \<le> 9"
| "item_ok (P_uns z w v) \<longleftrightarrow> w \<le> 9 \<and> 0 \<le> sint v"
| "item_ok (P_hex z w v) \<longleftrightarrow> w \<le> 9"

text \<open>Without the bound: what \<open>vsprintf-xint.c\<close> prints for \<open>%u\<close> is the signed number.\<close>

primrec item_wf :: "pf_item \<Rightarrow> bool" where
  "item_wf (P_lit c) \<longleftrightarrow> \<not> is_percent c"
| "item_wf P_percent \<longleftrightarrow> True"
| "item_wf (P_char v) \<longleftrightarrow> True"
| "item_wf (P_str s) \<longleftrightarrow> True"
| "item_wf (P_dec z w v) \<longleftrightarrow> w \<le> 9"
| "item_wf (P_uns z w v) \<longleftrightarrow> w \<le> 9"
| "item_wf (P_hex z w v) \<longleftrightarrow> w \<le> 9"

definition item_signed :: "pf_item \<Rightarrow> string" where
  "item_signed it = (case it of P_uns z w v \<Rightarrow> item_out (P_dec z w v) | _ \<Rightarrow> item_out it)"

lemma item_ok_wf: "item_ok it \<Longrightarrow> item_wf it"
  by (cases it) simp_all

lemma sint_s32: "sint (v :: u32) = s32 (uint v)"
  by (simp add: sint_uint s32_def)

lemma sint_cases:
  "uint (v :: u32) < 2147483648 \<Longrightarrow> sint v = uint v"
  "2147483648 \<le> uint (v :: u32) \<Longrightarrow> sint v = uint v - 4294967296"
proof -
  have u: "0 \<le> uint v" "uint v < 4294967296" using unsigned_less [of v, where 'a = int] by simp_all
  show "sint v = uint v" if "uint v < 2147483648"
    using that u unfolding sint_s32 by (intro s32_small) linarith+
  show "sint v = uint v - 4294967296" if "2147483648 \<le> uint v"
  proof -
    have "(uint v + 2147483648) mod 4294967296 = (uint v - 2147483648 + 4294967296) mod 4294967296"
      by (simp add: algebra_simps)
    also have "\<dots> = uint v - 2147483648"
      unfolding mod_add_self2 using that u by (intro mod_pos_pos_trivial) linarith+
    finally show ?thesis unfolding sint_s32 s32_eq by linarith
  qed
qed

lemma sint_abs:
  "0 \<le> sint (v :: u32) \<Longrightarrow> nat \<bar>sint v\<bar> = unat v"
  "sint (v :: u32) < 0 \<Longrightarrow> nat \<bar>sint v\<bar> = unat (- v)"
proof -
  have u: "0 \<le> uint v" "uint v < 4294967296" using unsigned_less [of v, where 'a = int] by simp_all
  show "nat \<bar>sint v\<bar> = unat v" if "0 \<le> sint v"
    using that u sint_cases [of v] by (cases "uint v < 2147483648") simp_all
  show "nat \<bar>sint v\<bar> = unat (- v)" if "sint v < 0"
  proof -
    have s: "sint v = uint v - 4294967296"
      using that u sint_cases [of v] by (cases "uint v < 2147483648") simp_all
    moreover have "uint (- v) = (- uint v) mod 4294967296"
      by (simp add: uint_word_ariths)
    moreover have "(- uint v + 4294967296) mod 4294967296 = - uint v + 4294967296"
      using that s u sint_cases(1) [of v] by (intro mod_pos_pos_trivial) linarith+
    then have "(- uint v) mod 4294967296 = - uint v + 4294967296" by (simp only: mod_add_self2)
    ultimately have "nat \<bar>sint v\<bar> = nat (uint (- v))" using u by simp
    then show ?thesis by simp
  qed
qed

definition digit_ok :: "nat \<Rightarrow> bool" where
  "digit_ok w \<longleftrightarrow> is_digit (dchar w) \<and> list_all (\<lambda>c. dchar w \<noteq> c) ''-+ #0*%csndiuoxXp.'' \<and>
    (of_char (dchar w) :: nat) = w + 48 \<and> CHR ''1'' \<le> dchar w \<and> dchar w \<le> CHR ''9''"

lemma digit_ok: "1 \<le> w \<Longrightarrow> w \<le> 9 \<Longrightarrow> digit_ok w"
proof -
  have "list_all digit_ok [1, 2, 3, 4, 5, 6, 7, 8, 9]" by code_simp
  moreover assume "1 \<le> w" "w \<le> 9"
  then have "w \<in> set [1, 2, 3, 4, 5, 6, 7, 8, 9]" by auto
  ultimately show ?thesis unfolding list_all_iff by blast
qed

definition conv_ok :: "char \<Rightarrow> bool" where
  "conv_ok c \<longleftrightarrow> \<not> is_digit c \<and> list_all (\<lambda>d. c \<noteq> d) ''-+ #0*%csn.hlLZzt''"

lemma conv_ok: "conv_ok (CHR ''d'')" "conv_ok (CHR ''u'')" "conv_ok (CHR ''x'')"
  by code_simp+

lemma parse_plain:
  assumes w: "w \<le> 9" and c: "conv_ok c"
  shows "directive n (width_txt z w @ c # rest) args =
    convert n (no_flags\<lparr>ZEROPAD := z\<rparr>) (width_arg w) (- 1) None (c # rest) args"
proof -
  define ds where "ds = (if w = 0 then [] else [dchar w])"
  have f: "parse_flags (width_txt z w @ c # rest) no_flags = (no_flags\<lparr>ZEROPAD := z\<rparr>, ds @ c # rest)"
    using digit_ok [of w] w c by (auto simp: width_txt_def ds_def digit_ok_def conv_ok_def no_flags_def)
  have p: "parse_width (ds @ c # rest) g args = Some (width_arg w, c # rest, g, args)" for g
    using digit_ok [of w] w c
    by (auto simp: ds_def parse_width_def digit_ok_def conv_ok_def width_arg_def cur_def c_arith)
  have q: "parse_precision (c # rest) args = Some (- 1, c # rest, args)" "parse_qualifier (c # rest) = (None, c # rest)"
    using c by (simp_all add: parse_precision_def parse_qualifier_def cur_def conv_ok_def)
  show ?thesis by (simp add: directive_def f p q)
qed

text \<open>What each implementation does with one item.\<close>

lemma dec_sign_abs:
  "sint v < 0 \<Longrightarrow> dec_sign v = ''-'' \<and> dec_abs v = numeral_of 10 (unat (- v))"
  "0 \<le> sint v \<Longrightarrow> dec_sign v = [] \<and> dec_abs v = numeral_of 10 (unat v)"
  unfolding dec_sign_def dec_abs_def by (metis sint_abs linorder_not_less)+

lemma full_number:
  assumes w: "w \<le> 9"
  shows "number v 10 (width_arg w) (- 1) (no_flags\<lparr>ZEROPAD := z, SIGN := True\<rparr>) =
      pad_num z w (dec_sign v) (dec_abs v)" (is ?d)
    and "number v 10 (width_arg w) (- 1) (no_flags\<lparr>ZEROPAD := z\<rparr>) =
      pad_num z w [] (numeral_of 10 (unat v))"
    and "number v 16 (width_arg w) (- 1) (no_flags\<lparr>ZEROPAD := z, SMALL := True\<rparr>) =
      pad_num z w [] (numeral_of 16 (unat v))"
proof -
  have w': "w < 1000" using w by simp
  have l: "length (numeral_of 10 (unat x)) \<le> 100" "length (numeral_of 16 (unat x)) \<le> 100" for x :: u32
    using rdigits_32 [of x] by auto
  show ?d
  proof (cases "sint v < 0")
    case True
    then show ?thesis
      using l w' by (intro number_plain [where low = False and sg = True]) (simp_all add: num_sign_def no_flags_def dec_sign_abs
        num_digits_rev width_arg_def c_arith)
  next
    case False
    then show ?thesis
      using l w' by (intro number_plain [where low = False and sg = True]) (simp_all add: num_sign_def no_flags_def dec_sign_abs
        num_digits_rev width_arg_def c_arith)
  qed
  show "number v 10 (width_arg w) (- 1) (no_flags\<lparr>ZEROPAD := z\<rparr>) =
      pad_num z w [] (numeral_of 10 (unat v))"
    using l w' by (intro number_plain [where low = False and sg = False]) (simp_all add: num_sign_def no_flags_def num_digits_rev)
  show "number v 16 (width_arg w) (- 1) (no_flags\<lparr>ZEROPAD := z, SMALL := True\<rparr>) =
      pad_num z w [] (numeral_of 16 (unat v))"
    using l w' by (intro number_plain [where low = True and sg = False]) (simp_all add: num_sign_def no_flags_def num_digits_rev)
qed

lemma flags_same:
  "SMALL no_flags = False" "SIGN no_flags = False"
  "no_flags\<lparr>ZEROPAD := z, SMALL := False\<rparr> = no_flags\<lparr>ZEROPAD := z\<rparr>"
  "no_flags\<lparr>ZEROPAD := z, SMALL := sm, SIGN := False\<rparr> = no_flags\<lparr>ZEROPAD := z, SMALL := sm\<rparr>"
  "no_flags\<lparr>ZEROPAD := z, SIGN := False\<rparr> = no_flags\<lparr>ZEROPAD := z\<rparr>"
  "no_flags\<lparr>ZEROPAD := z, SMALL := False, SIGN := sg\<rparr> = no_flags\<lparr>ZEROPAD := z, SIGN := sg\<rparr>"
  by (simp_all add: no_flags_def)

lemma directive_int:
  assumes "w \<le> 9"
  shows "directive n (width_txt z w @ CHR ''d'' # rest) (A_int v # as) =
      Some (pad_num z w (dec_sign v) (dec_abs v), rest, as, [])"
    and "directive n (width_txt z w @ CHR ''u'' # rest) (A_int v # as) =
      Some (pad_num z w [] (numeral_of 10 (unat v)), rest, as, [])"
    and "directive n (width_txt z w @ CHR ''x'' # rest) (A_int v # as) =
      Some (pad_num z w [] (numeral_of 16 (unat v)), rest, as, [])"
  by (simp_all add: parse_plain [OF assms conv_ok(1)] parse_plain [OF assms conv_ok(2)]
      parse_plain [OF assms conv_ok(3)] convert_def full_switch_def conv_int_def va_int_def int_arg_def
      full_number [OF assms] flags_same)

lemma directive_other:
  "directive n (CHR ''%'' # rest) args = Some (''%'', rest, args, [])"
  "directive n (CHR ''c'' # rest) (A_int v # as) = Some ([byte_char v], rest, as, [])"
  "directive n (CHR ''s'' # rest) (A_str (Some s) # as) = Some (s, rest, as, [])"
  by (simp_all add: directive_def parse_width_def parse_precision_def parse_qualifier_def cur_def is_digit_def
      less_eq_char_def convert_def full_switch_def conv_char_def va_int_def va_str_def pf_string_def
      pad_width_def no_flags_def c_arith Let_def)

lemma xint_spec_txt:
  assumes "w \<le> 9"
  shows "xint_fmt (width_txt z w @ c # rest) (Some (10, CHR '' '', 1)) args out =
    xint_fmt (c # rest) (Some (10, lead_char z, max 1 (int w))) args out"
proof (cases "w = 0")
  case True
  then show ?thesis
    by (cases z) (simp_all add: width_txt_def lead_char_def xint_switch_def xint_more_def)
next
  case False
  then have d: "digit_ok w" using digit_ok [of w] assms by simp
  have sw: "xint_switch (dchar w) = SW_more" "xint_more (dchar w) (10, l, x) = (10, l, max 1 (int w))" for l x
    using d False by (simp_all add: digit_ok_def xint_switch_def xint_more_def)
  have z0: "xint_switch (CHR ''0'') = SW_more" "xint_more (CHR ''0'') (10, l, x) = (10, CHR ''0'', x)" for l x
    by (simp_all add: xint_switch_def xint_more_def)
  show ?thesis
    using False by (cases z) (simp_all add: width_txt_def lead_char_def sw z0)
qed

lemma xint_int:
  assumes "w \<le> 9"
  shows "xint_fmt (width_txt z w @ CHR ''d'' # rest) (Some (10, CHR '' '', 1)) (A_int v # as) out =
      xint_fmt rest None as (out @ pad_num z w (dec_sign v) (dec_abs v))"
    and "xint_fmt (width_txt z w @ CHR ''u'' # rest) (Some (10, CHR '' '', 1)) (A_int v # as) out =
      xint_fmt rest None as (out @ pad_num z w (dec_sign v) (dec_abs v))"
    and "xint_fmt (width_txt z w @ CHR ''x'' # rest) (Some (10, CHR '' '', 1)) (A_int v # as) out =
      xint_fmt rest None as (out @ pad_num z w [] (numeral_of 16 (unat v)))"
proof -
  have n: "xint_number v 10 (lead_char z) (max 1 (int w)) = Some (pad_num z w (dec_sign v) (dec_abs v))"
    using xint_number_neg [of v w z] xint_number_pos [of 10 v w z] assms dec_sign_abs [of v]
    by (cases "sint v < 0") (simp_all del: max.absorb1)
  note sw = xint_spec_txt [OF assms] xint_switch_def xint_base_def va_int_def
  show "xint_fmt (width_txt z w @ CHR ''d'' # rest) (Some (10, CHR '' '', 1)) (A_int v # as) out =
      xint_fmt rest None as (out @ pad_num z w (dec_sign v) (dec_abs v))"
    by (simp add: sw n)
  show "xint_fmt (width_txt z w @ CHR ''u'' # rest) (Some (10, CHR '' '', 1)) (A_int v # as) out =
      xint_fmt rest None as (out @ pad_num z w (dec_sign v) (dec_abs v))"
    by (simp add: sw n)
  show "xint_fmt (width_txt z w @ CHR ''x'' # rest) (Some (10, CHR '' '', 1)) (A_int v # as) out =
      xint_fmt rest None as (out @ pad_num z w [] (numeral_of 16 (unat v)))"
    using xint_number_pos [of 16 v w z] assms by (simp add: sw)
qed

lemma xint_item:
  assumes "item_wf it"
  shows "xint_fmt (item_txt it @ rest) None (item_args it @ as) out = xint_fmt rest None as (out @ item_signed it)"
  using assms
  by (cases it) (simp_all add: item_signed_def xint_int is_percent_def xint_switch_def va_int_def va_str_def)

lemma item_signed: "item_ok it \<Longrightarrow> item_signed it = item_out it"
  using dec_sign_abs(2) by (cases it) (simp_all add: item_signed_def)

lemma full_item:
  assumes "item_wf it"
  shows "full_fmt (item_txt it @ rest) (item_args it @ as) out st = full_fmt rest as (out @ item_out it) st"
  using assms
  by (cases it) (simp_all add: directive_int directive_other is_percent_def)

lemma xint_items_signed:
  assumes "list_all item_wf items"
  shows "xint_vsprintf (concat (map item_txt items)) (concat (map item_args items)) =
    Some (concat (map item_signed items), int (length (concat (map item_signed items))))"
proof -
  have "xint_fmt (concat (map item_txt items)) None (concat (map item_args items)) out =
      Some (out @ concat (map item_signed items))" for out
    using assms by (induction items arbitrary: out) (simp_all add: xint_item)
  then show ?thesis by (simp add: xint_vsprintf_def)
qed

lemma items_signed: "list_all item_ok items \<Longrightarrow> list_all item_wf items \<and> map item_signed items = map item_out items"
  by (induction items) (simp_all add: item_ok_wf item_signed)

lemma xint_items:
  assumes "list_all item_ok items"
  shows "xint_vsprintf (concat (map item_txt items)) (concat (map item_args items)) =
    Some (concat (map item_out items), int (length (concat (map item_out items))))"
  using xint_items_signed [of items] items_signed [OF assms] by simp

lemma full_items:
  assumes "list_all item_wf items"
  shows "full_vsprintf (concat (map item_txt items)) (concat (map item_args items)) =
    Some (concat (map item_out items), int (length (concat (map item_out items))), [])"
proof -
  have "full_fmt (concat (map item_txt items)) (concat (map item_args items)) out st =
      Some (out @ concat (map item_out items), st)" for out st
    using assms by (induction items arbitrary: out) (simp_all add: full_item)
  then show ?thesis by (simp add: full_vsprintf_def)
qed

text \<open>
  C18. Both implementations of the formatter print what the format stands for, with one difference: for every format made of
  literal text, \<open>%%\<close>, \<open>%c\<close>, \<open>%s\<close> of a string, \<open>%d\<close>, \<open>%u\<close> and \<open>%x\<close> with a zero flag and a width of one digit,
  \<open>vsprintf-full.c\<close> returns the concatenation of the reference outputs of the items and its length, and
  \<open>vsprintf-xint.c\<close>, which the shipped configurations build, the same with \<open>%u\<close> read as \<open>%d\<close>. So the
  two agree if the arguments of \<open>%u\<close> are below 2^31; larger ones \<open>vsprintf-xint.c\<close> prints as negative numbers.
\<close>

theorem formats_agree:
  assumes "list_all item_wf items"
  shows "full_vsprintf (concat (map item_txt items)) (concat (map item_args items)) =
      Some (concat (map item_out items), int (length (concat (map item_out items))), []) \<and>
    xint_vsprintf (concat (map item_txt items)) (concat (map item_args items)) =
      Some (concat (map item_signed items), int (length (concat (map item_signed items)))) \<and>
    (list_all item_ok items \<longrightarrow> map item_signed items = map item_out items)"
  using xint_items_signed [OF assms] full_items [OF assms] items_signed [of items] by blast

theorem formats_agree_witness:
  "xint_vsprintf ''t=%05d%%'' [A_int (- 42)] = Some (''t=-0042%'', 8) \<and>
   full_vsprintf ''t=%05d%%'' [A_int (- 42)] = Some (''t=-0042%'', 8, [])"
proof -
  define items where "items = [P_lit (CHR ''t''), P_lit (CHR ''=''), P_dec True 5 (- 42), P_percent]"
  have ok: "list_all item_wf items" "list_all item_ok items" by (simp_all add: items_def is_percent_def)
  have "concat (map item_out items) = ''t=-0042%''" unfolding items_def by code_simp
  moreover have "concat (map item_txt items) = ''t=%05d%%''" unfolding items_def by code_simp
  moreover have "concat (map item_args items) = [A_int (- 42)]" unfolding items_def by simp
  ultimately show ?thesis using formats_agree [OF ok(1)] ok(2) items_signed [OF ok(2)] by (simp del: map_eq_conv)
qed

text \<open>The difference: an unsigned number above 2^31 is printed as a negative one.\<close>

lemma xint_unsigned_negative:
  "xint_vsprintf ''%u'' [A_int 3000000000] = Some (''-1294967296'', 11) \<and>
   full_vsprintf ''%u'' [A_int 3000000000] = Some (''3000000000'', 10, [])"
proof -
  have d: "numeral_of 10 1294967296 = ''1294967296''" "numeral_of 10 3000000000 = ''3000000000''"
    by (simp_all add: numeral_of_def rdigits_small rdigits_big dchar_def hex_asc_def)
  have "sint (3000000000 :: u32) < 0" by simp
  then have "xint_number 3000000000 10 (lead_char False) (max 1 (int 0)) = Some ''-1294967296''"
    by (subst xint_number_neg) (simp_all add: d pad_num_def)
  then have "xint_fmt ''%u'' None [A_int 3000000000] [] = Some ''-1294967296''"
    by (simp add: is_percent_def xint_switch_def xint_base_def va_int_def lead_char_def)
  moreover have "full_fmt ''%u'' [A_int 3000000000] [] [] = Some (''3000000000'', [])"
    using directive_int(2) [of 0 0 False "[]" 3000000000 "[]"]
    by (simp add: is_percent_def width_txt_def pad_num_def d)
  ultimately show ?thesis by (simp add: xint_vsprintf_def full_vsprintf_def)
qed

section \<open>Reading a number back\<close>

lemma dchar_digit: "d < 10 \<Longrightarrow> is_digit (dchar d) \<and> dchar d \<noteq> CHR ''-'' \<and> (of_char (dchar d) :: nat) = d + 48"
  using digit_ok [of d] by (cases "d = 0") (simp_all add: digit_ok_def dchar_def hex_asc_def is_digit_def less_eq_char_def)

lemma atoi_digits_eq:
  "list_all (\<lambda>d. d < 10) ds \<Longrightarrow>
    atoi_digits (s32 a) (map dchar ds) = s32 (foldl (\<lambda>a d. a * 10 + int d) a ds)"
proof (induction ds arbitrary: a)
  case (Cons d ds)
  have d: "is_digit (dchar d)" "(of_char (dchar d) :: nat) = d + 48" using Cons.prems dchar_digit [of d] by auto
  have "sub32 (add32 (mul32 (s32 a) 10) (int (of_char (dchar d)))) 48 = s32 (a * 10 + int d)"
    by (simp add: c_arith d(2))
  then show ?case using Cons d by simp
qed simp

lemma foldl_zeros: "foldl (\<lambda>a d. a * 10 + int d) 0 (replicate k 0 @ ds) = foldl (\<lambda>a d. a * 10 + int d) 0 ds"
  by (induction k) simp_all

lemma foldl_rdigits: "foldl (\<lambda>a d. a * 10 + int d) 0 (rev (rdigits 10 n)) = int n"
proof (induction n rule: less_induct)
  case (less n)
  show ?case
  proof (cases "n < 10")
    case False
    then have "foldl (\<lambda>a d. a * 10 + int d) 0 (rev (rdigits 10 (n div 10))) = int (n div 10)"
      by (intro less.IH) simp
    moreover have "int (n div 10) * 10 + int (n mod 10) = int n"
      by (simp add: zdiv_int zmod_int)
    ultimately show ?thesis using False by (simp add: rdigits_big)
  qed (simp add: rdigits_small)
qed

lemma atoi_numeral: "atoi_digits 0 (replicate k (CHR ''0'') @ numeral_of 10 n) = s32 (int n)"
proof -
  have "replicate k (CHR ''0'') @ numeral_of 10 n = map dchar (replicate k 0 @ rev (rdigits 10 n))"
    by (simp add: numeral_of_def rev_map dchar_def hex_asc_def)
  moreover have "list_all (\<lambda>d. d < 10) (replicate k 0 @ rev (rdigits 10 n))"
    using rdigits_less [of 10 n] by (auto simp: list_all_iff)
  ultimately show ?thesis
    using atoi_digits_eq [of "replicate k 0 @ rev (rdigits 10 n)" 0] foldl_zeros [of k "rev (rdigits 10 n)"]
    by (simp only: foldl_rdigits) simp
qed

lemma numeral_first: "\<exists>c cs. numeral_of 10 n = c # cs \<and> c \<noteq> CHR ''-''"
proof -
  obtain d ds where d: "rev (rdigits 10 n) = d # ds" by (cases "rev (rdigits 10 n)") auto
  then have "d \<in> set (rdigits 10 n)" by (metis list.set_intros(1) set_rev)
  then have "d < 10" using rdigits_less [of 10 n] by (simp add: list_all_iff)
  then show ?thesis using d dchar_digit [of d] by (simp add: numeral_of_def rev_map)
qed

lemma atoi_pos: "atoi (replicate k (CHR ''0'') @ numeral_of 10 n) = s32 (int n)"
proof -
  obtain c cs where c: "replicate k (CHR ''0'') @ numeral_of 10 n = c # cs" "c \<noteq> CHR ''-''"
    using numeral_first [of n] by (cases k) auto
  have "atoi (c # cs) = mul32 (atoi_digits 0 (c # cs)) 1" using c(2) by (simp add: atoi_def)
  then show ?thesis using atoi_numeral [of k n] c(1) by (simp add: mul32_def)
qed

lemma atoi_neg: "atoi (CHR ''-'' # replicate k (CHR ''0'') @ numeral_of 10 n) = s32 (- int n)"
  using atoi_numeral [of k n] by (simp add: atoi_def mul32_def)

lemma atoi_item:
  assumes "z \<or> w = 0"
  shows "atoi (item_out (P_dec z w v)) = sint v"
proof -
  have r: "in32 (sint v)" by (simp add: sint_s32)
  have "item_out (P_dec z w v) = dec_sign v @ replicate (w - length (dec_sign v) - length (dec_abs v)) (CHR ''0'') @ dec_abs v"
    using assms by (auto simp: pad_num_def)
  then show ?thesis
    using r by (cases "sint v < 0") (simp_all add: dec_sign_def dec_abs_def atoi_pos atoi_neg s32_id)
qed

text \<open>
  C19. \<open>atoi\<close> reads back every \<open>int\<close> that the formatter prints with \<open>%d\<close>, also with leading zeros: for
  all 2^32 values, the most negative one included.
\<close>

theorem atoi_reads_back:
  assumes "w \<le> 9" "z \<or> w = 0"
  shows "\<exists>s. xint_vsprintf (''%'' @ width_txt z w @ ''d'') [A_int v] = Some (s, int (length s)) \<and> atoi s = sint v"
  using xint_items [of "[P_dec z w v]"] atoi_item [OF assms(2)] assms(1) by simp

theorem atoi_reads_back_witness:
  "\<exists>s. xint_vsprintf ''%04d'' [A_int (- 2147483648)] = Some (s, int (length s)) \<and> atoi s = - 2147483648"
  using atoi_reads_back [of 4 True "- 2147483648"] by (simp add: width_txt_def dchar_def hex_asc_def)

text \<open>
  C20. The decimal conversion without a division is right: for every number, also above 100000 and above
  32 bits, \<open>put_dec\<close> with its multiplications by 0xcd and 0xd produces exactly the digits of the number,
  the least significant one first, without leading zeros.
\<close>

theorem put_dec_exact: "rev (put_dec n) = numeral_of 10 n"
  by (simp only: put_dec_digits numeral_of_def)

end
