(* ===== verification/Util.thy ===== *)
theory Util
  imports Printf_Props
begin

text \<open>
  \<open>lib/util.c\<close>: the text form of a time in seconds since 1970, with the calendar arithmetic of
  \<open>format_time\<close>. \<open>unsigned long\<close> has 32 bits, so the 64-bit argument is reduced modulo \<open>2 ^ 32\<close>.
\<close>

section \<open>The code\<close>

definition SECS_DAY :: nat where "SECS_DAY = 24 * 60 * 60"

definition LEAPYEAR :: "nat \<Rightarrow> bool" where
  "LEAPYEAR year \<longleftrightarrow> year mod 4 = 0 \<and> (year mod 100 \<noteq> 0 \<or> year mod 400 = 0)"

definition YEARSIZE :: "nat \<Rightarrow> nat" where
  "YEARSIZE year = (if LEAPYEAR year then 366 else 365)"

definition days_tab :: "string list" where
  "days_tab = [''Sun'', ''Mon'', ''Tue'', ''Wed'', ''Thu'', ''Fri'', ''Sat'']"

definition months_tab :: "string list" where
  "months_tab = [''Jan'', ''Feb'', ''Mar'', ''Apr'', ''May'', ''Jun'', ''Jul'', ''Aug'', ''Sep'', ''Oct'', ''Nov'', ''Dec'']"

definition ytab :: "bool \<Rightarrow> nat list" where
  "ytab leap = (if leap then [31, 29, 31, 30, 31, 30, 31, 31, 30, 31, 30, 31]
                else [31, 28, 31, 30, 31, 30, 31, 31, 30, 31, 30, 31])"

record tm =
  tm_sec :: nat
  tm_min :: nat
  tm_hour :: nat
  tm_mday :: nat
  tm_mon :: nat
  tm_year :: int
  tm_wday :: nat
  tm_yday :: nat
  tm_isdst :: int

text \<open>The two loops; the result is the rest of the days with the year, or the month.\<close>

function year_loop :: "nat \<Rightarrow> nat \<Rightarrow> nat \<times> nat" where
  "year_loop dayno year =
     (if YEARSIZE year \<le> dayno then year_loop (dayno - YEARSIZE year) (year + 1) else (dayno, year))"
  by auto
termination by (relation "measure fst") (auto simp: YEARSIZE_def)

function month_loop :: "bool \<Rightarrow> nat \<Rightarrow> nat \<Rightarrow> (nat \<times> nat) option" where
  "month_loop leap dayno mon =
     (if 12 \<le> mon then None
      else if ytab leap ! mon \<le> dayno then month_loop leap (dayno - ytab leap ! mon) (mon + 1)
      else Some (dayno, mon))"
  by auto
termination by (relation "measure (\<lambda>(_, _, m). 12 - m)") auto

definition time_tm :: "nat \<Rightarrow> tm option" where
  "time_tm sec =
    (let dayclock = sec mod 2 ^ 32 mod SECS_DAY;
         dayno = sec mod 2 ^ 32 div SECS_DAY;
         t = \<lparr>tm_sec = dayclock mod 60, tm_min = dayclock mod 3600 div 60, tm_hour = dayclock div 3600,
              tm_mday = 0, tm_mon = 0, tm_year = 0, tm_wday = (dayno + 4) mod 7, tm_yday = 0, tm_isdst = 0\<rparr>;
         (dayno, year) = year_loop dayno 1970;
         t = t\<lparr>tm_year := int year - 1900, tm_yday := dayno\<rparr>
     in do {
          (dayno, mon) \<leftarrow> month_loop (LEAPYEAR year) dayno 0;
          Some (t\<lparr>tm_mon := mon, tm_mday := dayno + 1, tm_isdst := 0\<rparr>)
        })"

text \<open>\<open>sprintf\<close> into the static buffer of 64 bytes; \<open>vsp\<close> is the \<open>pp_vsprintf\<close> of the build.\<close>

definition format_time ::
  "(string \<Rightarrow> pf_arg list \<Rightarrow> (string \<times> int) option) \<Rightarrow> nat \<Rightarrow> string option" where
  "format_time vsp sec = do {
     t \<leftarrow> time_tm sec;
     wd \<leftarrow> aget days_tab (int (tm_wday t));
     mo \<leftarrow> aget months_tab (int (tm_mon t));
     (out, _) \<leftarrow> pp_sprintf vsp ''%s, %s %d, %d, %02d:%02d:%02d''
       [A_str (Some wd), A_str (Some mo), A_int (word_of_nat (tm_mday t)), A_int (to_u32 (tm_year t + 1900)),
        A_int (word_of_nat (tm_hour t)), A_int (word_of_nat (tm_min t)), A_int (word_of_nat (tm_sec t))];
     if length out < 64 then Some out else None
   }"

text \<open>The coloured output of the monitor: escape sequences around the text.\<close>

definition C_DIM :: nat where "C_DIM = 0x80"

definition cprintf ::
  "(string \<Rightarrow> pf_arg list \<Rightarrow> (string \<times> int) option) \<Rightarrow> u32 \<Rightarrow> string \<Rightarrow> pf_arg list \<Rightarrow> string option" where
  "cprintf vsp color fmt args = do {
     (a, _) \<leftarrow> vsp (CHR 0x1B # ''[0%d;3%dm'') [A_int (if color AND word_of_nat C_DIM \<noteq> 0 then 2 else 1), A_int (color AND 0x7f)];
     (t, _) \<leftarrow> vsp fmt args;
     (z, _) \<leftarrow> vsp (CHR 0x1B # ''[m'') [];
     Some (a @ t @ z)
   }"

definition pcprintf ::
  "(string \<Rightarrow> pf_arg list \<Rightarrow> (string \<times> int) option) \<Rightarrow> u32 \<Rightarrow> u32 \<Rightarrow> u32 \<Rightarrow> string \<Rightarrow> pf_arg list \<Rightarrow>
    string option" where
  "pcprintf vsp row col color fmt args = do {
     (p, _) \<leftarrow> vsp (CHR 0x1B # ''[%d;%df'') [A_int row, A_int col];
     t \<leftarrow> cprintf vsp color fmt args;
     Some (p @ t)
   }"

definition term_clear :: "(string \<Rightarrow> pf_arg list \<Rightarrow> (string \<times> int) option) \<Rightarrow> string option" where
  "term_clear vsp = do { (t, _) \<leftarrow> vsp (CHR 0x1B # ''[2J'' @ CHR 0x1B # ''[1;1H'') []; Some t }"

declare year_loop.simps [simp del] month_loop.simps [simp del]

section \<open>The calendar\<close>

text \<open>The days before a year, in closed form, and the number of a day since 1970.\<close>

definition days_before :: "nat \<Rightarrow> nat" where
  "days_before y = 365 * (y - 1970) + (y - 1969) div 4 + (y - 1601) div 400 - (y - 1901) div 100"

definition day_number :: "nat \<Rightarrow> nat \<Rightarrow> nat \<Rightarrow> nat" where
  "day_number y m d = days_before y + sum_list (take m (ytab (LEAPYEAR y))) + (d - 1)"

lemma days_before_Suc:
  assumes "1970 \<le> y"
  shows "days_before (Suc y) = days_before y + YEARSIZE y"
proof -
  obtain n where y: "y = 1970 + n" using assms le_Suc_ex by blast
  have "y = Suc (n + 1) + 4 * 492" "y = Suc (n + 69) + 100 * 19" "y = Suc (n + 369) + 400 * 4"
    by (simp_all add: y)
  then have l: "y mod 4 = Suc (n + 1) mod 4" "y mod 100 = Suc (n + 69) mod 100" "y mod 400 = Suc (n + 369) mod 400"
    by (metis mod_mult_self2)+
  have m: "y mod 400 = 0 \<Longrightarrow> y mod 100 = 0" "y mod 100 = 0 \<Longrightarrow> y mod 4 = 0"
    unfolding mod_eq_0_iff_dvd by (erule dvd_trans [rotated], simp)+
  have "(n + 69) div 100 \<le> (69 + 100 * n) div 100" by (intro div_le_mono) simp
  then have d: "(n + 69) div 100 \<le> n" by simp
  have e: "y - 1970 = n" "y - 1969 = n + 1" "y - 1601 = n + 369" "y - 1901 = n + 69"
    "Suc y - 1970 = Suc n" "Suc y - 1969 = Suc (n + 1)" "Suc y - 1601 = Suc (n + 369)" "Suc y - 1901 = Suc (n + 69)"
    by (simp_all add: y)
  define A B C where "A = (n + 1) div 4" "B = (n + 369) div 400" "C = (n + 69) div 100"
  define p q r :: nat where "p = (if y mod 4 = 0 then 1 else 0)" "q = (if y mod 400 = 0 then 1 else 0)"
    "r = (if y mod 100 = 0 then 1 else 0)"
  have div: "Suc (n + 1) div 4 = A + p" "Suc (n + 369) div 400 = B + q" "Suc (n + 69) div 100 = C + r"
    unfolding div_Suc A_B_C_def p_q_r_def l by simp_all
  have "p + q - r + 365 = YEARSIZE y" "r \<le> p + q"
    using m by (auto simp: p_q_r_def YEARSIZE_def LEAPYEAR_def)
  then have "365 * Suc n + (A + p) + (B + q) - (C + r) = 365 * n + A + B - C + YEARSIZE y"
    using d by (simp add: A_B_C_def(3) [symmetric])
  then show ?thesis
    unfolding days_before_def e div A_B_C_def [symmetric] .
qed

lemma year_loop_exact:
  "1970 \<le> year \<Longrightarrow> year_loop dayno year = (d, y) \<Longrightarrow>
    year \<le> y \<and> days_before year + dayno = days_before y + d \<and> d < YEARSIZE y"
proof (induction dayno year rule: year_loop.induct)
  case (1 dayno year)
  show ?case
  proof (cases "YEARSIZE year \<le> dayno")
    case True
    then have "year_loop (dayno - YEARSIZE year) (year + 1) = (d, y)"
      using "1.prems"(2) by (subst (asm) year_loop.simps) simp
    then show ?thesis
      using "1.IH" [OF True] "1.prems"(1) True days_before_Suc [of year] by simp
  next
    case False
    then show ?thesis using "1.prems"(2) by (subst (asm) year_loop.simps) auto
  qed
qed

lemma ytab_sum: "sum_list (ytab (LEAPYEAR y)) = YEARSIZE y" "length (ytab l) = 12"
  by (simp_all add: ytab_def YEARSIZE_def)

lemma month_loop_exact:
  "m \<le> 12 \<Longrightarrow> sum_list (take m (ytab l)) + dayno < sum_list (ytab l) \<Longrightarrow>
    \<exists>d mon. month_loop l dayno m = Some (d, mon) \<and> mon < 12 \<and> d < ytab l ! mon \<and>
      sum_list (take m (ytab l)) + dayno = sum_list (take mon (ytab l)) + d"
proof (induction l dayno m rule: month_loop.induct)
  case (1 l dayno m)
  have m: "m < 12" using "1.prems" ytab_sum(2) [of l] by (cases "m = 12") auto
  show ?case
  proof (cases "ytab l ! m \<le> dayno")
    case True
    have "sum_list (take (m + 1) (ytab l)) + (dayno - ytab l ! m) = sum_list (take m (ytab l)) + dayno"
      using True m ytab_sum(2) [of l] by (simp add: take_Suc_conv_app_nth)
    then show ?thesis
      using "1.IH" [OF _ True] "1.prems" m True by (subst month_loop.simps) simp
  next
    case False
    then show ?thesis using m by (subst month_loop.simps) auto
  qed
qed

text \<open>The fields of a time of day, put together again.\<close>

lemma clock_fields:
  "3600 * (c div 3600) + 60 * (c mod 3600 div 60) + c mod (60 :: nat) = c"
proof -
  have "c mod 3600 mod 60 = c mod 60" by (rule mod_mod_cancel) simp
  moreover have "c mod 3600 = 60 * (c mod 3600 div 60) + c mod 3600 mod 60" by simp
  moreover have "c = 3600 * (c div 3600) + c mod 3600" by simp
  ultimately show ?thesis by linarith
qed

definition tm_ok :: "nat \<Rightarrow> tm \<Rightarrow> bool" where
  "tm_ok sec t \<longleftrightarrow>
     (\<exists>y \<ge> 1970. tm_year t = int y - 1900 \<and> tm_mon t < 12 \<and>
        1 \<le> tm_mday t \<and> tm_mday t \<le> ytab (LEAPYEAR y) ! tm_mon t \<and>
        tm_hour t < 24 \<and> tm_min t < 60 \<and> tm_sec t < 60 \<and>
        day_number y (tm_mon t) (tm_mday t) * 86400 + 3600 * tm_hour t + 60 * tm_min t + tm_sec t = sec \<and>
        tm_wday t = (day_number y (tm_mon t) (tm_mday t) + 4) mod 7)"

lemma time_tm_exact:
  assumes "sec < 2 ^ 32"
  shows "\<exists>t. time_tm sec = Some t \<and> tm_ok sec t"
proof -
  define c n where "c = sec mod 86400" "n = sec div 86400"
  obtain d y where yl: "year_loop n 1970 = (d, y)" by fastforce
  have y: "1970 \<le> y" "n = days_before y + d" "d < YEARSIZE y"
    using year_loop_exact [OF _ yl] by (simp_all add: days_before_def)
  obtain md mon where ml: "month_loop (LEAPYEAR y) d 0 = Some (md, mon)" "mon < 12"
      "md < ytab (LEAPYEAR y) ! mon" "d = sum_list (take mon (ytab (LEAPYEAR y))) + md"
    using month_loop_exact [of 0 "LEAPYEAR y" d] y(3) by (auto simp: ytab_sum)
  have c: "c < 86400" "sec = n * 86400 + c" by (simp_all add: c_n_def)
  have dn: "day_number y mon (md + 1) = n" using y(2) ml(4) by (simp add: day_number_def)
  have "c div 3600 \<le> 86399 div 3600" "c mod 3600 div 60 \<le> 3599 div 60"
    using c(1) mod_less_divisor [of 3600 c] by (intro div_le_mono; linarith)+
  then have h: "c div 3600 < 24" "c mod 3600 div 60 < 60" "c mod 60 < 60" by simp_all
  have fields: "sec mod 2 ^ 32 mod SECS_DAY = c" "sec mod 2 ^ 32 div SECS_DAY = n"
    unfolding c_n_def SECS_DAY_def mod_less [OF assms] by simp_all
  have "time_tm sec = Some \<lparr>tm_sec = c mod 60, tm_min = c mod 3600 div 60, tm_hour = c div 3600,
      tm_mday = md + 1, tm_mon = mon, tm_year = int y - 1900, tm_wday = (n + 4) mod 7, tm_yday = d, tm_isdst = 0\<rparr>"
    unfolding time_tm_def fields using yl ml(1) by simp
  moreover have "tm_ok sec \<lparr>tm_sec = c mod 60, tm_min = c mod 3600 div 60, tm_hour = c div 3600,
      tm_mday = md + 1, tm_mon = mon, tm_year = int y - 1900, tm_wday = (n + 4) mod 7, tm_yday = d, tm_isdst = 0\<rparr>"
    unfolding tm_ok_def
    using y(1) ml(2,3) dn h c(2) clock_fields [of c] by (intro exI [of _ y]) (simp add: add.assoc)
  ultimately show ?thesis by blast
qed

section \<open>The text\<close>

definition two_digits :: "nat \<Rightarrow> string" where
  "two_digits n = [dchar (n div 10), dchar (n mod 10)]"

definition time_text :: "tm \<Rightarrow> string" where
  "time_text t = days_tab ! tm_wday t @ '', '' @ months_tab ! tm_mon t @ '' '' @ numeral_of 10 (tm_mday t) @
     '', '' @ numeral_of 10 (nat (tm_year t + 1900)) @ '', '' @ two_digits (tm_hour t) @ '':'' @
     two_digits (tm_min t) @ '':'' @ two_digits (tm_sec t)"

lemma sint_small: "n < 2147483648 \<Longrightarrow> sint (word_of_nat n :: u32) = int n"
proof -
  assume n: "n < 2147483648"
  have "unat (word_of_nat n :: u32) = n" using n by (simp only: unat_of_nat) simp
  then have "uint (word_of_nat n :: u32) = int n" by (metis uint_nat)
  then show ?thesis using sint_cases(1) [of "word_of_nat n"] n by simp
qed

lemma dec_item_plain: "n < 2147483648 \<Longrightarrow> item_out (P_dec False 0 (word_of_nat n)) = numeral_of 10 n"
  by (simp add: pad_num_def dec_sign_def dec_abs_def sint_small)

lemma dec_item_two: "n < 100 \<Longrightarrow> item_out (P_dec True 2 (word_of_nat n)) = two_digits n"
proof -
  assume n: "n < 100"
  show ?thesis
  proof (cases "n < 10")
    case True
    then show ?thesis
      by (simp add: pad_num_def dec_sign_def dec_abs_def sint_small numeral_of_def rdigits_small two_digits_def dchar_def hex_asc_def)
  next
    case False
    have "n div 10 < 10" using n by simp
    then have "rdigits 10 n = [n mod 10, n div 10]" using False by (simp add: rdigits_big rdigits_small)
    then show ?thesis using n
      by (simp add: pad_num_def dec_sign_def dec_abs_def sint_small numeral_of_def two_digits_def)
  qed
qed

lemma days_before_ge: "1970 \<le> y \<Longrightarrow> y - 1970 \<le> days_before y"
proof -
  assume "1970 \<le> y"
  then obtain n where y: "y = 1970 + n" using le_Suc_ex by blast
  have "(n + 69) div 100 \<le> (69 + 100 * n) div 100" by (intro div_le_mono) simp
  then have "(n + 69) div 100 \<le> n" by simp
  then show ?thesis by (simp add: y days_before_def)
qed

definition time_items :: "tm \<Rightarrow> pf_item list" where
  "time_items t = [P_str (days_tab ! tm_wday t), P_lit (CHR '',''), P_lit (CHR '' ''), P_str (months_tab ! tm_mon t),
     P_lit (CHR '' ''), P_dec False 0 (word_of_nat (tm_mday t)), P_lit (CHR '',''), P_lit (CHR '' ''),
     P_dec False 0 (word_of_nat (nat (tm_year t + 1900))), P_lit (CHR '',''), P_lit (CHR '' ''),
     P_dec True 2 (word_of_nat (tm_hour t)), P_lit (CHR '':''), P_dec True 2 (word_of_nat (tm_min t)),
     P_lit (CHR '':''), P_dec True 2 (word_of_nat (tm_sec t))]"

lemma time_items_ok: "list_all item_ok (time_items t)"
  by (simp add: time_items_def is_percent_def)

lemma time_items_txt: "concat (map item_txt (time_items t)) = ''%s, %s %d, %d, %02d:%02d:%02d''"
  by (simp add: time_items_def width_txt_def dchar_def hex_asc_def)

lemma tab_length: "w < 7 \<Longrightarrow> length (days_tab ! w) = 3" "m < 12 \<Longrightarrow> length (months_tab ! m) = 3"
  "length days_tab = 7" "length months_tab = 12"
  unfolding days_tab_def months_tab_def by (auto simp: less_Suc_eq numeral_eq_Suc)

lemma format_time_text:
  assumes ok: "tm_ok sec t" and sec: "sec < 2 ^ 32" and t: "time_tm sec = Some t"
  shows "format_time xint_vsprintf sec = Some (time_text t)"
proof -
  obtain y where y: "1970 \<le> y" "tm_year t = int y - 1900" "tm_mon t < 12" "tm_mday t \<le> ytab (LEAPYEAR y) ! tm_mon t"
    "tm_hour t < 24" "tm_min t < 60" "tm_sec t < 60"
    "day_number y (tm_mon t) (tm_mday t) * 86400 + 3600 * tm_hour t + 60 * tm_min t + tm_sec t = sec"
    "tm_wday t = (day_number y (tm_mon t) (tm_mday t) + 4) mod 7"
    using ok unfolding tm_ok_def by blast
  have "days_before y * 86400 \<le> sec" using y(8) by (simp add: day_number_def)
  moreover have "sec < 4294967296" using sec by simp
  ultimately have yb: "y < 100000" using days_before_ge [OF y(1)] by linarith
  have "ytab l ! m \<le> 31" if "m < 12" for l m
    using that by (auto simp: ytab_def less_Suc_eq numeral_eq_Suc)
  then have md: "tm_mday t \<le> 31" using y(3,4) le_trans by blast
  have wd: "tm_wday t < 7" using y(9) by simp
  have ny: "nat (tm_year t + 1900) = y" using y(2) by simp
  have out: "concat (map item_out (time_items t)) = time_text t"
    using dec_item_plain [of "tm_mday t"] dec_item_plain [of y] dec_item_two [of "tm_hour t"]
      dec_item_two [of "tm_min t"] dec_item_two [of "tm_sec t"] md yb y(5,6,7)
    by (simp add: time_items_def time_text_def ny del: item_out.simps(5))
  have yi: "to_u32 (tm_year t + 1900) = word_of_nat (nat (tm_year t + 1900))"
    using y(1,2) by (simp add: to_u32_def)
  have args: "concat (map item_args (time_items t)) =
      [A_str (Some (days_tab ! tm_wday t)), A_str (Some (months_tab ! tm_mon t)), A_int (word_of_nat (tm_mday t)),
       A_int (to_u32 (tm_year t + 1900)), A_int (word_of_nat (tm_hour t)), A_int (word_of_nat (tm_min t)),
       A_int (word_of_nat (tm_sec t))]"
    unfolding yi by (simp add: time_items_def)
  have "length (rdigits 10 (tm_mday t)) \<le> 2" "length (rdigits 10 y) \<le> 5"
    using rdigits_length [of 10 "tm_mday t" 1] rdigits_length [of 10 y 4] md yb by simp_all
  then have len: "length (time_text t) < 64"
    using tab_length(1) [OF wd] tab_length(2) [OF y(3)] by (simp add: time_text_def ny two_digits_def)
  show ?thesis
    using xint_items [OF time_items_ok [of t]] t wd y(3) len
    unfolding time_items_txt args out
    by (simp add: format_time_def pp_sprintf_def aget_def tab_length)
qed

text \<open>
  C23. The date of a time: for every time below 2^32 seconds \<open>format_time\<close> terminates, stays inside its
  tables and its buffer, and prints a valid civil date (the day inside its month, with the leap years of
  the Gregorian calendar), a time of day and the weekday, which together denote exactly the given second:
  the days counted by the closed formula of the calendar, times 86400, plus the time of day give it back.
\<close>

theorem format_time_exact:
  assumes "sec < 2 ^ 32"
  shows "\<exists>t. tm_ok sec t \<and> format_time xint_vsprintf sec = Some (time_text t)"
  using time_tm_exact [OF assms] format_time_text [OF _ assms] by blast

theorem format_time_exact_witness:
  "\<exists>t. tm_ok 951782400 t \<and> format_time xint_vsprintf 951782400 = Some (time_text t)"
  by (rule format_time_exact) simp

text \<open>An instance, and the wrap of the 64-bit argument: 2^32 seconds are printed as the epoch.\<close>

lemma format_time_wraps: "time_tm (sec + 2 ^ 32) = time_tm sec"
  by (simp add: time_tm_def)

end
