(* ===== verification/Shell.thy ===== *)
theory Shell
  imports Printf
begin

text \<open>
  \<open>shell/shell.c\<close>: the command line of the node, its editor and its parser. The line buffer is a
  list of characters with the terminating zeros written out; an access outside it is \<open>None\<close>. The
  commands, which the linker collects from all over the program, are an argument: their names with
  a function on the state \<open>'w\<close> of the rest of the program. What is printed is a string.
\<close>

section \<open>State\<close>

abbreviation (input) SH_MAX_LINE_LEN :: nat where "SH_MAX_LINE_LEN \<equiv> 80"
abbreviation (input) SH_MAX_ARGS :: nat where "SH_MAX_ARGS \<equiv> 8"

datatype sh_phase = SH_PROMPT | SH_INPUT | SH_EXEC

record shell =
  cmd_buf :: string
  cmd_pos :: int
  cmd_len :: int
  sh_state :: sh_phase
  current_key :: u32

type_synonym 'w command = "string \<times> (string list \<Rightarrow> 'w \<Rightarrow> int \<times> 'w)"

abbreviation (input) NUL :: char where "NUL \<equiv> CHR 0x00"
abbreviation (input) ESCAPE_FLAG :: u32 where "ESCAPE_FLAG \<equiv> 0x10000"
abbreviation (input) KEY_LEFT :: u32 where "KEY_LEFT \<equiv> 0x10044"
abbreviation (input) KEY_RIGHT :: u32 where "KEY_RIGHT \<equiv> 0x10043"
abbreviation (input) KEY_ENTER :: u32 where "KEY_ENTER \<equiv> 13"
abbreviation (input) KEY_BACKSPACE :: u32 where "KEY_BACKSPACE \<equiv> 127"
abbreviation (input) KEY_DELETE :: u32 where "KEY_DELETE \<equiv> 126"
abbreviation (input) KEY_TAB :: u32 where "KEY_TAB \<equiv> 9"

section \<open>The line editor\<close>

text \<open>\<open>memmove\<close> inside the buffer; negative counts are huge ones.\<close>

definition memmove :: "'a list \<Rightarrow> int \<Rightarrow> int \<Rightarrow> int \<Rightarrow> 'a list option" where
  "memmove buf dst src n =
     (if 0 \<le> n \<and> 0 \<le> dst \<and> 0 \<le> src \<and> dst + n \<le> int (length buf) \<and> src + n \<le> int (length buf)
      then Some (take (nat dst) buf @ take (nat n) (drop (nat src) buf) @ drop (nat (dst + n)) buf)
      else None)"

definition insert_key :: "char \<Rightarrow> shell \<Rightarrow> (bool \<times> shell) option" where
  "insert_key c s =
    (if int SH_MAX_LINE_LEN \<le> cmd_len s then Some (False, s)
     else do {
       buf \<leftarrow> (if cmd_pos s \<noteq> cmd_len s
              then memmove (cmd_buf s) (cmd_pos s + 1) (cmd_pos s) (cmd_len s - cmd_pos s)
              else Some (cmd_buf s));
       buf \<leftarrow> aset buf (cmd_pos s) c;
       Some (True, s\<lparr>cmd_buf := buf, cmd_pos := add32 (cmd_pos s) 1, cmd_len := add32 (cmd_len s) 1\<rparr>)
     })"

definition delete_key :: "int \<Rightarrow> shell \<Rightarrow> shell option" where
  "delete_key pos s = do {
     buf \<leftarrow> memmove (cmd_buf s) pos (pos + 1) (cmd_len s - pos);
     Some (s\<lparr>cmd_buf := buf, cmd_len := sub32 (cmd_len s) 1\<rparr>)
   }"

definition esc :: "char \<Rightarrow> string" where
  "esc code = CHR 0x1B # ''[1'' @ [code]"

section \<open>The parser\<close>

definition blank :: "char \<Rightarrow> bool" where
  "blank c \<longleftrightarrow> c = CHR '' ''"

function skip_blanks :: "string \<Rightarrow> nat \<Rightarrow> (string \<times> nat) option" where
  "skip_blanks buf i =
     (if length buf \<le> i then None
      else if blank (buf ! i) then skip_blanks (buf[i := NUL]) (i + 1)
      else Some (buf, i))"
  by auto
termination by (relation "measure (\<lambda>(buf, i). length buf - i)") auto

function skip_word :: "string \<Rightarrow> nat \<Rightarrow> nat option" where
  "skip_word buf i =
     (if length buf \<le> i then None
      else if \<not> blank (buf ! i) \<and> buf ! i \<noteq> NUL then skip_word buf (i + 1)
      else Some i)"
  by auto
termination by (relation "measure (\<lambda>(buf, i). length buf - i)") auto

declare skip_blanks.simps [simp del] skip_word.simps [simp del]

text \<open>The loop over the arguments; the first argument is \<open>SH_MAX_ARGS - n\<close>.\<close>

fun tokenize :: "nat \<Rightarrow> string \<Rightarrow> nat \<Rightarrow> nat list \<Rightarrow> (string \<times> nat list) option" where
  "tokenize 0 buf i ptrs = Some (buf, ptrs)"
| "tokenize (Suc k) buf i ptrs = do {
     (buf, i) \<leftarrow> skip_blanks buf i;
     if buf ! i = NUL then Some (buf, ptrs)
     else do {
       let ptrs = ptrs @ [i];
       i \<leftarrow> skip_word buf i;
       if buf ! i = NUL then Some (buf, ptrs) else tokenize k buf i ptrs
     }
   }"

text \<open>The string that a pointer into the buffer stands for.\<close>

definition c_str :: "string \<Rightarrow> nat \<Rightarrow> string" where
  "c_str buf i = takeWhile (\<lambda>c. c \<noteq> NUL) (drop i buf)"

definition lower_char :: "char \<Rightarrow> char" where
  "lower_char c = (if CHR ''A'' \<le> c \<and> c \<le> CHR ''Z'' then char_of (of_char c + (32 :: nat)) else c)"

definition strcasecmp_eq :: "string \<Rightarrow> string \<Rightarrow> bool" where
  "strcasecmp_eq a b \<longleftrightarrow> map lower_char a = map lower_char b"

fun find_command :: "'w command list \<Rightarrow> string \<Rightarrow> 'w command option" where
  "find_command [] name = None"
| "find_command (p # ps) name = (if strcasecmp_eq (fst p) name then Some p else find_command ps name)"

abbreviation (input) EINVAL :: int where "EINVAL \<equiv> 22"

text \<open>The two messages, with the formatter of the shipped configurations.\<close>

definition command_failed :: "string \<Rightarrow> int \<Rightarrow> string option" where
  "command_failed name rv =
     map_option fst (xint_vsprintf (''Command '' @ [CHR 0x22] @ ''%s'' @ [CHR 0x22] @ '': error %d'' @ [CHR 0x0A])
       [A_str (Some name), A_int (to_u32 rv)])"

definition command_unknown :: "string \<Rightarrow> string option" where
  "command_unknown name =
     map_option fst (xint_vsprintf (''Unrecognized command '' @ [CHR 0x22] @ ''%s'' @ [CHR 0x22] @ ''.'' @ [CHR 0x0A])
       [A_str (Some name)])"

definition shell_exec_buf ::
  "'w command list \<Rightarrow> string \<Rightarrow> 'w \<Rightarrow> (int \<times> string \<times> string \<times> 'w) option" where
  "shell_exec_buf cmds buf w = do {
     (buf, ptrs) \<leftarrow> tokenize SH_MAX_ARGS buf 0 [];
     if ptrs = [] then Some (0, [], buf, w)
     else do {
       let args = map (c_str buf) ptrs;
       if hd args \<noteq> [] \<and> hd (hd args) = CHR ''#'' then Some (0, [], buf, w)
       else case find_command cmds (hd args) of
         Some p \<Rightarrow> do {
           let (rv, w) = snd p (tl args) w;
           out \<leftarrow> (if rv < 0 then command_failed (fst p) rv else Some []);
           Some (rv, out, buf, w)
         }
       | None \<Rightarrow> do { out \<leftarrow> command_unknown (hd args); Some (- EINVAL, out, buf, w) }
     }
   }"

text \<open>\<open>shell_exec\<close>: \<open>strncpy\<close> pads with zeros and does not terminate a string that fills the room.\<close>

definition shell_exec ::
  "'w command list \<Rightarrow> string \<Rightarrow> shell \<Rightarrow> 'w \<Rightarrow> (int \<times> string \<times> shell \<times> 'w) option" where
  "shell_exec cmds cmd s w = do {
     let src = take SH_MAX_LINE_LEN cmd;
     let buf = src @ replicate (SH_MAX_LINE_LEN - length src) NUL @ drop SH_MAX_LINE_LEN (cmd_buf s);
     (rv, out, buf', w) \<leftarrow> shell_exec_buf cmds buf w;
     Some (rv, out, s\<lparr>cmd_buf := buf', cmd_len := int (length (c_str buf 0))\<rparr>, w)
   }"

definition shell_init :: "shell \<Rightarrow> shell" where
  "shell_init s = s\<lparr>cmd_len := 0, cmd_pos := 0, sh_state := SH_PROMPT\<rparr>"

section \<open>The interactive loop\<close>

text \<open>The key after a byte \<open>c\<close> of the terminal, with the escape sequences folded in.\<close>

definition next_key :: "u32 \<Rightarrow> int \<Rightarrow> u32" where
  "next_key key c =
     (if c = 27 \<or> key AND ESCAPE_FLAG \<noteq> 0 \<and> c = 91 then ESCAPE_FLAG else key OR to_u32 c)"

definition key_pressed :: "u32 \<Rightarrow> shell \<Rightarrow> (string \<times> shell) option" where
  "key_pressed key s =
    (if key = KEY_LEFT then
       (if 0 < cmd_pos s then Some (esc (CHR ''D''), s\<lparr>cmd_pos := sub32 (cmd_pos s) 1\<rparr>) else Some ([], s))
     else if key = KEY_RIGHT then
       (if cmd_pos s < cmd_len s then Some (esc (CHR ''C''), s\<lparr>cmd_pos := add32 (cmd_pos s) 1\<rparr>) else Some ([], s))
     else if key = KEY_ENTER then Some ([CHR 0x0A], s\<lparr>sh_state := SH_EXEC\<rparr>)
     else if key = KEY_DELETE then
       (if cmd_pos s \<noteq> cmd_len s then do { s \<leftarrow> delete_key (cmd_pos s) s; Some (esc (CHR ''P''), s) }
        else Some ([], s))
     else if key = KEY_BACKSPACE then
       (if 0 < cmd_pos s then do {
          s \<leftarrow> delete_key (cmd_pos s - 1) s;
          Some (esc (CHR ''D'') @ esc (CHR ''P''), s\<lparr>cmd_pos := sub32 (cmd_pos s) 1\<rparr>)
        } else Some ([], s))
     else if key = KEY_TAB then Some ([], s)
     else if key AND ESCAPE_FLAG = 0 then do {
       (ok, s) \<leftarrow> insert_key (byte_char (key AND 0xff)) s;
       Some (if ok then esc (CHR ''@'') @ [byte_char (key AND 0xff)] else [], s)
     } else Some ([], s))"

definition shell_interactive ::
  "'w command list \<Rightarrow> int \<Rightarrow> shell \<Rightarrow> 'w \<Rightarrow> (string \<times> shell \<times> 'w) option" where
  "shell_interactive cmds c s w =
    (case sh_state s of
       SH_PROMPT \<Rightarrow> Some (''wrc# '', s\<lparr>cmd_pos := 0, cmd_len := 0, sh_state := SH_INPUT\<rparr>, w)
     | SH_INPUT \<Rightarrow>
         (if c < 0 then Some ([], s, w)
          else let s = s\<lparr>current_key := next_key (current_key s) c\<rparr>
               in if current_key s AND 0xff \<noteq> 0 then do {
                    (out, s) \<leftarrow> key_pressed (current_key s) s;
                    Some (out, s\<lparr>current_key := 0\<rparr>, w)
                  } else Some ([], s, w))
     | SH_EXEC \<Rightarrow> do {
         buf \<leftarrow> aset (cmd_buf s) (cmd_len s) NUL;
         (rv, out, buf, w) \<leftarrow> shell_exec_buf cmds buf w;
         Some (out, s\<lparr>cmd_buf := buf, sh_state := SH_PROMPT\<rparr>, w)
       })"

section \<open>Numbers\<close>

definition hex_digit_val :: "char \<Rightarrow> int option" where
  "hex_digit_val c =
    (if is_digit c then Some (int (of_char c) - 48)
     else if CHR ''A'' \<le> c \<and> c \<le> CHR ''F'' then Some (int (of_char c) - 65 + 10)
     else if CHR ''a'' \<le> c \<and> c \<le> CHR ''f'' then Some (int (of_char c) - 97 + 10)
     else None)"

fun fromhex_loop :: "int \<Rightarrow> string \<Rightarrow> int \<times> string" where
  "fromhex_loop v [] = (v, [])"
| "fromhex_loop v (c # cs) =
     (case hex_digit_val c of Some d \<Rightarrow> fromhex_loop (add32 (shl32 v 4) d) cs | None \<Rightarrow> (v, c # cs))"

definition fromhex :: "string \<Rightarrow> int \<times> string" where
  "fromhex s = fromhex_loop 0 s"

fun fromdec_loop :: "int \<Rightarrow> string \<Rightarrow> int \<times> string" where
  "fromdec_loop v [] = (v, [])"
| "fromdec_loop v (c # cs) =
     (if is_digit c then fromdec_loop (add32 (mul32 v 10) (int (of_char c) - 48)) cs else (v, c # cs))"

definition fromdec :: "string \<Rightarrow> int \<times> string" where
  "fromdec s = fromdec_loop 0 s"

end
