(* ===== verification/Shell_Props.thy ===== *)
theory Shell_Props
  imports Shell Printf_Props
begin

text \<open>
  Properties of the shell: the line editor refines a text with a cursor and never leaves its
  buffer, and the parser cuts a line into its words.
\<close>

section \<open>The editor\<close>

text \<open>The abstract editor: the text before and the text behind the cursor.\<close>

type_synonym zipper = "string \<times> string"

definition zipper :: "shell \<Rightarrow> zipper" where
  "zipper s = (take (nat (cmd_pos s)) (cmd_buf s),
     take (nat (cmd_len s) - nat (cmd_pos s)) (drop (nat (cmd_pos s)) (cmd_buf s)))"

definition ed_inv :: "shell \<Rightarrow> bool" where
  [inv_simps]: "ed_inv s \<longleftrightarrow> length (cmd_buf s) = 81 \<and> 0 \<le> cmd_pos s \<and> cmd_pos s \<le> cmd_len s \<and> cmd_len s \<le> 80"

fun edit_left :: "zipper \<Rightarrow> zipper" where
  "edit_left (ls, rs) = (if ls = [] then (ls, rs) else (butlast ls, last ls # rs))"

fun edit_right :: "zipper \<Rightarrow> zipper" where
  "edit_right (ls, []) = (ls, [])"
| "edit_right (ls, r # rs) = (ls @ [r], rs)"

definition edit :: "u32 \<Rightarrow> zipper \<Rightarrow> zipper" where
  "edit key z =
    (if key = KEY_LEFT then edit_left z else if key = KEY_RIGHT then edit_right z
     else if key = KEY_DELETE then (fst z, tl (snd z))
     else if key = KEY_BACKSPACE then (butlast (fst z), snd z)
     else if key = KEY_ENTER \<or> key = KEY_TAB \<or> key AND ESCAPE_FLAG \<noteq> 0 then z
     else if length (fst z) + length (snd z) < 80 then (fst z @ [byte_char (key AND 0xff)], snd z)
     else z)"

lemma zipper_lengths:
  assumes "ed_inv s" shows "length (fst (zipper s)) = nat (cmd_pos s)"
    "length (snd (zipper s)) = nat (cmd_len s) - nat (cmd_pos s)"
  using assms by (auto simp: zipper_def ed_inv_def min_def)

lemma memmove_delete:
  assumes "length buf = 81" "p < l" "l \<le> 80"
  shows "memmove buf (int p) (int p + 1) (int l - int p) =
    Some (take p buf @ take (l - p) (drop (p + 1) buf) @ drop l buf)"
  using assms by (simp add: memmove_def nat_diff_distrib nat_add_distrib)

lemma memmove_insert:
  assumes "length buf = 81" "p < l" "l < 80"
  shows "memmove buf (int p + 1) (int p) (int l - int p) =
    Some (take (p + 1) buf @ take (l - p) (drop p buf) @ drop (l + 1) buf)"
  using assms by (simp add: memmove_def nat_diff_distrib nat_add_distrib)

lemma delete_key_zipper:
  assumes inv: "length (cmd_buf s) = 81" and p: "pos = int p" "cmd_len s = int l" "p < l" "l \<le> 80"
  obtains s' where "delete_key pos s = Some s'" "length (cmd_buf s') = 81" "cmd_len s' = int l - 1" "cmd_pos s' = cmd_pos s"
    "sh_state s' = sh_state s" "take p (cmd_buf s') = take p (cmd_buf s)"
    "take (l - 1 - p) (drop p (cmd_buf s')) = take (l - 1 - p) (drop (p + 1) (cmd_buf s))"
proof -
  let ?b = "take p (cmd_buf s) @ take (l - p) (drop (p + 1) (cmd_buf s)) @ drop l (cmd_buf s)"
  have d: "delete_key pos s = Some (s\<lparr>cmd_buf := ?b, cmd_len := int l - 1\<rparr>)"
    using memmove_delete [OF inv p(3,4)] p by (simp add: delete_key_def sub32_def)
  show thesis
    by (rule that [OF d]) (use inv p in \<open>auto simp: min_def\<close>)
qed

lemma insert_key_zipper:
  assumes inv: "length (cmd_buf s) = 81" and p: "cmd_pos s = int p" "cmd_len s = int l" "p \<le> l" "l < 80"
  obtains s' where "insert_key c s = Some (True, s')" "length (cmd_buf s') = 81" "cmd_len s' = int l + 1"
    "cmd_pos s' = int p + 1" "sh_state s' = sh_state s" "take (p + 1) (cmd_buf s') = take p (cmd_buf s) @ [c]"
    "take (l - p) (drop (p + 1) (cmd_buf s')) = take (l - p) (drop p (cmd_buf s))"
proof -
  define b where "b = (if p = l then cmd_buf s
    else take (p + 1) (cmd_buf s) @ take (l - p) (drop p (cmd_buf s)) @ drop (l + 1) (cmd_buf s))"
  have b: "(if cmd_pos s \<noteq> cmd_len s then memmove (cmd_buf s) (cmd_pos s + 1) (cmd_pos s) (cmd_len s - cmd_pos s)
      else Some (cmd_buf s)) = Some b"
    using memmove_insert [OF inv, of p l] p by (simp add: b_def)
  have lb: "length b = 81" using inv p by (auto simp: b_def min_def)
  have "insert_key c s = Some (True, s\<lparr>cmd_buf := b[p := c], cmd_pos := int p + 1, cmd_len := int l + 1\<rparr>)"
    unfolding insert_key_def b using p lb by (simp add: aset_def add32_def)
  moreover have "take (p + 1) (b[p := c]) = take p (cmd_buf s) @ [c]"
    using lb p inv by (simp add: take_Suc_conv_app_nth b_def)
  moreover have "take (l - p) (drop (p + 1) (b[p := c])) = take (l - p) (drop p (cmd_buf s))"
    using p inv by (auto simp: b_def min_def)
  ultimately show thesis
    using lb by (intro that [of "s\<lparr>cmd_buf := b[p := c], cmd_pos := int p + 1, cmd_len := int l + 1\<rparr>"]) simp_all
qed

lemma edit_lengths: "ed_inv s \<Longrightarrow> \<exists>p l. cmd_pos s = int p \<and> cmd_len s = int l \<and> p \<le> l \<and> l \<le> 80 \<and> length (cmd_buf s) = 81 \<and>
    zipper s = (take p (cmd_buf s), take (l - p) (drop p (cmd_buf s)))"
  by (rule exI [of _ "nat (cmd_pos s)"], rule exI [of _ "nat (cmd_len s)"]) (auto simp: ed_inv_def zipper_def)

lemma key_pressed_edits:
  assumes "ed_inv s"
  shows "\<exists>out s'. key_pressed key s = Some (out, s') \<and> ed_inv s' \<and> zipper s' = edit key (zipper s)"
proof -
  obtain p l where pl: "cmd_pos s = int p" "cmd_len s = int l" "p \<le> l" "l \<le> 80" "length (cmd_buf s) = 81"
    and z: "zipper s = (take p (cmd_buf s), take (l - p) (drop p (cmd_buf s)))"
    using edit_lengths [OF assms] by blast
  consider "key = KEY_LEFT" | "key = KEY_RIGHT" | "key = KEY_DELETE" | "key = KEY_BACKSPACE"
    | "key = KEY_ENTER \<or> key = KEY_TAB"
    | "key AND ESCAPE_FLAG \<noteq> 0" "key \<noteq> KEY_LEFT" "key \<noteq> KEY_RIGHT"
    | "key AND ESCAPE_FLAG = 0" "key \<noteq> KEY_LEFT" "key \<noteq> KEY_RIGHT" "key \<noteq> KEY_DELETE" "key \<noteq> KEY_BACKSPACE"
      "key \<noteq> KEY_ENTER" "key \<noteq> KEY_TAB" by blast
  then show ?thesis
  proof cases
    case 1
    show ?thesis
    proof (cases "p = 0")
      case True
      then show ?thesis using 1 pl z assms by (simp add: key_pressed_def edit_def)
    next
      case False
      then obtain q where q: "p = Suc q" by (cases p) auto
      have "take (Suc q) (cmd_buf s) = take q (cmd_buf s) @ [cmd_buf s ! q]" "drop q (cmd_buf s) = cmd_buf s ! q # drop (Suc q) (cmd_buf s)"
        using pl q by (simp_all add: take_Suc_conv_app_nth Cons_nth_drop_Suc)
      moreover have "nat (int p - 1) = q" "l - q = Suc (l - p)" using q pl by simp_all
      ultimately show ?thesis
        using 1 pl z q by (simp add: key_pressed_def edit_def sub32_def ed_inv_def) (simp add: zipper_def)
    qed
  next
    case 2
    show ?thesis
    proof (cases "p = l")
      case True
      then show ?thesis using 2 pl z assms by (simp add: key_pressed_def edit_def)
    next
      case False
      then have "l - p = Suc (l - Suc p)" "p < 81" using pl by simp_all
      moreover have "take (Suc p) (cmd_buf s) = take p (cmd_buf s) @ [cmd_buf s ! p]"
          "drop p (cmd_buf s) = cmd_buf s ! p # drop (Suc p) (cmd_buf s)"
        using pl calculation by (simp_all add: take_Suc_conv_app_nth Cons_nth_drop_Suc)
      ultimately show ?thesis
        using 2 pl z False
        by (simp add: key_pressed_def edit_def add32_def ed_inv_def) (simp add: zipper_def nat_add_distrib)
    qed
  next
    case 3
    show ?thesis
    proof (cases "p = l")
      case True
      then show ?thesis using 3 pl z assms by (simp add: key_pressed_def edit_def)
    next
      case False
      then have pp: "p < l" using pl(3) by simp
      obtain s' where s': "delete_key (cmd_pos s) s = Some s'" "length (cmd_buf s') = 81" "cmd_len s' = int l - 1"
          "cmd_pos s' = cmd_pos s" "take p (cmd_buf s') = take p (cmd_buf s)"
          "take (l - 1 - p) (drop p (cmd_buf s')) = take (l - 1 - p) (drop (p + 1) (cmd_buf s))"
        using delete_key_zipper [OF pl(5) pl(1) pl(2) pp pl(4)] by blast
      have "tl (take (l - p) (drop p (cmd_buf s))) = take (l - 1 - p) (drop (p + 1) (cmd_buf s))"
        using False pl by (simp add: tl_take tl_drop drop_Suc)
      moreover have "nat (int l - 1) - p = l - 1 - p" using False pl by simp
      ultimately show ?thesis
        using 3 pl z False s' by (simp add: key_pressed_def edit_def ed_inv_def) (simp add: zipper_def)
    qed
  next
    case 4
    show ?thesis
    proof (cases "p = 0")
      case True
      then show ?thesis using 4 pl z assms by (simp add: key_pressed_def edit_def)
    next
      case False
      then obtain q where q: "p = Suc q" by (cases p) auto
      have qq: "cmd_pos s - 1 = int q" "q < l" using q pl by simp_all
      obtain s' where s': "delete_key (cmd_pos s - 1) s = Some s'" "length (cmd_buf s') = 81" "cmd_len s' = int l - 1"
          "cmd_pos s' = cmd_pos s" "take q (cmd_buf s') = take q (cmd_buf s)"
          "take (l - 1 - q) (drop q (cmd_buf s')) = take (l - 1 - q) (drop (q + 1) (cmd_buf s))"
        using delete_key_zipper [OF pl(5) qq(1) pl(2) qq(2) pl(4)] by blast
      have "butlast (take p (cmd_buf s)) = take q (cmd_buf s)" using q pl by (simp add: butlast_take)
      moreover have "nat (int p - 1) = q" "nat (int l - 1) - q = l - 1 - q" "l - 1 - q = l - p" using q pl by simp_all
      ultimately show ?thesis
        using 4 pl z q s' by (simp add: key_pressed_def edit_def ed_inv_def sub32_def) (simp add: zipper_def)
    qed
  next
    case 5
    then show ?thesis
    proof
      assume k: "key = KEY_ENTER"
      show ?thesis unfolding k using assms by (simp add: key_pressed_def edit_def ed_inv_def zipper_def)
    next
      assume k: "key = KEY_TAB"
      show ?thesis unfolding k using assms by (simp add: key_pressed_def edit_def)
    qed
  next
    case 6
    then show ?thesis using z assms by (auto simp: key_pressed_def edit_def)
  next
    case 7
    show ?thesis
    proof (cases "l < 80")
      case False
      then show ?thesis using 7 pl z assms by (simp add: key_pressed_def edit_def insert_key_def)
    next
      case True
      obtain s' where s': "insert_key (byte_char (key AND 0xff)) s = Some (True, s')" "length (cmd_buf s') = 81" "cmd_len s' = int l + 1"
          "cmd_pos s' = int p + 1" "take (p + 1) (cmd_buf s') = take p (cmd_buf s) @ [byte_char (key AND 0xff)]"
          "take (l - p) (drop (p + 1) (cmd_buf s')) = take (l - p) (drop p (cmd_buf s))"
        using insert_key_zipper [OF pl(5,1,2,3) True] by blast
      then show ?thesis
        using 7 pl z True by (simp add: key_pressed_def edit_def ed_inv_def) (simp add: zipper_def nat_add_distrib)
    qed
  qed
qed

section \<open>The parser\<close>

text \<open>The words of a line, at most \<open>k\<close>; the last of a full list keeps the rest of the line.\<close>

fun words :: "nat \<Rightarrow> string \<Rightarrow> string list" where
  "words 0 s = []"
| "words (Suc k) s =
     (let r = dropWhile blank s
      in if r = [] then []
         else if k = 0 then [r]
         else takeWhile (\<lambda>c. \<not> blank c) r # words k (dropWhile (\<lambda>c. \<not> blank c) r))"

lemma words_Nil [simp]: "words k [] = []"
  by (cases k) simp_all

lemma words_step:
  "r = dropWhile blank s \<Longrightarrow> r \<noteq> [] \<Longrightarrow>
    words (Suc k) s = (if k = 0 then [r] else takeWhile (\<lambda>c. \<not> blank c) r # words k (dropWhile (\<lambda>c. \<not> blank c) r))"
  unfolding words.simps Let_def by (simp only: if_False)

lemma not_blank_NUL [simp]: "\<not> blank NUL"
  by (simp add: blank_def)

lemma skip_blanks_eq:
  "list_all blank b \<Longrightarrow> \<not> blank x \<Longrightarrow>
    skip_blanks (pre @ b @ x # rest) (length pre) =
      Some (pre @ replicate (length b) NUL @ x # rest, length pre + length b)"
proof (induction b arbitrary: pre)
  case Nil
  then show ?case by (subst skip_blanks.simps) simp
next
  case (Cons c b)
  have "skip_blanks (pre @ (c # b) @ x # rest) (length pre) =
      skip_blanks ((pre @ [NUL]) @ b @ x # rest) (length (pre @ [NUL]))"
    using Cons.prems(1) by (subst skip_blanks.simps) simp
  then show ?case using Cons.IH [of "pre @ [NUL]"] Cons.prems by simp
qed

lemma skip_word_eq:
  "list_all (\<lambda>c. \<not> blank c \<and> c \<noteq> NUL) v \<Longrightarrow> blank x \<or> x = NUL \<Longrightarrow>
    skip_word (pre @ v @ x # rest) (length pre) = Some (length pre + length v)"
proof (induction v arbitrary: pre)
  case Nil
  then show ?case by (subst skip_word.simps) auto
next
  case (Cons c v)
  have "skip_word (pre @ (c # v) @ x # rest) (length pre) = skip_word ((pre @ [c]) @ v @ x # rest) (length (pre @ [c]))"
    using Cons.prems(1) by (subst skip_word.simps) simp
  then show ?case using Cons.IH [of "pre @ [c]"] Cons.prems by simp
qed

lemma c_str_at: "NUL \<notin> set u \<Longrightarrow> c_str (pre @ u @ NUL # rest) (length pre) = u"
  by (simp add: c_str_def takeWhile_append2 [of u] takeWhile_append)

definition nul_first :: "string \<Rightarrow> bool" where
  "nul_first s \<longleftrightarrow> s \<noteq> [] \<and> hd s = NUL"

lemma tokenize_words:
  "NUL \<notin> set s \<Longrightarrow>
    \<exists>s' ps. tokenize k (pre @ s @ NUL # rest) (length pre) ptrs = Some (pre @ s' @ NUL # rest, ptrs @ ps) \<and>
      length s' = length s \<and> map (c_str (pre @ s' @ NUL # rest)) ps = words k s \<and>
      (if k = 0 then s' = s else s \<noteq> [] \<and> blank (hd s) \<longrightarrow> nul_first s')"
proof (induction k arbitrary: pre s ptrs)
  case (Suc k)
  define b r where "b = takeWhile blank s" "r = dropWhile blank s"
  have s: "s = b @ r" and b: "list_all blank b"
    by (auto simp: b_r_def list_all_iff dest: set_takeWhileD)
  let ?z = "replicate (length b) NUL"
  have nf: "s \<noteq> [] \<and> blank (hd s) \<longrightarrow> nul_first (?z @ t)" for t
    by (cases s) (auto simp: b_r_def nul_first_def)
  show ?case
  proof (cases r)
    case Nil
    then have "skip_blanks (pre @ s @ NUL # rest) (length pre) = Some (pre @ ?z @ NUL # rest, length pre + length b)"
      using skip_blanks_eq [OF b, of NUL pre rest] s by simp
    moreover have "(pre @ ?z @ NUL # rest) ! (length pre + length b) = NUL" by (simp add: nth_append)
    moreover have "words (Suc k) s = []" using Nil by (simp add: b_r_def)
    ultimately show ?thesis using nf [of "[]"] s Nil by (intro exI [of _ ?z] exI [of _ "[]"]) simp
  next
    case (Cons x r1)
    have x: "\<not> blank x" using Cons hd_dropWhile [of blank s] by (simp add: b_r_def)
    have x0: "x \<noteq> NUL" using Suc.prems s Cons by auto
    define v t where "v = takeWhile (\<lambda>c. \<not> blank c) r" "t = dropWhile (\<lambda>c. \<not> blank c) r"
    have r: "r = v @ t" by (simp add: v_t_def)
    have "set r \<subseteq> set s" "set t \<subseteq> set s" "set v \<subseteq> set s" using s r by auto
    then have rN: "NUL \<notin> set r" "NUL \<notin> set t" "NUL \<notin> set v" using Suc.prems by blast+
    have "\<forall>c \<in> set v. \<not> blank c" unfolding v_t_def by (blast dest: set_takeWhileD)
    then have v: "list_all (\<lambda>c. \<not> blank c \<and> c \<noteq> NUL) v"
      using rN(3) unfolding list_all_iff by metis
    let ?pre = "pre @ ?z"
    have sb: "skip_blanks (pre @ s @ NUL # rest) (length pre) = Some (?pre @ r @ NUL # rest, length ?pre)"
      using skip_blanks_eq [OF b x, of pre "r1 @ NUL # rest"] s Cons by simp
    have at: "(?pre @ r @ NUL # rest) ! length ?pre \<noteq> NUL" using Cons x0 by (simp add: nth_append)
    have tok: "tokenize (Suc k) (pre @ s @ NUL # rest) (length pre) ptrs =
        do { i \<leftarrow> skip_word (?pre @ r @ NUL # rest) (length ?pre);
             if (?pre @ r @ NUL # rest) ! i = NUL then Some (?pre @ r @ NUL # rest, ptrs @ [length ?pre])
             else tokenize k (?pre @ r @ NUL # rest) i (ptrs @ [length ?pre]) }"
      using sb at by (simp add: Let_def del: append_assoc length_append)
    show ?thesis
    proof (cases t)
      case Nil
      then have "skip_word (?pre @ r @ NUL # rest) (length ?pre) = Some (length ?pre + length r)"
        using skip_word_eq [OF v, of NUL ?pre rest] r by simp
      moreover have "(?pre @ r @ NUL # rest) ! (length ?pre + length r) = NUL" by (simp add: nth_append)
      ultimately have "tokenize (Suc k) (pre @ s @ NUL # rest) (length pre) ptrs =
          Some (pre @ (?z @ r) @ NUL # rest, ptrs @ [length ?pre])"
        unfolding tok by simp
      moreover have "c_str (pre @ (?z @ r) @ NUL # rest) (length ?pre) = r"
        using c_str_at [OF rN(1), of ?pre rest] by simp
      moreover have "words (Suc k) s = [r]"
        using words_step [OF b_r_def(2), of k] Cons Nil r unfolding v_t_def [symmetric] by simp
      ultimately show ?thesis
        using nf [of r] s by (intro exI [of _ "?z @ r"] exI [of _ "[length ?pre]"]) simp
    next
      case (Cons y t1)
      have y: "blank y" using Cons hd_dropWhile [of "\<lambda>c. \<not> blank c" r] by (simp add: v_t_def)
      then have yN: "y \<noteq> NUL" by auto
      let ?pre1 = "?pre @ v"
      have "skip_word (?pre @ r @ NUL # rest) (length ?pre) = Some (length ?pre1)"
        using skip_word_eq [OF v, of y ?pre "t1 @ NUL # rest"] y r Cons by simp
      moreover have "(?pre @ r @ NUL # rest) ! length ?pre1 \<noteq> NUL" using r Cons yN by (simp add: nth_append)
      ultimately have tk: "tokenize (Suc k) (pre @ s @ NUL # rest) (length pre) ptrs =
          tokenize k (?pre1 @ t @ NUL # rest) (length ?pre1) (ptrs @ [length ?pre])"
        unfolding tok r by simp
      obtain t' ps where IH: "tokenize k (?pre1 @ t @ NUL # rest) (length ?pre1) (ptrs @ [length ?pre]) =
          Some (?pre1 @ t' @ NUL # rest, (ptrs @ [length ?pre]) @ ps)" "length t' = length t"
        "map (c_str (?pre1 @ t' @ NUL # rest)) ps = words k t"
        "if k = 0 then t' = t else t \<noteq> [] \<and> blank (hd t) \<longrightarrow> nul_first t'"
        using Suc.IH [OF rN(2), of ?pre1 "ptrs @ [length ?pre]"] by blast
      have cs: "c_str (?pre1 @ t' @ NUL # rest) (length ?pre) = (if k = 0 then r else v)"
      proof (cases "k = 0")
        case True
        then show ?thesis using IH(4) c_str_at [OF rN(1), of ?pre rest] r by simp
      next
        case False
        then obtain t2 where "t' = NUL # t2" using IH(4) Cons y by (cases t') (auto simp: nul_first_def)
        moreover have "NUL \<notin> set v" using v by (auto simp: list_all_iff)
        ultimately show ?thesis using False c_str_at [of v ?pre "t2 @ NUL # rest"] by simp
      qed
      have "r \<noteq> []" using r Cons by simp
      then have w: "words (Suc k) s = (if k = 0 then [r] else v # words k t)"
        using words_step [OF b_r_def(2), of k] unfolding v_t_def [symmetric] by simp
      have "map (c_str (pre @ (?z @ v @ t') @ NUL # rest)) (length ?pre # ps) = words (Suc k) s"
        using cs IH(3) w by (cases "k = 0") simp_all
      then show ?thesis
        using tk IH(1,2) s r nf [of "v @ t'"]
        by (intro exI [of _ "?z @ v @ t'"] exI [of _ "length ?pre # ps"]) simp
    qed
  qed
qed simp

section \<open>Running a line\<close>

text \<open>The reference: the first word selects the command, the others are its arguments.\<close>

definition run_words :: "'w command list \<Rightarrow> string list \<Rightarrow> 'w \<Rightarrow> (int \<times> string \<times> 'w) option" where
  "run_words cmds ws w =
     (case ws of
        [] \<Rightarrow> Some (0, [], w)
      | name # args \<Rightarrow>
          if hd name = CHR ''#'' then Some (0, [], w)
          else case find_command cmds name of
            Some p \<Rightarrow> do {
              let (rv, w) = snd p args w;
              out \<leftarrow> (if rv < 0 then command_failed (fst p) rv else Some []);
              Some (rv, out, w)
            }
          | None \<Rightarrow> do { out \<leftarrow> command_unknown name; Some (- EINVAL, out, w) })"

lemma messages_defined: "\<exists>out. command_failed name rv = Some out" "\<exists>out. command_unknown name = Some out"
proof -
  obtain n where n: "xint_number (to_u32 rv) 10 (CHR '' '') 1 = Some n"
    using xint_number_pos [of 10 "to_u32 rv" 0 False] xint_number_neg [of "to_u32 rv" 0 False]
    by (cases "sint (to_u32 rv) < 0") (auto simp: lead_char_def)
  show "\<exists>out. command_failed name rv = Some out"
    by (simp add: command_failed_def xint_vsprintf_def is_percent_def xint_switch_def va_str_def va_int_def
        xint_base_def n)
  show "\<exists>out. command_unknown name = Some out"
    by (simp add: command_unknown_def xint_vsprintf_def is_percent_def xint_switch_def va_str_def)
qed

lemma run_words_defined: "\<exists>r. run_words cmds ws w = Some r"
proof -
  obtain f where f: "\<And>name rv. command_failed name rv = Some (f name rv)"
    using messages_defined(1) by metis
  obtain g where g: "\<And>name. command_unknown name = Some (g name)"
    using messages_defined(2) by metis
  show ?thesis by (auto simp: run_words_def f g split: list.splits option.splits prod.splits)
qed

lemma map_option_bind: "map_option f (Option.bind x g) = Option.bind x (\<lambda>y. map_option f (g y))"
  by (cases x) simp_all

lemma words_not_Nil: "list_all (\<lambda>v. v \<noteq> []) (words k s)"
proof (induction k arbitrary: s)
  case (Suc k)
  define r where "r = dropWhile blank s"
  show ?case
  proof (cases "r = []")
    case True
    then show ?thesis by (simp add: r_def)
  next
    case False
    then have "\<not> blank (hd r)" using hd_dropWhile [of blank s] by (simp add: r_def)
    then have "takeWhile (\<lambda>c. \<not> blank c) r \<noteq> []" using False by (cases r) auto
    then show ?thesis using Suc.IH False words_step [OF r_def False, of k] by simp
  qed
qed simp

lemma exec_line:
  assumes "NUL \<notin> set line" "buf = line @ NUL # rest"
  shows "\<exists>buf'. length buf' = length buf \<and>
    shell_exec_buf cmds buf w = map_option (\<lambda>(rv, out, w). (rv, out, buf', w)) (run_words cmds (words 8 line) w)"
proof -
  obtain s' ps where t: "tokenize 8 buf 0 [] = Some (s' @ NUL # rest, ps)" "length s' = length line"
      "map (c_str (s' @ NUL # rest)) ps = words 8 line"
    using tokenize_words [OF assms(1), of 8 "[]" rest "[]"] assms(2) by auto
  have ne: "ps = [] \<longleftrightarrow> words 8 line = []" using t(3) by auto
  show ?thesis
  proof (intro exI conjI)
    show "length (s' @ NUL # rest) = length buf" using t(2) assms(2) by simp
    show "shell_exec_buf cmds buf w =
        map_option (\<lambda>(rv, out, w). (rv, out, s' @ NUL # rest, w)) (run_words cmds (words 8 line) w)"
    proof (cases "words 8 line")
      case Nil
      then show ?thesis using ne t(1) by (simp add: shell_exec_buf_def run_words_def)
    next
      case (Cons name args)
      then have "name \<noteq> []" using words_not_Nil [of 8 line] by simp
      then show ?thesis
        using ne t(1,3) Cons
        by (auto simp: shell_exec_buf_def run_words_def Let_def map_option_bind split: option.splits prod.splits)
    qed
  qed
qed

lemma exec_buf_defined:
  assumes "NUL \<in> set buf"
  shows "\<exists>rv out buf' w'. shell_exec_buf cmds buf w = Some (rv, out, buf', w') \<and> length buf' = length buf"
proof -
  let ?line = "takeWhile (\<lambda>c. c \<noteq> NUL) buf"
  let ?rest = "dropWhile (\<lambda>c. c \<noteq> NUL) buf"
  have ne: "?rest \<noteq> []" using assms by simp
  have "hd ?rest = NUL" using hd_dropWhile [OF ne] by simp
  then have r: "?rest = NUL # tl ?rest" using ne by (metis list.collapse)
  have buf: "buf = ?line @ NUL # tl ?rest"
    unfolding r [symmetric] by (rule takeWhile_dropWhile_id [symmetric])
  have nl: "NUL \<notin> set ?line" by (auto dest: set_takeWhileD)
  from exec_line [OF nl buf, of cmds w] obtain buf' where l: "length buf' = length buf"
      and e: "shell_exec_buf cmds buf w = map_option (\<lambda>(rv, out, w). (rv, out, buf', w)) (run_words cmds (words 8 ?line) w)"
    by (elim exE conjE)
  obtain rv out w' where "run_words cmds (words 8 ?line) w = Some (rv, out, w')"
    using run_words_defined [of cmds "words 8 ?line" w] by (metis prod_cases3)
  then show ?thesis unfolding e using l by simp
qed

lemma key_not_exec:
  assumes "key_pressed key s = Some (out, s')"
  shows "sh_state s' = (if key = KEY_ENTER then SH_EXEC else sh_state s)" "current_key s' = current_key s"
  using assms
  by (auto simp: key_pressed_def delete_key_def insert_key_def Let_def bind_eq_Some_conv split: if_splits)

text \<open>
  C24. One call of the interactive shell, in any of its states and for any byte from the terminal: it stays
  inside its line buffer (the result is defined and the lengths stay in bounds), and in the input state a
  complete key acts on the text around the cursor exactly as the abstract editor says. A line of 80
  characters takes no more characters, and a cursor at an end of the line stays there.
\<close>

theorem shell_step_refines:
  assumes "ed_inv s"
  shows "\<exists>out s' w'. shell_interactive cmds c s w = Some (out, s', w') \<and> ed_inv s' \<and>
    (sh_state s = SH_INPUT \<and> 0 \<le> c \<longrightarrow>
       (let key = next_key (current_key s) c
        in if key AND 0xff = 0 then zipper s' = zipper s \<and> current_key s' = key \<and> sh_state s' = SH_INPUT
           else zipper s' = edit key (zipper s) \<and> current_key s' = 0 \<and>
             sh_state s' = (if key = KEY_ENTER then SH_EXEC else SH_INPUT)))"
proof (cases "sh_state s")
  case SH_PROMPT
  then show ?thesis using assms by (simp add: shell_interactive_def ed_inv_def)
next
  case SH_INPUT
  show ?thesis
  proof (cases "0 \<le> c")
    case False
    then show ?thesis using SH_INPUT assms by (simp add: shell_interactive_def)
  next
    case True
    define key s1 where "key = next_key (current_key s) c" "s1 = s\<lparr>current_key := key\<rparr>"
    have s1: "ed_inv s1" "zipper s1 = zipper s" "sh_state s1 = SH_INPUT"
      using assms SH_INPUT by (simp_all add: key_s1_def ed_inv_def zipper_def)
    show ?thesis
    proof (cases "key AND 0xff = 0")
      case True
      then show ?thesis
        using SH_INPUT \<open>0 \<le> c\<close> s1 by (simp add: shell_interactive_def key_s1_def Let_def)
    next
      case False
      obtain out s' where s': "key_pressed key s1 = Some (out, s')" "ed_inv s'" "zipper s' = edit key (zipper s1)"
        using key_pressed_edits [OF s1(1)] by blast
      have "shell_interactive cmds c s w = Some (out, s'\<lparr>current_key := 0\<rparr>, w)"
        using SH_INPUT \<open>0 \<le> c\<close> False s'(1) by (simp add: shell_interactive_def key_s1_def Let_def)
      then show ?thesis
        using False s' s1 key_not_exec(1) [OF s'(1)]
        by (simp add: key_s1_def(1) [symmetric] Let_def ed_inv_def zipper_def)
    qed
  qed
next
  case SH_EXEC
  have bounds: "cmd_len s < int (length (cmd_buf s))" "0 \<le> cmd_len s" using assms by (auto simp: ed_inv_def)
  have b: "aset (cmd_buf s) (cmd_len s) NUL = Some ((cmd_buf s)[nat (cmd_len s) := NUL])"
    using bounds by (simp add: aset_def nat_less_iff)
  from bounds have "NUL \<in> set ((cmd_buf s)[nat (cmd_len s) := NUL])"
    by (intro set_update_memI) (simp add: nat_less_iff)
  then obtain rv out buf' w' where "shell_exec_buf cmds ((cmd_buf s)[nat (cmd_len s) := NUL]) w = Some (rv, out, buf', w')"
      "length buf' = length (cmd_buf s)"
    using exec_buf_defined by fastforce
  then show ?thesis using b SH_EXEC assms by (simp add: shell_interactive_def ed_inv_def)
qed

definition shell_example :: shell where
  "shell_example = \<lparr>cmd_buf = ''ab'' @ replicate 79 NUL, cmd_pos = 2, cmd_len = 2, sh_state = SH_INPUT, current_key = 0\<rparr>"

theorem shell_step_refines_witness:
  "\<exists>out s' w'. shell_interactive [] 127 shell_example () = Some (out, s', w') \<and> ed_inv s' \<and>
    zipper s' = (''a'', []) \<and> sh_state s' = SH_INPUT"
proof -
  have "ed_inv shell_example" by (simp add: ed_inv_def shell_example_def)
  from shell_step_refines [OF this, of "[]" 127 "()"]
  show ?thesis
    by (simp add: shell_example_def next_key_def edit_def zipper_def to_u32_def) blast
qed

section \<open>A whole line\<close>

primrec sh_run :: "'w command list \<Rightarrow> int list \<Rightarrow> shell \<Rightarrow> 'w \<Rightarrow> (string list \<times> shell \<times> 'w) option" where
  "sh_run cmds [] s w = Some ([], s, w)"
| "sh_run cmds (c # cs) s w = do {
     (out, s, w) \<leftarrow> shell_interactive cmds c s w;
     (outs, s, w) \<leftarrow> sh_run cmds cs s w;
     Some (out # outs, s, w)
   }"

definition printable :: "char \<Rightarrow> bool" where
  "printable c \<longleftrightarrow> 32 \<le> (of_char c :: nat) \<and> (of_char c :: nat) < 126"

definition plain_key :: "nat \<Rightarrow> bool" where
  "plain_key n \<longleftrightarrow> (let k = word_of_nat n :: u32 in
     k AND 0xff = k \<and> k AND ESCAPE_FLAG = 0 \<and> k \<noteq> 0 \<and> k \<noteq> KEY_LEFT \<and> k \<noteq> KEY_RIGHT \<and> k \<noteq> KEY_ENTER \<and>
     k \<noteq> KEY_DELETE \<and> k \<noteq> KEY_BACKSPACE \<and> k \<noteq> KEY_TAB \<and> byte_char k = char_of n)"

lemma plain_keys: "32 \<le> n \<Longrightarrow> n < 126 \<Longrightarrow> plain_key n"
proof -
  have "list_all plain_key [32..<126]" by code_simp
  then have "\<forall>n \<in> set [32..<126]. plain_key n" unfolding list_all_iff .
  moreover assume "32 \<le> n" "n < 126"
  then have "n \<in> set [32..<126]" unfolding set_upt by (simp only: atLeastLessThan_iff)
  ultimately show "plain_key n" by (rule bspec)
qed

lemma key_irrelevant [simp]:
  "zipper (s\<lparr>current_key := k\<rparr>) = zipper s" "ed_inv (s\<lparr>current_key := k\<rparr>) = ed_inv s"
  by (simp_all add: zipper_def ed_inv_def)

lemma type_char:
  assumes "ed_inv s" "sh_state s = SH_INPUT" "current_key s = 0" "zipper s = (ls, [])" "length ls < 80" "printable c"
  shows "\<exists>out s'. shell_interactive cmds (int (of_char c)) s w = Some (out, s', w) \<and> ed_inv s' \<and>
    sh_state s' = SH_INPUT \<and> current_key s' = 0 \<and> zipper s' = (ls @ [c], [])"
proof -
  define k :: u32 where "k = word_of_nat (of_char c)"
  have k: "k AND 0xff = k" "k AND ESCAPE_FLAG = 0" "k \<noteq> 0" "k \<noteq> KEY_LEFT" "k \<noteq> KEY_RIGHT" "k \<noteq> KEY_ENTER"
     "k \<noteq> KEY_DELETE" "k \<noteq> KEY_BACKSPACE" "k \<noteq> KEY_TAB" "byte_char k = c"
    using plain_keys [of "of_char c"] assms(6) unfolding printable_def plain_key_def Let_def k_def [symmetric] by simp_all
  have nk: "next_key (current_key s) (int (of_char c)) = k"
    using assms(3,6) by (auto simp: next_key_def k_def to_u32_def printable_def)
  define s1 where "s1 = s\<lparr>current_key := k\<rparr>"
  have s1: "ed_inv s1" "zipper s1 = (ls, [])" using assms by (simp_all add: s1_def ed_inv_def zipper_def)
  obtain out s' where s': "key_pressed k s1 = Some (out, s')" "ed_inv s'" "zipper s' = edit k (zipper s1)"
    using key_pressed_edits [OF s1(1)] by blast
  have "edit k (ls, []) = (ls @ [c], [])" using k assms(5) by (simp add: edit_def)
  moreover have "shell_interactive cmds (int (of_char c)) s w = Some (out, s'\<lparr>current_key := 0\<rparr>, w)"
    using assms(2) nk k s'(1) by (simp add: shell_interactive_def s1_def Let_def)
  ultimately show ?thesis
    using s' s1 k(6) key_not_exec(1) [OF s'(1)] assms(2) by (simp add: s1_def)
qed

lemma type_line:
  "ed_inv s \<Longrightarrow> sh_state s = SH_INPUT \<Longrightarrow> current_key s = 0 \<Longrightarrow> zipper s = (ls, []) \<Longrightarrow>
    length ls + length line \<le> 80 \<Longrightarrow> list_all printable line \<Longrightarrow>
    \<exists>outs s'. sh_run cmds (map (\<lambda>c. int (of_char c)) line) s w = Some (outs, s', w) \<and> ed_inv s' \<and>
      sh_state s' = SH_INPUT \<and> current_key s' = 0 \<and> zipper s' = (ls @ line, [])"
proof (induction line arbitrary: s ls)
  case (Cons c line)
  obtain out s1 where s1: "shell_interactive cmds (int (of_char c)) s w = Some (out, s1, w)" "ed_inv s1"
      "sh_state s1 = SH_INPUT" "current_key s1 = 0" "zipper s1 = (ls @ [c], [])"
    using type_char [OF Cons.prems(1-4), of c cmds w] Cons.prems(5,6) by auto
  then show ?case using Cons.IH [OF s1(2-5)] Cons.prems(5,6) by auto
qed simp

lemma sh_run_append:
  "sh_run cmds (as @ bs) s w = do {
     (o1, s, w) \<leftarrow> sh_run cmds as s w; (o2, s, w) \<leftarrow> sh_run cmds bs s w; Some (o1 @ o2, s, w) }"
proof (induction as arbitrary: s w)
  case Nil
  show ?case by (cases "sh_run cmds bs s w") (auto split: prod.splits)
next
  case (Cons a as)
  then show ?case by (auto simp: bind_eq_Some_conv split: bind_splits prod.splits)
qed

lemma zipper_line: "ed_inv s \<Longrightarrow> fst (zipper s) @ snd (zipper s) = take (nat (cmd_len s)) (cmd_buf s)"
  using edit_lengths [of s] by (auto simp flip: take_add)

lemma exec_state:
  assumes "ed_inv s" "sh_state s = SH_EXEC" "zipper s = (line, [])" "NUL \<notin> set line"
  shows "\<exists>s'. shell_interactive cmds c s w = map_option (\<lambda>(rv, out, w). (out, s', w)) (run_words cmds (words 8 line) w) \<and>
    sh_state s' = SH_PROMPT \<and> length (cmd_buf s') = 81"
proof -
  obtain l where l: "cmd_len s = int l" "l \<le> 80" "length (cmd_buf s) = 81" using edit_lengths [OF assms(1)] by blast
  have tl: "take l (cmd_buf s) = line" using zipper_line [OF assms(1)] assms(3) l(1) by simp
  have b: "(cmd_buf s)[l := NUL] = line @ NUL # drop (Suc l) (cmd_buf s)"
    using l tl by (simp add: upd_conv_take_nth_drop)
  from exec_line [OF assms(4) b, of cmds w] obtain buf' where buf': "length buf' = 81"
      "shell_exec_buf cmds ((cmd_buf s)[l := NUL]) w =
        map_option (\<lambda>(rv, out, w). (rv, out, buf', w)) (run_words cmds (words 8 line) w)"
    using l by auto
  have "aset (cmd_buf s) (cmd_len s) NUL = Some ((cmd_buf s)[l := NUL])" using l by (simp add: aset_def)
  then have "shell_interactive cmds c s w =
      map_option (\<lambda>(rv, out, w). (out, s\<lparr>cmd_buf := buf', sh_state := SH_PROMPT\<rparr>, w)) (run_words cmds (words 8 line) w)"
    using assms(2) buf'(2) by (cases "run_words cmds (words 8 line) w") (auto simp: shell_interactive_def)
  then show ?thesis using buf'(1) by (intro exI [of _ "s\<lparr>cmd_buf := buf', sh_state := SH_PROMPT\<rparr>"]) simp
qed

text \<open>
  C25. From the keyboard to the command: starting at the prompt, a typed line of up to 80 printable
  characters, ended by the return key, runs exactly what its words say. The first word selects the command
  (upper or lower case), up to seven more are its arguments, the last one keeping the rest of the line; an
  empty line or a comment does nothing, and an unknown command is an error. Then the shell is at the prompt
  again, with the state that the command left.
\<close>

theorem shell_line_executed:
  assumes "length (cmd_buf s) = 81" "sh_state s = SH_PROMPT" "current_key s = 0"
    and "list_all printable line" "length line \<le> 80"
  shows "\<exists>outs s' rv out w'. run_words cmds (words 8 line) w = Some (rv, out, w') \<and>
    sh_run cmds (- 1 # map (\<lambda>c. int (of_char c)) line @ [13, - 1]) s w = Some (outs @ [out], s', w') \<and>
    sh_state s' = SH_PROMPT \<and> length (cmd_buf s') = 81"
proof -
  define s0 where "s0 = s\<lparr>cmd_pos := 0, cmd_len := 0, sh_state := SH_INPUT\<rparr>"
  have p: "shell_interactive cmds (- 1) s w = Some (''wrc# '', s0, w)"
    using assms(2) by (simp add: shell_interactive_def s0_def)
  have s0: "ed_inv s0" "sh_state s0 = SH_INPUT" "current_key s0 = 0" "zipper s0 = ([], [])"
    using assms by (simp_all add: s0_def ed_inv_def zipper_def)
  obtain outs s1 where s1: "sh_run cmds (map (\<lambda>c. int (of_char c)) line) s0 w = Some (outs, s1, w)" "ed_inv s1"
      "sh_state s1 = SH_INPUT" "current_key s1 = 0" "zipper s1 = (line, [])"
    using type_line [OF s0, of line cmds w] assms(4,5) by auto
  have e: "key_pressed KEY_ENTER (s1\<lparr>current_key := KEY_ENTER\<rparr>) = Some ([CHR 0x0A], s1\<lparr>current_key := KEY_ENTER, sh_state := SH_EXEC\<rparr>)"
    by (simp add: key_pressed_def)
  define s2 where "s2 = s1\<lparr>current_key := 0, sh_state := SH_EXEC\<rparr>"
  have s2: "shell_interactive cmds 13 s1 w = Some ([CHR 0x0A], s2, w)"
    using s1(3,4) e by (simp add: shell_interactive_def next_key_def to_u32_def s2_def Let_def)
  have z2: "ed_inv s2" "sh_state s2 = SH_EXEC" "zipper s2 = (line, [])"
    using s1 by (simp_all add: s2_def ed_inv_def zipper_def)
  have "NUL \<notin> set line" using assms(4) by (auto simp: list_all_iff printable_def)
  from exec_state [OF z2 this, of cmds "- 1" w] obtain s3 where s3: "sh_state s3 = SH_PROMPT" "length (cmd_buf s3) = 81"
      "shell_interactive cmds (- 1) s2 w = map_option (\<lambda>(rv, out, w). (out, s3, w)) (run_words cmds (words 8 line) w)"
    by blast
  obtain rv out w' where r: "run_words cmds (words 8 line) w = Some (rv, out, w')"
    using run_words_defined [of cmds "words 8 line" w] by (metis prod_cases3)
  have "sh_run cmds (- 1 # map (\<lambda>c. int (of_char c)) line @ [13, - 1]) s w = Some ((''wrc# '' # outs @ [[CHR 0x0A]]) @ [out], s3, w')"
    using p s1(1) s2 s3(3) r by (simp add: sh_run_append)
  then show ?thesis using r s3(1,2) by blast
qed

text \<open>A line for a command that counts its calls.\<close>

definition count_command :: "nat command" where
  "count_command = (''time'', \<lambda>args n. (int (length args), n + 1))"

theorem shell_line_executed_witness:
  "\<exists>outs s'. sh_run [count_command] (- 1 # map (\<lambda>c. int (of_char c)) ''  TIME raw'' @ [13, - 1])
      (shell_example\<lparr>sh_state := SH_PROMPT\<rparr>) 4 = Some (outs @ [[]], s', 5) \<and> sh_state s' = SH_PROMPT"
proof -
  have "run_words [count_command] (words 8 ''  TIME raw'') 4 = Some (1, [], 5)" by code_simp
  moreover have "list_all printable ''  TIME raw''" by code_simp
  ultimately show ?thesis
    using shell_line_executed [of "shell_example\<lparr>sh_state := SH_PROMPT\<rparr>" "''  TIME raw''" "[count_command]" 4]
    by (simp add: shell_example_def del: words.simps) blast
qed

end
