(* ===== verification/I2c.thy ===== *)
theory I2c
  imports Bytes
begin

text \<open>
  The I2C master in software: \<open>dev/i2c.c\<close>, the pin access of \<open>include/syscon.h\<close> it is built on,
  and \<open>dev/sfp.c\<close>, which reads the part number of an SFP over it.

  What is on the pins is not under \<open>src/\<close>: the operations take an \<open>io\<close>, what writes to the set and
  clear registers do to the world \<open>'s\<close> and what the pins read. \<open>i2c_slave\<close> is the interface of a
  slave as the operations see it; the second half of the theory shows that a slave that follows
  the I2C bus specification provides it.

  \<open>mi2c_delay\<close> only spends time. The interface numbers are 0 and 1.
\<close>

record 's gpio =
  wr_GPSR :: "u32 \<Rightarrow> 's \<Rightarrow> 's"
  wr_GPCR :: "u32 \<Rightarrow> 's \<Rightarrow> 's"
  rd_GPSR :: "'s \<Rightarrow> u32"

abbreviation (input) SYSC_GPSR_FMC_SCL :: u32 where "SYSC_GPSR_FMC_SCL \<equiv> 0x4"
abbreviation (input) SYSC_GPSR_FMC_SDA :: u32 where "SYSC_GPSR_FMC_SDA \<equiv> 0x8"
abbreviation (input) SYSC_GPSR_SFP_SCL :: u32 where "SYSC_GPSR_SFP_SCL \<equiv> 0x100"
abbreviation (input) SYSC_GPSR_SFP_SDA :: u32 where "SYSC_GPSR_SFP_SDA \<equiv> 0x200"
abbreviation (input) GPIO_SFP_DET :: u32 where "GPIO_SFP_DET \<equiv> 0x80"
abbreviation (input) WRPC_FMC_I2C :: nat where "WRPC_FMC_I2C \<equiv> 0"
abbreviation (input) WRPC_SFP_I2C :: nat where "WRPC_SFP_I2C \<equiv> 1"

definition gpio_out :: "'s gpio \<Rightarrow> u32 \<Rightarrow> bool \<Rightarrow> 's \<Rightarrow> 's" where
  "gpio_out io pin val s = (if val then wr_GPSR io pin s else wr_GPCR io pin s)"

definition gpio_in :: "'s gpio \<Rightarrow> u32 \<Rightarrow> 's \<Rightarrow> bool" where
  "gpio_in io pin s \<longleftrightarrow> rd_GPSR io s AND pin \<noteq> 0"

record s_i2c_if =
  i2c_scl :: u32
  i2c_sda :: u32

definition i2c_if :: "nat \<Rightarrow> s_i2c_if" where
  "i2c_if i = [\<lparr>i2c_scl = SYSC_GPSR_FMC_SCL, i2c_sda = SYSC_GPSR_FMC_SDA\<rparr>,
               \<lparr>i2c_scl = SYSC_GPSR_SFP_SCL, i2c_sda = SYSC_GPSR_SFP_SDA\<rparr>] ! i"

section \<open>The master\<close>

definition M_SDA_OUT :: "'s gpio \<Rightarrow> nat \<Rightarrow> bool \<Rightarrow> 's \<Rightarrow> 's" where
  "M_SDA_OUT io i x s = gpio_out io (i2c_sda (i2c_if i)) x s"

definition M_SCL_OUT :: "'s gpio \<Rightarrow> nat \<Rightarrow> bool \<Rightarrow> 's \<Rightarrow> 's" where
  "M_SCL_OUT io i x s = gpio_out io (i2c_scl (i2c_if i)) x s"

definition M_SDA_IN :: "'s gpio \<Rightarrow> nat \<Rightarrow> 's \<Rightarrow> bool" where
  "M_SDA_IN io i s = gpio_in io (i2c_sda (i2c_if i)) s"

definition mi2c_start :: "'s gpio \<Rightarrow> nat \<Rightarrow> 's \<Rightarrow> 's" where
  "mi2c_start io i s =
    (let s = M_SDA_OUT io i False s
     in M_SCL_OUT io i False s)"

definition mi2c_repeat_start :: "'s gpio \<Rightarrow> nat \<Rightarrow> 's \<Rightarrow> 's" where
  "mi2c_repeat_start io i s =
    (let s = M_SDA_OUT io i True s;
         s = M_SCL_OUT io i True s;
         s = M_SDA_OUT io i False s
     in M_SCL_OUT io i False s)"

definition mi2c_stop :: "'s gpio \<Rightarrow> nat \<Rightarrow> 's \<Rightarrow> 's" where
  "mi2c_stop io i s =
    (let s = M_SDA_OUT io i False s;
         s = M_SCL_OUT io i True s
     in M_SDA_OUT io i True s)"

text \<open>The loop of \<open>mi2c_put_byte\<close>, with the number of rounds left.\<close>

fun put_bits :: "'s gpio \<Rightarrow> nat \<Rightarrow> nat \<Rightarrow> u8 \<Rightarrow> 's \<Rightarrow> 's" where
  "put_bits io i 0 data s = s"
| "put_bits io i (Suc n) data s =
    (let s = M_SDA_OUT io i (data AND 0x80 \<noteq> 0) s;
         s = M_SCL_OUT io i True s;
         s = M_SCL_OUT io i False s
     in put_bits io i n (push_bit 1 data) s)"

text \<open>The result: whether the slave did \<^emph>\<open>not\<close> acknowledge.\<close>

definition mi2c_put_byte :: "'s gpio \<Rightarrow> nat \<Rightarrow> u8 \<Rightarrow> 's \<Rightarrow> bool \<times> 's" where
  "mi2c_put_byte io i data s =
    (let s = put_bits io i 8 data s;
         s = M_SDA_OUT io i True s;
         s = M_SCL_OUT io i True s;
         ack = M_SDA_IN io i s;
         s = M_SCL_OUT io i False s;
         s = M_SDA_OUT io i False s
     in (ack, s))"

fun get_bits :: "'s gpio \<Rightarrow> nat \<Rightarrow> nat \<Rightarrow> u8 \<Rightarrow> 's \<Rightarrow> u8 \<times> 's" where
  "get_bits io i 0 indata s = (indata, s)"
| "get_bits io i (Suc n) indata s =
    (let s = M_SCL_OUT io i True s;
         indata = push_bit 1 indata;
         indata = (if M_SDA_IN io i s then indata OR 1 else indata);
         s = M_SCL_OUT io i False s
     in get_bits io i n indata s)"

definition mi2c_get_byte :: "'s gpio \<Rightarrow> nat \<Rightarrow> bool \<Rightarrow> 's \<Rightarrow> u8 \<times> 's" where
  "mi2c_get_byte io i lastb s =
    (let s = M_SDA_OUT io i True s;
         s = M_SCL_OUT io i False s;
         (indata, s) = get_bits io i 8 0 s;
         s = (if lastb
              then let s = M_SDA_OUT io i True s; s = M_SCL_OUT io i True s
                   in M_SCL_OUT io i False s
              else let s = M_SDA_OUT io i False s; s = M_SCL_OUT io i True s
                   in M_SCL_OUT io i False s)
     in (indata, s))"

definition mi2c_init :: "'s gpio \<Rightarrow> nat \<Rightarrow> 's \<Rightarrow> 's" where
  "mi2c_init io i s =
    (let s = M_SCL_OUT io i True s
     in M_SDA_OUT io i True s)"

definition mi2c_devprobe :: "'s gpio \<Rightarrow> nat \<Rightarrow> u8 \<Rightarrow> 's \<Rightarrow> bool \<times> 's" where
  "mi2c_devprobe io i i2c_addr s =
    (let s = mi2c_start io i s;
         (nack, s) = mi2c_put_byte io i (push_bit 1 i2c_addr) s;
         s = mi2c_stop io i s
     in (\<not> nack, s))"

section \<open>The SFP\<close>

definition sfp_present :: "'s gpio \<Rightarrow> 's \<Rightarrow> bool" where
  "sfp_present io s \<longleftrightarrow> \<not> gpio_in io GPIO_SFP_DET s"

text \<open>The loop over the bytes: \<open>n\<close> rounds are left, the next byte is \<open>63 - n\<close>.\<close>

fun sfp_loop :: "'s gpio \<Rightarrow> nat \<Rightarrow> u8 \<Rightarrow> u8 list \<Rightarrow> 's \<Rightarrow> (u8 \<times> u8 list \<times> 's) option" where
  "sfp_loop io 0 csum part_id s = Some (csum, part_id, s)"
| "sfp_loop io (Suc n) csum part_id s =
    (let i = 62 - n;
         (data, s) = mi2c_get_byte io WRPC_SFP_I2C False s;
         csum = ucast (ucast csum + ucast data :: u16) AND 0xff
     in do {
       part_id \<leftarrow> (if 40 \<le> i \<and> i \<le> 55 then aset part_id (int i - 40) data else Some part_id);
       sfp_loop io n csum part_id s
     })"

definition sfp_read_part_id :: "'s gpio \<Rightarrow> u8 list \<Rightarrow> 's \<Rightarrow> (int \<times> u8 list \<times> 's) option" where
  "sfp_read_part_id io part_id s =
    (let s = mi2c_init io WRPC_SFP_I2C s;
         s = mi2c_start io WRPC_SFP_I2C s;
         (_, s) = mi2c_put_byte io WRPC_SFP_I2C 0xA0 s;
         (_, s) = mi2c_put_byte io WRPC_SFP_I2C 0x00 s;
         s = mi2c_repeat_start io WRPC_SFP_I2C s;
         (_, s) = mi2c_put_byte io WRPC_SFP_I2C 0xA1 s;
         (data, s) = mi2c_get_byte io WRPC_SFP_I2C True s;
         s = mi2c_stop io WRPC_SFP_I2C s;
         sum = data;
         s = mi2c_start io WRPC_SFP_I2C s;
         (_, s) = mi2c_put_byte io WRPC_SFP_I2C 0xA1 s
     in do {
       (sum, part_id, s) \<leftarrow> sfp_loop io 62 sum part_id s;
       let (data, s) = mi2c_get_byte io WRPC_SFP_I2C True s;
       let s = mi2c_stop io WRPC_SFP_I2C s;
       Some (if sum = data then 0 else - 1, part_id, s)
     })"

section \<open>The interface of a slave\<close>

text \<open>
  What a slave does, byte by byte: it sees the start, stop and repeated start conditions, takes a
  byte and says whether it refuses it, and, after it has taken an address byte that asks for
  it (\<open>dv_sends\<close>), gives bytes until the master does not acknowledge one.
\<close>

record 'd i2c_dev =
  dv_start :: "'d \<Rightarrow> 'd"
  dv_stop :: "'d \<Rightarrow> 'd"
  dv_byte :: "u8 \<Rightarrow> 'd \<Rightarrow> bool \<times> 'd"
  dv_sends :: "'d \<Rightarrow> bool"
  dv_next :: "'d \<Rightarrow> u8"
  dv_sent :: "bool \<Rightarrow> 'd \<Rightarrow> 'd"

text \<open>
  The contract of the bus: with a slave \<open>D\<close> on it, every operation of the master has on the
  slave the effect that its name says. The state of the bus is free (\<open>idle\<close>), waiting
  for a byte of the master (\<open>rcv\<close>), waiting for a stop after a refused byte or the last
  byte (\<open>off\<close>), or waiting for the master to read (\<open>sending\<close>).
\<close>

locale i2c_link =
  fixes io :: "'s gpio" and i :: nat and D :: "'d i2c_dev"
    and idle rcv off sending :: "'s \<Rightarrow> 'd \<Rightarrow> bool"
  assumes start: "idle s d \<Longrightarrow> rcv (mi2c_start io i s) (dv_start D d)"
    and restart: "rcv s d \<Longrightarrow> rcv (mi2c_repeat_start io i s) (dv_start D d)"
    and stop: "rcv s d \<or> off s d \<Longrightarrow> idle (mi2c_stop io i s) (dv_stop D d)"
    and put: "rcv s d \<Longrightarrow> dv_byte D b d = (nack, d') \<Longrightarrow>
      fst (mi2c_put_byte io i b s) = nack \<and>
      (if nack then off else if dv_sends D d' then sending else rcv) (snd (mi2c_put_byte io i b s)) d'"
    and get: "sending s d \<Longrightarrow>
      fst (mi2c_get_byte io i lst s) = dv_next D d \<and>
      (if lst then off else sending) (snd (mi2c_get_byte io i lst s)) (dv_sent D lst d)"
    and init: "idle s d \<Longrightarrow> idle (mi2c_init io i s) d"

section \<open>A slave on the pins\<close>

text \<open>
  The protocol engine of a slave as the I2C bus specification has it: a data line that
  falls while the clock is high starts a transfer, one that rises ends it; a bit is sampled
  when the clock rises and the slave drives the line when the clock falls; every byte
  is followed by an acknowledge bit of its receiver.
\<close>

datatype i2c_phase = Quiet | Listen nat u8 | Acking | Talk nat u8 | Hear | Heard bool

record 'd slave =
  sl_scl :: bool
  sl_sda :: bool
  sl_out :: bool
  sl_phase :: i2c_phase
  sl_dev :: 'd

definition set_sda :: "'d i2c_dev \<Rightarrow> bool \<Rightarrow> 'd slave \<Rightarrow> 'd slave" where
  "set_sda D v s =
    (let s' = s\<lparr>sl_sda := v\<rparr>
     in if sl_scl s \<and> sl_sda s \<noteq> v then
          (if v then s'\<lparr>sl_phase := Quiet, sl_out := True, sl_dev := dv_stop D (sl_dev s)\<rparr>
           else s'\<lparr>sl_phase := Listen 0 0, sl_out := True, sl_dev := dv_start D (sl_dev s)\<rparr>)
        else s')"

definition scl_rise :: "'d slave \<Rightarrow> 'd slave" where
  "scl_rise s =
    (case sl_phase s of
       Listen n sh \<Rightarrow> s\<lparr>sl_phase := Listen (n + 1) (push_bit 1 sh OR of_bool (sl_sda s))\<rparr>
     | Hear \<Rightarrow> s\<lparr>sl_phase := Heard (sl_sda s)\<rparr>
     | _ \<Rightarrow> s)"

definition talk :: "'d i2c_dev \<Rightarrow> 'd slave \<Rightarrow> 'd slave" where
  "talk D s = s\<lparr>sl_phase := Talk 7 (dv_next D (sl_dev s)), sl_out := bit (dv_next D (sl_dev s)) 7\<rparr>"

definition scl_fall :: "'d i2c_dev \<Rightarrow> 'd slave \<Rightarrow> 'd slave" where
  "scl_fall D s =
    (case sl_phase s of
       Listen n sh \<Rightarrow>
         if n = 8 then
           let (nack, d) = dv_byte D sh (sl_dev s)
           in s\<lparr>sl_phase := Acking, sl_out := nack, sl_dev := d\<rparr>
         else s
     | Acking \<Rightarrow>
         if sl_out s then s\<lparr>sl_phase := Quiet\<rparr>
         else if dv_sends D (sl_dev s) then talk D s
         else s\<lparr>sl_phase := Listen 0 0, sl_out := True\<rparr>
     | Talk n b \<Rightarrow>
         if n = 0 then s\<lparr>sl_phase := Hear, sl_out := True\<rparr>
         else s\<lparr>sl_phase := Talk (n - 1) b, sl_out := bit b (n - 1)\<rparr>
     | Heard nack \<Rightarrow>
         let s = s\<lparr>sl_dev := dv_sent D nack (sl_dev s)\<rparr>
         in if nack then s\<lparr>sl_phase := Quiet\<rparr> else talk D s
     | _ \<Rightarrow> s)"

definition set_scl :: "'d i2c_dev \<Rightarrow> bool \<Rightarrow> 'd slave \<Rightarrow> 'd slave" where
  "set_scl D v s =
    (let s' = s\<lparr>sl_scl := v\<rparr>
     in if sl_scl s = v then s' else if v then scl_rise s' else scl_fall D s')"

definition slave_pin :: "'d i2c_dev \<Rightarrow> nat \<Rightarrow> bool \<Rightarrow> u32 \<Rightarrow> 'd slave \<Rightarrow> 'd slave" where
  "slave_pin D i v pin s =
    (if pin = i2c_sda (i2c_if i) then set_sda D v s
     else if pin = i2c_scl (i2c_if i) then set_scl D v s else s)"

definition slave_io :: "'d i2c_dev \<Rightarrow> nat \<Rightarrow> 'd slave gpio" where
  "slave_io D i = \<lparr>wr_GPSR = slave_pin D i True, wr_GPCR = slave_pin D i False,
     rd_GPSR = (\<lambda>s. if sl_sda s \<and> sl_out s then i2c_sda (i2c_if i) else 0)\<rparr>"

lemma slave_lines:
  assumes "i < 2"
  shows "M_SDA_OUT (slave_io D i) i v s = set_sda D v s"
    "M_SCL_OUT (slave_io D i) i v s = set_scl D v s"
    "M_SDA_IN (slave_io D i) i s \<longleftrightarrow> sl_sda s \<and> sl_out s"
proof -
  have i: "i = 0 \<or> i = 1" using assms by auto
  then show "M_SDA_OUT (slave_io D i) i v s = set_sda D v s"
    "M_SCL_OUT (slave_io D i) i v s = set_scl D v s"
    "M_SDA_IN (slave_io D i) i s \<longleftrightarrow> sl_sda s \<and> sl_out s"
    by (auto simp: M_SDA_OUT_def M_SCL_OUT_def M_SDA_IN_def gpio_out_def gpio_in_def slave_io_def
      slave_pin_def i2c_if_def)
qed

text \<open>The shift registers of the receiver: bit \<open>7\<close> comes first.\<close>

fun shift_in :: "nat \<Rightarrow> u8 \<Rightarrow> u8 \<Rightarrow> u8" where
  "shift_in 0 b sh = sh"
| "shift_in (Suc k) b sh = shift_in k (push_bit 1 b) (push_bit 1 sh OR of_bool (b AND 0x80 \<noteq> 0))"

lemma shift_in_byte: "shift_in 8 b 0 = b"
  by (rule byte_exhaust) code_simp

fun shift_out :: "nat \<Rightarrow> u8 \<Rightarrow> u8 \<Rightarrow> u8" where
  "shift_out 0 b sh = sh"
| "shift_out (Suc k) b sh = shift_out k b (push_bit 1 sh OR of_bool (bit b k))"

lemma shift_out_byte: "shift_out 8 b 0 = b"
  by (rule byte_exhaust) code_simp

abbreviation rx_state :: "bool \<Rightarrow> nat \<Rightarrow> u8 \<Rightarrow> 'd \<Rightarrow> 'd slave" where
  "rx_state x n sh d \<equiv> \<lparr>sl_scl = False, sl_sda = x, sl_out = True, sl_phase = Listen n sh, sl_dev = d\<rparr>"

abbreviation tx_state :: "bool \<Rightarrow> nat \<Rightarrow> u8 \<Rightarrow> 'd \<Rightarrow> 'd slave" where
  "tx_state x n b d \<equiv> \<lparr>sl_scl = False, sl_sda = x, sl_out = bit b n, sl_phase = Talk n b, sl_dev = d\<rparr>"

abbreviation quiet_state :: "bool \<Rightarrow> 'd \<Rightarrow> 'd slave" where
  "quiet_state x d \<equiv> \<lparr>sl_scl = False, sl_sda = x, sl_out = True, sl_phase = Quiet, sl_dev = d\<rparr>"

lemmas slave_edges = set_sda_def set_scl_def scl_rise_def scl_fall_def talk_def Let_def

lemma slave_takes_bit:
  "n \<noteq> 7 \<Longrightarrow> set_scl D False (set_scl D True (set_sda D v (rx_state x n sh d))) =
    rx_state v (n + 1) (push_bit 1 sh OR of_bool v) d"
  by (simp add: slave_edges)

lemma slave_takes_last_bit:
  "dv_byte D (push_bit 1 sh OR of_bool v) d = (nack, d') \<Longrightarrow>
    set_scl D False (set_scl D True (set_sda D v (rx_state x 7 sh d))) =
    \<lparr>sl_scl = False, sl_sda = v, sl_out = nack, sl_phase = Acking, sl_dev = d'\<rparr>"
  by (simp add: slave_edges)

lemma put_bits_slave:
  assumes i: "i < 2"
  shows "k \<le> 7 \<Longrightarrow> dv_byte D (shift_in (Suc k) b sh) d = (nack, d') \<Longrightarrow>
    \<exists>v. put_bits (slave_io D i) i (Suc k) b (rx_state x (7 - k) sh d) =
      \<lparr>sl_scl = False, sl_sda = v, sl_out = nack, sl_phase = Acking, sl_dev = d'\<rparr>"
proof (induction k arbitrary: x sh b)
  case 0
  then have "dv_byte D (push_bit 1 sh OR of_bool (b AND 0x80 \<noteq> 0)) d = (nack, d')"
    by (simp only: shift_in.simps)
  from slave_takes_last_bit [OF this] show ?case
    by (simp only: put_bits.simps Let_def slave_lines [OF i] diff_zero) blast
next
  case (Suc k)
  let ?v = "b AND 0x80 \<noteq> 0"
  have "7 - Suc k \<noteq> 7" "7 - Suc k + 1 = 7 - k" using Suc.prems(1) by auto
  note step = slave_takes_bit [OF this(1), of D ?v x sh d, unfolded this(2)]
  have "dv_byte D (shift_in (Suc k) (push_bit 1 b) (push_bit 1 sh OR of_bool ?v)) d = (nack, d')"
    using Suc.prems(2) by (subst (asm) shift_in.simps)
  from Suc.IH [OF _ this] show ?case
    unfolding put_bits.simps(2) [of _ _ "Suc k"] Let_def slave_lines [OF i] step
    using Suc.prems(1) by auto
qed

lemma slave_put:
  assumes i: "i < 2" and d: "dv_byte D b d = (nack, d')"
  shows "mi2c_put_byte (slave_io D i) i b (rx_state x 0 0 d) =
    (nack, if nack then quiet_state False d'
           else if dv_sends D d' then tx_state False 7 (dv_next D d') d'
           else rx_state False 0 0 d')"
proof -
  have "dv_byte D (shift_in (Suc 7) b 0) d = (nack, d')"
    using d shift_in_byte [of b] by simp
  from put_bits_slave [OF i order_refl this, of x] obtain v where
    "put_bits (slave_io D i) i 8 b (rx_state x 0 0 d) =
      \<lparr>sl_scl = False, sl_sda = v, sl_out = nack, sl_phase = Acking, sl_dev = d'\<rparr>"
    by auto
  then show ?thesis
    unfolding mi2c_put_byte_def Let_def slave_lines [OF i] by (simp add: slave_edges)
qed

lemma get_bits_slave:
  assumes i: "i < 2"
  shows "k \<le> 7 \<Longrightarrow> get_bits (slave_io D i) i (Suc k) sh (tx_state True k b d) =
    (shift_out (Suc k) b sh,
     \<lparr>sl_scl = False, sl_sda = True, sl_out = True, sl_phase = Hear, sl_dev = d\<rparr>)"
proof (induction k arbitrary: sh)
  case 0
  then show ?case
    unfolding get_bits.simps Let_def slave_lines [OF i] by (simp add: slave_edges)
next
  case (Suc k)
  have "set_scl D False (set_scl D True (tx_state True (Suc k) b d)) = tx_state True k b d"
    "sl_sda (set_scl D True (tx_state True (Suc k) b d))"
    "sl_out (set_scl D True (tx_state True (Suc k) b d)) = bit b (Suc k)"
    by (simp_all add: slave_edges)
  then show ?case
    unfolding get_bits.simps(2) [of _ _ "Suc k"] shift_out.simps(2) [of "Suc k"] Let_def
      slave_lines [OF i]
    using Suc by (cases "bit b (Suc k)") (simp_all del: get_bits.simps shift_out.simps)
qed

lemma slave_get:
  assumes i: "i < 2"
  shows "mi2c_get_byte (slave_io D i) i lst (tx_state x 7 (dv_next D d) d) =
    (dv_next D d, if lst then quiet_state True (dv_sent D True d)
       else tx_state False 7 (dv_next D (dv_sent D False d)) (dv_sent D False d))"
proof -
  have "set_scl D False (set_sda D True (tx_state x 7 (dv_next D d) d)) = tx_state True 7 (dv_next D d) d"
    by (simp add: slave_edges)
  moreover have "get_bits (slave_io D i) i 8 0 (tx_state True 7 (dv_next D d) d) =
    (dv_next D d, \<lparr>sl_scl = False, sl_sda = True, sl_out = True, sl_phase = Hear, sl_dev = d\<rparr>)"
    using get_bits_slave [OF i, of 7 D 0 "dv_next D d" d] shift_out_byte [of "dv_next D d"] by simp
  ultimately show ?thesis
    unfolding mi2c_get_byte_def Let_def slave_lines [OF i] by (simp add: slave_edges)
qed

definition sl_idle :: "'d slave \<Rightarrow> 'd \<Rightarrow> bool" where
  "sl_idle s d \<longleftrightarrow> s = \<lparr>sl_scl = True, sl_sda = True, sl_out = True, sl_phase = Quiet, sl_dev = d\<rparr>"

definition sl_rcv :: "'d slave \<Rightarrow> 'd \<Rightarrow> bool" where
  "sl_rcv s d \<longleftrightarrow> s = rx_state False 0 0 d"

definition sl_off :: "'d slave \<Rightarrow> 'd \<Rightarrow> bool" where
  "sl_off s d \<longleftrightarrow> (\<exists>v. s = quiet_state v d)"

definition sl_snd :: "'d i2c_dev \<Rightarrow> 'd slave \<Rightarrow> 'd \<Rightarrow> bool" where
  "sl_snd D s d \<longleftrightarrow> (\<exists>v. s = tx_state v 7 (dv_next D d) d)"

text \<open>The slave on the pins keeps the contract, for every device.\<close>

lemma slave_link:
  assumes i: "i < 2"
  shows "i2c_link (slave_io D i) i D sl_idle sl_rcv sl_off (sl_snd D)"
proof
  show "sl_idle s d \<Longrightarrow> sl_rcv (mi2c_start (slave_io D i) i s) (dv_start D d)" for s d
    unfolding mi2c_start_def Let_def slave_lines [OF i]
    by (simp add: sl_idle_def sl_rcv_def slave_edges)
  show "sl_rcv s d \<Longrightarrow> sl_rcv (mi2c_repeat_start (slave_io D i) i s) (dv_start D d)" for s d
    unfolding mi2c_repeat_start_def Let_def slave_lines [OF i]
    by (simp add: sl_rcv_def slave_edges)
  show "sl_rcv s d \<or> sl_off s d \<Longrightarrow> sl_idle (mi2c_stop (slave_io D i) i s) (dv_stop D d)" for s d
    unfolding mi2c_stop_def Let_def slave_lines [OF i]
    by (auto simp: sl_rcv_def sl_off_def sl_idle_def slave_edges)
  show "sl_idle s d \<Longrightarrow> sl_idle (mi2c_init (slave_io D i) i s) d" for s d
    unfolding mi2c_init_def Let_def slave_lines [OF i] by (simp add: sl_idle_def slave_edges)
next
  fix s d b nack d' assume "sl_rcv s d" and b: "dv_byte D b d = (nack, d')"
  then show "fst (mi2c_put_byte (slave_io D i) i b s) = nack \<and>
    (if nack then sl_off else if dv_sends D d' then sl_snd D else sl_rcv)
      (snd (mi2c_put_byte (slave_io D i) i b s)) d'"
    by (auto simp: sl_rcv_def slave_put [OF i b] sl_off_def sl_snd_def)
next
  fix s d lst assume "sl_snd D s d"
  then show "fst (mi2c_get_byte (slave_io D i) i lst s) = dv_next D d \<and>
    (if lst then sl_off else sl_snd D)
      (snd (mi2c_get_byte (slave_io D i) i lst s)) (dv_sent D lst d)"
    by (auto simp: sl_snd_def slave_get [OF i] sl_off_def)
qed

end
