(* ===== verification/I2c_Mem.thy ===== *)
theory I2c_Mem
  imports I2c
begin

text \<open>
  Serial memories on the I2C bus: the contract of such a chip (its data sheet) as locales over that
  of the bus, what the operations of the master do to it, and a chip that keeps the contract.
  The EEPROM of the card and the memory of the SFP are both of this kind.
\<close>

text \<open>Bytes that the slave must take, none of which may turn it into a sender.\<close>

fun feed :: "'d i2c_dev \<Rightarrow> u8 list \<Rightarrow> 'd \<Rightarrow> 'd option" where
  "feed D [] d = Some d"
| "feed D (b # bs) d =
    (let (nack, d) = dv_byte D b d in if nack \<or> dv_sends D d then None else feed D bs d)"

text \<open>
  \<open>std d p\<close>: the chip stands by, with its address counter at \<open>p\<close>; \<open>sel d p\<close>: it has been addressed
  for writing and its counter set to \<open>p\<close>; \<open>rd d p\<close>: it sends, from \<open>p\<close> on.
\<close>

locale serial_memory = i2c_link io i D idle rcv off sending
  for io :: "'s gpio" and i :: nat and D :: "'d i2c_dev"
    and idle rcv off sending :: "'s \<Rightarrow> 'd \<Rightarrow> bool" +
  fixes a :: u8 and alen sz :: nat and mem :: "'d \<Rightarrow> nat \<Rightarrow> u8"
    and std sel rd :: "'d \<Rightarrow> nat \<Rightarrow> bool"
  assumes select: "std d p \<Longrightarrow> length bs = alen \<Longrightarrow> be_val bs < sz \<Longrightarrow>
      \<exists>d'. feed D (push_bit 1 a # bs) (dv_start D d) = Some d' \<and> sel d' (be_val bs) \<and> mem d' = mem d"
    and read_selected: "sel d p \<Longrightarrow> \<exists>d'. dv_byte D (push_bit 1 a OR 1) (dv_start D d) = (False, d') \<and>
      dv_sends D d' \<and> rd d' p \<and> mem d' = mem d"
    and read_current: "std d p \<Longrightarrow> \<exists>d'. dv_byte D (push_bit 1 a OR 1) (dv_start D d) = (False, d') \<and>
      dv_sends D d' \<and> rd d' p \<and> mem d' = mem d"
    and read_next: "rd d p \<Longrightarrow> p < sz \<Longrightarrow> dv_next D d = mem d p"
    and read_more: "rd d p \<Longrightarrow> rd (dv_sent D False d) (Suc p) \<and> mem (dv_sent D False d) = mem d"
    and read_end: "rd d p \<Longrightarrow> std (dv_stop D (dv_sent D True d)) (Suc p) \<and>
      mem (dv_stop D (dv_sent D True d)) = mem d"

text \<open>
  A writable one: after a byte has been written the chip is busy (\<open>cyc\<close>) and refuses its
  address, a finite number of times (\<open>left\<close>).
\<close>

locale eeprom_chip = serial_memory +
  fixes cyc :: "'b \<Rightarrow> bool" and left :: "'b \<Rightarrow> nat"
  assumes ec_write: "sel d p \<Longrightarrow> p < sz \<Longrightarrow> \<exists>d'. dv_byte D x d = (False, d') \<and> \<not> dv_sends D d' \<and>
      cyc (dv_stop D d') \<and> mem (dv_stop D d') = (mem d)(p := x)"
    and ec_poll: "cyc d \<Longrightarrow> dv_byte D (push_bit 1 a) (dv_start D d) = (nack, d') \<Longrightarrow>
      mem (dv_stop D d') = mem d \<and>
      (if nack then cyc (dv_stop D d') \<and> left (dv_stop D d') < left d
       else \<not> dv_sends D d' \<and> (\<exists>p. std (dv_stop D d') p))"

section \<open>The operations of the master on such a chip\<close>

context i2c_link
begin

lemma put_ack:
  assumes "rcv s d" "dv_byte D b d = (False, d')" "\<not> dv_sends D d'"
  obtains s' where "mi2c_put_byte io i b s = (False, s')" "rcv s' d'"
  using put [OF assms(1,2)] assms(3) by (cases "mi2c_put_byte io i b s") auto

lemma put_nack:
  assumes "rcv s d" "dv_byte D b d = (True, d')"
  obtains s' where "mi2c_put_byte io i b s = (True, s')" "off s' d'"
  using put [OF assms(1,2)] by (cases "mi2c_put_byte io i b s") auto

lemma put_read:
  assumes "rcv s d" "dv_byte D b d = (False, d')" "dv_sends D d'"
  obtains s' where "mi2c_put_byte io i b s = (False, s')" "sending s' d'"
  using put [OF assms(1,2)] assms(3) by (cases "mi2c_put_byte io i b s") auto

lemma feed_Cons:
  assumes "feed D (b # bs) d = Some d'"
  obtains d1 where "dv_byte D b d = (False, d1)" "\<not> dv_sends D d1" "feed D bs d1 = Some d'"
  using assms by (auto split: prod.splits if_splits)

end

context serial_memory
begin

lemma get_more:
  assumes "sending s d" "rd d p" "p < sz"
  obtains s' d' where "mi2c_get_byte io i False s = (mem d p, s')" "sending s' d'" "rd d' (Suc p)"
    "mem d' = mem d"
  using get [OF assms(1), of False] read_next [OF assms(2,3)] read_more [OF assms(2)]
  by (cases "mi2c_get_byte io i False s") auto

lemma get_last:
  assumes "sending s d" "rd d p" "p < sz"
  obtains s' d' where "mi2c_get_byte io i True s = (mem d p, s')" "idle (mi2c_stop io i s') d'"
    "std d' (Suc p)" "mem d' = mem d"
  using get [OF assms(1), of True] read_next [OF assms(2,3)] read_end [OF assms(2)]
    stop [of "snd (mi2c_get_byte io i True s)" "dv_sent D True d"]
  by (cases "mi2c_get_byte io i True s") auto

end

section \<open>A chip\<close>

datatype sm_mode = Deselected | Addressing | Pointing nat | Sending

record smem =
  sm_mem :: "nat \<Rightarrow> u8"
  sm_ptr :: nat
  sm_mode :: sm_mode
  sm_dirty :: bool
  sm_busy :: nat

text \<open>
  \<open>alen\<close> address bytes, \<open>sz\<close> bytes of memory, \<open>a\<close> the bus address, \<open>wt\<close> the number of polls
  that a write cycle takes.
\<close>

definition sm_take :: "nat \<Rightarrow> nat \<Rightarrow> u8 \<Rightarrow> u8 \<Rightarrow> smem \<Rightarrow> bool \<times> smem" where
  "sm_take alen sz a b d =
    (case sm_mode d of
       Addressing \<Rightarrow>
         if 0 < sm_busy d then (True, d\<lparr>sm_busy := sm_busy d - 1, sm_mode := Deselected\<rparr>)
         else if b = push_bit 1 a then
           (False, d\<lparr>sm_mode := Pointing alen, sm_ptr := if alen = 0 then sm_ptr d else 0\<rparr>)
         else if b = push_bit 1 a OR 1 then (False, d\<lparr>sm_mode := Sending\<rparr>)
         else (True, d\<lparr>sm_mode := Deselected\<rparr>)
     | Pointing (Suc k) \<Rightarrow>
         (False, d\<lparr>sm_mode := Pointing k, sm_ptr := (sm_ptr d * 256 + unat b) mod sz\<rparr>)
     | Pointing 0 \<Rightarrow>
         (False, d\<lparr>sm_mem := (sm_mem d)(sm_ptr d := b), sm_ptr := Suc (sm_ptr d) mod sz,
                   sm_dirty := True\<rparr>)
     | _ \<Rightarrow> (True, d))"

definition serial_dev :: "nat \<Rightarrow> nat \<Rightarrow> u8 \<Rightarrow> nat \<Rightarrow> smem i2c_dev" where
  "serial_dev alen sz a wt =
    \<lparr>dv_start = (\<lambda>d. d\<lparr>sm_mode := Addressing\<rparr>),
     dv_stop = (\<lambda>d. d\<lparr>sm_mode := Deselected, sm_dirty := False,
       sm_busy := if sm_dirty d then wt else sm_busy d\<rparr>),
     dv_byte = sm_take alen sz a,
     dv_sends = (\<lambda>d. sm_mode d = Sending),
     dv_next = (\<lambda>d. sm_mem d (sm_ptr d)),
     dv_sent = (\<lambda>nack d. d\<lparr>sm_ptr := Suc (sm_ptr d) mod sz,
       sm_mode := if nack then Deselected else Sending\<rparr>)\<rparr>"

definition sm_std :: "nat \<Rightarrow> smem \<Rightarrow> nat \<Rightarrow> bool" where
  "sm_std sz d p \<longleftrightarrow> sm_busy d = 0 \<and> \<not> sm_dirty d \<and> sm_mode d = Deselected \<and> sm_ptr d = p mod sz"

definition sm_sel :: "nat \<Rightarrow> smem \<Rightarrow> nat \<Rightarrow> bool" where
  "sm_sel sz d p \<longleftrightarrow> sm_busy d = 0 \<and> \<not> sm_dirty d \<and> sm_mode d = Pointing 0 \<and> sm_ptr d = p mod sz"

definition sm_rd :: "nat \<Rightarrow> smem \<Rightarrow> nat \<Rightarrow> bool" where
  "sm_rd sz d p \<longleftrightarrow> sm_busy d = 0 \<and> \<not> sm_dirty d \<and> sm_mode d = Sending \<and> sm_ptr d = p mod sz"

definition sm_cyc :: "smem \<Rightarrow> bool" where
  "sm_cyc d \<longleftrightarrow> \<not> sm_dirty d \<and> sm_mode d = Deselected"

lemmas serial_dev_defs = serial_dev_def sm_take_def sm_std_def sm_sel_def sm_rd_def sm_cyc_def

lemma feed_pointing:
  assumes "sm_mode d = Pointing (length bs)" "sm_ptr d < sz"
  shows "\<exists>d'. feed (serial_dev alen sz a wt) bs d = Some d' \<and> sm_mode d' = Pointing 0 \<and>
    sm_ptr d' = foldl (\<lambda>p b. (p * 256 + unat b) mod sz) (sm_ptr d) bs \<and> sm_mem d' = sm_mem d \<and>
    sm_busy d' = sm_busy d \<and> sm_dirty d' = sm_dirty d"
  using assms
proof (induction bs arbitrary: d)
  case (Cons b bs)
  let ?d = "d\<lparr>sm_mode := Pointing (length bs), sm_ptr := (sm_ptr d * 256 + unat b) mod sz\<rparr>"
  have "dv_byte (serial_dev alen sz a wt) b d = (False, ?d)"
    "\<not> dv_sends (serial_dev alen sz a wt) ?d"
    using Cons.prems by (simp_all add: serial_dev_def sm_take_def)
  then show ?case using Cons.IH [of ?d] Cons.prems by simp
qed simp

lemma foldl_mod_be:
  "foldl (\<lambda>p b. (p * 256 + unat b) mod sz) (p mod sz) bs =
    foldl (\<lambda>p b. p * 256 + unat (b :: u8)) p bs mod sz"
proof (induction bs arbitrary: p)
  case (Cons b bs)
  have "(p mod sz * 256 + unat b) mod sz = (p * 256 + unat b) mod sz"
    by (metis mod_add_left_eq mod_mult_left_eq)
  then show ?case using Cons.IH [of "p * 256 + unat b"] by simp
qed simp

lemma serial_dev_eeprom:
  assumes "i < 2" "0 < alen" "0 < sz" "push_bit 1 a \<noteq> push_bit 1 a OR 1"
  shows "eeprom_chip (slave_io (serial_dev alen sz a wt) i) i (serial_dev alen sz a wt)
    sl_idle sl_rcv sl_off (sl_snd (serial_dev alen sz a wt)) a alen sz sm_mem
    (sm_std sz) (sm_sel sz) (sm_rd sz) sm_cyc sm_busy"
  (is "eeprom_chip _ _ ?D _ _ _ _ _ _ _ _ _ _ _ _ _")
proof (rule eeprom_chip.intro)
  show "serial_memory (slave_io ?D i) i ?D sl_idle sl_rcv sl_off (sl_snd ?D) a alen sz sm_mem
    (sm_std sz) (sm_sel sz) (sm_rd sz)"
  proof (rule serial_memory.intro)
    show "i2c_link (slave_io ?D i) i ?D sl_idle sl_rcv sl_off (sl_snd ?D)"
      by (rule slave_link [OF assms(1)])
    show "serial_memory_axioms ?D a alen sz sm_mem (sm_std sz) (sm_sel sz) (sm_rd sz)"
    proof
      fix d p and bs :: "u8 list"
      assume d: "sm_std sz d p" and bs: "length bs = alen" "be_val bs < sz"
      let ?d = "d\<lparr>sm_mode := Pointing alen, sm_ptr := 0\<rparr>"
      have "dv_byte ?D (push_bit 1 a) (dv_start ?D d) = (False, ?d)" "\<not> dv_sends ?D ?d"
        using d assms(2) by (simp_all add: serial_dev_defs)
      moreover obtain d' where "feed ?D bs ?d = Some d'" "sm_mode d' = Pointing 0"
        "sm_ptr d' = be_val bs" "sm_mem d' = sm_mem d" "sm_busy d' = sm_busy d" "sm_dirty d' = sm_dirty d"
        using feed_pointing [of ?d bs sz alen a wt] bs assms(3) foldl_mod_be [of sz 0 bs]
        by (auto simp: be_val_def)
      ultimately show "\<exists>d'. feed ?D (push_bit 1 a # bs) (dv_start ?D d) = Some d' \<and>
          sm_sel sz d' (be_val bs) \<and> sm_mem d' = sm_mem d"
        using d bs by (simp add: sm_sel_def sm_std_def)
    qed (use assms in \<open>auto simp: serial_dev_defs mod_Suc\<close>)
  qed
  show "eeprom_chip_axioms ?D a sz sm_mem (sm_std sz) (sm_sel sz) sm_cyc sm_busy"
    by unfold_locales (use assms in \<open>auto simp: serial_dev_defs split: if_splits intro!: exI [of _ "0 :: nat"]\<close>)
qed

text \<open>Every bus with such a chip is an interpretation; the two of the node are named.\<close>

abbreviation fmc_eeprom :: "nat \<Rightarrow> smem i2c_dev" where
  "fmc_eeprom wt \<equiv> serial_dev 2 8192 0x50 wt"

abbreviation sfp_memory :: "nat \<Rightarrow> smem i2c_dev" where
  "sfp_memory wt \<equiv> serial_dev 1 256 0x50 wt"

interpretation fmc: eeprom_chip "slave_io (fmc_eeprom wt) 0" 0 "fmc_eeprom wt" sl_idle sl_rcv sl_off
    "sl_snd (fmc_eeprom wt)" "0x50" 2 8192 sm_mem "sm_std 8192" "sm_sel 8192" "sm_rd 8192" sm_cyc sm_busy
  for wt
  by (rule serial_dev_eeprom) simp_all

interpretation sfp: serial_memory "slave_io (sfp_memory wt) 1" 1 "sfp_memory wt" sl_idle sl_rcv sl_off
    "sl_snd (sfp_memory wt)" "0x50" 1 256 sm_mem "sm_std 256" "sm_sel 256" "sm_rd 256"
  for wt
  by (rule eeprom_chip.axioms(1), rule serial_dev_eeprom) simp_all

section \<open>The part number of the SFP\<close>

lemma byte_sum: "ucast (ucast x + ucast y :: u16) AND 0xff = (x + y :: u8)"
proof -
  have bound: "unat w < 256" for w :: u8 using unsigned_less [of w] by simp
  have mask: "(0xff :: u8) = - 1" by simp
  have "ucast (ucast x + ucast y :: u16) = x + y"
    using bound [of x] bound [of y] unfolding word_unat_eq_iff
    by (simp add: unat_word_ariths unsigned_ucast_eq take_bit_eq_mod mod_mod_cancel)
  then show ?thesis unfolding mask by simp
qed

context serial_memory
begin

lemma sfp_loop_reads:
  assumes i: "i = 1" and sz: "63 \<le> sz"
  shows "n \<le> 62 \<Longrightarrow> sending s d \<Longrightarrow> rd d (63 - n) \<Longrightarrow> length part = 16 \<Longrightarrow>
    \<exists>part' s' d'. sfp_loop io n c part s = Some (c + (\<Sum>k\<in>{63 - n..<63}. mem d k), part', s') \<and>
      sending s' d' \<and> rd d' 63 \<and> mem d' = mem d \<and> length part' = 16 \<and>
      (\<forall>j<16. part' ! j = (if 63 - n \<le> 40 + j then mem d (40 + j) else part ! j))"
proof (induction n arbitrary: s d c part)
  case (Suc n)
  let ?k = "63 - Suc n"
  have k: "?k < sz" "62 - n = ?k" "Suc ?k = 63 - n" "?k < 63" using Suc.prems(1) sz by auto
  obtain s' d' where g: "mi2c_get_byte io 1 False s = (mem d ?k, s')" "sending s' d'" "rd d' (63 - n)"
    "mem d' = mem d"
    using get_more [OF Suc.prems(2,3) k(1)] i k(3) by metis
  define part1 where "part1 = (if 40 \<le> ?k \<and> ?k \<le> 55 then part[?k - 40 := mem d ?k] else part)"
  have p1: "(if 40 \<le> ?k \<and> ?k \<le> 55 then aset part (int ?k - 40) (mem d ?k) else Some part) = Some part1"
    "length part1 = 16"
    using Suc.prems(4) by (auto simp: part1_def aset_def nat_diff_distrib)
  have sum: "ucast (ucast c + ucast (mem d ?k) :: u16) AND 0xff = c + mem d ?k"
    by (rule byte_sum)
  have tot: "c + (\<Sum>k\<in>{?k..<63}. mem d k) = c + mem d ?k + (\<Sum>k\<in>{63 - n..<63}. mem d' k)"
    unfolding sum.atLeast_Suc_lessThan [OF k(4)] k(3) g(4) by (rule add.assoc [symmetric])
  have step: "sfp_loop io (Suc n) c part s = sfp_loop io n (c + mem d ?k) part1 s'"
    unfolding sfp_loop.simps Let_def k(2) g(1) prod.case sum p1(1) by simp
  obtain part' s2 d2 where r: "sfp_loop io n (c + mem d ?k) part1 s' =
      Some (c + mem d ?k + (\<Sum>k\<in>{63 - n..<63}. mem d' k), part', s2)" "sending s2 d2" "rd d2 63"
    "mem d2 = mem d'" "length part' = 16"
    "\<forall>j<16. part' ! j = (if 63 - n \<le> 40 + j then mem d' (40 + j) else part1 ! j)"
    using Suc.IH [OF _ g(2,3) p1(2), of "c + mem d ?k"] Suc.prems(1) by auto
  have "part' ! j = (if ?k \<le> 40 + j then mem d (40 + j) else part ! j)" if j: "j < 16" for j
    using r(6) j k(3) g(4) Suc.prems(4) by (cases "?k = 40 + j") (auto simp: part1_def nth_list_update)
  with r g(4) show ?case unfolding step tot by auto
qed auto

lemma sfp_part_id:
  assumes i: "i = 1" and sz: "sz = 256" and a: "a = 0x50" "alen = 1"
    and s: "idle s d" "std d p" and part: "length part = 16"
  shows "\<exists>s' d'. sfp_read_part_id io part s =
      Some (if (\<Sum>k\<in>{0..<63}. mem d k) = mem d 63 then 0 else - 1, map (mem d) [40..<56], s') \<and>
    idle s' d' \<and> std d' 64 \<and> mem d' = mem d"
proof -
  let ?s0 = "mi2c_start io 1 (mi2c_init io 1 s)"
  have s0: "rcv ?s0 (dv_start D d)" using start [OF init [OF s(1)]] i by simp
  obtain d3 where d3: "feed D [0xA0, 0] (dv_start D d) = Some d3" "sel d3 0" "mem d3 = mem d"
    using select [OF s(2), of "[0]"] a sz by auto
  obtain d1 where d1: "dv_byte D 0xA0 (dv_start D d) = (False, d1)" "\<not> dv_sends D d1"
      "feed D [0] d1 = Some d3"
    by (rule feed_Cons [OF d3(1)])
  obtain d2 where d2: "dv_byte D 0 d1 = (False, d2)" "\<not> dv_sends D d2" "feed D [] d2 = Some d3"
    by (rule feed_Cons [OF d1(3)])
  obtain s1 where s1: "mi2c_put_byte io 1 0xA0 ?s0 = (False, s1)" "rcv s1 d1"
    using put_ack [OF s0 d1(1,2)] i by blast
  obtain s2 where s2: "mi2c_put_byte io 1 0 s1 = (False, s2)" "rcv s2 d3"
    using put_ack [OF s1(2) d2(1,2)] d2(3) i by auto
  obtain d4 where d4: "dv_byte D 0xA1 (dv_start D d3) = (False, d4)" "dv_sends D d4" "rd d4 0"
      "mem d4 = mem d"
    using read_selected [OF d3(2)] d3(3) a by auto
  obtain s4 where s4: "mi2c_put_byte io 1 0xA1 (mi2c_repeat_start io 1 s2) = (False, s4)" "sending s4 d4"
    using put_read [OF restart [OF s2(2)] d4(1,2)] i by auto
  obtain s5 d5 where s5: "mi2c_get_byte io 1 True s4 = (mem d 0, s5)" "idle (mi2c_stop io 1 s5) d5"
      "std d5 1" "mem d5 = mem d"
    using get_last [OF s4(2) d4(3)] sz d4(4) i by auto
  obtain d6 where d6: "dv_byte D 0xA1 (dv_start D d5) = (False, d6)" "dv_sends D d6" "rd d6 1"
      "mem d6 = mem d"
    using read_current [OF s5(3)] s5(4) a by auto
  obtain s6 where s6: "mi2c_put_byte io 1 0xA1 (mi2c_start io 1 (mi2c_stop io 1 s5)) = (False, s6)"
      "sending s6 d6"
    using put_read [OF start [OF s5(2)] d6(1,2)] i by auto
  obtain part' s7 d7 where l: "sfp_loop io 62 (mem d 0) part s6 =
      Some (mem d 0 + (\<Sum>k\<in>{1..<63}. mem d k), part', s7)" "sending s7 d7" "rd d7 63" "mem d7 = mem d"
      "length part' = 16" "\<forall>j<16. part' ! j = mem d (40 + j)"
    using sfp_loop_reads [OF i _ order_refl s6(2) _ part, of "mem d 0"] sz d6(3,4) by auto
  obtain s8 d8 where s8: "mi2c_get_byte io 1 True s7 = (mem d 63, s8)" "idle (mi2c_stop io 1 s8) d8"
      "std d8 64" "mem d8 = mem d"
    using get_last [OF l(2,3)] sz l(4) i by auto
  have "{0 :: nat..<63} = insert 0 {1..<63}" by auto
  then have sum: "mem d 0 + (\<Sum>k\<in>{1..<63}. mem d k) = (\<Sum>k\<in>{0..<63}. mem d k)" by simp
  have "part' = map (mem d) [40..<56]"
    using l(5,6) by (intro nth_equalityI) (auto simp del: upt_rec_numeral)
  with s8(2-4) show ?thesis
    unfolding sfp_read_part_id_def Let_def
    by (intro exI [of _ "mi2c_stop io 1 s8"] exI [of _ d8])
      (simp add: s1(1) s2(1) s4(1) s5(1) s6(1) l(1) sum s8(1) Let_def
        del: One_nat_def upt_rec_numeral)
qed

end

text \<open>
  C26. Reading the part number of an SFP, over any bus that keeps the I2C contract and with any
  chip that keeps that of a serial memory with one address byte, delivers bytes 40 to 55 of its
  memory, and succeeds exactly when byte 63 is the sum of the bytes before it.
\<close>

theorem sfp_part_id_read:
  assumes "serial_memory io WRPC_SFP_I2C D idle rcv off sending 0x50 1 256 mem std sel rd"
    and "idle s d" "std d p" "length part_id = 16"
  shows "\<exists>s'. sfp_read_part_id io part_id s =
      Some (if (\<Sum>k\<in>{0..<63}. mem d k) = mem d 63 then 0 else - 1, map (mem d) [40..<56], s')"
  using serial_memory.sfp_part_id [OF assms(1) refl refl refl refl assms(2-4)] by blast

theorem sfp_part_id_read_witness:
  defines "m \<equiv> \<lambda>k. if k = 63 then 161 else word_of_nat k"
  shows "\<exists>s'. sfp_read_part_id (slave_io (sfp_memory 3) 1) (replicate 16 0)
      \<lparr>sl_scl = True, sl_sda = True, sl_out = True, sl_phase = Quiet,
       sl_dev = \<lparr>sm_mem = m, sm_ptr = 7, sm_mode = Deselected, sm_dirty = False, sm_busy = 0\<rparr>\<rparr> =
    Some (0, map word_of_nat [40..<56], s')"
proof -
  let ?d = "\<lparr>sm_mem = m, sm_ptr = 7, sm_mode = Deselected, sm_dirty = False, sm_busy = 0\<rparr>"
  have "sl_idle \<lparr>sl_scl = True, sl_sda = True, sl_out = True, sl_phase = Quiet, sl_dev = ?d\<rparr> ?d"
    by (simp add: sl_idle_def)
  moreover have "sm_std 256 ?d 7" by (simp add: sm_std_def)
  moreover have "(\<Sum>k\<in>{0..<63}. m k) = m 63"
    unfolding m_def by code_simp
  moreover have "map m [40..<56] = map word_of_nat [40..<56]" by (simp add: m_def)
  ultimately show ?thesis
    using sfp_part_id_read [OF sfp.serial_memory_axioms, of _ ?d 7 "replicate 16 0"] by simp
qed

end
