(* ===== verification/Eeprom.thy ===== *)
theory Eeprom
  imports I2c_Mem
begin

text \<open>
  The store in the I2C EEPROM of the card, \<open>dev/eeprom.c\<close>: calibration value, data base of
  SFPs and init script, on the byte accesses \<open>eeprom_read\<close> and \<open>eeprom_write\<close>.

  \<open>ee\<close> holds the variables of the file (\<open>has_eeprom\<close> and the static variables of two functions), \<open>'s\<close>
  is the state of the bus. \<open>None\<close> means that the operation does not return: the loops that
  wait for the chip, and the loop of \<open>eeprom_match_sfp\<close>, may not end. A read that fails
  delivers no bytes and the caller's buffer keeps its value. Numbers are stored big endian,
  as the CPU has them.
\<close>

abbreviation (input) EE_BASE_CAL :: u32 where "EE_BASE_CAL \<equiv> 4096"
abbreviation (input) EE_BASE_SFP :: u32 where "EE_BASE_SFP \<equiv> 4100"
abbreviation (input) EE_BASE_INIT :: u32 where "EE_BASE_INIT \<equiv> 4212"
abbreviation (input) SFPS_MAX :: u8 where "SFPS_MAX \<equiv> 4"
abbreviation (input) EE_RET_I2CERR :: int where "EE_RET_I2CERR \<equiv> - 1"
abbreviation (input) EE_RET_DBFULL :: int where "EE_RET_DBFULL \<equiv> - 2"
abbreviation (input) EE_RET_CORRPT :: int where "EE_RET_CORRPT \<equiv> - 3"
abbreviation (input) EE_RET_POSERR :: int where "EE_RET_POSERR \<equiv> - 4"
abbreviation (input) FMC_EEPROM_ADR :: u8 where "FMC_EEPROM_ADR \<equiv> 0x50"

definition s8 :: "int \<Rightarrow> int" where
  "s8 i = signed_take_bit 7 i"

lemma s8_id: "- 128 \<le> i \<Longrightarrow> i < 128 \<Longrightarrow> s8 i = i"
  unfolding s8_def by (simp add: signed_take_bit_int_eq_self_iff)

record s_sfpinfo =
  pn :: "u8 list"
  alpha :: int
  dTx :: int
  dRx :: int
  chksum :: u8

record ee =
  has_eeprom :: bool
  ee_sfpcount :: u8
  rc_ptr :: u16
  rc_used :: u16

text \<open>The packed struct in memory.\<close>

definition i32_bytes :: "int \<Rightarrow> u8 list" where
  "i32_bytes v = be_bytes 4 (unat (to_u32 v))"

definition i32_val :: "u8 list \<Rightarrow> int" where
  "i32_val bs = of_u32 (word_of_nat (be_val bs))"

definition sfp_body :: "s_sfpinfo \<Rightarrow> u8 list" where
  "sfp_body r = pn r @ i32_bytes (alpha r) @ i32_bytes (dTx r) @ i32_bytes (dRx r)"

definition sfp_image :: "s_sfpinfo \<Rightarrow> u8 list" where
  "sfp_image r = sfp_body r @ [chksum r]"

definition sfp_of :: "u8 list \<Rightarrow> s_sfpinfo" where
  "sfp_of bs = \<lparr>pn = take 16 bs, alpha = i32_val (take 4 (drop 16 bs)),
     dTx = i32_val (take 4 (drop 20 bs)), dRx = i32_val (take 4 (drop 24 bs)), chksum = bs ! 28\<rparr>"

section \<open>Access to the chip\<close>

definition eeprom_present :: "'s gpio \<Rightarrow> nat \<Rightarrow> u8 \<Rightarrow> ee \<Rightarrow> 's \<Rightarrow> int \<times> ee \<times> 's" where
  "eeprom_present io i a e s =
    (let e = e\<lparr>has_eeprom := True\<rparr>;
         (r, s) = mi2c_devprobe io i a s
     in if r then (0, e, s)
        else let (r, s) = mi2c_devprobe io i a s
             in if r then (0, e, s) else (0, e\<lparr>has_eeprom := False\<rparr>, s))"

fun get_bytes :: "'s gpio \<Rightarrow> nat \<Rightarrow> nat \<Rightarrow> 's \<Rightarrow> u8 list \<times> 's" where
  "get_bytes io i 0 s = ([], s)"
| "get_bytes io i (Suc n) s =
    (let (c, s) = mi2c_get_byte io i False s; (cs, s) = get_bytes io i n s in (c # cs, s))"

text \<open>
  The result of \<open>mi2c_put_byte\<close> is an \<open>unsigned char\<close>: the code tests it for being negative, which never holds, so a
  missing acknowledgement of the address does not stop a transfer.
\<close>

definition eeprom_read ::
  "'s gpio \<Rightarrow> nat \<Rightarrow> u8 \<Rightarrow> u32 \<Rightarrow> nat \<Rightarrow> ee \<Rightarrow> 's \<Rightarrow> int \<times> u8 list \<times> 's" where
  "eeprom_read io i a offset n e s =
    (if \<not> has_eeprom e then (- 1, [], s)
     else let s = mi2c_start io i s;
              (_, s) = mi2c_put_byte io i (push_bit 1 a) s;
              (_, s) = mi2c_put_byte io i (ucast (drop_bit 8 offset AND 0xff)) s;
              (_, s) = mi2c_put_byte io i (ucast (offset AND 0xff)) s;
              s = mi2c_repeat_start io i s;
              (_, s) = mi2c_put_byte io i (push_bit 1 a OR 1) s;
              (bs, s) = get_bytes io i (unat (word_of_nat n - 1 :: u32)) s;
              (c, s) = mi2c_get_byte io i True s;
              s = mi2c_stop io i s
          in (s32 (int n), bs @ [c], s))"

text \<open>The wait for the end of the chip's write cycle.\<close>

partial_function (option) wait_ready :: "'s gpio \<Rightarrow> nat \<Rightarrow> u8 \<Rightarrow> 's \<Rightarrow> 's option" where
  "wait_ready io i a s =
    (let s = mi2c_start io i s;
         (busy, s) = mi2c_put_byte io i (push_bit 1 a) s;
         s = mi2c_stop io i s
     in if busy then wait_ready io i a s else Some s)"

fun write_bytes :: "'s gpio \<Rightarrow> nat \<Rightarrow> u8 \<Rightarrow> u32 \<Rightarrow> u8 list \<Rightarrow> 's \<Rightarrow> 's option" where
  "write_bytes io i a offset [] s = Some s"
| "write_bytes io i a offset (b # bs) s =
    (let s = mi2c_start io i s;
         (_, s) = mi2c_put_byte io i (push_bit 1 a) s;
         (_, s) = mi2c_put_byte io i (ucast (drop_bit 8 offset AND 0xff)) s;
         (_, s) = mi2c_put_byte io i (ucast (offset AND 0xff)) s;
         (_, s) = mi2c_put_byte io i b s;
         s = mi2c_stop io i s
     in do {
       s \<leftarrow> wait_ready io i a s;
       write_bytes io i a (offset + 1) bs s
     })"

definition eeprom_write ::
  "'s gpio \<Rightarrow> nat \<Rightarrow> u8 \<Rightarrow> u32 \<Rightarrow> u8 list \<Rightarrow> ee \<Rightarrow> 's \<Rightarrow> (int \<times> 's) option" where
  "eeprom_write io i a offset buf e s =
    (if \<not> has_eeprom e then Some (- 1, s)
     else do {
       s \<leftarrow> write_bytes io i a offset buf s;
       Some (s32 (int (length buf)), s)
     })"

section \<open>The data base of SFPs\<close>

definition eeprom_sfpdb_erase :: "'s gpio \<Rightarrow> nat \<Rightarrow> u8 \<Rightarrow> ee \<Rightarrow> 's \<Rightarrow> (int \<times> 's) option" where
  "eeprom_sfpdb_erase io i a e s = do {
     (r, s) \<leftarrow> eeprom_write io i a EE_BASE_SFP [0] e s;
     Some (if r \<noteq> 1 then EE_RET_I2CERR else 0, s)
   }"

definition chk_step :: "u8 \<Rightarrow> u8 \<Rightarrow> u8" where
  "chk_step c b = ucast (ucast c + ucast b :: u16) AND 0xff"

definition sfp_offset :: "u8 \<Rightarrow> u32" where
  "sfp_offset pos = EE_BASE_SFP + 1 + ucast pos * 29"

definition eeprom_get_sfp ::
  "'s gpio \<Rightarrow> nat \<Rightarrow> u8 \<Rightarrow> s_sfpinfo \<Rightarrow> bool \<Rightarrow> u8 \<Rightarrow> ee \<Rightarrow> 's \<Rightarrow>
    (int \<times> s_sfpinfo \<times> ee \<times> 's) option" where
  "eeprom_get_sfp io i a sfp add pos e s =
    (if SFPS_MAX \<le> pos then Some (EE_RET_POSERR, sfp, e, s)
     else
       let (r, bs, s) = (if pos = 0 then eeprom_read io i a EE_BASE_SFP 1 e s else (1, [ee_sfpcount e], s));
           e = (case bs of [c] \<Rightarrow> e\<lparr>ee_sfpcount := c\<rparr> | _ \<Rightarrow> e)
       in if r \<noteq> 1 then Some (EE_RET_I2CERR, sfp, e, s)
       else if add \<and> ee_sfpcount e = SFPS_MAX then Some (EE_RET_DBFULL, sfp, e, s)
       else if pos = 0 \<and> \<not> add \<and> ee_sfpcount e = 0 then Some (uint (ee_sfpcount e), sfp, e, s)
       else if \<not> add then
         let (r, bs, s) = eeprom_read io i a (sfp_offset pos) 29 e s
         in if r \<noteq> 29 then Some (EE_RET_I2CERR, sfp, e, s)
            else let sfp = sfp_of bs
                 in if foldl chk_step 0 (take 28 bs) \<noteq> chksum sfp
                    then Some (EE_RET_CORRPT, sfp, e, s)
                    else Some (uint (ee_sfpcount e), sfp, e, s)
       else do {
         let sfp = sfp\<lparr>chksum := foldl chk_step 0 (sfp_body sfp)\<rparr>;
         (_, s) \<leftarrow> eeprom_write io i a (sfp_offset (ee_sfpcount e)) (sfp_image sfp) e s;
         let e = e\<lparr>ee_sfpcount := ee_sfpcount e + 1\<rparr>;
         (_, s) \<leftarrow> eeprom_write io i a EE_BASE_SFP [ee_sfpcount e] e s;
         Some (uint (ee_sfpcount e), sfp, e, s)
       })"

fun strncmp_eq :: "nat \<Rightarrow> u8 list \<Rightarrow> u8 list \<Rightarrow> bool" where
  "strncmp_eq (Suc n) (x # xs) (y # ys) \<longleftrightarrow> x = y \<and> (x = 0 \<or> strncmp_eq n xs ys)"
| "strncmp_eq _ _ _ \<longleftrightarrow> True"

text \<open>
  The loop of \<open>eeprom_match_sfp\<close>: \<open>i\<close> is an \<open>int8_t\<close>, \<open>sfpcount\<close> an \<open>uint8_t\<close>, so the test
  \<open>sfpcount < 0\<close> of the source never holds.
\<close>

partial_function (option) match_loop ::
  "'s gpio \<Rightarrow> int \<Rightarrow> u8 \<Rightarrow> s_sfpinfo \<Rightarrow> s_sfpinfo \<Rightarrow> ee \<Rightarrow> 's \<Rightarrow> (int \<times> s_sfpinfo \<times> ee \<times> 's) option" where
  "match_loop io i sfpcount dbsfp sfp e s =
    (if \<not> i < uint sfpcount then Some (0, sfp, e, s)
     else do {
       (temp, dbsfp, e, s) \<leftarrow>
         eeprom_get_sfp io WRPC_FMC_I2C FMC_EEPROM_ADR dbsfp False (word_of_int i) e s;
       let sfpcount = (if i = 0 then word_of_int (s8 temp) else sfpcount);
       if i = 0 \<and> (sfpcount = 0 \<or> sfpcount = 0xFF) then Some (0, sfp, e, s)
       else if strncmp_eq 16 (pn dbsfp) (pn sfp)
       then Some (1, sfp\<lparr>dTx := dTx dbsfp, dRx := dRx dbsfp, alpha := alpha dbsfp\<rparr>, e, s)
       else match_loop io (s8 (i + 1)) sfpcount dbsfp sfp e s
     })"

text \<open>\<open>dbsfp\<close> is the uninitialised local variable; the bus arguments of the source are not used.\<close>

definition eeprom_match_sfp ::
  "'s gpio \<Rightarrow> s_sfpinfo \<Rightarrow> s_sfpinfo \<Rightarrow> ee \<Rightarrow> 's \<Rightarrow> (int \<times> s_sfpinfo \<times> ee \<times> 's) option" where
  "eeprom_match_sfp io dbsfp sfp e s = match_loop io 0 1 dbsfp sfp e s"

section \<open>The phase transition\<close>

definition eeprom_phtrans ::
  "'s gpio \<Rightarrow> nat \<Rightarrow> u8 \<Rightarrow> u32 \<Rightarrow> bool \<Rightarrow> ee \<Rightarrow> 's \<Rightarrow> (int \<times> u32 \<times> 's) option" where
  "eeprom_phtrans io i a val wr e s =
    (if wr then do {
       let val = val OR 0x80000000;
       (r, s) \<leftarrow> eeprom_write io i a EE_BASE_CAL (be_bytes 4 (unat val)) e s;
       let ret = (if r \<noteq> 4 then EE_RET_I2CERR else 1);
       Some (ret, val AND 0x7fffffff, s)
     }
     else
       let (r, bs, s) = eeprom_read io i a EE_BASE_CAL 4 e s
       in if r \<noteq> 4 then Some (EE_RET_I2CERR, val, s)
          else let val = word_of_nat (be_val bs)
               in if val AND 0x80000000 = 0 then Some (0, val, s)
                  else Some (1, val AND 0x7fffffff, s))"

section \<open>The init script\<close>

definition eeprom_init_erase :: "'s gpio \<Rightarrow> nat \<Rightarrow> u8 \<Rightarrow> ee \<Rightarrow> 's \<Rightarrow> (int \<times> 's) option" where
  "eeprom_init_erase io i a e s = do {
     (r, s) \<leftarrow> eeprom_write io i a EE_BASE_INIT (be_bytes 2 0) e s;
     Some (if r \<noteq> 2 then EE_RET_I2CERR else 0, s)
   }"

text \<open>The loop over the words of the command; \<open>None\<close> in the first part is an I2C error.\<close>

fun init_add_words ::
  "'s gpio \<Rightarrow> nat \<Rightarrow> u8 \<Rightarrow> u8 list list \<Rightarrow> u16 \<Rightarrow> ee \<Rightarrow> 's \<Rightarrow> (u16 option \<times> 's) option" where
  "init_add_words io i a [] used e s = Some (Some used, s)"
| "init_add_words io i a (w # ws) used e s = do {
     (r, s) \<leftarrow> eeprom_write io i a (EE_BASE_INIT + 2 + ucast used) w e s;
     if r \<noteq> int (length w) then Some (None, s)
     else do {
       let used = used + word_of_nat (length w);
       (r, s) \<leftarrow> eeprom_write io i a (EE_BASE_INIT + 2 + ucast used) [0x20] e s;
       if r \<noteq> 1 then Some (None, s)
       else init_add_words io i a ws (used + 1) e s
     }
   }"

definition eeprom_init_add ::
  "'s gpio \<Rightarrow> nat \<Rightarrow> u8 \<Rightarrow> u8 list list \<Rightarrow> ee \<Rightarrow> 's \<Rightarrow> (int \<times> 's) option" where
  "eeprom_init_add io i a args e s =
    (let (r, bs, s) = eeprom_read io i a EE_BASE_INIT 2 e s
     in if r \<noteq> 2 then Some (EE_RET_I2CERR, s)
     else do {
       let used = (word_of_nat (be_val bs) :: u16);
       let used = (if used = 0xffff then 0 else used);
       (u, s) \<leftarrow> init_add_words io i a (tl args) used e s;
       case u of
         None \<Rightarrow> Some (EE_RET_I2CERR, s)
       | Some used \<Rightarrow> do {
           (r, s) \<leftarrow> eeprom_write io i a (EE_BASE_INIT + 2 + ucast used - 1) [0x0A] e s;
           if r \<noteq> 1 then Some (EE_RET_I2CERR, s)
           else do {
             (r, s) \<leftarrow> eeprom_write io i a EE_BASE_INIT (be_bytes 2 (unat used)) e s;
             if r \<noteq> 2 then Some (EE_RET_I2CERR, s)
             else let (r, bs, s) = eeprom_read io i a EE_BASE_INIT 2 e s
                  in Some (if r \<noteq> 2 then EE_RET_I2CERR else 0, s)
           }
         }
     })"

text \<open>What \<open>eeprom_init_show\<close> prints; \<open>n\<close> bytes are left.\<close>

fun show_bytes :: "'s gpio \<Rightarrow> nat \<Rightarrow> u8 \<Rightarrow> nat \<Rightarrow> u16 \<Rightarrow> ee \<Rightarrow> 's \<Rightarrow> int \<times> u8 list \<times> 's" where
  "show_bytes io i a 0 k e s = (0, [], s)"
| "show_bytes io i a (Suc n) k e s =
    (let (r, bs, s) = eeprom_read io i a (EE_BASE_INIT + 2 + ucast k) 1 e s
     in if r \<noteq> 1 then (EE_RET_I2CERR, [], s)
        else let (r, out, s) = show_bytes io i a n (k + 1) e s in (r, bs @ out, s))"

definition empty_script_msg :: string where
  "empty_script_msg = ''Empty init script...'' @ [CHR 0x0A]"

definition eeprom_init_show :: "'s gpio \<Rightarrow> nat \<Rightarrow> u8 \<Rightarrow> ee \<Rightarrow> 's \<Rightarrow> int \<times> string \<times> 's" where
  "eeprom_init_show io i a e s =
    (let (r, bs, s) = eeprom_read io i a EE_BASE_INIT 2 e s
     in if r \<noteq> 2 then (EE_RET_I2CERR, [], s)
        else let used = (word_of_nat (be_val bs) :: u16);
                 out = (if used = 0 \<or> used = 0xffff then empty_script_msg else []);
                 used = (if used = 0 \<or> used = 0xffff then 0 else used);
                 (r, bytes, s) = show_bytes io i a (unat used) 0 e s
             in (r, out @ map (\<lambda>b. char_of (unat b)) bytes, s))"

text \<open>
  The loop of \<open>eeprom_init_readcmd\<close>: \<open>rc_ptr\<close> is the position in the whole script and \<open>i\<close> (an
  \<open>uint8_t\<close>) the one in the buffer.
\<close>

partial_function (option) readcmd_loop ::
  "'s gpio \<Rightarrow> nat \<Rightarrow> u8 \<Rightarrow> u8 list \<Rightarrow> u8 \<Rightarrow> u8 \<Rightarrow> ee \<Rightarrow> 's \<Rightarrow> (int \<times> u8 list \<times> ee \<times> 's) option" where
  "readcmd_loop io ifc a buf bufsize i e s =
    (if ucast bufsize < (ucast (rc_ptr e) - 2 :: u32) then Some (EE_RET_CORRPT, buf, e, s)
     else do {
       let (r, bs, s) = eeprom_read io ifc a (EE_BASE_INIT + ucast (rc_ptr e)) 1 e s;
       let e = e\<lparr>rc_ptr := rc_ptr e + 1\<rparr>;
       if r \<noteq> 1 then Some (EE_RET_I2CERR, buf, e, s)
       else do {
         buf \<leftarrow> aset buf (uint i) (hd bs);
         if hd bs \<noteq> 0x0A then readcmd_loop io ifc a buf bufsize (i + 1) e s
         else Some (s8 (uint (i + 1)), buf, e, s)
       }
     })"

definition eeprom_init_readcmd ::
  "'s gpio \<Rightarrow> nat \<Rightarrow> u8 \<Rightarrow> u8 list \<Rightarrow> u8 \<Rightarrow> bool \<Rightarrow> ee \<Rightarrow> 's \<Rightarrow> (int \<times> u8 list \<times> ee \<times> 's) option" where
  "eeprom_init_readcmd io i a buf bufsize nxt e s =
    (let (r, bs, s) = (if nxt then (2, [], s) else eeprom_read io i a EE_BASE_INIT 2 e s);
         e = (if nxt \<or> r \<noteq> 2 then e else e\<lparr>rc_used := word_of_nat (be_val bs), rc_ptr := 2\<rparr>)
     in if r \<noteq> 2 then Some (EE_RET_I2CERR, buf, e, s)
        else if (ucast (rc_used e) :: u32) \<le> ucast (rc_ptr e) - 2 then Some (0, buf, e, s)
        else readcmd_loop io i a buf bufsize 0 e s)"

section \<open>A chip that does not answer\<close>

text \<open>
  The lines of a bus without a slave read as ones. \<open>eeprom_read\<close> then reports success and returns bytes 0xFF, and
  \<open>eeprom_write\<close> never returns.
\<close>

lemma no_slave_sda: "rd_GPSR io = (\<lambda>_. - 1) \<Longrightarrow> M_SDA_IN io 0 s" "rd_GPSR io = (\<lambda>_. - 1) \<Longrightarrow> M_SDA_IN io 1 s"
  by (simp_all add: M_SDA_IN_def gpio_in_def i2c_if_def)

lemma no_slave_put: "rd_GPSR io = (\<lambda>_. - 1) \<Longrightarrow> \<exists>s'. mi2c_put_byte io 0 b s = (True, s')"
  by (simp add: mi2c_put_byte_def no_slave_sda Let_def)

lemma no_slave_bits: "rd_GPSR io = (\<lambda>_. - 1) \<Longrightarrow> \<exists>s'. mi2c_get_byte io 0 l s = (- 1, s')"
proof -
  have e: "(8 :: nat) = Suc (Suc (Suc (Suc (Suc (Suc (Suc (Suc 0)))))))" by simp
  show "rd_GPSR io = (\<lambda>_. - 1) \<Longrightarrow> \<exists>s'. mi2c_get_byte io 0 l s = (- 1, s')"
    unfolding mi2c_get_byte_def e by (simp add: no_slave_sda Let_def split: prod.splits)
qed

lemma no_slave_bytes: "rd_GPSR io = (\<lambda>_. - 1) \<Longrightarrow> \<exists>s'. get_bytes io 0 n s = (replicate n (- 1), s')"
proof (induction n arbitrary: s)
  case (Suc n)
  obtain s1 where 1: "mi2c_get_byte io 0 False s = (- 1, s1)" using no_slave_bits [OF Suc.prems] by blast
  obtain s2 where "get_bytes io 0 n s1 = (replicate n (- 1), s2)" using Suc by blast
  with 1 show ?case by simp
qed simp

lemma eeprom_read_no_slave:
  assumes "rd_GPSR io = (\<lambda>_. - 1)" "has_eeprom e" "0 < n" "n < 2 ^ 31"
  shows "\<exists>s'. eeprom_read io 0 a offset n e s = (int n, replicate n 0xFF, s')"
proof -
  obtain k where k: "n = Suc k" "unat (word_of_nat n - 1 :: u32) = k" "s32 (int n) = int n"
    using assms(3,4) by (cases n) (auto simp: unat_of_nat)
  obtain s1 where 1: "get_bytes io 0 k = (\<lambda>s. (replicate k (- 1), s1 s))"
    using no_slave_bytes [OF assms(1), of k] by metis
  obtain s2 where 2: "mi2c_get_byte io 0 True = (\<lambda>s. (- 1, s2 s))" using no_slave_bits [OF assms(1), of True] by metis
  have "replicate k (- 1) @ [- 1] = replicate n (0xFF :: u8)" unfolding k(1) by (simp add: replicate_append_same)
  then show ?thesis using assms(2) 1 2 k(2,3) by (simp add: eeprom_read_def Let_def split: prod.splits)
qed

lemma wait_ready_no_slave: "rd_GPSR io = (\<lambda>_. - 1) \<Longrightarrow> wait_ready io 0 a s = Some y \<Longrightarrow> (rd_GPSR io = (\<lambda>_. - 1) \<and> (0 :: nat) = 0 \<longrightarrow> False)"
proof (rule wait_ready.raw_induct [where P = "\<lambda>io i a s y. rd_GPSR io = (\<lambda>_. - 1) \<and> i = 0 \<longrightarrow> False"])
  fix f :: "'b gpio \<Rightarrow> nat \<Rightarrow> u8 \<Rightarrow> 'b \<Rightarrow> 'b option" and io i a s y
  assume IH: "\<And>io i a s y. f io i a s = Some y \<Longrightarrow> rd_GPSR io = (\<lambda>_. - 1) \<and> i = 0 \<longrightarrow> False"
    and e: "(let s = mi2c_start io i s; (busy, s) = mi2c_put_byte io i (push_bit 1 a) s; s = mi2c_stop io i s
      in if busy then f io i a s else Some s) = Some y"
  show "rd_GPSR io = (\<lambda>_. - 1) \<and> i = 0 \<longrightarrow> False"
  proof
    assume c: "rd_GPSR io = (\<lambda>_. - 1) \<and> i = 0"
    then obtain s1 where "mi2c_put_byte io 0 (push_bit 1 a) (mi2c_start io 0 s) = (True, s1)" using no_slave_put by metis
    with e c have "f io i a (mi2c_stop io 0 s1) = Some y" by (simp add: Let_def)
    from IH [OF this] c show False by simp
  qed
qed

lemma eeprom_write_no_slave:
  assumes "rd_GPSR io = (\<lambda>_. - 1)" "has_eeprom e" "buf \<noteq> []"
  shows "eeprom_write io 0 a offset buf e s = None"
proof -
  have "wait_ready io 0 a s = None" for s
    using wait_ready_no_slave [OF assms(1), of a s] assms(1) by (cases "wait_ready io 0 a s") auto
  then show ?thesis using assms(2,3) by (cases buf) (simp_all add: eeprom_write_def Let_def split: prod.splits)
qed

end
