(* ===== verification/Byte_Mem.thy ===== *)
theory Byte_Mem
  imports Bytes
begin

text \<open>Memories of bytes, as the models of the EEPROM chips have them: what a write changes and what a read shows.\<close>

definition mem_upd :: "(nat \<Rightarrow> u8) \<Rightarrow> nat \<Rightarrow> u8 list \<Rightarrow> nat \<Rightarrow> u8" where
  "mem_upd m off bs k = (if off \<le> k \<and> k < off + length bs then bs ! (k - off) else m k)"

definition mem_at :: "(nat \<Rightarrow> u8) \<Rightarrow> nat \<Rightarrow> nat \<Rightarrow> u8 list" where
  "mem_at m off n = map m [off..<off + n]"

lemma length_mem_at [simp]: "length (mem_at m off n) = n"
  by (simp add: mem_at_def)

lemma mem_at_0 [simp]: "mem_at m off 0 = []"
  by (simp add: mem_at_def)

lemma mem_at_Suc: "mem_at m off (Suc n) = m off # mem_at m (Suc off) n"
  by (simp add: mem_at_def upt_conv_Cons del: upt_Suc)

lemma mem_at_snoc: "mem_at m off (Suc n) = mem_at m off n @ [m (off + n)]"
  by (simp add: mem_at_def)

lemma mem_at_1 [simp]: "mem_at m off (Suc 0) = [m off]"
  by (simp add: mem_at_def)

lemma nth_mem_at [simp]: "k < n \<Longrightarrow> mem_at m off n ! k = m (off + k)"
  by (simp add: mem_at_def)

lemma mem_at_upd_same [simp]: "mem_at (mem_upd m off bs) off (length bs) = bs"
  by (rule nth_equalityI) (simp_all add: mem_upd_def)

lemma mem_at_upd_other:
  "a + n \<le> off \<or> off + length bs \<le> a \<Longrightarrow> mem_at (mem_upd m off bs) a n = mem_at m a n"
  by (rule nth_equalityI) (auto simp: mem_upd_def)

lemma mem_upd_other: "k < off \<or> off + length bs \<le> k \<Longrightarrow> mem_upd m off bs k = m k"
  by (auto simp: mem_upd_def)

lemma mem_upd_Nil [simp]: "mem_upd m off [] = m"
  by (rule ext) (auto simp: mem_upd_def)

lemma mem_upd_upd: "mem_upd (mem_upd m off bs) (off + length bs) cs = mem_upd m off (bs @ cs)"
  by (rule ext) (auto simp: mem_upd_def nth_append)

lemma mem_upd_Cons: "mem_upd (m(off := b)) (Suc off) bs = mem_upd m off (b # bs)"
  by (rule ext) (auto simp: mem_upd_def nth_Cons' Suc_le_eq)

end
