(* ===== verification/Eeprom_Props.thy ===== *)
theory Eeprom_Props
  imports Eeprom Byte_Mem
begin

text \<open>
  What the store in the EEPROM does with a chip that keeps the contract of a serial EEPROM: every
  read delivers the memory and every write returns with the memory changed
  (\<open>card_eeprom\<close>); on that, the data base of SFPs and the init script.
\<close>

text \<open>The bus is free, the chip stands by, and its memory is \<open>m\<close>.\<close>

definition chip_holds ::
  "('s \<Rightarrow> 'd \<Rightarrow> bool) \<Rightarrow> ('d \<Rightarrow> nat \<Rightarrow> bool) \<Rightarrow> ('d \<Rightarrow> nat \<Rightarrow> u8) \<Rightarrow> 's \<Rightarrow> (nat \<Rightarrow> u8) \<Rightarrow> bool" where
  "chip_holds idle std mem s m \<longleftrightarrow> (\<exists>d p. idle s d \<and> std d p \<and> mem d = m)"

lemma offset_bytes:
  assumes "unat off < 65536"
  shows "be_val [ucast (drop_bit 8 off AND 0xff), ucast (off AND 0xff)] = unat (off :: u32)"
proof -
  have m: "(0xff :: u32) = mask 8" by (simp add: mask_eq_exp_minus_1)
  have "unat (ucast (drop_bit 8 off AND 0xff) :: u8) = unat off div 256"
    "unat (ucast (off AND 0xff) :: u8) = unat off mod 256"
    using assms unfolding m
    by (simp_all add: unsigned_ucast_eq unat_and_mask unat_div take_bit_eq_mod drop_bit_eq_div
      less_mult_imp_div_less)
  then show ?thesis by (simp add: be_val_two)
qed

section \<open>Reads and writes\<close>

locale card_eeprom = eeprom_chip io 0 D idle rcv off sending "0x50" 2 8192 mem std sel rd cyc left
  for io :: "'s gpio" and D :: "'d i2c_dev"
    and idle rcv off sending :: "'s \<Rightarrow> 'd \<Rightarrow> bool" and mem std sel rd cyc left
begin

abbreviation holds :: "'s \<Rightarrow> (nat \<Rightarrow> u8) \<Rightarrow> bool" where
  "holds \<equiv> chip_holds idle std mem"

lemma select_bus:
  assumes "idle s d" "std d p" "unat ofs < 8192"
  obtains s1 s2 s3 d' where
    "mi2c_put_byte io 0 0xA0 (mi2c_start io 0 s) = (False, s1)"
    "mi2c_put_byte io 0 (ucast (drop_bit 8 ofs AND 0xff)) s1 = (False, s2)"
    "mi2c_put_byte io 0 (ucast (ofs AND 0xff)) s2 = (False, s3)"
    "rcv s3 d'" "sel d' (unat (ofs :: u32))" "mem d' = mem d"
proof -
  let ?bs = "[ucast (drop_bit 8 ofs AND 0xff), ucast (ofs AND 0xff)] :: u8 list"
  have be: "be_val ?bs = unat ofs" using offset_bytes [of ofs] assms(3) by simp
  then obtain d3 where d3: "feed D (0xA0 # ?bs) (dv_start D d) = Some d3" "sel d3 (unat ofs)" "mem d3 = mem d"
    using select [OF assms(2), of ?bs] assms(3) by auto
  obtain d1 where d1: "dv_byte D 0xA0 (dv_start D d) = (False, d1)" "\<not> dv_sends D d1" "feed D ?bs d1 = Some d3"
    by (rule feed_Cons [OF d3(1)])
  have "feed D (?bs ! 0 # [?bs ! 1]) d1 = Some d3" using d1(3) by simp
  then obtain d2 where d2: "dv_byte D (?bs ! 0) d1 = (False, d2)" "\<not> dv_sends D d2" "feed D [?bs ! 1] d2 = Some d3"
    by (rule feed_Cons)
  obtain d4 where d4: "dv_byte D (?bs ! 1) d2 = (False, d4)" "\<not> dv_sends D d4" "feed D [] d4 = Some d3"
    by (rule feed_Cons [OF d2(3)])
  have [simp]: "d4 = d3" using d4(3) by simp
  obtain s1 where s1: "mi2c_put_byte io 0 0xA0 (mi2c_start io 0 s) = (False, s1)" "rcv s1 d1"
    by (rule put_ack [OF start [OF assms(1)] d1(1,2)])
  obtain s2 where s2: "mi2c_put_byte io 0 (?bs ! 0) s1 = (False, s2)" "rcv s2 d2"
    by (rule put_ack [OF s1(2) d2(1,2)])
  obtain s3 where s3: "mi2c_put_byte io 0 (?bs ! 1) s2 = (False, s3)" "rcv s3 d4"
    by (rule put_ack [OF s2(2) d4(1,2)])
  show thesis using that [OF s1(1), of s2 s3 d3] s2(1) s3 d3 by simp
qed

lemma get_bytes_mem:
  "sending s d \<Longrightarrow> rd d p \<Longrightarrow> p + n \<le> 8192 \<Longrightarrow>
    \<exists>s' d'. get_bytes io 0 n s = (mem_at (mem d) p n, s') \<and> sending s' d' \<and> rd d' (p + n) \<and> mem d' = mem d"
proof (induction n arbitrary: s d p)
  case (Suc n)
  obtain s1 d1 where 1: "mi2c_get_byte io 0 False s = (mem d p, s1)" "sending s1 d1" "rd d1 (Suc p)"
      "mem d1 = mem d"
    using get_more [OF Suc.prems(1,2)] Suc.prems(3) by auto
  obtain s2 d2 where 2: "get_bytes io 0 n s1 = (mem_at (mem d1) (Suc p) n, s2)" "sending s2 d2"
      "rd d2 (Suc p + n)" "mem d2 = mem d1"
    using Suc.IH [OF 1(2,3)] Suc.prems(3) by auto
  then show ?case using 1 by (auto simp: mem_at_Suc)
qed auto

lemma read_mem:
  assumes s: "holds s m" and e: "has_eeprom e" and n: "0 < n" "unat ofs + n \<le> 8192"
  obtains s' where "eeprom_read io 0 0x50 ofs n e s = (int n, mem_at m (unat ofs) n, s')" "holds s' m"
proof -
  obtain j where j: "n = Suc j" using n(1) by (cases n) auto
  obtain d p where d: "idle s d" "std d p" "mem d = m" using s by (auto simp: chip_holds_def)
  have "unat ofs < 8192" using n by simp
  then obtain s1 s2 s3 d3 where s1: "mi2c_put_byte io 0 0xA0 (mi2c_start io 0 s) = (False, s1)"
    and s2: "mi2c_put_byte io 0 (ucast (drop_bit 8 ofs AND 0xff)) s1 = (False, s2)"
    and s3: "mi2c_put_byte io 0 (ucast (ofs AND 0xff)) s2 = (False, s3)"
    and d3: "rcv s3 d3" "sel d3 (unat ofs)" "mem d3 = m"
    using select_bus [OF d(1,2)] d(3) by metis
  obtain d4 where d4: "dv_byte D 0xA1 (dv_start D d3) = (False, d4)" "dv_sends D d4" "rd d4 (unat ofs)"
      "mem d4 = m"
    using read_selected [OF d3(2)] d3(3) by auto
  obtain s4 where s4: "mi2c_put_byte io 0 0xA1 (mi2c_repeat_start io 0 s3) = (False, s4)" "sending s4 d4"
    by (rule put_read [OF restart [OF d3(1)] d4(1,2)])
  have "unat ofs + j \<le> 8192" using n j by simp
  from get_bytes_mem [OF s4(2) d4(3) this] obtain s5 d5 where
    s5: "get_bytes io 0 j s4 = (mem_at m (unat ofs) j, s5)" "sending s5 d5"
      "rd d5 (unat ofs + j)" "mem d5 = m"
    unfolding d4(4) by blast
  have "unat ofs + j < 8192" using n j by simp
  then obtain s6 d6 where s6: "mi2c_get_byte io 0 True s5 = (m (unat ofs + j), s6)"
      "idle (mi2c_stop io 0 s6) d6" "std d6 (Suc (unat ofs + j))" "mem d6 = m"
    using get_last [OF s5(2,3)] s5(4) by metis
  have k: "unat (word_of_nat n - 1 :: u32) = j" using j n by (simp add: unat_of_nat)
  have "eeprom_read io 0 0x50 ofs n e s = (int n, mem_at m (unat ofs) n, mi2c_stop io 0 s6)"
    unfolding eeprom_read_def k unfolding j mem_at_snoc using e n j
    by (simp add: s1 s2 s3 s4(1) s5(1) s6(1) Let_def)
  moreover have "holds (mi2c_stop io 0 s6) m" using s6(2-4) by (auto simp: chip_holds_def)
  ultimately show thesis by (rule that)
qed

lemma wait_ready_returns:
  assumes "idle s d" "cyc d"
  shows "\<exists>s'. wait_ready io 0 0x50 s = Some s' \<and> holds s' (mem d)"
  using assms
proof (induction "left d" arbitrary: s d rule: less_induct)
  case less
  obtain nack d1 where b: "dv_byte D 0xA0 (dv_start D d) = (nack, d1)" by (cases "dv_byte D 0xA0 (dv_start D d)")
  note p = ec_poll [OF less.prems(2), of nack d1]
  note r = start [OF less.prems(1)]
  show ?case
  proof (cases nack)
    case True
    then have nack: "nack = True" by simp
    obtain s1 where s1: "mi2c_put_byte io 0 0xA0 (mi2c_start io 0 s) = (True, s1)" "off s1 d1"
      by (rule put_nack [OF r b [unfolded nack]])
    have i: "idle (mi2c_stop io 0 s1) (dv_stop D d1)" using stop s1(2) by blast
    have "\<exists>s'. wait_ready io 0 0x50 (mi2c_stop io 0 s1) = Some s' \<and> holds s' (mem (dv_stop D d1))"
      by (rule less.hyps [OF _ i]) (use p b True in auto)
    then show ?thesis
      using p b True by (subst wait_ready.simps) (simp add: s1(1) Let_def)
  next
    case False
    then have nack: "nack = False" by simp
    have q: "mem (dv_stop D d1) = mem d" "\<not> dv_sends D d1" "\<exists>p. std (dv_stop D d1) p"
      using p b False by auto
    obtain s1 where s1: "mi2c_put_byte io 0 0xA0 (mi2c_start io 0 s) = (False, s1)" "rcv s1 d1"
      by (rule put_ack [OF r b [unfolded nack] q(2)])
    have "idle (mi2c_stop io 0 s1) (dv_stop D d1)" using stop s1(2) by blast
    then have "holds (mi2c_stop io 0 s1) (mem d)" using q unfolding chip_holds_def by metis
    then show ?thesis by (subst wait_ready.simps) (simp add: s1(1) Let_def)
  qed
qed

lemma write_bytes_mem:
  "holds s m \<Longrightarrow> unat ofs + length bs \<le> 8192 \<Longrightarrow>
    \<exists>s'. write_bytes io 0 0x50 ofs bs s = Some s' \<and> holds s' (mem_upd m (unat ofs) bs)"
proof (induction bs arbitrary: s m ofs)
  case (Cons b bs)
  obtain d p where d: "idle s d" "std d p" "mem d = m" using Cons.prems(1) by (auto simp: chip_holds_def)
  have o: "unat ofs < 8192" using Cons.prems(2) by simp
  obtain s1 s2 s3 d3 where s1: "mi2c_put_byte io 0 0xA0 (mi2c_start io 0 s) = (False, s1)"
    and s2: "mi2c_put_byte io 0 (ucast (drop_bit 8 ofs AND 0xff)) s1 = (False, s2)"
    and s3: "mi2c_put_byte io 0 (ucast (ofs AND 0xff)) s2 = (False, s3)"
    and d3: "rcv s3 d3" "sel d3 (unat ofs)" "mem d3 = m"
    using select_bus [OF d(1,2) o] d(3) by metis
  obtain d4 where d4: "dv_byte D b d3 = (False, d4)" "\<not> dv_sends D d4" "cyc (dv_stop D d4)"
      "mem (dv_stop D d4) = m(unat ofs := b)"
    using ec_write [OF d3(2) o] d3(3) by metis
  obtain s4 where s4: "mi2c_put_byte io 0 b s3 = (False, s4)" "rcv s4 d4"
    by (rule put_ack [OF d3(1) d4(1,2)])
  have "idle (mi2c_stop io 0 s4) (dv_stop D d4)" using stop s4(2) by blast
  from wait_ready_returns [OF this d4(3)] obtain s5 where
    s5: "wait_ready io 0 0x50 (mi2c_stop io 0 s4) = Some s5" "holds s5 (m(unat ofs := b))"
    using d4(4) by auto
  have o1: "unat (ofs + 1) = Suc (unat ofs)" using o by (simp add: unat_word_ariths)
  have len: "Suc (unat ofs) + length bs \<le> 8192" using Cons.prems(2) by simp
  obtain s6 where "write_bytes io 0 0x50 (ofs + 1) bs s5 = Some s6"
      "holds s6 (mem_upd (m(unat ofs := b)) (Suc (unat ofs)) bs)"
    using Cons.IH [OF s5(2), of "ofs + 1", unfolded o1, OF len] by blast
  then show ?case by (simp add: s1 s2 s3 s4(1) s5(1) mem_upd_Cons Let_def)
qed simp

lemma write_mem:
  assumes "holds s m" "has_eeprom e" "unat ofs + length bs \<le> 8192"
  obtains s' where "eeprom_write io 0 0x50 ofs bs e s = Some (int (length bs), s')"
    "holds s' (mem_upd m (unat ofs) bs)"
  using write_bytes_mem [OF assms(1,3)] assms(2,3) that by (fastforce simp: eeprom_write_def)

end

subsection \<open>The data base of SFPs\<close>

lemma length_i32_bytes [simp]: "length (i32_bytes v) = 4"
  by (simp add: i32_bytes_def)

lemma i32_val_bytes: "in32 v \<Longrightarrow> i32_val (i32_bytes v) = v"
proof -
  have "unat (to_u32 v) < 256 ^ 4" using unsigned_less [of "to_u32 v"] by simp
  then show "in32 v \<Longrightarrow> i32_val (i32_bytes v) = v"
    unfolding i32_val_def i32_bytes_def by (simp add: of_to_u32)
qed

definition sfp_wf :: "s_sfpinfo \<Rightarrow> bool" where
  "sfp_wf r \<longleftrightarrow> length (pn r) = 16 \<and> in32 (alpha r) \<and> in32 (dTx r) \<and> in32 (dRx r)"

definition sfp_sealed :: "s_sfpinfo \<Rightarrow> bool" where
  "sfp_sealed r \<longleftrightarrow> sfp_wf r \<and> chksum r = foldl chk_step 0 (sfp_body r)"

lemma length_sfp_body: "sfp_wf r \<Longrightarrow> length (sfp_body r) = 28"
  by (simp add: sfp_body_def sfp_wf_def)

lemma length_sfp_image: "sfp_wf r \<Longrightarrow> length (sfp_image r) = 29"
  by (simp add: sfp_image_def length_sfp_body)

lemma sfp_of_image: "sfp_wf r \<Longrightarrow> sfp_of (sfp_image r) = r"
  by (simp add: sfp_of_def sfp_image_def sfp_body_def sfp_wf_def i32_val_bytes nth_append)

lemma take_image: "sfp_wf r \<Longrightarrow> take 28 (sfp_image r) = sfp_body r"
  by (simp add: sfp_image_def length_sfp_body)

lemma sealed_image:
  "sfp_sealed r \<Longrightarrow> foldl chk_step 0 (take 28 (sfp_image r)) = sfp_image r ! 28"
  by (auto simp: sfp_sealed_def sfp_image_def nth_append length_sfp_body)

text \<open>The memory holds the data base \<open>l\<close>.\<close>

definition sfp_db :: "(nat \<Rightarrow> u8) \<Rightarrow> s_sfpinfo list \<Rightarrow> bool" where
  "sfp_db m l \<longleftrightarrow> length l \<le> 4 \<and> m 4100 = word_of_nat (length l) \<and>
    (\<forall>j<length l. sfp_sealed (l ! j) \<and> mem_at m (4101 + 29 * j) 29 = sfp_image (l ! j))"

lemma unat_sfp_offset: "unat c \<le> 4 \<Longrightarrow> unat (sfp_offset c) = 4101 + 29 * unat c"
  by (simp add: sfp_offset_def unat_word_ariths unsigned_ucast_eq take_bit_eq_mod)

lemma sfp_db_snoc:
  assumes db: "sfp_db m l" and l: "length l < 4" and r: "sfp_sealed r"
  shows "sfp_db (mem_upd (mem_upd m (4101 + 29 * length l) (sfp_image r)) 4100
    [word_of_nat (Suc (length l))]) (l @ [r])" (is "sfp_db (mem_upd ?m 4100 ?c) _")
proof -
  have len: "length (sfp_image r) = 29" using r by (simp add: sfp_sealed_def length_sfp_image)
  have "mem_at (mem_upd ?m 4100 ?c) (4101 + 29 * j) 29 = sfp_image ((l @ [r]) ! j)"
    if j: "j < length (l @ [r])" for j
  proof -
    have "mem_at (mem_upd ?m 4100 ?c) (4101 + 29 * j) 29 = mem_at ?m (4101 + 29 * j) 29"
      by (rule mem_at_upd_other) simp
    also have "\<dots> = sfp_image ((l @ [r]) ! j)"
    proof (cases "j = length l")
      case True
      then show ?thesis using mem_at_upd_same [of m "4101 + 29 * length l" "sfp_image r"] len by simp
    next
      case False
      then have "j < length l" using j by simp
      moreover from this have "mem_at ?m (4101 + 29 * j) 29 = mem_at m (4101 + 29 * j) 29"
        by (intro mem_at_upd_other) simp
      ultimately show ?thesis using db by (simp add: sfp_db_def nth_append)
    qed
    finally show ?thesis .
  qed
  then show ?thesis using db l r by (auto simp: sfp_db_def mem_upd_def nth_append less_Suc_eq)
qed

text \<open>Looking a name up in a list of records.\<close>

definition sfp_found :: "s_sfpinfo list \<Rightarrow> s_sfpinfo \<Rightarrow> int \<times> s_sfpinfo" where
  "sfp_found l q =
    (case find (\<lambda>x. strncmp_eq 16 (pn x) (pn q)) l of
       None \<Rightarrow> (0, q)
     | Some x \<Rightarrow> (1, q\<lparr>dTx := dTx x, dRx := dRx x, alpha := alpha x\<rparr>))"

context card_eeprom
begin

text \<open>Reading a record, whatever is in the memory.\<close>

lemma get_sfp_read:
  assumes s: "holds s m" and e: "has_eeprom e" and pos: "unat pos < 4"
    and n: "pos = 0 \<Longrightarrow> m 4100 \<noteq> 0"
  defines "e' \<equiv> (if pos = 0 then e\<lparr>ee_sfpcount := m 4100\<rparr> else e)"
    and "bs \<equiv> mem_at m (4101 + 29 * unat pos) 29"
  obtains s' where "eeprom_get_sfp io 0 0x50 sfp False pos e s =
      Some (if foldl chk_step 0 (take 28 bs) \<noteq> bs ! 28 then EE_RET_CORRPT else uint (ee_sfpcount e'),
        sfp_of bs, e', s')" "holds s' m"
proof -
  have p: "\<not> 4 \<le> pos" using pos by (simp add: word_le_nat_alt)
  obtain s1 where s1: "(if pos = 0 then eeprom_read io 0 0x50 EE_BASE_SFP 1 e s
      else (1, [ee_sfpcount e], s)) = (1, [ee_sfpcount e'], s1)" "holds s1 m"
  proof (cases "pos = 0")
    case True
    obtain s1 where "eeprom_read io 0 0x50 4100 1 e s = (int 1, mem_at m (unat (4100 :: u32)) 1, s1)"
        "holds s1 m"
      by (rule read_mem [OF s e, of 1 4100]) simp_all
    then show thesis using that [of s1] True by (simp add: e'_def)
  next
    case False
    then show thesis using that [of s] s by (simp add: e'_def)
  qed
  have e1: "has_eeprom e'" "e\<lparr>ee_sfpcount := ee_sfpcount e'\<rparr> = e'" using e by (simp_all add: e'_def)
  have o: "unat (sfp_offset pos) = 4101 + 29 * unat pos" using pos by (simp add: unat_sfp_offset)
  obtain s2 where s2: "eeprom_read io 0 0x50 (sfp_offset pos) 29 e' s1 = (int 29, bs, s2)" "holds s2 m"
    using read_mem [OF s1(2) e1(1), of 29 "sfp_offset pos"] pos unfolding o bs_def by auto
  have z: "(pos = 0 \<and> \<not> False \<and> ee_sfpcount e' = 0) = False" using n by (auto simp: e'_def)
  have "chksum (sfp_of bs) = bs ! 28" by (simp add: sfp_of_def)
  then show thesis
    by (intro that [OF _ s2(2)])
      (unfold eeprom_get_sfp_def s1(1) Let_def prod.case list.case e1(2) s2(1) z, use p in simp)
qed

text \<open>Adding a record.\<close>

lemma get_sfp_add:
  assumes s: "holds s m" and e: "has_eeprom e" and db: "sfp_db m l" and l: "length l < 4"
    and r: "sfp_wf r"
  defines "r' \<equiv> r\<lparr>chksum := foldl chk_step 0 (sfp_body r)\<rparr>"
  obtains e' s' m' where "eeprom_get_sfp io 0 0x50 r True 0 e s = Some (int (Suc (length l)), r', e', s')"
    "has_eeprom e'" "holds s' m'" "sfp_db m' (l @ [r'])"
proof -
  let ?n = "length l"
  let ?e = "e\<lparr>ee_sfpcount := m 4100\<rparr>"
  have n: "m 4100 = word_of_nat ?n" "unat (m 4100) = ?n"
    using db l by (simp_all add: sfp_db_def unat_of_nat)
  have full: "(True \<and> ee_sfpcount ?e = SFPS_MAX) = False" using n l by (auto simp: word_unat_eq_iff)
  obtain s1 where s1: "eeprom_read io 0 0x50 4100 1 e s = (1, [m 4100], s1)" "holds s1 m"
    by (rule read_mem [OF s e, of 1 4100]) simp_all
  have r': "sfp_sealed r'" using r by (simp add: r'_def sfp_sealed_def sfp_wf_def sfp_body_def)
  then have len: "length (sfp_image r') = 29" by (simp add: sfp_sealed_def length_sfp_image)
  have o: "unat (sfp_offset (m 4100)) = 4101 + 29 * ?n" using n l by (simp add: unat_sfp_offset)
  obtain s2 where s2: "eeprom_write io 0 0x50 (sfp_offset (m 4100)) (sfp_image r') ?e s1 = Some (29, s2)"
      "holds s2 (mem_upd m (4101 + 29 * ?n) (sfp_image r'))"
    using write_mem [OF s1(2), of ?e "sfp_offset (m 4100)" "sfp_image r'"] e l len unfolding o by auto
  let ?e2 = "?e\<lparr>ee_sfpcount := ee_sfpcount ?e + 1\<rparr>"
  let ?m2 = "mem_upd (mem_upd m (4101 + 29 * ?n) (sfp_image r')) 4100 [word_of_nat (Suc ?n)]"
  have c: "ee_sfpcount ?e2 = word_of_nat (Suc ?n)" using n by simp
  obtain s3 where s3: "eeprom_write io 0 0x50 4100 [word_of_nat (Suc ?n)] ?e2 s2 = Some (1, s3)"
      "holds s3 ?m2"
    using write_mem [OF s2(2), of ?e2 4100 "[word_of_nat (Suc ?n)]"] e by auto
  have u: "uint (word_of_nat (Suc ?n) :: u8) = int (Suc ?n)"
    using l by (simp add: uint_nat unat_of_nat del: of_nat_Suc)
  have "eeprom_get_sfp io 0 0x50 r True 0 e s = Some (int (Suc ?n), r', ?e2, s3)"
    unfolding eeprom_get_sfp_def simp_thms(6) if_True s1(1) Let_def prod.case list.case full
      r'_def [symmetric]
    using s2(1) s3(1) u unfolding n(1) by (simp add: add.commute [of _ 1])
  then show thesis by (rule that) (use e s3(2) sfp_db_snoc [OF db l r'] in auto)
qed

text \<open>Looking a name up: the loop finds the first record with it.\<close>

lemma match_loop_finds:
  assumes db: "sfp_db m l" and l: "l \<noteq> []"
  shows "holds s m \<Longrightarrow> has_eeprom e \<Longrightarrow> j \<le> length l \<Longrightarrow>
    c = (if j = 0 then 1 else word_of_nat (length l)) \<Longrightarrow>
    \<exists>e' s'. match_loop io (int j) c dbsfp q e s =
      Some (fst (sfp_found (drop j l) q), snd (sfp_found (drop j l) q), e', s') \<and> holds s' m \<and> has_eeprom e'"
proof (induction "length l - j" arbitrary: j c dbsfp e s)
  case 0
  moreover from this have "j = length l" by simp
  moreover have "\<not> int (length l) < uint (word_of_nat (length l) :: u8)"
    by (simp add: uint_nat unat_of_nat)
  ultimately show ?case using l by (subst match_loop.simps) (simp add: sfp_found_def)
next
  case (Suc n)
  have j: "j < length l" "j < 4" using Suc.hyps(2) db by (auto simp: sfp_db_def)
  let ?n = "word_of_nat (length l) :: u8"
  have cnt: "m 4100 = ?n" "uint ?n = int (length l)" "?n \<noteq> 0"
    using db l by (auto simp: sfp_db_def uint_nat unat_of_nat word_unat_eq_iff)
  have pos: "unat (word_of_int (int j) :: u8) = j" "(word_of_int (int j) :: u8) = 0 \<longleftrightarrow> j = 0"
    using j(2) by (auto simp: unat_of_nat word_unat_eq_iff)
  define e1 where "e1 = (if j = 0 then e\<lparr>ee_sfpcount := m 4100\<rparr> else e)"
  have img: "mem_at m (4101 + 29 * j) 29 = sfp_image (l ! j)" "sfp_sealed (l ! j)"
    using db j(1) by (auto simp: sfp_db_def)
  then have "sfp_wf (l ! j)" by (simp add: sfp_sealed_def)
  note img' = sealed_image [OF img(2)] sfp_of_image [OF this]
  obtain s1 where g: "eeprom_get_sfp io 0 0x50 dbsfp False (word_of_int (int j)) e s =
      Some (uint (ee_sfpcount e1), l ! j, e1, s1)" "holds s1 m"
    using get_sfp_read [OF Suc.prems(1,2), of "word_of_int (int j)" dbsfp] pos j(2) cnt img img'
    unfolding e1_def by auto
  have e1: "has_eeprom e1" using Suc.prems(2) by (simp add: e1_def)
  have lt: "int j < uint c" using Suc.prems(4) j cnt by auto
  have l4: "length l \<le> 4" using db by (simp add: sfp_db_def)
  have s8: "s8 (int (length l)) = int (length l)" "s8 (int j + 1) = int (Suc j)"
    using l4 j by (simp_all add: s8_id)
  have c1: "(if int j = 0 then word_of_int (s8 (uint (ee_sfpcount e1))) else c) = ?n"
    using Suc.prems(4) cnt s8(1) by (simp add: e1_def)
  have ff: "?n \<noteq> 0xFF" using l4 by (auto simp: word_unat_eq_iff unat_of_nat)
  have dr: "drop j l = l ! j # drop (Suc j) l" using j(1) by (rule Cons_nth_drop_Suc [symmetric])
  have step: "match_loop io (int j) c dbsfp q e s =
      (if strncmp_eq 16 (pn (l ! j)) (pn q)
       then Some (1, q\<lparr>dTx := dTx (l ! j), dRx := dRx (l ! j), alpha := alpha (l ! j)\<rparr>, e1, s1)
       else match_loop io (int (Suc j)) ?n (l ! j) q e1 s1)"
    apply (subst match_loop.simps)
    unfolding g(1) c1 Let_def s8(2)
    using lt cnt(3) ff by (simp add: c1 [unfolded of_nat_eq_0_iff] s8(2) del: of_nat_Suc)
  show ?case
  proof (cases "strncmp_eq 16 (pn (l ! j)) (pn q)")
    case True
    then show ?thesis unfolding step dr using g(2) e1 by (simp add: sfp_found_def)
  next
    case False
    then have "sfp_found (drop j l) q = sfp_found (drop (Suc j) l) q"
      unfolding dr by (simp add: sfp_found_def)
    then show ?thesis
      using Suc.hyps(1) [of "Suc j" s1 e1 ?n "l ! j"] Suc.hyps(2) g(2) e1 j False
      unfolding step by simp
  qed
qed

text \<open>
  A first record whose checksum is wrong: the error code \<open>-3\<close> becomes the number 253 of
  records, and the loop variable, an \<open>int8_t\<close>, never reaches it.
\<close>

lemma get_sfp_beyond:
  "4 \<le> pos \<Longrightarrow> eeprom_get_sfp io 0 0x50 sfp False pos e s = Some (EE_RET_POSERR, sfp, e, s)"
  by (simp add: eeprom_get_sfp_def)

lemma match_loop_stuck:
  assumes bad: "foldl chk_step 0 (mem_at m 4101 28) \<noteq> m 4129" and cnt: "m 4100 \<noteq> 0"
    and no: "\<And>j. j < 4 \<Longrightarrow> \<not> strncmp_eq 16 (mem_at m (4101 + 29 * j) 16) (pn q)"
  defines "stuck \<equiv> \<lambda>i c (db :: s_sfpinfo) (e :: ee) s. - 128 \<le> i \<and> i \<le> (127 :: int) \<and> (if i = 0 then 0 < uint (c :: u8)
      else c = 253 \<and> \<not> strncmp_eq 16 (pn db) (pn q)) \<and> holds s m \<and> has_eeprom e"
  assumes "match_loop io i c db q e s = Some r"
  shows "\<not> stuck i c db e s"
proof -
  have "\<not> (io' = io \<and> q' = q \<and> stuck i c db e s)" if "match_loop io' i c db q' e s = Some r"
    for io' q' i c db e s r
  proof (rule match_loop.raw_induct [where
        P = "\<lambda>io' i c db q' e s r. \<not> (io' = io \<and> q' = q \<and> stuck i c db e s)", OF _ that])
    fix f io' i c db q' e s r
    assume IH: "\<And>io' i c db q' e s r. f io' i c db q' e s = Some r \<Longrightarrow> \<not> (io' = io \<and> q' = q \<and> stuck i c db e s)"
      and body: "(if \<not> i < uint c then Some (0, q', e, s)
      else eeprom_get_sfp io' 0 80 db False (word_of_int i) e s \<bind>
           (\<lambda>(temp, dbsfp, e, s). let sfpcount = if i = 0 then word_of_int (s8 temp) else c
             in if i = 0 \<and> (sfpcount = 0 \<or> sfpcount = 255) then Some (0, q', e, s)
                else if strncmp_eq 16 (pn dbsfp) (pn q')
                then Some (1, q'\<lparr>dTx := dTx dbsfp, dRx := dRx dbsfp, alpha := alpha dbsfp\<rparr>, e, s)
                else f io' (s8 (i + 1)) sfpcount dbsfp q' e s)) = Some r"
    show "\<not> (io' = io \<and> q' = q \<and> stuck i c db e s)"
    proof
      assume "io' = io \<and> q' = q \<and> stuck i c db e s"
      then have eq: "io' = io" "q' = q" and i: "- 128 \<le> i" "i \<le> 127"
        and c: "if i = 0 then 0 < uint c else c = 253 \<and> \<not> strncmp_eq 16 (pn db) (pn q)"
        and s: "holds s m" and e: "has_eeprom e"
        by (simp_all add: stuck_def)
      have lt: "(\<not> i < uint c) = False" using c i by (auto split: if_splits)
      have next_i: "- 128 \<le> s8 (i + 1) \<and> s8 (i + 1) \<le> 127"
        unfolding s8_def using signed_take_bit_int_greater_eq_minus_exp [of 7 "i + 1"]
          signed_take_bit_int_less_exp [of 7 "i + 1"] by simp
      obtain t db1 e1 s1 where g: "eeprom_get_sfp io 0 80 db False (word_of_int i) e s = Some (t, db1, e1, s1)"
        and h: "holds s1 m" "has_eeprom e1" "\<not> strncmp_eq 16 (pn db1) (pn q)" "i = 0 \<Longrightarrow> t = - 3"
      proof (cases "0 \<le> i \<and> i < 4")
        case True
        define j where "j = nat i"
        have j: "i = int j" "j < 4" using True by (auto simp: j_def nat_less_iff)
        have pos: "unat (word_of_int i :: u8) = j" "(word_of_int i :: u8) = 0 \<longleftrightarrow> j = 0"
          using j by (auto simp: unat_of_nat word_unat_eq_iff)
        have tk: "take 28 (mem_at m 4101 29) = mem_at m 4101 28" "mem_at m 4101 29 ! 28 = m 4129"
          by (simp_all add: mem_at_def take_map)
        have nm: "pn (sfp_of (mem_at m (4101 + 29 * j) 29)) = mem_at m (4101 + 29 * j) 16"
          by (simp add: sfp_of_def mem_at_def take_map)
        show thesis
          by (rule get_sfp_read [OF s e, of "word_of_int i" db])
            (use pos j cnt bad tk nm no [OF j(2)] e in \<open>auto intro!: that\<close>)
      next
        case False
        then have "4 \<le> (word_of_int i :: u8)" using i
          by (simp add: word_le_def uint_word_of_int) presburger
        then show thesis
          using that [OF get_sfp_beyond s e] False c by auto
      qed
      define c1 where "c1 = (if i = 0 then word_of_int (s8 t) else c)"
      have c1: "c1 = 253" using c h(4) by (auto simp: c1_def s8_id split: if_splits)
      have "f io (s8 (i + 1)) 253 db1 q e1 s1 = Some r"
        using body [unfolded eq lt if_False g bind.bind_lunit prod.case] h(3)
        by (simp add: Let_def c1 [unfolded c1_def])
      from IH [OF this] show False using next_i h by (auto simp: stuck_def split: if_splits)
    qed
  qed
  then show ?thesis using assms(5) by blast
qed

end

lemma find_snoc:
  "find P (l @ [x]) = (case find P l of None \<Rightarrow> if P x then Some x else None | Some y \<Rightarrow> Some y)"
  by (induction l) auto

context card_eeprom
begin

lemma erase_db:
  assumes "holds s m" "has_eeprom e"
  obtains s' m' where "eeprom_sfpdb_erase io 0 0x50 e s = Some (0, s')" "holds s' m'" "sfp_db m' []"
proof -
  obtain s1 where "eeprom_write io 0 0x50 4100 [0] e s = Some (int (length [0 :: u8]), s1)"
      "holds s1 (mem_upd m (unat (4100 :: u32)) [0])"
    by (rule write_mem [OF assms, of 4100 "[0]"]) simp_all
  then show thesis
    by (intro that [of s1 "mem_upd m 4100 [0]"]) (simp_all add: eeprom_sfpdb_erase_def sfp_db_def mem_upd_def)
qed

lemma add_then_match:
  assumes "holds s m" "has_eeprom e" "sfp_db m l" "length l < 4" "sfp_wf r"
  shows "\<exists>r' e' s'. eeprom_get_sfp io 0 0x50 r True 0 e s = Some (int (length l) + 1, r', e', s') \<and>
    (\<forall>dbsfp q. \<exists>e'' s''. eeprom_match_sfp io dbsfp q e' s' =
      Some (fst (sfp_found (l @ [r]) q), snd (sfp_found (l @ [r]) q), e'', s''))"
proof -
  let ?r = "r\<lparr>chksum := foldl chk_step 0 (sfp_body r)\<rparr>"
  obtain e' s' m' where a: "eeprom_get_sfp io 0 0x50 r True 0 e s = Some (int (Suc (length l)), ?r, e', s')"
    "has_eeprom e'" "holds s' m'" "sfp_db m' (l @ [?r])"
    by (rule get_sfp_add [OF assms])
  have same: "sfp_found (l @ [?r]) q = sfp_found (l @ [r]) q" for q
    by (simp add: sfp_found_def find_snoc split: option.split)
  have "\<exists>e'' s''. eeprom_match_sfp io dbsfp q e' s' =
      Some (fst (sfp_found (l @ [r]) q), snd (sfp_found (l @ [r]) q), e'', s'')" for dbsfp q
  proof -
    have "\<exists>e'' s''. match_loop io (int 0) 1 dbsfp q e' s' =
        Some (fst (sfp_found (drop 0 (l @ [?r])) q), snd (sfp_found (drop 0 (l @ [?r])) q), e'', s'') \<and>
        holds s'' m' \<and> has_eeprom e''"
      by (rule match_loop_finds [OF a(4) _ a(3,2)]) simp_all
    then show ?thesis by (auto simp: same eeprom_match_sfp_def)
  qed
  then show ?thesis using a(1) by (auto simp: add.commute)
qed

lemma match_corrupt_stuck:
  assumes "foldl chk_step 0 (mem_at m 4101 28) \<noteq> m 4129" "m 4100 \<noteq> 0"
    and "\<forall>j<4. \<not> strncmp_eq 16 (mem_at m (4101 + 29 * j) 16) (pn q)"
    and "holds s m" "has_eeprom e"
  shows "eeprom_match_sfp io dbsfp q e s = None"
proof (rule ccontr)
  assume "eeprom_match_sfp io dbsfp q e s \<noteq> None"
  then obtain r where "match_loop io 0 1 dbsfp q e s = Some r" by (auto simp: eeprom_match_sfp_def)
  from match_loop_stuck [OF assms(1,2) _ this] show False using assms(3-5) by auto
qed

lemma write_read_back:
  assumes s: "holds s m" and e: "has_eeprom e" and n: "bs \<noteq> []" "unat ofs + length bs \<le> 8192"
  shows "\<exists>s' s''. eeprom_write io 0 0x50 ofs bs e s = Some (int (length bs), s') \<and>
    eeprom_read io 0 0x50 ofs (length bs) e s' = (int (length bs), bs, s'') \<and>
    holds s'' (mem_upd m (unat ofs) bs)"
proof -
  obtain s1 where w: "eeprom_write io 0 0x50 ofs bs e s = Some (int (length bs), s1)"
      "holds s1 (mem_upd m (unat ofs) bs)"
    by (rule write_mem [OF s e n(2)])
  obtain s2 where "eeprom_read io 0 0x50 ofs (length bs) e s1 =
      (int (length bs), mem_at (mem_upd m (unat ofs) bs) (unat ofs) (length bs), s2)"
      "holds s2 (mem_upd m (unat ofs) bs)"
    by (rule read_mem [OF w(2) e _ n(2)]) (use n(1) in simp)
  then show ?thesis using w(1) by simp
qed

text \<open>
  The area of the init script starts inside the fourth record: its number of bytes is two bytes
  of that record's \<open>dRx\<close>, so erasing the script damages the data base (and the other way round).
\<close>

lemma init_erase_hits_sfp_db:
  assumes s: "holds s m" and e: "has_eeprom e" and db: "sfp_db m l" and l: "length l = 4"
    and r: "dRx (l ! 3) = - 1"
  obtains s' m' where "eeprom_init_erase io 0 0x50 e s = Some (0, s')" "holds s' m'" "\<not> sfp_db m' l"
proof -
  obtain s1 where w: "eeprom_init_erase io 0 0x50 e s = Some (0, s1)" "holds s1 (mem_upd m 4212 [0, 0])"
  proof -
    obtain s1 where "eeprom_write io 0 0x50 4212 [0, 0] e s = Some (int (length [0, 0 :: u8]), s1)"
        "holds s1 (mem_upd m (unat (4212 :: u32)) [0, 0])"
      by (rule write_mem [OF s e, of 4212 "[0, 0]"]) simp_all
    then show thesis by (intro that [of s1]) (simp_all add: eeprom_init_erase_def be_bytes_2)
  qed
  have wf: "sfp_wf (l ! 3)" using db l by (simp add: sfp_db_def sfp_sealed_def)
  have "unat (- 1 :: u32) = 4294967295" by (simp add: unsigned_minus_1_eq_mask mask_eq_exp_minus_1)
  then have "i32_bytes (- 1) ! 0 = 0xff" by (simp add: i32_bytes_def to_u32_def be_bytes_4)
  then have "sfp_image (l ! 3) ! 24 = 0xff"
    using wf r by (simp add: sfp_image_def sfp_body_def sfp_wf_def nth_append)
  moreover have "mem_at (mem_upd m 4212 [0, 0]) (4101 + 29 * 3) 29 ! 24 = 0"
    by (simp add: mem_upd_def)
  ultimately have "mem_at (mem_upd m 4212 [0, 0]) (4101 + 29 * 3) 29 \<noteq> sfp_image (l ! 3)"
    by (intro notI) (simp only: zero_neq_numeral, simp)
  then have "\<not> sfp_db (mem_upd m 4212 [0, 0]) l" using l by (auto simp: sfp_db_def intro!: exI [of _ 3])
  then show thesis by (rule that [OF w])
qed

end

text \<open>The card's bus is an interpretation.\<close>

interpretation fmc: card_eeprom "slave_io (fmc_eeprom wt) 0" "fmc_eeprom wt" sl_idle sl_rcv sl_off
    "sl_snd (fmc_eeprom wt)" sm_mem "sm_std 8192" "sm_sel 8192" "sm_rd 8192" sm_cyc sm_busy
  for wt
  by (rule card_eeprom.intro, rule serial_dev_eeprom) simp_all

section \<open>Properties\<close>

text \<open>
  C27. A record added to a data base of at most three, all with their checksums right, on a chip that answers, is found again: looking up any name then
  gives the deviations of the first record with that name, or that there is none, and
  leaves the rest of the caller's record alone.
\<close>

theorem sfp_add_then_match:
  assumes "card_eeprom io D idle rcv off sending mem std sel rd cyc left"
    and "chip_holds idle std mem s m" "has_eeprom e" "sfp_db m l" "length l < 4" "sfp_wf r"
  shows "\<exists>r' e' s'. eeprom_get_sfp io WRPC_FMC_I2C FMC_EEPROM_ADR r True 0 e s =
      Some (int (length l) + 1, r', e', s') \<and>
    (\<forall>dbsfp q. \<exists>e'' s''. eeprom_match_sfp io dbsfp q e' s' =
      Some (fst (sfp_found (l @ [r]) q), snd (sfp_found (l @ [r]) q), e'', s''))"
  using card_eeprom.add_then_match [OF assms(1,2,3,4,5,6)] .

abbreviation card_bus :: "(nat \<Rightarrow> u8) \<Rightarrow> smem slave" where
  "card_bus m \<equiv> \<lparr>sl_scl = True, sl_sda = True, sl_out = True, sl_phase = Quiet,
     sl_dev = \<lparr>sm_mem = m, sm_ptr = 0, sm_mode = Deselected, sm_dirty = False, sm_busy = 0\<rparr>\<rparr>"

lemma card_bus_holds: "chip_holds sl_idle (sm_std 8192) sm_mem (card_bus m) m"
  unfolding chip_holds_def
  by (rule exI [of _ "sl_dev (card_bus m)"], rule exI [of _ 0]) (simp add: sl_idle_def sm_std_def)

abbreviation card_ee :: ee where
  "card_ee \<equiv> \<lparr>has_eeprom = True, ee_sfpcount = 0, rc_ptr = 0, rc_used = 0\<rparr>"

theorem sfp_add_then_match_witness:
  defines "r \<equiv> \<lparr>pn = replicate 16 0x41, alpha = - 7, dTx = 180000, dRx = 150000, chksum = 0\<rparr>"
  shows "\<exists>r' e' s'. eeprom_get_sfp (slave_io (fmc_eeprom 2) 0) WRPC_FMC_I2C FMC_EEPROM_ADR r True 0
      card_ee (card_bus (\<lambda>_. 0)) = Some (1, r', e', s') \<and>
    (\<exists>e'' s''. eeprom_match_sfp (slave_io (fmc_eeprom 2) 0) undefined
        \<lparr>pn = replicate 16 0x41, alpha = 0, dTx = 0, dRx = 0, chksum = 9\<rparr> e' s' =
      Some (1, \<lparr>pn = replicate 16 0x41, alpha = - 7, dTx = 180000, dRx = 150000, chksum = 9\<rparr>, e'', s''))"
proof -
  let ?q = "\<lparr>pn = replicate 16 0x41, alpha = 0, dTx = 0, dRx = 0, chksum = 9\<rparr>"
  have "sfp_db (\<lambda>_. 0) []" by (simp add: sfp_db_def)
  moreover have "sfp_wf r" by (simp add: r_def sfp_wf_def in32_def)
  moreover have found: "sfp_found ([] @ [r]) ?q =
      (1, \<lparr>pn = replicate 16 0x41, alpha = - 7, dTx = 180000, dRx = 150000, chksum = 9\<rparr>)"
    by (simp add: r_def sfp_found_def numeral_eq_Suc)
  moreover have "has_eeprom card_ee" "length ([] :: s_sfpinfo list) < 4" "int (length ([] :: s_sfpinfo list)) + 1 = 1"
    by simp_all
  ultimately have "\<exists>r' e' s'. eeprom_get_sfp (slave_io (fmc_eeprom 2) 0) WRPC_FMC_I2C FMC_EEPROM_ADR r True 0
      card_ee (card_bus (\<lambda>_. 0)) = Some (1, r', e', s') \<and>
    (\<forall>dbsfp q. \<exists>e'' s''. eeprom_match_sfp (slave_io (fmc_eeprom 2) 0) dbsfp q e' s' =
      Some (fst (sfp_found ([] @ [r]) q), snd (sfp_found ([] @ [r]) q), e'', s''))"
    using sfp_add_then_match [OF fmc.card_eeprom_axioms [of 2] card_bus_holds [of "\<lambda>_. 0"], of card_ee "[]" r]
    by metis
  with found show ?thesis by (metis fst_conv snd_conv)
qed

text \<open>
  C28. When the number of records is not zero, the checksum of the first record is wrong and none of the four places
  for records holds the name, looking the name up never returns: the error code is taken for the number of
  records, and an 8-bit signed loop variable never reaches it.
\<close>

theorem sfp_match_corrupt_stuck:
  assumes "card_eeprom io D idle rcv off sending mem std sel rd cyc left"
    and "chip_holds idle std mem s m" "has_eeprom e" "m 4100 \<noteq> 0"
    and "foldl chk_step 0 (mem_at m 4101 28) \<noteq> m 4129"
    and "\<forall>j<4. \<not> strncmp_eq 16 (mem_at m (4101 + 29 * j) 16) (pn q)"
  shows "eeprom_match_sfp io dbsfp q e s = None"
  by (rule card_eeprom.match_corrupt_stuck [OF assms(1,5,4,6,2,3)])

theorem sfp_match_corrupt_stuck_witness:
  "eeprom_match_sfp (slave_io (fmc_eeprom 2) 0) undefined
    \<lparr>pn = replicate 16 0x41, alpha = 0, dTx = 0, dRx = 0, chksum = 0\<rparr> card_ee
    (card_bus (\<lambda>k. if k = 4100 then 1 else if k = 4129 then 5 else 0)) = None"
proof -
  let ?m = "\<lambda>k :: nat. if k = 4100 then 1 else if k = 4129 then 5 else 0 :: u8"
  have "foldl chk_step 0 (replicate n 0) = 0" for n
    by (induction n) (simp_all add: chk_step_def)
  moreover have "mem_at ?m 4101 28 = replicate 28 0" by (rule nth_equalityI) simp_all
  ultimately have "foldl chk_step 0 (mem_at ?m 4101 28) \<noteq> ?m 4129" by simp
  moreover have "\<not> strncmp_eq 16 (mem_at ?m (4101 + 29 * j) 16) (replicate 16 0x41)" if "j < 4" for j
  proof -
    have "(16 :: nat) = Suc 15" "4101 + 29 * j \<noteq> 4100" "4101 + 29 * j \<noteq> 4129" by presburger+
    then show ?thesis by (simp only: mem_at_Suc replicate_Suc strncmp_eq.simps) simp
  qed
  ultimately show ?thesis
    by (intro sfp_match_corrupt_stuck [OF fmc.card_eeprom_axioms card_bus_holds]) simp_all
qed

text \<open>
  Writing to the EEPROM returns, however often the chip is polled during its write cycles,
  and changes exactly the bytes that are written, which a read then delivers.
\<close>

theorem eeprom_write_returns:
  assumes "card_eeprom io D idle rcv off sending mem std sel rd cyc left"
    and "chip_holds idle std mem s m" "has_eeprom e" "bs \<noteq> []" "unat ofs + length bs \<le> 8192"
  shows "\<exists>s' s''. eeprom_write io WRPC_FMC_I2C FMC_EEPROM_ADR ofs bs e s = Some (int (length bs), s') \<and>
    eeprom_read io WRPC_FMC_I2C FMC_EEPROM_ADR ofs (length bs) e s' = (int (length bs), bs, s'') \<and>
    chip_holds idle std mem s'' (mem_upd m (unat ofs) bs)"
  by (rule card_eeprom.write_read_back [OF assms])

theorem eeprom_write_returns_witness:
  "\<exists>s' s''. eeprom_write (slave_io (fmc_eeprom 7) 0) WRPC_FMC_I2C FMC_EEPROM_ADR 4096 [1, 2, 3, 4]
      card_ee (card_bus (\<lambda>_. 0xff)) = Some (4, s') \<and>
    eeprom_read (slave_io (fmc_eeprom 7) 0) WRPC_FMC_I2C FMC_EEPROM_ADR 4096 4 card_ee s' =
      (4, [1, 2, 3, 4], s'')"
proof -
  have "int (length [1, 2, 3, 4 :: u8]) = 4" "length [1, 2, 3, 4 :: u8] = 4" by simp_all
  note r = eeprom_write_returns [OF fmc.card_eeprom_axioms [of 7] card_bus_holds [of "\<lambda>_. 0xff"],
      of card_ee "[1, 2, 3, 4]" 4096, unfolded this]
  show ?thesis using r by simp blast
qed

end
