(* ===== verification/Boot.thy ===== *)
theory Boot
  imports Shell_Props Eeprom_Props
begin

text \<open>
  The boot script: \<open>shell_boot_script\<close> of \<open>shell/shell.c\<close> reads the commands of the init script out
  of the EEPROM, one by one, into the line buffer of the shell and runs them. The state is that
  of the shell, of the EEPROM and its bus, and of the rest of the program, which the
  commands work on.
\<close>

definition bytes_of :: "string \<Rightarrow> u8 list" where
  "bytes_of s = map (\<lambda>c. word_of_nat (of_char c)) s"

definition chars_of :: "u8 list \<Rightarrow> string" where
  "chars_of bs = map (\<lambda>b. char_of (unat b)) bs"





section \<open>Reading a command\<close>

lemma chars_bytes [simp]: "chars_of (bytes_of s) = s"
proof -
  have "char_of (unat (word_of_nat (of_char c) :: u8)) = c" for c :: char
  proof -
    have "of_char c < (256 :: nat)" by (metis of_char_mod_256 mod_less_divisor zero_less_numeral)
    then show ?thesis by (simp add: unat_of_nat)
  qed
  then show ?thesis by (simp add: chars_of_def bytes_of_def comp_def)
qed


lemma length_chars_of [simp]: "length (chars_of s) = length s"
  by (simp add: chars_of_def)







section \<open>Running the script\<close>











text \<open>The bytes of a script and its place in the EEPROM.\<close>

definition script_bytes :: "string list \<Rightarrow> u8 list" where
  "script_bytes ls = concat (map (\<lambda>l. bytes_of l @ [0x0A]) ls)"


lemma script_bytes_simps [simp]:
  "script_bytes [] = []" "script_bytes (l # ls) = bytes_of l @ 0x0A # script_bytes ls"
  by (simp_all add: script_bytes_def)







end
