(* ===== verification/Ep_pfilter.thy ===== *)
theory Ep_pfilter
  imports Bytes
begin

text \<open>
  The packet filter of the endpoint, \<open>dev/ep_pfilter.c\<close>: a small assembler, the default program in
  the three configurations of the build, and its loading. The filter itself is hardware; its
  instructions and what they do are described in the comment of the source, and \<open>pf_step\<close> below
  is that description. The checks of the source only print (and not even that).
\<close>

section \<open>The assembler\<close>

datatype pfilter_op = PF_AND | PF_OR | PF_XOR | PF_MOV | PF_NAND | PF_NOR | PF_XNOR | PF_NOT

fun op_code :: "pfilter_op \<Rightarrow> u64" where
  "op_code PF_AND = 0"
| "op_code PF_OR = 1"
| "op_code PF_XOR = 2"
| "op_code PF_MOV = 3"
| "op_code PF_NAND = 4"
| "op_code PF_NOR = 5"
| "op_code PF_XNOR = 6"
| "op_code PF_NOT = 7"

abbreviation (input) PF_MODE_LOGIC :: u64 where "PF_MODE_LOGIC \<equiv> push_bit 34 1"
abbreviation (input) PF_MODE_CMP :: u64 where "PF_MODE_CMP \<equiv> 0"
abbreviation (input) R_DROP :: u64 where "R_DROP \<equiv> 23"

definition R_CLASS :: "u64 \<Rightarrow> u64" where
  "R_CLASS x = 24 + x"

text \<open>The program so far; the buffer has room for 32 instructions.\<close>

definition pfilter_new :: "u64 list" where
  "pfilter_new = []"

definition pf_emit :: "u64 \<Rightarrow> u64 list \<Rightarrow> u64 list option" where
  "pf_emit ir code = (if length code < 32 then Some (code @ [ir]) else None)"

definition cmp_word :: "u64 \<Rightarrow> u64 \<Rightarrow> u64 \<Rightarrow> pfilter_op \<Rightarrow> u64 \<Rightarrow> u64" where
  "cmp_word offset value msk op rd =
    (let ir = (PF_MODE_CMP OR push_bit 7 offset
               OR (if msk AND 0x1 \<noteq> 0 then push_bit 29 1 else 0)
               OR (if msk AND 0x10 \<noteq> 0 then push_bit 30 1 else 0)
               OR (if msk AND 0x100 \<noteq> 0 then push_bit 31 1 else 0)
               OR (if msk AND 0x1000 \<noteq> 0 then push_bit 32 1 else 0))
              OR op_code op OR push_bit 3 rd
     in ir OR push_bit 13 (value AND 0xffff))"

definition pfilter_cmp :: "u64 \<Rightarrow> u64 \<Rightarrow> u64 \<Rightarrow> pfilter_op \<Rightarrow> u64 \<Rightarrow> u64 list \<Rightarrow> u64 list option" where
  "pfilter_cmp offset value msk op rd code = pf_emit (cmp_word offset value msk op rd) code"

definition pfilter_nop :: "u64 list \<Rightarrow> u64 list option" where
  "pfilter_nop code = pf_emit PF_MODE_LOGIC code"

definition logic2_word :: "u64 \<Rightarrow> u64 \<Rightarrow> pfilter_op \<Rightarrow> u64 \<Rightarrow> u64" where
  "logic2_word rd ra op rb =
    (let ir = push_bit 8 ra OR push_bit 13 rb OR push_bit 3 (rd AND 0xf)
              OR (if rd AND 0x10 \<noteq> 0 then push_bit 7 1 else 0) OR op_code op
     in ir OR PF_MODE_LOGIC OR push_bit 23 3)"

definition pfilter_logic2 :: "u64 \<Rightarrow> u64 \<Rightarrow> pfilter_op \<Rightarrow> u64 \<Rightarrow> u64 list \<Rightarrow> u64 list option" where
  "pfilter_logic2 rd ra op rb code = pf_emit (logic2_word rd ra op rb) code"

definition logic3_word :: "u64 \<Rightarrow> u64 \<Rightarrow> pfilter_op \<Rightarrow> u64 \<Rightarrow> pfilter_op \<Rightarrow> u64 \<Rightarrow> u64" where
  "logic3_word rd ra op rb op2 rc =
    (let ir = push_bit 8 ra OR push_bit 13 rb OR push_bit 18 rc OR push_bit 3 (rd AND 0xf)
              OR (if rd AND 0x10 \<noteq> 0 then push_bit 7 1 else 0) OR op_code op
     in ir OR PF_MODE_LOGIC OR push_bit 23 (op_code op2))"

definition pfilter_logic3 ::
  "u64 \<Rightarrow> u64 \<Rightarrow> pfilter_op \<Rightarrow> u64 \<Rightarrow> pfilter_op \<Rightarrow> u64 \<Rightarrow> u64 list \<Rightarrow> u64 list option" where
  "pfilter_logic3 rd ra op rb op2 rc code = pf_emit (logic3_word rd ra op rb op2 rc) code"

text \<open>The writes to the two registers of the filter.\<close>

datatype pf_reg = PFCR0 | PFCR1

definition load_word :: "nat \<Rightarrow> u64 \<Rightarrow> (pf_reg \<times> u32) list" where
  "load_word i w =
    (let cr1 = ucast (w AND 0xfff) AND 0xfff;
         cr0 = (word_of_nat i AND 0x3f) OR push_bit 8 (ucast (drop_bit 12 w AND 0xffffff)) OR 0x40
     in [(PFCR1, cr1), (PFCR0, cr0)])"

definition pfilter_load :: "u64 list \<Rightarrow> (pf_reg \<times> u32) list option" where
  "pfilter_load code = do {
     code \<leftarrow> pf_emit (push_bit 35 1) code;
     Some ((PFCR0, 0) # concat (map (\<lambda>(i, w). load_word i w) (enumerate 0 code)) @ [(PFCR0, 0x80)])
   }"

section \<open>The default program\<close>

text \<open>The options \<open>CONFIG_ETHERBONE\<close> and \<open>CONFIG_NIC_PFILTER\<close> of the build.\<close>

record pf_config =
  etherbone :: bool
  nic_pfilter :: bool

definition pf_common :: "u32 \<Rightarrow> u32 \<Rightarrow> u64 list option" where
  "pf_common mach macl = do {
     code \<leftarrow> pfilter_nop pfilter_new;
     code \<leftarrow> pfilter_cmp 0 0xffff 0xffff PF_MOV 1 code;
     code \<leftarrow> pfilter_cmp 1 0xffff 0xffff PF_AND 1 code;
     code \<leftarrow> pfilter_cmp 2 0xffff 0xffff PF_AND 1 code;
     code \<leftarrow> pfilter_cmp 0 0x011b 0xffff PF_MOV 2 code;
     code \<leftarrow> pfilter_cmp 1 0x1900 0xffff PF_AND 2 code;
     code \<leftarrow> pfilter_cmp 2 0x0000 0xffff PF_AND 2 code;
     code \<leftarrow> pfilter_cmp 0 (ucast (mach AND 0xffff)) 0xffff PF_MOV 3 code;
     code \<leftarrow> pfilter_cmp 1 (ucast (drop_bit 16 macl)) 0xffff PF_AND 3 code;
     code \<leftarrow> pfilter_cmp 2 (ucast (macl AND 0xffff)) 0xffff PF_AND 3 code;
     code \<leftarrow> pfilter_cmp 6 0x0800 0xffff PF_MOV 4 code;
     code \<leftarrow> pfilter_cmp 6 0x88f7 0xffff PF_MOV 5 code;
     code \<leftarrow> pfilter_cmp 6 0x0806 0xffff PF_MOV 6 code;
     code \<leftarrow> pfilter_cmp 6 0xdbff 0xffff PF_MOV 9 code;
     code \<leftarrow> pfilter_cmp 11 0x0001 0x00ff PF_MOV 7 code;
     pfilter_cmp 11 0x0011 0x00ff PF_MOV 8 code
   }"

definition pf_etherbone :: "bool \<Rightarrow> u64 list \<Rightarrow> u64 list option" where
  "pf_etherbone nic code = do {
     code \<leftarrow> pfilter_logic3 10 3 PF_OR 0 PF_AND 4 code;
     code \<leftarrow> pfilter_logic3 11 1 PF_OR 3 PF_AND 4 code;
     code \<leftarrow> pfilter_logic3 14 1 PF_AND 6 PF_OR 5 code;
     code \<leftarrow> pfilter_logic3 15 10 PF_AND 7 PF_OR 14 code;
     code \<leftarrow> pfilter_cmp 18 0x0044 0xffff PF_MOV 14 code;
     code \<leftarrow> pfilter_logic3 14 14 PF_AND 8 PF_AND 11 code;
     code \<leftarrow> pfilter_logic2 15 14 PF_OR 15 code;
     if nic then do {
       code \<leftarrow> pfilter_cmp 18 0xebd0 0xffff PF_MOV 6 code;
       code \<leftarrow> pfilter_logic2 (R_CLASS 0) 15 PF_MOV 0 code;
       code \<leftarrow> pfilter_logic2 (R_CLASS 5) 6 PF_OR 0 code;
       pfilter_logic3 (R_CLASS 7) 15 PF_OR 6 PF_NOT 0 code
     } else do {
       code \<leftarrow> pfilter_logic3 20 11 PF_AND 8 PF_OR 15 code;
       code \<leftarrow> pfilter_logic3 R_DROP 20 PF_OR 9 PF_NOT 0 code;
       code \<leftarrow> pfilter_logic2 (R_CLASS 7) 11 PF_AND 8 code;
       code \<leftarrow> pfilter_logic2 (R_CLASS 6) 1 PF_AND 9 code;
       pfilter_logic2 (R_CLASS 0) 15 PF_MOV 0 code
     }
   }"

definition pf_plain :: "u64 list \<Rightarrow> u64 list option" where
  "pf_plain code = do {
     code \<leftarrow> pfilter_logic3 10 3 PF_OR 2 PF_AND 5 code;
     code \<leftarrow> pfilter_logic2 11 1 PF_AND 9 code;
     code \<leftarrow> pfilter_logic3 12 10 PF_OR 11 PF_NOT 0 code;
     code \<leftarrow> pfilter_logic2 (R_CLASS 7) 12 PF_MOV 0 code;
     code \<leftarrow> pfilter_logic2 (R_CLASS 6) 11 PF_MOV 0 code;
     pfilter_logic2 (R_CLASS 0) 10 PF_MOV 0 code
   }"

definition pfilter_init_default :: "pf_config \<Rightarrow> u32 \<Rightarrow> u32 \<Rightarrow> (pf_reg \<times> u32) list option" where
  "pfilter_init_default cfg mach macl = do {
     code \<leftarrow> pf_common mach macl;
     code \<leftarrow> (if etherbone cfg then pf_etherbone (nic_pfilter cfg) code else pf_plain code);
     pfilter_load code
   }"

section \<open>The filter\<close>

text \<open>The program memory after the writes: the word to write is collected from both registers.\<close>

fun pf_write :: "pf_reg \<times> u32 \<Rightarrow> (u32 \<times> (nat \<Rightarrow> u64) \<times> bool) \<Rightarrow> (u32 \<times> (nat \<Rightarrow> u64) \<times> bool)" where
  "pf_write (PFCR1, v) (lsb, mem, on) = (v, mem, on)"
| "pf_write (PFCR0, v) (lsb, mem, on) =
    (lsb,
     if v AND 0x40 \<noteq> 0
     then mem(unat (v AND 0x3f) := push_bit 12 (ucast (drop_bit 8 v)) OR (ucast (lsb AND 0xfff)))
     else mem,
     v AND 0x80 \<noteq> 0)"

definition pf_bool :: "pfilter_op \<Rightarrow> bool \<Rightarrow> bool \<Rightarrow> bool" where
  "pf_bool op a b =
    (case op of
       PF_AND \<Rightarrow> a \<and> b | PF_OR \<Rightarrow> a \<or> b | PF_XOR \<Rightarrow> a \<noteq> b | PF_MOV \<Rightarrow> a
     | PF_NAND \<Rightarrow> \<not> (a \<and> b) | PF_NOR \<Rightarrow> \<not> (a \<or> b) | PF_XNOR \<Rightarrow> a = b | PF_NOT \<Rightarrow> \<not> a)"

definition op_of :: "u64 \<Rightarrow> pfilter_op" where
  "op_of w = [PF_AND, PF_OR, PF_XOR, PF_MOV, PF_NAND, PF_NOR, PF_XNOR, PF_NOT] ! unat (w AND 7)"

definition field :: "nat \<Rightarrow> u64 \<Rightarrow> u64 \<Rightarrow> nat" where
  "field k msk w = unat (drop_bit k w AND msk)"

datatype pf_instr =
    I_CMP nat nat "bool list" pfilter_op nat
  | I_LOGIC nat nat pfilter_op nat pfilter_op nat
  | I_FIN
  | I_OTHER

definition decode :: "u64 \<Rightarrow> pf_instr" where
  "decode w =
    (if bit w 35 then I_FIN
     else if bit w 34 then
       I_LOGIC (field 3 0x1f w) (field 8 0x1f w) (op_of w) (field 13 0x1f w) (op_of (drop_bit 23 w)) (field 18 0x1f w)
     else if bit w 33 then I_OTHER
     else I_CMP (field 7 0x3f w) (field 13 0xffff w) [bit w 29, bit w 30, bit w 31, bit w 32]
       (op_of w) (field 3 0xf w))"

text \<open>The bits of the mask, four for each of the nibbles.\<close>

definition nibble_mask :: "bool list \<Rightarrow> u16" where
  "nibble_mask ns = fold (\<lambda>(k, b) m. if b then m OR push_bit (4 * k) 0xf else m) (enumerate 0 ns) 0"

text \<open>A packet is its 16-bit words; register 0 is always 0. \<open>None\<close> ends the program.\<close>

fun pf_step :: "(nat \<Rightarrow> u16) \<Rightarrow> pf_instr \<Rightarrow> (nat \<Rightarrow> bool) \<Rightarrow> (nat \<Rightarrow> bool) option" where
  "pf_step pkt (I_CMP off v ns op rd) r =
    Some (r(rd := pf_bool op (pkt off AND nibble_mask ns = word_of_nat v) (r rd)))"
| "pf_step pkt (I_LOGIC rd ra op rb op2 rc) r =
    Some (if rd = 0 then r else r(rd := pf_bool op2 (pf_bool op (r ra) (r rb)) (r rc)))"
| "pf_step pkt I_FIN r = None"
| "pf_step pkt I_OTHER r = None"

fun pf_run :: "nat \<Rightarrow> (nat \<Rightarrow> u64) \<Rightarrow> (nat \<Rightarrow> u16) \<Rightarrow> nat \<Rightarrow> (nat \<Rightarrow> bool) \<Rightarrow> (nat \<Rightarrow> bool)" where
  "pf_run 0 mem pkt pc r = r"
| "pf_run (Suc n) mem pkt pc r =
    (case pf_step pkt (decode (mem pc)) r of None \<Rightarrow> r | Some r \<Rightarrow> pf_run n mem pkt (pc + 1) r)"

text \<open>What the filter says of a packet after the writes: the registers at the end of its 64 steps.\<close>

definition pf_verdict :: "(pf_reg \<times> u32) list \<Rightarrow> (nat \<Rightarrow> u16) \<Rightarrow> nat \<Rightarrow> bool" where
  "pf_verdict ws pkt =
    (let (lsb, mem, on) = fold pf_write ws (0, \<lambda>_. 0, False)
     in pf_run 64 mem pkt 0 (\<lambda>_. False))"

end
