(* ===== verification/Ep_pfilter_Props.thy ===== *)
theory Ep_pfilter_Props
  imports Ep_pfilter
begin

text \<open>
  What the default program of the packet filter decides: loading puts the assembled words into the
  program memory, decoding them gives the instructions the source names, and running
  these gives, in each configuration of the build, the classes and the drop flag of
  \<open>pf_spec\<close>.
\<close>

section \<open>Loading\<close>

lemma masks:
  "(0x3f :: u32) = mask 6" "(0xfff :: u32) = mask 12" "(0xfff :: u64) = mask 12"
  "(0xffffff :: u64) = mask 24" "(0xffff :: u64) = mask 16"
  by (simp_all add: mask_eq_exp_minus_1)

lemma bit_64: "bit (64 :: u32) n \<longleftrightarrow> n = 6" "bit (64 :: int) n \<longleftrightarrow> n = 6" "bit (64 :: nat) n \<longleftrightarrow> n = 6"
proof -
  have "(64 :: u32) = 2 ^ 6" "(64 :: int) = 2 ^ 6" "(64 :: nat) = 2 ^ 6" by simp_all
  then show "bit (64 :: u32) n \<longleftrightarrow> n = 6" "bit (64 :: int) n \<longleftrightarrow> n = 6" "bit (64 :: nat) n \<longleftrightarrow> n = 6"
    by (simp_all only: bit_exp_iff) auto
qed

lemma load_word_writes:
  assumes "i < 64"
  shows "fold pf_write (load_word i w) (lsb, mem, on) =
    (ucast (w AND 0xfff) AND 0xfff, mem(i := take_bit 36 w), False)"
proof -
  define cr1 where "cr1 = (ucast (w AND 0xfff) AND 0xfff :: u32)"
  define cr0 where "cr0 = ((word_of_nat i AND 0x3f) OR push_bit 8 (ucast (drop_bit 12 w AND 0xffffff)) OR 0x40 :: u32)"
  have "cr0 AND 0x3f = word_of_nat i AND mask 6"
    unfolding cr0_def masks by (rule bit_word_eqI) (auto simp: bit_simps bit_64)
  then have a: "unat (cr0 AND 0x3f) = i"
    using assms by (simp add: unat_and_mask unat_of_nat)
  have d: "push_bit 12 (ucast (drop_bit 8 cr0)) OR ucast (cr1 AND 0xfff) = take_bit 36 w"
    unfolding cr0_def cr1_def masks by (rule bit_word_eqI) (auto simp: bit_simps bit_64)
  have "bit cr0 6" "\<not> bit cr0 7" unfolding cr0_def masks by (simp_all add: bit_simps bit_64)
  then have f: "cr0 AND 0x40 \<noteq> 0" "cr0 AND 0x80 = 0"
    using bit_iff_and_push_bit_not_eq_0 [of cr0 6] bit_iff_and_push_bit_not_eq_0 [of cr0 7] by simp_all
  show ?thesis
    using a d f unfolding load_word_def Let_def cr0_def [symmetric] cr1_def [symmetric]
    by simp
qed

lemma load_words:
  "k + length ws \<le> 64 \<Longrightarrow> \<exists>lsb' on'.
    fold pf_write (concat (map (\<lambda>(i, w). load_word i w) (enumerate k ws))) (lsb, mem, on) =
      (lsb', \<lambda>i. if k \<le> i \<and> i < k + length ws then take_bit 36 (ws ! (i - k)) else mem i, on')"
proof (induction ws arbitrary: k lsb mem on)
  case (Cons w ws)
  let ?mem = "mem(k := take_bit 36 w)"
  obtain lsb' on' where IH: "fold pf_write (concat (map (\<lambda>(i, w). load_word i w) (enumerate (Suc k) ws)))
      (ucast (w AND 0xfff) AND 0xfff, ?mem, False) =
      (lsb', \<lambda>i. if Suc k \<le> i \<and> i < Suc k + length ws then take_bit 36 (ws ! (i - Suc k)) else ?mem i, on')"
    using Cons.IH [of "Suc k"] Cons.prems by fastforce
  have "k < 64" using Cons.prems by simp
  have m: "(\<lambda>i. if Suc k \<le> i \<and> i < Suc k + length ws then take_bit 36 (ws ! (i - Suc k)) else ?mem i) =
      (\<lambda>i. if k \<le> i \<and> i < k + length (w # ws) then take_bit 36 ((w # ws) ! (i - k)) else mem i)"
    by (rule ext) (auto simp: nth_Cons')
  show ?case
    using IH load_word_writes [OF \<open>k < 64\<close>, of w lsb mem on]
    unfolding m by (simp add: enumerate_simps)
qed (auto intro!: ext)

lemma pfilter_load_memory:
  assumes "length code < 32"
  shows "\<exists>ws lsb mem on. pfilter_load code = Some ws \<and> fold pf_write ws (0, \<lambda>_. 0, False) = (lsb, mem, on) \<and>
    (\<forall>i<length code. mem i = take_bit 36 (code ! i)) \<and> mem (length code) = push_bit 35 1"
proof -
  let ?c = "code @ [push_bit 35 1]"
  have e: "pf_emit (push_bit 35 1) code = Some ?c" using assms by (simp add: pf_emit_def)
  obtain lsb on where l: "fold pf_write (concat (map (\<lambda>(i, w). load_word i w) (enumerate 0 ?c))) (0, \<lambda>_. 0, False) =
      (lsb, \<lambda>i. if 0 \<le> i \<and> i < 0 + length ?c then take_bit 36 (?c ! (i - 0)) else 0, on)"
    using load_words [of 0 ?c 0 "\<lambda>_. 0" False] assms by auto
  let ?M = "\<lambda>i. if 0 \<le> i \<and> i < 0 + length ?c then take_bit 36 (?c ! (i - 0)) else 0"
  have w: "pf_write (PFCR0, 0) (0, \<lambda>_. 0, False) = (0, \<lambda>_. 0, False)"
    "pf_write (PFCR0, 0x80) (lsb, m, on) = (lsb, m, True)" for m
    by simp_all
  have "fold pf_write ((PFCR0, 0) # concat (map (\<lambda>(i, w). load_word i w) (enumerate 0 ?c)) @ [(PFCR0, 0x80)])
      (0, \<lambda>_. 0, False) = (lsb, ?M, True)"
    unfolding fold_append fold_simps comp_def w(1) l w(2) ..
  moreover have "\<forall>i<length code. ?M i = take_bit 36 (code ! i)" by (simp add: nth_append)
  moreover have "?M (length code) = push_bit 35 1" by simp
  ultimately show ?thesis unfolding pfilter_load_def e bind.bind_lunit by blast
qed

section \<open>Decoding\<close>

lemma decode_take: "decode (take_bit 36 w) = decode w"
proof -
  have "drop_bit k (take_bit 36 w) AND m = drop_bit k w AND m" if "m = mask n" "k + n \<le> 36" for k n and m :: u64
    unfolding that(1) by (rule bit_word_eqI) (use that in \<open>auto simp: bit_simps\<close>)
  note f = this
  have "op_of (drop_bit k (take_bit 36 w)) = op_of (drop_bit k w)" if "k \<le> 33" for k
    using f [of 7 3 k] that by (simp add: op_of_def mask_eq_exp_minus_1)
  moreover from this [of 0] have "op_of (take_bit 36 w) = op_of w" by simp
  moreover have "field k m (take_bit 36 w) = field k m w" if "m = mask n" "k + n \<le> 36" for k n m
    using f [OF that] by (simp add: field_def)
  note this [OF mask_eq_exp_minus_1 [symmetric, of 5], simplified] this [OF mask_eq_exp_minus_1 [symmetric, of 6], simplified]
    this [OF mask_eq_exp_minus_1 [symmetric, of 16], simplified] this [OF mask_eq_exp_minus_1 [symmetric, of 4], simplified]
  moreover have "bit (take_bit 36 w) k = bit w k" if "k < 36" for k
    using that by (simp add: bit_simps)
  ultimately show ?thesis
    unfolding decode_def by simp
qed

text \<open>A comparison with a value that is not known: the rest of the word is.\<close>

lemma decode_value:
  assumes c: "decode c = I_CMP off 0 ns op rd" and d: "drop_bit 13 c AND 0xffff = 0"
  shows "decode (c OR push_bit 13 (v AND 0xffff)) = I_CMP off (unat (v AND 0xffff)) ns op rd"
proof -
  let ?p = "push_bit 13 (v AND 0xffff)"
  have low: "drop_bit k (c OR ?p) AND mask n = drop_bit k c AND mask n" if "k + n \<le> 13" for k n
    unfolding masks by (rule bit_word_eqI) (use that in \<open>auto simp: bit_simps\<close>)
  have high: "bit (c OR ?p) k = bit c k" if "29 \<le> k" for k
    unfolding masks using that by (auto simp: bit_simps)
  have "drop_bit 13 (c OR ?p) AND 0xffff = (drop_bit 13 c AND 0xffff) OR (v AND 0xffff)"
    unfolding masks by (rule bit_word_eqI) (auto simp: bit_simps)
  then have val: "field 13 0xffff (c OR ?p) = unat (v AND 0xffff)" unfolding field_def d by simp
  have op: "op_of (c OR ?p) = op_of c"
    using low [of 0 3] by (simp add: op_of_def mask_eq_exp_minus_1)
  have off: "field 7 0x3f (c OR ?p) = field 7 0x3f c" "field 3 0xf (c OR ?p) = field 3 0xf c"
    using low [of 7 6] low [of 3 4] by (simp_all add: field_def mask_eq_exp_minus_1)
  define w where "w = c OR ?p"
  have "bit w 29 = bit c 29" "bit w 30 = bit c 30" "bit w 31 = bit c 31" "bit w 32 = bit c 32"
    "bit w 33 = bit c 33" "bit w 34 = bit c 34" "bit w 35 = bit c 35"
    unfolding w_def by (rule high, simp)+
  with c val op off show ?thesis
    unfolding w_def [symmetric] decode_def by (simp split: if_splits)
qed

section \<open>Running\<close>

fun pf_exec :: "(nat \<Rightarrow> u16) \<Rightarrow> pf_instr list \<Rightarrow> (nat \<Rightarrow> bool) \<Rightarrow> (nat \<Rightarrow> bool)" where
  "pf_exec pkt [] r = r"
| "pf_exec pkt (i # is) r =
    (case pf_step pkt i r of None \<Rightarrow> r | Some r \<Rightarrow> pf_exec pkt is r)"

lemma pf_run_exec:
  "length is < n \<Longrightarrow> (\<forall>k<length is. decode (mem (pc + k)) = is ! k) \<Longrightarrow> decode (mem (pc + length is)) = I_FIN \<Longrightarrow>
    pf_run n mem pkt pc r = pf_exec pkt is r"
proof (induction "is" arbitrary: n pc r)
  case Nil
  then show ?case by (cases n) auto
next
  case (Cons i "is")
  then obtain m where n: "n = Suc m" "length is < m" by (cases n) auto
  have "decode (mem pc) = i" using Cons.prems(2) by force
  moreover have "\<forall>k<length is. decode (mem (pc + 1 + k)) = is ! k"
    using Cons.prems(2) by (auto dest: spec [of _ "Suc _"])
  ultimately show ?case
    using Cons.IH [of m "pc + 1"] n Cons.prems(3) by (auto split: option.split)
qed

lemma decode_FIN: "decode (push_bit 35 1) = I_FIN"
  by (simp add: decode_def bit_simps del: push_bit_numeral)

lemma verdict_of_code:
  assumes "length code < 32" "map decode code = is"
  shows "\<exists>ws. pfilter_load code = Some ws \<and> (\<forall>pkt. pf_verdict ws pkt = pf_exec pkt is (\<lambda>_. False))"
proof -
  obtain ws lsb mem on where l: "pfilter_load code = Some ws"
      "fold pf_write ws (0, \<lambda>_. 0, False) = (lsb, mem, on)"
      "\<forall>i<length code. mem i = take_bit 36 (code ! i)" "mem (length code) = push_bit 35 1"
    using pfilter_load_memory [OF assms(1)] by blast
  have len: "length is = length code" using assms(2) by auto
  have "\<forall>k<length is. decode (mem (0 + k)) = is ! k"
    using l(3) assms(2) by (auto simp: decode_take)
  moreover have "decode (mem (0 + length is)) = I_FIN" unfolding len add_0 l(4) by (rule decode_FIN)
  moreover have "length is < 64" using assms(1) len by simp
  ultimately have "pf_run 64 mem pkt 0 r = pf_exec pkt is r" for pkt r
    by (intro pf_run_exec)
  then have "pf_verdict ws pkt = pf_exec pkt is (\<lambda>_. False)" for pkt
    unfolding pf_verdict_def l(2) by simp
  then show ?thesis using l(1) by blast
qed

text \<open>The instructions that the source names.\<close>

definition cmp_i :: "nat \<Rightarrow> nat \<Rightarrow> pfilter_op \<Rightarrow> nat \<Rightarrow> pf_instr" where
  "cmp_i off v op rd = I_CMP off v [True, True, True, True] op rd"

definition common_is :: "nat \<Rightarrow> nat \<Rightarrow> nat \<Rightarrow> pf_instr list" where
  "common_is m0 m1 m2 =
    [I_LOGIC 0 0 PF_AND 0 PF_AND 0,
     cmp_i 0 0xffff PF_MOV 1, cmp_i 1 0xffff PF_AND 1, cmp_i 2 0xffff PF_AND 1,
     cmp_i 0 0x011b PF_MOV 2, cmp_i 1 0x1900 PF_AND 2, cmp_i 2 0 PF_AND 2,
     cmp_i 0 m0 PF_MOV 3, cmp_i 1 m1 PF_AND 3, cmp_i 2 m2 PF_AND 3,
     cmp_i 6 0x0800 PF_MOV 4, cmp_i 6 0x88f7 PF_MOV 5, cmp_i 6 0x0806 PF_MOV 6, cmp_i 6 0xdbff PF_MOV 9,
     I_CMP 11 1 [True, True, False, False] PF_MOV 7, I_CMP 11 0x11 [True, True, False, False] PF_MOV 8]"

lemma decode_cmp_value:
  assumes "decode (cmp_word off 0 0xffff op rd) = cmp_i o' 0 op rd'" "drop_bit 13 (cmp_word off 0 0xffff op rd) AND 0xffff = 0"
  shows "decode (cmp_word off v 0xffff op rd) = cmp_i o' (unat (v AND 0xffff)) op rd'"
proof -
  have "cmp_word off v 0xffff op rd = cmp_word off 0 0xffff op rd OR push_bit 13 (v AND 0xffff)"
    by (simp add: cmp_word_def)
  then show ?thesis using decode_value [of _ o' _ op rd' v] assms by (simp add: cmp_i_def)
qed

lemma decode_cmps:
  "decode (cmp_word 0 v 0xffff PF_MOV 1) = cmp_i 0 (unat (v AND 0xffff)) PF_MOV 1"
  "decode (cmp_word 1 v 0xffff PF_AND 1) = cmp_i 1 (unat (v AND 0xffff)) PF_AND 1"
  "decode (cmp_word 2 v 0xffff PF_AND 1) = cmp_i 2 (unat (v AND 0xffff)) PF_AND 1"
  "decode (cmp_word 0 v 0xffff PF_MOV 2) = cmp_i 0 (unat (v AND 0xffff)) PF_MOV 2"
  "decode (cmp_word 1 v 0xffff PF_AND 2) = cmp_i 1 (unat (v AND 0xffff)) PF_AND 2"
  "decode (cmp_word 2 v 0xffff PF_AND 2) = cmp_i 2 (unat (v AND 0xffff)) PF_AND 2"
  "decode (cmp_word 0 v 0xffff PF_MOV 3) = cmp_i 0 (unat (v AND 0xffff)) PF_MOV 3"
  "decode (cmp_word 1 v 0xffff PF_AND 3) = cmp_i 1 (unat (v AND 0xffff)) PF_AND 3"
  "decode (cmp_word 2 v 0xffff PF_AND 3) = cmp_i 2 (unat (v AND 0xffff)) PF_AND 3"
  "decode (cmp_word 6 v 0xffff PF_MOV 4) = cmp_i 6 (unat (v AND 0xffff)) PF_MOV 4"
  "decode (cmp_word 6 v 0xffff PF_MOV 5) = cmp_i 6 (unat (v AND 0xffff)) PF_MOV 5"
  "decode (cmp_word 6 v 0xffff PF_MOV 6) = cmp_i 6 (unat (v AND 0xffff)) PF_MOV 6"
  "decode (cmp_word 6 v 0xffff PF_MOV 9) = cmp_i 6 (unat (v AND 0xffff)) PF_MOV 9"
  "decode (cmp_word 18 v 0xffff PF_MOV 14) = cmp_i 18 (unat (v AND 0xffff)) PF_MOV 14"
  "decode (cmp_word 18 v 0xffff PF_MOV 6) = cmp_i 18 (unat (v AND 0xffff)) PF_MOV 6"
  by (rule decode_cmp_value; code_simp)+

lemma decode_protocols:
  "decode 0x400000000 = I_LOGIC 0 0 PF_AND 0 PF_AND 0"
  "decode (cmp_word 11 1 0x00ff PF_MOV 7) = I_CMP 11 1 [True, True, False, False] PF_MOV 7"
  "decode (cmp_word 11 0x11 0x00ff PF_MOV 8) = I_CMP 11 0x11 [True, True, False, False] PF_MOV 8"
  by code_simp+

lemma pf_common_code:
  "\<exists>code. pf_common mach macl = Some code \<and> length code = 16 \<and>
    map decode code = common_is (unat (ucast (mach AND 0xffff) AND 0xffff :: u64))
      (unat (ucast (drop_bit 16 macl) AND 0xffff :: u64)) (unat (ucast (macl AND 0xffff) AND 0xffff :: u64))"
proof -
  let ?code = "[push_bit 34 1, cmp_word 0 0xffff 0xffff PF_MOV 1, cmp_word 1 0xffff 0xffff PF_AND 1,
    cmp_word 2 0xffff 0xffff PF_AND 1, cmp_word 0 0x011b 0xffff PF_MOV 2, cmp_word 1 0x1900 0xffff PF_AND 2,
    cmp_word 2 0 0xffff PF_AND 2, cmp_word 0 (ucast (mach AND 0xffff)) 0xffff PF_MOV 3,
    cmp_word 1 (ucast (drop_bit 16 macl)) 0xffff PF_AND 3, cmp_word 2 (ucast (macl AND 0xffff)) 0xffff PF_AND 3,
    cmp_word 6 0x0800 0xffff PF_MOV 4, cmp_word 6 0x88f7 0xffff PF_MOV 5, cmp_word 6 0x0806 0xffff PF_MOV 6,
    cmp_word 6 0xdbff 0xffff PF_MOV 9, cmp_word 11 1 0x00ff PF_MOV 7, cmp_word 11 0x11 0x00ff PF_MOV 8]"
  have "pf_common mach macl = Some ?code"
    unfolding pf_common_def pfilter_nop_def pfilter_new_def pfilter_cmp_def by (simp add: pf_emit_def)
  moreover have "map decode ?code = common_is (unat (ucast (mach AND 0xffff) AND 0xffff :: u64))
      (unat (ucast (drop_bit 16 macl) AND 0xffff :: u64)) (unat (ucast (macl AND 0xffff) AND 0xffff :: u64))"
    unfolding list.map common_is_def decode_cmps decode_protocols(2-)
    by (simp add: decode_protocols(1))
  ultimately show ?thesis by (intro exI [of _ ?code]) simp
qed

definition plain_is :: "pf_instr list" where
  "plain_is = [I_LOGIC 10 3 PF_OR 2 PF_AND 5, I_LOGIC 11 1 PF_AND 9 PF_MOV 0, I_LOGIC 12 10 PF_OR 11 PF_NOT 0,
     I_LOGIC 31 12 PF_MOV 0 PF_MOV 0, I_LOGIC 30 11 PF_MOV 0 PF_MOV 0, I_LOGIC 24 10 PF_MOV 0 PF_MOV 0]"

definition etherbone_is :: "bool \<Rightarrow> pf_instr list" where
  "etherbone_is nic =
    [I_LOGIC 10 3 PF_OR 0 PF_AND 4, I_LOGIC 11 1 PF_OR 3 PF_AND 4, I_LOGIC 14 1 PF_AND 6 PF_OR 5,
     I_LOGIC 15 10 PF_AND 7 PF_OR 14, cmp_i 18 0x44 PF_MOV 14, I_LOGIC 14 14 PF_AND 8 PF_AND 11,
     I_LOGIC 15 14 PF_OR 15 PF_MOV 0] @
    (if nic then [cmp_i 18 0xebd0 PF_MOV 6, I_LOGIC 24 15 PF_MOV 0 PF_MOV 0, I_LOGIC 29 6 PF_OR 0 PF_MOV 0,
       I_LOGIC 31 15 PF_OR 6 PF_NOT 0]
     else [I_LOGIC 20 11 PF_AND 8 PF_OR 15, I_LOGIC 23 20 PF_OR 9 PF_NOT 0, I_LOGIC 31 11 PF_AND 8 PF_MOV 0,
       I_LOGIC 30 1 PF_AND 9 PF_MOV 0, I_LOGIC 24 15 PF_MOV 0 PF_MOV 0])"

lemma pf_plain_code:
  assumes "length code = 16"
  shows "\<exists>code'. pf_plain code = Some (code @ code') \<and> length code' = 6 \<and> map decode code' = plain_is"
proof -
  let ?code = "[logic3_word 10 3 PF_OR 2 PF_AND 5, logic2_word 11 1 PF_AND 9, logic3_word 12 10 PF_OR 11 PF_NOT 0,
    logic2_word (R_CLASS 7) 12 PF_MOV 0, logic2_word (R_CLASS 6) 11 PF_MOV 0, logic2_word (R_CLASS 0) 10 PF_MOV 0]"
  have "pf_plain code = Some (code @ ?code)"
    unfolding pf_plain_def pfilter_logic2_def pfilter_logic3_def using assms by (simp add: pf_emit_def)
  moreover have "map decode ?code = plain_is" by code_simp
  ultimately show ?thesis by (intro exI [of _ ?code]) simp
qed

lemma decode_etherbone:
  "decode (logic3_word 10 3 PF_OR 0 PF_AND 4) = I_LOGIC 10 3 PF_OR 0 PF_AND 4"
  "decode (logic3_word 11 1 PF_OR 3 PF_AND 4) = I_LOGIC 11 1 PF_OR 3 PF_AND 4"
  "decode (logic3_word 14 1 PF_AND 6 PF_OR 5) = I_LOGIC 14 1 PF_AND 6 PF_OR 5"
  "decode (logic3_word 15 10 PF_AND 7 PF_OR 14) = I_LOGIC 15 10 PF_AND 7 PF_OR 14"
  "decode (logic3_word 14 14 PF_AND 8 PF_AND 11) = I_LOGIC 14 14 PF_AND 8 PF_AND 11"
  "decode (logic2_word 15 14 PF_OR 15) = I_LOGIC 15 14 PF_OR 15 PF_MOV 0"
  "decode (logic2_word 24 15 PF_MOV 0) = I_LOGIC 24 15 PF_MOV 0 PF_MOV 0"
  "decode (logic2_word 29 6 PF_OR 0) = I_LOGIC 29 6 PF_OR 0 PF_MOV 0"
  "decode (logic3_word 31 15 PF_OR 6 PF_NOT 0) = I_LOGIC 31 15 PF_OR 6 PF_NOT 0"
  "decode (logic3_word 20 11 PF_AND 8 PF_OR 15) = I_LOGIC 20 11 PF_AND 8 PF_OR 15"
  "decode (logic3_word 23 20 PF_OR 9 PF_NOT 0) = I_LOGIC 23 20 PF_OR 9 PF_NOT 0"
  "decode (logic2_word 31 11 PF_AND 8) = I_LOGIC 31 11 PF_AND 8 PF_MOV 0"
  "decode (logic2_word 30 1 PF_AND 9) = I_LOGIC 30 1 PF_AND 9 PF_MOV 0"
  by code_simp+

lemma pf_etherbone_code:
  assumes "length code = 16"
  shows "\<exists>code'. pf_etherbone nic code = Some (code @ code') \<and> length code' \<le> 12 \<and> map decode code' = etherbone_is nic"
proof -
  let ?code = "[logic3_word 10 3 PF_OR 0 PF_AND 4, logic3_word 11 1 PF_OR 3 PF_AND 4, logic3_word 14 1 PF_AND 6 PF_OR 5,
    logic3_word 15 10 PF_AND 7 PF_OR 14, cmp_word 18 0x44 0xffff PF_MOV 14, logic3_word 14 14 PF_AND 8 PF_AND 11,
    logic2_word 15 14 PF_OR 15] @
    (if nic then [cmp_word 18 0xebd0 0xffff PF_MOV 6, logic2_word (R_CLASS 0) 15 PF_MOV 0,
       logic2_word (R_CLASS 5) 6 PF_OR 0, logic3_word (R_CLASS 7) 15 PF_OR 6 PF_NOT 0]
     else [logic3_word 20 11 PF_AND 8 PF_OR 15, logic3_word R_DROP 20 PF_OR 9 PF_NOT 0,
       logic2_word (R_CLASS 7) 11 PF_AND 8, logic2_word (R_CLASS 6) 1 PF_AND 9, logic2_word (R_CLASS 0) 15 PF_MOV 0])"
  have "pf_etherbone nic code = Some (code @ ?code)"
    unfolding pf_etherbone_def pfilter_logic2_def pfilter_logic3_def pfilter_cmp_def using assms
    by (simp add: pf_emit_def)
  moreover have "map decode ?code = etherbone_is nic"
    unfolding etherbone_is_def R_CLASS_def
    by (cases nic) (simp_all add: decode_cmps decode_etherbone)
  ultimately show ?thesis by (intro exI [of _ ?code]) simp
qed

section \<open>The decision\<close>

definition is_bcast :: "(nat \<Rightarrow> u16) \<Rightarrow> bool" where
  "is_bcast pkt \<longleftrightarrow> pkt 0 = 0xffff \<and> pkt 1 = 0xffff \<and> pkt 2 = 0xffff"

definition is_ptp_mcast :: "(nat \<Rightarrow> u16) \<Rightarrow> bool" where
  "is_ptp_mcast pkt \<longleftrightarrow> pkt 0 = 0x011b \<and> pkt 1 = 0x1900 \<and> pkt 2 = 0"

definition is_mine :: "u32 \<Rightarrow> u32 \<Rightarrow> (nat \<Rightarrow> u16) \<Rightarrow> bool" where
  "is_mine mach macl pkt \<longleftrightarrow> pkt 0 = ucast mach \<and> pkt 1 = ucast (drop_bit 16 macl) \<and> pkt 2 = ucast macl"

lemma mac_masks: "(0xffff :: u32) = mask 16" "(0xffff :: u64) = mask 16"
  by (simp_all add: mask_eq_exp_minus_1)

lemma common_regs:
  fixes pkt mach macl
  defines "m0 \<equiv> unat (ucast (mach AND 0xffff) AND 0xffff :: u64)"
    and "m1 \<equiv> unat (ucast (drop_bit 16 macl) AND 0xffff :: u64)"
    and "m2 \<equiv> unat (ucast (macl AND 0xffff) AND 0xffff :: u64)"
  shows "pf_exec pkt (common_is m0 m1 m2 @ rest) (\<lambda>_. False) = pf_exec pkt rest
    ((\<lambda>_. False)(1 := is_bcast pkt, 2 := is_ptp_mcast pkt, 3 := is_mine mach macl pkt,
      4 := pkt 6 = 0x0800, 5 := pkt 6 = 0x88f7, 6 := pkt 6 = 0x0806, 9 := pkt 6 = 0xdbff,
      7 := pkt 11 AND 0xff = 1, 8 := pkt 11 AND 0xff = 0x11))"
proof -
  have full: "nibble_mask [True, True, True, True] = - 1" "nibble_mask [True, True, False, False] = 0xff"
    by code_simp+
  have m: "(word_of_nat m0 :: u16) = ucast mach" "(word_of_nat m1 :: u16) = ucast (drop_bit 16 macl)"
    "(word_of_nat m2 :: u16) = ucast macl"
    unfolding m0_def m1_def m2_def of_nat_unat masks mac_masks
    by (rule bit_word_eqI; auto simp: bit_simps)+
  show ?thesis
    unfolding common_is_def cmp_i_def append.simps pf_exec.simps pf_step.simps option.case full m pf_bool_def
      pfilter_op.case
    by (simp add: is_bcast_def is_ptp_mcast_def is_mine_def conj_ac fun_upd_twist)
qed

text \<open>The drop flag and the classes 0 to 7 that a packet should get, in this order.\<close>

definition pf_wanted :: "pf_config \<Rightarrow> u32 \<Rightarrow> u32 \<Rightarrow> (nat \<Rightarrow> u16) \<Rightarrow> bool list" where
  "pf_wanted cfg mach macl pkt =
    (let bcast = is_bcast pkt; mine = is_mine mach macl pkt; ethertype = pkt 6; proto = pkt 11 AND 0xff;
         ip = (ethertype = 0x0800); udp = (proto = 0x11); streamer = (ethertype = 0xdbff);
         udp_in = ((bcast \<or> mine) \<and> ip \<and> udp);
         core = (pkt 18 = 0x44 \<and> udp_in \<or> mine \<and> ip \<and> proto = 1 \<or>
           bcast \<and> ethertype = 0x0806 \<or> ethertype = 0x88f7);
         eb = (pkt 18 = 0xebd0);
         ptp = ((mine \<or> is_ptp_mcast pkt) \<and> ethertype = 0x88f7)
     in if \<not> etherbone cfg then
          [False, ptp, False, False, False, False, False, bcast \<and> streamer, \<not> ptp \<and> \<not> (bcast \<and> streamer)]
        else if nic_pfilter cfg then
          [False, core, False, False, False, False, eb, False, \<not> core \<and> \<not> eb]
        else [\<not> udp_in \<and> \<not> core \<and> \<not> streamer, core, False, False, False, False, False, bcast \<and> streamer, udp_in])"

lemma pf_list: "map f [23..<32] = [f 23, f 24, f 25, f 26, f 27, f 28, f 29, f 30, f (31 :: nat)]"
  by simp

text \<open>
  In every configuration of the build, the program that the driver assembles and loads for the
  node's MAC address makes the filter give every packet exactly the classes, and the drop
  flag, of the specification: PTP, or ARP, ICMP, BOOTP and PTP, to the processor, streamer
  broadcasts to class 6, UDP or all other traffic to class 7.
\<close>

theorem pfilter_default_classifies:
  "\<exists>ws. pfilter_init_default cfg mach macl = Some ws \<and>
    (\<forall>pkt. map (pf_verdict ws pkt) [23..<32] = pf_wanted cfg mach macl pkt)"
proof -
  have full: "nibble_mask [True, True, True, True] = - 1"
    by code_simp
  obtain code where c: "pf_common mach macl = Some code" "length code = 16"
    "map decode code = common_is (unat (ucast (mach AND 0xffff) AND 0xffff :: u64))
      (unat (ucast (drop_bit 16 macl) AND 0xffff :: u64)) (unat (ucast (macl AND 0xffff) AND 0xffff :: u64))"
    using pf_common_code by blast
  show ?thesis
  proof (cases "etherbone cfg")
    case False
    obtain code' where c': "pf_plain code = Some (code @ code')" "length code' = 6" "map decode code' = plain_is"
      using pf_plain_code [OF c(2)] by blast
    obtain ws where ws: "pfilter_load (code @ code') = Some ws"
      "\<And>pkt. pf_verdict ws pkt = pf_exec pkt (map decode (code @ code')) (\<lambda>_. False)"
      using verdict_of_code [of "code @ code'", OF _ refl] c(2) c'(2) by auto
    have "map (pf_verdict ws pkt) [23..<32] = pf_wanted cfg mach macl pkt" for pkt
      unfolding ws(2) map_append c(3) c'(3) common_regs plain_is_def pf_exec.simps pf_step.simps option.case
        pf_bool_def pfilter_op.case pf_list
      using False by (simp add: pf_wanted_def Let_def)
    then show ?thesis using False ws(1) c(1) c'(1) by (simp add: pfilter_init_default_def)
  next
    case True
    obtain code' where c': "pf_etherbone (nic_pfilter cfg) code = Some (code @ code')" "length code' \<le> 12"
      "map decode code' = etherbone_is (nic_pfilter cfg)"
      using pf_etherbone_code [OF c(2)] by blast
    obtain ws where ws: "pfilter_load (code @ code') = Some ws"
      "\<And>pkt. pf_verdict ws pkt = pf_exec pkt (map decode (code @ code')) (\<lambda>_. False)"
      using verdict_of_code [of "code @ code'", OF _ refl] c(2) c'(2) by auto
    have "map (pf_verdict ws pkt) [23..<32] = pf_wanted cfg mach macl pkt" for pkt
      unfolding ws(2) map_append c(3) c'(3) common_regs
      using True by (cases "nic_pfilter cfg")
        (auto simp: etherbone_is_def pf_list pf_bool_def cmp_i_def full pf_wanted_def Let_def)
    then show ?thesis using True ws(1) c(1) c'(1) by (simp add: pfilter_init_default_def)
  qed
qed

text \<open>
  The filter has no interlock: an instruction may only look at words of the packet that have
  arrived, so its offset must not be larger than its address.
\<close>

fun offset_ok :: "nat \<Rightarrow> pf_instr \<Rightarrow> bool" where
  "offset_ok pc (I_CMP off v ns op rd) \<longleftrightarrow> off \<le> pc"
| "offset_ok pc _ \<longleftrightarrow> True"

lemma default_offsets_ok:
  "list_all (\<lambda>(pc, i). offset_ok pc i) (enumerate 0 (common_is a b c @ plain_is))"
  "list_all (\<lambda>(pc, i). offset_ok pc i) (enumerate 0 (common_is a b c @ etherbone_is nic))"
  by (cases nic; simp add: common_is_def cmp_i_def plain_is_def etherbone_is_def enumerate_simps)+

end
