(* ===== verification/Rxts.thy ===== *)
theory Rxts
  imports Softpll Eeprom Net
begin

text \<open>
  The calibrator of the receive timestamper, \<open>dev/rxts_calibrator.c\<close>: it scans the phase shift
  range of the PLL, takes a fake timestamp at every step, and finds the phases at which the two
  counters of the timestamper swap. The SoftPLL runs in its interrupt between the calls: \<open>irq n\<close>
  is what its interrupts do to its state before the \<open>n\<close>-th call. \<open>ep_timestamper_cal_pulse\<close> reads the
  flip bit of the timestamper, hardware that sees the shifted clock: \<open>pulse\<close> is the bit as a
  function of the state of the SoftPLL at that moment.
  The trace messages are left out.
\<close>

section \<open>The detectors\<close>

abbreviation (input) CAL_SCAN_STEP :: int where "CAL_SCAN_STEP \<equiv> 100"
abbreviation (input) CAL_DEGLITCH_THRESHOLD :: int where "CAL_DEGLITCH_THRESHOLD \<equiv> 5"

definition CAL_SCAN_RANGE :: "board_cfg \<Rightarrow> int" where
  "CAL_SCAN_RANGE b = b_ref_clock_period_ps b + 3 * CAL_DEGLITCH_THRESHOLD * CAL_SCAN_STEP"

datatype td_state = TD_WAIT_INACTIVE | TD_GOT_TRANSITION | TD_DONE

record trans_detect_state =
  td_prev_val :: int
  td_sample_count :: int
  td_state :: td_state
  td_trans_phase :: int

definition lookup_transition ::
  "trans_detect_state \<Rightarrow> int \<Rightarrow> int \<Rightarrow> int \<Rightarrow> int \<times> trans_detect_state" where
  "lookup_transition st flp phase polarity =
    (let polarity = (if polarity \<noteq> 0 then 1 else polarity)
     in case td_state st of
       TD_WAIT_INACTIVE \<Rightarrow>
         let st = (if flp \<noteq> polarity then st\<lparr>td_sample_count := add32 (td_sample_count st) 1\<rparr>
                   else st\<lparr>td_sample_count := 0\<rparr>)
         in (0, if CAL_DEGLITCH_THRESHOLD \<le> td_sample_count st
                then st\<lparr>td_state := TD_GOT_TRANSITION, td_sample_count := 0\<rparr> else st)
     | TD_GOT_TRANSITION \<Rightarrow>
         if flp \<noteq> polarity then (0, st\<lparr>td_sample_count := 0\<rparr>)
         else let st = st\<lparr>td_sample_count := add32 (td_sample_count st) 1\<rparr>
              in (0, if CAL_DEGLITCH_THRESHOLD \<le> td_sample_count st
                     then st\<lparr>td_state := TD_DONE,
                             td_trans_phase := sub32 phase (CAL_DEGLITCH_THRESHOLD * CAL_SCAN_STEP)\<rparr>
                     else st)
     | TD_DONE \<Rightarrow> (1, st))"

record rxts =
  det_rising :: trans_detect_state
  det_falling :: trans_detect_state
  cal_cur_phase :: int

definition rxts_calibration_start ::
  "board_cfg \<Rightarrow> (int \<Rightarrow> int) \<Rightarrow> rxts \<Rightarrow> softpll_state \<Rightarrow> spll_hw \<Rightarrow> (rxts \<times> softpll_state) option" where
  "rxts_calibration_start b fp c s h = do {
     let d = \<lparr>td_prev_val = - 1, td_sample_count = 0, td_state = TD_WAIT_INACTIVE, td_trans_phase = 0\<rparr>;
     let c = c\<lparr>cal_cur_phase := 0, det_rising := d, det_falling := d\<rparr>;
     s \<leftarrow> spll_set_phase_shift b fp 0 0 s h;
     Some (c, s)
   }"

text \<open>\<open>while (x >= period) x -= period\<close>; the period is positive.\<close>

function normalize_phase :: "int \<Rightarrow> int \<Rightarrow> int" where
  "normalize_phase period x =
    (if 0 < period \<and> period \<le> x then normalize_phase period (x - period) else x)"
  by auto
termination by (relation "measure (\<lambda>(period, x). nat x)") auto

declare normalize_phase.simps [simp del]

definition transition_phase :: "int \<Rightarrow> int \<Rightarrow> int \<Rightarrow> int" where
  "transition_phase period rising falling =
    (let ttrans = (if rising < falling then sub32 falling (period sdiv 2)
                   else if falling < rising then add32 falling (period sdiv 2) else 0);
         ttrans = add32 ttrans rising;
         ttrans = ttrans sdiv 2;
         ttrans = (if ttrans < 0 then add32 ttrans period else ttrans)
     in if period \<le> ttrans then sub32 ttrans period else ttrans)"

text \<open>The result, the value written to \<open>t24p_value\<close> if any, and the new states.\<close>

definition rxts_calibration_update ::
  "board_cfg \<Rightarrow> (int \<Rightarrow> int) \<Rightarrow> int \<Rightarrow> rxts \<Rightarrow> softpll_state \<Rightarrow> spll_hw \<Rightarrow>
    (int \<times> u32 option \<times> rxts \<times> softpll_state) option" where
  "rxts_calibration_update b fp pulse c s h = do {
     busy \<leftarrow> spll_shifter_busy 0 s;
     if busy then Some (0, None, c, s)
     else do {
       let c = c\<lparr>det_rising := snd (lookup_transition (det_rising c) pulse (cal_cur_phase c) 1)\<rparr>;
       let c = c\<lparr>det_falling := snd (lookup_transition (det_falling c) pulse (cal_cur_phase c) 0)\<rparr>;
       if CAL_SCAN_RANGE b \<le> cal_cur_phase c then
         if td_state (det_rising c) \<noteq> TD_DONE \<or> td_state (det_falling c) \<noteq> TD_DONE
         then Some (- 1, None, c, s)
         else do {
           let period = b_ref_clock_period_ps b;
           let f = normalize_phase period (td_trans_phase (det_falling c));
           let c = c\<lparr>det_falling := (det_falling c)\<lparr>td_trans_phase := f\<rparr>\<rparr>;
           let r = normalize_phase period (td_trans_phase (det_rising c));
           let c = c\<lparr>det_rising := (det_rising c)\<lparr>td_trans_phase := r\<rparr>\<rparr>;
           Some (1, Some (to_u32 (transition_phase period r f)), c, s)
         }
       else do {
         let c = c\<lparr>cal_cur_phase := add32 (cal_cur_phase c) CAL_SCAN_STEP\<rparr>;
         s \<leftarrow> spll_set_phase_shift b fp 0 (cal_cur_phase c) s h;
         Some (0, None, c, s)
       }
     }
   }"

section \<open>Calibration of the node\<close>

text \<open>
  \<open>while (!(rv = rxts_calibration_update (value)));\<close> it need not end, and is \<open>None\<close> if it does not. The
  state of the SoftPLL goes through the loop: the phase shift a call sets is what the interrupts
  before the next call work on.
\<close>

partial_function (option) rxts_loop ::
  "board_cfg \<Rightarrow> (int \<Rightarrow> int) \<Rightarrow> spll_hw \<Rightarrow> (nat \<Rightarrow> softpll_state \<Rightarrow> softpll_state) \<Rightarrow> (softpll_state \<Rightarrow> int) \<Rightarrow>
    nat \<Rightarrow> rxts \<Rightarrow> softpll_state \<Rightarrow> (int \<times> u32 option \<times> rxts \<times> softpll_state) option" where
  "rxts_loop b fp h irq pulse n c s = do {
     let s = irq n s;
     (rv, v, c, s) \<leftarrow> rxts_calibration_update b fp (pulse s) c s h;
     if rv \<noteq> 0 then Some (rv, v, c, s) else rxts_loop b fp h irq pulse (Suc n) c s
   }"

definition calib_t24p_master :: "'s gpio \<Rightarrow> u32 \<Rightarrow> ee \<Rightarrow> 's \<Rightarrow> (int \<times> u32 \<times> 's) option" where
  "calib_t24p_master io val e bus = eeprom_phtrans io WRPC_FMC_I2C FMC_EEPROM_ADR val False e bus"

definition calib_t24p_slave ::
  "board_cfg \<Rightarrow> (int \<Rightarrow> int) \<Rightarrow> spll_hw \<Rightarrow> (nat \<Rightarrow> softpll_state \<Rightarrow> softpll_state) \<Rightarrow> (softpll_state \<Rightarrow> int) \<Rightarrow>
    's gpio \<Rightarrow> u32 \<Rightarrow> u32 \<Rightarrow> rxts \<Rightarrow> softpll_state \<Rightarrow> ee \<Rightarrow> 's \<Rightarrow> (int \<times> u32 \<times> rxts \<times> softpll_state \<times> 's) option" where
  "calib_t24p_slave b fp h irq pulse io val prev0 c s e bus = do {
     (c, s) \<leftarrow> rxts_calibration_start b fp c s h;
     (rv, v, c, s) \<leftarrow> rxts_loop b fp h irq pulse 0 c s;
     let val = (case v of Some v \<Rightarrow> v | None \<Rightarrow> val);
     if rv < 0 then do {
       (rv, val, bus) \<leftarrow> calib_t24p_master io val e bus;
       Some (rv, val, c, s, bus)
     } else do {
       (rv, prev, bus) \<leftarrow> eeprom_phtrans io WRPC_FMC_I2C FMC_EEPROM_ADR prev0 False e bus;
       if rv < 0 \<or> prev < val - 200 \<or> val + 200 < prev then do {
         (rv, val, bus) \<leftarrow> eeprom_phtrans io WRPC_FMC_I2C FMC_EEPROM_ADR val True e bus;
         Some (rv, val, c, s, bus)
       } else Some (rv, val, c, s, bus)
     }
   }"

text \<open>
  The mode is \<open>WRC_MODE_SLAVE\<close> or not; whatever the outcome, the value is stored in the sockets.
\<close>

definition calib_t24p ::
  "board_cfg \<Rightarrow> (int \<Rightarrow> int) \<Rightarrow> spll_hw \<Rightarrow> (nat \<Rightarrow> softpll_state \<Rightarrow> softpll_state) \<Rightarrow> (softpll_state \<Rightarrow> int) \<Rightarrow>
    's gpio \<Rightarrow> bool \<Rightarrow> u32 \<Rightarrow> u32 \<Rightarrow> rxts \<Rightarrow> softpll_state \<Rightarrow> net \<Rightarrow> ee \<Rightarrow> 's \<Rightarrow>
    (int \<times> u32 \<times> rxts \<times> softpll_state \<times> net \<times> 's) option" where
  "calib_t24p b fp h irq pulse io slave val prev0 c s n e bus = do {
     (ret, val, c, s, bus) \<leftarrow>
       (if slave then calib_t24p_slave b fp h irq pulse io val prev0 c s e bus
        else do { (ret, val, bus) \<leftarrow> calib_t24p_master io val e bus; Some (ret, val, c, s, bus) });
     Some (ret, val, c, s, ptpd_netif_set_phase_transition val n, bus)
   }"

text \<open>
  \<open>measure_t24p\<close>, the command: wait for the link (the answers of \<open>ep_link_up\<close>), start the
  SoftPLL as a slave, wait for its lock, calibrate. The interrupts go on all the time.
  The result is that of the loop, and the value is left alone if the calibration fails.
\<close>

partial_function (option) spll_wait_lock ::
  "(nat \<Rightarrow> softpll_state \<Rightarrow> softpll_state) \<Rightarrow> nat \<Rightarrow> softpll_state \<Rightarrow> (nat \<times> softpll_state) option" where
  "spll_wait_lock irq n s = do {
     let s = irq n s;
     l \<leftarrow> spll_check_lock 0 s;
     if l then Some (Suc n, s) else spll_wait_lock irq (Suc n) s
   }"

definition measure_t24p ::
  "board_cfg \<Rightarrow> (int \<Rightarrow> int) \<Rightarrow> bool list \<Rightarrow> (nat \<Rightarrow> softpll_state \<Rightarrow> softpll_state) \<Rightarrow> (softpll_state \<Rightarrow> int) \<Rightarrow>
    softpll_state \<Rightarrow> spll_hw \<Rightarrow> u32 \<Rightarrow> rxts \<Rightarrow> (int \<times> u32 \<times> rxts \<times> softpll_state) option" where
  "measure_t24p b fp links irq pulse s h val c =
    (if True \<notin> set links then None
     else do {
       (s, h) \<leftarrow> spll_init b SPLL_MODE_SLAVE 0 1 s h;
       (n, s) \<leftarrow> spll_wait_lock irq 0 s;
       (c, s) \<leftarrow> rxts_calibration_start b fp c s h;
       (rv, v, c, s) \<leftarrow> rxts_loop b fp h irq pulse n c s;
       Some (rv, case v of Some v \<Rightarrow> v | None \<Rightarrow> val, c, s)
     })"

end
