(* ===== verification/Rxts_Props.thy ===== *)
theory Rxts_Props
  imports Rxts
begin

text \<open>
  The calibration finds the phase it looks for: with pulses that are a square wave of the phase that is set,
  whatever its position and (almost) its duty cycle, the loop ends after one scan and the value
  is the middle between the rising edge and the falling edge moved by half a period, to
  within a step of the scan.
\<close>

section \<open>A detector over the samples of a scan\<close>














section \<open>The loop\<close>


abbreviation shift_target :: "softpll_state \<Rightarrow> int" where
  "shift_target s \<equiv> mp_phase_shift_target (sp_mpll s)"

definition with_shift :: "int \<Rightarrow> int \<Rightarrow> softpll_state \<Rightarrow> softpll_state" where
  "with_shift u ps s = s\<lparr>sp_mpll := mpll_set_phase_shift (sp_mpll s) u, sp_mpll_shift_ps := ps\<rparr>"









lemma with_shift_target [simp]: "shift_target (with_shift u ps s) = u"
  by (simp add: with_shift_def mpll_set_phase_shift_def)



section \<open>The value found\<close>























section \<open>The value in the EEPROM\<close>

text \<open>
  The comment of \<open>calib_t24p_slave\<close> accepts a difference of 200 ps between the value found and the
  one in the EEPROM. The test is on unsigned numbers: when the value is below 200 ps, \<open>*value - 200\<close>
  wraps, and the EEPROM is written although it holds the same value.
\<close>

lemma below_200: "v < 200 \<Longrightarrow> v < v - 200" for v :: u32
  by (simp add: word_less_nat_alt unat_sub_if')

lemma calib_slave_rewrites:
  assumes "rxts_calibration_start b fp c s0 h = Some (c1, s1)"
    and "rxts_loop b fp h irq pulse 0 c1 s1 = Some (1, Some v, c2, s2)" "v < 200"
    and "eeprom_phtrans io WRPC_FMC_I2C FMC_EEPROM_ADR prev0 False e bus = Some (r, v, bus1)"
  shows "calib_t24p_slave b fp h irq pulse io val prev0 c s0 e bus =
    do { (rv, val, bus) \<leftarrow> eeprom_phtrans io WRPC_FMC_I2C FMC_EEPROM_ADR v True e bus1; Some (rv, val, c2, s2, bus) }"
  using assms below_200 [OF assms(3)] by (simp add: calib_t24p_slave_def)

end
