(* ===== verification/Uart.thy ===== *)
theory Uart
  imports Bytes
begin

text \<open>
  The console: \<open>dev/uart.c\<close> (the UART in the gateware), \<open>dev/uart-sw.c\<close> (two ring buffers in the memory
  of the node) and the host side of the latter, \<open>usw_ll\<close> and \<open>usw_do_io\<close> of
  \<open>tools/wrpc-uart-sw.c\<close>. The node is big endian; the host is a little-endian machine that sees
  the memory of the node as 32-bit words over the bus and converts between the byte orders.
  \<open>usleep\<close> only spends time.
\<close>

section \<open>The UART of the gateware\<close>

record 's uart_io =
  rd_SR :: "'s \<Rightarrow> u32 \<times> 's"
  wr_TDR :: "int \<Rightarrow> 's \<Rightarrow> 's"
  rd_RDR :: "'s \<Rightarrow> u32 \<times> 's"

abbreviation (input) UART_SR_TX_BUSY :: u32 where "UART_SR_TX_BUSY \<equiv> 1"
abbreviation (input) UART_SR_RX_RDY :: u32 where "UART_SR_RX_RDY \<equiv> 2"

definition CALC_BAUD :: "u64 \<Rightarrow> u64 \<Rightarrow> u64" where
  "CALC_BAUD cpu_clock baudrate =
    (push_bit (16 - 7) (baudrate * 8) + drop_bit 8 cpu_clock) div drop_bit 7 cpu_clock"

definition uart_init_hw :: u32 where
  "uart_init_hw = ucast (CALC_BAUD 62500000 115200)"

partial_function (option) tx_wait :: "'s uart_io \<Rightarrow> 's \<Rightarrow> 's option" where
  "tx_wait io s = (case rd_SR io s of (sr, s) \<Rightarrow> if sr AND UART_SR_TX_BUSY \<noteq> 0 then tx_wait io s else Some s)"

definition uart_put :: "'s uart_io \<Rightarrow> int \<Rightarrow> 's \<Rightarrow> 's option" where
  "uart_put io b s = do { s \<leftarrow> tx_wait io s; Some (wr_TDR io b s) }"

text \<open>The recursive call is for \<open>'\r'\<close>, which does not recurse further.\<close>

definition uart_write_byte :: "'s uart_io \<Rightarrow> int \<Rightarrow> 's \<Rightarrow> 's option" where
  "uart_write_byte io b s =
    do {
      s \<leftarrow> (if b = 10 then uart_put io 13 s else Some s);
      uart_put io b s
    }"

fun uart_write_string :: "'s uart_io \<Rightarrow> int list \<Rightarrow> 's \<Rightarrow> (int \<times> 's) option" where
  "uart_write_string io [] s = Some (0, s)"
| "uart_write_string io (b # bs) s =
    do {
      s \<leftarrow> uart_write_byte io b s;
      (n, s) \<leftarrow> uart_write_string io bs s;
      Some (n + 1, s)
    }"

definition uart_poll :: "'s uart_io \<Rightarrow> 's \<Rightarrow> bool \<times> 's" where
  "uart_poll io s = (case rd_SR io s of (sr, s) \<Rightarrow> (sr AND UART_SR_RX_RDY \<noteq> 0, s))"

definition uart_read_byte :: "'s uart_io \<Rightarrow> 's \<Rightarrow> int \<times> 's" where
  "uart_read_byte io s =
    (case uart_poll io s of (rdy, s) \<Rightarrow>
      if rdy then (case rd_RDR io s of (d, s) \<Rightarrow> (uint (d AND 0xff), s)) else (- 1, s))"

section \<open>The UART in memory\<close>

abbreviation (input) CONFIG_UART_SW_WSIZE :: nat where "CONFIG_UART_SW_WSIZE \<equiv> 256"
abbreviation (input) CONFIG_UART_SW_RSIZE :: nat where "CONFIG_UART_SW_RSIZE \<equiv> 32"

record wrc_uart_sw =
  us_nwritten :: u16
  us_nread :: u16
  us_wbuffer :: "u8 list"
  us_rbuffer :: "u8 list"
  us_nreturned :: u16

definition uart_init_sw :: "wrc_uart_sw \<Rightarrow> wrc_uart_sw" where
  "uart_init_sw u = u\<lparr>us_nwritten := 0, us_nread := 0\<rparr>"

definition uart_sw_put :: "u8 \<Rightarrow> wrc_uart_sw \<Rightarrow> wrc_uart_sw" where
  "uart_sw_put b u =
    (let index = unat (us_nwritten u) mod CONFIG_UART_SW_WSIZE
     in u\<lparr>us_wbuffer := (us_wbuffer u)[index := b], us_nwritten := us_nwritten u + 1\<rparr>)"

definition uart_sw_write_byte :: "u8 \<Rightarrow> wrc_uart_sw \<Rightarrow> wrc_uart_sw" where
  "uart_sw_write_byte b u =
    (let u = (if b = 10 then uart_sw_put 13 u else u)
     in uart_sw_put b u)"

fun uart_sw_write_string :: "u8 list \<Rightarrow> wrc_uart_sw \<Rightarrow> int \<times> wrc_uart_sw" where
  "uart_sw_write_string [] u = (0, u)"
| "uart_sw_write_string (b # bs) u =
    (let (n, u) = uart_sw_write_string bs (uart_sw_write_byte b u) in (n + 1, u))"

definition uart_sw_read_byte :: "wrc_uart_sw \<Rightarrow> int \<times> wrc_uart_sw" where
  "uart_sw_read_byte u =
    (if us_nreturned u = us_nread u then (- 1, u)
     else let index = unat (us_nreturned u) mod CONFIG_UART_SW_RSIZE
       in (uint (us_rbuffer u ! index), u\<lparr>us_nreturned := us_nreturned u + 1\<rparr>))"

text \<open>
  The struct in the memory of the node, in its byte order, and what the bus shows of a memory: its
  words, whose values are those the node sees.
\<close>

abbreviation (input) UART_SW_MAGIC :: nat where "UART_SW_MAGIC \<equiv> 0x752d7377"

definition uart_sw_image :: "wrc_uart_sw \<Rightarrow> u8 list" where
  "uart_sw_image u =
    be_bytes 4 UART_SW_MAGIC @ be_bytes 2 CONFIG_UART_SW_WSIZE @ be_bytes 2 (unat (us_nwritten u)) @
    be_bytes 2 CONFIG_UART_SW_RSIZE @ be_bytes 2 (unat (us_nread u)) @ us_wbuffer u @ us_rbuffer u"

fun bus_words :: "u8 list \<Rightarrow> u32 list" where
  "bus_words (a # b # c # d # bs) = word_of_nat (be_val [a, b, c, d]) # bus_words bs"
| "bus_words bs = []"

text \<open>Loads and stores of the host, and \<open>ntohl\<close>, \<open>htonl\<close>, \<open>ntohs\<close> and \<open>htons\<close>, which swap the bytes there.\<close>

definition le_bytes :: "nat \<Rightarrow> nat \<Rightarrow> u8 list" where
  "le_bytes n v = rev (be_bytes n v)"

definition le_load :: "nat \<Rightarrow> u8 list \<Rightarrow> nat \<Rightarrow> nat" where
  "le_load n mem pos = be_val (rev (take n (drop pos mem)))"

definition ntohl :: "u32 \<Rightarrow> u32" where
  "ntohl v = word_of_nat (be_val (le_bytes 4 (unat v)))"

definition ntohs :: "u16 \<Rightarrow> u16" where
  "ntohs v = word_of_nat (be_val (le_bytes 2 (unat v)))"

text \<open>
  The host: \<open>nreturned\<close> is its counter, \<open>outc\<close> the character to send or negative, \<open>hw\<close> the words at \<open>hwptr\<close>.
  The result is the character received or negative. In the struct, \<open>nwritten\<close> is at byte 6, \<open>nread\<close> at byte 10,
  \<open>wbuffer\<close> at 12 and \<open>rbuffer\<close> at 268.
\<close>

abbreviation (input) ofs_nwritten :: nat where "ofs_nwritten \<equiv> 6"
abbreviation (input) ofs_nread :: nat where "ofs_nread \<equiv> 10"
abbreviation (input) ofs_wbuffer :: nat where "ofs_wbuffer \<equiv> 12"
abbreviation (input) ofs_rbuffer :: nat where "ofs_rbuffer \<equiv> 268"

definition usw_send :: "int \<Rightarrow> u8 list \<Rightarrow> u32 list \<Rightarrow> u8 list \<times> u32 list" where
  "usw_send outc local hw =
    (let n = unat (ntohs (word_of_nat (le_load 2 local ofs_nread))) mod CONFIG_UART_SW_RSIZE;
         local = local[ofs_rbuffer + n := word_of_int outc];
         pos = (ofs_rbuffer + n) div 4;
         hw = hw[pos := ntohl (word_of_nat (le_load 4 local (4 * pos)))];
         nread = ntohs (ntohs (word_of_nat (le_load 2 local ofs_nread)) + 1);
         local = take ofs_nread local @ le_bytes 2 (unat nread) @ drop (ofs_nread + 2) local;
         pos = ofs_nread div 4
     in (local, hw[pos := ntohl (word_of_nat (le_load 4 local (4 * pos)))]))"

definition usw_ll :: "int \<Rightarrow> u16 \<Rightarrow> u32 list \<Rightarrow> int \<times> u16 \<times> u32 list" where
  "usw_ll outc nreturned hw =
    (let local = concat (map (\<lambda>w. le_bytes 4 (unat (ntohl w))) hw);
         (local, hw) = (if 0 \<le> outc then usw_send outc local hw else (local, hw));
         nwritten = ntohs (word_of_nat (le_load 2 local ofs_nwritten));
         nreturned = (if nwritten < nreturned then 0 else nreturned)
     in if nreturned < nwritten
        then (uint (local ! (ofs_wbuffer + unat nreturned mod CONFIG_UART_SW_WSIZE)), nreturned + 1, hw)
        else (- 1, nreturned, hw))"

text \<open>\<open>usw_do_io\<close>: the character to send, if any; the result is what it writes to the terminal.\<close>

partial_function (option) usw_loop :: "int \<Rightarrow> u16 \<Rightarrow> u32 list \<Rightarrow> (int list \<times> u16 \<times> u32 list) option" where
  "usw_loop char_o nreturned hw =
    (case usw_ll char_o nreturned hw of (char_i, nreturned, hw) \<Rightarrow>
      if 0 \<le> char_i
      then do { (out, r) \<leftarrow> usw_loop (- 1) nreturned hw; Some (char_i # out, r) }
      else Some ([], nreturned, hw))"

definition usw_do_io :: "u8 option \<Rightarrow> u16 \<Rightarrow> u32 list \<Rightarrow> (int list \<times> u16 \<times> u32 list) option" where
  "usw_do_io c nreturned hw = usw_loop (case c of None \<Rightarrow> - 1 | Some b \<Rightarrow> uint b) nreturned hw"

section \<open>The host works on the fields of the struct\<close>

text \<open>What \<open>usw_ll\<close> does, as seen by the node.\<close>

definition host_send :: "int \<Rightarrow> wrc_uart_sw \<Rightarrow> wrc_uart_sw" where
  "host_send outc u =
    (if 0 \<le> outc
     then u\<lparr>us_rbuffer := (us_rbuffer u)[unat (us_nread u) mod 32 := word_of_int outc], us_nread := us_nread u + 1\<rparr>
     else u)"

definition hw_of :: "wrc_uart_sw \<Rightarrow> u32 list" where
  "hw_of u = bus_words (uart_sw_image u)"

lemma bus_byte_swaps:
  "le_bytes 4 (unat (ntohl w)) = be_bytes 4 (unat w)"
  "length bs = 4 \<Longrightarrow> ntohl (word_of_nat (be_val (rev bs))) = word_of_nat (be_val bs)"
  "length cs = 2 \<Longrightarrow> ntohs (word_of_nat (be_val (rev cs))) = word_of_nat (be_val cs)"
  "le_bytes 2 (unat (ntohs v)) = be_bytes 2 (unat v)"
proof -
  have le: "le_bytes n (be_val (rev (be_bytes n x))) = be_bytes n x" for n x
    using be_bytes_val [of "rev (be_bytes n x)"] by (simp add: le_bytes_def)
  have b: "be_val (rev xs) < 256 ^ length xs" for xs using be_val_less [of "rev xs"] by simp
  have u: "unat (word_of_nat (be_val (rev (be_bytes 4 x))) :: u32) = be_val (rev (be_bytes 4 x))"
    "unat (word_of_nat (be_val (rev (be_bytes 2 x))) :: u16) = be_val (rev (be_bytes 2 x))" for x
    using b [of "be_bytes 4 x"] b [of "be_bytes 2 x"] by (simp_all add: unat_of_nat)
  show "le_bytes 4 (unat (ntohl w)) = be_bytes 4 (unat w)" "le_bytes 2 (unat (ntohs v)) = be_bytes 2 (unat v)"
    unfolding ntohl_def ntohs_def le_bytes_def [of _ "unat w"] le_bytes_def [of _ "unat v"] u by (rule le)+
  { assume l: "length bs = 4"
    have "unat (word_of_nat (be_val (rev bs)) :: u32) = be_val (rev bs)"
      using b [of bs] l by (simp add: unat_of_nat)
    then show "ntohl (word_of_nat (be_val (rev bs))) = word_of_nat (be_val bs)"
      using be_bytes_val [of "rev bs"] l by (simp add: ntohl_def le_bytes_def) }
  { assume l: "length cs = 2"
    have "unat (word_of_nat (be_val (rev cs)) :: u16) = be_val (rev cs)"
      using b [of cs] l by (simp add: unat_of_nat)
    then show "ntohs (word_of_nat (be_val (rev cs))) = word_of_nat (be_val cs)"
      using be_bytes_val [of "rev cs"] l by (simp add: ntohs_def le_bytes_def) }
qed

lemma host_loads:
  "pos + 4 \<le> length mem \<Longrightarrow> ntohl (word_of_nat (le_load 4 mem pos)) = word_of_nat (be_val (take 4 (drop pos mem)))"
  "pos + 2 \<le> length mem \<Longrightarrow> ntohs (word_of_nat (le_load 2 mem pos)) = word_of_nat (be_val (take 2 (drop pos mem)))"
  by (simp_all add: le_load_def bus_byte_swaps)

lemma unat_be4: "unat (word_of_nat (be_val [a, b, c, d]) :: u32) = be_val [a, b, c, d]"
  using be_val_less [of "[a, b, c, d]"] by (simp add: unat_of_nat)

lemma dvd4_Suc [simp]: "4 dvd Suc (Suc (Suc (Suc n))) \<longleftrightarrow> 4 dvd n"
  by presburger

lemma host_copy: "4 dvd length bs \<Longrightarrow> concat (map (\<lambda>w. le_bytes 4 (unat (ntohl w))) (bus_words bs)) = bs"
proof (induction bs rule: bus_words.induct)
  case (1 a b c d bs)
  have "length [a, b, c, d] = 4" by simp
  then have "be_bytes 4 (be_val [a, b, c, d]) = [a, b, c, d]" by (metis be_bytes_val)
  then show ?case using 1 unfolding bus_words.simps list.map concat.simps bus_byte_swaps(1) unat_be4 by simp
qed (auto dest!: dvd_imp_le)

lemma bus_update:
  "4 dvd length bs \<Longrightarrow> i < length bs \<Longrightarrow>
    bus_words (bs[i := x]) = (bus_words bs)[i div 4 := word_of_nat (be_val (take 4 (drop (4 * (i div 4)) (bs[i := x]))))]"
proof (induction bs arbitrary: i rule: bus_words.induct)
  case (1 a b c d bs)
  show ?case
  proof (cases "i < 4")
    case True
    then have "i = 0 \<or> i = 1 \<or> i = 2 \<or> i = 3" by auto
    then show ?thesis by (elim disjE) simp_all
  next
    case False
    define j where "j = i - 4"
    have i: "i = Suc (Suc (Suc (Suc j)))" using False by (simp add: j_def)
    have d: "Suc (Suc (Suc (Suc j))) div 4 = Suc (j div 4)" by simp
    have dr: "drop (4 + k) (a # b # c # d # l) = drop k l" for k and l :: "u8 list"
      by (simp add: eval_nat_numeral)
    have "4 dvd length bs" "j < length bs" using 1(2,3) i by simp_all
    then show ?thesis
      using "1.IH" [of j] unfolding i d by (simp add: dr)
  qed
qed (auto dest!: dvd_imp_le)


lemma image_parts:
  "uart_sw_image u = [0x75, 0x2d, 0x73, 0x77, 1, 0] @ be_bytes 2 (unat (us_nwritten u)) @ [0, 32] @
    be_bytes 2 (unat (us_nread u)) @ us_wbuffer u @ us_rbuffer u"
  by (simp add: uart_sw_image_def be_bytes_4 be_bytes_2 [of 256] be_bytes_2 [of 32])

definition rings_ok :: "wrc_uart_sw \<Rightarrow> bool" where
  "rings_ok u \<longleftrightarrow> length (us_wbuffer u) = 256 \<and> length (us_rbuffer u) = 32"

lemma image_length: "rings_ok u \<Longrightarrow> length (uart_sw_image u) = 300"
  by (simp add: image_parts rings_ok_def)

lemma be_val_u16: "word_of_nat (be_val (be_bytes 2 (unat v))) = (v :: u16)"
proof -
  have "unat v < 256 ^ 2" using unsigned_less [of v] by simp
  then show ?thesis by simp
qed

lemma image_loads:
  assumes "rings_ok u"
  shows "ntohs (word_of_nat (le_load 2 (uart_sw_image u) 6)) = us_nwritten u"
    "ntohs (word_of_nat (le_load 2 (uart_sw_image u) 10)) = us_nread u"
    "i < 256 \<Longrightarrow> uart_sw_image u ! (12 + i) = us_wbuffer u ! i"
proof -
  have "take 2 (drop 6 (uart_sw_image u)) = be_bytes 2 (unat (us_nwritten u))"
    "take 2 (drop 10 (uart_sw_image u)) = be_bytes 2 (unat (us_nread u))"
    by (simp_all add: image_parts)
  then show "ntohs (word_of_nat (le_load 2 (uart_sw_image u) 6)) = us_nwritten u"
    "ntohs (word_of_nat (le_load 2 (uart_sw_image u) 10)) = us_nread u"
    using image_length [OF assms] by (simp_all add: host_loads be_val_u16 del: be_val_bytes_id)
  show "uart_sw_image u ! (12 + i) = us_wbuffer u ! i" if "i < 256"
    using assms that by (simp add: image_parts nth_append rings_ok_def be_bytes_2)
qed

lemma usw_send_fields:
  assumes u: "rings_ok u" and c: "0 \<le> outc"
  shows "usw_send outc (uart_sw_image u) (hw_of u) = (uart_sw_image (host_send outc u), hw_of (host_send outc u))"
proof -
  define n where "n = unat (us_nread u) mod 32"
  define u1 where "u1 = u\<lparr>us_rbuffer := (us_rbuffer u)[n := word_of_int outc]\<rparr>"
  define u2 where "u2 = u1\<lparr>us_nread := us_nread u1 + 1\<rparr>"
  have n: "n < 32" by (simp add: n_def)
  have ok: "rings_ok u1" "rings_ok u2" using u by (simp_all add: u2_def u1_def rings_ok_def)
  have i1: "(uart_sw_image u)[268 + n := word_of_int outc] = uart_sw_image u1"
    using u by (simp add: image_parts u1_def list_update_append rings_ok_def be_bytes_2)
  have w1: "(hw_of u)[(268 + n) div 4 := word_of_nat (be_val (take 4 (drop (4 * ((268 + n) div 4)) (uart_sw_image u1))))] = hw_of u1"
    unfolding hw_of_def i1 [symmetric]
    by (rule bus_update [symmetric]) (use n image_length [OF u] in simp_all)
  have p1: "4 * ((268 + n) div 4) + 4 \<le> length (uart_sw_image u1)"
    unfolding image_length [OF ok(1)] using n by simp
  define hi lo :: u8 where "hi = word_of_nat (unat (us_nread u + 1) div 256)" and "lo = word_of_nat (unat (us_nread u + 1))"
  have i2: "take 10 (uart_sw_image u1) @ be_bytes 2 (unat (us_nread u1 + 1)) @ drop (10 + 2) (uart_sw_image u1) = uart_sw_image u2"
    by (simp add: image_parts u2_def)
  have i2': "uart_sw_image u2 = (uart_sw_image u1)[10 := hi, 11 := lo]"
    by (simp add: image_parts u2_def u1_def be_bytes_2 hi_def lo_def)
  have w2: "(hw_of u1)[2 := word_of_nat (be_val (take 4 (drop 8 (uart_sw_image u2))))] = hw_of u2"
    using bus_update [of "uart_sw_image u1" 10 hi] bus_update [of "(uart_sw_image u1)[10 := hi]" 11 lo] image_length [OF ok(1)]
    by (simp add: hw_of_def i2')
  have l: "us_nread u1 = us_nread u" by (simp add: u1_def)
  have h: "host_send outc u = u2" using c by (simp add: host_send_def u2_def u1_def n_def)
  show ?thesis
    unfolding usw_send_def Let_def image_loads [OF u] n_def [symmetric] i1 host_loads(1) [OF p1] w1
      image_loads(2) [OF ok(1)] bus_byte_swaps(4) i2
    using host_loads(1) [of 8 "uart_sw_image u2"] image_length [OF ok(2)] w2 h by simp
qed

lemma usw_ll_fields:
  assumes "rings_ok u"
  shows "usw_ll outc nreturned (hw_of u) =
    (let u = host_send outc u;
         nreturned = (if us_nwritten u < nreturned then 0 else nreturned)
     in if nreturned < us_nwritten u
        then (uint (us_wbuffer u ! (unat nreturned mod 256)), nreturned + 1, hw_of u)
        else (- 1, nreturned, hw_of u))"
proof -
  have ok: "rings_ok (host_send outc u)" using assms by (simp add: rings_ok_def host_send_def)
  have copy: "concat (map (\<lambda>w. le_bytes 4 (unat (ntohl w))) (hw_of u)) = uart_sw_image u"
    unfolding hw_of_def by (rule host_copy) (simp add: image_length [OF assms])
  have snd: "(if 0 \<le> outc then usw_send outc (uart_sw_image u) (hw_of u) else (uart_sw_image u, hw_of u)) =
      (uart_sw_image (host_send outc u), hw_of (host_send outc u))"
    using usw_send_fields [OF assms] by (simp add: host_send_def)
  show ?thesis
    unfolding usw_ll_def copy snd Let_def prod.case image_loads(1) [OF ok]
    using image_loads(3) [OF ok] by simp
qed

section \<open>The queues\<close>

text \<open>
  \<open>out_inv w u\<close>: the node has written the bytes \<open>w\<close>, of which the last 256 are in the buffer;
  \<open>in_inv q r u\<close>: the host has sent the bytes \<open>r\<close>, of which the node has read the first \<open>q\<close>.
\<close>

definition out_inv :: "u8 list \<Rightarrow> wrc_uart_sw \<Rightarrow> bool" where
  "out_inv w u \<longleftrightarrow> length (us_wbuffer u) = 256 \<and> us_nwritten u = word_of_nat (length w) \<and>
    (\<forall>i < length w. length w \<le> i + 256 \<longrightarrow> us_wbuffer u ! (i mod 256) = w ! i)"

definition in_inv :: "nat \<Rightarrow> u8 list \<Rightarrow> wrc_uart_sw \<Rightarrow> bool" where
  "in_inv q r u \<longleftrightarrow> length (us_rbuffer u) = 32 \<and> us_nread u = word_of_nat (length r) \<and>
    us_nreturned u = word_of_nat q \<and> q \<le> length r \<and> length r \<le> q + 32 \<and>
    (\<forall>i < length r. length r \<le> i + 32 \<longrightarrow> us_rbuffer u ! (i mod 32) = r ! i)"

text \<open>The ring: writing behind the end keeps what is still in it.\<close>

lemma ring_put:
  assumes "length xs = m" "0 < m" "\<forall>i < length w. length w \<le> i + m \<longrightarrow> xs ! (i mod m) = w ! i"
    "i < Suc (length w)" "Suc (length w) \<le> i + m"
  shows "xs[length w mod m := b] ! (i mod m) = (w @ [b]) ! i"
proof (cases "i = length w")
  case True
  then show ?thesis using assms(1,2) by simp
next
  case False
  then have "i mod m \<noteq> length w mod m"
    using assms(2,4,5) by (metis (no_types, lifting) Suc_le_eq add.commute less_SucE less_diff_conv2 linorder_not_le
      mod_eq_dvd_iff_nat nat_dvd_not_less zero_less_diff nat_less_le)
  then show ?thesis using False assms by (simp add: nth_append)
qed

lemma mod_u16: "unat (word_of_nat n :: u16) mod 256 = n mod 256" "unat (word_of_nat n :: u16) mod 32 = n mod 32"
  by (simp_all add: unat_of_nat mod_mod_cancel)

lemma out_put: "out_inv w u \<Longrightarrow> out_inv (w @ [b]) (uart_sw_put b u)"
  unfolding out_inv_def uart_sw_put_def Let_def
  using ring_put [of "us_wbuffer u" 256 w] by (auto simp: mod_u16 add.commute)

definition expand :: "u8 list \<Rightarrow> u8 list" where
  "expand s = concat (map (\<lambda>b. if b = 10 then [13, 10] else [b]) s)"

lemma out_write: "out_inv w u \<Longrightarrow> out_inv (w @ expand [b]) (uart_sw_write_byte b u)"
  using out_put [of w u b] out_put [of "w @ [13]" "uart_sw_put 13 u" 10] out_put [of w u 13]
  by (auto simp: uart_sw_write_byte_def expand_def)

lemma out_string: "out_inv w u \<Longrightarrow> out_inv (w @ expand s) (snd (uart_sw_write_string s u))"
proof (induction s arbitrary: w u)
  case (Cons b s)
  have "expand (b # s) = expand [b] @ expand s" by (simp add: expand_def)
  then show ?case using Cons.IH [OF out_write [OF Cons.prems, of b]] by (simp add: case_prod_beta Let_def)
qed (simp add: expand_def)

lemma word_of_nat_offset: "d < 65536 \<Longrightarrow> (word_of_nat q :: u16) = word_of_nat (q + d) \<longleftrightarrow> d = 0"
  by (auto simp: word_of_nat_eq_0_iff dest: nat_dvd_not_less)

lemma in_read:
  assumes "in_inv q r u"
  shows "uart_sw_read_byte u = (if q < length r then (uint (r ! q), u\<lparr>us_nreturned := word_of_nat (Suc q)\<rparr>) else (- 1, u))"
    "q < length r \<Longrightarrow> in_inv (Suc q) r (u\<lparr>us_nreturned := word_of_nat (Suc q)\<rparr>)"
proof -
  have b: "q \<le> length r" "length r \<le> q + 32" "us_nread u = word_of_nat (length r)" "us_nreturned u = word_of_nat q"
    using assms by (simp_all add: in_inv_def)
  then have "us_nreturned u = us_nread u \<longleftrightarrow> q = length r"
    using word_of_nat_offset [of "length r - q" q] by auto
  then show "uart_sw_read_byte u =
      (if q < length r then (uint (r ! q), u\<lparr>us_nreturned := word_of_nat (Suc q)\<rparr>) else (- 1, u))"
    using assms by (auto simp: in_inv_def uart_sw_read_byte_def mod_u16 Let_def add.commute)
qed (use assms in \<open>auto simp: in_inv_def\<close>)

lemma in_send: "in_inv q r u \<Longrightarrow> length r < q + 32 \<Longrightarrow> in_inv q (r @ [c]) (host_send (uint c) u)"
  unfolding in_inv_def host_send_def
  using ring_put [of "us_rbuffer u" 32 r] by (auto simp: mod_u16 add.commute)

lemma out_send [simp]: "out_inv w (host_send c u) \<longleftrightarrow> out_inv w u"
  by (simp add: out_inv_def host_send_def)

lemma in_put [simp]: "in_inv q r (uart_sw_put b u) \<longleftrightarrow> in_inv q r u"
  by (simp add: in_inv_def uart_sw_put_def Let_def)

lemma in_string [simp]: "in_inv q r (snd (uart_sw_write_string s u)) \<longleftrightarrow> in_inv q r u"
  by (induction s arbitrary: u) (simp_all add: case_prod_beta Let_def uart_sw_write_byte_def)

lemma usw_ll_fifo:
  assumes "out_inv w u" "in_inv q r u" "n \<le> length w" "length w < 65536" "length w \<le> n + 256"
  shows "usw_ll c (word_of_nat n) (hw_of u) =
    (if n < length w then (uint (w ! n), word_of_nat (Suc n), hw_of (host_send c u))
     else (- 1, word_of_nat n, hw_of (host_send c u)))"
proof -
  have ok: "rings_ok u" using assms(1,2) by (simp add: rings_ok_def out_inv_def in_inv_def)
  have nw: "us_nwritten u = word_of_nat (length w)" using assms(1) by (simp add: out_inv_def)
  have h: "us_nwritten (host_send c u) = us_nwritten u" "us_wbuffer (host_send c u) = us_wbuffer u"
    by (simp_all add: host_send_def)
  have l: "(word_of_nat n :: u16) < word_of_nat (length w) \<longleftrightarrow> n < length w"
    "\<not> (word_of_nat (length w) :: u16) < word_of_nat n"
    using assms by (simp_all add: word_less_nat_alt unat_of_nat)
  have "us_wbuffer u ! (n mod 256) = w ! n" if "n < length w"
    using assms that by (simp add: out_inv_def)
  then show ?thesis
    unfolding usw_ll_fields [OF ok] Let_def h
    using l nw by (cases "n < length w") (simp_all add: mod_u16 add.commute less_imp_neq)
qed

lemma usw_loop_fifo:
  "out_inv w u \<Longrightarrow> in_inv q r (host_send c u) \<Longrightarrow> in_inv q' r' u \<Longrightarrow> n \<le> length w \<Longrightarrow> length w < 65536 \<Longrightarrow>
    length w \<le> n + 256 \<Longrightarrow>
    usw_loop c (word_of_nat n) (hw_of u) = Some (map uint (drop n w), word_of_nat (length w), hw_of (host_send c u))"
proof (induction "length w - n" arbitrary: n u c q' r')
  case 0
  then show ?case by (subst usw_loop.simps) (simp add: usw_ll_fifo)
next
  case (Suc k)
  have n: "n < length w" using Suc.hyps(2) by simp
  have z: "host_send (- 1) v = v" for v by (simp add: host_send_def)
  have "usw_loop (- 1) (word_of_nat (Suc n)) (hw_of (host_send c u)) =
      Some (map uint (drop (Suc n) w), word_of_nat (length w), hw_of (host_send (- 1) (host_send c u)))"
    by (rule Suc.hyps(1)) (use Suc z in auto)
  moreover have "map uint (drop n w) = uint (w ! n) # map uint (drop (Suc n) w)"
    using n by (simp add: Cons_nth_drop_Suc [symmetric])
  ultimately show ?case
    using Suc.prems n by (subst usw_loop.simps) (simp add: usw_ll_fifo z)
qed

text \<open>
  C33. The console in memory is a queue in both directions, as long as nothing overruns and the node has
  written less than 65536 bytes since it started. If the node has written the bytes \<open>w\<close>, of which
  the host has fetched \<open>n\<close>, and the host has sent \<open>r\<close>, of which the node has read \<open>q\<close>, then after the
  node prints \<open>s\<close> and the host, on the other side of the bus and of the other byte order, runs once with a
  character \<open>c\<close> to send, the host has got exactly the rest of \<open>w\<close> and \<open>s\<close> with a carriage return before
  each newline, and the next byte that the node reads is the next that was sent. At most 256 bytes may be
  unfetched and 32 unread.
\<close>

theorem uart_sw_fifo:
  assumes "out_inv w u" "n \<le> length w" "in_inv q r u" "length r < q + 32"
    and "length (w @ expand s) < 65536" "length (w @ expand s) \<le> n + 256"
  shows "\<exists>u2 u3. usw_do_io (Some c) (word_of_nat n) (hw_of (snd (uart_sw_write_string s u))) =
      Some (map uint (drop n w @ expand s), word_of_nat (length (w @ expand s)), hw_of u2) \<and>
    out_inv (w @ expand s) u2 \<and> in_inv q (r @ [c]) u2 \<and>
    uart_sw_read_byte u2 = (uint ((r @ [c]) ! q), u3) \<and> in_inv (Suc q) (r @ [c]) u3 \<and> out_inv (w @ expand s) u3"
proof -
  define u1 where "u1 = snd (uart_sw_write_string s u)"
  define u2 where "u2 = host_send (uint c) u1"
  define u3 where "u3 = u2\<lparr>us_nreturned := word_of_nat (Suc q)\<rparr>"
  have o1: "out_inv (w @ expand s) u1" unfolding u1_def by (rule out_string [OF assms(1)])
  have n1: "in_inv q r u1" using assms(3) by (simp add: u1_def)
  have n2: "in_inv q (r @ [c]) u2" unfolding u2_def by (rule in_send [OF n1 assms(4)])
  have "usw_loop (uint c) (word_of_nat n) (hw_of u1) =
      Some (map uint (drop n (w @ expand s)), word_of_nat (length (w @ expand s)), hw_of u2)"
    unfolding u2_def by (rule usw_loop_fifo [OF o1 n2 [unfolded u2_def] n1]) (use assms in auto)
  moreover have "q < length (r @ [c])" using assms(3) by (simp add: in_inv_def)
  moreover have "out_inv (w @ expand s) u2" using o1 by (simp add: u2_def)
  moreover have "out_inv (w @ expand s) u3" using calculation(3) by (simp add: out_inv_def u3_def)
  ultimately show ?thesis
    using in_read [of q "r @ [c]" u2] assms(2) n2 unfolding usw_do_io_def u1_def [symmetric] u3_def
    by (intro exI [of _ u2] exI [of _ u3]) (simp add: u3_def)
qed

lemma uart_sw_fifo_witness:
  "\<exists>u2 u3. usw_do_io (Some 120) 0
      (hw_of (snd (uart_sw_write_string [104, 105, 10]
        \<lparr>us_nwritten = 0, us_nread = 0, us_wbuffer = replicate 256 0, us_rbuffer = replicate 32 0, us_nreturned = 0\<rparr>))) =
      Some ([104, 105, 13, 10], 4, hw_of u2) \<and> uart_sw_read_byte u2 = (120, u3)"
proof -
  let ?u = "\<lparr>us_nwritten = 0, us_nread = 0, us_wbuffer = replicate 256 0, us_rbuffer = replicate 32 0, us_nreturned = 0\<rparr>"
  have "out_inv [] ?u" "in_inv 0 [] ?u" by (simp_all add: out_inv_def in_inv_def)
  from uart_sw_fifo [OF this(1) _ this(2), of 0 "[104, 105, 10]" 120] show ?thesis
    by (auto simp: expand_def)
qed

text \<open>
  The host takes a counter that has gone down for a reload of the node. But the 16-bit counter of
  the node also goes down when it wraps: then the host drops the bytes before the wrap.
\<close>

lemma usw_wrap_loses:
  assumes "us_nwritten u = 5" "rings_ok u"
  shows "usw_ll (- 1) 65530 (hw_of u) = (uint (us_wbuffer u ! 0), 1, hw_of u)"
  using assms by (simp add: usw_ll_fields host_send_def)

end
