(* ===== verification/Wrc_ptp.thy ===== *)
theory Wrc_ptp
  imports Softpll_Init Pps_gen
begin

text \<open>
  The control of the PTP daemon, \<open>wrc_ptp_noposix.c\<close>. The daemon itself is in a submodule: its functions are the
  argument \<open>pd\<close>, its state has the type \<open>'p\<close>. The SoftPLL runs in the interrupt while \<open>wrc_ptp_set_mode\<close> waits:
  the argument \<open>env\<close> gives, for the SoftPLL after its initialisation, what each round of the wait sees
  (the SoftPLL at the check, the tics after the delay, the key typed) and the SoftPLL at the end of the wait. Messages are left out.
\<close>

abbreviation (input) WRC_MODE_UNKNOWN :: int where "WRC_MODE_UNKNOWN \<equiv> 0"
abbreviation (input) WRC_MODE_GM :: int where "WRC_MODE_GM \<equiv> 1"
abbreviation (input) WRC_MODE_MASTER :: int where "WRC_MODE_MASTER \<equiv> 2"
abbreviation (input) WRC_MODE_SLAVE :: int where "WRC_MODE_SLAVE \<equiv> 3"
abbreviation (input) ETIMEDOUT :: int where "ETIMEDOUT \<equiv> 116"
abbreviation (input) EINTR :: int where "EINTR \<equiv> 4"

datatype wr_config = WR_M_ONLY | WR_S_ONLY

text \<open>The options that change, with their initial values.\<close>

record rt_opts =
  primarySource :: bool
  wrConfig :: wr_config
  masterOnly :: bool

definition rtOpts0 :: rt_opts where
  "rtOpts0 = \<lparr>primarySource = False, wrConfig = WR_S_ONLY, masterOnly = False\<rparr>"

record 'p ptpd =
  ptpdStartup :: "rt_opts \<Rightarrow> 'p \<Rightarrow> 'p"
  initDataClock :: "rt_opts \<Rightarrow> 'p \<Rightarrow> 'p"
  netInit :: "rt_opts \<Rightarrow> 'p \<Rightarrow> bool \<times> 'p"
  link_down :: "'p \<Rightarrow> 'p"
  wr_servo_reset :: "'p \<Rightarrow> 'p"
  singlePortLoop :: "rt_opts \<Rightarrow> 'p \<Rightarrow> 'p"
  sharedPortsLoop :: "'p \<Rightarrow> 'p"

record 'p wrc_ptp =
  ptp_mode :: int
  ptp_enabled :: bool
  rtOpts :: rt_opts
  daemon :: 'p

definition wrc_ptp_init :: "'p ptpd \<Rightarrow> 'p wrc_ptp \<Rightarrow> int \<times> 'p wrc_ptp" where
  "wrc_ptp_init pd w =
    (let d = ptpdStartup pd (rtOpts w) (daemon w);
         d = initDataClock pd (rtOpts w) d;
         (ok, d) = netInit pd (rtOpts w) d
     in if \<not> ok then (- 1, w\<lparr>daemon := d\<rparr>)
        else (0, w\<lparr>daemon := link_down pd d, ptp_enabled := False\<rparr>))"

text \<open>The write of \<open>shw_pps_gen_enable_output\<close> to the register that the SoftPLL writes too.\<close>

definition pps_output :: "int \<Rightarrow> spll_hw \<Rightarrow> spll_hw" where
  "pps_output enable h = h\<lparr>p_ESCR := snd (hd (snd (shw_pps_gen_enable_output enable (rd_ESCR h))))\<rparr>"

definition wrc_ptp_start :: "'p ptpd \<Rightarrow> 'p wrc_ptp \<Rightarrow> int \<times> 'p wrc_ptp" where
  "wrc_ptp_start pd w =
    (let d = link_down pd (daemon w);
         d = wr_servo_reset pd d;
         d = initDataClock pd (rtOpts w) d
     in (0, w\<lparr>daemon := d, ptp_enabled := True\<rparr>))"

definition wrc_ptp_stop :: "'p ptpd \<Rightarrow> 'p wrc_ptp \<Rightarrow> spll_hw \<Rightarrow> int \<times> 'p wrc_ptp \<times> spll_hw" where
  "wrc_ptp_stop pd w h =
    (0, w\<lparr>ptp_enabled := False, daemon := wr_servo_reset pd (daemon w)\<rparr>, pps_output 0 h)"

definition wrc_ptp_update :: "'p ptpd \<Rightarrow> 'p wrc_ptp \<Rightarrow> int \<times> 'p wrc_ptp" where
  "wrc_ptp_update pd w =
    (0, if ptp_enabled w
        then w\<lparr>daemon := sharedPortsLoop pd (singlePortLoop pd (rtOpts w) (daemon w))\<rparr> else w)"

definition wrc_ptp_get_mode :: "'p wrc_ptp \<Rightarrow> int" where
  "wrc_ptp_get_mode w = ptp_mode w"

definition LOCK_TIMEOUT_FM :: "board_cfg \<Rightarrow> u32" where
  "LOCK_TIMEOUT_FM b = to_u32 (4 * b_tics_per_second b)"

definition LOCK_TIMEOUT_GM :: "board_cfg \<Rightarrow> u32" where
  "LOCK_TIMEOUT_GM b = to_u32 (60 * b_tics_per_second b)"

record lock_round =
  lr_spll :: softpll_state
  lr_tics :: u32
  lr_key :: int

text \<open>The wait; \<open>None\<close> while it goes on after the rounds given.\<close>

fun lock_wait :: "u32 \<Rightarrow> u32 \<Rightarrow> lock_round list \<Rightarrow> int option" where
  "lock_wait start_tics lock_timeout [] = None"
| "lock_wait start_tics lock_timeout (r # rs) =
    do {
      locked \<leftarrow> spll_check_lock 0 (lr_spll r);
      if locked \<or> lock_timeout = 0 then Some 0
      else if time_after (lr_tics r) (start_tics + lock_timeout) then Some (- ETIMEDOUT)
      else if lr_key r = 27 then Some (- EINTR)
      else lock_wait start_tics lock_timeout rs
    }"

text \<open>The options, the timeout and the mode of the SoftPLL for a mode; any other mode only changes \<open>ptp_mode\<close>.\<close>

definition mode_setup :: "board_cfg \<Rightarrow> int \<Rightarrow> rt_opts \<Rightarrow> rt_opts \<times> u32 \<times> int option" where
  "mode_setup b mode opts =
    (if mode = WRC_MODE_GM
     then (opts\<lparr>primarySource := True, wrConfig := WR_M_ONLY, masterOnly := True\<rparr>,
           LOCK_TIMEOUT_GM b, Some SPLL_MODE_GRAND_MASTER)
     else if mode = WRC_MODE_MASTER
     then (opts\<lparr>primarySource := False, wrConfig := WR_M_ONLY, masterOnly := True\<rparr>,
           LOCK_TIMEOUT_FM b, Some SPLL_MODE_FREE_RUNNING_MASTER)
     else if mode = WRC_MODE_SLAVE
     then (opts\<lparr>primarySource := False, wrConfig := WR_S_ONLY, masterOnly := False\<rparr>, 0, Some SPLL_MODE_SLAVE)
     else (opts, 0, None))"

definition wrc_ptp_set_mode ::
  "board_cfg \<Rightarrow> 'p ptpd \<Rightarrow> (softpll_state \<Rightarrow> spll_hw \<Rightarrow> lock_round list \<times> softpll_state \<times> spll_hw) \<Rightarrow>
    int \<Rightarrow> 'p wrc_ptp \<Rightarrow> softpll_state \<Rightarrow> spll_hw \<Rightarrow> (int \<times> 'p wrc_ptp \<times> softpll_state \<times> spll_hw) option" where
  "wrc_ptp_set_mode b pd env mode w s h =
    do {
      let w = w\<lparr>ptp_mode := 0\<rparr>;
      let (_, w, h) = wrc_ptp_stop pd w h;
      let (opts, lock_timeout, spll) = mode_setup b mode (rtOpts w);
      let w = w\<lparr>rtOpts := opts\<rparr>;
      (s, h) \<leftarrow> (case spll of Some m \<Rightarrow> spll_init b m 0 1 s h | None \<Rightarrow> Some (s, h));
      let w = w\<lparr>daemon := initDataClock pd (rtOpts w) (daemon w)\<rparr>;
      let start_tics = h_tics h;
      let h = pps_output 0 h;
      let (rounds, s, h) = env s h;
      rv \<leftarrow> lock_wait start_tics lock_timeout rounds;
      if rv < 0 then Some (rv, w, s, h)
      else do {
        let h = (if mode = WRC_MODE_MASTER \<or> mode = WRC_MODE_GM then pps_output 1 h else h);
        Some (0, w\<lparr>ptp_mode := mode\<rparr>, s, h)
      }
    }"

section \<open>Setting the mode\<close>

text \<open>
  The wait is over at the first round that is locked, in time or with the key; without a timeout
  (the slave) it does not wait at all.
\<close>

lemma lock_wait_ends:
  assumes "r \<in> set rs" "time_after (lr_tics r) (start + tmo)"
  shows "\<exists>rv. lock_wait start tmo rs = Some rv"
  using assms
proof (induction rs)
  case (Cons x rs)
  then show ?case by (auto simp: spll_check_lock_def)
qed simp

text \<open>
  What the wait with a timeout has to return: \<open>r\<close> is the round in which it ends, the first in which the
  SoftPLL is ready, the time is over or the key is escape; the first of these that holds is the result.
\<close>

definition lock_outcome :: "u32 \<Rightarrow> lock_round list \<Rightarrow> int \<Rightarrow> bool" where
  "lock_outcome deadline rs rv \<longleftrightarrow> (\<exists>earlier r later. rs = earlier @ r # later \<and>
    (\<forall>x\<in>set earlier. sp_seq_state (lr_spll x) \<noteq> SEQ_READY \<and> \<not> time_after (lr_tics x) deadline \<and> lr_key x \<noteq> 27) \<and>
    (sp_seq_state (lr_spll r) = SEQ_READY \<and> rv = 0 \<or>
     sp_seq_state (lr_spll r) \<noteq> SEQ_READY \<and> time_after (lr_tics r) deadline \<and> rv = - ETIMEDOUT \<or>
     sp_seq_state (lr_spll r) \<noteq> SEQ_READY \<and> \<not> time_after (lr_tics r) deadline \<and> lr_key r = 27 \<and> rv = - EINTR))"

lemma lock_wait_outcome:
  "lock_wait start tmo rs = Some rv \<Longrightarrow> tmo \<noteq> 0 \<Longrightarrow> lock_outcome (start + tmo) rs rv"
proof (induction rs)
  case (Cons x rs)
  show ?case
  proof (cases "sp_seq_state (lr_spll x) \<noteq> SEQ_READY \<and> \<not> time_after (lr_tics x) (start + tmo) \<and> lr_key x \<noteq> 27")
    case True
    then have "lock_outcome (start + tmo) rs rv" using Cons by (simp add: spll_check_lock_def)
    then obtain earlier r later where o: "rs = earlier @ r # later"
      "\<forall>y\<in>set earlier. sp_seq_state (lr_spll y) \<noteq> SEQ_READY \<and> \<not> time_after (lr_tics y) (start + tmo) \<and> lr_key y \<noteq> 27"
      "sp_seq_state (lr_spll r) = SEQ_READY \<and> rv = 0 \<or>
       sp_seq_state (lr_spll r) \<noteq> SEQ_READY \<and> time_after (lr_tics r) (start + tmo) \<and> rv = - ETIMEDOUT \<or>
       sp_seq_state (lr_spll r) \<noteq> SEQ_READY \<and> \<not> time_after (lr_tics r) (start + tmo) \<and> lr_key r = 27 \<and> rv = - EINTR"
      unfolding lock_outcome_def by blast
    show ?thesis
      unfolding lock_outcome_def
      by (rule exI [of _ "x # earlier"], rule exI [of _ r], rule exI [of _ later]) (use True o in auto)
  next
    case False
    then show ?thesis
      using Cons.prems unfolding lock_outcome_def
      by (intro exI [of _ "[]"] exI [of _ x] exI [of _ rs]) (auto simp: spll_check_lock_def split: if_splits)
  qed
qed simp

lemma lock_wait_result: "lock_wait start tmo rs = Some rv \<Longrightarrow> rv \<in> {0, - ETIMEDOUT, - EINTR}"
  by (induction rs) (auto simp: spll_check_lock_def split: if_splits)

lemma lock_wait_slave: "rs \<noteq> [] \<Longrightarrow> lock_wait start 0 rs = Some 0"
  by (cases rs) (simp_all add: spll_check_lock_def)

lemma pps_valid_bits:
  "p_ESCR (pps_output 1 h) AND 0x6 = 0x6" "p_ESCR (pps_output 0 h) AND 0x6 = 0"
proof -
  have v: "p_ESCR (pps_output 1 h) = rd_ESCR h OR 0x6" "p_ESCR (pps_output 0 h) = rd_ESCR h AND NOT 0x6"
    by (simp_all add: pps_output_def shw_pps_gen_enable_output_def)
  have "(x OR 0x6) AND 0x6 = 0x6" "(x AND NOT 0x6) AND 0x6 = 0" for x :: u32
    by (rule bit_word_eqI; simp add: bit_simps; blast)+
  then show "p_ESCR (pps_output 1 h) AND 0x6 = 0x6" "p_ESCR (pps_output 0 h) AND 0x6 = 0" unfolding v by simp_all
qed

lemma pps_output_frame [simp]:
  "cpu_IE (pps_output e h) = cpu_IE h" "h_ECCR (pps_output e h) = h_ECCR h" "r_CSR (pps_output e h) = r_CSR h"
  "h_tics (pps_output e h) = h_tics h" "spll_n_chan_ref (pps_output e h) = spll_n_chan_ref h"
  "spll_n_chan_out (pps_output e h) = spll_n_chan_out h" "r_TRR (pps_output e h) = r_TRR h"
  by (simp_all add: pps_output_def)

definition the_setup :: "board_cfg \<Rightarrow> int \<Rightarrow> int \<times> u32" where
  "the_setup b mode = (case mode_setup b mode rtOpts0 of (_, t, m) \<Rightarrow> (the m, t))"

text \<open>
  C35. Setting the mode returns and tells the truth. Let the channel counts fit and, for the grandmaster
  mode, the hardware be there; as master or grandmaster, let the tics reach the timeout in some round of
  the wait. Then \<open>wrc_ptp_set_mode\<close> returns 0, a timeout or an interruption. As a slave it does not wait: it returns
  0 whether the SoftPLL is locked or not. As master or grandmaster it returns 0 exactly if the SoftPLL is seen ready in
  a round before which the wait is neither over in time nor interrupted by the escape key, and -ETIMEDOUT or
  -EINTR if that comes first; with 0 the PPS and the time are flagged valid. After 0 the mode is the one asked
  for, otherwise it is unknown; in all the other cases the flags are what the SoftPLL left. The daemon is stopped.
\<close>

theorem set_mode_tells_lock:
  assumes "init_fits s h" "mode \<in> {WRC_MODE_GM, WRC_MODE_MASTER, WRC_MODE_SLAVE}"
    and "mode = WRC_MODE_GM \<longrightarrow> h_ECCR h AND SPLL_ECCR_EXT_SUPPORTED \<noteq> 0"
    and "b_tics_per_second b = 1000"
    and env: "\<And>s1 h1. if mode = WRC_MODE_SLAVE then fst (env s1 h1) \<noteq> []
      else \<exists>r\<in>set (fst (env s1 h1)). time_after (lr_tics r) (h_tics h1 + snd (the_setup b mode))"
  shows "\<exists>rv w' s1 h1 s2 h2 rs h'. spll_init b (fst (the_setup b mode)) 0 1 s (pps_output 0 h) = Some (s1, h1) \<and>
    env s1 (pps_output 0 h1) = (rs, s2, h2) \<and>
    wrc_ptp_set_mode b pd env mode w s h = Some (rv, w', s2, h') \<and>
    rv \<in> {0, - ETIMEDOUT, - EINTR} \<and> \<not> ptp_enabled w' \<and> ptp_mode w' = (if rv = 0 then mode else WRC_MODE_UNKNOWN) \<and>
    (if mode = WRC_MODE_SLAVE then rv = 0 else lock_outcome (h_tics h1 + snd (the_setup b mode)) rs rv) \<and>
    (if rv = 0 \<and> mode \<noteq> WRC_MODE_SLAVE then p_ESCR h' AND 0x6 = 0x6 else h' = h2)"
proof -
  define m where "m = fst (the_setup b mode)"
  define t where "t = snd (the_setup b mode)"
  have ms: "\<exists>opts. mode_setup b mode o0 = (opts, t, Some m)" for o0
    using assms(2) by (auto simp: m_def t_def the_setup_def mode_setup_def)
  have m: "m \<in> {1, 2, 3, 4}" "m = SPLL_MODE_GRAND_MASTER \<longrightarrow> mode = WRC_MODE_GM"
    using assms(2) by (auto simp: m_def the_setup_def mode_setup_def)
  have fits: "init_fits s (pps_output 0 h)" using assms(1) by (simp add: init_fits_def)
  obtain s1 h1 where i: "spll_init b m 0 1 s (pps_output 0 h) = Some (s1, h1)"
    using spll_init_ok [OF fits m(1), of b 0 1] m(2) assms(3) by auto
  obtain rs s2 h2 where e: "env s1 (pps_output 0 h1) = (rs, s2, h2)" by (cases "env s1 (pps_output 0 h1)")
  have sl: "mode = WRC_MODE_SLAVE \<Longrightarrow> t = 0" by (simp add: t_def the_setup_def mode_setup_def)
  obtain rv where rv: "lock_wait (h_tics h1) t rs = Some rv"
    using env [of s1 "pps_output 0 h1"] lock_wait_ends [of _ rs "h_tics h1" t] lock_wait_slave [of rs "h_tics h1"] e sl
    unfolding t_def by (auto split: if_splits)
  obtain opts where o: "mode_setup b mode (rtOpts w) = (opts, t, Some m)" using ms by blast
  have t0: "t \<noteq> 0" if "mode \<noteq> WRC_MODE_SLAVE"
    using that assms(2,4) by (auto simp: t_def the_setup_def mode_setup_def LOCK_TIMEOUT_GM_def LOCK_TIMEOUT_FM_def to_u32_def)
  define w1 where "w1 = w\<lparr>ptp_mode := 0, ptp_enabled := False, rtOpts := opts,
    daemon := initDataClock pd opts (wr_servo_reset pd (daemon w))\<rparr>"
  define h' where "h' = (if rv = 0 \<and> mode \<noteq> WRC_MODE_SLAVE then pps_output 1 h2 else h2)"
  have pos: "\<not> rv < 0 \<longleftrightarrow> rv = 0" using lock_wait_result [OF rv] by auto
  have "wrc_ptp_set_mode b pd env mode w s h = Some (rv, if rv = 0 then w1\<lparr>ptp_mode := mode\<rparr> else w1, s2, h')"
    using o i e rv pos assms(2)
    by (auto simp: wrc_ptp_set_mode_def wrc_ptp_stop_def w1_def h'_def pps_output_frame)
  moreover have "if mode = WRC_MODE_SLAVE then rv = 0 else lock_outcome (h_tics h1 + t) rs rv"
    using lock_wait_outcome [OF rv] lock_wait_slave [of rs "h_tics h1"] rv t0 sl env [of s1 "pps_output 0 h1"] e
    by (auto split: if_splits)
  ultimately show ?thesis
    using i e lock_wait_result [OF rv] unfolding m_def t_def
    by (intro exI conjI) (assumption | auto simp: w1_def h'_def pps_valid_bits)+
qed

lemma set_mode_tells_lock_witness:
  "\<forall>pd s h a p w r. \<exists>rv w' s' h'. wrc_ptp_set_mode board_wrc pd
      (\<lambda>s h. ([r\<lparr>lr_spll := s, lr_tics := h_tics h + 4001, lr_key := 0\<rparr>], s, h)) 2 w
      (s\<lparr>sp_aux := [a, a], sp_ptrackers := [p]\<rparr>) (h\<lparr>r_CSR := 0x10100\<rparr>) = Some (rv, w', s', h') \<and>
    ptp_mode w' = (if rv = 0 then 2 else 0)"
proof (intro allI)
  fix pd :: "'a ptpd" and s :: softpll_state and h :: spll_hw and a p and w :: "'a wrc_ptp" and r :: lock_round
  let ?env = "\<lambda>s h. ([r\<lparr>lr_spll := s, lr_tics := h_tics h + 4001, lr_key := 0\<rparr>], s, h)"
  have f: "init_fits (s\<lparr>sp_aux := [a, a], sp_ptrackers := [p]\<rparr>) (h\<lparr>r_CSR := 0x10100\<rparr>)"
    by (simp add: init_fits_def gen_read_def mask_eq_exp_minus_1 drop_bit_eq_div)
  have t: "snd (the_setup board_wrc 2) = 4000"
    by (simp add: the_setup_def mode_setup_def LOCK_TIMEOUT_FM_def board_wrc_def to_u32_def)
  have "time_after (x + 4001) (x + 4000)" for x :: u32
    using time_after_wraps [of 1 "x + 4000"] by (simp add: add.assoc)
  then have e: "if (2 :: int) = WRC_MODE_SLAVE then fst (?env s1 h1) \<noteq> []
      else \<exists>r\<in>set (fst (?env s1 h1)). time_after (lr_tics r) (h_tics h1 + snd (the_setup board_wrc 2))" for s1 h1
    unfolding t by simp
  have m: "(2 :: int) \<in> {WRC_MODE_GM, WRC_MODE_MASTER, WRC_MODE_SLAVE}"
    "(2 :: int) = WRC_MODE_GM \<longrightarrow> h_ECCR (h\<lparr>r_CSR := 0x10100\<rparr>) AND SPLL_ECCR_EXT_SUPPORTED \<noteq> 0"
    "b_tics_per_second board_wrc = 1000" by (simp_all add: board_wrc_def)
  from set_mode_tells_lock [where pd = pd and w = w and env = ?env, OF f m e]
  obtain rv w' s1 h1 s2 h2 rs h' where "wrc_ptp_set_mode board_wrc pd ?env 2 w (s\<lparr>sp_aux := [a, a], sp_ptrackers := [p]\<rparr>)
      (h\<lparr>r_CSR := 0x10100\<rparr>) = Some (rv, w', s2, h')" "ptp_mode w' = (if rv = 0 then 2 else 0)"
    by (elim exE conjE) (rule that, assumption+)
  then show "\<exists>rv w' s' h'. wrc_ptp_set_mode board_wrc pd ?env 2 w (s\<lparr>sp_aux := [a, a], sp_ptrackers := [p]\<rparr>)
      (h\<lparr>r_CSR := 0x10100\<rparr>) = Some (rv, w', s', h') \<and> ptp_mode w' = (if rv = 0 then 2 else 0)"
    by (intro exI conjI)
qed

text \<open>
  A grandmaster mode without the hardware for the external reference: \<open>spll_init\<close> returns with the
  interrupts off and the sequencer where it was. If that was \<open>SEQ_READY\<close>, the mode is reported as
  set and the PPS as valid, with a SoftPLL that does not run.
\<close>

lemma gm_without_hardware:
  assumes "h_ECCR h AND SPLL_ECCR_EXT_SUPPORTED = 0" "sp_seq_state s = SEQ_READY"
    and env: "\<And>s h. \<exists>r rs. env s h = (r # rs, s, h) \<and> lr_spll r = s"
  shows "\<exists>w' s' h'. wrc_ptp_set_mode b pd env WRC_MODE_GM w s h = Some (0, w', s', h') \<and>
    ptp_mode w' = WRC_MODE_GM \<and> cpu_IE h' AND 1 = 0 \<and> p_ESCR h' AND 0x6 = 0x6"
proof -
  define h0 where "h0 = pps_output 0 h"
  have "h_ECCR h0 AND SPLL_ECCR_EXT_SUPPORTED = 0" using assms(1) by (simp add: h0_def pps_output_def)
  then obtain s1 h1 where i: "spll_init b SPLL_MODE_GRAND_MASTER 0 1 s h0 = Some (s1, h1)"
    "sp_seq_state s1 = SEQ_READY" "cpu_IE h1 AND 1 = 0"
    using spll_init_no_gm_hardware [of h0 b 0 1 s] assms(2) by auto
  obtain r rs where e: "env s1 (pps_output 0 h1) = (r # rs, s1, pps_output 0 h1)" "lr_spll r = s1" using env by blast
  have "lock_wait (h_tics h1) (LOCK_TIMEOUT_GM b) (r # rs) = Some 0"
    using e(2) i(2) by (simp add: spll_check_lock_def)
  then show ?thesis
    using i(1,3) e(1) by (simp add: wrc_ptp_set_mode_def wrc_ptp_stop_def mode_setup_def h0_def [symmetric] pps_valid_bits)
qed

end
