(* ===== verification/Usleep.thy ===== *)
theory Usleep
  imports Bytes Board
begin

text \<open>
  The timer of \<open>dev/syscon.c\<close> and the calibrated delay loop of \<open>lib/usleep.c\<close>. What time is and
  how it passes is the argument \<open>io\<close>: what a read of the tick counter returns, and what a round of
  the empty loop does. The messages are left out.
\<close>

section \<open>The code\<close>

record 's timer_io =
  rd_TVR :: "'s \<Rightarrow> u32 \<times> 's"
  loop_round :: "'s \<Rightarrow> 's"

definition timer_get_tics :: "'s timer_io \<Rightarrow> 's \<Rightarrow> u32 \<times> 's" where
  "timer_get_tics io s = rd_TVR io s"

definition timer_init :: "bool \<Rightarrow> u32 \<Rightarrow> u32" where
  "timer_init enable tcr = (if enable then tcr OR 1 else tcr AND NOT 1)"

partial_function (option) wait_until :: "'s timer_io \<Rightarrow> u32 \<Rightarrow> 's \<Rightarrow> 's option" where
  "wait_until io t_end s =
    (case timer_get_tics io s of (t, s) \<Rightarrow>
      if time_before t t_end then wait_until io t_end s else Some s)"

definition timer_delay :: "'s timer_io \<Rightarrow> u32 \<Rightarrow> 's \<Rightarrow> 's option" where
  "timer_delay io tics s = (case timer_get_tics io s of (t, s) \<Rightarrow> wait_until io (t + tics) s)"

abbreviation (input) TICS_PER_SECOND :: int where "TICS_PER_SECOND \<equiv> 1000"

definition timer_delay_ms :: "'s timer_io \<Rightarrow> int \<Rightarrow> 's \<Rightarrow> 's option" where
  "timer_delay_ms io ms s = timer_delay io (to_u32 (mul32 ms TICS_PER_SECOND sdiv 1000)) s"

definition delay_loops :: "'s timer_io \<Rightarrow> int \<Rightarrow> 's \<Rightarrow> 's" where
  "delay_loops io count s = (loop_round io ^^ nat count) s"

partial_function (option) wait_tic :: "'s timer_io \<Rightarrow> u32 \<Rightarrow> 's \<Rightarrow> 's option" where
  "wait_tic io j s =
    (case timer_get_tics io s of (t, s) \<Rightarrow> if t \<noteq> j then wait_tic io j s else Some s)"

definition verify_lpj :: "'s timer_io \<Rightarrow> int \<Rightarrow> 's \<Rightarrow> (int \<times> 's) option" where
  "verify_lpj io lpj s =
    (let (t, s) = timer_get_tics io s; j = t + 1
     in do {
       s \<leftarrow> wait_tic io j s;
       let s = delay_loops io lpj s;
       let (t, s) = timer_get_tics io s;
       Some (of_u32 (t - j), s)
     })"

partial_function (option) lpj_grow :: "'s timer_io \<Rightarrow> int \<Rightarrow> int \<Rightarrow> 's \<Rightarrow> (int \<times> int \<times> 's) option" where
  "lpj_grow io lpj step s =
    do {
      (r, s) \<leftarrow> verify_lpj io lpj s;
      if r = 0 then lpj_grow io (add32 lpj step) (mul32 step 2) s else Some (lpj, step, s)
    }"

function lpj_bisect :: "'s timer_io \<Rightarrow> int \<Rightarrow> int \<Rightarrow> 's \<Rightarrow> (int \<times> 's) option" where
  "lpj_bisect io lpj step s =
    (if step = 0 then Some (lpj, s)
     else do {
       (r, s) \<leftarrow> verify_lpj io (add32 lpj step) s;
       lpj_bisect io (if r = 0 then add32 lpj step else lpj) (step sdiv 2) s
     })"
  by auto
termination
  by (relation "measure (\<lambda>(io, lpj, step, s). nat \<bar>step\<bar>)") (auto simp: signed_divide_int_def abs_if sgn_if)

declare lpj_bisect.simps [simp del]

definition usleep_init :: "'s timer_io \<Rightarrow> 's \<Rightarrow> (int \<times> 's) option" where
  "usleep_init io s =
    do {
      (lpj, step, s) \<leftarrow> lpj_grow io 1024 1024 s;
      lpj_bisect io (lpj sdiv 2) (step sdiv 4) s
    }"

text \<open>\<open>usleep\<close> with its loops; \<open>useconds_t\<close> is unsigned.\<close>

abbreviation (input) usec_per_jiffy :: int where "usec_per_jiffy \<equiv> 1000000 sdiv TICS_PER_SECOND"

function usleep_steps :: "'s timer_io \<Rightarrow> int \<Rightarrow> u32 \<Rightarrow> 's \<Rightarrow> u32 \<times> 's" where
  "usleep_steps io count_per_step usec s =
    (if 10000 < usec then usleep_steps io count_per_step (usec - 10000) (delay_loops io count_per_step s)
     else (usec, s))"
  by auto
termination
  by (relation "measure (\<lambda>(io, c, usec, s). unat usec)")
    (auto simp: word_less_nat_alt unat_sub_if')

declare usleep_steps.simps [simp del]

definition usleep :: "'s timer_io \<Rightarrow> int \<Rightarrow> u32 \<Rightarrow> 's \<Rightarrow> 's" where
  "usleep io usleep_lpj usec s =
    (let count_per_step = mul32 usleep_lpj 10000 sdiv usec_per_jiffy;
         (usec, s) = usleep_steps io count_per_step usec s
     in delay_loops io (of_u32 (usec * to_u32 usleep_lpj div to_u32 usec_per_jiffy)) s)"

section \<open>A clock\<close>

text \<open>Time in rounds of the loop, \<open>J\<close> of them in a tick; reading the counter takes one.\<close>

definition clock :: "nat \<Rightarrow> nat timer_io" where
  "clock J = \<lparr>rd_TVR = \<lambda>t. (word_of_nat (t div J), t + 1), loop_round = Suc\<rparr>"

lemma clock_simps [simp]:
  "timer_get_tics (clock J) t = (word_of_nat (t div J), t + 1)" "delay_loops (clock J) n t = t + nat n"
proof -
  have "(Suc ^^ k) t = t + k" for k by (induction k) auto
  then show "delay_loops (clock J) n t = t + nat n" by (simp add: delay_loops_def clock_def)
qed (simp add: timer_get_tics_def clock_def)

lemma word_Suc_neq: "(word_of_nat k :: u32) \<noteq> word_of_nat k + 1"
  by simp

lemma wait_tic_clock:
  assumes "k * J \<le> t" "t \<le> Suc k * J" "0 < J"
  shows "wait_tic (clock J) (word_of_nat k + 1) t = Some (Suc k * J + 1)"
  using assms(1,2)
proof (induction "Suc k * J - t" arbitrary: t)
  case 0
  then have "t div J = Suc k" using assms(3) by simp
  then show ?case using 0 by (subst wait_tic.simps) (simp add: add.commute)
next
  case (Suc n)
  have "t div J = k" using Suc assms(3) by (intro div_nat_eqI) (auto simp: algebra_simps)
  then show ?case using Suc by (subst wait_tic.simps) simp
qed

text \<open>The test delays for \<open>n\<close> rounds from the start of a tick, of which one has been used.\<close>

lemma verify_clock:
  assumes "0 < J" "0 \<le> n" "n < 2147483648"
  shows "\<exists>r t'. verify_lpj (clock J) n t = Some (r, t') \<and> (r = 0 \<longleftrightarrow> n + 1 < int J)"
proof -
  define k where "k = t div J"
  have "k * J \<le> t + 1" "t + 1 \<le> Suc k * J"
    using dividend_less_div_times [OF assms(1), of t] by (auto simp: k_def intro: le_SucI)
  then have w: "wait_tic (clock J) (word_of_nat k + 1) (t + 1) = Some (Suc k * J + 1)"
    using wait_tic_clock assms(1) by blast
  define x where "x = (nat n + 1) div J"
  have d: "(Suc k * J + 1 + nat n) div J = Suc k + x"
    using assms(1) div_mult_self1 [of J "nat n + 1" "Suc k"] by (simp add: x_def ac_simps)
  have "nat n < 2147483648" using assms by (simp add: nat_less_iff)
  then have x: "x < 2 ^ 32" using div_le_dividend [of "nat n + 1" J] by (simp add: x_def del: div_le_dividend)
  have "(word_of_nat (Suc k + x) :: u32) - (word_of_nat k + 1) = word_of_nat x" by simp
  moreover have "of_u32 (word_of_nat x) = 0 \<longleftrightarrow> x = 0"
    using x by (auto simp: of_u32_def signed_eq_0_iff word_of_nat_eq_0_iff dest: nat_dvd_not_less)
  moreover have "x = 0 \<longleftrightarrow> n + 1 < int J" using assms by (auto simp: x_def div_eq_0_iff)
  ultimately show ?thesis
    using w d by (auto simp: verify_lpj_def k_def [symmetric] Let_def)
qed

section \<open>The calibration is exact\<close>

lemma lpj_grow_clock:
  assumes "0 < J" "m \<le> M" "M \<le> 30" "int J \<le> 2 ^ M + 1"
  shows "\<exists>q t'. lpj_grow (clock J) (2 ^ m) (2 ^ m) t = Some (2 ^ q, 2 ^ q, t') \<and> m \<le> q \<and> q \<le> 30 \<and>
    int J \<le> 2 ^ q + 1 \<and> (m < q \<longrightarrow> 2 ^ (q - 1) + 1 < int J)"
  using assms(2)
proof (induction "M - m" arbitrary: m t)
  case 0
  then have m: "m = M" by simp
  have "(2 :: int) ^ m < 2147483648" using power_increasing [of m 30 "2 :: int"] assms(3) m by simp
  from verify_clock [OF assms(1) _ this, of t] obtain r t' where
    "verify_lpj (clock J) (2 ^ m) t = Some (r, t')" "r = 0 \<longleftrightarrow> 2 ^ m + 1 < int J" by auto
  then show ?case
    using m assms(3,4) by (intro exI [of _ m] exI [of _ t']) (subst lpj_grow.simps, simp)
next
  case (Suc n)
  have b: "(2 :: int) ^ m \<le> 2 ^ 29" using Suc assms(3) by (intro power_increasing) auto
  then have "(2 :: int) ^ m < 2147483648" by simp
  from verify_clock [OF assms(1) _ this, of t] obtain r t' where
    v: "verify_lpj (clock J) (2 ^ m) t = Some (r, t')" "r = 0 \<longleftrightarrow> 2 ^ m + 1 < int J" by auto
  have a: "add32 (2 ^ m) (2 ^ m) = 2 ^ Suc m" "mul32 (2 ^ m) 2 = 2 ^ Suc m"
    using b zero_le_power [of "2 :: int" m] by (simp_all add: c_arith del: zero_le_power)
  show ?case
  proof (cases "r = 0")
    case True
    obtain q t'' where "lpj_grow (clock J) (2 ^ Suc m) (2 ^ Suc m) t' = Some (2 ^ q, 2 ^ q, t'')" "Suc m \<le> q"
      "q \<le> 30" "int J \<le> 2 ^ q + 1" "Suc m < q \<longrightarrow> 2 ^ (q - 1) + 1 < int J"
    proof -
      have "n = M - Suc m" "Suc m \<le> M" using Suc.hyps(2) by linarith+
      then show thesis using Suc.hyps(1) [of "Suc m" t'] that by blast
    qed
    moreover have "2 ^ (q - 1) + 1 < int J" if "m < q"
      using calculation(5) v(2) True that by (cases "Suc m = q") auto
    ultimately show ?thesis
      using v True a by (intro exI [of _ q] exI [of _ t'']) (subst lpj_grow.simps, simp)
  next
    case False
    then show ?thesis
      using v Suc.hyps(2) assms(3) by (intro exI [of _ m] exI [of _ t']) (subst lpj_grow.simps, simp)
  qed
qed

lemma lpj_bisect_clock:
  "0 < J \<Longrightarrow> 0 \<le> lpj \<Longrightarrow> lpj + 2 ^ Suc i \<le> 2147483648 \<Longrightarrow> lpj + 1 < int J \<Longrightarrow> int J \<le> lpj + 2 ^ Suc i + 1 \<Longrightarrow>
    \<exists>t'. lpj_bisect (clock J) lpj (2 ^ i) t = Some (int J - 2, t')"
proof (induction i arbitrary: lpj t)
  case 0
  obtain r t' where "verify_lpj (clock J) (lpj + 1) t = Some (r, t')" "r = 0 \<longleftrightarrow> lpj + 1 + 1 < int J"
    using verify_clock [of J "lpj + 1" t] 0 by auto
  moreover have "add32 lpj 1 = lpj + 1" using 0 by (simp add: c_arith)
  ultimately show ?case
    using 0 by (auto simp: lpj_bisect.simps [of _ _ 1] lpj_bisect.simps [of _ _ 0] signed_divide_int_def)
next
  case (Suc i)
  obtain r t' where v: "verify_lpj (clock J) (lpj + 2 ^ Suc i) t = Some (r, t')" "r = 0 \<longleftrightarrow> lpj + 2 ^ Suc i + 1 < int J"
    using verify_clock [of J "lpj + 2 ^ Suc i" t] Suc.prems by auto
  have a: "add32 lpj (2 ^ Suc i) = lpj + 2 ^ Suc i" 
    using Suc.prems(2,3) zero_less_power [of "2 :: int" i] by (simp add: c_arith del: zero_less_power)
  have d: "(2 :: int) ^ Suc i sdiv 2 = 2 ^ i" by (simp add: signed_divide_int_def)
  have "\<exists>t''. lpj_bisect (clock J) (if r = 0 then lpj + 2 ^ Suc i else lpj) (2 ^ i) t' = Some (int J - 2, t'')"
    using Suc.IH [of "if r = 0 then lpj + 2 ^ Suc i else lpj" t'] Suc.prems v(2) by (cases "r = 0") auto
  then show ?case
    using v(1) unfolding lpj_bisect.simps [of _ lpj "2 ^ Suc i"] a d by simp
qed

text \<open>
  C32. The calibration of the delay loop terminates and is exact: on a clock with \<open>J\<close> rounds of the loop in a
  tick, for any \<open>J\<close> from 514 to 2^30, \<open>usleep_init\<close> returns the largest count whose delay, started
  at the beginning of a tick, is over before the next one.
\<close>

theorem usleep_init_exact:
  assumes "514 \<le> J" "J \<le> 2 ^ 30"
  shows "\<exists>lpj t'. usleep_init (clock J) t = Some (lpj, t') \<and>
    (\<forall>n t. 0 \<le> n \<longrightarrow> n < 2 ^ 31 \<longrightarrow> (\<exists>r t'. verify_lpj (clock J) n t = Some (r, t') \<and> (r = 0 \<longleftrightarrow> n \<le> lpj)))"
proof -
  have J: "0 < J" "int J \<le> 2 ^ 30" using assms by auto
  obtain q t' where g: "lpj_grow (clock J) (2 ^ 10) (2 ^ 10) t = Some (2 ^ q, 2 ^ q, t')" "10 \<le> q" "q \<le> 30"
    "int J \<le> 2 ^ q + 1" "10 < q \<longrightarrow> 2 ^ (q - 1) + 1 < int J"
    using lpj_grow_clock [OF J(1), of 10 30 t] J(2) by auto
  define i where "i = q - 2"
  have i: "q = Suc (Suc i)" using g(2) by (simp add: i_def)
  have d: "(2 :: int) ^ q sdiv 2 = 2 ^ Suc i" "(2 :: int) ^ q sdiv 4 = 2 ^ i"
    by (simp_all add: i signed_divide_int_def)
  have "(2 :: int) ^ Suc i + 1 < int J" using g(2,5) i assms(1) by (cases "q = 10") auto
  moreover have "(2 :: int) ^ q \<le> 2 ^ 30" using g(3) by (intro power_increasing) auto
  ultimately obtain t'' where "lpj_bisect (clock J) (2 ^ Suc i) (2 ^ i) t' = Some (int J - 2, t'')"
    using lpj_bisect_clock [of J "2 ^ Suc i" i t'] J(1) g(4) i by auto
  then have "usleep_init (clock J) t = Some (int J - 2, t'')"
    using g(1) d by (simp add: usleep_init_def)
  then show ?thesis using verify_clock [OF J(1)] by (intro exI [of _ "int J - 2"] exI [of _ t'']) force
qed

lemma usleep_init_exact_witness:
  "\<exists>lpj t'. usleep_init (clock 20802) 7 = Some (lpj, t') \<and>
    (\<forall>n\<in>{0, 20800, 20801}. \<exists>r t'. verify_lpj (clock 20802) n 5 = Some (r, t') \<and> (r = 0 \<longleftrightarrow> n \<le> lpj))"
  using usleep_init_exact [of 20802 7] by fastforce

section \<open>Delays\<close>

lemma time_before_word: "d < 2 ^ 31 \<Longrightarrow> time_before (word_of_nat x) (word_of_nat (x + d)) \<longleftrightarrow> 0 < d"
  using time_after_wraps [of d "word_of_nat x"] by (simp add: time_before_def)

text \<open>
  The wait for a number of tics is right across the wrap of the counter, on any counter that shows a
  time \<open>tm\<close> in units of \<open>J\<close> and whose read is a step \<open>tick\<close> of this time.
\<close>

locale ticking =
  fixes io :: "'s timer_io" and tick :: "'s \<Rightarrow> 's" and tm :: "'s \<Rightarrow> nat" and J :: nat
  assumes J: "0 < J"
    and read: "rd_TVR io s = (word_of_nat (tm s div J), tick s)"
    and tick: "tm (tick s) = Suc (tm s)"
begin

lemma wait_ends:
  assumes "e < tm s div J + 2 ^ 31" "tm s \<le> e * J"
  shows "wait_until io (word_of_nat e) s = Some ((tick ^^ (e * J + 1 - tm s)) s)"
  using assms
proof (induction "e * J - tm s" arbitrary: s)
  case 0
  then have "tm s = e * J" by simp
  then have "tm s div J = e" "e * J + 1 - tm s = 1" using J by simp_all
  then show ?case using time_before_word [of 0 e] by (subst wait_until.simps) (simp add: timer_get_tics_def read)
next
  case (Suc n)
  define x where "x = tm s div J"
  have "x < e" using Suc J by (simp add: x_def div_less_iff_less_mult)
  moreover have "e < x + 2 ^ 31" using Suc.prems by (simp add: x_def)
  ultimately have b: "time_before (word_of_nat x) (word_of_nat e)"
    using time_before_word [of "e - x" x] by simp
  have "e < tm (tick s) div J + 2 ^ 31"
    using Suc.prems div_le_mono [OF le_SucI [OF order_refl], of "tm s" J] unfolding tick by linarith
  then have "wait_until io (word_of_nat e) (tick s) = Some ((tick ^^ (e * J + 1 - tm (tick s))) (tick s))"
    using Suc by (intro Suc.hyps(1)) (simp_all add: tick)
  moreover have "e * J + 1 - tm s = Suc (e * J + 1 - tm (tick s))" using Suc by (simp add: tick)
  ultimately show ?case
    using b by (subst wait_until.simps) (simp add: timer_get_tics_def read x_def funpow_Suc_right del: funpow.simps)
qed

lemma delay_ends:
  assumes "unat tics < 2 ^ 31" "0 < tics"
  shows "timer_delay io tics s = Some ((tick ^^ ((tm s div J + unat tics) * J + 1 - tm s)) s)"
proof -
  define e where "e = tm s div J + unat tics"
  have "0 < unat tics" using assms(2) by (simp add: unat_gt_0 word_gt_0)
  then have "tm s < e * J"
    using dividend_less_div_times [OF J, of "tm s"] mult_le_mono1 [of "Suc (tm s div J)" e J] by (simp add: e_def)
  moreover have "e < tm (tick s) div J + 2 ^ 31"
    using assms(1) div_le_mono [OF le_SucI [OF order_refl], of "tm s" J] unfolding e_def tick by linarith
  ultimately have "wait_until io (word_of_nat e) (tick s) = Some ((tick ^^ (e * J + 1 - tm (tick s))) (tick s))"
    by (intro wait_ends) (simp_all add: tick)
  moreover have "e * J + 1 - tm s = Suc (e * J + 1 - tm (tick s))" using \<open>tm s < e * J\<close> by (simp add: tick)
  ultimately show ?thesis
    by (simp add: timer_delay_def timer_get_tics_def read e_def funpow_Suc_right del: funpow.simps)
qed

end

lemma clock_ticking: "0 < J \<Longrightarrow> ticking (clock J) Suc id J"
  by unfold_locales (auto simp: clock_def)

interpretation millisecond: ticking "clock 20802" Suc id 20802
  by (rule clock_ticking) simp

text \<open>The rounds of \<open>usleep\<close>, up to the 214748 for which nothing overflows.\<close>

lemma usleep_steps_clock:
  assumes "0 \<le> lpj"
  shows "usleep_steps (clock J) (10 * lpj) usec t = (u, t') \<Longrightarrow>
    u \<le> 10000 \<and> t' + nat (uint u * lpj div 1000) = t + nat (uint usec * lpj div 1000)"
proof (induction "clock J" "10 * lpj" usec t rule: usleep_steps.induct)
  case (1 usec t)
  show ?case
  proof (cases "10000 < usec")
    case True
    have u: "uint (usec - 10000) = uint usec - 10000"
      using True by (simp add: uint_sub_if' word_less_def)
    have "uint usec * lpj div 1000 = (uint (usec - 10000) * lpj + 10 * lpj * 1000) div 1000"
      by (simp add: u algebra_simps)
    also have "\<dots> = uint (usec - 10000) * lpj div 1000 + 10 * lpj" by simp
    finally show ?thesis
      using 1 True assms by (simp add: usleep_steps.simps [of _ _ usec] nat_add_distrib pos_imp_zdiv_nonneg_iff)
  next
    case False
    then show ?thesis using 1(2) by (simp add: usleep_steps.simps [of _ _ usec])
  qed
qed

lemma usleep_rounds:
  assumes "0 \<le> lpj" "lpj \<le> 214748"
  shows "usleep (clock J) lpj usec t = t + nat (uint usec * lpj div 1000)"
proof -
  have j: "(1000000 :: int) sdiv TICS_PER_SECOND = 1000" by (simp add: signed_divide_int_def)
  have c: "mul32 lpj 10000 sdiv usec_per_jiffy = 10 * lpj"
    using assms by (simp add: c_arith j sdiv_pos)
  obtain u t' where s: "usleep_steps (clock J) (10 * lpj) usec t = (u, t')" by fastforce
  note s' = usleep_steps_clock [OF assms(1) s]
  have u: "uint u \<le> 10000" using s' by (simp add: word_le_def)
  have m: "uint u * lpj \<le> 2147480000" using mult_mono [OF u assms(2)] assms by simp
  have "of_u32 (u * to_u32 lpj div to_u32 usec_per_jiffy) = uint u * lpj div 1000"
  proof -
    have l: "uint (to_u32 lpj) = lpj" "uint (to_u32 usec_per_jiffy) = 1000"
      using assms by (simp_all add: to_u32_def uint_word_of_int j)
    have "uint (u * to_u32 lpj) = uint u * lpj"
      using m assms by (simp add: uint_word_ariths l)
    then have "uint (u * to_u32 lpj div to_u32 usec_per_jiffy) = uint u * lpj div 1000"
      by (simp only: uint_div l)
    moreover have "uint u * lpj div 1000 < 2 ^ 31" using m by simp
    moreover have "0 \<le> uint u * lpj div 1000" using assms by (simp add: pos_imp_zdiv_nonneg_iff)
    ultimately show ?thesis by (simp add: of_u32_def sint_uint s32_def [symmetric])
  qed
  then show ?thesis using s s' c by (simp add: usleep_def)
qed

end
