(* ===== verification/Wrc_main.thy ===== *)
theory Wrc_main
  imports Wrc_ptp Softpll_Aux Usleep
begin

text \<open>
  The main loop of the node, \<open>wrc_main.c\<close>, and what it does to the SoftPLL while the interrupt runs it. The
  parts called by the loop are models of their own; here the loop is the list of their calls. The
  functions of the SoftPLL are taken as not interrupted themselves: an interrupt comes between two of them.
\<close>

section \<open>The code\<close>

abbreviation (input) LINK_WENT_UP :: int where "LINK_WENT_UP \<equiv> 1"
abbreviation (input) LINK_WENT_DOWN :: int where "LINK_WENT_DOWN \<equiv> 2"
abbreviation (input) LINK_UP :: int where "LINK_UP \<equiv> 3"
abbreviation (input) LINK_DOWN :: int where "LINK_DOWN \<equiv> 4"

text \<open>The result, the write to the LED if there is one, and the new \<open>prev_link_state\<close>, which starts as -1.\<close>

definition wrc_check_link :: "int \<Rightarrow> int \<Rightarrow> int \<times> bool option \<times> int" where
  "wrc_check_link link_state prev_link_state =
    (if prev_link_state = 0 \<and> link_state \<noteq> 0 then (LINK_WENT_UP, Some True, link_state)
     else if prev_link_state \<noteq> 0 \<and> link_state = 0 then (LINK_WENT_DOWN, Some False, link_state)
     else (if link_state \<noteq> 0 then LINK_UP else LINK_DOWN, None, link_state))"

abbreviation (input) UI_SHELL_MODE :: int where "UI_SHELL_MODE \<equiv> 0"
abbreviation (input) UI_GUI_MODE :: int where "UI_GUI_MODE \<equiv> 1"
abbreviation (input) UI_STAT_MODE :: int where "UI_STAT_MODE \<equiv> 2"

datatype ui_call = UI_gui | UI_stat | UI_shell_init | UI_shell

text \<open>The calls and the new mode; \<open>key\<close> is what \<open>uart_read_byte\<close> returns if it is called.\<close>

definition ui_update :: "int \<Rightarrow> int \<Rightarrow> int \<Rightarrow> ui_call list \<times> int" where
  "ui_update key wrc_ui_refperiod wrc_ui_mode =
    (if wrc_ui_mode = UI_GUI_MODE then
       if key = 27 \<or> wrc_ui_refperiod = 0 then ([UI_gui, UI_shell_init], UI_SHELL_MODE) else ([UI_gui], wrc_ui_mode)
     else if wrc_ui_mode = UI_STAT_MODE then
       if key = 27 \<or> wrc_ui_refperiod = 0 then ([UI_stat, UI_shell_init], UI_SHELL_MODE) else ([UI_stat], wrc_ui_mode)
     else ([UI_shell], wrc_ui_mode))"

abbreviation (input) ENDRAM_MAGIC :: u32 where "ENDRAM_MAGIC \<equiv> 0xbadc0ffe"

partial_function (option) check_stack :: "'s timer_io \<Rightarrow> ('s \<Rightarrow> u32) \<Rightarrow> 's \<Rightarrow> 's option" where
  "check_stack io endram s =
    (if endram s \<noteq> ENDRAM_MAGIC then do { s \<leftarrow> timer_delay_ms io 1000 s; check_stack io endram s } else Some s)"

definition wrc_debug_prints :: "int \<Rightarrow> int \<Rightarrow> bool" where
  "wrc_debug_prints wrc_ui_mode subsys \<longleftrightarrow> wrc_ui_mode = 0 \<and> subsys AND 32 \<noteq> 0"

text \<open>One round of the loop: the calls, in order.\<close>

datatype main_call =
    M_need_ip | M_update_rx_queues | M_ipv4_poll | M_arp_poll | M_free_running | M_pps_off
  | M_ui_update | M_ptp_update | M_update_aux_clocks | M_check_stack

definition main_round :: "bool \<Rightarrow> int \<Rightarrow> int \<Rightarrow> main_call list" where
  "main_round etherbone mode l_status =
    (if etherbone \<and> l_status = LINK_WENT_UP then [M_need_ip]
     else if l_status = LINK_UP then M_update_rx_queues # (if etherbone then [M_ipv4_poll, M_arp_poll] else [])
     else if l_status = LINK_WENT_DOWN \<and> mode = WRC_MODE_SLAVE then [M_free_running, M_pps_off]
     else []) @ [M_ui_update, M_ptp_update, M_update_aux_clocks, M_check_stack]"

text \<open>
  The fallback address of \<open>wrc_initialize\<close> and the first three bytes it starts with; \<open>get\<close> is \<open>get_persistent_mac\<close>.
\<close>

definition initial_mac :: "(u8 list \<Rightarrow> int \<times> u8 list) \<Rightarrow> u8 list \<Rightarrow> u8 list" where
  "initial_mac get rest =
    (let (rv, mac) = get ([0x08, 0x00, 0x30] @ rest)
     in if rv = - 1 then [0x11, 0x22, 0x33, 0x44, 0x55, 0x66] else mac)"

section \<open>The link\<close>

text \<open>
  A change between two rounds is seen exactly once; but at the first round the previous state is
  neither, so a link that is up from the start never went up, and the LED stays off.
\<close>

lemma check_link_change:
  "prev \<in> {0, 1} \<Longrightarrow> link \<in> {0, 1} \<Longrightarrow> wrc_check_link link prev = (rv, led, p) \<Longrightarrow>
    p = link \<and> (led \<noteq> None \<longleftrightarrow> link \<noteq> prev) \<and> (led = Some True \<longleftrightarrow> rv = LINK_WENT_UP) \<and>
    (led = Some False \<longleftrightarrow> rv = LINK_WENT_DOWN) \<and> (rv = LINK_UP \<longleftrightarrow> link = 1 \<and> prev = 1)"
  by (auto simp: wrc_check_link_def)

lemma first_link_up_unseen: "wrc_check_link 1 (- 1) = (LINK_UP, None, 1)"
  by (simp add: wrc_check_link_def)

section \<open>The SoftPLL under the main loop\<close>










section \<open>The operations keep the invariant\<close>


















end
