(* ===== verification/W1.thy ===== *)
theory W1
  imports Bytes
begin

text \<open>
  The 1-wire bus: \<open>dev/w1.c\<close> (bytes, selection of a device, the search for all devices) and
  \<open>dev/w1-hw.c\<close> (reset and bit slots with the SockitOWM controller). The operations of the
  controller are the interface \<open>w1_ops\<close>, as in the source; a polling loop that does not
  end is \<open>None\<close>. \<open>usleep\<close> only spends time. A device is its 64-bit ROM code; the pointer from
  a device back to its bus is left out, as there is one bus.
\<close>

section \<open>The controller\<close>

text \<open>The registers of the controller; reading the control register may let time pass.\<close>

record 's owm =
  wr_CTL :: "u32 \<Rightarrow> 's \<Rightarrow> 's"
  rd_CTL :: "'s \<Rightarrow> u32 \<times> 's"
  wr_CDR :: "u32 \<Rightarrow> 's \<Rightarrow> 's"

abbreviation (input) OWM_CTL_DAT :: u32 where "OWM_CTL_DAT \<equiv> 0x1"
abbreviation (input) OWM_CTL_RST :: u32 where "OWM_CTL_RST \<equiv> 0x2"
abbreviation (input) OWM_CTL_CYC :: u32 where "OWM_CTL_CYC \<equiv> 0x8"

partial_function (option) wait_cycle :: "'s owm \<Rightarrow> 's \<Rightarrow> (u32 \<times> 's) option" where
  "wait_cycle io s =
    (case rd_CTL io s of (reg, s) \<Rightarrow>
      if reg AND OWM_CTL_CYC \<noteq> 0 then wait_cycle io s else Some (reg, s))"

text \<open>The operations of a bus with the port number \<open>detail\<close>.\<close>

record 's w1_ops =
  op_reset :: "'s \<Rightarrow> (int \<times> 's) option"
  op_read_bit :: "'s \<Rightarrow> (int \<times> 's) option"
  op_write_bit :: "int \<Rightarrow> 's \<Rightarrow> 's option"

definition w1_reset :: "'s owm \<Rightarrow> u32 \<Rightarrow> 's \<Rightarrow> (int \<times> 's) option" where
  "w1_reset io detail s =
    do {
      (reg, s) \<leftarrow> wait_cycle io (wr_CTL io (push_bit 8 detail OR OWM_CTL_CYC OR OWM_CTL_RST) s);
      Some (if reg AND OWM_CTL_DAT \<noteq> 0 then 0 else 1, s)
    }"

definition w1_read_bit :: "'s owm \<Rightarrow> u32 \<Rightarrow> 's \<Rightarrow> (int \<times> 's) option" where
  "w1_read_bit io detail s =
    do {
      (reg, s) \<leftarrow> wait_cycle io (wr_CTL io (push_bit 8 detail OR OWM_CTL_CYC OR OWM_CTL_DAT) s);
      Some (if reg AND OWM_CTL_DAT \<noteq> 0 then 1 else 0, s)
    }"

definition w1_write_bit :: "'s owm \<Rightarrow> u32 \<Rightarrow> int \<Rightarrow> 's \<Rightarrow> 's option" where
  "w1_write_bit io detail b s =
    do {
      (_, s) \<leftarrow> wait_cycle io
        (wr_CTL io (push_bit 8 detail OR OWM_CTL_CYC OR (if b \<noteq> 0 then OWM_CTL_DAT else 0)) s);
      Some s
    }"

definition wrpc_w1_ops :: "'s owm \<Rightarrow> u32 \<Rightarrow> 's w1_ops" where
  "wrpc_w1_ops io detail =
    \<lparr>op_reset = w1_reset io detail, op_read_bit = w1_read_bit io detail,
     op_write_bit = w1_write_bit io detail\<rparr>"

abbreviation (input) CPU_CLOCK :: u64 where "CPU_CLOCK \<equiv> 62500000"

definition CLK_DIV_NOR :: u64 where "CLK_DIV_NOR = CPU_CLOCK div 200000 - 1"
definition CLK_DIV_OVD :: u64 where "CLK_DIV_OVD = CPU_CLOCK div 1000000 - 1"

definition wrpc_w1_init :: "'s owm \<Rightarrow> 's \<Rightarrow> 's" where
  "wrpc_w1_init io s =
    wr_CDR io (ucast ((CLK_DIV_NOR AND 0xffff) OR (push_bit 16 CLK_DIV_OVD AND 0xffff0000))) s"

section \<open>Bytes\<close>

text \<open>The loops run with the number of bits that are left.\<close>

fun w1_write_bits :: "'s w1_ops \<Rightarrow> int \<Rightarrow> nat \<Rightarrow> 's \<Rightarrow> 's option" where
  "w1_write_bits ops byte 0 s = Some s"
| "w1_write_bits ops byte (Suc n) s =
    do {
      s \<leftarrow> op_write_bit ops (if byte AND push_bit (7 - n) 1 \<noteq> 0 then 1 else 0) s;
      w1_write_bits ops byte n s
    }"

definition w1_write_byte :: "'s w1_ops \<Rightarrow> int \<Rightarrow> 's \<Rightarrow> 's option" where
  "w1_write_byte ops byte s = w1_write_bits ops byte 8 s"

fun w1_read_bits :: "'s w1_ops \<Rightarrow> nat \<Rightarrow> int \<Rightarrow> 's \<Rightarrow> (int \<times> 's) option" where
  "w1_read_bits ops 0 res s = Some (res, s)"
| "w1_read_bits ops (Suc n) res s =
    do {
      (b, s) \<leftarrow> op_read_bit ops s;
      w1_read_bits ops n (res OR (if b \<noteq> 0 then push_bit (7 - n) 1 else 0)) s
    }"

definition w1_read_byte :: "'s w1_ops \<Rightarrow> 's \<Rightarrow> (int \<times> 's) option" where
  "w1_read_byte ops s = w1_read_bits ops 8 0 s"

section \<open>The search\<close>

datatype bits = B_0 | B_1 | B_BOTH

definition get_dibit :: "'s w1_ops \<Rightarrow> int \<Rightarrow> 's \<Rightarrow> (bits \<times> 's) option" where
  "get_dibit ops select s =
    do {
      (a, s) \<leftarrow> op_read_bit ops s;
      (b, s) \<leftarrow> op_read_bit ops s;
      if a \<noteq> b then do {
        s \<leftarrow> op_write_bit ops a s;
        Some (if a \<noteq> 0 then B_1 else B_0, s)
      } else do {
        s \<leftarrow> op_write_bit ops select s;
        Some (B_BOTH, s)
      }
    }"

text \<open>\<open>select\<close> is an \<open>int\<close>: the 64-bit value is cut to 32 bits.\<close>

definition rom_select :: "u64 \<Rightarrow> u64 \<Rightarrow> int" where
  "rom_select rom msk = sint (ucast (rom AND msk) :: u32)"

fun w1_scan_bits :: "'s w1_ops \<Rightarrow> nat \<Rightarrow> u64 \<Rightarrow> u64 \<Rightarrow> 's \<Rightarrow> (u64 \<times> u64 \<times> 's) option" where
  "w1_scan_bits ops 0 rom cmask s = Some (rom, cmask, s)"
| "w1_scan_bits ops (Suc n) rom cmask s =
    (let msk = push_bit (63 - n) 1; select = rom_select rom msk
     in do {
       (b, s) \<leftarrow> get_dibit ops select s;
       (case b of
          B_1 \<Rightarrow> w1_scan_bits ops n (rom OR msk) cmask s
        | B_0 \<Rightarrow> w1_scan_bits ops n rom cmask s
        | B_BOTH \<Rightarrow> w1_scan_bits ops n rom (if select = 0 then cmask OR msk else cmask) s)
     })"

abbreviation (input) W1_CMD_SEARCH_ROM :: int where "W1_CMD_SEARCH_ROM \<equiv> 0xf0"
abbreviation (input) W1_CMD_MATCH_ROM :: int where "W1_CMD_MATCH_ROM \<equiv> 0x55"

definition w1_scan_one :: "'s w1_ops \<Rightarrow> u64 \<Rightarrow> u64 \<Rightarrow> 's \<Rightarrow> (int \<times> u64 \<times> u64 \<times> 's) option" where
  "w1_scan_one ops rom cmask s =
    do {
      (r, s) \<leftarrow> op_reset ops s;
      if r \<noteq> 1 then Some (- 1, rom, cmask, s)
      else do {
        s \<leftarrow> w1_write_byte ops W1_CMD_SEARCH_ROM s;
        (rom, cmask, s) \<leftarrow> w1_scan_bits ops 64 rom 0 s;
        Some (0, rom, cmask, s)
      }
    }"

text \<open>
  The loop that looks for the last conflict. The compiler for the LM32 shifts the unsigned
  \<open>mask\<close> as a signed number, so both shifts are modelled.
\<close>

definition shr1 :: "bool \<Rightarrow> u64 \<Rightarrow> u64" where
  "shr1 signed_shift msk = (if signed_shift then signed_drop_bit 1 msk else drop_bit 1 msk)"

definition fix_mask :: "u64 \<Rightarrow> u64" where
  "fix_mask msk = (if msk AND push_bit 62 1 \<noteq> 0 then push_bit 62 1 else msk)"

lemma fix_mask_alt: "fix_mask msk = (if bit msk 62 then push_bit 62 1 else msk)"
  by (simp add: fix_mask_def bit_iff_and_push_bit_not_eq_0)

lemma bit_shr1: "bit (shr1 sg msk) n \<longleftrightarrow> bit msk (if sg \<and> n = 63 then 63 else Suc n)"
  by (auto simp: shr1_def bit_signed_drop_bit_iff bit_drop_bit_eq dest: bit_imp_le_length)

lemma fix_shr1: "fix_mask (shr1 sg msk) = (if bit msk 63 then push_bit 62 1 else drop_bit 1 msk)"
proof (cases "bit msk 63")
  case False
  have "bit (shr1 sg msk) n \<longleftrightarrow> bit (drop_bit 1 msk) n" for n
    using False by (auto simp: bit_shr1 bit_drop_bit_eq dest: bit_imp_le_length)
  then have "shr1 sg msk = drop_bit 1 msk" by (intro bit_eqI) auto
  then show ?thesis using False by (simp add: fix_mask_alt bit_drop_bit_eq)
qed (simp add: fix_mask_alt bit_shr1)

lemma fix_mask_decreases:
  assumes "msk \<noteq> 0"
  shows "unat (fix_mask (shr1 sg (fix_mask msk))) < unat (fix_mask msk)"
proof (cases "bit (fix_mask msk) 63")
  case True
  then have m: "fix_mask msk = msk" "bit msk 63" by (auto simp: fix_mask_alt bit_simps split: if_splits)
  have "2 ^ 63 \<le> unat msk"
  proof (rule ccontr)
    assume "\<not> 2 ^ 63 \<le> unat msk"
    then have "\<not> bit (unat msk) 63" by (simp add: bit_iff_odd)
    then show False using m(2) by (simp add: bit_unsigned_iff)
  qed
  then show ?thesis using True m by (simp add: fix_shr1)
next
  case False
  have "fix_mask msk \<noteq> 0" using assms by (auto simp: fix_mask_alt)
  then have "0 < unat (fix_mask msk)" by (simp add: unat_gt_0)
  then show ?thesis using False by (simp add: fix_shr1 drop_bit_Suc unat_div)
qed

function conflict_loop :: "bool \<Rightarrow> u64 \<Rightarrow> u64 \<Rightarrow> u64 \<Rightarrow> u64 \<times> u64" where
  "conflict_loop sg cmask msk rom =
    (if msk = 0 then (0, rom)
     else let msk = fix_mask msk
       in if cmask AND msk \<noteq> 0 then (msk, rom)
          else conflict_loop sg cmask (shr1 sg msk) (rom AND NOT msk))"
  by auto
termination
  by (relation "measure (\<lambda>(sg, cm, m, rom). unat (fix_mask m))") (auto simp: fix_mask_decreases)

declare conflict_loop.simps [simp del]

text \<open>
  \<open>w1_scan_bus\<close>, with the number of devices that can still be stored; \<open>devs\<close> are the 8 ROM codes
  of the bus. The test for a missing \<open>reset\<close> is left out: the operations are constant.
\<close>

abbreviation (input) W1_MAX_DEVICES :: nat where "W1_MAX_DEVICES \<equiv> 8"

fun scan_devs :: "bool \<Rightarrow> 's w1_ops \<Rightarrow> nat \<Rightarrow> u64 list \<Rightarrow> u64 \<Rightarrow> 's \<Rightarrow> (int \<times> u64 list \<times> 's) option" where
  "scan_devs sg ops 0 devs cmask s = Some (int W1_MAX_DEVICES, devs, s)"
| "scan_devs sg ops (Suc n) devs cmask s =
    (let i = W1_MAX_DEVICES - 1 - n;
         (msk, rom) = (if i \<noteq> 0 then conflict_loop sg cmask (push_bit 63 1) (devs ! (i - 1)) else (0, 0))
     in if i \<noteq> 0 \<and> msk = 0 then Some (int i, devs[i := rom], s)
        else do {
          (rv, rom, cmask, s) \<leftarrow> w1_scan_one ops (rom OR msk) (cmask AND NOT msk) s;
          if rv \<noteq> 0 then Some (int i, devs[i := rom], s)
          else scan_devs sg ops n (devs[i := rom]) cmask s
        })"

definition w1_scan_bus :: "bool \<Rightarrow> 's w1_ops \<Rightarrow> 's \<Rightarrow> (int \<times> u64 list \<times> 's) option" where
  "w1_scan_bus sg ops s = scan_devs sg ops W1_MAX_DEVICES (replicate W1_MAX_DEVICES 0) 0 s"

text \<open>The bytes are passed as \<open>int\<close>, uncut.\<close>

fun match_bytes :: "'s w1_ops \<Rightarrow> u64 \<Rightarrow> nat \<Rightarrow> 's \<Rightarrow> 's option" where
  "match_bytes ops rom 0 s = Some s"
| "match_bytes ops rom (Suc n) s =
    do {
      s \<leftarrow> w1_write_byte ops (sint (ucast (drop_bit (8 * (7 - n)) rom) :: u32)) s;
      match_bytes ops rom n s
    }"

definition w1_match_rom :: "'s w1_ops \<Rightarrow> u64 \<Rightarrow> 's \<Rightarrow> 's option" where
  "w1_match_rom ops rom s =
    do {
      (_, s) \<leftarrow> op_reset ops s;
      s \<leftarrow> w1_write_byte ops W1_CMD_MATCH_ROM s;
      match_bytes ops rom 8 s
    }"

section \<open>The last conflict\<close>

text \<open>Both shifts look at the bits of the mask from the top down.\<close>

fun conflict_at :: "u64 \<Rightarrow> nat \<Rightarrow> u64 \<Rightarrow> u64 \<times> u64" where
  "conflict_at cmask 0 rom = (0, rom)"
| "conflict_at cmask (Suc k) rom =
    (if bit cmask k then (push_bit k 1, rom) else conflict_at cmask k (unset_bit k rom))"

lemma conflict_loop_fix: "conflict_loop sg cmask (fix_mask msk) rom = conflict_loop sg cmask msk rom"
proof -
  have "fix_mask (fix_mask msk) = fix_mask msk" "fix_mask msk = 0 \<longleftrightarrow> msk = 0"
    by (auto simp: fix_mask_alt bit_simps)
  then show ?thesis
    using conflict_loop.simps [of sg cmask "fix_mask msk" rom] conflict_loop.simps [of sg cmask msk rom] by simp
qed

lemma conflict_loop_at:
  "k \<le> 63 \<Longrightarrow> conflict_loop sg cmask (push_bit k 1) rom = conflict_at cmask (Suc k) rom"
proof (induction k arbitrary: rom)
  case 0
  have "shr1 sg 1 = 0" by (intro bit_eqI) (auto simp: bit_shr1 bit_simps)
  then have "conflict_loop sg cmask (shr1 sg 1) r = (0, r)" for r by (simp add: conflict_loop.simps)
  then show ?case
    by (simp add: conflict_loop.simps [of sg cmask 1] fix_mask_alt bit_simps and_one_eq odd_iff_mod_2_eq_one
      bit_0 unset_bit_eq_and_not)
next
  case (Suc k)
  have f: "fix_mask (push_bit (Suc k) 1) = push_bit (Suc k) 1"
    using Suc.prems by (auto simp: fix_mask_alt bit_simps)
  have "fix_mask (shr1 sg (push_bit (Suc k) 1)) = push_bit k 1"
    using Suc.prems unfolding fix_shr1 by (auto simp: bit_simps intro!: bit_eqI)
  then have "conflict_loop sg cmask (shr1 sg (push_bit (Suc k) 1)) r = conflict_at cmask (Suc k) r" for r
    using Suc.IH [of r] Suc.prems conflict_loop_fix [of sg cmask "shr1 sg (push_bit (Suc k) 1)" r] by simp
  moreover have nz: "push_bit (Suc k) (1 :: u64) \<noteq> 0"
    using Suc.prems by (simp add: push_bit_eq_mult exp_eq_zero_iff flip: power_Suc)
  moreover have st: "conflict_loop sg cmask M r = (if bit cmask (Suc k) then (M, r)
      else conflict_loop sg cmask (shr1 sg M) (r AND NOT M))"
    if "M = push_bit (Suc k) 1" "fix_mask M = M" "M \<noteq> 0" for M r
    using that(2,3) by (subst conflict_loop.simps)
      (simp only: Let_def if_False bit_iff_and_push_bit_not_eq_0 [of cmask] that(1) [symmetric])
  ultimately show ?case
    unfolding st [OF refl f nz] by (simp only: conflict_at.simps(2) [of cmask "Suc k"] unset_bit_eq_and_not)
qed

lemma conflict_at_none:
  "(\<And>j. j < n \<Longrightarrow> \<not> bit cmask j) \<Longrightarrow>
    fst (conflict_at cmask n rom) = 0 \<and> (\<forall>i. bit (snd (conflict_at cmask n rom)) i \<longleftrightarrow> bit rom i \<and> n \<le> i)"
  by (induction n arbitrary: rom) (auto simp: bit_unset_bit_iff)

lemma conflict_at_some:
  "j < n \<Longrightarrow> bit cmask j \<Longrightarrow>
    \<exists>p rom'. conflict_at cmask n rom = (push_bit p 1, rom') \<and> j \<le> p \<and> p < n \<and> bit cmask p \<and>
      (\<forall>i. p < i \<longrightarrow> i < n \<longrightarrow> \<not> bit cmask i) \<and> (\<forall>i. bit rom' i \<longleftrightarrow> bit rom i \<and> (i \<le> p \<or> n \<le> i))"
proof (induction n arbitrary: rom)
  case (Suc n)
  show ?case
  proof (cases "bit cmask n")
    case True
    then show ?thesis using Suc.prems by (intro exI [of _ n] exI [of _ rom]) auto
  next
    case False
    then have "j < n" using Suc.prems by (metis less_SucE)
    from Suc.IH [OF this Suc.prems(2), of "unset_bit n rom"] obtain p rom'
      where p: "conflict_at cmask n (unset_bit n rom) = (push_bit p 1, rom')" "j \<le> p" "p < n" "bit cmask p"
        "\<forall>i. p < i \<longrightarrow> i < n \<longrightarrow> \<not> bit cmask i"
        "\<forall>i. bit rom' i \<longleftrightarrow> bit (unset_bit n rom) i \<and> (i \<le> p \<or> n \<le> i)" by (elim exE conjE)
    show ?thesis
      using False p by (intro exI [of _ p] exI [of _ rom']) (auto simp: bit_unset_bit_iff less_Suc_eq)
  qed
qed simp

end
