(* ===== verification/W1_Devs.thy ===== *)
theory W1_Devs
  imports W1 Board
begin

text \<open>
  The devices of the 1-wire bus: \<open>dev/w1-eeprom.c\<close> (the EEPROM, family 0x43), \<open>dev/w1-temp.c\<close> (the
  thermometers), \<open>dev/w1-shell.c\<close> (the commands for them) and the part of \<open>dev/eeprom.c\<close> that takes the MAC
  address from the codes of the bus. A buffer with its length is one list; a bus is the list of its codes.
\<close>

abbreviation (input) W1_CMDR_W_SPAD :: int where "W1_CMDR_W_SPAD \<equiv> 0x0f"
abbreviation (input) W1_CMDR_R_SPAD :: int where "W1_CMDR_R_SPAD \<equiv> 0xaa"
abbreviation (input) W1_CMDR_C_SPAD :: int where "W1_CMDR_C_SPAD \<equiv> 0x55"
abbreviation (input) W1_CMDR_R_MEMORY :: int where "W1_CMDR_R_MEMORY \<equiv> 0xf0"
abbreviation (input) W1_CMDT_CONVERT :: int where "W1_CMDT_CONVERT \<equiv> 0x44"
abbreviation (input) W1_CMDT_R_SPAD :: int where "W1_CMDT_R_SPAD \<equiv> 0xbe"
abbreviation (input) W1_FLAG_NOWAIT :: u32 where "W1_FLAG_NOWAIT \<equiv> 0x01"
abbreviation (input) W1_FLAG_COLLECT :: u32 where "W1_FLAG_COLLECT \<equiv> 0x02"

definition w1_class :: "u64 \<Rightarrow> int" where
  "w1_class rom = uint (rom AND 0xff)"

section \<open>The EEPROM\<close>

definition LSB_ADDR :: "int \<Rightarrow> int" where
  "LSB_ADDR x = x AND 0xFF"

definition MSB_ADDR :: "int \<Rightarrow> int" where
  "MSB_ADDR x = drop_bit 8 (x AND 0xFF00)"

fun w1_put_bytes :: "'s w1_ops \<Rightarrow> u8 list \<Rightarrow> 's \<Rightarrow> 's option" where
  "w1_put_bytes ops [] s = Some s"
| "w1_put_bytes ops (b # bs) s = do { s \<leftarrow> w1_write_byte ops (uint b) s; w1_put_bytes ops bs s }"

fun w1_get_bytes :: "'s w1_ops \<Rightarrow> nat \<Rightarrow> 's \<Rightarrow> (u8 list \<times> 's) option" where
  "w1_get_bytes ops 0 s = Some ([], s)"
| "w1_get_bytes ops (Suc n) s =
    do {
      (j, s) \<leftarrow> w1_read_byte ops s;
      (bs, s) \<leftarrow> w1_get_bytes ops n s;
      Some (word_of_int j # bs, s)
    }"

text \<open>The comparison of the scratchpad with the buffer.\<close>

fun w1_same_bytes :: "'s w1_ops \<Rightarrow> u8 list \<Rightarrow> 's \<Rightarrow> (bool \<times> 's) option" where
  "w1_same_bytes ops [] s = Some (True, s)"
| "w1_same_bytes ops (b # bs) s =
    do {
      (j, s) \<leftarrow> w1_read_byte ops s;
      if j \<noteq> uint b then Some (False, s) else w1_same_bytes ops bs s
    }"

definition w1_write_page :: "'s w1_ops \<Rightarrow> u64 \<Rightarrow> int \<Rightarrow> u8 list \<Rightarrow> 's \<Rightarrow> (int \<times> 's) option" where
  "w1_write_page ops dev offset buffer s =
    do {
      s \<leftarrow> w1_match_rom ops dev s;
      s \<leftarrow> w1_write_byte ops W1_CMDR_W_SPAD s;
      s \<leftarrow> w1_write_byte ops (LSB_ADDR offset) s;
      s \<leftarrow> w1_write_byte ops (MSB_ADDR offset) s;
      s \<leftarrow> w1_put_bytes ops buffer s;
      s \<leftarrow> w1_match_rom ops dev s;
      s \<leftarrow> w1_write_byte ops W1_CMDR_R_SPAD s;
      (j, s) \<leftarrow> w1_read_byte ops s;
      if j \<noteq> LSB_ADDR offset then Some (- 1, s)
      else do {
        (j, s) \<leftarrow> w1_read_byte ops s;
        if j \<noteq> MSB_ADDR offset then Some (- 2, s)
        else do {
          (es, s) \<leftarrow> w1_read_byte ops s;
          (same, s) \<leftarrow> w1_same_bytes ops buffer s;
          if \<not> same then Some (- 3, s)
          else do {
            s \<leftarrow> w1_match_rom ops dev s;
            s \<leftarrow> w1_write_byte ops W1_CMDR_C_SPAD s;
            s \<leftarrow> w1_write_byte ops (LSB_ADDR offset) s;
            s \<leftarrow> w1_write_byte ops (MSB_ADDR offset) s;
            s \<leftarrow> w1_write_byte ops es s;
            Some (int (length buffer), s)
          }
        }
      }
    }"

text \<open>\<open>cut\<close> is the first part of the buffer; a length outside it is an access out of bounds.\<close>

definition cut :: "int \<Rightarrow> u8 list \<Rightarrow> u8 list option" where
  "cut i buffer = (if 0 \<le> i \<and> i \<le> int (length buffer) then Some (take (nat i) buffer) else None)"

function (sequential) write_pages ::
  "'s w1_ops \<Rightarrow> u64 \<Rightarrow> int \<Rightarrow> u8 list \<Rightarrow> int \<Rightarrow> 's \<Rightarrow> (int \<times> 's) option" where
  "write_pages ops dev offset [] ret s = Some (ret, s)"
| "write_pages ops dev offset (b # buffer) ret s =
    do {
      (i, s) \<leftarrow> w1_write_page ops dev offset (take 32 (b # buffer)) s;
      if i < 0 then Some (i, s)
      else write_pages ops dev (add32 offset 32) (drop 32 (b # buffer)) (add32 ret i) s
    }"
  by pat_completeness auto
termination
  by (relation "measure (\<lambda>(ops, dev, offset, buffer, ret, s). length buffer)") auto

definition w1_write_eeprom :: "'s w1_ops \<Rightarrow> u64 \<Rightarrow> int \<Rightarrow> u8 list \<Rightarrow> 's \<Rightarrow> (int \<times> 's) option" where
  "w1_write_eeprom ops dev offset buffer s =
    (let blen = int (length buffer);
         page = offset sdiv 32;
         endpage = sub32 (add32 offset blen) 1 sdiv 32
     in if offset smod 32 \<noteq> 0 then do {
          let i = (if endpage \<noteq> page then 32 - offset smod 32 else blen);
          part \<leftarrow> cut i buffer;
          (ret, s) \<leftarrow> w1_write_page ops dev offset part s;
          if ret < 0 then Some (ret, s)
          else write_pages ops dev (add32 offset i) (drop (nat i) buffer) ret s
        }
        else write_pages ops dev offset buffer 0 s)"

definition w1_read_eeprom :: "'s w1_ops \<Rightarrow> u64 \<Rightarrow> int \<Rightarrow> int \<Rightarrow> 's \<Rightarrow> (int \<times> u8 list \<times> 's) option" where
  "w1_read_eeprom ops dev offset blen s =
    do {
      s \<leftarrow> w1_match_rom ops dev s;
      s \<leftarrow> w1_write_byte ops W1_CMDR_R_MEMORY s;
      s \<leftarrow> w1_write_byte ops (LSB_ADDR offset) s;
      s \<leftarrow> w1_write_byte ops (MSB_ADDR offset) s;
      (bs, s) \<leftarrow> w1_get_bytes ops (nat blen) s;
      Some (blen, bs, s)
    }"

text \<open>The first EEPROM of the bus; the bytes read are those stored to the buffer.\<close>

definition first_eeprom :: "u64 list \<Rightarrow> u64 option" where
  "first_eeprom devs = find (\<lambda>rom. w1_class rom = 0x43) devs"

definition w1_read_eeprom_bus :: "'s w1_ops \<Rightarrow> u64 list \<Rightarrow> int \<Rightarrow> int \<Rightarrow> 's \<Rightarrow> (int \<times> u8 list \<times> 's) option" where
  "w1_read_eeprom_bus ops devs offset blen s =
    (case first_eeprom devs of None \<Rightarrow> Some (- 1, [], s) | Some dev \<Rightarrow> w1_read_eeprom ops dev offset blen s)"

definition w1_write_eeprom_bus :: "'s w1_ops \<Rightarrow> u64 list \<Rightarrow> int \<Rightarrow> u8 list \<Rightarrow> 's \<Rightarrow> (int \<times> 's) option" where
  "w1_write_eeprom_bus ops devs offset buffer s =
    (case first_eeprom devs of None \<Rightarrow> Some (- 1, s) | Some dev \<Rightarrow> w1_write_eeprom ops dev offset buffer s)"

section \<open>The thermometers\<close>

partial_function (option) wait_conversion :: "'s w1_ops \<Rightarrow> 's \<Rightarrow> 's option" where
  "wait_conversion ops s =
    do { (b, s) \<leftarrow> op_read_bit ops s; if b = 0 then wait_conversion ops s else Some s }"

definition s16 :: "int \<Rightarrow> int" where
  "s16 i = signed_take_bit 15 i"

text \<open>The value from the scratchpad, in 1/65536 of a degree.\<close>

definition temp_value :: "int \<Rightarrow> u8 list \<Rightarrow> int" where
  "temp_value cls scratchpad =
    (let cval = s16 (push_bit 8 (uint (scratchpad ! 1)) OR uint (scratchpad ! 0))
     in if cls = 0x10
        then sub32 (shl32 cval 15) 0x4000 OR shl32 (uint (scratchpad ! 6)) 12
        else if cls = 0x28 \<or> cls = 0x42 then shl32 cval 12
        else 0)"

definition w1_read_temp :: "'s w1_ops \<Rightarrow> u64 \<Rightarrow> u32 \<Rightarrow> 's \<Rightarrow> (int \<times> 's) option" where
  "w1_read_temp ops dev flags s =
    (let cls = w1_class dev
     in if cls \<notin> {0x10, 0x28, 0x42} then Some (- 2147483648, s)
        else do {
          (now, s) \<leftarrow>
            (if flags AND W1_FLAG_COLLECT \<noteq> 0 then Some (True, s)
             else do {
               s \<leftarrow> w1_match_rom ops dev s;
               s \<leftarrow> w1_write_byte ops W1_CMDT_CONVERT s;
               if flags AND W1_FLAG_NOWAIT \<noteq> 0 then Some (False, s)
               else do { s \<leftarrow> wait_conversion ops s; Some (True, s) }
             });
          if \<not> now then Some (0, s)
          else do {
            s \<leftarrow> w1_match_rom ops dev s;
            s \<leftarrow> w1_write_byte ops W1_CMDT_R_SPAD s;
            (scratchpad, s) \<leftarrow> w1_get_bytes ops 8 s;
            Some (temp_value cls scratchpad, s)
          }
        })"

definition w1_read_temp_bus :: "'s w1_ops \<Rightarrow> u64 list \<Rightarrow> u32 \<Rightarrow> 's \<Rightarrow> (int \<times> 's) option" where
  "w1_read_temp_bus ops devs flags s =
    (case find (\<lambda>rom. w1_class rom \<in> {0x10, 0x28, 0x42}) devs of
       None \<Rightarrow> Some (- 2147483648, s)
     | Some dev \<Rightarrow> w1_read_temp ops dev flags s)"

section \<open>The MAC address\<close>

text \<open>The last three bytes are those of the last thermometer of the bus.\<close>

definition serial_mac :: "u64 \<Rightarrow> u8 list \<Rightarrow> u8 list" where
  "serial_mac rom mac = mac[3 := ucast (drop_bit 24 rom), 4 := ucast (drop_bit 16 rom), 5 := ucast (drop_bit 8 rom)]"

definition mac_of_bus :: "u64 list \<Rightarrow> u8 list \<Rightarrow> u8 list" where
  "mac_of_bus devs mac =
    foldl (\<lambda>mac rom. if w1_class rom \<noteq> 0x28 \<and> w1_class rom \<noteq> 0x42 then mac else serial_mac rom mac) mac devs"

definition eeprom_get_persistent_mac :: "u64 list \<Rightarrow> u8 list \<Rightarrow> int \<times> u8 list" where
  "eeprom_get_persistent_mac devs mac = (0, mac_of_bus devs mac)"

definition eeprom_set_persistent_mac :: "u8 list \<Rightarrow> int" where
  "eeprom_set_persistent_mac mac = - 1"

end
