(* ===== verification/Endpoint.thy ===== *)
theory Endpoint
  imports Ep_pfilter_Props Usleep
begin

text \<open>
  The driver of the endpoint, the Ethernet MAC of the node (\<open>dev/endpoint.c\<close>). The registers are the
  argument \<open>io\<close>: what a read returns and what a write does to the state \<open>'s\<close> of the hardware. The
  registers of the PCS are behind the MDIO registers, with polling; \<open>autoneg_enabled\<close> is returned
  by \<open>ep_enable\<close> and an argument of \<open>ep_link_up\<close>. Messages are left out.
\<close>

section \<open>The code\<close>

datatype ep_reg =
    EP_ECR | EP_TSCR | EP_RFCR | EP_VCR0 | EP_PF pf_reg | EP_MACH | EP_MACL
  | EP_MDIO_CR | EP_MDIO_ASR | EP_IDCODE | EP_DMCR

text \<open>\<open>net_reset\<close> is the register at \<open>0x62000\<close>.\<close>

record 's ep_io =
  ep_rd :: "ep_reg \<Rightarrow> 's \<Rightarrow> u32 \<times> 's"
  ep_wr :: "ep_reg \<Rightarrow> u32 \<Rightarrow> 's \<Rightarrow> 's"
  net_reset :: "u32 \<Rightarrow> 's \<Rightarrow> 's"
  ep_timer :: "'s timer_io"

abbreviation (input) EP_MDIO_CR_RW :: u32 where "EP_MDIO_CR_RW \<equiv> 0x80000000"
abbreviation (input) EP_MDIO_ASR_READY :: u32 where "EP_MDIO_ASR_READY \<equiv> 0x80000000"

definition EP_MDIO_CR_ADDR_W :: "u32 \<Rightarrow> u32" where
  "EP_MDIO_CR_ADDR_W value = push_bit 16 (value AND 0xff)"

partial_function (option) mdio_wait :: "'s ep_io \<Rightarrow> 's \<Rightarrow> 's option" where
  "mdio_wait io s =
    (case ep_rd io EP_MDIO_ASR s of (asr, s) \<Rightarrow>
      if asr AND EP_MDIO_ASR_READY = 0 then mdio_wait io s else Some s)"

definition pcs_read :: "'s ep_io \<Rightarrow> u32 \<Rightarrow> 's \<Rightarrow> (u16 \<times> 's) option" where
  "pcs_read io location s =
    do {
      s \<leftarrow> mdio_wait io (ep_wr io EP_MDIO_CR (EP_MDIO_CR_ADDR_W (drop_bit 2 location)) s);
      let (asr, s) = ep_rd io EP_MDIO_ASR s;
      Some (ucast (asr AND 0xffff), s)
    }"

definition pcs_write :: "'s ep_io \<Rightarrow> u32 \<Rightarrow> u32 \<Rightarrow> 's \<Rightarrow> 's option" where
  "pcs_write io location value s =
    mdio_wait io (ep_wr io EP_MDIO_CR
      (EP_MDIO_CR_ADDR_W (drop_bit 2 location) OR (value AND 0xffff) OR EP_MDIO_CR_RW) s)"

definition set_mac_addr :: "'s ep_io \<Rightarrow> u8 list \<Rightarrow> 's \<Rightarrow> 's" where
  "set_mac_addr io a s =
    (let s = ep_wr io EP_MACL (push_bit 24 (ucast (a ! 2)) OR push_bit 16 (ucast (a ! 3))
                               OR push_bit 8 (ucast (a ! 4)) OR ucast (a ! 5)) s
     in ep_wr io EP_MACH (push_bit 8 (ucast (a ! 0)) OR ucast (a ! 1)) s)"

definition get_mac_addr :: "'s ep_io \<Rightarrow> 's \<Rightarrow> u8 list \<times> 's" where
  "get_mac_addr io s =
    (let (l, s) = ep_rd io EP_MACL s; a5 = ucast (l AND 0x000000ff);
         (l, s) = ep_rd io EP_MACL s; a4 = ucast (drop_bit 8 (l AND 0x0000ff00));
         (l, s) = ep_rd io EP_MACL s; a3 = ucast (drop_bit 16 (l AND 0x00ff0000));
         (l, s) = ep_rd io EP_MACL s; a2 = ucast (drop_bit 24 (l AND 0xff000000));
         (h, s) = ep_rd io EP_MACH s; a1 = ucast (h AND 0x000000ff);
         (h, s) = ep_rd io EP_MACH s; a0 = ucast (drop_bit 8 (h AND 0x0000ff00))
     in ([a0, a1, a2, a3, a4, a5], s))"

abbreviation (input) DMTD_AVG_SAMPLES :: u32 where "DMTD_AVG_SAMPLES \<equiv> 256"

definition ep_init :: "'s ep_io \<Rightarrow> u8 list \<Rightarrow> 's \<Rightarrow> 's" where
  "ep_init io mac_addr s =
    (let s = set_mac_addr io mac_addr s;
         s = net_reset io 0x2 s;
         s = net_reset io 0 s;
         s = ep_wr io EP_ECR 0 s;
         s = ep_wr io EP_VCR0 3 s;
         s = ep_wr io EP_RFCR (push_bit 12 1518) s;
         s = ep_wr io EP_TSCR (0x1 OR 0x2) s
     in ep_wr io EP_DMCR (0x1 OR push_bit 16 DMTD_AVG_SAMPLES) s)"

text \<open>The packet filter reads the MAC address from the registers and is loaded through two others.\<close>

definition pf_program :: "'s ep_io \<Rightarrow> pf_config \<Rightarrow> 's \<Rightarrow> 's option" where
  "pf_program io cfg s =
    (let (mach, s) = ep_rd io EP_MACH s;
         (macl, s) = ep_rd io EP_MACL s;
         (_, s) = ep_rd io EP_MACL s
     in do {
       ws \<leftarrow> pfilter_init_default cfg mach macl;
       Some (fold (\<lambda>(r, v). ep_wr io (EP_PF r) v) ws s)
     })"

abbreviation (input) MDIO_REG_MCR :: u32 where "MDIO_REG_MCR \<equiv> 0x0"
abbreviation (input) MDIO_REG_MSR :: u32 where "MDIO_REG_MSR \<equiv> 0x4"
abbreviation (input) MDIO_REG_ADVERTISE :: u32 where "MDIO_REG_ADVERTISE \<equiv> 0x10"
abbreviation (input) MDIO_REG_LPA :: u32 where "MDIO_REG_LPA \<equiv> 0x14"
abbreviation (input) MDIO_REG_WR_SPEC :: u32 where "MDIO_REG_WR_SPEC \<equiv> 0x40"
abbreviation (input) MDIO_MCR_SPEED1000 :: u32 where "MDIO_MCR_SPEED1000 \<equiv> 0x40"
abbreviation (input) MDIO_MCR_FULLDPLX :: u32 where "MDIO_MCR_FULLDPLX \<equiv> 0x100"
abbreviation (input) MDIO_MCR_ANRESTART :: u32 where "MDIO_MCR_ANRESTART \<equiv> 0x200"
abbreviation (input) MDIO_MCR_PDOWN :: u32 where "MDIO_MCR_PDOWN \<equiv> 0x800"
abbreviation (input) MDIO_MCR_ANENABLE :: u32 where "MDIO_MCR_ANENABLE \<equiv> 0x1000"
abbreviation (input) MDIO_MCR_RESET :: u32 where "MDIO_MCR_RESET \<equiv> 0x8000"

definition ep_enable :: "'s ep_io \<Rightarrow> pf_config \<Rightarrow> bool \<Rightarrow> bool \<Rightarrow> bool \<Rightarrow> 's \<Rightarrow> (bool \<times> 's) option" where
  "ep_enable io cfg enabled autoneg autoneg_enabled s =
    (if \<not> enabled then Some (autoneg_enabled, ep_wr io EP_ECR 0 s)
     else do {
       let s = ep_wr io EP_ECR 0 s;
       let (idcode, s) = ep_rd io EP_IDCODE s;
       s \<leftarrow> pf_program io cfg s;
       let s = ep_wr io EP_ECR (0x40 OR 0x80 OR 0x20) s;
       let autoneg_enabled = autoneg;
       s \<leftarrow> pcs_write io MDIO_REG_MCR MDIO_MCR_PDOWN s;
       s \<leftarrow> timer_delay_ms (ep_timer io) 200 s;
       s \<leftarrow> pcs_write io MDIO_REG_MCR MDIO_MCR_RESET s;
       s \<leftarrow> pcs_write io MDIO_REG_MCR 0 s;
       s \<leftarrow> pcs_write io MDIO_REG_ADVERTISE 0 s;
       let mcr = MDIO_MCR_SPEED1000 OR MDIO_MCR_FULLDPLX;
       let mcr = (if autoneg then mcr OR MDIO_MCR_ANENABLE OR MDIO_MCR_ANRESTART else mcr);
       s \<leftarrow> pcs_write io MDIO_REG_MCR mcr s;
       Some (autoneg_enabled, s)
     })"

text \<open>The link partner's abilities are read if the caller has a place for them.\<close>

definition ep_link_up :: "'s ep_io \<Rightarrow> bool \<Rightarrow> bool \<Rightarrow> 's \<Rightarrow> (int \<times> u16 option \<times> 's) option" where
  "ep_link_up io autoneg_enabled want_lpa s =
    do {
      let flags = (0x4 :: u16);
      let flags = (if autoneg_enabled then flags OR 0x20 else flags);
      (msr, s) \<leftarrow> pcs_read io MDIO_REG_MSR s;
      (msr, s) \<leftarrow> pcs_read io MDIO_REG_MSR s;
      (lpa, s) \<leftarrow> (if want_lpa then do { (l, s) \<leftarrow> pcs_read io MDIO_REG_LPA s; Some (Some l, s) } else Some (None, s));
      Some (if msr AND flags = flags then 1 else 0, lpa, s)
    }"

abbreviation (input) PICOS_PER_SERIAL_BIT :: int where "PICOS_PER_SERIAL_BIT \<equiv> 800"

definition MDIO_WR_SPEC_BSLIDE_R :: "u16 \<Rightarrow> int" where
  "MDIO_WR_SPEC_BSLIDE_R reg = uint (drop_bit 4 reg AND 0x1f)"

definition ep_get_bitslide :: "'s ep_io \<Rightarrow> 's \<Rightarrow> (int \<times> 's) option" where
  "ep_get_bitslide io s =
    do {
      (r, s) \<leftarrow> pcs_read io MDIO_REG_WR_SPEC s;
      Some (mul32 PICOS_PER_SERIAL_BIT (MDIO_WR_SPEC_BSLIDE_R r), s)
    }"

definition ep_get_deltas :: "'s ep_io \<Rightarrow> int \<Rightarrow> int \<Rightarrow> 's \<Rightarrow> (u32 \<times> u32 \<times> 's) option" where
  "ep_get_deltas io sfp_deltaTx sfp_deltaRx s =
    do {
      (r, s) \<leftarrow> pcs_read io MDIO_REG_WR_SPEC s;
      Some (to_u32 sfp_deltaTx,
            to_u32 (add32 sfp_deltaRx (mul32 PICOS_PER_SERIAL_BIT (MDIO_WR_SPEC_BSLIDE_R r))), s)
    }"

abbreviation (input) MDIO_WR_SPEC_TX_CAL :: u32 where "MDIO_WR_SPEC_TX_CAL \<equiv> 1"

definition ep_cal_pattern_enable :: "'s ep_io \<Rightarrow> 's \<Rightarrow> 's option" where
  "ep_cal_pattern_enable io s =
    do {
      (v, s) \<leftarrow> pcs_read io MDIO_REG_WR_SPEC s;
      pcs_write io MDIO_REG_WR_SPEC (ucast v OR MDIO_WR_SPEC_TX_CAL) s
    }"

definition ep_cal_pattern_disable :: "'s ep_io \<Rightarrow> 's \<Rightarrow> 's option" where
  "ep_cal_pattern_disable io s =
    do {
      (v, s) \<leftarrow> pcs_read io MDIO_REG_WR_SPEC s;
      pcs_write io MDIO_REG_WR_SPEC (ucast v AND NOT MDIO_WR_SPEC_TX_CAL) s
    }"

definition ep_timestamper_cal_pulse :: "'s ep_io \<Rightarrow> 's \<Rightarrow> (int \<times> 's) option" where
  "ep_timestamper_cal_pulse io s =
    do {
      let (tscr, s) = ep_rd io EP_TSCR s;
      let s = ep_wr io EP_TSCR (tscr OR 0x10) s;
      s \<leftarrow> timer_delay_ms (ep_timer io) 1 s;
      let (tscr, s) = ep_rd io EP_TSCR s;
      Some (if tscr AND 0x20 \<noteq> 0 then 1 else 0, s)
    }"

section \<open>The registers of the PCS\<close>

text \<open>
  The contract of the MDIO port: \<open>pcs s\<close> are the registers behind it, by number. The status
  register is not one of them: its link bit stays low after a loss until it is read.
\<close>

locale mdio_port =
  fixes io :: "'s ep_io" and pcs :: "'s \<Rightarrow> nat \<Rightarrow> u16" and link :: "'s \<Rightarrow> bool" and aneg :: "'s \<Rightarrow> bool"
  assumes pcs_rd: "unat (drop_bit 2 loc) \<noteq> 1 \<Longrightarrow> loc < 0x400 \<Longrightarrow>
      \<exists>s'. pcs_read io loc s = Some (pcs s (unat (drop_bit 2 loc)), s') \<and> pcs s' = pcs s \<and> link s' = link s \<and> aneg s' = aneg s"
    and pcs_wr: "unat (drop_bit 2 loc) \<noteq> 1 \<Longrightarrow> loc < 0x400 \<Longrightarrow>
      \<exists>s'. pcs_write io loc v s = Some s' \<and> pcs s' = (pcs s)(unat (drop_bit 2 loc) := ucast v) \<and>
        link s' = link s \<and> aneg s' = aneg s"
    and status: "\<exists>m s'. pcs_read io MDIO_REG_MSR s = Some (m, s') \<and> pcs s' = pcs s \<and> link s' = link s \<and> aneg s' = aneg s \<and>
      (\<exists>m' s''. pcs_read io MDIO_REG_MSR s' = Some (m', s'') \<and> pcs s'' = pcs s \<and> link s'' = link s \<and> aneg s'' = aneg s \<and>
        (bit m' 2 \<longleftrightarrow> link s) \<and> (bit m' 5 \<longleftrightarrow> aneg s))"
begin

text \<open>
  \<open>ep_link_up\<close> tells whether the link is up now, even after losses nobody has seen, and, if asked
  for, whether the autonegotiation is over too.
\<close>

lemma flags_bits:
  "(m :: u16) AND 4 = 4 \<longleftrightarrow> bit m 2" "(m :: u16) AND 36 = 36 \<longleftrightarrow> bit m 2 \<and> bit m 5"
proof -
  have b: "bit (4 :: u16) n \<longleftrightarrow> n = 2" "bit (32 :: u16) n \<longleftrightarrow> n = 5" for n
    using bit_exp_iff [of 2 n, where 'a = "16 word"] bit_exp_iff [of 5 n, where 'a = "16 word"] by auto
  have o: "(36 :: u16) = 4 OR 32" by simp
  show "m AND 4 = 4 \<longleftrightarrow> bit m 2" "m AND 36 = 36 \<longleftrightarrow> bit m 2 \<and> bit m 5"
    unfolding o bit_eq_iff [where 'a = "16 word"] bit_and_iff bit_or_iff b by (auto dest: spec [of _ 2] spec [of _ 5])
qed

lemma link_up:
  "\<exists>lpa s'. ep_link_up io an want s = Some (if link s \<and> (an \<longrightarrow> aneg s) then 1 else 0, lpa, s') \<and>
    lpa = (if want then Some (pcs s 5) else None) \<and> pcs s' = pcs s \<and> link s' = link s \<and> aneg s' = aneg s"
proof -
  obtain m s1 m' s2 where s: "pcs_read io MDIO_REG_MSR s = Some (m, s1)" "pcs_read io MDIO_REG_MSR s1 = Some (m', s2)"
    "pcs s2 = pcs s" "link s2 = link s" "aneg s2 = aneg s" "bit m' 2 \<longleftrightarrow> link s" "bit m' 5 \<longleftrightarrow> aneg s"
    using status [of s] by (elim exE conjE) blast
  obtain s3 where r: "pcs_read io MDIO_REG_LPA s2 = Some (pcs s2 5, s3)" "pcs s3 = pcs s2" "link s3 = link s2" "aneg s3 = aneg s2"
    using pcs_rd [of MDIO_REG_LPA s2] by auto
  show ?thesis
    using s r by (simp add: ep_link_up_def flags_bits Let_def)
qed

lemma bitslide:
  "\<exists>s'. ep_get_bitslide io s = Some (800 * MDIO_WR_SPEC_BSLIDE_R (pcs s 16), s') \<and> pcs s' = pcs s"
proof -
  have "uint (drop_bit 4 r AND 0x1f) \<le> 0x1f" for r :: u16
    using word_and_le1 [of "drop_bit 4 r" "0x1f"] by (simp add: word_le_def)
  then have range: "0 \<le> MDIO_WR_SPEC_BSLIDE_R r \<and> MDIO_WR_SPEC_BSLIDE_R r \<le> 31" for r
    by (simp add: MDIO_WR_SPEC_BSLIDE_R_def)
  have "mul32 800 (MDIO_WR_SPEC_BSLIDE_R r) = 800 * MDIO_WR_SPEC_BSLIDE_R r" for r
    unfolding mul32_def using range [of r] by (intro s32_small) linarith+
  then show ?thesis using pcs_rd [of MDIO_REG_WR_SPEC s] by (auto simp: ep_get_bitslide_def)
qed

text \<open>The calibration pattern: its bit goes on and off, the others stay.\<close>

lemma cal_pattern:
  "\<exists>s'. ep_cal_pattern_enable io s = Some s' \<and> pcs s' = (pcs s)(16 := pcs s 16 OR 1)"
  "\<exists>s'. ep_cal_pattern_disable io s = Some s' \<and> pcs s' = (pcs s)(16 := pcs s 16 AND NOT 1)"
proof -
  obtain s1 where r: "pcs_read io MDIO_REG_WR_SPEC s = Some (pcs s 16, s1)" "pcs s1 = pcs s"
    using pcs_rd [of MDIO_REG_WR_SPEC s] by auto
  have u: "ucast (ucast v OR 1 :: u32) = v OR 1" "ucast (ucast v AND - 2 :: u32) = v AND - 2" for v :: u16
    by (rule bit_word_eqI; auto simp: bit_simps)+
  show "\<exists>s'. ep_cal_pattern_enable io s = Some s' \<and> pcs s' = (pcs s)(16 := pcs s 16 OR 1)"
    using pcs_wr [of MDIO_REG_WR_SPEC "ucast (pcs s 16) OR 1" s1] r by (auto simp: ep_cal_pattern_enable_def u)
  show "\<exists>s'. ep_cal_pattern_disable io s = Some s' \<and> pcs s' = (pcs s)(16 := pcs s 16 AND NOT 1)"
    using pcs_wr [of MDIO_REG_WR_SPEC "ucast (pcs s 16) AND NOT 1" s1] r by (auto simp: ep_cal_pattern_disable_def u)
qed

end

section \<open>The hardware\<close>

text \<open>
  The endpoint behind its registers: an access to the PCS takes \<open>ev_lat\<close> polls, the link bit of the status
  is low after a loss (\<open>ev_lost\<close>) until it is read, and the writes to the filter are recorded.
\<close>

record ep_dev =
  ev_reg :: "ep_reg \<Rightarrow> u32"
  ev_filter :: "(pf_reg \<times> u32) list"
  ev_resets :: "u32 list"
  ev_pcs :: "nat \<Rightarrow> u16"
  ev_link :: bool
  ev_aneg :: bool
  ev_lost :: bool
  ev_pulse :: bool
  ev_rdata :: u16
  ev_busy :: nat
  ev_lat :: nat
  ev_time :: nat

definition dev_msr :: "ep_dev \<Rightarrow> u16" where
  "dev_msr d = 0x149 OR (if ev_link d \<and> \<not> ev_lost d then 0x4 else 0) OR (if ev_aneg d then 0x20 else 0)"

definition dev_cr :: "u32 \<Rightarrow> ep_dev \<Rightarrow> ep_dev" where
  "dev_cr v d =
    (let a = unat (drop_bit 16 v AND 0xff); d = d\<lparr>ev_busy := ev_lat d\<rparr>
     in if v AND EP_MDIO_CR_RW \<noteq> 0
        then if a = 1 then d else d\<lparr>ev_pcs := (ev_pcs d)(a := ucast v)\<rparr>
        else if a = 1 then d\<lparr>ev_rdata := dev_msr d, ev_lost := \<not> ev_link d\<rparr>
        else d\<lparr>ev_rdata := ev_pcs d a\<rparr>)"

definition dev_rd :: "ep_reg \<Rightarrow> ep_dev \<Rightarrow> u32 \<times> ep_dev" where
  "dev_rd r d =
    (if r = EP_MDIO_ASR then
       if ev_busy d = 0 then (EP_MDIO_ASR_READY OR ucast (ev_rdata d), d)
       else (ucast (NOT (ev_rdata d)), d\<lparr>ev_busy := ev_busy d - 1\<rparr>)
     else if r = EP_TSCR then ((ev_reg d r AND 0x3) OR (if ev_pulse d then 0x20 else 0), d)
     else (ev_reg d r, d))"

definition dev_wr :: "ep_reg \<Rightarrow> u32 \<Rightarrow> ep_dev \<Rightarrow> ep_dev" where
  "dev_wr r v d =
    (case r of
       EP_MDIO_CR \<Rightarrow> dev_cr v d
     | EP_PF p \<Rightarrow> d\<lparr>ev_filter := ev_filter d @ [(p, v)]\<rparr>
     | _ \<Rightarrow> d\<lparr>ev_reg := (ev_reg d)(r := v)\<rparr>)"

definition dev_tick :: "ep_dev \<Rightarrow> ep_dev" where
  "dev_tick d = d\<lparr>ev_time := Suc (ev_time d)\<rparr>"

definition ep_hw :: "ep_dev ep_io" where
  "ep_hw = \<lparr>ep_rd = dev_rd, ep_wr = dev_wr, net_reset = \<lambda>v d. d\<lparr>ev_resets := ev_resets d @ [v]\<rparr>,
    ep_timer = \<lparr>rd_TVR = \<lambda>d. (word_of_nat (ev_time d div 100), dev_tick d), loop_round = dev_tick\<rparr>\<rparr>"

interpretation ep_time: ticking "ep_timer ep_hw" dev_tick ev_time 100
  by unfold_locales (simp_all add: ep_hw_def dev_tick_def)

lemma ready_bit: "(ucast (r :: u16) :: u32) AND 0x80000000 = 0"
  "(0x80000000 OR ucast (r :: u16) :: u32) AND 0x80000000 = 0x80000000"
  "ucast ((0x80000000 OR ucast (r :: u16) :: u32) AND 0xffff) = r"
proof -
  have b: "bit (0x80000000 :: int) n \<longleftrightarrow> n = 31" for n
    using bit_exp_iff [of 31 n, where 'a = int] by auto
  have m: "(0xffff :: u32) = mask 16" by (simp add: mask_eq_exp_minus_1)
  show "(ucast r :: u32) AND 0x80000000 = 0" "(0x80000000 OR ucast r :: u32) AND 0x80000000 = 0x80000000"
    by (rule bit_word_eqI; auto simp: bit_simps b dest: bit_imp_le_length)+
  show "ucast ((0x80000000 OR ucast r :: u32) AND 0xffff) = r"
    unfolding m by (rule bit_word_eqI) (auto simp: bit_simps b)
qed

lemma wait_dev: "mdio_wait ep_hw d = Some (d\<lparr>ev_busy := 0\<rparr>)"
proof (induction "ev_busy d" arbitrary: d)
  case 0
  then have "d\<lparr>ev_busy := 0\<rparr> = d" by simp
  then show ?case using 0 by (subst mdio_wait.simps) (simp add: ep_hw_def dev_rd_def ready_bit)
next
  case (Suc n)
  have "mdio_wait ep_hw (d\<lparr>ev_busy := n\<rparr>) = Some (d\<lparr>ev_busy := 0\<rparr>)" using Suc.hyps(1) [of "d\<lparr>ev_busy := n\<rparr>"] by simp
  then show ?case using Suc.hyps(2) by (subst mdio_wait.simps) (simp add: ep_hw_def dev_rd_def ready_bit flip: Suc.hyps(2))
qed

text \<open>An access: the command, then the polls.\<close>

lemma cr_fields:
  assumes "loc < 0x400"
  shows "unat (drop_bit 16 (EP_MDIO_CR_ADDR_W (drop_bit 2 loc)) AND 0xff) = unat (drop_bit 2 loc)"
    "EP_MDIO_CR_ADDR_W (drop_bit 2 loc) AND EP_MDIO_CR_RW = 0"
    "unat (drop_bit 16 (EP_MDIO_CR_ADDR_W (drop_bit 2 loc) OR (v AND 0xffff) OR EP_MDIO_CR_RW) AND 0xff) = unat (drop_bit 2 loc)"
    "(EP_MDIO_CR_ADDR_W (drop_bit 2 loc) OR (v AND 0xffff) OR EP_MDIO_CR_RW) AND EP_MDIO_CR_RW \<noteq> 0"
    "ucast (EP_MDIO_CR_ADDR_W (drop_bit 2 loc) OR (v AND 0xffff) OR EP_MDIO_CR_RW) = (ucast v :: u16)"
proof -
  have b: "bit (0x80000000 :: int) n \<longleftrightarrow> n = 31" "bit (0x8000 :: int) n \<longleftrightarrow> n = 15" for n
    using bit_exp_iff [of 31 n, where 'a = int] bit_exp_iff [of 15 n, where 'a = int] by auto
  have m: "(0xffff :: u32) = mask 16" "(0xff :: u32) = mask 8" by (simp_all add: mask_eq_exp_minus_1)
  have "take_bit 10 loc = loc" using assms less_mask_eq [of loc 10] by (simp add: take_bit_eq_mask)
  then have l: "bit loc n \<Longrightarrow> n < 10" for n by (metis bit_take_bit_iff)
  have "drop_bit 16 (EP_MDIO_CR_ADDR_W (drop_bit 2 loc)) AND 0xff = drop_bit 2 loc"
    unfolding EP_MDIO_CR_ADDR_W_def m by (rule bit_word_eqI) (use l in \<open>force simp: bit_simps\<close>)
  then show "unat (drop_bit 16 (EP_MDIO_CR_ADDR_W (drop_bit 2 loc)) AND 0xff) = unat (drop_bit 2 loc)" by simp
  show "EP_MDIO_CR_ADDR_W (drop_bit 2 loc) AND EP_MDIO_CR_RW = 0"
    unfolding EP_MDIO_CR_ADDR_W_def m by (rule bit_word_eqI) (use l in \<open>force simp: bit_simps b\<close>)
  have "drop_bit 16 (EP_MDIO_CR_ADDR_W (drop_bit 2 loc) OR (v AND 0xffff) OR EP_MDIO_CR_RW) AND 0xff = drop_bit 2 loc"
    unfolding EP_MDIO_CR_ADDR_W_def m by (rule bit_word_eqI) (auto simp: bit_simps b dest: l)
  then show "unat (drop_bit 16 (EP_MDIO_CR_ADDR_W (drop_bit 2 loc) OR (v AND 0xffff) OR EP_MDIO_CR_RW) AND 0xff) = unat (drop_bit 2 loc)"
    by simp
  have "bit ((EP_MDIO_CR_ADDR_W (drop_bit 2 loc) OR (v AND 0xffff) OR EP_MDIO_CR_RW) AND EP_MDIO_CR_RW) 31"
    by (simp add: bit_simps b)
  then show "(EP_MDIO_CR_ADDR_W (drop_bit 2 loc) OR (v AND 0xffff) OR EP_MDIO_CR_RW) AND EP_MDIO_CR_RW \<noteq> 0"
    by (metis bit_0_eq bot_apply bot_bool_def)
  show "ucast (EP_MDIO_CR_ADDR_W (drop_bit 2 loc) OR (v AND 0xffff) OR EP_MDIO_CR_RW) = (ucast v :: u16)"
    unfolding EP_MDIO_CR_ADDR_W_def m by (rule bit_word_eqI) (auto simp: bit_simps b)
qed

lemma read_dev:
  assumes "loc < 0x400"
  shows "pcs_read ep_hw loc d = Some (if unat (drop_bit 2 loc) = 1 then dev_msr d else ev_pcs d (unat (drop_bit 2 loc)),
    d\<lparr>ev_rdata := if unat (drop_bit 2 loc) = 1 then dev_msr d else ev_pcs d (unat (drop_bit 2 loc)), ev_busy := 0,
      ev_lost := if unat (drop_bit 2 loc) = 1 then \<not> ev_link d else ev_lost d\<rparr>)"
proof -
  have w: "ep_wr ep_hw EP_MDIO_CR v = dev_cr v" "ep_rd ep_hw EP_MDIO_ASR = dev_rd EP_MDIO_ASR" for v
    by (auto simp: ep_hw_def dev_wr_def fun_eq_iff)
  show ?thesis
    unfolding pcs_read_def w wait_dev
    by (simp add: dev_cr_def cr_fields [OF assms] dev_rd_def dev_msr_def ready_bit Let_def)
qed

lemma write_dev:
  assumes "loc < 0x400" "unat (drop_bit 2 loc) \<noteq> 1"
  shows "pcs_write ep_hw loc v d = Some (d\<lparr>ev_busy := 0, ev_pcs := (ev_pcs d)(unat (drop_bit 2 loc) := ucast v)\<rparr>)"
proof -
  have w: "ep_wr ep_hw EP_MDIO_CR v = dev_cr v" for v
    by (auto simp: ep_hw_def dev_wr_def fun_eq_iff)
  show ?thesis
    unfolding pcs_write_def w wait_dev dev_cr_def Let_def cr_fields(3,5) [OF assms(1)] if_P [OF cr_fields(4) [OF assms(1)]]
    using assms(2) by simp
qed

interpretation ep_mdio: mdio_port ep_hw ev_pcs ev_link ev_aneg
proof
  have "bit (dev_msr d) 2 \<longleftrightarrow> ev_link d \<and> \<not> ev_lost d" "bit (dev_msr d) 5 \<longleftrightarrow> ev_aneg d" for d
    by (auto simp: dev_msr_def bit_simps)
  then show "\<exists>m s'. pcs_read ep_hw MDIO_REG_MSR s = Some (m, s') \<and> ev_pcs s' = ev_pcs s \<and> ev_link s' = ev_link s \<and> ev_aneg s' = ev_aneg s \<and>
      (\<exists>m' s''. pcs_read ep_hw MDIO_REG_MSR s' = Some (m', s'') \<and> ev_pcs s'' = ev_pcs s \<and> ev_link s'' = ev_link s \<and>
        ev_aneg s'' = ev_aneg s \<and> (bit m' 2 \<longleftrightarrow> ev_link s) \<and> (bit m' 5 \<longleftrightarrow> ev_aneg s))" for s
    by (simp add: read_dev)
qed (simp_all add: read_dev write_dev)

section \<open>Bringing the endpoint up\<close>

text \<open>The MAC address in the registers, as the filter sees it and as it is read back.\<close>

lemma mac_words:
  fixes a b c d :: u8
  defines "w \<equiv> push_bit 24 (ucast a) OR push_bit 16 (ucast b) OR push_bit 8 (ucast c) OR ucast d :: u32"
  shows "ucast (w AND 0x000000ff) = d" "ucast (drop_bit 8 (w AND 0x0000ff00)) = c"
    "ucast (drop_bit 16 (w AND 0x00ff0000)) = b" "ucast (drop_bit 24 (w AND 0xff000000)) = a"
    "drop_bit 16 w = push_bit 8 (ucast a) OR ucast b"
proof -
  have m: "(0x000000ff :: u32) = mask 8" "(0x0000ff00 :: u32) = push_bit 8 (mask 8)"
    "(0x00ff0000 :: u32) = push_bit 16 (mask 8)" "(0xff000000 :: u32) = push_bit 24 (mask 8)"
    by (simp_all add: mask_eq_exp_minus_1 push_bit_eq_mult)
  show "ucast (w AND 0x000000ff) = d" "ucast (drop_bit 8 (w AND 0x0000ff00)) = c"
    "ucast (drop_bit 16 (w AND 0x00ff0000)) = b" "ucast (drop_bit 24 (w AND 0xff000000)) = a"
    "drop_bit 16 w = push_bit 8 (ucast a) OR ucast b"
    unfolding w_def m by (rule bit_word_eqI; auto simp: bit_simps dest: bit_imp_le_length)+
qed

lemma filter_writes:
  "fold (\<lambda>(r, v). ep_wr ep_hw (EP_PF r) v) ws d = d\<lparr>ev_filter := ev_filter d @ ws\<rparr>"
  by (induction ws arbitrary: d) (auto simp: ep_hw_def dev_wr_def)

lemma ticks: "(dev_tick ^^ k) d = d\<lparr>ev_time := ev_time d + k\<rparr>"
  by (induction k) (auto simp: dev_tick_def)

lemma delay_200:
  "\<exists>t. timer_delay_ms (ep_timer ep_hw) 200 d = Some (d\<lparr>ev_time := t\<rparr>) \<and> t div 100 = ev_time d div 100 + 200"
proof -
  have "to_u32 (mul32 200 TICS_PER_SECOND sdiv 1000) = 200" by (simp add: mul32_def s32_small signed_divide_int_def to_u32_def)
  then have "timer_delay_ms (ep_timer ep_hw) 200 d =
      Some (d\<lparr>ev_time := ev_time d + ((ev_time d div 100 + 200) * 100 + 1 - ev_time d)\<rparr>)"
    by (simp add: timer_delay_ms_def ep_time.delay_ends ticks)
  moreover have "ev_time d + ((ev_time d div 100 + 200) * 100 + 1 - ev_time d) = (ev_time d div 100 + 200) * 100 + 1" by simp
  ultimately show ?thesis by (intro exI [of _ "(ev_time d div 100 + 200) * 100 + 1"]) simp
qed

lemma regs_dev:
  "r \<in> {EP_ECR, EP_TSCR, EP_RFCR, EP_VCR0, EP_MACH, EP_MACL, EP_IDCODE, EP_DMCR} \<Longrightarrow>
    ep_wr ep_hw r v d = d\<lparr>ev_reg := (ev_reg d)(r := v)\<rparr>"
  "r \<in> {EP_ECR, EP_RFCR, EP_VCR0, EP_MACH, EP_MACL, EP_IDCODE, EP_DMCR} \<Longrightarrow> ep_rd ep_hw r d = (ev_reg d r, d)"
  "net_reset ep_hw v d = d\<lparr>ev_resets := ev_resets d @ [v]\<rparr>"
  by (auto simp: ep_hw_def dev_wr_def dev_rd_def)

lemma list_6: "length xs = 6 \<Longrightarrow> \<exists>a b c d e f. xs = [a, b, c, d, e, f]"
  by (auto simp: numeral_eq_Suc length_Suc_conv)


definition mac_high :: "u8 list \<Rightarrow> u32" where
  "mac_high mac = push_bit 8 (ucast (mac ! 0)) OR ucast (mac ! 1)"

definition mac_low :: "u8 list \<Rightarrow> u32" where
  "mac_low mac = push_bit 24 (ucast (mac ! 2)) OR push_bit 16 (ucast (mac ! 3)) OR push_bit 8 (ucast (mac ! 4)) OR ucast (mac ! 5)"

text \<open>The bytes of a frame from its 16-bit words.\<close>

definition frame_bytes :: "u16 \<Rightarrow> u8 list" where
  "frame_bytes w = [ucast (drop_bit 8 w), ucast w]"

lemma half_word: "(w :: u16) = ucast (push_bit 8 (ucast a) OR ucast b :: u32) \<longleftrightarrow> frame_bytes w = [a, b]"
proof
  assume w: "w = ucast (push_bit 8 (ucast a) OR ucast b :: u32)"
  have "ucast (drop_bit 8 w) = a" "ucast w = b"
    unfolding w by (rule bit_word_eqI; auto simp: bit_simps dest: bit_imp_le_length)+
  then show "frame_bytes w = [a, b]" by (simp add: frame_bytes_def)
next
  assume "frame_bytes w = [a, b]"
  then have ab: "a = ucast (drop_bit 8 w)" "b = ucast w" by (auto simp: frame_bytes_def)
  show "w = ucast (push_bit 8 (ucast a) OR ucast b :: u32)"
    unfolding ab by (rule bit_word_eqI) (auto simp: bit_simps not_less)
qed

lemma mine_bytes:
  assumes "length mac = 6"
  shows "is_mine (mac_high mac) (mac_low mac) pkt \<longleftrightarrow> frame_bytes (pkt 0) @ frame_bytes (pkt 1) @ frame_bytes (pkt 2) = mac"
proof -
  obtain a b c d e f where m: "mac = [a, b, c, d, e, f]" using list_6 [OF assms] by blast
  have l: "ucast (push_bit 24 (ucast c) OR push_bit 16 (ucast d) OR push_bit 8 (ucast e) OR ucast f :: u32) =
      (ucast (push_bit 8 (ucast e) OR ucast f :: u32) :: u16)"
    by (rule bit_word_eqI) (auto simp: bit_simps)
  have "frame_bytes w = [ucast (drop_bit 8 w), ucast w]" for w by (rule frame_bytes_def)
  then show ?thesis
    unfolding is_mine_def mac_high_def mac_low_def m using mac_words(5) [of c d e f]
    by (simp add: half_word l)
qed

lemma get_mac: "length mac = 6 \<Longrightarrow> ev_reg d EP_MACH = mac_high mac \<Longrightarrow> ev_reg d EP_MACL = mac_low mac \<Longrightarrow>
    get_mac_addr ep_hw d = (mac, d)"
proof (drule list_6, elim exE)
  fix a b c d' e f
  assume r: "ev_reg d EP_MACH = mac_high mac" "ev_reg d EP_MACL = mac_low mac" and m: "mac = [a, b, c, d', e, f]"
  show ?thesis
    using mac_words(1-4) [of c d' e f] mac_words(1,2) [of 0 0 a b] unfolding m get_mac_addr_def
    by (simp add: regs_dev r Let_def m mac_high_def mac_low_def)
qed

lemma pf_program_dev:
  "\<exists>ws. pf_program ep_hw cfg d = Some (d\<lparr>ev_filter := ev_filter d @ ws\<rparr>) \<and>
    (\<forall>pkt. map (pf_verdict ws pkt) [23..<32] = pf_wanted cfg (ev_reg d EP_MACH) (ev_reg d EP_MACL) pkt)"
proof -
  obtain ws where ws: "pfilter_init_default cfg (ev_reg d EP_MACH) (ev_reg d EP_MACL) = Some ws"
    "\<forall>pkt. map (pf_verdict ws pkt) [23..<32] = pf_wanted cfg (ev_reg d EP_MACH) (ev_reg d EP_MACL) pkt"
    using pfilter_default_classifies by blast
  then show ?thesis by (intro exI [of _ ws]) (simp add: pf_program_def regs_dev filter_writes)
qed

lemma init_dev:
  "ep_init ep_hw mac d = d\<lparr>
    ev_reg := (ev_reg d)(EP_MACL := mac_low mac, EP_MACH := mac_high mac, EP_ECR := 0, EP_VCR0 := 3,
      EP_RFCR := 1518 * 4096, EP_TSCR := 3, EP_DMCR := 0x01000001),
    ev_resets := ev_resets d @ [2, 0]\<rparr>"
  by (simp add: ep_init_def set_mac_addr_def regs_dev Let_def mac_low_def mac_high_def)

text \<open>
  C34. Bringing the link up: \<open>ep_init\<close> and then \<open>ep_enable\<close>, with a PCS that answers after any number of polls,
  end; they leave both paths of the MAC enabled with the right sizes and modes, the MAC
  address that is read back and that the packet filter takes for the node's own, the filter with the specified
  verdict on every packet, the PHY out of reset after 200 ms of power down with the mode asked for and
  nothing advertised, and no other register of the PCS changed. Then \<open>ep_link_up\<close> tells the state of the link now.
\<close>

theorem endpoint_up:
  assumes "length mac = 6"
  shows "\<exists>d' ws mach macl. ep_enable ep_hw cfg True autoneg an0 (ep_init ep_hw mac d) = Some (autoneg, d') \<and>
    get_mac_addr ep_hw d' = (mac, d') \<and>
    ev_reg d' EP_ECR = 0xe0 \<and> ev_reg d' EP_VCR0 = 3 \<and> drop_bit 12 (ev_reg d' EP_RFCR) = 1518 \<and>
    ev_reg d' EP_TSCR = 3 \<and> ev_reg d' EP_DMCR = 0x01000001 \<and> ev_resets d' = ev_resets d @ [2, 0] \<and>
    ev_filter d' = ev_filter d @ ws \<and> (\<forall>pkt. map (pf_verdict ws pkt) [23..<32] = pf_wanted cfg mach macl pkt) \<and>
    (\<forall>pkt. is_mine mach macl pkt \<longleftrightarrow> frame_bytes (pkt 0) @ frame_bytes (pkt 1) @ frame_bytes (pkt 2) = mac) \<and>
    ev_pcs d' = (ev_pcs d)(0 := if autoneg then 0x1340 else 0x140, 4 := 0) \<and>
    ev_time d' div 100 = ev_time d div 100 + 200 \<and>
    (\<exists>d''. ep_link_up ep_hw autoneg False d' = Some (if ev_link d \<and> (autoneg \<longrightarrow> ev_aneg d) then 1 else 0, None, d''))"
proof -
  define d1 where "d1 = (ep_init ep_hw mac d)\<lparr>ev_reg := (ev_reg (ep_init ep_hw mac d))(EP_ECR := 0)\<rparr>"
  have m: "ev_reg d1 EP_MACH = mac_high mac" "ev_reg d1 EP_MACL = mac_low mac" by (simp_all add: d1_def init_dev)
  obtain ws where ws: "pf_program ep_hw cfg d1 = Some (d1\<lparr>ev_filter := ev_filter d1 @ ws\<rparr>)"
    "\<forall>pkt. map (pf_verdict ws pkt) [23..<32] = pf_wanted cfg (mac_high mac) (mac_low mac) pkt"
    using pf_program_dev [of cfg d1] unfolding m by blast
  define d2 where "d2 = d1\<lparr>ev_filter := ev_filter d1 @ ws, ev_reg := (ev_reg d1)(EP_ECR := 0xe0),
    ev_busy := 0, ev_pcs := (ev_pcs d1)(0 := 0x800)\<rparr>"
  obtain t where t: "timer_delay_ms (ep_timer ep_hw) 200 d2 = Some (d2\<lparr>ev_time := t\<rparr>)" "t div 100 = ev_time d2 div 100 + 200"
    using delay_200 by blast
  define d' where "d' = d2\<lparr>ev_time := t, ev_pcs := (ev_pcs d)(0 := if autoneg then 0x1340 else 0x140, 4 := 0)\<rparr>"
  have e: "ep_wr ep_hw EP_ECR v s = s\<lparr>ev_reg := (ev_reg s)(EP_ECR := v)\<rparr>" "ep_rd ep_hw EP_IDCODE s = (ev_reg s EP_IDCODE, s)"
    for v s by (simp_all add: regs_dev)
  have "pcs_write ep_hw 0 0x800 (d1\<lparr>ev_filter := ev_filter d1 @ ws, ev_reg := (ev_reg d1)(EP_ECR := 0xe0)\<rparr>) = Some d2"
    by (simp add: write_dev d2_def)
  then have "ep_enable ep_hw cfg True autoneg an0 (ep_init ep_hw mac d) = Some (autoneg, d')"
    unfolding ep_enable_def e d1_def [symmetric]
    using ws(1) t(1) by (simp add: e write_dev d'_def d2_def d1_def init_dev fun_upd_twist)
  moreover have "ev_reg d' = (ev_reg d1)(EP_ECR := 0xe0)" by (simp add: d'_def d2_def)
  moreover have "get_mac_addr ep_hw d' = (mac, d')"
    by (rule get_mac [OF assms]) (simp_all add: calculation m)
  moreover have "\<exists>d''. ep_link_up ep_hw autoneg False d' = Some (if ev_link d \<and> (autoneg \<longrightarrow> ev_aneg d) then 1 else 0, None, d'')"
  proof -
    have "ev_link d' = ev_link d" "ev_aneg d' = ev_aneg d" by (simp_all add: d'_def d2_def d1_def init_dev)
    then show ?thesis using ep_mdio.link_up [of autoneg False d'] by auto
  qed
  ultimately show ?thesis
    using ws(2) t(2) mine_bytes [OF assms]
    by (intro exI [of _ d'] exI [of _ ws] exI [of _ "mac_high mac"] exI [of _ "mac_low mac"])
      (simp add: d1_def init_dev d'_def d2_def)
qed

lemma endpoint_up_witness:
  "\<exists>d'. ep_enable ep_hw \<lparr>etherbone = True, nic_pfilter = False\<rparr> True True False
      (ep_init ep_hw [0x08, 0x00, 0x30, 0x12, 0x34, 0x56]
        \<lparr>ev_reg = \<lambda>_. 0, ev_filter = [], ev_resets = [], ev_pcs = \<lambda>_. 0, ev_link = True, ev_aneg = True, ev_lost = True,
         ev_pulse = False, ev_rdata = 0, ev_busy = 7, ev_lat = 5, ev_time = 12345\<rparr>) = Some (True, d') \<and>
    get_mac_addr ep_hw d' = ([0x08, 0x00, 0x30, 0x12, 0x34, 0x56], d') \<and> ev_pcs d' 0 = 0x1340 \<and>
    (\<exists>d''. ep_link_up ep_hw True False d' = Some (1, None, d''))"
proof -
  define d where "d = \<lparr>ev_reg = \<lambda>_. 0, ev_filter = [], ev_resets = [], ev_pcs = \<lambda>_. 0, ev_link = True, ev_aneg = True,
    ev_lost = True, ev_pulse = False, ev_rdata = 0, ev_busy = 7, ev_lat = 5, ev_time = 12345\<rparr>"
  have "length [0x08, 0x00, 0x30, 0x12, 0x34, 0x56 :: u8] = 6" by simp
  from endpoint_up [OF this, of "\<lparr>etherbone = True, nic_pfilter = False\<rparr>" True False d]
  show ?thesis unfolding d_def [symmetric]
    by (elim exE conjE, intro exI conjI) (assumption, assumption, simp, simp add: d_def)
qed

end
