(* ===== verification/Wrappers.thy ===== *)
theory Wrappers
  imports Wrc_ptp Endpoint Rxts
begin

text \<open>
  What the PTP daemon asks of the hardware: \<open>lib/ptp-noposix-wrappers.c\<close> and, of the build with PPSi,
  \<open>lib/ppsi-wrappers.c\<close>, which has the same functions. They put the SoftPLL, the endpoint, the PPS generator and
  the calibration together. The names of interfaces and the priorities are ignored by the code and left out.
\<close>

abbreviation (input) PTPD_NETIF_READY :: int where "PTPD_NETIF_READY \<equiv> 1"
abbreviation (input) PTPD_NETIF_OK :: int where "PTPD_NETIF_OK \<equiv> 0"
abbreviation (input) PTPD_NETIF_ERROR :: int where "PTPD_NETIF_ERROR \<equiv> - 1"
abbreviation (input) PTPD_NETIF_TX :: int where "PTPD_NETIF_TX \<equiv> 1"
abbreviation (input) HEXP_PORT_MODE_WR_MASTER :: int where "HEXP_PORT_MODE_WR_MASTER \<equiv> 1"
abbreviation (input) HEXP_PORT_MODE_WR_SLAVE :: int where "HEXP_PORT_MODE_WR_SLAVE \<equiv> 2"

text \<open>The two time stamp counters, which nothing sets or reads, are left out.\<close>

record hexp_port_state =
  po_valid :: int
  po_mode :: int
  po_delta_tx :: u32
  po_delta_rx :: u32
  po_phase_val :: u32
  po_phase_val_valid :: int
  po_up :: int
  po_tx_calibrated :: int
  po_rx_calibrated :: int
  po_is_locked :: int
  po_lock_priority :: int
  po_phase_setpoint :: u32
  po_clock_period :: u32
  po_t2_phase_transition :: u32
  po_t4_phase_transition :: u32
  po_hw_addr :: "u8 list"
  po_hw_index :: int
  po_fiber_fix_alpha :: int

text \<open>The globals of \<open>wrc_main.c\<close> with the calibration, with their initial values.\<close>

record calib =
  sfp_alpha :: int
  sfp_deltaTx :: int
  sfp_deltaRx :: int
  cal_phase_transition :: u32

definition calib0 :: calib where
  "calib0 = \<lparr>sfp_alpha = 73622176, sfp_deltaTx = 46407, sfp_deltaRx = 167843, cal_phase_transition = 2389\<rparr>"

definition ptpd_netif_get_msec_tics :: "'s timer_io \<Rightarrow> 's \<Rightarrow> u64 \<times> 's" where
  "ptpd_netif_get_msec_tics io s = (case timer_get_tics io s of (t, s) \<Rightarrow> (ucast t, s))"

definition read_phase_val :: "board_cfg \<Rightarrow> softpll_state \<Rightarrow> (u32 \<times> int) option" where
  "read_phase_val b s =
    do {
      (dmtd_phase, _, ready) \<leftarrow> spll_read_ptracker b 0 s;
      Some (if ready \<noteq> 0 then (to_u32 dmtd_phase, 1) else (0, 0))
    }"

definition halexp_get_port_state ::
  "board_cfg \<Rightarrow> 'd ep_io \<Rightarrow> bool \<Rightarrow> calib \<Rightarrow> 'p wrc_ptp \<Rightarrow> softpll_state \<Rightarrow> 'd \<Rightarrow> (hexp_port_state \<times> 'd) option" where
  "halexp_get_port_state b io autoneg c w s d =
    do {
      let md = (if wrc_ptp_get_mode w = WRC_MODE_SLAVE then HEXP_PORT_MODE_WR_SLAVE else HEXP_PORT_MODE_WR_MASTER);
      (tx, rx, d) \<leftarrow> ep_get_deltas io (sfp_deltaTx c) (sfp_deltaRx c) d;
      (phase, valid) \<leftarrow> read_phase_val b s;
      (up, _, d) \<leftarrow> ep_link_up io autoneg False d;
      locked \<leftarrow> spll_check_lock 0 s;
      (_, setpoint) \<leftarrow> spll_get_phase_shift b 0 s;
      let (mac, d) = get_mac_addr io d;
      Some (\<lparr>po_valid = 1, po_mode = md, po_delta_tx = tx, po_delta_rx = rx, po_phase_val = phase,
        po_phase_val_valid = valid, po_up = up, po_tx_calibrated = 1, po_rx_calibrated = 1, po_is_locked = c_bool locked,
        po_lock_priority = 0, po_phase_setpoint = to_u32 setpoint, po_clock_period = 8000,
        po_t2_phase_transition = cal_phase_transition c, po_t4_phase_transition = cal_phase_transition c,
        po_hw_addr = mac, po_hw_index = 0, po_fiber_fix_alpha = sfp_alpha c\<rparr>, d)
    }"

definition ptpd_netif_get_dmtd_phase :: "board_cfg \<Rightarrow> softpll_state \<Rightarrow> (int \<times> int) option" where
  "ptpd_netif_get_dmtd_phase b s =
    do { (phase, _, ready) \<leftarrow> spll_read_ptracker b 0 s; Some (ready, phase) }"

text \<open>\<open>deltaTx\<close>, \<open>deltaRx\<close>, the alpha and the clock period; \<open>None\<close> where the code would leave them alone.\<close>

definition ptpd_netif_read_calibration_data ::
  "board_cfg \<Rightarrow> 'd ep_io \<Rightarrow> bool \<Rightarrow> calib \<Rightarrow> 'p wrc_ptp \<Rightarrow> softpll_state \<Rightarrow> 'd \<Rightarrow>
    (int \<times> (u64 \<times> u64 \<times> int \<times> int) option \<times> 'd) option" where
  "ptpd_netif_read_calibration_data b io autoneg c w s d =
    do {
      (st, d) \<leftarrow> halexp_get_port_state b io autoneg c w s d;
      if po_valid st \<noteq> 0 then
        if po_tx_calibrated st = 0 \<or> po_rx_calibrated st = 0 then Some (- 3, None, d)
        else Some (PTPD_NETIF_OK, Some (ucast (po_delta_tx st), ucast (po_delta_rx st), po_fiber_fix_alpha st,
          of_u32 (po_clock_period st)), d)
      else Some (PTPD_NETIF_OK, None, d)
    }"

definition ptpd_netif_calibrating_poll ::
  "board_cfg \<Rightarrow> 'd ep_io \<Rightarrow> bool \<Rightarrow> calib \<Rightarrow> 'p wrc_ptp \<Rightarrow> int \<Rightarrow> softpll_state \<Rightarrow> 'd \<Rightarrow> (int \<times> u64 \<times> 'd) option" where
  "ptpd_netif_calibrating_poll b io autoneg c w txrx s d =
    do {
      (_, r, d) \<leftarrow> ptpd_netif_read_calibration_data b io autoneg c w s d;
      (tx, rx, _, _) \<leftarrow> r;
      Some (PTPD_NETIF_READY, if txrx = PTPD_NETIF_TX then tx else rx, d)
    }"

definition ptpd_netif_calibration_pattern_enable :: "'d ep_io \<Rightarrow> 'd \<Rightarrow> (int \<times> 'd) option" where
  "ptpd_netif_calibration_pattern_enable io d = do { d \<leftarrow> ep_cal_pattern_enable io d; Some (PTPD_NETIF_OK, d) }"

definition ptpd_netif_calibration_pattern_disable :: "'d ep_io \<Rightarrow> 'd \<Rightarrow> (int \<times> 'd) option" where
  "ptpd_netif_calibration_pattern_disable io d = do { d \<leftarrow> ep_cal_pattern_disable io d; Some (PTPD_NETIF_OK, d) }"

definition ptpd_netif_get_port_state :: "'d ep_io \<Rightarrow> bool \<Rightarrow> 'd \<Rightarrow> (int \<times> 'd) option" where
  "ptpd_netif_get_port_state io autoneg d =
    do {
      (up, _, d) \<leftarrow> ep_link_up io autoneg False d;
      Some (if up \<noteq> 0 then PTPD_NETIF_OK else PTPD_NETIF_ERROR, d)
    }"

definition ptpd_netif_locking_enable ::
  "board_cfg \<Rightarrow> softpll_state \<Rightarrow> spll_hw \<Rightarrow> (int \<times> softpll_state \<times> spll_hw) option" where
  "ptpd_netif_locking_enable b s h =
    do {
      (s, h) \<leftarrow> spll_init b SPLL_MODE_SLAVE 0 1 s h;
      (s, h) \<leftarrow> spll_enable_ptracker 0 1 s h;
      Some (PTPD_NETIF_OK, s, h)
    }"

text \<open>
  \<open>cal\<close> is \<open>calib_t24p(WRC_MODE_SLAVE, \<dots>)\<close>, run at the first poll that finds the lock; \<open>t24p_calibrated\<close> is the static.
\<close>

definition ptpd_netif_locking_poll ::
  "('w \<Rightarrow> 'w option) \<Rightarrow> softpll_state \<Rightarrow> bool \<Rightarrow> 'w \<Rightarrow> (int \<times> bool \<times> 'w) option" where
  "ptpd_netif_locking_poll cal s t24p_calibrated w =
    do {
      locked \<leftarrow> spll_check_lock 0 s;
      (done, w) \<leftarrow> (if \<not> locked then Some (False, w)
                    else if \<not> t24p_calibrated then do { w \<leftarrow> cal w; Some (True, w) }
                    else Some (t24p_calibrated, w));
      Some (if locked then PTPD_NETIF_READY else PTPD_NETIF_ERROR, done, w)
    }"

definition ptpd_netif_enable_timing_output :: "int \<Rightarrow> spll_hw \<Rightarrow> int \<times> spll_hw" where
  "ptpd_netif_enable_timing_output enable h = (PTPD_NETIF_OK, pps_output enable h)"

definition ptpd_netif_adjust_in_progress :: "u32 \<Rightarrow> softpll_state \<Rightarrow> int option" where
  "ptpd_netif_adjust_in_progress rd_CR s =
    (if shw_pps_gen_busy rd_CR \<noteq> 0 then Some 1
     else do { busy \<leftarrow> spll_shifter_busy 0 s; Some (c_bool busy) })"

definition ptpd_netif_adjust_counters :: "board_cfg \<Rightarrow> int \<Rightarrow> int \<Rightarrow> u32 \<Rightarrow> int \<times> ppsg_write list" where
  "ptpd_netif_adjust_counters b adjust_sec adjust_nsec rd_CR =
    (0, (if adjust_sec \<noteq> 0 then snd (shw_pps_gen_adjust b PPSG_ADJUST_SEC adjust_sec rd_CR) else []) @
        (if adjust_nsec \<noteq> 0 then snd (shw_pps_gen_adjust b PPSG_ADJUST_NSEC adjust_nsec rd_CR) else []))"

definition ptpd_netif_adjust_phase ::
  "board_cfg \<Rightarrow> (int \<Rightarrow> int) \<Rightarrow> int \<Rightarrow> softpll_state \<Rightarrow> spll_hw \<Rightarrow> (int \<times> softpll_state) option" where
  "ptpd_netif_adjust_phase b fp phase_ps s h =
    do { s \<leftarrow> spll_set_phase_shift b fp SPLL_ALL_CHANNELS phase_ps s h; Some (0, s) }"

definition ptpd_netif_enable_phase_tracking :: "softpll_state \<Rightarrow> spll_hw \<Rightarrow> (int \<times> softpll_state \<times> spll_hw) option" where
  "ptpd_netif_enable_phase_tracking s h =
    do { (s, h) \<leftarrow> spll_enable_ptracker 0 1 s h; Some (PTPD_NETIF_OK, s, h) }"

end
