(* ===== verification/Commands.thy ===== *)
theory Commands
  imports Shell Ipv4 Util Wrappers
begin

text \<open>
  The shell commands, \<open>shell/cmd_*.c\<close>. The arguments are the words after the name of the command, with
  null pointers behind them; \<open>strcasecmp\<close> or \<open>atoi\<close> of a null pointer is \<open>None\<close>. A command returns
  its result, what it prints with the formatter of the shipped configurations, and the state of the parts it works
  on. Results are those of the \<open>errno.h\<close> of the LM32's C library.
\<close>

abbreviation (input) EBUSY :: int where "EBUSY \<equiv> 16"

definition argv :: "string list \<Rightarrow> nat \<Rightarrow> string option" where
  "argv args k = (if k < length args then Some (args ! k) else None)"

definition arg_is :: "string list \<Rightarrow> nat \<Rightarrow> string \<Rightarrow> bool" where
  "arg_is args k w \<longleftrightarrow> (case argv args k of None \<Rightarrow> False | Some a \<Rightarrow> strcasecmp_eq a w)"

definition atoi_arg :: "string list \<Rightarrow> nat \<Rightarrow> int option" where
  "atoi_arg args k = map_option atoi (argv args k)"

definition mprintf :: "string \<Rightarrow> pf_arg list \<Rightarrow> string option" where
  "mprintf fmt args = map_option fst (xint_vsprintf fmt args)"

abbreviation (input) NL :: string where "NL \<equiv> [CHR 0x0A]"

definition str_bytes :: "string \<Rightarrow> u8 list" where
  "str_bytes = map of_char"

section \<open>Addresses\<close>

fun decode_ip :: "nat \<Rightarrow> string \<Rightarrow> u8 list" where
  "decode_ip 0 str = []"
| "decode_ip (Suc n) str =
    (let (x, str) = fromdec str;
         str = (if str \<noteq> [] \<and> hd str = CHR ''.'' then tl str else str)
     in word_of_int x # decode_ip n str)"

definition cmd_ip :: "string list \<Rightarrow> ip_state \<Rightarrow> (int \<times> string \<times> ip_state) option" where
  "cmd_ip args p =
    (let r = (if argv args 0 = None \<or> arg_is args 0 ''get'' then Some (getIP p, p)
              else if arg_is args 0 ''set'' \<and> argv args 1 \<noteq> None
              then let ip = decode_ip 4 (args ! 1) in Some (ip, setIP ip p)
              else None)
     in case r of
       None \<Rightarrow> Some (- EINVAL, [], p)
     | Some (ip, p) \<Rightarrow> do {
         out \<leftarrow> (if needIP p then mprintf (''IP-address: in training'' @ NL) []
                 else mprintf (''IP-address: %d.%d.%d.%d'' @ NL) (map (\<lambda>b. A_int (ucast b)) ip));
         Some (0, out, p)
       })"

fun decode_mac :: "nat \<Rightarrow> string \<Rightarrow> u8 list" where
  "decode_mac 0 str = []"
| "decode_mac (Suc n) str =
    (let (x, str) = fromhex str;
         str = (if str \<noteq> [] \<and> hd str = CHR '':'' then tl str else str)
     in word_of_int x # decode_mac n str)"

definition print_mac :: "u8 list \<Rightarrow> string option" where
  "print_mac mac = mprintf (''MAC-address: %02x:%02x:%02x:%02x:%02x:%02x'' @ NL) (map (\<lambda>b. A_int (ucast b)) mac)"

text \<open>
  The functions for the persistent address are those of the build: the first returns what is
  printed and the address, filled in; the second only what is printed.
\<close>

definition cmd_mac ::
  "'s ep_io \<Rightarrow> pf_config \<Rightarrow> (u8 list \<Rightarrow> string \<times> u8 list) \<Rightarrow> (u8 list \<Rightarrow> string) \<Rightarrow> string list \<Rightarrow> 's \<Rightarrow>
    (int \<times> string \<times> 's) option" where
  "cmd_mac io cfg get_persistent set_persistent args s =
    (if argv args 0 = None \<or> arg_is args 0 ''get'' then do {
       let (mac, s) = get_mac_addr io s;
       out \<leftarrow> print_mac mac;
       Some (0, out, s)
     }
     else if arg_is args 0 ''getp'' then do {
       let (mac, s) = get_mac_addr io s;
       let (msg, mac) = get_persistent mac;
       out \<leftarrow> print_mac mac;
       Some (0, msg @ out, s)
     }
     else if arg_is args 0 ''set'' \<and> argv args 1 \<noteq> None then do {
       let mac = decode_mac 6 (args ! 1);
       s \<leftarrow> pf_program io cfg (set_mac_addr io mac s);
       out \<leftarrow> print_mac mac;
       Some (0, out, s)
     }
     else if arg_is args 0 ''setp'' \<and> argv args 1 \<noteq> None then do {
       let mac = decode_mac 6 (args ! 1);
       let msg = set_persistent mac;
       out \<leftarrow> print_mac mac;
       Some (0, msg @ out, s)
     }
     else Some (- EINVAL, [], s))"

section \<open>Time\<close>

text \<open>\<open>rs\<close> are the samples of the counters; the result has the writes to the PPS generator.\<close>

definition print_time :: "u64 \<Rightarrow> u32 \<Rightarrow> string option" where
  "print_time sec nsec = do {
     t \<leftarrow> format_time xint_vsprintf (unat sec);
     mprintf (''%s +%d nanoseconds.'' @ NL) [A_str (Some t), A_int nsec]
   }"

definition cmd_time ::
  "board_cfg \<Rightarrow> int \<Rightarrow> ppsg_cntr list \<Rightarrow> u32 \<Rightarrow> u32 \<Rightarrow> string list \<Rightarrow> (int \<times> string \<times> ppsg_write list) option" where
  "cmd_time b md rs rd_CR rd_ES args = do {
     (sec, nsec) \<leftarrow> shw_pps_gen_get_time b rs;
     if argv args 2 \<noteq> None \<and> arg_is args 0 ''set'' then
       if md \<noteq> WRC_MODE_SLAVE then do {
         sv \<leftarrow> atoi_arg args 1;
         nv \<leftarrow> atoi_arg args 2;
         Some (0, [], shw_pps_gen_set_time b (word_of_int sv) (to_u32 nv) PPSG_SET_ALL rd_CR rd_ES)
       } else Some (- EBUSY, [], [])
     else if arg_is args 0 ''setsec'' \<and> md \<noteq> WRC_MODE_SLAVE then do {
       sv \<leftarrow> atoi_arg args 1;
       Some (0, [], shw_pps_gen_set_time b (word_of_int sv) 0 PPSG_SET_SEC rd_CR rd_ES)
     }
     else if \<not> arg_is args 0 ''setsec'' \<and> arg_is args 0 ''setnsec'' \<and> md \<noteq> WRC_MODE_SLAVE then do {
       nv \<leftarrow> atoi_arg args 1;
       Some (0, [], shw_pps_gen_set_time b 0 (to_u32 nv) PPSG_SET_NSEC rd_CR rd_ES)
     }
     else if \<not> arg_is args 0 ''setsec'' \<and> \<not> arg_is args 0 ''setnsec'' \<and> arg_is args 0 ''raw'' then do {
       out \<leftarrow> mprintf (''%d %d'' @ NL) [A_int (ucast sec), A_int nsec];
       Some (0, out, [])
     }
     else do { out \<leftarrow> print_time sec nsec; Some (0, out, []) }
   }"

text \<open>The sleeps are counted: \<open>n\<close> seconds and the last value of the counter.\<close>

definition sleep_secs :: "int \<Rightarrow> nat" where
  "sleep_secs sec = unat (to_u32 sec)"

definition cmd_sleep :: "string list \<Rightarrow> int \<times> nat" where
  "cmd_sleep args =
    (let sec = (case argv args 0 of None \<Rightarrow> 1 | Some a \<Rightarrow> fst (fromdec a))
     in (0, sleep_secs sec))"

definition cmd_refresh :: "string list \<Rightarrow> int \<Rightarrow> (int \<times> string \<times> int) option" where
  "cmd_refresh args wrc_ui_refperiod =
    (if argv args 0 \<noteq> None \<and> argv args 1 = None
     then let (sec, _) = fromdec (args ! 0) in Some (0, NL, mul32 sec TICS_PER_SECOND)
     else do { out \<leftarrow> mprintf (''Usage: refresh <seconds>'' @ NL) []; Some (0, out, wrc_ui_refperiod) })"

section \<open>The EEPROM\<close>

text \<open>
  \<open>cmd_sfp\<close>: \<open>pn0\<close> is the static part number of 17 bytes, \<open>sfp0\<close> the uninitialised local structure;
  \<open>sfp_show_loop\<close> runs with the \<open>int8_t\<close> variables of the source.
\<close>

definition print_sfp :: "int \<Rightarrow> s_sfpinfo \<Rightarrow> string option" where
  "print_sfp i sfp = do {
     a \<leftarrow> mprintf ''%d: PN:'' [A_int (to_u32 (i + 1))];
     z \<leftarrow> mprintf ('' dTx: %d, dRx: %d, alpha: %d'' @ NL) [A_int (to_u32 (dTx sfp)), A_int (to_u32 (dRx sfp)), A_int (to_u32 (alpha sfp))];
     Some (a @ map (\<lambda>b. char_of (unat b)) (take 16 (pn sfp)) @ z)
   }"

partial_function (option) sfp_show_loop ::
  "'s gpio \<Rightarrow> int \<Rightarrow> int \<Rightarrow> s_sfpinfo \<Rightarrow> string \<Rightarrow> ee \<Rightarrow> 's \<Rightarrow> (string \<times> ee \<times> 's) option" where
  "sfp_show_loop io i sfpcount sfp out e s =
    (if \<not> i < sfpcount then Some (out, e, s)
     else do {
       (r, sfp, e, s) \<leftarrow> eeprom_get_sfp io WRPC_FMC_I2C FMC_EEPROM_ADR sfp False (word_of_int i) e s;
       let temp = s8 r;
       let sfpcount = (if i = 0 then temp else sfpcount);
       if i = 0 \<and> (sfpcount = 0 \<or> sfpcount = 0xFF) then do {
         m \<leftarrow> mprintf (''SFP database empty...'' @ NL) [];
         Some (out @ m, e, s)
       } else if i = 0 \<and> sfpcount = - 1 then do {
         m \<leftarrow> mprintf (''SFP database corrupted...'' @ NL) [];
         Some (out @ m, e, s)
       } else do {
         m \<leftarrow> print_sfp i sfp;
         sfp_show_loop io (s8 (i + 1)) sfpcount sfp (out @ m) e s
       }
     })"

definition sfp_of_args :: "string list \<Rightarrow> s_sfpinfo \<Rightarrow> s_sfpinfo" where
  "sfp_of_args args sfp0 =
    (let name = take 16 (str_bytes (args ! 1))
     in sfp0\<lparr>pn := name @ replicate (16 - length name) 0x20,
          dTx := atoi (args ! 2), dRx := atoi (args ! 3), alpha := atoi (args ! 4)\<rparr>)"

definition strncpy16 :: "u8 list \<Rightarrow> u8 list" where
  "strncpy16 src = (let p = takeWhile (\<lambda>b. b \<noteq> 0) (take 16 src) in p @ replicate (16 - length p) 0)"

definition cmd_sfp ::
  "'s gpio \<Rightarrow> s_sfpinfo \<Rightarrow> s_sfpinfo \<Rightarrow> string list \<Rightarrow> u8 list \<Rightarrow> calib \<Rightarrow> ee \<Rightarrow> 's \<Rightarrow>
    (int \<times> string \<times> u8 list \<times> calib \<times> ee \<times> 's) option" where
  "cmd_sfp io sfp0 dbsfp0 args pn0 c e s =
    (if arg_is args 0 ''detect'' then do {
       (m, pn0, s) \<leftarrow> (if \<not> sfp_present io s then do { m \<leftarrow> mprintf (''No SFP.'' @ NL) []; Some (m, pn0, s) }
                       else do { (_, pn0, s) \<leftarrow> sfp_read_part_id io pn0 s; Some ([], pn0, s) });
       let pn0 = pn0[16 := 0];
       t \<leftarrow> mprintf (''%s'' @ NL) [A_str (Some (map (\<lambda>b. char_of (unat b)) (takeWhile (\<lambda>b. b \<noteq> 0) pn0)))];
       Some (0, m @ t, pn0, c, e, s)
     }
     else do {
       _ \<leftarrow> argv args 0;
       if arg_is args 0 ''erase'' then do {
         (r, s) \<leftarrow> eeprom_sfpdb_erase io WRPC_FMC_I2C FMC_EEPROM_ADR e s;
         m \<leftarrow> (if r = EE_RET_I2CERR then mprintf (''Could not erase DB'' @ NL) [] else Some []);
         Some (0, m, pn0, c, e, s)
       }
       else if argv args 4 \<noteq> None \<and> arg_is args 0 ''add'' then do {
         (r, _, e, s) \<leftarrow> eeprom_get_sfp io WRPC_FMC_I2C FMC_EEPROM_ADR (sfp_of_args args sfp0) True 0 e s;
         m \<leftarrow> (if s8 r = EE_RET_DBFULL then mprintf (''SFP DB is full'' @ NL) []
               else if s8 r = EE_RET_I2CERR then mprintf (''I2C error'' @ NL) []
               else mprintf (''%d SFPs in DB'' @ NL) [A_int (to_u32 (s8 r))]);
         Some (0, m, pn0, c, e, s)
       }
       else if arg_is args 0 ''show'' then do {
         (m, e, s) \<leftarrow> sfp_show_loop io 0 1 sfp0 [] e s;
         Some (0, m, pn0, c, e, s)
       }
       else if arg_is args 0 ''match'' then
         if pn0 ! 0 = 0 then do {
           m \<leftarrow> mprintf (''Run sfp detect first'' @ NL) [];
           Some (0, m, pn0, c, e, s)
         } else do {
           (r, sfp, e, s) \<leftarrow> eeprom_match_sfp io dbsfp0 (sfp0\<lparr>pn := strncpy16 pn0\<rparr>) e s;
           if 0 < r then do {
             m \<leftarrow> mprintf (''SFP matched, dTx=%d, dRx=%d, alpha=%d'' @ NL)
               [A_int (to_u32 (dTx sfp)), A_int (to_u32 (dRx sfp)), A_int (to_u32 (alpha sfp))];
             Some (0, m, pn0, c\<lparr>sfp_deltaTx := dTx sfp, sfp_deltaRx := dRx sfp, sfp_alpha := alpha sfp\<rparr>, e, s)
           } else do {
             m \<leftarrow> mprintf (''Could not match to DB'' @ NL) [];
             Some (0, m, pn0, c, e, s)
           }
         }
       else Some (0, [], pn0, c, e, s)
     })"

text \<open>\<open>boot\<close> is \<open>shell_boot_script\<close> with its output.\<close>

definition cmd_init ::
  "'s gpio \<Rightarrow> (ee \<Rightarrow> 's \<Rightarrow> (string \<times> ee \<times> 's) option) \<Rightarrow> string list \<Rightarrow> ee \<Rightarrow> 's \<Rightarrow> (int \<times> string \<times> ee \<times> 's) option" where
  "cmd_init io boot args e s =
    (let (there, s) = mi2c_devprobe io WRPC_FMC_I2C FMC_EEPROM_ADR s
     in if \<not> there then do { m \<leftarrow> mprintf (''EEPROM not found..'' @ NL) []; Some (- 1, m, e, s) }
     else if arg_is args 0 ''erase'' then do {
       (r, s) \<leftarrow> eeprom_init_erase io WRPC_FMC_I2C FMC_EEPROM_ADR e s;
       m \<leftarrow> (if r < 0 then mprintf (''Could not erase init script'' @ NL) [] else Some []);
       Some (0, m, e, s)
     }
     else if argv args 1 \<noteq> None \<and> arg_is args 0 ''add'' then do {
       (r, s) \<leftarrow> eeprom_init_add io WRPC_FMC_I2C FMC_EEPROM_ADR (map str_bytes args) e s;
       m \<leftarrow> (if r < 0 then mprintf (''Could not add the command'' @ NL) [] else mprintf (''OK.'' @ NL) []);
       Some (0, m, e, s)
     }
     else if arg_is args 0 ''show'' then
       let (_, m, s) = eeprom_init_show io WRPC_FMC_I2C FMC_EEPROM_ADR e s in Some (0, m, e, s)
     else if arg_is args 0 ''boot'' then do { (m, e, s) \<leftarrow> boot e s; Some (0, m, e, s) }
     else Some (0, [], e, s))"

text \<open>\<open>meas\<close> is \<open>measure_t24p\<close>: its result and the value, unchanged if it fails; \<open>trans0\<close> is uninitialised.\<close>

definition cmd_calibration ::
  "'s gpio \<Rightarrow> (u32 \<Rightarrow> (int \<times> u32) option) \<Rightarrow> u32 \<Rightarrow> string list \<Rightarrow> calib \<Rightarrow> ee \<Rightarrow> 's \<Rightarrow> (int \<times> string \<times> calib \<times> 's) option" where
  "cmd_calibration io meas trans0 args c e s =
    (if arg_is args 0 ''force'' then do {
       (r, trans) \<leftarrow> meas trans0;
       if r < 0 then Some (- 1, [], c, s)
       else do {
         (r, _, s) \<leftarrow> eeprom_phtrans io WRPC_FMC_I2C FMC_EEPROM_ADR trans True e s;
         Some (r, [], c, s)
       }
     }
     else if argv args 0 = None then do {
       (r, trans, s) \<leftarrow> eeprom_phtrans io WRPC_FMC_I2C FMC_EEPROM_ADR trans0 False e s;
       if 0 < r then do {
         m \<leftarrow> mprintf (''Found phase transition in EEPROM: %dps'' @ NL) [A_int trans];
         Some (0, m, c\<lparr>cal_phase_transition := trans\<rparr>, s)
       } else do {
         m \<leftarrow> mprintf (''Measuring t2/t4 phase transition...'' @ NL) [];
         (r, trans) \<leftarrow> meas trans;
         if r < 0 then Some (- 1, m, c, s)
         else do {
           (r, _, s) \<leftarrow> eeprom_phtrans io WRPC_FMC_I2C FMC_EEPROM_ADR trans True e s;
           Some (r, m, c\<lparr>cal_phase_transition := trans\<rparr>, s)
         }
       }
     }
     else Some (0, [], c, s))"

section \<open>The SoftPLL and the PTP daemon\<close>

definition cmd_pll ::
  "board_cfg \<Rightarrow> (int \<Rightarrow> int) \<Rightarrow> (softpll_state \<Rightarrow> spll_hw \<Rightarrow> string) \<Rightarrow> string list \<Rightarrow> softpll_state \<Rightarrow> spll_hw \<Rightarrow>
    (int \<times> string \<times> softpll_state \<times> spll_hw) option" where
  "cmd_pll b fp show_stats args s h =
    do {
      _ \<leftarrow> argv args 0;
      if arg_is args 0 ''init'' then
        if argv args 3 = None then Some (- EINVAL, [], s, h)
        else do {
          (s, h) \<leftarrow> spll_init b (atoi (args ! 1)) (atoi (args ! 2)) (atoi (args ! 3)) s h;
          Some (0, [], s, h)
        }
      else if arg_is args 0 ''cl'' then
        if argv args 1 = None then Some (- EINVAL, [], s, h)
        else do {
          l \<leftarrow> spll_check_lock (atoi (args ! 1)) s;
          m \<leftarrow> mprintf (''%d'' @ NL) [A_int (to_u32 (c_bool l))];
          Some (0, m, s, h)
        }
      else if arg_is args 0 ''stat'' then Some (0, show_stats s h, s, h)
      else if arg_is args 0 ''sps'' then
        if argv args 2 = None then Some (- EINVAL, [], s, h)
        else do {
          s \<leftarrow> spll_set_phase_shift b fp (atoi (args ! 1)) (atoi (args ! 2)) s h;
          Some (0, [], s, h)
        }
      else if arg_is args 0 ''gps'' then
        if argv args 1 = None then Some (- EINVAL, [], s, h)
        else do {
          (cur, tgt) \<leftarrow> spll_get_phase_shift b (atoi (args ! 1)) s;
          m \<leftarrow> mprintf (''%d %d'' @ NL) [A_int (to_u32 cur), A_int (to_u32 tgt)];
          Some (0, m, s, h)
        }
      else if arg_is args 0 ''start'' then
        if argv args 1 = None then Some (- EINVAL, [], s, h)
        else do { (s, h) \<leftarrow> spll_start_channel (atoi (args ! 1)) s h; Some (0, [], s, h) }
      else if arg_is args 0 ''stop'' then
        if argv args 1 = None then Some (- EINVAL, [], s, h)
        else do { h \<leftarrow> spll_stop_channel (atoi (args ! 1)) s h; Some (0, [], s, h) }
      else if arg_is args 0 ''sdac'' then
        if argv args 2 = None then Some (- EINVAL, [], s, h)
        else do { (s, h) \<leftarrow> spll_set_dac (atoi (args ! 1)) (atoi (args ! 2)) s h; Some (0, [], s, h) }
      else if arg_is args 0 ''gdac'' then
        if argv args 1 = None then Some (- EINVAL, [], s, h)
        else do {
          v \<leftarrow> spll_get_dac (atoi (args ! 1)) s;
          m \<leftarrow> mprintf (''%d'' @ NL) [A_int (to_u32 v)];
          Some (0, m, s, h)
        }
      else Some (- EINVAL, [], s, h)
    }"

definition mode_names :: "string list" where
  "mode_names = [''unknown'', ''grandmaster'', ''master'', ''slave'']"

definition cmd_mode ::
  "board_cfg \<Rightarrow> 'p ptpd \<Rightarrow> (softpll_state \<Rightarrow> spll_hw \<Rightarrow> lock_round list \<times> softpll_state \<times> spll_hw) \<Rightarrow> string list \<Rightarrow>
    'p wrc_ptp \<Rightarrow> softpll_state \<Rightarrow> spll_hw \<Rightarrow> (int \<times> string \<times> 'p wrc_ptp \<times> softpll_state \<times> spll_hw) option" where
  "cmd_mode b pd env args w s h =
    do {
      _ \<leftarrow> argv args 0;
      let md = (if arg_is args 0 ''gm'' then Some WRC_MODE_GM
                else if arg_is args 0 ''master'' then Some WRC_MODE_MASTER
                else if arg_is args 0 ''slave'' then Some WRC_MODE_SLAVE else None);
      case md of
        Some md \<Rightarrow> do {
          (rv, w, s, h) \<leftarrow> wrc_ptp_set_mode b pd env md w s h;
          Some (rv, [], w, s, h)
        }
      | None \<Rightarrow> do {
          n \<leftarrow> aget mode_names (wrc_ptp_get_mode w);
          m \<leftarrow> mprintf (''%s'' @ NL) [A_str (Some n)];
          Some (0, m, w, s, h)
        }
    }"

definition cmd_ptp :: "'p ptpd \<Rightarrow> string list \<Rightarrow> 'p wrc_ptp \<Rightarrow> spll_hw \<Rightarrow> (int \<times> 'p wrc_ptp \<times> spll_hw) option" where
  "cmd_ptp pd args w h =
    do {
      _ \<leftarrow> argv args 0;
      if arg_is args 0 ''start'' then let (r, w) = wrc_ptp_start pd w in Some (r, w, h)
      else if arg_is args 0 ''stop'' then Some (wrc_ptp_stop pd w h)
      else Some (- EINVAL, w, h)
    }"

text \<open>\<open>track\<close> is \<open>wr_servo_enable_tracking\<close> of the daemon.\<close>

definition cmd_ptrack ::
  "(bool \<Rightarrow> 'p \<Rightarrow> 'p) \<Rightarrow> string list \<Rightarrow> bool \<Rightarrow> 'p \<Rightarrow> (int \<times> string \<times> bool \<times> 'p) option" where
  "cmd_ptrack track args wrc_phase_tracking d =
    do {
      let (t, d) = (if arg_is args 0 ''enable'' then (True, track True d)
                    else if arg_is args 0 ''disable'' then (False, track False d)
                    else (wrc_phase_tracking, d));
      m \<leftarrow> mprintf (''phase tracking %s'' @ NL) [A_str (Some (if t then ''ON'' else ''OFF''))];
      Some (0, m, t, d)
    }"

section \<open>The rest\<close>

text \<open>The new \<open>wrc_ui_mode\<close>: 1 for the monitor, 2 for the statistics.\<close>

definition cmd_gui :: "string list \<Rightarrow> int \<times> int" where
  "cmd_gui args = (0, 1)"

definition cmd_stat :: "'s ep_io \<Rightarrow> string list \<Rightarrow> int \<Rightarrow> 's \<Rightarrow> (int \<times> string \<times> int \<times> 's) option" where
  "cmd_stat io args wrc_ui_mode s =
    do {
      _ \<leftarrow> argv args 0;
      if arg_is args 0 ''bts'' then do {
        (v, s) \<leftarrow> ep_get_bitslide io s;
        m \<leftarrow> mprintf (''%d ps'' @ NL) [A_int (to_u32 v)];
        Some (0, m, wrc_ui_mode, s)
      } else Some (0, [], 2, s)
    }"

definition cmd_help :: "'w command list \<Rightarrow> (int \<times> string) option" where
  "cmd_help cmds =
    do {
      a \<leftarrow> mprintf (''Available commands:'' @ NL) [];
      ls \<leftarrow> those (map (\<lambda>p. mprintf (''  %s'' @ NL) [A_str (Some (fst p))]) cmds);
      Some (0, a @ concat ls)
    }"

definition sysc_get_memsize :: "u32 \<Rightarrow> int" where
  "sysc_get_memsize hwfr = mul32 (of_u32 (hwfr AND 0xf) + 1) 16"

definition cmd_ver :: "string \<Rightarrow> string \<Rightarrow> string \<Rightarrow> int \<Rightarrow> int \<Rightarrow> u32 \<Rightarrow> (int \<times> string) option" where
  "cmd_ver build_revision support build_date ramsize stacksize hwfr =
    do {
      let hwram = sysc_get_memsize hwfr;
      a \<leftarrow> mprintf (''WR Core build: %s%s'' @ NL) [A_str (Some build_revision), A_str (Some support)];
      d \<leftarrow> mprintf ''%s'' [A_str (Some build_date)];
      z \<leftarrow> mprintf (''Built for %d kB RAM, stack is %d bytes'' @ NL) [A_int (to_u32 (ramsize sdiv 1024)), A_int (to_u32 stacksize)];
      w \<leftarrow> (if hwram sdiv 16 \<noteq> ramsize sdiv 1024 sdiv 16
            then mprintf (''WARNING: hardware says %ikB <= RAM < %ikB'' @ NL) [A_int (to_u32 hwram), A_int (to_u32 (hwram + 16))]
            else Some []);
      Some (0, a @ d @ z @ w)
    }"

text \<open>\<open>parse\<close> is \<open>pp_diag_parse\<close> of PPSi.\<close>

definition cmd_verbose :: "(string \<Rightarrow> u32) \<Rightarrow> string list \<Rightarrow> (int \<times> string \<times> u32) option" where
  "cmd_verbose parse args =
    do {
      a \<leftarrow> argv args 0;
      m \<leftarrow> mprintf (''PPSI verbosity: %08lx'' @ NL) [A_int (parse a)];
      Some (0, m, parse a)
    }"

end
