(* ===== verification/Commands_Props.thy ===== *)
theory Commands_Props
  imports Commands Printf_Props
begin

text \<open>
  The shell commands: what they print for an address is what they read, and what goes wrong when the
  arguments are missing or out of range.
\<close>

section \<open>Numbers\<close>

lemma hex_digit_dchar: "d < 16 \<Longrightarrow> hex_digit_val (dchar d) = Some (int d)"
proof -
  assume d: "d < 16"
  have "list_all (\<lambda>d. hex_digit_val (dchar d) = Some (int d)) [0..<16]" by code_simp
  then show ?thesis using d by (simp add: list_all_iff)
qed

definition no_hex :: "string \<Rightarrow> bool" where
  "no_hex cs \<longleftrightarrow> cs = [] \<or> hex_digit_val (hd cs) = None"

definition no_dec :: "string \<Rightarrow> bool" where
  "no_dec cs \<longleftrightarrow> cs = [] \<or> \<not> is_digit (hd cs)"

lemma fromhex_stop: "no_hex rest \<Longrightarrow> fromhex_loop v rest = (v, rest)"
  by (cases rest) (auto simp: no_hex_def)

lemma fromdec_stop: "no_dec rest \<Longrightarrow> fromdec_loop v rest = (v, rest)"
  by (cases rest) (auto simp: no_dec_def)

definition hex2 :: "u8 \<Rightarrow> string" where
  "hex2 b = [dchar (unat b div 16), dchar (unat b mod 16)]"

lemma byte_less: "unat (b :: u8) < 256"
  using unsigned_less [of b, where 'a = nat] by simp

lemma byte32 [simp]: "unat (ucast (b :: u8) :: u32) = unat b"
  using byte_less [of b] by (simp add: unsigned_ucast_eq take_bit_nat_eq_self)

lemma hex_item: "item_out (P_hex True 2 (ucast (b :: u8))) = hex2 b"
proof (cases "unat b < 16")
  case True
  then show ?thesis
    by (simp add: hex2_def pad_num_def numeral_of_def rdigits_small dchar_def hex_asc_def)
next
  case False
  have "unat b div 16 < 16" using byte_less [of b] by simp
  then show ?thesis
    using False by (simp add: hex2_def pad_num_def numeral_of_def rdigits_small rdigits_big)
qed

lemma fromhex_hex2:
  assumes "no_hex rest"
  shows "fromhex (hex2 b @ rest) = (uint b, rest)"
proof -
  have d: "unat b div 16 < 16" "unat b mod 16 < 16" using byte_less [of b] by simp_all
  have s: "int (unat b div 16) \<le> 15" using d(1) by linarith
  have "add32 (shl32 0 4) (int (unat b div 16)) = int (unat b div 16)"
    using s by (simp add: c_arith s32_small)
  moreover have "add32 (shl32 (int (unat b div 16)) 4) (int (unat b mod 16)) = uint b"
  proof -
    have "push_bit 4 (int (unat b div 16)) + int (unat b mod 16) = int (unat b)"
      by (simp add: push_bit_eq_mult zdiv_int zmod_int)
    moreover have "shl32 (int (unat b div 16)) 4 = push_bit 4 (int (unat b div 16))"
      using s by (simp add: shl32_def push_bit_eq_mult s32_small)
    moreover have "s32 (uint b) = uint b"
    proof (rule s32_small)
      have u: "uint b < 256" "0 \<le> uint b" using unsigned_less [of b, where 'a = int] by simp_all
      show "- 2147483648 \<le> uint b" by (rule order_trans [OF _ u(2)]) simp
      show "uint b < 2147483648" by (rule less_trans [OF u(1)]) simp
    qed
    ultimately show ?thesis by (simp add: add32_def)
  qed
  ultimately show ?thesis
    using d by (simp add: fromhex_def hex2_def hex_digit_dchar fromhex_stop [OF assms])
qed

lemma fromdec_digits:
  "list_all (\<lambda>d. d < 10) ds \<Longrightarrow> no_dec rest \<Longrightarrow>
    fromdec_loop (s32 a) (map dchar ds @ rest) = (s32 (foldl (\<lambda>a d. a * 10 + int d) a ds), rest)"
proof (induction ds arbitrary: a)
  case Nil
  then show ?case by (simp add: fromdec_stop)
next
  case (Cons d ds)
  have d: "is_digit (dchar d)" "(of_char (dchar d) :: nat) = d + 48" using Cons.prems dchar_digit [of d] by auto
  have "add32 (mul32 (s32 a) 10) (int (of_char (dchar d)) - 48) = s32 (a * 10 + int d)"
    by (simp add: c_arith d(2))
  then show ?case using Cons d(1) by simp
qed

lemma fromdec_numeral:
  assumes "n < 2147483648" "no_dec rest"
  shows "fromdec (numeral_of 10 n @ rest) = (int n, rest)"
proof -
  have "list_all (\<lambda>d. d < 10) (rev (rdigits 10 n))" using rdigits_less [of 10 n] by (simp add: list_all_iff)
  from fromdec_digits [OF this assms(2), of 0] show ?thesis
    using assms(1) by (simp add: fromdec_def numeral_of_def foldl_rdigits s32_small rev_map)
qed

section \<open>Addresses\<close>

definition mac_text :: "u8 list \<Rightarrow> string" where
  "mac_text mac = hex2 (mac ! 0) @ '':'' @ hex2 (mac ! 1) @ '':'' @ hex2 (mac ! 2) @ '':'' @ hex2 (mac ! 3) @ '':'' @
    hex2 (mac ! 4) @ '':'' @ hex2 (mac ! 5)"

definition lits :: "string \<Rightarrow> pf_item list" where
  "lits = map P_lit"

lemma lits_simps [simp]:
  "concat (map item_txt (lits cs)) = cs" "concat (map item_args (lits cs)) = []" "concat (map item_out (lits cs)) = cs"
  "list_all item_ok (lits cs) \<longleftrightarrow> list_all (\<lambda>c. \<not> is_percent c) cs"
  by (induction cs) (simp_all add: lits_def)

lemma print_mac_text:
  assumes "length mac = 6"
  shows "print_mac mac = Some (''MAC-address: '' @ mac_text mac @ NL)"
proof -
  obtain a b c d e f where m: "mac = [a, b, c, d, e, f]" using list_6 [OF assms] by blast
  define items where "items = lits ''MAC-address: '' @ [P_hex True 2 (ucast a)] @ lits '':'' @ [P_hex True 2 (ucast b)] @ lits '':'' @
    [P_hex True 2 (ucast c)] @ lits '':'' @ [P_hex True 2 (ucast d)] @ lits '':'' @ [P_hex True 2 (ucast e)] @ lits '':'' @
    [P_hex True 2 (ucast f)] @ lits NL"
  have ok: "list_all item_ok items" by (simp add: items_def is_percent_def)
  have "concat (map item_txt items) = ''MAC-address: %02x:%02x:%02x:%02x:%02x:%02x'' @ NL"
    by (simp add: items_def width_txt_def dchar_def hex_asc_def)
  moreover have "concat (map item_args items) = map (\<lambda>b. A_int (ucast b)) mac" by (simp add: items_def m)
  moreover have "concat (map item_out items) = ''MAC-address: '' @ mac_text mac @ NL"
    unfolding items_def by (simp add: hex_item mac_text_def m del: item_out.simps(7))
  ultimately show ?thesis using xint_items [OF ok] by (simp add: print_mac_def mprintf_def)
qed

lemma decode_mac_step:
  assumes "no_hex rest"
  shows "decode_mac (Suc n) (hex2 b @ rest) =
    b # decode_mac n (if rest \<noteq> [] \<and> hd rest = CHR '':'' then tl rest else rest)"
  by (simp add: fromhex_hex2 [OF assms])

lemma decode_mac_text: "length mac = 6 \<Longrightarrow> decode_mac 6 (mac_text mac) = mac"
proof (drule list_6, elim exE)
  fix a b c d e f assume m: "mac = [a, b, c, d, e, f]"
  have n: "no_hex ('':'' @ cs)" "no_hex []" for cs by (simp_all add: no_hex_def hex_digit_val_def is_digit_def less_eq_char_def)
  have six: "(6 :: nat) = Suc (Suc (Suc (Suc (Suc (Suc 0)))))" by simp
  have z: "decode_mac (Suc k) (hex2 b @ '':'' @ cs) = b # decode_mac k cs" "decode_mac (Suc k) (hex2 b) = b # decode_mac k []" for k b cs
    using decode_mac_step [OF n(1), of k b cs] decode_mac_step [OF n(2), of k b] by simp_all
  show "decode_mac 6 (mac_text mac) = mac" unfolding six mac_text_def m by (simp only: nth_Cons_0 nth_Cons_Suc z decode_mac.simps(1)) (simp add: z)
qed

text \<open>
  C37. What \<open>mac get\<close> prints is what \<open>mac set\<close> reads: for every address, the text that the first prints for
  a node with this address, given to the second on any node, prints the same, gives the node this
  address, which is then read back from the endpoint, and loads the packet filter so that its frames to this
  address are the node's own.
\<close>

theorem mac_command_round_trip:
  assumes "length mac = 6" "ev_reg d EP_MACH = mac_high mac" "ev_reg d EP_MACL = mac_low mac"
  shows "\<exists>t. cmd_mac ep_hw cfg gp sp [''get''] d = Some (0, ''MAC-address: '' @ t @ NL, d) \<and>
    (\<forall>d2. \<exists>d3 ws mach macl. cmd_mac ep_hw cfg gp sp [''SET'', t] d2 = Some (0, ''MAC-address: '' @ t @ NL, d3) \<and>
      get_mac_addr ep_hw d3 = (mac, d3) \<and> ev_filter d3 = ev_filter d2 @ ws \<and>
      (\<forall>pkt. map (pf_verdict ws pkt) [23..<32] = pf_wanted cfg mach macl pkt) \<and>
      (\<forall>pkt. is_mine mach macl pkt \<longleftrightarrow> frame_bytes (pkt 0) @ frame_bytes (pkt 1) @ frame_bytes (pkt 2) = mac))"
proof -
  have k: "strcasecmp_eq ''get'' ''get''" "\<not> strcasecmp_eq ''SET'' ''get''" "\<not> strcasecmp_eq ''SET'' ''getp''" "strcasecmp_eq ''SET'' ''set''"
    by code_simp+
  have get: "arg_is [''get''] 0 ''get''" using k(1) by (simp add: arg_is_def argv_def)
  have words: "\<not> arg_is [''SET'', t] 0 ''get''" "\<not> arg_is [''SET'', t] 0 ''getp''"
    "arg_is [''SET'', t] 0 ''set''" "argv [''SET'', t] 0 = Some ''SET''" "argv [''SET'', t] 1 = Some t" for t
    using k by (simp_all add: arg_is_def argv_def)
  have "\<exists>d3 ws. cmd_mac ep_hw cfg gp sp [''SET'', mac_text mac] d2 = Some (0, ''MAC-address: '' @ mac_text mac @ NL, d3) \<and>
      get_mac_addr ep_hw d3 = (mac, d3) \<and> ev_filter d3 = ev_filter d2 @ ws \<and>
      (\<forall>pkt. map (pf_verdict ws pkt) [23..<32] = pf_wanted cfg (mac_high mac) (mac_low mac) pkt)" for d2
  proof -
    define d3 where "d3 = set_mac_addr ep_hw mac d2"
    have d3: "d3 = d2\<lparr>ev_reg := (ev_reg d2)(EP_MACL := mac_low mac, EP_MACH := mac_high mac)\<rparr>"
      by (simp add: d3_def set_mac_addr_def regs_dev Let_def mac_low_def mac_high_def)
    obtain ws where ws: "pf_program ep_hw cfg d3 = Some (d3\<lparr>ev_filter := ev_filter d3 @ ws\<rparr>)"
      "\<forall>pkt. map (pf_verdict ws pkt) [23..<32] = pf_wanted cfg (mac_high mac) (mac_low mac) pkt"
      using pf_program_dev [of cfg d3] by (auto simp: d3)
    have "cmd_mac ep_hw cfg gp sp [''SET'', mac_text mac] d2 =
        Some (0, ''MAC-address: '' @ mac_text mac @ NL, d3\<lparr>ev_filter := ev_filter d3 @ ws\<rparr>)"
      using words [of "mac_text mac"] ws(1) unfolding cmd_mac_def
      by (simp add: decode_mac_text [OF assms(1)] print_mac_text [OF assms(1)] d3_def [symmetric])
    moreover have "get_mac_addr ep_hw (d3\<lparr>ev_filter := ev_filter d3 @ ws\<rparr>) = (mac, d3\<lparr>ev_filter := ev_filter d3 @ ws\<rparr>)"
      by (rule get_mac [OF assms(1)]) (simp_all add: d3)
    ultimately show ?thesis using ws(2) by (intro exI [of _ "d3\<lparr>ev_filter := ev_filter d3 @ ws\<rparr>"] exI [of _ ws]) (simp add: d3)
  qed
  moreover have "cmd_mac ep_hw cfg gp sp [''get''] d = Some (0, ''MAC-address: '' @ mac_text mac @ NL, d)"
    using get get_mac [OF assms] by (simp add: cmd_mac_def print_mac_text [OF assms(1)])
  ultimately show ?thesis using mine_bytes [OF assms(1)] by blast
qed

lemma mac_command_round_trip_witness:
  "\<exists>t. \<forall>d2. \<exists>d3. cmd_mac ep_hw \<lparr>etherbone = False, nic_pfilter = False\<rparr> (\<lambda>m. ([], m)) (\<lambda>_. []) [''SET'', t] d2 =
      Some (0, ''MAC-address: '' @ t @ NL, d3) \<and> get_mac_addr ep_hw d3 = ([0x08, 0, 0x30, 0xab, 0xcd, 0xef], d3)"
proof -
  define mac :: "u8 list" where "mac = [0x08, 0, 0x30, 0xab, 0xcd, 0xef]"
  define d :: ep_dev where "d = \<lparr>ev_reg = \<lambda>r. if r = EP_MACH then mac_high mac else mac_low mac, ev_filter = [], ev_resets = [],
    ev_pcs = \<lambda>_. 0, ev_link = True, ev_aneg = True, ev_lost = True, ev_pulse = False, ev_rdata = 0, ev_busy = 0,
    ev_lat = 0, ev_time = 0\<rparr>"
  have "length mac = 6" "ev_reg d EP_MACH = mac_high mac" "ev_reg d EP_MACL = mac_low mac" by (simp_all add: d_def mac_def)
  from mac_command_round_trip [OF this, of "\<lparr>etherbone = False, nic_pfilter = False\<rparr>" "\<lambda>m. ([], m)" "\<lambda>_. []"]
  show ?thesis unfolding mac_def by blast
qed

end
