(* ===== verification/W1_Shell.thy ===== *)
theory W1_Shell
  imports W1_Devs Commands_Props
begin

text \<open>
  The commands for the 1-wire bus, \<open>dev/w1-shell.c\<close>. A command returns its result, what it prints and the state of the bus;
  \<open>devs\<close> are the codes that the last scan has stored. The uninitialised bytes of the buffer are not printed.
\<close>

abbreviation (input) BLEN :: nat where "BLEN \<equiv> 32"

definition print_byte :: "int \<Rightarrow> int \<Rightarrow> u8 \<Rightarrow> string option" where
  "print_byte offset blen b =
    mprintf (''offset %4i (0x%03x): %3i (0x%02x)'' @ NL)
      [A_int (to_u32 (add32 offset blen)), A_int (to_u32 (add32 offset blen)), A_int (ucast b), A_int (ucast b)]"

fun print_bytes :: "int \<Rightarrow> int \<Rightarrow> u8 list \<Rightarrow> string option" where
  "print_bytes offset blen [] = Some []"
| "print_bytes offset blen (b # bs) =
    do { l \<leftarrow> print_byte offset blen b; ls \<leftarrow> print_bytes offset (blen + 1) bs; Some (l @ ls) }"

definition cmd_w1_w :: "'s w1_ops \<Rightarrow> u64 list \<Rightarrow> string list \<Rightarrow> 's \<Rightarrow> (int \<times> string \<times> 's) option" where
  "cmd_w1_w ops devs args s =
    (if argv args 0 = None \<or> argv args 1 = None then Some (- 1, [], s)
     else do {
       let offset = atoi (args ! 0);
       let buf = map (\<lambda>a. word_of_int (atoi a)) (take BLEN (drop 1 args));
       out \<leftarrow> print_bytes offset 0 buf;
       (i, s) \<leftarrow> w1_write_eeprom_bus ops devs offset buf s;
       m \<leftarrow> mprintf (''write(0x%x, %i): result = %i'' @ NL)
         [A_int (to_u32 offset), A_int (of_nat (length buf)), A_int (to_u32 i)];
       Some (if i = int (length buf) then 0 else - 1, out @ m, s)
     })"

definition cmd_w1_r :: "'s w1_ops \<Rightarrow> u64 list \<Rightarrow> string list \<Rightarrow> 's \<Rightarrow> (int \<times> string \<times> 's) option" where
  "cmd_w1_r ops devs args s =
    (if argv args 0 = None \<or> argv args 1 = None then Some (- 1, [], s)
     else do {
       let offset = atoi (args ! 0);
       let blen = min (atoi (args ! 1)) (int BLEN);
       (i, buf, s) \<leftarrow> w1_read_eeprom_bus ops devs offset blen s;
       m \<leftarrow> mprintf (''read(0x%x, %i): result = %i'' @ NL) [A_int (to_u32 offset), A_int (to_u32 blen), A_int (to_u32 i)];
       if i \<le> 0 \<or> blen < i then Some (- 1, m, s)
       else do {
         out \<leftarrow> print_bytes offset 0 (take (nat i) buf);
         Some (0, m @ out, s)
       }
     })"

definition print_temp :: "int \<Rightarrow> string option" where
  "print_temp temp =
    mprintf (''temp: %d.%04d'' @ NL)
      [A_int (to_u32 (drop_bit 16 temp)), A_int (to_u32 (drop_bit 16 (mul32 (mul32 (temp AND 0xffff) 10) 1000)))]"

fun w1_list :: "'s w1_ops \<Rightarrow> nat \<Rightarrow> u64 list \<Rightarrow> 's \<Rightarrow> (string \<times> 's) option" where
  "w1_list ops i [] s = Some ([], s)"
| "w1_list ops i (rom # devs) s =
    (if rom = 0 then w1_list ops (Suc i) devs s
     else do {
       d \<leftarrow> mprintf (''device %i: %08x%08x'' @ NL) [A_int (of_nat i), A_int (ucast (drop_bit 32 rom)), A_int (ucast rom)];
       (temp, s) \<leftarrow> w1_read_temp ops rom 0 s;
       t \<leftarrow> print_temp temp;
       (out, s) \<leftarrow> w1_list ops (Suc i) devs s;
       Some (d @ t @ out, s)
     })"

definition cmd_w1 :: "bool \<Rightarrow> 's w1_ops \<Rightarrow> 's \<Rightarrow> (int \<times> string \<times> u64 list \<times> 's) option" where
  "cmd_w1 sg ops s =
    do {
      (_, devs, s) \<leftarrow> w1_scan_bus sg ops s;
      (out, s) \<leftarrow> w1_list ops 0 devs s;
      Some (0, out, devs, s)
    }"

text \<open>The fraction is printed without the sign: half a degree below zero is shown as -1.5.\<close>

lemma print_temp_text:
  "print_temp temp = Some (''temp: '' @ item_out (P_dec False 0 (to_u32 (drop_bit 16 temp))) @ ''.'' @
    item_out (P_dec True 4 (to_u32 (drop_bit 16 (mul32 (mul32 (temp AND 0xffff) 10) 1000)))) @ NL)"
proof -
  let ?a = "P_dec False 0 (to_u32 (drop_bit 16 temp))"
  let ?b = "P_dec True 4 (to_u32 (drop_bit 16 (mul32 (mul32 (temp AND 0xffff) 10) 1000)))"
  define items where "items = lits ''temp: '' @ [?a] @ lits ''.'' @ [?b] @ lits NL"
  have "list_all item_ok items" by (simp add: items_def is_percent_def)
  moreover have "concat (map item_txt items) = ''temp: %d.%04d'' @ NL"
    by (simp add: items_def width_txt_def dchar_def hex_asc_def)
  moreover have "concat (map item_out items) = ''temp: '' @ item_out ?a @ ''.'' @ item_out ?b @ NL"
    unfolding items_def by (simp del: item_out.simps(5))
  moreover have "concat (map item_args items) = [A_int (to_u32 (drop_bit 16 temp)),
      A_int (to_u32 (drop_bit 16 (mul32 (mul32 (temp AND 0xffff) 10) 1000)))]" by (simp add: items_def)
  ultimately show ?thesis using xint_items [of items] by (simp add: print_temp_def mprintf_def)
qed

lemma print_temp_negative:
  "print_temp (- 32768) = Some (''temp: -1.5000'' @ NL)" "print_temp 98304 = Some (''temp: 1.5000'' @ NL)"
proof -
  have f: "to_u32 (drop_bit 16 (mul32 (mul32 (- 32768 AND 0xffff) 10) 1000)) = 5000" "to_u32 (drop_bit 16 (- 32768)) = - 1"
    "to_u32 (drop_bit 16 (mul32 (mul32 (98304 AND 0xffff) 10) 1000)) = 5000" "to_u32 (drop_bit 16 98304) = 1"
    by (simp_all add: c_arith to_u32_def drop_bit_eq_div)
  have t: "item_out (P_dec True 4 5000) = ''5000''" "item_out (P_dec False 0 (- 1)) = ''-1''" "item_out (P_dec False 0 1) = ''1''"
    by (simp_all add: pad_num_def dec_sign_def dec_abs_def numeral_of_def rdigits_small rdigits_big dchar_def hex_asc_def)
  show "print_temp (- 32768) = Some (''temp: -1.5000'' @ NL)" "print_temp 98304 = Some (''temp: 1.5000'' @ NL)"
    unfolding print_temp_text f t by simp_all
qed

text \<open>A sensor that does not know its class is not read: an EEPROM is listed with the lowest temperature.\<close>

lemma w1_list_eeprom: "w1_class rom = 0x43 \<Longrightarrow> w1_read_temp ops rom 0 s = Some (- 2147483648, s)"
  by (simp add: w1_read_temp_def)

end
