(* ===== verification/Sdbfs.thy ===== *)
theory Sdbfs
  imports Byte_Mem Board
begin

text \<open>
  The library for file systems in the SDB format, \<open>sdb-lib/glue.c\<close> and \<open>sdb-lib/access.c\<close>, on a big endian CPU
  with 32-bit \<open>unsigned long\<close>. A file is a record of 64 bytes in a table at \<open>entrypoint\<close>. The methods of a device are
  the argument \<open>io\<close>; \<open>fs_ready\<close> says whether they have been set. A method returns a count, or an
  error, with the bytes that it stores; \<open>None\<close> is an access through a null pointer, out of bounds, or a loop that does not end.
  The list of devices (\<open>sdbfs_dev_create\<close>, \<open>sdbfs_dev_destroy\<close>, \<open>sdbfs_dev_find\<close>) is not used by the firmware and left out.
\<close>

abbreviation (input) SDB_MAGIC :: u32 where "SDB_MAGIC \<equiv> 0x5344422d"
abbreviation (input) ENOENT :: int where "ENOENT \<equiv> 2"

record 's sdb_io =
  fs_read :: "int \<Rightarrow> int \<Rightarrow> 's \<Rightarrow> (int \<times> u8 list \<times> 's) option"
  fs_write :: "int \<Rightarrow> u8 list \<Rightarrow> 's \<Rightarrow> (int \<times> 's) option"

text \<open>A pointer to a record: to \<open>current_record\<close> or into the mapped data.\<close>

datatype sdb_ptr = P_current | P_data u32

record sdbfs =
  entrypoint :: u32
  fs_data :: "u8 list option"
  fs_ready :: bool
  current_record :: "u8 list"
  currentp :: "sdb_ptr option"
  nleft :: int
  f_offset :: u32
  f_len :: u32
  read_offset :: u32

section \<open>Records\<close>

definition over :: "u8 list \<Rightarrow> u8 list \<Rightarrow> u8 list" where
  "over bs old = bs @ drop (length bs) old"

definition rec_field :: "nat \<Rightarrow> nat \<Rightarrow> u8 list \<Rightarrow> nat" where
  "rec_field off n r = be_val (take n (drop off r))"

definition sdb_records :: "u8 list \<Rightarrow> int" where
  "sdb_records r = int (rec_field 4 2 r)"

definition sdb_addr_first :: "u8 list \<Rightarrow> u64" where
  "sdb_addr_first r = of_nat (rec_field 8 8 r)"

definition sdb_addr_last :: "u8 list \<Rightarrow> u64" where
  "sdb_addr_last r = of_nat (rec_field 16 8 r)"

definition sdb_vendor_id :: "u8 list \<Rightarrow> u64" where
  "sdb_vendor_id r = of_nat (rec_field 24 8 r)"

definition sdb_device_id :: "u8 list \<Rightarrow> u32" where
  "sdb_device_id r = of_nat (rec_field 32 4 r)"

definition sdb_name :: "u8 list \<Rightarrow> u8 list" where
  "sdb_name r = take 19 (drop 44 r)"

text \<open>Bytes of the mapped data, with the bounds of the array.\<close>

definition data_bytes :: "u8 list \<Rightarrow> u32 \<Rightarrow> int \<Rightarrow> u8 list option" where
  "data_bytes d off n =
    (if 0 \<le> n \<and> uint off + n \<le> int (length d) then Some (take (nat n) (drop (unat off) d)) else None)"

definition deref :: "sdbfs \<Rightarrow> sdb_ptr \<Rightarrow> u8 list option" where
  "deref fs p = (case p of P_current \<Rightarrow> Some (current_record fs)
     | P_data off \<Rightarrow> (case fs_data fs of None \<Rightarrow> None | Some d \<Rightarrow> data_bytes d off 64))"

definition sdbfs_readentry ::
  "'s sdb_io \<Rightarrow> sdbfs \<Rightarrow> u32 \<Rightarrow> 's \<Rightarrow> (sdb_ptr option \<times> sdbfs \<times> 's) option" where
  "sdbfs_readentry io fs offset s =
    (if fs_data fs \<noteq> None then Some (Some (P_data offset), fs, s)
     else if \<not> fs_ready fs then Some (None, fs, s)
     else do {
       (_, bs, s) \<leftarrow> fs_read io (of_u32 offset) 64 s;
       Some (Some P_current, fs\<lparr>current_record := over bs (current_record fs)\<rparr>, s)
     })"

definition sdbfs_scan ::
  "'s sdb_io \<Rightarrow> sdbfs \<Rightarrow> bool \<Rightarrow> 's \<Rightarrow> (sdb_ptr option \<times> sdbfs \<times> 's) option" where
  "sdbfs_scan io fs newscan s =
    (let fs = fs\<lparr>f_offset := (if newscan then entrypoint fs else f_offset fs + 64)\<rparr>
     in if \<not> newscan \<and> nleft fs = 0 then Some (None, fs, s)
        else do {
          (ret, fs, s) \<leftarrow> sdbfs_readentry io fs (f_offset fs) s;
          if newscan then do {
            p \<leftarrow> ret;
            i \<leftarrow> deref fs p;
            Some (ret, fs\<lparr>nleft := sdb_records i - 1\<rparr>, s)
          }
          else Some (ret, fs\<lparr>nleft := sub32 (nleft fs) 1\<rparr>, s)
        })"

section \<open>Files\<close>

definition sdb_open :: "u8 list \<Rightarrow> sdbfs \<Rightarrow> sdbfs" where
  "sdb_open r fs =
    (let first = ucast (sdb_addr_first r)
     in fs\<lparr>f_offset := first, f_len := ucast (sdb_addr_last r + 1 - ucast first), read_offset := 0\<rparr>)"

text \<open>The loops over the table open the first record with the property \<open>P\<close>.\<close>

partial_function (option) open_loop ::
  "'s sdb_io \<Rightarrow> (u8 list \<Rightarrow> bool) \<Rightarrow> sdbfs \<Rightarrow> 's \<Rightarrow> (int \<times> sdbfs \<times> 's) option" where
  "open_loop io P fs s =
    do {
      (d, fs, s) \<leftarrow> sdbfs_scan io fs False s;
      case d of
        None \<Rightarrow> Some (- ENOENT, fs, s)
      | Some p \<Rightarrow> do {
          r \<leftarrow> deref fs p;
          if P r then Some (0, sdb_open r (fs\<lparr>currentp := Some p\<rparr>), s) else open_loop io P fs s
        }
    }"

fun strncmp_same :: "nat \<Rightarrow> u8 list \<Rightarrow> u8 list \<Rightarrow> bool" where
  "strncmp_same (Suc n) (x # xs) (y # ys) \<longleftrightarrow> x = y \<and> (x = 0 \<or> strncmp_same n xs ys)"
| "strncmp_same _ _ _ \<longleftrightarrow> True"

text \<open>\<open>name\<close> without its final null character.\<close>

definition sdbfs_open_name :: "'s sdb_io \<Rightarrow> u8 list \<Rightarrow> sdbfs \<Rightarrow> 's \<Rightarrow> (int \<times> sdbfs \<times> 's) option" where
  "sdbfs_open_name io name fs s =
    (let len = length name
     in if 19 < len then Some (- ENOENT, fs, s)
        else do {
          (_, fs, s) \<leftarrow> sdbfs_scan io fs True s;
          open_loop io (\<lambda>r. strncmp_same len name (sdb_name r) \<and> (len < 19 \<longrightarrow> sdb_name r ! len = 0x20)) fs s
        })"

definition sdbfs_open_id :: "'s sdb_io \<Rightarrow> u64 \<Rightarrow> u32 \<Rightarrow> sdbfs \<Rightarrow> 's \<Rightarrow> (int \<times> sdbfs \<times> 's) option" where
  "sdbfs_open_id io vid did fs s =
    do {
      (_, fs, s) \<leftarrow> sdbfs_scan io fs True s;
      open_loop io (\<lambda>r. vid = sdb_vendor_id r \<and> did = sdb_device_id r) fs s
    }"

definition sdbfs_close :: "sdbfs \<Rightarrow> sdbfs" where
  "sdbfs_close fs = fs\<lparr>currentp := None\<rparr>"

definition sdbfs_fstat :: "sdbfs \<Rightarrow> (int \<times> u8 list) option" where
  "sdbfs_fstat fs =
    (case currentp fs of None \<Rightarrow> Some (- ENOENT, [])
     | Some p \<Rightarrow> do { r \<leftarrow> deref fs p; Some (0, r) })"

text \<open>The offset and the count of an access, cut to the file: the sum is compared as an unsigned number.\<close>

definition access_range :: "sdbfs \<Rightarrow> int \<Rightarrow> int \<Rightarrow> int \<times> int" where
  "access_range fs offset count =
    (let offset = (if offset < 0 then of_u32 (read_offset fs) else offset)
     in (offset, if f_len fs < to_u32 (add32 offset count) then of_u32 (f_len fs - to_u32 offset) else count))"

definition advance :: "int \<Rightarrow> int \<Rightarrow> sdbfs \<Rightarrow> sdbfs" where
  "advance offset ret fs = (if 0 < ret then fs\<lparr>read_offset := to_u32 (add32 offset ret)\<rparr> else fs)"

definition sdbfs_fread ::
  "'s sdb_io \<Rightarrow> int \<Rightarrow> int \<Rightarrow> sdbfs \<Rightarrow> 's \<Rightarrow> (int \<times> u8 list \<times> sdbfs \<times> 's) option" where
  "sdbfs_fread io offset count fs s =
    (if currentp fs = None then Some (- ENOENT, [], fs, s)
     else
       let (offset, cnt) = access_range fs offset count;
           pos = f_offset fs + to_u32 offset
       in case fs_data fs of
            Some d \<Rightarrow> do { bs \<leftarrow> data_bytes d pos cnt; Some (count, bs, advance offset count fs, s) }
          | None \<Rightarrow>
              if \<not> fs_ready fs then None
              else do {
                (ret, bs, s) \<leftarrow> fs_read io (of_u32 pos) cnt s;
                Some (ret, bs, advance offset ret fs, s)
              })"

text \<open>
  The caller's buffer is a result too, as the branch for mapped data copies into it. A count beyond
  the buffer is an access out of bounds; a negative count, from an offset behind the end of the file, is not followed into
  the driver.
\<close>

definition sdbfs_fwrite ::
  "'s sdb_io \<Rightarrow> int \<Rightarrow> u8 list \<Rightarrow> sdbfs \<Rightarrow> 's \<Rightarrow> (int \<times> u8 list \<times> sdbfs \<times> 's) option" where
  "sdbfs_fwrite io offset buf fs s =
    (if currentp fs = None then Some (- ENOENT, buf, fs, s)
     else
       let count = int (length buf);
           (offset, cnt) = access_range fs offset count;
           pos = f_offset fs + to_u32 offset
       in case fs_data fs of
            Some d \<Rightarrow> do { bs \<leftarrow> data_bytes d pos cnt; Some (count, over bs buf, advance offset count fs, s) }
          | None \<Rightarrow>
              if \<not> fs_ready fs \<or> cnt < 0 \<or> count < cnt then None
              else do {
                (ret, s) \<leftarrow> fs_write io (of_u32 pos) (take (nat cnt) buf) s;
                Some (ret, buf, advance offset ret fs, s)
              })"

text \<open>With mapped data a write is a read: the data stays, the buffer of the caller is overwritten.\<close>

lemma fwrite_mapped_reads:
  assumes "currentp fs \<noteq> None" "fs_data fs = Some d" "sdbfs_fwrite io 0 buf fs s = Some (ret, buf', fs', s')"
  shows "ret = int (length buf) \<and> fs_data fs' = Some d \<and> s' = s \<and>
    (\<exists>n. buf' = over (take n (drop (unat (f_offset fs)) d)) buf)"
  using assms
  by (auto simp: sdbfs_fwrite_def access_range_def advance_def data_bytes_def to_u32_def Let_def
    split: if_splits Option.bind_splits intro: exI [of _ 0])

text \<open>Without methods, as when no file system was found, the first open reads through a null pointer.\<close>

lemma open_without_methods: "fs_data fs = None \<Longrightarrow> \<not> fs_ready fs \<Longrightarrow> sdbfs_open_id io vid did fs s = None"
  by (simp add: sdbfs_open_id_def sdbfs_scan_def sdbfs_readentry_def Let_def)

end
