(* ===== verification/Sdb_eeprom.thy ===== *)
theory Sdb_eeprom
  imports Sdbfs Eeprom W1_Devs
begin

text \<open>
  The store of the configurations with \<open>CONFIG_SDB_EEPROM\<close>, \<open>dev/sdb-eeprom.c\<close>: the same functions as \<open>dev/eeprom.c\<close>, but
  on files of an SDB file system, which is looked for in the EEPROM of the 1-wire bus. \<open>st\<close> holds the variables of the
  file: the file system and the static variables of two functions. What is printed is part of the result of the functions that
  only print; other messages are left out.
\<close>

abbreviation (input) SDB_VENDOR :: u64 where "SDB_VENDOR \<equiv> 0x46696c6544617461"
abbreviation (input) SDB_DEV_INIT :: u32 where "SDB_DEV_INIT \<equiv> 0x77722d69"
abbreviation (input) SDB_DEV_MAC :: u32 where "SDB_DEV_MAC \<equiv> 0x6d61632d"
abbreviation (input) SDB_DEV_SFP :: u32 where "SDB_DEV_SFP \<equiv> 0x7366702d"
abbreviation (input) SDB_DEV_CALIB :: u32 where "SDB_DEV_CALIB \<equiv> 0x63616c69"

record sdb_st =
  wrc_sdb :: sdbfs
  st_has_eeprom :: bool
  st_sfpcount :: u8
  st_ptr :: u16

text \<open>Their initial values; the file system has no method yet.\<close>

definition sdb_st0 :: sdb_st where
  "sdb_st0 = \<lparr>wrc_sdb = \<lparr>entrypoint = 0, fs_data = None, fs_ready = False, current_record = replicate 64 0, currentp = None,
      nleft = 0, f_offset = 0, f_len = 0, read_offset = 0\<rparr>,
    st_has_eeprom = False, st_sfpcount = 0, st_ptr = 0\<rparr>"

definition sdb_w1_io :: "'s w1_ops \<Rightarrow> u64 list \<Rightarrow> 's sdb_io" where
  "sdb_w1_io ops devs = \<lparr>fs_read = w1_read_eeprom_bus ops devs, fs_write = w1_write_eeprom_bus ops devs\<rparr>"

text \<open>The file operations on \<open>wrc_sdb\<close>.\<close>

definition sdb_open_file :: "'s sdb_io \<Rightarrow> u32 \<Rightarrow> sdb_st \<Rightarrow> 's \<Rightarrow> (int \<times> sdb_st \<times> 's) option" where
  "sdb_open_file io did st s =
    do { (r, fs, s) \<leftarrow> sdbfs_open_id io SDB_VENDOR did (wrc_sdb st) s; Some (r, st\<lparr>wrc_sdb := fs\<rparr>, s) }"

definition sdb_fread :: "'s sdb_io \<Rightarrow> int \<Rightarrow> int \<Rightarrow> sdb_st \<Rightarrow> 's \<Rightarrow> (int \<times> u8 list \<times> sdb_st \<times> 's) option" where
  "sdb_fread io offset count st s =
    do { (r, bs, fs, s) \<leftarrow> sdbfs_fread io offset count (wrc_sdb st) s; Some (r, bs, st\<lparr>wrc_sdb := fs\<rparr>, s) }"

definition sdb_fwrite :: "'s sdb_io \<Rightarrow> int \<Rightarrow> u8 list \<Rightarrow> sdb_st \<Rightarrow> 's \<Rightarrow> (int \<times> sdb_st \<times> 's) option" where
  "sdb_fwrite io offset buf st s =
    do { (r, _, fs, s) \<leftarrow> sdbfs_fwrite io offset buf (wrc_sdb st) s; Some (r, st\<lparr>wrc_sdb := fs\<rparr>, s) }"

definition sdb_close :: "sdb_st \<Rightarrow> sdb_st" where
  "sdb_close st = st\<lparr>wrc_sdb := sdbfs_close (wrc_sdb st)\<rparr>"

section \<open>The file system\<close>

text \<open>What \<open>eeprom_sdb_list\<close> reads of the table: identity, address and name of its records.\<close>

partial_function (option) sdb_list ::
  "'s sdb_io \<Rightarrow> bool \<Rightarrow> sdbfs \<Rightarrow> 's \<Rightarrow> ((u32 \<times> u32 \<times> u8 list) list \<times> sdbfs \<times> 's) option" where
  "sdb_list io new fs s =
    do {
      (d, fs, s) \<leftarrow> sdbfs_scan io fs new s;
      case d of
        None \<Rightarrow> Some ([], fs, s)
      | Some p \<Rightarrow> do {
          r \<leftarrow> deref fs p;
          let fs = fs\<lparr>current_record := (current_record fs)[63 := 0]\<rparr>;
          (out, fs, s) \<leftarrow> sdb_list io False fs s;
          Some ((sdb_device_id r, ucast (sdb_addr_first r), takeWhile (\<lambda>b. b \<noteq> 0) (sdb_name r)) # out, fs, s)
        }
    }"

text \<open>The search for the magic number; \<open>magic\<close> is the number read last.\<close>

fun find_magic :: "'s sdb_io \<Rightarrow> int list \<Rightarrow> u32 \<Rightarrow> 's \<Rightarrow> (u32 \<times> 's) option" where
  "find_magic io [] magic s = Some (magic, s)"
| "find_magic io (e # es) magic s =
    do {
      (ret, bs, s) \<leftarrow> fs_read io e 4 s;
      let magic = word_of_nat (be_val (over bs (be_bytes 4 (unat magic))));
      if ret \<noteq> 4 \<or> magic = SDB_MAGIC then Some (magic, s) else find_magic io es magic s
    }"

definition entry_points :: "int list" where
  "entry_points = [0, 64, 128, 256, 512, 1024]"

definition sdb_eeprom_present :: "'s sdb_io \<Rightarrow> sdb_st \<Rightarrow> 's \<Rightarrow> (int \<times> sdb_st \<times> 's) option" where
  "sdb_eeprom_present io st s =
    do {
      (magic, s) \<leftarrow> find_magic io entry_points 0 s;
      if magic = SDB_MAGIC then do {
        (_, fs, s) \<leftarrow> sdb_list io True ((wrc_sdb st)\<lparr>fs_ready := True\<rparr>) s;
        Some (0, st\<lparr>wrc_sdb := fs, st_has_eeprom := True\<rparr>, s)
      } else Some (0, st, s)
    }"

section \<open>The MAC address\<close>

definition sdb_get_persistent_mac ::
  "'s sdb_io \<Rightarrow> u64 list \<Rightarrow> u8 list \<Rightarrow> sdb_st \<Rightarrow> 's \<Rightarrow> (int \<times> u8 list \<times> sdb_st \<times> 's) option" where
  "sdb_get_persistent_mac io devs mac st s =
    do {
      (r, st, s) \<leftarrow> sdb_open_file io SDB_DEV_MAC st s;
      if r < 0 then Some (- 1, mac, st, s)
      else do {
        (ret, bs, st, s) \<leftarrow> sdb_fread io 0 6 st s;
        let mac = over bs mac;
        let st = sdb_close st;
        let ret = (if mac ! 0 = 0xff \<or> mac ! 0 OR mac ! 1 OR mac ! 2 OR mac ! 3 OR mac ! 4 OR mac ! 5 = 0 then - 1 else ret);
        if ret < 0
        then if \<exists>rom\<in>set devs. w1_class rom = 0x28 \<or> w1_class rom = 0x42 then Some (0, mac_of_bus devs mac, st, s)
          else Some (- 1, mac, st, s)
        else Some (0, mac, st, s)
      }
    }"

definition sdb_set_persistent_mac :: "'s sdb_io \<Rightarrow> u8 list \<Rightarrow> sdb_st \<Rightarrow> 's \<Rightarrow> (int \<times> sdb_st \<times> 's) option" where
  "sdb_set_persistent_mac io mac st s =
    do {
      (ret, st, s) \<leftarrow> sdb_open_file io SDB_DEV_MAC st s;
      (ret, st, s) \<leftarrow> (if 0 \<le> ret then sdb_fwrite io 0 mac st s else Some (ret, st, s));
      Some (if ret < 0 then - 1 else 0, sdb_close st, s)
    }"

section \<open>The data base of SFPs\<close>

definition sdb_sfpdb_erase :: "'s sdb_io \<Rightarrow> sdb_st \<Rightarrow> 's \<Rightarrow> (int \<times> sdb_st \<times> 's) option" where
  "sdb_sfpdb_erase io st s =
    do {
      (r, st, s) \<leftarrow> sdb_open_file io SDB_DEV_SFP st s;
      if r < 0 then Some (- 1, st, s)
      else do {
        (ret, st, s) \<leftarrow> sdb_fwrite io 0 [0] st s;
        Some (if ret = 1 then 0 else - 1, sdb_close st, s)
      }
    }"

text \<open>A record is 29 bytes, the last one its checksum; \<open>ret\<close> is -1 at the label \<open>out\<close> unless it was set.\<close>

definition sdb_get_sfp ::
  "'s sdb_io \<Rightarrow> s_sfpinfo \<Rightarrow> bool \<Rightarrow> u8 \<Rightarrow> sdb_st \<Rightarrow> 's \<Rightarrow> (int \<times> s_sfpinfo \<times> sdb_st \<times> 's) option" where
  "sdb_get_sfp io sfp add pos st s =
    (if SFPS_MAX \<le> pos then Some (EE_RET_POSERR, sfp, st, s)
     else do {
       (r, st, s) \<leftarrow> sdb_open_file io SDB_DEV_SFP st s;
       if r < 0 then Some (- 1, sfp, st, s)
       else do {
         (r, bs, st, s) \<leftarrow> (if pos = 0 then sdb_fread io 0 1 st s else Some (1, [], st, s));
         let st = (case bs of [c] \<Rightarrow> st\<lparr>st_sfpcount := c\<rparr> | _ \<Rightarrow> st);
         if r \<noteq> 1 then Some (- 1, sfp, sdb_close st, s)
         else if add \<and> st_sfpcount st = SFPS_MAX then Some (EE_RET_DBFULL, sfp, st, s)
         else if pos = 0 \<and> \<not> add \<and> st_sfpcount st = 0 then Some (0, sfp, st, s)
         else if \<not> add then do {
           (r, bs, st, s) \<leftarrow> sdb_fread io (1 + 29 * uint pos) 29 st s;
           let sfp = sfp_of (over bs (sfp_image sfp));
           Some (if r \<noteq> 29 \<or> sum_list (sfp_body sfp) \<noteq> chksum sfp then - 1 else uint (st_sfpcount st), sfp, sdb_close st, s)
         } else do {
           let sfp = sfp\<lparr>chksum := sum_list (sfp_body sfp)\<rparr>;
           (r, st, s) \<leftarrow> sdb_fwrite io (1 + 29 * uint (st_sfpcount st)) (sfp_image sfp) st s;
           if r \<noteq> 29 then Some (- 1, sfp, sdb_close st, s)
           else do {
             let st = st\<lparr>st_sfpcount := st_sfpcount st + 1\<rparr>;
             (r, st, s) \<leftarrow> sdb_fwrite io 0 [st_sfpcount st] st s;
             Some (if r \<noteq> 1 then - 1 else uint (st_sfpcount st), sfp, sdb_close st, s)
           }
         }
       }
     })"

text \<open>As in \<open>dev/eeprom.c\<close>, \<open>i\<close> is an \<open>int8_t\<close> and \<open>sfpcount\<close> an \<open>uint8_t\<close> that is never below zero.\<close>

partial_function (option) sdb_match_loop ::
  "'s sdb_io \<Rightarrow> int \<Rightarrow> u8 \<Rightarrow> s_sfpinfo \<Rightarrow> s_sfpinfo \<Rightarrow> sdb_st \<Rightarrow> 's \<Rightarrow> (int \<times> s_sfpinfo \<times> sdb_st \<times> 's) option" where
  "sdb_match_loop io i sfpcount dbsfp sfp st s =
    (if \<not> i < uint sfpcount then Some (0, sfp, st, s)
     else do {
       (temp, dbsfp, st, s) \<leftarrow> sdb_get_sfp io dbsfp False (word_of_int i) st s;
       let sfpcount = (if i = 0 then word_of_int (s8 temp) else sfpcount);
       if i = 0 \<and> (sfpcount = 0 \<or> sfpcount = 0xFF) then Some (0, sfp, st, s)
       else if strncmp_same 16 (pn dbsfp) (pn sfp)
       then Some (1, sfp\<lparr>dTx := dTx dbsfp, dRx := dRx dbsfp, alpha := alpha dbsfp\<rparr>, st, s)
       else sdb_match_loop io (s8 (i + 1)) sfpcount dbsfp sfp st s
     })"

definition sdb_match_sfp ::
  "'s sdb_io \<Rightarrow> s_sfpinfo \<Rightarrow> s_sfpinfo \<Rightarrow> sdb_st \<Rightarrow> 's \<Rightarrow> (int \<times> s_sfpinfo \<times> sdb_st \<times> 's) option" where
  "sdb_match_sfp io dbsfp sfp st s = sdb_match_loop io 0 1 dbsfp sfp st s"

section \<open>The phase transition\<close>

abbreviation (input) VALIDITY_BIT :: u32 where "VALIDITY_BIT \<equiv> 0x80000000"

text \<open>\<open>value0\<close> is the uninitialised local variable.\<close>

definition sdb_phtrans ::
  "'s sdb_io \<Rightarrow> u32 \<Rightarrow> bool \<Rightarrow> sdb_st \<Rightarrow> 's \<Rightarrow> (int \<times> u32 \<times> sdb_st \<times> 's) option" where
  "sdb_phtrans io val wr st s =
    do {
      (r, st, s) \<leftarrow> sdb_open_file io SDB_DEV_CALIB st s;
      if r < 0 then Some (- 1, val, st, s)
      else if wr then do {
        (r, st, s) \<leftarrow> sdb_fwrite io 0 (be_bytes 4 (unat (val OR VALIDITY_BIT))) st s;
        Some (if r \<noteq> 4 then - 1 else 1, val, sdb_close st, s)
      } else do {
        (r, bs, st, s) \<leftarrow> sdb_fread io 0 4 st s;
        if r \<noteq> 4 then Some (- 1, val, sdb_close st, s)
        else do {
          let value = (word_of_nat (be_val bs) :: u32);
          Some (if value AND VALIDITY_BIT \<noteq> 0 then 1 else 0, value AND NOT VALIDITY_BIT, sdb_close st, s)
        }
      }
    }"

section \<open>The init script\<close>

definition sdb_init_erase :: "'s sdb_io \<Rightarrow> sdb_st \<Rightarrow> 's \<Rightarrow> (int \<times> sdb_st \<times> 's) option" where
  "sdb_init_erase io st s =
    do {
      (r, st, s) \<leftarrow> sdb_open_file io SDB_DEV_INIT st s;
      if r < 0 then Some (- 1, st, s)
      else do {
        (ret, st, s) \<leftarrow> sdb_fwrite io 0 (be_bytes 2 0) st s;
        Some (if ret = 2 then 0 else - 1, sdb_close st, s)
      }
    }"

fun sdb_add_words :: "'s sdb_io \<Rightarrow> u8 list list \<Rightarrow> u16 \<Rightarrow> sdb_st \<Rightarrow> 's \<Rightarrow> (u16 option \<times> sdb_st \<times> 's) option" where
  "sdb_add_words io [] used st s = Some (Some used, st, s)"
| "sdb_add_words io (w # ws) used st s =
    do {
      (r, st, s) \<leftarrow> sdb_fwrite io (2 + uint used) w st s;
      if r \<noteq> int (length w) then Some (None, st, s)
      else do {
        let used = used + word_of_nat (length w);
        (r, st, s) \<leftarrow> sdb_fwrite io (2 + uint used) [0x20] st s;
        if r \<noteq> 1 then Some (None, st, s) else sdb_add_words io ws (used + 1) st s
      }
    }"

definition sdb_init_add :: "'s sdb_io \<Rightarrow> u8 list list \<Rightarrow> sdb_st \<Rightarrow> 's \<Rightarrow> (int \<times> sdb_st \<times> 's) option" where
  "sdb_init_add io args st s =
    do {
      (r, st, s) \<leftarrow> sdb_open_file io SDB_DEV_INIT st s;
      if r < 0 then Some (- 1, st, s)
      else do {
        (r, bs, st, s) \<leftarrow> sdb_fread io 0 2 st s;
        if r \<noteq> 2 then Some (- 1, sdb_close st, s)
        else do {
          let used = (word_of_nat (be_val bs) :: u16);
          (u, st, s) \<leftarrow> sdb_add_words io (tl args) (if 256 < used then 0 else used) st s;
          case u of
            None \<Rightarrow> Some (- 1, sdb_close st, s)
          | Some used \<Rightarrow> do {
              (r, st, s) \<leftarrow> sdb_fwrite io (2 + uint used - 1) [0x0A] st s;
              if r \<noteq> 1 then Some (- 1, sdb_close st, s)
              else do {
                (r, st, s) \<leftarrow> sdb_fwrite io 0 (be_bytes 2 (unat used)) st s;
                if r \<noteq> 2 then Some (- 1, sdb_close st, s)
                else do {
                  (r, _, st, s) \<leftarrow> sdb_fread io 0 2 st s;
                  Some (if r \<noteq> 2 then - 1 else 0, sdb_close st, s)
                }
              }
            }
        }
      }
    }"

text \<open>The bytes printed, read one after the other; \<open>n\<close> are left.\<close>

fun sdb_show_bytes :: "'s sdb_io \<Rightarrow> nat \<Rightarrow> sdb_st \<Rightarrow> 's \<Rightarrow> (int \<times> u8 list \<times> sdb_st \<times> 's) option" where
  "sdb_show_bytes io 0 st s = Some (0, [], st, s)"
| "sdb_show_bytes io (Suc n) st s =
    do {
      (r, bs, st, s) \<leftarrow> sdb_fread io (- 1) 1 st s;
      if r \<noteq> 1 then Some (- 1, [], st, s)
      else do { (r, out, st, s) \<leftarrow> sdb_show_bytes io n st s; Some (r, bs @ out, st, s) }
    }"

definition sdb_init_show :: "'s sdb_io \<Rightarrow> sdb_st \<Rightarrow> 's \<Rightarrow> (int \<times> string \<times> sdb_st \<times> 's) option" where
  "sdb_init_show io st s =
    do {
      (r, st, s) \<leftarrow> sdb_open_file io SDB_DEV_INIT st s;
      if r < 0 then Some (- 1, [], st, s)
      else do {
        (r, bs, st, s) \<leftarrow> sdb_fread io 0 2 st s;
        if r \<noteq> 2 then Some (- 1, [], sdb_close st, s)
        else do {
          let used = (word_of_nat (be_val bs) :: u16);
          if used = 0 \<or> 256 < used then Some (0, empty_script_msg, sdb_close st, s)
          else do {
            (r, out, st, s) \<leftarrow> sdb_show_bytes io (unat used) st s;
            Some (r, map (\<lambda>b. char_of (unat b)) out, sdb_close st, s)
          }
        }
      }
    }"

text \<open>\<open>i\<close> is an \<open>int\<close>; the position is compared as an unsigned number.\<close>

partial_function (option) sdb_readcmd_loop ::
  "'s sdb_io \<Rightarrow> u8 list \<Rightarrow> u8 \<Rightarrow> int \<Rightarrow> sdb_st \<Rightarrow> 's \<Rightarrow> (int \<times> u8 list \<times> sdb_st \<times> 's) option" where
  "sdb_readcmd_loop io buf bufsize i st s =
    (if ucast bufsize < (ucast (st_ptr st) - 2 :: u32) then Some (- 1, buf, st, s)
     else do {
       (r, bs, st', s) \<leftarrow> sdb_fread io (uint (st_ptr st)) 1 st s;
       let st = st'\<lparr>st_ptr := st_ptr st' + 1\<rparr>;
       if r \<noteq> 1 then Some (- 1, buf, st, s)
       else do {
         buf \<leftarrow> aset buf i (hd bs);
         if hd bs \<noteq> 0x0A then sdb_readcmd_loop io buf bufsize (i + 1) st s else Some (i + 1, buf, st, s)
       }
     })"

definition sdb_init_readcmd ::
  "'s sdb_io \<Rightarrow> u8 list \<Rightarrow> u8 \<Rightarrow> bool \<Rightarrow> sdb_st \<Rightarrow> 's \<Rightarrow> (int \<times> u8 list \<times> sdb_st \<times> 's) option" where
  "sdb_init_readcmd io buf bufsize nxt st s =
    do {
      (r, st, s) \<leftarrow> sdb_open_file io SDB_DEV_INIT st s;
      if r < 0 then Some (- 1, buf, st, s)
      else do {
        (r, bs, st, s) \<leftarrow> sdb_fread io 0 2 st s;
        if r \<noteq> 2 then Some (- 1, buf, sdb_close st, s)
        else do {
          let used = (word_of_nat (be_val bs) :: u16);
          let st = (if nxt then st else st\<lparr>st_ptr := 2\<rparr>);
          if (ucast used :: u32) \<le> ucast (st_ptr st) - 2 then Some (0, buf, st, s)
          else do {
            (r, buf, st, s) \<leftarrow> sdb_readcmd_loop io buf bufsize 0 st s;
            Some (s8 r, buf, sdb_close st, s)
          }
        }
      }
    }"

end
