(* ===== verification/W1_Line.thy ===== *)
theory W1_Line
  imports W1
begin

text \<open>
  Devices of a 1-wire bus behind the registers of the controller, bit by bit: what the operations
  of \<open>w1-hw.c\<close> do with any device that is given by its reaction to a reset and to a bit slot, and how the bytes of
  \<open>w1.c\<close> are made of bits. Shared by the search and by the memory.
\<close>

section \<open>The controller with a device\<close>

text \<open>
  A reset and a slot, in which the master pulls the line low or not, give the level of the line
  and the next state. The controller runs a cycle for every write to its control register that
  has the cycle bit, and reads busy for \<open>ln_lag\<close> more reads.
\<close>

record 'd w1_dev =
  dv_reset :: "'d \<Rightarrow> bool \<times> 'd"
  dv_slot :: "bool \<Rightarrow> 'd \<Rightarrow> bool \<times> 'd"

record 'd w1_line =
  ln_dev :: 'd
  ln_dat :: bool
  ln_busy :: nat
  ln_lag :: nat

definition line_cycle :: "bool \<times> 'd \<Rightarrow> 'd w1_line \<Rightarrow> 'd w1_line" where
  "line_cycle r s = s\<lparr>ln_dev := snd r, ln_dat := fst r, ln_busy := ln_lag s\<rparr>"

definition line_ctl :: "'d w1_dev \<Rightarrow> u32 \<Rightarrow> 'd w1_line \<Rightarrow> 'd w1_line" where
  "line_ctl D reg s =
    (if reg AND OWM_CTL_CYC = 0 then s
     else line_cycle (if reg AND OWM_CTL_RST \<noteq> 0 then dv_reset D (ln_dev s)
       else dv_slot D (reg AND OWM_CTL_DAT \<noteq> 0) (ln_dev s)) s)"

definition line_stat :: "'d w1_line \<Rightarrow> u32 \<times> 'd w1_line" where
  "line_stat s =
    (if ln_busy s = 0 then (if ln_dat s then OWM_CTL_DAT else 0, s)
     else (OWM_CTL_CYC, s\<lparr>ln_busy := ln_busy s - 1\<rparr>))"

definition owm_line :: "'d w1_dev \<Rightarrow> 'd w1_line owm" where
  "owm_line D = \<lparr>wr_CTL = line_ctl D, rd_CTL = line_stat, wr_CDR = \<lambda>_ s. s\<rparr>"

definition after :: "bool \<times> 'd \<Rightarrow> 'd w1_line \<Rightarrow> 'd w1_line" where
  "after r s = s\<lparr>ln_dev := snd r, ln_dat := fst r, ln_busy := 0\<rparr>"

lemma after_dev [simp]: "ln_dev (after r s) = snd r"
  by (simp add: after_def)

lemma wait_line: "wait_cycle (owm_line D) s = Some (if ln_dat s then OWM_CTL_DAT else 0, s\<lparr>ln_busy := 0\<rparr>)"
proof (induction "ln_busy s" arbitrary: s)
  case 0
  then show ?case by (subst wait_cycle.simps) (simp add: owm_line_def line_stat_def)
next
  case (Suc n)
  then have "wait_cycle (owm_line D) (s\<lparr>ln_busy := n\<rparr>) =
      Some (if ln_dat s then OWM_CTL_DAT else 0, s\<lparr>ln_busy := 0\<rparr>)" by simp
  then show ?case
    using Suc(2) [symmetric] by (subst wait_cycle.simps) (simp add: owm_line_def line_stat_def)
qed

lemma port_masks:
  "(push_bit 8 p OR x) AND 1 = x AND (1 :: u32)" "(push_bit 8 p OR x) AND 2 = x AND (2 :: u32)"
  "(push_bit 8 p OR x) AND 8 = x AND (8 :: u32)"
proof -
  have "(push_bit 8 p OR x) AND take_bit 8 m = x AND take_bit 8 m" for m :: u32
    by (intro bit_eqI) (auto simp: bit_simps)
  from this [of 1] this [of 2] this [of 8] show
    "(push_bit 8 p OR x) AND 1 = x AND (1 :: u32)" "(push_bit 8 p OR x) AND 2 = x AND (2 :: u32)"
    "(push_bit 8 p OR x) AND 8 = x AND (8 :: u32)" by simp_all
qed

lemmas line_defs = wrpc_w1_ops_def wait_line port_masks or.assoc owm_line_def [THEN arg_cong, of wr_CTL] line_ctl_def
  line_cycle_def after_def

lemma line_reset:
  "op_reset (wrpc_w1_ops (owm_line D) port) s =
    Some (c_bool (\<not> fst (dv_reset D (ln_dev s))), after (dv_reset D (ln_dev s)) s)"
  by (simp add: w1_reset_def line_defs)

lemma line_read:
  "op_read_bit (wrpc_w1_ops (owm_line D) port) s =
    Some (c_bool (fst (dv_slot D True (ln_dev s))), after (dv_slot D True (ln_dev s)) s)"
  by (simp add: w1_read_bit_def line_defs)

lemma line_write:
  "op_write_bit (wrpc_w1_ops (owm_line D) port) v s = Some (after (dv_slot D (v \<noteq> 0) (ln_dev s)) s)"
  by (cases "v = 0") (simp_all add: w1_write_bit_def line_defs)

section \<open>Bytes from bits\<close>

lemma take_bit_set:
  "take_bit (Suc k) (w :: 'a :: len word) = (if bit w k then set_bit k (take_bit k w) else take_bit k w)"
  by (intro bit_eqI) (auto simp: bit_take_bit_iff bit_set_bit_iff less_Suc_eq)

text \<open>If every bit written takes \<open>P\<close> from the bits so far to one more, a byte written leads to \<open>P\<close> of the byte.\<close>

lemma write_byte_bits:
  assumes step: "\<And>k c s v. k < 8 \<Longrightarrow> P k c s \<Longrightarrow>
      \<exists>s'. op_write_bit ops v s = Some s' \<and> P (Suc k) (if v \<noteq> 0 then set_bit k c else c) s'"
    and "P 0 0 s"
  shows "\<exists>s'. w1_write_byte ops byte s = Some s' \<and> P 8 (word_of_int byte :: u8) s'"
proof -
  have "n \<le> 8 \<Longrightarrow> P (8 - n) (take_bit (8 - n) (word_of_int byte)) s \<Longrightarrow>
      \<exists>s'. w1_write_bits ops byte n s = Some s' \<and> P 8 (word_of_int byte :: u8) s'" for n
  proof (induction n arbitrary: s)
    case 0
    then show ?case by (simp add: take_bit_word_eq_self)
  next
    case (Suc n)
    have k: "8 - Suc n = 7 - n" "Suc (7 - n) = 8 - n" "7 - n < 8" using Suc.prems(1) by auto
    define v where "v = (if byte AND push_bit (7 - n) 1 \<noteq> 0 then 1 else 0 :: int)"
    have v: "v \<noteq> 0 \<longleftrightarrow> bit (word_of_int byte :: u8) (7 - n)"
      using k(3) by (simp add: v_def bit_word_of_int_iff bit_iff_and_push_bit_not_eq_0 [of byte])
    obtain s1 where 1: "op_write_bit ops v s = Some s1" "P (8 - n) (take_bit (8 - n) (word_of_int byte)) s1"
      using step [OF k(3) Suc.prems(2) [unfolded k(1)], of v] unfolding v k(2) [symmetric] take_bit_set by auto
    then show ?case using Suc.IH [OF _ 1(2)] Suc.prems(1) by (simp add: v_def)
  qed
  from this [of 8] assms(2) show ?thesis by (simp add: w1_write_byte_def)
qed

lemma read_byte_bits:
  assumes step: "\<And>k s. k < 8 \<Longrightarrow> Q k s \<Longrightarrow> \<exists>s'. op_read_bit ops s = Some (c_bool (bit (b :: u8) k), s') \<and> Q (Suc k) s'"
    and "Q 0 s"
  shows "\<exists>s'. w1_read_byte ops s = Some (uint b, s') \<and> Q 8 s'"
proof -
  have "n \<le> 8 \<Longrightarrow> Q (8 - n) s \<Longrightarrow>
      \<exists>s'. w1_read_bits ops n (take_bit (8 - n) (uint b)) s = Some (uint b, s') \<and> Q 8 s'" for n
  proof (induction n arbitrary: s)
    case 0
    have "take_bit 8 (uint b) = uint b" by (intro bit_eqI) (auto simp: bit_simps dest: bit_imp_le_length)
    then show ?case using 0 by simp
  next
    case (Suc n)
    have k: "8 - Suc n = 7 - n" "Suc (7 - n) = 8 - n" "7 - n < 8" using Suc.prems(1) by auto
    obtain s1 where 1: "op_read_bit ops s = Some (c_bool (bit b (7 - n)), s1)" "Q (8 - n) s1"
      using step [OF k(3) Suc.prems(2) [unfolded k(1)]] unfolding k(2) by blast
    have "take_bit (7 - n) (uint b) OR (if bit b (7 - n) then push_bit (7 - n) 1 else 0) = take_bit (8 - n) (uint b)"
      unfolding k(2) [symmetric] using k(3) by (intro bit_eqI) (auto simp: bit_simps less_Suc_eq)
    then show ?case using 1(1) Suc.IH [OF _ 1(2)] Suc.prems(1) k(1) by (auto split: if_splits)
  qed
  from this [of 8] assms(2) show ?thesis by (simp add: w1_read_byte_def)
qed

end
