(* ===== verification/W1_Props.thy ===== *)
theory W1_Props
  imports W1_Line
begin

text \<open>
  The search of the 1-wire bus finds the devices: \<open>w1_scan_bus\<close> is proved against the
  contract of a bus in search mode (locale \<open>w1_search\<close>), which is then shown for the
  controller driver of \<open>dev/w1-hw.c\<close> with devices that follow the 1-wire protocol.
\<close>

section \<open>The order of the search\<close>

definition agree :: "nat \<Rightarrow> u64 \<Rightarrow> u64 \<Rightarrow> bool" where
  "agree k a b \<longleftrightarrow> (\<forall>i<k. bit a i \<longleftrightarrow> bit b i)"

lemma agree_0 [simp]: "agree 0 a b"
  by (simp add: agree_def)

lemma agree_refl [simp]: "agree k a a"
  by (simp add: agree_def)

lemma agree_Suc: "agree (Suc k) a b \<longleftrightarrow> agree k a b \<and> (bit a k \<longleftrightarrow> bit b k)"
  by (auto simp: agree_def less_Suc_eq)

lemma agree_mono: "agree k a b \<Longrightarrow> j \<le> k \<Longrightarrow> agree j a b"
  by (auto simp: agree_def)

lemma agree_sym: "agree k a b \<longleftrightarrow> agree k b a"
  by (auto simp: agree_def)

lemma agree_trans: "agree k a b \<Longrightarrow> agree k b c \<Longrightarrow> agree k a c"
  by (auto simp: agree_def)

lemma agree_take_bit: "agree k a b \<longleftrightarrow> take_bit k a = take_bit k b"
  using bit_imp_le_length [of a] bit_imp_le_length [of b]
  by (auto simp: agree_def bit_eq_iff bit_take_bit_iff)

lemma agree_64: "agree 64 a b \<longleftrightarrow> a = b"
  by (auto simp: agree_def intro!: bit_eqI)

text \<open>\<open>before a b\<close>: at the first bit where they differ, \<open>a\<close> has a 0.\<close>

definition before :: "u64 \<Rightarrow> u64 \<Rightarrow> bool" where
  "before a b \<longleftrightarrow> (\<exists>k. agree k a b \<and> \<not> bit a k \<and> bit b k)"

lemma before_at: "agree k a b \<Longrightarrow> \<not> bit a k \<Longrightarrow> bit b k \<Longrightarrow> before a b"
  by (auto simp: before_def)

lemma before_irrefl [simp]: "\<not> before a a"
  by (simp add: before_def)

lemma first_difference:
  assumes "a \<noteq> b"
  obtains k where "k < 64" "agree k a b" "bit a k \<noteq> bit b k"
proof -
  have "\<exists>k. bit a k \<noteq> bit b k" using assms by (auto intro: bit_eqI)
  then obtain k where k: "bit a k \<noteq> bit b k" "\<And>j. j < k \<Longrightarrow> bit a j = bit b j"
    using exists_least_iff [of "\<lambda>k. bit a k \<noteq> bit b k"] by auto
  moreover have "k < 64" using k(1) bit_imp_le_length [of a k] bit_imp_le_length [of b k] by auto
  ultimately show thesis using that by (auto simp: agree_def)
qed

lemma before_total: "a \<noteq> b \<Longrightarrow> before a b \<or> before b a"
  by (erule first_difference) (auto simp: before_def agree_sym)

lemma before_trans:
  assumes "before a b" "before b c"
  shows "before a c"
proof -
  obtain j k where j: "agree j a b" "\<not> bit a j" "bit b j" and k: "agree k b c" "\<not> bit b k" "bit c k"
    using assms by (auto simp: before_def)
  consider "j < k" | "k < j" using j k by (metis linorder_neqE_nat)
  then show ?thesis
  proof cases
    case 1
    then show ?thesis
      using j k by (intro before_at [of j]) (auto simp: agree_def)
  next
    case 2
    then show ?thesis
      using j k by (intro before_at [of k]) (auto simp: agree_def)
  qed
qed

lemma before_asym: "before a b \<Longrightarrow> \<not> before b a"
  using before_trans [of a b a] by auto

section \<open>One pass of the search\<close>

text \<open>
  The guide \<open>g\<close> has \<open>K\<close> bits. After \<open>k\<close> bits the devices \<open>S\<close> still take part, those that agree with the
  bits found; the conflicts that were answered with 0 are marked.
\<close>

definition search_inv :: "u64 set \<Rightarrow> u64 \<Rightarrow> nat \<Rightarrow> nat \<Rightarrow> u64 set \<Rightarrow> u64 \<Rightarrow> u64 \<Rightarrow> bool" where
  "search_inv D g K k S rom cm \<longleftrightarrow>
    S = {t \<in> D. agree k t rom} \<and> S \<noteq> {} \<and> (\<forall>i. bit rom i \<longrightarrow> i < max k K) \<and> agree K rom g \<and>
    (\<forall>i. bit cm i \<longleftrightarrow> i < k \<and> \<not> bit rom i \<and> (\<exists>t\<in>D. agree i t rom \<and> bit t i)) \<and>
    (\<forall>i<k. K \<le> i \<longrightarrow> bit rom i \<longrightarrow> (\<forall>t\<in>D. agree i t rom \<longrightarrow> bit t i))"

text \<open>What the bus and the code do with a bit: unanimous devices decide, else the guide.\<close>

definition follow :: "u64 \<Rightarrow> nat \<Rightarrow> bool" where
  "follow rom k \<longleftrightarrow> k < 32 \<and> bit rom k"

lemma search_inv_0: "D \<noteq> {} \<Longrightarrow> (\<And>i. bit g i \<Longrightarrow> i < K) \<Longrightarrow> search_inv D g K 0 D g 0"
  by (auto simp: search_inv_def)

text \<open>The guide is a prefix of a device, and in the low half of the code.\<close>

definition guided :: "u64 set \<Rightarrow> u64 \<Rightarrow> nat \<Rightarrow> bool" where
  "guided D g K \<longleftrightarrow> K \<le> 32 \<and> (\<exists>t\<in>D. agree K t g)"

lemma search_invD:
  assumes "search_inv D g K k S rom cm"
  shows inv_set: "S = {t \<in> D. agree k t rom}" and inv_nonempty: "S \<noteq> {}"
    and inv_bits: "bit rom i \<Longrightarrow> i < max k K" and inv_guide: "agree K rom g"
    and inv_marks: "bit cm i \<longleftrightarrow> i < k \<and> \<not> bit rom i \<and> (\<exists>t\<in>D. agree i t rom \<and> bit t i)"
    and inv_least: "i < k \<Longrightarrow> K \<le> i \<Longrightarrow> bit rom i \<Longrightarrow> t \<in> D \<Longrightarrow> agree i t rom \<Longrightarrow> bit t i"
  using assms unfolding search_inv_def by blast+

lemma guide_bit:
  assumes "guided D g K" "search_inv D g K k S rom cm" "k < 64"
  shows "k < K \<Longrightarrow> \<exists>t\<in>S. bit t k \<longleftrightarrow> bit rom k" "K \<le> k \<Longrightarrow> \<not> bit rom k"
proof -
  obtain t where t: "t \<in> D" "agree K t g" using assms(1) by (auto simp: guided_def)
  show "\<exists>t\<in>S. bit t k \<longleftrightarrow> bit rom k" if "k < K"
  proof -
    have "agree K t rom" using t(2) assms(2) by (auto simp: search_inv_def agree_def)
    then show ?thesis using assms(2) t(1) that by (auto simp: search_inv_def agree_def)
  qed
qed (use assms in \<open>auto simp: search_inv_def\<close>)

lemma inv_unanimous_1:
  assumes g: "guided D g K" and i: "search_inv D g K k S rom cm" "k < 64" and all: "\<forall>t\<in>S. bit t k"
  shows "search_inv D g K (Suc k) S (set_bit k rom) cm"
proof (cases "k < K")
  case True
  then have "bit rom k" using guide_bit(1) [OF g i] all by auto
  then have "set_bit k rom = rom" by (intro bit_eqI) (auto simp: bit_set_bit_iff)
  then show ?thesis
    using i all True \<open>bit rom k\<close> by (auto simp: search_inv_def agree_Suc less_Suc_eq)
next
  case False
  have b: "bit (set_bit k rom) j \<longleftrightarrow> j = k \<or> bit rom j" for j
    using i(2) by (auto simp: bit_set_bit_iff)
  have a: "agree j t (set_bit k rom) \<longleftrightarrow> agree j t rom" if "j \<le> k" for j t
    using that by (auto simp: agree_def b)
  have S: "S = {t \<in> D. agree k t rom}" by (rule inv_set [OF i(1)])
  have c: "bit cm j \<longleftrightarrow> j < k \<and> \<not> bit rom j \<and> (\<exists>t\<in>D. agree j t rom \<and> bit t j)" for j
    using i(1) by (simp add: search_inv_def)
  show ?thesis
    unfolding search_inv_def
  proof (intro conjI)
    show "S = {t \<in> D. agree (Suc k) t (set_bit k rom)}" using all by (auto simp: S agree_Suc a b)
    show "\<forall>j. bit (set_bit k rom) j \<longrightarrow> j < max (Suc k) K" by (auto simp: b less_max_iff_disj less_Suc_eq dest!: inv_bits [OF i(1)])
    show "agree K (set_bit k rom) g" using inv_guide [OF i(1)] False by (auto simp: agree_def b)
    show "\<forall>j. bit cm j \<longleftrightarrow> j < Suc k \<and> \<not> bit (set_bit k rom) j \<and> (\<exists>t\<in>D. agree j t (set_bit k rom) \<and> bit t j)"
    proof (intro allI)
      fix j
      show "bit cm j \<longleftrightarrow> j < Suc k \<and> \<not> bit (set_bit k rom) j \<and> (\<exists>t\<in>D. agree j t (set_bit k rom) \<and> bit t j)"
        using c [of j] a [of j] by (cases "j < k") (auto simp: b less_Suc_eq)
    qed
    show "\<forall>j<Suc k. K \<le> j \<longrightarrow> bit (set_bit k rom) j \<longrightarrow> (\<forall>t\<in>D. agree j t (set_bit k rom) \<longrightarrow> bit t j)"
    proof (intro allI impI)
      fix j
      assume j: "j < Suc k" "K \<le> j" "bit (set_bit k rom) j"
      show "\<forall>t\<in>D. agree j t (set_bit k rom) \<longrightarrow> bit t j"
      proof (cases "j = k")
        case True
        then show ?thesis using all a [of k] by (simp add: S)
      next
        case False
        then show ?thesis using inv_least [OF i(1), of j] j a [of j] by (simp add: b)
      qed
    qed
  qed (rule inv_nonempty [OF i(1)])
qed

lemma inv_unanimous_0:
  assumes g: "guided D g K" and i: "search_inv D g K k S rom cm" "k < 64" and all: "\<forall>t\<in>S. \<not> bit t k"
  shows "search_inv D g K (Suc k) S rom cm"
proof -
  have r: "\<not> bit rom k" using guide_bit [OF g i] all by (cases "k < K") auto
  then show ?thesis using i all by (auto simp: search_inv_def agree_Suc less_Suc_eq)
qed

lemma inv_conflict:
  assumes g: "guided D g K" and i: "search_inv D g K k S rom cm" "k < 64"
    and both: "\<exists>t\<in>S. bit t k" "\<exists>t\<in>S. \<not> bit t k"
  shows "search_inv D g K (Suc k) {t \<in> S. bit t k \<longleftrightarrow> follow rom k} rom
    (if follow rom k then cm else set_bit k cm)"
proof -
  have r: "bit rom k \<Longrightarrow> k < K" using guide_bit(2) [OF g i] by force
  then have f: "follow rom k \<longleftrightarrow> bit rom k"
    using g by (auto simp: follow_def guided_def)
  have b: "bit (set_bit k cm) j \<longleftrightarrow> j = k \<or> bit cm j" for j
    using i(2) by (auto simp: bit_set_bit_iff)
  have S: "S = {t \<in> D. agree k t rom}" using i(1) by (simp add: search_inv_def)
  have c: "bit cm j \<longleftrightarrow> j < k \<and> \<not> bit rom j \<and> (\<exists>t\<in>D. agree j t rom \<and> bit t j)" for j
    using i(1) by (simp add: search_inv_def)
  have m: "\<forall>t\<in>D. agree j t rom \<longrightarrow> bit t j" if "j < Suc k" "K \<le> j" "bit rom j" for j
    using that inv_least [OF i(1), of j] r by (cases "j = k") auto
  show ?thesis
    unfolding search_inv_def f
  proof (intro conjI)
    show "\<forall>j. bit (if bit rom k then cm else set_bit k cm) j \<longleftrightarrow>
        j < Suc k \<and> \<not> bit rom j \<and> (\<exists>t\<in>D. agree j t rom \<and> bit t j)"
    proof (intro allI)
      fix j
      show "bit (if bit rom k then cm else set_bit k cm) j \<longleftrightarrow>
        j < Suc k \<and> \<not> bit rom j \<and> (\<exists>t\<in>D. agree j t rom \<and> bit t j)"
        using c [of j] both(1) by (cases "j = k") (auto simp: b S less_Suc_eq)
    qed
  qed (use inv_guide [OF i(1)] both m in \<open>auto simp: agree_Suc S less_max_iff_disj less_Suc_eq dest!: inv_bits [OF i(1)]\<close>)
qed

definition low_distinct :: "u64 set \<Rightarrow> bool" where
  "low_distinct D \<longleftrightarrow> (\<forall>a\<in>D. \<forall>b\<in>D. agree 32 a b \<longrightarrow> a = b)"

lemma search_end:
  assumes i: "search_inv D g K 64 S rom cm" and inj: "low_distinct D"
  shows "rom \<in> D" "bit cm p \<Longrightarrow> p < 32"
proof -
  show r: "rom \<in> D" using i by (auto simp: search_inv_def agree_64)
  show "p < 32" if "bit cm p"
  proof (rule ccontr)
    assume p: "\<not> p < 32"
    have "\<exists>t\<in>D. agree p t rom \<and> bit t p" "\<not> bit rom p"
      using i that by (simp_all add: search_inv_def)
    then obtain t where t: "t \<in> D" "agree p t rom" "bit t p" "\<not> bit rom p" by blast
    then have "agree 32 t rom" using p by (auto intro: agree_mono)
    then show False using t r inj by (auto simp: low_distinct_def)
  qed
qed

section \<open>From one device to the next\<close>

lemma search_least:
  assumes i: "search_inv D g K 64 S rom cm" and t: "t \<in> D" "agree K t g" "t \<noteq> rom"
  shows "before rom t"
proof -
  obtain k where k: "k < 64" "agree k rom t" "bit rom k \<noteq> bit t k"
    using t(3) first_difference [of rom t] by metis
  have "agree K rom t" using inv_guide [OF i] t(2) agree_trans agree_sym by blast
  then have "K \<le> k" using k by (auto simp: agree_def not_less [symmetric])
  then have "\<not> bit rom k" using inv_least [OF i k(1) _ _ t(1)] k by (auto simp: agree_sym)
  then show ?thesis using k by (auto intro: before_at)
qed

lemma search_last: "search_inv D g K 64 S rom cm \<Longrightarrow> (\<And>i. i < 64 \<Longrightarrow> \<not> bit cm i) \<Longrightarrow> t \<in> D \<Longrightarrow> \<not> before rom t"
proof
  assume i: "search_inv D g K 64 S rom cm" and c: "\<And>i. i < 64 \<Longrightarrow> \<not> bit cm i" and t: "t \<in> D" "before rom t"
  obtain k where k: "agree k rom t" "\<not> bit rom k" "bit t k" using t(2) by (auto simp: before_def)
  have "k < 64" using k(3) by (auto dest: bit_imp_le_length)
  then have "bit cm k" using inv_marks [OF i, of k] k t(1) by (auto simp: agree_sym)
  then show False using c \<open>k < 64\<close> by simp
qed

lemma search_next:
  assumes i: "search_inv D g K 64 S r cm" and p: "bit cm p" "\<And>j. p < j \<Longrightarrow> j < 64 \<Longrightarrow> \<not> bit cm j"
    and g': "\<And>j. bit g' j \<longleftrightarrow> j < p \<and> bit r j \<or> j = p"
    and i': "search_inv D g' (Suc p) 64 S' r' cm'" and D: "r \<in> D" "r' \<in> D"
  shows "before r r'" "{t \<in> D. \<not> before r' t} = insert r' {t \<in> D. \<not> before r t}"
proof -
  have m: "\<not> bit r p" using inv_marks [OF i] p(1) by simp
  have pr: "agree p r' r" "bit r' p"
    using inv_guide [OF i'] by (auto simp: agree_def g' less_Suc_eq)
  show b: "before r r'" using m pr by (auto intro: before_at simp: agree_sym)
  have "before r' t" if t: "t \<in> D" "before r t" "t \<noteq> r'" for t
  proof -
    obtain q where q: "agree q r t" "\<not> bit r q" "bit t q" using t(2) by (auto simp: before_def)
    have "q < 64" using q(3) by (auto dest: bit_imp_le_length)
    then have "bit cm q" using inv_marks [OF i, of q] q t(1) by (auto simp: agree_sym)
    then have "q \<le> p" using p(2) \<open>q < 64\<close> by (meson not_le)
    show ?thesis
    proof (cases "q = p")
      case True
      then have "agree (Suc p) t g'" using q by (auto simp: agree_def g' less_Suc_eq)
      then show ?thesis using search_least [OF i' t(1)] t(3) by blast
    next
      case False
      then have "q < p" using \<open>q \<le> p\<close> by simp
      then have "agree q r' t" "\<not> bit r' q" using pr q by (auto simp: agree_def)
      then show ?thesis using q by (auto intro: before_at)
    qed
  qed
  then show "{t \<in> D. \<not> before r' t} = insert r' {t \<in> D. \<not> before r t}"
    using D b before_trans [OF b] by auto
qed

lemma search_first: "search_inv D 0 0 64 S r cm \<Longrightarrow> r \<in> D \<Longrightarrow> {t \<in> D. \<not> before r t} = {r}"
  using search_least [of D 0 0 S r cm] by auto

section \<open>The bus in search mode\<close>

text \<open>
  What the search needs of a bus with the devices \<open>D\<close>. \<open>ready s\<close>: the bus can be reset;
  \<open>searching S k s\<close>: after \<open>k\<close> bits the devices \<open>S\<close> still take part, and the line shows the
  wired-and of bit \<open>k\<close> of their codes, then of its complement; the bit written keeps the devices that have it.
\<close>

locale w1_search =
  fixes ops :: "'s w1_ops" and D :: "u64 set"
    and ready :: "'s \<Rightarrow> bool" and searching :: "u64 set \<Rightarrow> nat \<Rightarrow> 's \<Rightarrow> bool"
  assumes reset: "ready s \<Longrightarrow> D \<noteq> {} \<Longrightarrow>
      \<exists>s1 s2. op_reset ops s = Some (1, s1) \<and> w1_write_byte ops 0xf0 s1 = Some s2 \<and> searching D 0 s2"
    and reset_none: "ready s \<Longrightarrow> D = {} \<Longrightarrow> \<exists>s1. op_reset ops s = Some (0, s1) \<and> ready s1"
    and dibit: "searching S k s \<Longrightarrow> k < 64 \<Longrightarrow>
      \<exists>s1 s2. op_read_bit ops s = Some (c_bool (\<forall>r\<in>S. bit r k), s1) \<and>
        op_read_bit ops s1 = Some (c_bool (\<forall>r\<in>S. \<not> bit r k), s2) \<and>
        (\<forall>v. \<exists>s3. op_write_bit ops v s2 = Some s3 \<and> searching {r \<in> S. bit r k \<longleftrightarrow> v \<noteq> 0} (Suc k) s3)"
    and search_done: "searching S 64 s \<Longrightarrow> ready s"
begin

lemma rom_select_follow: "k < 64 \<Longrightarrow> rom_select rom (push_bit k 1) \<noteq> 0 \<longleftrightarrow> follow rom k"
proof -
  assume k: "k < 64"
  have "rom_select rom (push_bit k 1) \<noteq> 0 \<longleftrightarrow> (ucast (rom AND push_bit k 1) :: u32) \<noteq> 0"
    unfolding rom_select_def by (simp only: signed_eq_0_iff)
  also have "\<dots> \<longleftrightarrow> (\<exists>i<32. bit (ucast (rom AND push_bit k 1) :: u32) i)"
    by (auto simp: bit_eq_iff dest: bit_imp_le_length)
  also have "\<dots> \<longleftrightarrow> follow rom k"
    using k by (auto simp: follow_def bit_simps)
  finally show ?thesis .
qed

lemma scan_bits:
  assumes "searching S k s" "search_inv D g K k S rom cm" "guided D g K" "k + n = 64"
  shows "\<exists>rom' cm' S' s'. w1_scan_bits ops n rom cm s = Some (rom', cm', s') \<and> ready s' \<and> search_inv D g K 64 S' rom' cm'"
  using assms
proof (induction n arbitrary: k S rom cm s)
  case 0
  then show ?case using search_done by auto
next
  case (Suc n)
  have k: "k < 64" "63 - n = k" using Suc.prems(4) by auto
  note i = Suc.prems(2) and g = Suc.prems(3)
  obtain s1 s2 where r: "op_read_bit ops s = Some (c_bool (\<forall>r\<in>S. bit r k), s1)"
    "op_read_bit ops s1 = Some (c_bool (\<forall>r\<in>S. \<not> bit r k), s2)"
    and w: "\<And>v. \<exists>s3. op_write_bit ops v s2 = Some s3 \<and> searching {r \<in> S. bit r k \<longleftrightarrow> v \<noteq> 0} (Suc k) s3"
    using dibit [OF Suc.prems(1) k(1)] by blast
  have m: "bit (push_bit k (1 :: u64)) j \<longleftrightarrow> j = k" for j using k(1) by (auto simp: bit_simps)
  have ors: "x OR 2 ^ k = set_bit k x" for x :: u64 by (simp add: set_bit_eq_or)
  consider (one) "\<forall>r\<in>S. bit r k" | (zero) "\<forall>r\<in>S. \<not> bit r k"
    | (both) "\<exists>r\<in>S. bit r k" "\<exists>r\<in>S. \<not> bit r k" by blast
  then show ?case
  proof cases
    case one
    then have n0: "\<not> (\<forall>r\<in>S. \<not> bit r k)" using inv_nonempty [OF i] by auto
    obtain s3 where s3: "op_write_bit ops 1 s2 = Some s3" "searching {r \<in> S. bit r k} (Suc k) s3"
      using w [of 1] by auto
    have "{r \<in> S. bit r k} = S" using one by auto
    then show ?thesis
      using Suc.IH [OF _ inv_unanimous_1 [OF g i k(1) one] g] s3 Suc.prems(4) one n0
      by (simp add: k get_dibit_def r Let_def ors)
  next
    case zero
    then have n1: "\<not> (\<forall>r\<in>S. bit r k)" using inv_nonempty [OF i] by auto
    obtain s3 where s3: "op_write_bit ops 0 s2 = Some s3" "searching {r \<in> S. \<not> bit r k} (Suc k) s3"
      using w [of 0] by auto
    have "{r \<in> S. \<not> bit r k} = S" using zero by auto
    then show ?thesis
      using Suc.IH [OF _ inv_unanimous_0 [OF g i k(1) zero] g] s3 Suc.prems(4) zero n1
      by (simp add: k get_dibit_def r Let_def)
  next
    case both
    then have n: "\<not> (\<forall>r\<in>S. bit r k)" "\<not> (\<forall>r\<in>S. \<not> bit r k)" by auto
    define v where "v = rom_select rom (2 ^ k)"
    have v: "v \<noteq> 0 \<longleftrightarrow> follow rom k" using rom_select_follow [OF k(1), of rom] by (simp add: v_def)
    obtain s3 where s3: "op_write_bit ops v s2 = Some s3"
      "searching {r \<in> S. bit r k \<longleftrightarrow> follow rom k} (Suc k) s3"
      using w [of v] v by auto
    show ?thesis
      using Suc.IH [OF s3(2) inv_conflict [OF g i k(1) both] g] Suc.prems(4) n s3(1) v
      by (auto simp: k get_dibit_def r Let_def ors v_def [symmetric])
  qed
qed

lemma scan_one:
  assumes "ready s" "D \<noteq> {}" "guided D g K" "\<And>i. bit g i \<Longrightarrow> i < K"
  shows "\<exists>rom' cm' S' s'. w1_scan_one ops g cm s = Some (0, rom', cm', s') \<and> ready s' \<and> search_inv D g K 64 S' rom' cm'"
proof -
  obtain s1 s2 where "op_reset ops s = Some (1, s1)" "w1_write_byte ops 0xf0 s1 = Some s2" "searching D 0 s2"
    using reset [OF assms(1,2)] by blast
  then show ?thesis
    using scan_bits [OF _ search_inv_0 [OF assms(2,4)] assms(3), of s2 64] by (auto simp: w1_scan_one_def)
qed

end

section \<open>The whole search\<close>

text \<open>The first \<open>i\<close> entries hold the first \<open>i\<close> devices; the marks are those of the last pass.\<close>

definition found_inv :: "u64 set \<Rightarrow> nat \<Rightarrow> u64 list \<Rightarrow> u64 \<Rightarrow> bool" where
  "found_inv D i devs cm \<longleftrightarrow> length devs = 8 \<and> (\<forall>j\<ge>i. j < 8 \<longrightarrow> devs ! j = 0) \<and> sorted_wrt before (take i devs) \<and>
    (i = 0 \<or> (\<exists>g K S. search_inv D g K 64 S (devs ! (i - 1)) cm \<and>
      set (take i devs) = {t \<in> D. \<not> before (devs ! (i - 1)) t}))"

definition found_all :: "u64 set \<Rightarrow> nat \<Rightarrow> u64 list \<Rightarrow> bool" where
  "found_all D m devs \<longleftrightarrow> m \<le> 8 \<and> length devs = 8 \<and> (\<forall>j\<ge>m. j < 8 \<longrightarrow> devs ! j = 0) \<and>
    sorted_wrt before (take m devs) \<and> set (take m devs) \<subseteq> D \<and> (m < 8 \<longrightarrow> set (take m devs) = D)"

lemma found_first:
  assumes "found_inv D 0 devs cm" "search_inv D 0 0 64 S r cm'" "r \<in> D"
  shows "found_inv D (Suc 0) (devs[0 := r]) cm'"
  using assms search_first [OF assms(2,3)]
  by (auto simp: found_inv_def take_Suc_conv_app_nth nth_list_update intro!: exI)

lemma found_next:
  assumes f: "found_inv D i devs cm" "0 < i" "i < 8" and i: "search_inv D g K 64 S (devs ! (i - 1)) cm"
    and p: "bit cm p" "\<And>j. p < j \<Longrightarrow> j < 64 \<Longrightarrow> \<not> bit cm j"
    and g': "\<And>j. bit g' j \<longleftrightarrow> j < p \<and> bit (devs ! (i - 1)) j \<or> j = p"
    and i': "search_inv D g' (Suc p) 64 S' r' cm'" and D: "devs ! (i - 1) \<in> D" "r' \<in> D"
  shows "found_inv D (Suc i) (devs[i := r']) cm'"
proof -
  define r where "r = devs ! (i - 1)"
  have b: "before r r'" and s: "{t \<in> D. \<not> before r' t} = insert r' {t \<in> D. \<not> before r t}"
    using search_next [OF i p g' i' D] by (simp_all add: r_def)
  have l: "length devs = 8" using f(1) by (simp add: found_inv_def)
  have t: "take (Suc i) (devs[i := r']) = take i devs @ [r']"
    using l f(3) by (simp add: take_Suc_conv_app_nth)
  have F: "set (take i devs) = {t \<in> D. \<not> before r t}" using f(1,2) by (auto simp: found_inv_def r_def)
  have "before t r'" if "t \<in> set (take i devs)" for t
    using that b before_total [of t r] before_trans [of t r r'] unfolding F by auto
  then have "sorted_wrt before (take (Suc i) (devs[i := r']))"
    using f(1) unfolding t sorted_wrt_append by (simp add: found_inv_def)
  moreover have "set (take (Suc i) (devs[i := r'])) = {t \<in> D. \<not> before r' t}"
    unfolding t s using F by simp
  ultimately show ?thesis
    using f l i' by (auto simp: found_inv_def nth_list_update)
qed

lemma found_end: "found_inv D i devs cm \<Longrightarrow> i \<le> 8 \<Longrightarrow> 0 < i \<Longrightarrow> (i < 8 \<longrightarrow> (\<forall>j<64. \<not> bit cm j)) \<Longrightarrow> found_all D i devs"
  using search_last by (fastforce simp: found_inv_def found_all_def)

context w1_search
begin

lemma scan_devs_finds:
  assumes "found_inv D (8 - n) devs cm" "n \<le> 8" "ready s" "D \<noteq> {}" "low_distinct D"
  shows "\<exists>m devs' s'. scan_devs sg ops n devs cm s = Some (int m, devs', s') \<and> ready s' \<and> 0 < m \<and> found_all D m devs'"
  using assms(1-3)
proof (induction n arbitrary: devs cm s)
  case 0
  then show ?case using found_end [of D 8 devs cm] by (intro exI [of _ 8] exI [of _ devs] exI [of _ s]) simp
next
  case (Suc n)
  define i where "i = 7 - n"
  have i: "8 - Suc n = i" "8 - n = Suc i" "i < 8" using Suc.prems(2) by (auto simp: i_def)
  note f = Suc.prems(1) [unfolded i]
  have e: "8 - 1 - n = i" by (simp add: i_def)
  have l: "length devs = 8" using f by (simp add: found_inv_def)
  show ?case
  proof (cases "i = 0")
    case True
    obtain r cm' S' s' where p: "w1_scan_one ops 0 cm s = Some (0, r, cm', s')" "ready s'" "search_inv D 0 0 64 S' r cm'"
      using scan_one [OF Suc.prems(3) assms(4), of 0 0 cm] assms(4) by (auto simp: guided_def)
    have "found_inv D (8 - n) (devs[0 := r]) cm'"
      using found_first [of D devs cm S' r cm'] f p(3) search_end(1) [OF p(3) assms(5)] True i by simp
    from Suc.IH [OF this _ p(2)] Suc.prems(2) show ?thesis
      unfolding scan_devs.simps(2) e using True p(1) by simp
  next
    case False
    define r where "r = devs ! (i - 1)"
    obtain g K S where inv: "search_inv D g K 64 S r cm"
      and F: "set (take i devs) = {t \<in> D. \<not> before r t}"
      using f False by (auto simp: found_inv_def r_def)
    have r: "r \<in> D" by (rule search_end(1) [OF inv assms(5)])
    have c: "conflict_loop sg cm (push_bit 63 1) r = conflict_at cm 64 r"
      using conflict_loop_at [of 63] by simp
    show ?thesis
    proof (cases "\<forall>j<64. \<not> bit cm j")
      case True
      then have "conflict_at cm 64 r = (0, 0)"
        using conflict_at_none [of 64 cm r] by (auto intro!: prod_eqI bit_eqI dest: bit_imp_le_length)
      moreover have "devs[i := 0] = devs" using f i by (simp add: found_inv_def list_update_same_conv)
      moreover have "found_all D i devs" using found_end [OF f] i False True by simp
      ultimately show ?thesis
        unfolding scan_devs.simps(2) e using \<open>i \<noteq> 0\<close> c Suc.prems(3)
        by (intro exI [of _ i] exI [of _ devs] exI [of _ s]) (simp add: r_def)
    next
      case False
      then obtain j where j: "j < 64" "bit cm j" by blast
      obtain p rom' where p: "conflict_at cm 64 r = (push_bit p 1, rom')" "p < 64" "bit cm p"
        "\<And>i. p < i \<Longrightarrow> i < 64 \<Longrightarrow> \<not> bit cm i" "\<And>i. bit rom' i \<longleftrightarrow> bit r i \<and> (i \<le> p \<or> 64 \<le> i)"
        using conflict_at_some [OF j, of r] by blast
      define g' where "g' = rom' OR push_bit p 1"
      have g': "bit g' j \<longleftrightarrow> j < p \<and> bit r j \<or> j = p" for j
      proof -
        have "bit (push_bit p (1 :: u64)) j \<longleftrightarrow> j = p" using p(2) by (auto simp: bit_simps)
        then have "bit g' j \<longleftrightarrow> bit r j \<and> (j \<le> p \<or> 64 \<le> j) \<or> j = p"
          by (simp only: g'_def bit_or_iff p(5))
        then show ?thesis using bit_imp_le_length [of r j] inv_marks [OF inv, of p] p(3) by (auto simp: nat_less_le)
      qed
      have nz: "push_bit p (1 :: u64) \<noteq> 0" using p(2) by (simp add: push_bit_eq_mult exp_eq_zero_iff)
      have "p < 32" by (rule search_end(2) [OF inv assms(5) p(3)])
      moreover obtain t where "t \<in> D" "agree p t r" "bit t p" using inv_marks [OF inv, of p] p(3) by auto
      ultimately have "guided D g' (Suc p)" by (auto simp: guided_def agree_def g' less_Suc_eq)
      then obtain r' cm' S' s' where s: "w1_scan_one ops g' (cm AND NOT (push_bit p 1)) s = Some (0, r', cm', s')"
        "ready s'" "search_inv D g' (Suc p) 64 S' r' cm'"
        using scan_one [OF Suc.prems(3) assms(4)] g' by (metis less_Suc_eq)
      have "found_inv D (Suc i) (devs[i := r']) cm'"
        using found_next [OF f _ i(3) inv [unfolded r_def] p(3,4) _ s(3)] g' r \<open>i \<noteq> 0\<close>
          search_end(1) [OF s(3) assms(5)] by (simp add: r_def)
      from Suc.IH [OF this [folded i(2)] _ s(2)] Suc.prems(2) show ?thesis
        unfolding scan_devs.simps(2) e using \<open>i \<noteq> 0\<close> c s(1) p(1) nz
        by (simp add: r_def g'_def)
    qed
  qed
qed

end

context w1_search
begin

lemma scan_bus_finds:
  assumes "ready s" "low_distinct D"
  shows "\<exists>m devs s'. w1_scan_bus sg ops s = Some (int m, devs, s') \<and> ready s' \<and> found_all D m devs"
proof (cases "D = {}")
  case True
  obtain s1 where "op_reset ops s = Some (0, s1)" "ready s1" using reset_none [OF assms(1) True] by blast
  have eight: "(8 :: nat) = Suc 7" by simp
  from \<open>op_reset ops s = Some (0, s1)\<close> have "w1_scan_bus sg ops s = Some (0, replicate 8 0, s1)"
    unfolding w1_scan_bus_def eight scan_devs.simps(2) by (simp add: w1_scan_one_def list_update_same_conv)
  then show ?thesis
    using \<open>ready s1\<close> True
    by (intro exI [of _ 0] exI [of _ "replicate 8 0"] exI [of _ s1]) (simp add: found_all_def nth_Cons')
next
  case False
  have "found_inv D (8 - 8) (replicate 8 0) 0" by (simp add: found_inv_def)
  from scan_devs_finds [OF this _ assms(1) False assms(2)] show ?thesis
    unfolding w1_scan_bus_def by (metis order_refl)
qed

end

lemma before_sorted_distinct: "sorted_wrt before xs \<Longrightarrow> distinct xs"
  by (induction xs) auto

lemma found_all_distinct: "found_all D m devs \<Longrightarrow> distinct (take m devs)"
  using before_sorted_distinct by (simp add: found_all_def)

lemma found_all_card:
  assumes "found_all D m devs" "finite D"
  shows "m = min 8 (card D)"
proof -
  have c: "card (set (take m devs)) = m"
    using found_all_distinct [OF assms(1)] assms(1) by (simp add: distinct_card found_all_def)
  have "m \<le> card D" using c card_mono [OF assms(2), of "set (take m devs)"] assms(1) by (simp add: found_all_def)
  moreover have "m = card D" if "m < 8" using c assms(1) that by (simp add: found_all_def)
  moreover have "m \<le> 8" using assms(1) by (simp add: found_all_def)
  ultimately show ?thesis by linarith
qed

section \<open>Devices behind the controller\<close>

text \<open>
  The devices on the bus as the 1-wire protocol has them. After a reset they collect a command byte, least
  significant bit first. In a search, for each bit of their code they pull the line low if the bit is 0,
  then if it is 1, then read the bit of the master and drop out when theirs is different.
  Other commands leave the devices silent.
\<close>

datatype w1_mode =
    W1_COMMAND nat u8
  | W1_SEARCH nat nat "u64 list"
  | W1_SILENT

type_synonym w1_wire = "(u64 list \<times> w1_mode) w1_line"

abbreviation wire_devs :: "w1_wire \<Rightarrow> u64 list" where
  "wire_devs s \<equiv> fst (ln_dev s)"

fun wire_slot :: "bool \<Rightarrow> u64 list \<times> w1_mode \<Rightarrow> bool \<times> u64 list \<times> w1_mode" where
  "wire_slot v (devs, W1_COMMAND n c) =
    (let c = (if v then set_bit n c else c)
     in (v, devs, if n < 7 then W1_COMMAND (Suc n) c else if c = 0xf0 then W1_SEARCH 0 0 devs else W1_SILENT))"
| "wire_slot v (devs, W1_SEARCH k phase part) =
    (if phase = 0 then (v \<and> (\<forall>r\<in>set part. bit r k), devs, W1_SEARCH k 1 part)
     else if phase = 1 then (v \<and> (\<forall>r\<in>set part. \<not> bit r k), devs, W1_SEARCH k 2 part)
     else (v, devs, if k < 63 then W1_SEARCH (Suc k) 0 (filter (\<lambda>r. bit r k \<longleftrightarrow> v) part) else W1_SILENT))"
| "wire_slot v (devs, W1_SILENT) = (v, devs, W1_SILENT)"

definition wire_reset :: "u64 list \<times> w1_mode \<Rightarrow> bool \<times> u64 list \<times> w1_mode" where
  "wire_reset d = (fst d = [], fst d, W1_COMMAND 0 0)"

definition owm_wire :: "w1_wire owm" where
  "owm_wire = owm_line \<lparr>dv_reset = wire_reset, dv_slot = wire_slot\<rparr>"

lemmas wire_ops = line_reset [where D = "\<lparr>dv_reset = wire_reset, dv_slot = wire_slot\<rparr>", folded owm_wire_def, simplified]
  line_read [where D = "\<lparr>dv_reset = wire_reset, dv_slot = wire_slot\<rparr>", folded owm_wire_def, simplified]
  line_write [where D = "\<lparr>dv_reset = wire_reset, dv_slot = wire_slot\<rparr>", folded owm_wire_def, simplified]

text \<open>A command byte reaches the devices.\<close>

lemma wire_command:
  assumes "ln_dev s = (roms, W1_COMMAND 0 0)"
  shows "\<exists>s'. w1_write_byte (wrpc_w1_ops owm_wire port) byte s = Some s' \<and>
    ln_dev s' = (roms, if (word_of_int byte :: u8) = 0xf0 then W1_SEARCH 0 0 roms else W1_SILENT)"
proof -
  define P where "P k c s \<longleftrightarrow> ln_dev s = (roms, if k < 8 then W1_COMMAND k c else if c = 0xf0 then W1_SEARCH 0 0 roms else W1_SILENT)"
    for k and c :: u8 and s :: w1_wire
  have "\<exists>s'. w1_write_byte (wrpc_w1_ops owm_wire port) byte s = Some s' \<and> P 8 (word_of_int byte) s'"
    by (rule write_byte_bits) (use assms in \<open>auto simp: P_def wire_ops\<close>)
  then show ?thesis by (simp add: P_def)
qed

definition wire_searching :: "u64 list \<Rightarrow> u64 set \<Rightarrow> nat \<Rightarrow> w1_wire \<Rightarrow> bool" where
  "wire_searching roms S k s \<longleftrightarrow>
    wire_devs s = roms \<and> (k < 64 \<longrightarrow> (\<exists>part. ln_dev s = (roms, W1_SEARCH k 0 part) \<and> set part = S))"

lemma wire_dibit:
  assumes "wire_searching roms S k s" "k < 64"
  shows "\<exists>s1 s2. op_read_bit (wrpc_w1_ops owm_wire port) s = Some (c_bool (\<forall>r\<in>S. bit r k), s1) \<and>
    op_read_bit (wrpc_w1_ops owm_wire port) s1 = Some (c_bool (\<forall>r\<in>S. \<not> bit r k), s2) \<and>
    (\<forall>v. \<exists>s3. op_write_bit (wrpc_w1_ops owm_wire port) v s2 = Some s3 \<and>
      wire_searching roms {r \<in> S. bit r k \<longleftrightarrow> v \<noteq> 0} (Suc k) s3)"
proof -
  obtain part where p: "ln_dev s = (roms, W1_SEARCH k 0 part)" "set part = S"
    using assms by (auto simp: wire_searching_def)
  then show ?thesis by (auto simp: wire_ops wire_searching_def)
qed

interpretation wire: w1_search "wrpc_w1_ops owm_wire port" "set roms" "\<lambda>s. wire_devs s = roms" "wire_searching roms"
  for port roms
proof
  fix s :: w1_wire
  assume s: "wire_devs s = roms" "set roms \<noteq> {}"
  define s1 where "s1 = after (wire_reset (ln_dev s)) s"
  have "ln_dev s1 = (roms, W1_COMMAND 0 0)" using s(1) by (simp add: s1_def wire_reset_def)
  from wire_command [OF this, of port "0xf0"] show "\<exists>s1 s2. op_reset (wrpc_w1_ops owm_wire port) s = Some (1, s1) \<and>
      w1_write_byte (wrpc_w1_ops owm_wire port) 0xf0 s1 = Some s2 \<and> wire_searching roms (set roms) 0 s2"
    using s by (auto simp: wire_ops wire_reset_def wire_searching_def s1_def)
next
  fix S k and s :: w1_wire
  assume "wire_searching roms S k s" "k < 64"
  then show "\<exists>s1 s2. op_read_bit (wrpc_w1_ops owm_wire port) s = Some (c_bool (\<forall>r\<in>S. bit r k), s1) \<and>
    op_read_bit (wrpc_w1_ops owm_wire port) s1 = Some (c_bool (\<forall>r\<in>S. \<not> bit r k), s2) \<and>
    (\<forall>v. \<exists>s3. op_write_bit (wrpc_w1_ops owm_wire port) v s2 = Some s3 \<and>
      wire_searching roms {r \<in> S. bit r k \<longleftrightarrow> v \<noteq> 0} (Suc k) s3)" by (rule wire_dibit)
qed (simp_all add: wire_ops wire_reset_def wire_searching_def)

section \<open>The devices are found\<close>

text \<open>
  C31. With at most eight devices on the 1-wire bus, no two of which agree in the low 32 bits of
  their codes, \<open>w1_scan_bus\<close> returns their number and stores exactly their codes, each once, in the
  order of the search, in the first entries; the others are zero. With more devices it stores
  eight of them, in the order of the search. (Of two devices that agree in the low 32 bits one can be missed: \<open>w1_scan_misses_twin\<close>.) This holds for the unsigned and for the LM32's signed shift.
\<close>

theorem w1_scan_finds_devices:
  assumes "low_distinct (set roms)" "wire_devs s = roms"
  shows "\<exists>m devs s'. w1_scan_bus signed_shift (wrpc_w1_ops owm_wire port) s = Some (int m, devs, s') \<and>
    m = min 8 (card (set roms)) \<and> distinct (take m devs) \<and> sorted_wrt before (take m devs) \<and>
    set (take m devs) \<subseteq> set roms \<and> (card (set roms) \<le> 8 \<longrightarrow> set (take m devs) = set roms) \<and>
    (\<forall>j\<ge>m. j < 8 \<longrightarrow> devs ! j = 0)"
proof -
  obtain m devs s' where s: "w1_scan_bus signed_shift (wrpc_w1_ops owm_wire port) s = Some (int m, devs, s')"
    and f: "found_all (set roms) m devs"
    using wire.scan_bus_finds [OF assms(2,1)] by blast
  have m: "m = min 8 (card (set roms))" by (rule found_all_card [OF f]) simp
  have d: "distinct (take m devs)" by (rule found_all_distinct [OF f])
  have "set (take m devs) = set roms" if "card (set roms) \<le> 8"
  proof (rule card_subset_eq)
    show "card (set (take m devs)) = card (set roms)"
      using d m that f by (simp add: distinct_card found_all_def)
  qed (use f in \<open>simp_all add: found_all_def\<close>)
  then show ?thesis using s m d f unfolding found_all_def by blast
qed

lemma w1_scan_finds_devices_witness:
  "\<exists>devs s'. w1_scan_bus True (wrpc_w1_ops owm_wire 0)
      \<lparr>ln_dev = ([0x0d00000000123443, 0xff00000567abcd28], W1_SILENT), ln_dat = True, ln_busy = 3, ln_lag = 5\<rparr> = Some (2, devs, s') \<and>
    set (take 2 devs) = {0x0d00000000123443, 0xff00000567abcd28}"
proof -
  define roms where "roms = [0x0d00000000123443, 0xff00000567abcd28 :: u64]"
  have "\<not> agree 32 0x0d00000000123443 0xff00000567abcd28" "\<not> agree 32 0xff00000567abcd28 0x0d00000000123443"
    unfolding agree_def by (auto intro: exI [of _ 0])
  then have "low_distinct (set roms)" by (auto simp: low_distinct_def roms_def)
  then obtain m devs s' where "w1_scan_bus True (wrpc_w1_ops owm_wire 0) \<lparr>ln_dev = (roms, W1_SILENT), ln_dat = True, ln_busy = 3, ln_lag = 5\<rparr> = Some (int m, devs, s')"
    "m = min 8 (card (set roms))" "card (set roms) \<le> 8 \<longrightarrow> set (take m devs) = set roms"
    using w1_scan_finds_devices [of roms "\<lparr>ln_dev = (roms, W1_SILENT), ln_dat = True, ln_busy = 3, ln_lag = 5\<rparr>" True 0] by auto
  moreover from this(2) have "m = 2" by (simp add: roms_def)
  moreover have "card (set roms) \<le> 8" by (simp add: roms_def)
  ultimately have "w1_scan_bus True (wrpc_w1_ops owm_wire 0) \<lparr>ln_dev = (roms, W1_SILENT), ln_dat = True, ln_busy = 3, ln_lag = 5\<rparr> = Some (2, devs, s')"
    "set (take 2 devs) = set roms" by simp_all
  then show ?thesis unfolding roms_def by (intro exI [of _ devs] exI [of _ s']) simp
qed

section \<open>Devices that agree in the low half\<close>

text \<open>
  Two devices whose codes first differ at a bit \<open>p\<close> of the high half, where \<open>a\<close> has the 0. The answer of the
  code to the conflict is always 0, as \<open>select\<close> has lost the bit; the code stored has a 1
  there from the last pass, and is that of no device when the two codes also differ behind \<open>p\<close>.
\<close>

lemma bit_exp_64: "p < 64 \<Longrightarrow> bit (2 ^ p :: u64) j \<longleftrightarrow> j = p"
  by (auto simp: bit_exp_iff)

context w1_search
begin

definition twins :: "u64 \<Rightarrow> u64 \<Rightarrow> nat \<Rightarrow> bool" where
  "twins a b p \<longleftrightarrow> D = {a, b} \<and> agree p a b \<and> \<not> bit a p \<and> bit b p \<and> 32 \<le> p \<and> p < 64"

lemma scan_bits_twins:
  assumes "twins a b p" "searching (if k \<le> p then {a, b} else {a}) k s" "k + n = 64"
    and "\<And>i. bit rom i \<longleftrightarrow> i < k \<and> bit a i \<or> bit g i" "\<And>i. bit g i \<Longrightarrow> bit a i \<or> i = p"
    and "cm = (if k \<le> p then 0 else 2 ^ p)"
  shows "\<exists>s'. w1_scan_bits ops n rom cm s = Some (a OR g, 2 ^ p, s') \<and> ready s'"
  using assms(2-4,6)
proof (induction n arbitrary: k rom cm s)
  case 0
  then have "rom = a OR g"
    by (intro bit_eqI) (auto simp: bit_or_iff dest: bit_imp_le_length)
  then show ?case using 0 search_done assms(1) by (auto simp: twins_def)
next
  case (Suc n)
  define S where "S = (if k \<le> p then {a, b} else {a})"
  have k: "k < 64" "63 - n = k" using Suc.prems(2) by auto
  have tw: "agree p a b" "\<not> bit a p" "bit b p" "32 \<le> p" using assms(1) by (auto simp: twins_def)
  obtain s1 s2 where r: "op_read_bit ops s = Some (c_bool (\<forall>r\<in>S. bit r k), s1)"
    "op_read_bit ops s1 = Some (c_bool (\<forall>r\<in>S. \<not> bit r k), s2)"
    and w: "\<And>v. \<exists>s3. op_write_bit ops v s2 = Some s3 \<and> searching {r \<in> S. bit r k \<longleftrightarrow> v \<noteq> 0} (Suc k) s3"
    using dibit [OF Suc.prems(1) k(1)] unfolding S_def by (elim exE conjE) blast
  show ?case
  proof (cases "k = p")
    case True
    have "\<not> follow rom k" using True tw(4) by (simp add: follow_def)
    then have v: "rom_select rom (2 ^ k) = 0" using rom_select_follow [OF k(1), of rom] by simp
    obtain s3 where s3: "op_write_bit ops 0 s2 = Some s3" "searching {r \<in> S. \<not> bit r k} (Suc k) s3"
      using w [of 0] by auto
    have "{r \<in> S. \<not> bit r k} = {a}" using True tw by (auto simp: S_def)
    then have "\<exists>s'. w1_scan_bits ops n rom (2 ^ p) s3 = Some (a OR g, 2 ^ p, s') \<and> ready s'"
      using Suc.IH [of "Suc k" s3 rom "2 ^ p"] Suc.prems True s3(2) tw(2) by (auto simp: less_Suc_eq)
    then show ?thesis
      using True tw Suc.prems(4) s3(1) v by (simp add: k get_dibit_def r Let_def S_def)
  next
    case False
    have u: "(\<forall>r\<in>S. bit r k) \<longleftrightarrow> bit a k" "(\<forall>r\<in>S. \<not> bit r k) \<longleftrightarrow> \<not> bit a k"
      using False tw(1) by (auto simp: S_def agree_def)
    have S': "{r \<in> S. bit r k \<longleftrightarrow> bit a k} = (if Suc k \<le> p then {a, b} else {a})"
      using False tw(1) by (auto simp: S_def agree_def)
    obtain s3 where s3: "op_write_bit ops (c_bool (bit a k)) s2 = Some s3"
      "searching (if Suc k \<le> p then {a, b} else {a}) (Suc k) s3"
      using w [of "c_bool (bit a k)"] unfolding S' [symmetric] by (cases "bit a k") auto
    define rom' where "rom' = (if bit a k then set_bit k rom else rom)"
    have rom': "bit rom' i \<longleftrightarrow> i < Suc k \<and> bit a i \<or> bit g i" for i
      using Suc.prems(3) k(1) by (auto simp: rom'_def bit_set_bit_iff less_Suc_eq)
    have "\<exists>s'. w1_scan_bits ops n rom' cm s3 = Some (a OR g, 2 ^ p, s') \<and> ready s'"
      using Suc.IH [of "Suc k" s3 rom' cm] Suc.prems(2,4) s3(2) rom' False by auto
    moreover have "x OR 2 ^ k = set_bit k x" for x :: u64 by (simp add: set_bit_eq_or)
    ultimately show ?thesis
      using s3(1) by (cases "bit a k") (simp_all add: k get_dibit_def r u Let_def rom'_def)
  qed
qed

lemma scan_one_twins:
  assumes "twins a b p" "ready s" "\<And>i. bit g i \<Longrightarrow> bit a i \<or> i = p"
  shows "\<exists>s'. w1_scan_one ops g cm s = Some (0, a OR g, 2 ^ p, s') \<and> ready s'"
proof -
  have "D \<noteq> {}" "D = {a, b}" using assms(1) by (auto simp: twins_def)
  then obtain s1 s2 where s: "op_reset ops s = Some (1, s1)" "w1_write_byte ops 0xf0 s1 = Some s2" "searching {a, b} 0 s2"
    using reset [OF assms(2)] by auto
  have "\<exists>s'. w1_scan_bits ops 64 g 0 s2 = Some (a OR g, 2 ^ p, s') \<and> ready s'"
    by (rule scan_bits_twins [where k = 0 and g = g, OF assms(1)]) (use s(3) assms(3) in auto)
  then show ?thesis using s by (auto simp: w1_scan_one_def)
qed

lemma scan_devs_twins:
  assumes "twins a b p" "ready s" "n \<le> 7" "devs = (a # replicate (7 - n) (set_bit p a)) @ zs" "length devs = 8"
  shows "\<exists>s'. scan_devs sg ops n devs (2 ^ p) s = Some (8, a # replicate 7 (set_bit p a), s') \<and> ready s'"
  using assms(2-)
proof (induction n arbitrary: devs zs s)
  case 0
  then show ?case by simp
next
  case (Suc n)
  have p: "32 \<le> p" "p < 64" "\<not> bit a p" using assms(1) by (auto simp: twins_def)
  define i where "i = 7 - n"
  have i: "8 - 1 - n = i" "0 < i" "i \<le> 7" "7 - Suc n = i - 1" using Suc.prems(2) by (auto simp: i_def)
  define r where "r = devs ! (i - 1)"
  have rb: "bit r j \<longleftrightarrow> bit a j \<or> j = p \<and> i \<noteq> 1" for j
    using i p by (auto simp: r_def Suc.prems(3) nth_append nth_Cons' bit_set_bit_iff)
  have mb: "bit ((2 ^ p :: u64)) j \<longleftrightarrow> j = p" for j using p(2) by (auto simp: bit_simps)
  have nz: "(2 ^ p :: u64) \<noteq> 0" using p(2) by (simp add: push_bit_eq_mult exp_eq_zero_iff)
  obtain q rom' where "conflict_at (2 ^ p) 64 r = (2 ^ q, rom')" "bit ((2 ^ p :: u64)) q"
      "\<And>j. bit rom' j \<longleftrightarrow> bit r j \<and> (j \<le> q \<or> 64 \<le> j)"
    using conflict_at_some [of p 64 "2 ^ p" r] p(2) mb by (auto simp: push_bit_eq_mult)
  then have c: "conflict_loop sg (2 ^ p) (push_bit 63 1) r = (2 ^ p, rom')"
    and rom': "\<And>j. bit rom' j \<longleftrightarrow> bit r j \<and> (j \<le> p \<or> 64 \<le> j)"
    using conflict_loop_at [of 63 sg "2 ^ p" r] by (simp_all add: mb)
  define g' where "g' = rom' OR 2 ^ p"
  have g': "bit g' j \<Longrightarrow> bit a j \<or> j = p" "a OR g' = set_bit p a" for j
    using p(2) by (auto simp: g'_def bit_or_iff mb rom' rb bit_set_bit_iff intro!: bit_eqI dest: bit_imp_le_length)
  obtain s' where s': "w1_scan_one ops g' (2 ^ p AND NOT (2 ^ p)) s = Some (0, set_bit p a, 2 ^ p, s')"
    "ready s'"
    using scan_one_twins [where g = g', OF assms(1) Suc.prems(1) g'(1)] unfolding g'(2) by blast
  obtain z zs' where z: "zs = z # zs'" using Suc.prems(2-4) by (cases zs) auto
  have d: "devs[i := set_bit p a] = (a # replicate (7 - n) (set_bit p a)) @ zs'"
    using i Suc.prems(2) unfolding Suc.prems(3) z
    by (cases i) (simp_all add: i_def [symmetric] list_update_append replicate_app_Cons_same)
  have "\<exists>s''. scan_devs sg ops n (devs[i := set_bit p a]) (2 ^ p) s' =
      Some (8, a # replicate 7 (set_bit p a), s'') \<and> ready s''"
  proof (rule Suc.IH [OF s'(2) _ d])
    show "length (devs[i := set_bit p a]) = 8" by (simp only: length_list_update Suc.prems(4))
  qed (use Suc.prems(2) in simp)
  then show ?case
    unfolding scan_devs.simps(2) i(1) using i(2) c s'(1) nz
    by (simp add: r_def g'_def)
qed

lemma scan_bus_twins:
  assumes "twins a b p" "ready s"
  shows "\<exists>s'. w1_scan_bus sg ops s = Some (8, a # replicate 7 (set_bit p a), s')"
proof -
  have eight: "(8 :: nat) = Suc 7" by simp
  obtain s' where s': "w1_scan_one ops 0 0 s = Some (0, a, 2 ^ p, s')" "ready s'"
    using scan_one_twins [OF assms, of 0 0] by auto
  have "(replicate 8 0)[0 := a] = (a # replicate (7 - 7) (set_bit p a)) @ replicate 7 (0 :: u64)"
    by (simp add: numeral_eq_Suc)
  from scan_devs_twins [OF assms(1) s'(2) order_refl this] show ?thesis
    unfolding w1_scan_bus_def eight scan_devs.simps(2) using s'(1) by auto
qed

end

text \<open>On the wire: two sensors of one batch, with serial numbers that differ above bit 24.\<close>

lemma w1_scan_misses_twin:
  "\<exists>s'. w1_scan_bus signed_shift (wrpc_w1_ops owm_wire port)
      \<lparr>ln_dev = ([0x1100000800000028, 0x2200000000000028], W1_SILENT), ln_dat = True, ln_busy = 0, ln_lag = 1\<rparr> =
    Some (8, 0x2200000000000028 # replicate 7 0x2200000800000028, s')"
proof -
  have "agree 35 0x2200000000000028 0x1100000800000028"
    unfolding agree_take_bit by simp
  then have "wire.twins [0x1100000800000028, 0x2200000000000028] 0x2200000000000028 0x1100000800000028 35"
    unfolding wire.twins_def by auto
  moreover have "set_bit 35 (0x2200000000000028 :: u64) = 0x2200000800000028" by simp
  ultimately show ?thesis
    using wire.scan_bus_twins [of "[0x1100000800000028, 0x2200000000000028]" "0x2200000000000028" "0x1100000800000028" 35
      "\<lparr>ln_dev = ([0x1100000800000028, 0x2200000000000028], W1_SILENT), ln_dat = True, ln_busy = 0, ln_lag = 1\<rparr>" signed_shift port] by simp
qed

end
