(* ===== verification/W1_Devs_Props.thy ===== *)
theory W1_Devs_Props
  imports W1_Devs W1_Props Byte_Mem
begin

text \<open>
  The EEPROM of the 1-wire bus. \<open>w1_bytes\<close> is the contract of a bus with one such chip, byte by
  byte; on it, writing and reading the memory is correct for every offset and length. The chip follows
  the data sheet of the DS28EC20: 80 pages of 32 bytes, written through a scratchpad. The contract is discharged
  for the chip behind the registers of the controller, bit by bit.
\<close>

section \<open>The chip\<close>

text \<open>What the chip does with the next byte; \<open>D_off\<close> until the next reset.\<close>

datatype chip_state =
    D_off | D_rom | D_match nat | D_fun
  | D_write1 | D_write2 | D_write nat
  | D_scratch nat | D_copy nat
  | D_read1 | D_read2 | D_read nat

record chip =
  ch_mem :: "nat \<Rightarrow> u8"
  ch_ta1 :: u8
  ch_ta2 :: u8
  ch_es :: u8
  ch_pad :: "nat \<Rightarrow> u8"
  ch_st :: chip_state

abbreviation (input) chip_size :: nat where "chip_size \<equiv> 2560"

definition ch_addr :: "chip \<Rightarrow> nat" where
  "ch_addr d = unat (ch_ta1 d) + 256 * unat (ch_ta2 d)"

definition ch_copied :: "chip \<Rightarrow> nat \<Rightarrow> u8" where
  "ch_copied d a =
    (if a < chip_size \<and> a div 32 = ch_addr d div 32 \<and> ch_addr d mod 32 \<le> a mod 32 \<and> a mod 32 \<le> unat (ch_es d)
     then ch_pad d (a mod 32) else ch_mem d a)"

text \<open>The byte it sends, if it is its turn, and the state after it.\<close>

definition ch_out :: "chip \<Rightarrow> u8 option" where
  "ch_out d = (case ch_st d of
     D_scratch n \<Rightarrow> Some (if n = 0 then ch_ta1 d else if n = 1 then ch_ta2 d else if n = 2 then ch_es d
       else if ch_addr d mod 32 + (n - 3) \<le> unat (ch_es d) then ch_pad d (ch_addr d mod 32 + (n - 3)) else 0xff)
   | D_read a \<Rightarrow> Some (if a < chip_size then ch_mem d a else 0xff)
   | _ \<Rightarrow> None)"

definition ch_next :: "chip \<Rightarrow> chip" where
  "ch_next d = (case ch_st d of
     D_scratch n \<Rightarrow> d\<lparr>ch_st := D_scratch (Suc n)\<rparr> | D_read a \<Rightarrow> d\<lparr>ch_st := D_read (Suc a)\<rparr> | _ \<Rightarrow> d)"

definition ch_in :: "u64 \<Rightarrow> u8 \<Rightarrow> chip \<Rightarrow> chip" where
  "ch_in code b d = (case ch_st d of
     D_rom \<Rightarrow> d\<lparr>ch_st := (if b = 0x55 then D_match 0 else D_off)\<rparr>
   | D_match n \<Rightarrow> d\<lparr>ch_st := (if b \<noteq> ucast (drop_bit (8 * n) code) then D_off
       else if n = 7 then D_fun else D_match (Suc n))\<rparr>
   | D_fun \<Rightarrow> d\<lparr>ch_st := (if b = 0x0f then D_write1 else if b = 0xaa then D_scratch 0
       else if b = 0x55 then D_copy 0 else if b = 0xf0 then D_read1 else D_off)\<rparr>
   | D_write1 \<Rightarrow> d\<lparr>ch_ta1 := b, ch_st := D_write2\<rparr>
   | D_write2 \<Rightarrow> let d = d\<lparr>ch_ta2 := b\<rparr> in d\<lparr>ch_es := of_nat (ch_addr d mod 32), ch_st := D_write (ch_addr d mod 32)\<rparr>
   | D_write n \<Rightarrow> if n < 32 then d\<lparr>ch_pad := (ch_pad d)(n := b), ch_es := of_nat n, ch_st := D_write (Suc n)\<rparr> else d
   | D_copy n \<Rightarrow> if b \<noteq> [ch_ta1 d, ch_ta2 d, ch_es d] ! n then d\<lparr>ch_st := D_off\<rparr>
       else if n = 2 then d\<lparr>ch_mem := ch_copied d, ch_st := D_off\<rparr> else d\<lparr>ch_st := D_copy (Suc n)\<rparr>
   | D_read1 \<Rightarrow> d\<lparr>ch_ta1 := b, ch_st := D_read2\<rparr>
   | D_read2 \<Rightarrow> let d = d\<lparr>ch_ta2 := b\<rparr> in d\<lparr>ch_st := D_read (ch_addr d)\<rparr>
   | _ \<Rightarrow> d)"

lemma ch_copied_st [simp]: "ch_copied (d\<lparr>ch_st := x\<rparr>) = ch_copied d"
  by (rule ext) (simp add: ch_copied_def ch_addr_def)

lemma mem_upd_single: "mem_upd m n [b] = m(n := b)"
  by (rule ext) (auto simp: mem_upd_def)

lemma ch_same: "ch_st d = x \<Longrightarrow> d\<lparr>ch_st := x\<rparr> = d"
  by (cases d) simp

section \<open>The addresses\<close>

lemma LSB_nat: "LSB_ADDR (int n) = int (n mod 256)"
proof -
  have "int n AND 2 ^ 8 - 1 = int n mod 2 ^ 8" unfolding mask_eq_exp_minus_1 [symmetric] by (simp add: take_bit_eq_mod flip: take_bit_eq_mask)
  then show ?thesis by (simp add: LSB_ADDR_def zmod_int)
qed

lemma MSB_nat:
  assumes "n < 65536"
  shows "MSB_ADDR (int n) = int (n div 256)"
proof -
  have "int n AND 0xFF00 = push_bit 8 (int n div 256)"
  proof (rule bit_eqI)
    fix i
    have "bit (0xFF00 :: int) i \<longleftrightarrow> 8 \<le> i \<and> i < 16"
    proof -
      have eq: "(0xFF00 :: int) = push_bit 8 (mask 8)" by (simp add: mask_eq_exp_minus_1 push_bit_eq_mult)
      show ?thesis unfolding eq by (auto simp: bit_push_bit_iff bit_mask_iff)
    qed
    moreover have "bit (int n) i \<Longrightarrow> i < 16"
    proof -
      assume "bit (int n) i"
      moreover have "int n = take_bit 16 (int n)" using assms by (simp add: take_bit_eq_mod)
      ultimately show "i < 16" by (metis bit_take_bit_iff)
    qed
    moreover have "int n div 256 = drop_bit 8 (int n)" by (simp add: drop_bit_eq_div)
    ultimately show "bit (int n AND 0xFF00) i \<longleftrightarrow> bit (push_bit 8 (int n div 256)) i"
      by (auto simp: bit_simps)
  qed
  moreover have "drop_bit 8 (push_bit 8 k) = k" for k :: int by (intro bit_eqI) (simp add: bit_simps)
  ultimately show ?thesis by (simp add: MSB_ADDR_def zdiv_int)
qed

lemma byte_of_int: "n < 256 \<Longrightarrow> unat (of_nat n :: u8) = n" "n < 256 \<Longrightarrow> uint (of_nat n :: u8) = int n"
  by (simp_all add: unsigned_of_nat take_bit_nat_eq_self take_bit_int_eq_self)

lemma page_range:
  assumes "n mod 32 + k \<le> 32" "0 < k"
  shows "a div 32 = n div 32 \<and> n mod 32 \<le> a mod 32 \<and> a mod 32 \<le> n mod 32 + k - 1 \<longleftrightarrow> n \<le> a \<and> a < n + (k :: nat)"
proof -
  define p q where "p = a div 32" and "q = n div 32"
  have "n = 32 * q + n mod 32" "a = 32 * p + a mod 32" "n mod 32 < 32" "a mod 32 < 32" by (simp_all add: p_def q_def)
  then show ?thesis
    using assms unfolding p_def [symmetric] q_def [symmetric] by (cases p q rule: linorder_cases) linarith+
qed

lemma first_part:
  assumes "0 < L" "n mod 32 \<noteq> 0" and k: "k = (if (n + L - 1) div 32 \<noteq> n div 32 then 32 - n mod 32 else L)"
  shows "0 < k \<and> k \<le> L \<and> n mod 32 + k \<le> 32 \<and> (k < L \<longrightarrow> (n + k) mod (32 :: nat) = 0)"
proof -
  define q p where "q = n div 32" and "p = (n + L - 1) div 32"
  define r t where "r = n mod 32" and "t = (n + L - 1) mod 32"
  have n: "n = 32 * q + r" "n + L - 1 = 32 * p + t" "r < 32" "t < 32" by (simp_all add: q_def r_def p_def t_def)
  show ?thesis
  proof (cases "p = q")
    case True
    then have "k = L" by (simp add: k p_def q_def)
    then show ?thesis using n True assms(1) unfolding r_def [symmetric] by linarith
  next
    case False
    have k2: "k = 32 - r" using False by (simp add: k p_def q_def r_def)
    have "q < p" using n False assms(1) by linarith
    then have "k < L" using n assms(1,2) k2 unfolding r_def [symmetric] by linarith
    moreover have "n + k = 32 * Suc q" using n(1,3) k2 by simp
    moreover have "0 < k" "r + k \<le> 32" using n(3) k2 by simp_all
    ultimately show ?thesis unfolding r_def [symmetric] by (metis less_imp_le mod_mult_self1_is_0)
  qed
qed

section \<open>The contract\<close>

locale w1_bytes =
  fixes ops :: "'s w1_ops" and code :: u64 and link :: "chip \<Rightarrow> 's \<Rightarrow> bool"
  assumes reset: "link d s \<Longrightarrow> \<exists>s'. op_reset ops s = Some (1, s') \<and> link (d\<lparr>ch_st := D_rom\<rparr>) s'"
    and send: "link d s \<Longrightarrow> ch_out d = None \<Longrightarrow> \<exists>s'. w1_write_byte ops b s = Some s' \<and> link (ch_in code (word_of_int b) d) s'"
    and recv: "link d s \<Longrightarrow> ch_out d = Some c \<Longrightarrow> \<exists>s'. w1_read_byte ops s = Some (uint c, s') \<and> link (ch_next d) s'"
begin

lemma match_bytes_ok:
  "link (d\<lparr>ch_st := D_match (8 - n)\<rparr>) s \<Longrightarrow> 0 < n \<Longrightarrow> n \<le> 8 \<Longrightarrow>
    \<exists>s'. match_bytes ops code n s = Some s' \<and> link (d\<lparr>ch_st := D_fun\<rparr>) s'"
proof (induction n arbitrary: s)
  case (Suc n)
  let ?d = "d\<lparr>ch_st := D_match (8 - Suc n)\<rparr>"
  have w: "(word_of_int (sint (ucast (drop_bit (8 * (7 - n)) code) :: u32)) :: u8) = ucast (drop_bit (8 * (7 - n)) code)"
    by (intro bit_eqI) (auto simp: bit_simps)
  have k: "8 - Suc n = 7 - n" by simp
  from send [OF Suc.prems(1), of "sint (ucast (drop_bit (8 * (7 - n)) code) :: u32)", unfolded w]
  obtain s1 where 1: "w1_write_byte ops (sint (ucast (drop_bit (8 * (7 - n)) code) :: u32)) s = Some s1"
    "link (ch_in code (ucast (drop_bit (8 * (7 - n)) code)) ?d) s1" by (auto simp: ch_out_def)
  show ?case
  proof (cases n)
    case 0
    then show ?thesis using 1 by (auto simp: ch_in_def)
  next
    case (Suc n')
    have e: "7 - n \<noteq> 7" "Suc (7 - n) = 8 - n" using Suc Suc.prems(3) by auto
    then have "link (d\<lparr>ch_st := D_match (8 - n)\<rparr>) s1" using 1(2) unfolding k by (simp add: ch_in_def)
    from Suc.IH [OF this] show ?thesis using 1(1) Suc Suc.prems(3) by simp
  qed
qed simp

lemma match_ok:
  assumes "link d s"
  shows "\<exists>s'. w1_match_rom ops code s = Some s' \<and> link (d\<lparr>ch_st := D_fun\<rparr>) s'"
proof -
  obtain s1 where 1: "op_reset ops s = Some (1, s1)" "link (d\<lparr>ch_st := D_rom\<rparr>) s1" using reset [OF assms] by blast
  obtain s2 where 2: "w1_write_byte ops 0x55 s1 = Some s2" "link (d\<lparr>ch_st := D_match (8 - 8)\<rparr>) s2"
    using send [OF 1(2), of "0x55"] by (auto simp: ch_out_def ch_in_def)
  show ?thesis using match_bytes_ok [OF 2(2)] 1(1) 2(1) by (simp add: w1_match_rom_def)
qed

text \<open>A byte sent in a state in which the chip listens.\<close>

lemma sent:
  assumes "link d s" "ch_out d = None" "ch_in code (word_of_int b) d = d'"
  shows "\<exists>s'. w1_write_byte ops b s = Some s' \<and> link d' s'"
  using send [OF assms(1,2), of b] assms(3) by simp

lemma w1_put_bytes_ok:
  "link d s \<Longrightarrow> ch_st d = D_write n \<Longrightarrow> n + length bs \<le> 32 \<Longrightarrow> \<exists>s'. w1_put_bytes ops bs s = Some s' \<and>
    link (d\<lparr>ch_pad := mem_upd (ch_pad d) n bs, ch_es := (if bs = [] then ch_es d else of_nat (n + length bs - 1)),
      ch_st := D_write (n + length bs)\<rparr>) s'"
proof (induction bs arbitrary: d s n)
  case Nil
  then show ?case by (simp add: ch_same)
next
  case (Cons b bs)
  let ?d = "d\<lparr>ch_pad := (ch_pad d)(n := b), ch_es := of_nat n, ch_st := D_write (Suc n)\<rparr>"
  obtain s1 where 1: "w1_write_byte ops (uint b) s = Some s1" "link ?d s1"
    using sent [OF Cons.prems(1), of "uint b" ?d] Cons.prems by (auto simp: ch_out_def ch_in_def)
  from Cons.IH [OF 1(2), of "Suc n"] Cons.prems(3) obtain s2 where 2: "w1_put_bytes ops bs s1 = Some s2"
    "link (?d\<lparr>ch_pad := mem_upd (ch_pad ?d) (Suc n) bs, ch_es := (if bs = [] then ch_es ?d else of_nat (Suc n + length bs - 1)),
      ch_st := D_write (Suc n + length bs)\<rparr>) s2" by (auto simp del: fun_upd_apply)
  then show ?case using 1(1) by (cases bs) (simp_all add: mem_upd_Cons mem_upd_single ac_simps del: fun_upd_apply)
qed

lemma w1_same_bytes_ok:
  "link d s \<Longrightarrow> ch_st d = D_scratch (3 + n) \<Longrightarrow> ch_addr d mod 32 + n + length bs \<le> Suc (unat (ch_es d)) \<Longrightarrow>
    mem_at (ch_pad d) (ch_addr d mod 32 + n) (length bs) = bs \<Longrightarrow>
    \<exists>s'. w1_same_bytes ops bs s = Some (True, s') \<and> link (d\<lparr>ch_st := D_scratch (3 + n + length bs)\<rparr>) s'"
proof (induction bs arbitrary: d s n)
  case Nil
  then show ?case by (simp add: ch_same)
next
  case (Cons b bs)
  have b: "ch_pad d (ch_addr d mod 32 + n) = b" and bs: "mem_at (ch_pad d) (ch_addr d mod 32 + Suc n) (length bs) = bs"
    using Cons.prems(4) by (auto simp: mem_at_Suc)
  obtain s1 where 1: "w1_read_byte ops s = Some (uint b, s1)" "link (d\<lparr>ch_st := D_scratch (3 + Suc n)\<rparr>) s1"
    using recv [OF Cons.prems(1), of b] Cons.prems(2,3) b by (auto simp: ch_out_def ch_next_def)
  from Cons.IH [OF 1(2), of "Suc n"] show ?case
    using 1(1) Cons.prems(3) bs by (auto simp: ch_addr_def ac_simps)
qed

lemma w1_get_bytes_ok:
  "link d s \<Longrightarrow> ch_st d = D_read a \<Longrightarrow> a + n \<le> chip_size \<Longrightarrow>
    \<exists>s'. w1_get_bytes ops n s = Some (mem_at (ch_mem d) a n, s') \<and> link (d\<lparr>ch_st := D_read (a + n)\<rparr>) s'"
proof (induction n arbitrary: d s a)
  case 0
  then show ?case by (simp add: ch_same)
next
  case (Suc n)
  obtain s1 where 1: "w1_read_byte ops s = Some (uint (ch_mem d a), s1)" "link (d\<lparr>ch_st := D_read (Suc a)\<rparr>) s1"
    using recv [OF Suc.prems(1), of "ch_mem d a"] Suc.prems(2,3) by (auto simp: ch_out_def ch_next_def)
  from Suc.IH [OF 1(2), of "Suc a"] show ?case using 1(1) Suc.prems(3) by (auto simp: mem_at_Suc)
qed

text \<open>A byte that is an address; the address that two of them make.\<close>

lemma send_addr:
  assumes "link d s" "ch_st d = D_fun" "n < 65536" "cmd = 0x0f \<and> st = D_write1 \<or> cmd = 0xf0 \<and> st = D_read1"
  shows "\<exists>s1 s2 s3. w1_write_byte ops cmd s = Some s1 \<and> w1_write_byte ops (LSB_ADDR (int n)) s1 = Some s2 \<and>
    w1_write_byte ops (MSB_ADDR (int n)) s2 = Some s3 \<and>
    link (ch_in code (of_nat (n div 256)) (d\<lparr>ch_ta1 := of_nat (n mod 256), ch_st := (if cmd = 0x0f then D_write2 else D_read2)\<rparr>)) s3"
proof -
  obtain s1 where 1: "w1_write_byte ops cmd s = Some s1" "link (d\<lparr>ch_st := st\<rparr>) s1"
    using sent [OF assms(1), of cmd "d\<lparr>ch_st := st\<rparr>"] assms(2,4) by (auto simp: ch_out_def ch_in_def)
  obtain s2 where 2: "w1_write_byte ops (LSB_ADDR (int n)) s1 = Some s2"
    "link (d\<lparr>ch_ta1 := of_nat (n mod 256), ch_st := (if cmd = 0x0f then D_write2 else D_read2)\<rparr>) s2"
    using sent [OF 1(2), of "LSB_ADDR (int n)", OF _ refl] assms(4) by (auto simp: ch_out_def ch_in_def LSB_nat)
  show ?thesis
    using sent [OF 2(2), of "MSB_ADDR (int n)", OF _ refl] 1(1) 2(1) by (simp add: ch_out_def MSB_nat [OF assms(3)])
qed

lemma addr_bytes: "n < 65536 \<Longrightarrow> ch_ta1 d = of_nat (n mod 256) \<Longrightarrow> ch_ta2 d = of_nat (n div 256) \<Longrightarrow> ch_addr d = n"
  by (simp add: ch_addr_def byte_of_int)

text \<open>A page: the bytes reach the memory and nothing else changes.\<close>

lemma write_page_ok:
  assumes "link d s" "n mod 32 + length bs \<le> 32" "n + length bs \<le> chip_size" "bs \<noteq> []"
  shows "\<exists>s' d'. w1_write_page ops code (int n) bs s = Some (int (length bs), s') \<and> link d' s' \<and>
    ch_mem d' = mem_upd (ch_mem d) n bs"
proof -
  have n: "n < 65536" using assms(3,4) by (cases bs) auto
  define o5 where "o5 = n mod 32"
  define d1 where "d1 = d\<lparr>ch_ta1 := of_nat (n mod 256), ch_ta2 := of_nat (n div 256),
    ch_pad := mem_upd (ch_pad d) o5 bs, ch_es := of_nat (o5 + length bs - 1)\<rparr>"
  have d1: "ch_addr d1 = n" "unat (ch_es d1) = o5 + length bs - 1" "ch_mem d1 = ch_mem d"
    using addr_bytes [OF n, of d1] assms(2) by (auto simp: d1_def o5_def byte_of_int)
  obtain s1 where 1: "w1_match_rom ops code s = Some s1" "link (d\<lparr>ch_st := D_fun\<rparr>) s1" using match_ok [OF assms(1)] by blast
  obtain s2 s3 s4 where 2: "w1_write_byte ops 0x0f s1 = Some s2" "w1_write_byte ops (LSB_ADDR (int n)) s2 = Some s3"
    "w1_write_byte ops (MSB_ADDR (int n)) s3 = Some s4"
    "link (d\<lparr>ch_ta1 := of_nat (n mod 256), ch_ta2 := of_nat (n div 256), ch_es := of_nat o5, ch_st := D_write o5\<rparr>) s4"
    using send_addr [OF 1(2) _ n, of "0x0f" D_write1] addr_bytes [OF n, of "d\<lparr>ch_ta1 := of_nat (n mod 256), ch_ta2 := of_nat (n div 256)\<rparr>"]
    by (auto simp: ch_in_def o5_def ch_addr_def)
  obtain s5 st5 where 5: "w1_put_bytes ops bs s4 = Some s5" "link (d1\<lparr>ch_st := st5\<rparr>) s5"
    using w1_put_bytes_ok [OF 2(4), of o5 bs] assms(2,4) by (auto simp: d1_def o5_def)
  obtain s6 where 6: "w1_match_rom ops code s5 = Some s6" "link (d1\<lparr>ch_st := D_fun\<rparr>) s6" using match_ok [OF 5(2)] by auto
  obtain s7 where 7: "w1_write_byte ops 0xaa s6 = Some s7" "link (d1\<lparr>ch_st := D_scratch 0\<rparr>) s7"
    using sent [OF 6(2), of "0xaa", OF _ refl] by (auto simp: ch_out_def ch_in_def)
  obtain s8 where 8: "w1_read_byte ops s7 = Some (LSB_ADDR (int n), s8)" "link (d1\<lparr>ch_st := D_scratch 1\<rparr>) s8"
    using recv [OF 7(2), of "ch_ta1 d1"] by (auto simp: ch_out_def ch_next_def LSB_nat d1_def byte_of_int)
  obtain s9 where 9: "w1_read_byte ops s8 = Some (MSB_ADDR (int n), s9)" "link (d1\<lparr>ch_st := D_scratch 2\<rparr>) s9"
    using recv [OF 8(2), of "ch_ta2 d1"] n by (auto simp: ch_out_def ch_next_def MSB_nat d1_def byte_of_int numeral_2_eq_2)
  obtain s10 where 10: "w1_read_byte ops s9 = Some (uint (ch_es d1), s10)" "link (d1\<lparr>ch_st := D_scratch 3\<rparr>) s10"
    using recv [OF 9(2), of "ch_es d1"] by (auto simp: ch_out_def ch_next_def numeral_3_eq_3)
  obtain s11 st11 where 11: "w1_same_bytes ops bs s10 = Some (True, s11)" "link (d1\<lparr>ch_st := st11\<rparr>) s11"
    using w1_same_bytes_ok [OF 10(2), of 0 bs] d1 assms(4) by (auto simp: d1_def ch_addr_def o5_def Suc_le_eq)
  obtain s12 where 12: "w1_match_rom ops code s11 = Some s12" "link (d1\<lparr>ch_st := D_fun\<rparr>) s12" using match_ok [OF 11(2)] by auto
  obtain s13 where 13: "w1_write_byte ops 0x55 s12 = Some s13" "link (d1\<lparr>ch_st := D_copy 0\<rparr>) s13"
    using sent [OF 12(2), of "0x55", OF _ refl] by (auto simp: ch_out_def ch_in_def)
  obtain s14 where 14: "w1_write_byte ops (LSB_ADDR (int n)) s13 = Some s14" "link (d1\<lparr>ch_st := D_copy 1\<rparr>) s14"
    using sent [OF 13(2), of "LSB_ADDR (int n)", OF _ refl] by (auto simp: ch_out_def ch_in_def LSB_nat d1_def)
  obtain s15 where 15: "w1_write_byte ops (MSB_ADDR (int n)) s14 = Some s15" "link (d1\<lparr>ch_st := D_copy 2\<rparr>) s15"
    using sent [OF 14(2), of "MSB_ADDR (int n)", OF _ refl] n by (auto simp: ch_out_def ch_in_def MSB_nat d1_def numeral_2_eq_2)
  obtain s16 where 16: "w1_write_byte ops (uint (ch_es d1)) s15 = Some s16" "link (d1\<lparr>ch_mem := ch_copied d1, ch_st := D_off\<rparr>) s16"
    using sent [OF 15(2), of "uint (ch_es d1)", OF _ refl] by (auto simp: ch_out_def ch_in_def)
  have "ch_copied d1 = mem_upd (ch_mem d) n bs"
  proof
    fix a
    have r: "a div 32 = n div 32 \<and> o5 \<le> a mod 32 \<and> a mod 32 \<le> o5 + length bs - 1 \<longleftrightarrow> n \<le> a \<and> a < n + length bs"
      using page_range [OF assms(2)] assms(4) by (simp add: o5_def)
    moreover have "n \<le> a \<and> a < n + length bs \<Longrightarrow> a mod 32 - o5 = a - n"
    proof -
      assume "n \<le> a \<and> a < n + length bs"
      with r have "a div 32 = n div 32" "o5 \<le> a mod 32" by blast+
      then show "a mod 32 - o5 = a - n" using div_mult_mod_eq [of a 32] div_mult_mod_eq [of n 32] unfolding o5_def by linarith
    qed
    moreover have "ch_pad d1 (a mod 32) = bs ! (a mod 32 - o5)" if "o5 \<le> a mod 32 \<and> a mod 32 \<le> o5 + length bs - 1"
      using that assms(4) by (cases bs) (auto simp: d1_def mem_upd_def)
    ultimately show "ch_copied d1 a = mem_upd (ch_mem d) n bs a"
      unfolding ch_copied_def d1 mem_upd_def o5_def [symmetric] using assms(3) by auto
  qed
  then show ?thesis
    using 1 2 5 6 7 8 9 10 11 12 13 14 15 16 d1(3)
    by (intro exI [of _ s16] exI [of _ "d1\<lparr>ch_mem := ch_copied d1, ch_st := D_off\<rparr>"]) (simp add: w1_write_page_def)
qed

text \<open>Any range: the split into pages.\<close>

lemma smod_32: "int n smod 32 = int (n mod 32)"
  using minus_sdiv_mult_eq_smod [of "int n" 32] by (simp add: sdiv_pos zmod_int minus_div_mult_eq_mod)

lemma write_pages_ok:
  "link d s \<Longrightarrow> n mod 32 = 0 \<Longrightarrow> n + length bs \<le> chip_size \<Longrightarrow> 0 \<le> ret \<Longrightarrow> ret + int (length bs) \<le> int chip_size \<Longrightarrow>
    \<exists>s' d'. write_pages ops code (int n) bs ret s = Some (ret + int (length bs), s') \<and> link d' s' \<and>
      ch_mem d' = mem_upd (ch_mem d) n bs"
proof (induction "length bs" arbitrary: n bs d s ret rule: less_induct)
  case less
  show ?case
  proof (cases bs)
    case Nil
    then show ?thesis using less.prems(1) by auto
  next
    case (Cons b bs')
    have l: "length (take 32 bs) \<le> 32" "n + length (take 32 bs) \<le> chip_size" using less.prems(3) by auto
    obtain s1 d1 where 1: "w1_write_page ops code (int n) (take 32 bs) s = Some (int (length (take 32 bs)), s1)" "link d1 s1"
      "ch_mem d1 = mem_upd (ch_mem d) n (take 32 bs)"
      using write_page_ok [OF less.prems(1), of n "take 32 bs"] less.prems(2) l Cons by auto
    have a: "add32 (int n) 32 = int (n + 32)" "add32 ret (int (length (take 32 bs))) = ret + int (length (take 32 bs))"
      using less.prems(3-5) by (auto simp: c_arith)
    have r: "write_pages ops code (int n) bs ret s =
        write_pages ops code (int (n + 32)) (drop 32 bs) (ret + int (length (take 32 bs))) s1"
      using 1(1) a unfolding Cons by simp
    show ?thesis
    proof (cases "length bs \<le> 32")
      case True
      then show ?thesis using 1 unfolding r by (intro exI [of _ s1] exI [of _ d1]) simp
    next
      case False
      then have "\<exists>s' d'. write_pages ops code (int (n + 32)) (drop 32 bs) (ret + 32) s1 = Some (ret + 32 + int (length (drop 32 bs)), s') \<and>
          link d' s' \<and> ch_mem d' = mem_upd (ch_mem d1) (n + 32) (drop 32 bs)"
        using less.prems by (intro less.hyps 1) auto
      moreover have "mem_upd (ch_mem d1) (n + 32) (drop 32 bs) = mem_upd (ch_mem d) n bs"
        using mem_upd_upd [of "ch_mem d" n "take 32 bs" "drop 32 bs"] False by (simp add: 1(3))
      ultimately show ?thesis using False unfolding r by simp
    qed
  qed
qed

lemma write_eeprom_ok:
  assumes "link d s" "n + length bs \<le> chip_size" "bs \<noteq> []"
  shows "\<exists>s' d'. w1_write_eeprom ops code (int n) bs s = Some (int (length bs), s') \<and> link d' s' \<and>
    ch_mem d' = mem_upd (ch_mem d) n bs"
proof (cases "n mod 32 = 0")
  case True
  then have "int n smod 32 = 0" by (simp add: smod_32)
  then show ?thesis
    using write_pages_ok [OF assms(1) True assms(2), of 0] assms(2) by (simp add: w1_write_eeprom_def)
next
  case False
  have pos: "0 < length bs" using assms(3) by simp
  have m: "int n smod 32 = int (n mod 32)" "int n smod 32 \<noteq> 0"
    using False by (simp_all add: smod_32)
  have sd: "(int n + int (length bs) - 1) sdiv 32 = (int n + int (length bs) - 1) div 32"
    by (rule sdiv_pos) (use pos in linarith)+
  have e: "sub32 (add32 (int n) (int (length bs))) 1 sdiv 32 = int ((n + length bs - 1) div 32)" "int n sdiv 32 = int (n div 32)"
    using assms(2) pos sd by (simp_all add: c_arith sdiv_pos zdiv_int of_nat_diff Suc_le_eq)
  define k where k_def: "k = (if (n + length bs - 1) div 32 \<noteq> n div 32 then 32 - n mod 32 else length bs)"
  have k: "0 < k" "k \<le> length bs" "n mod 32 + k \<le> 32" "k < length bs \<Longrightarrow> (n + k) mod 32 = 0"
    using first_part [OF pos False k_def] by blast+
  have ki: "(if sub32 (add32 (int n) (int (length bs))) 1 sdiv 32 \<noteq> int n sdiv 32 then 32 - int n smod 32 else int (length bs)) = int k"
    unfolding e m k_def by (simp add: of_nat_diff)
  have l: "length (take k bs) = k" "take k bs \<noteq> []" using k(1,2) pos by auto
  obtain s1 d1 where 1: "w1_write_page ops code (int n) (take k bs) s = Some (int k, s1)" "link d1 s1"
    "ch_mem d1 = mem_upd (ch_mem d) n (take k bs)"
    using write_page_ok [OF assms(1), of n "take k bs"] k(2,3) l assms(2) by auto
  have a: "add32 (int n) (int k) = int (n + k)" using k(2) assms(2) by (simp add: c_arith)
  have run: "w1_write_eeprom ops code (int n) bs s = write_pages ops code (int (n + k)) (drop k bs) (int k) s1"
    using m(2) ki 1(1) k(2) a by (simp add: w1_write_eeprom_def Let_def cut_def)
  show ?thesis
  proof (cases "k < length bs")
    case True
    have "\<exists>s' d'. write_pages ops code (int (n + k)) (drop k bs) (int k) s1 = Some (int k + int (length (drop k bs)), s') \<and>
        link d' s' \<and> ch_mem d' = mem_upd (ch_mem d1) (n + k) (drop k bs)"
      using k assms(2) True by (intro write_pages_ok 1) auto
    moreover have "mem_upd (ch_mem d1) (n + k) (drop k bs) = mem_upd (ch_mem d) n bs"
      using mem_upd_upd [of "ch_mem d" n "take k bs" "drop k bs"] l(1) by (simp add: 1(3))
    ultimately show ?thesis using True k(2) unfolding run by (simp add: of_nat_diff)
  next
    case False
    then have "k = length bs" using k(2) by simp
    then show ?thesis using 1 unfolding run by (intro exI [of _ s1] exI [of _ d1]) simp
  qed
qed

lemma read_eeprom_ok:
  assumes "link d s" "n + k \<le> chip_size" "n < 65536"
  shows "\<exists>s' d'. w1_read_eeprom ops code (int n) (int k) s = Some (int k, mem_at (ch_mem d) n k, s') \<and> link d' s' \<and>
    ch_mem d' = ch_mem d"
proof -
  obtain s1 where 1: "w1_match_rom ops code s = Some s1" "link (d\<lparr>ch_st := D_fun\<rparr>) s1" using match_ok [OF assms(1)] by blast
  let ?d = "d\<lparr>ch_ta1 := of_nat (n mod 256), ch_ta2 := of_nat (n div 256), ch_st := D_read n\<rparr>"
  obtain s2 s3 s4 where 2: "w1_write_byte ops 0xf0 s1 = Some s2" "w1_write_byte ops (LSB_ADDR (int n)) s2 = Some s3"
    "w1_write_byte ops (MSB_ADDR (int n)) s3 = Some s4" "link ?d s4"
    using send_addr [OF 1(2) _ assms(3), of "0xf0" D_read1] addr_bytes [OF assms(3), of ?d]
    by (auto simp: ch_in_def ch_addr_def)
  obtain s5 where "w1_get_bytes ops k s4 = Some (mem_at (ch_mem d) n k, s5)" "link (?d\<lparr>ch_st := D_read (n + k)\<rparr>) s5"
    using w1_get_bytes_ok [OF 2(4), of n k] assms(2) by auto
  then show ?thesis
    using 1(1) 2 by (intro exI [of _ s5] exI [of _ "?d\<lparr>ch_st := D_read (n + k)\<rparr>"]) (simp add: w1_read_eeprom_def)
qed

end

section \<open>The chip on the wire\<close>

text \<open>The bits of a byte, in both directions; the chip answers a reset at any time.\<close>

fun chip_slot :: "u64 \<Rightarrow> bool \<Rightarrow> chip \<times> nat \<times> u8 \<Rightarrow> bool \<times> chip \<times> nat \<times> u8" where
  "chip_slot code v (d, k, acc) =
    (case ch_out d of
       Some b \<Rightarrow> (v \<and> bit b k, if k = 7 then (ch_next d, 0, 0) else (d, Suc k, acc))
     | None \<Rightarrow>
         let acc = (if v then set_bit k acc else acc)
         in (v, if k = 7 then (ch_in code acc d, 0, 0) else (d, Suc k, acc)))"

definition chip_reset :: "chip \<times> nat \<times> u8 \<Rightarrow> bool \<times> chip \<times> nat \<times> u8" where
  "chip_reset d = (False, (fst d)\<lparr>ch_st := D_rom\<rparr>, 0, 0)"

type_synonym chip_line = "(chip \<times> nat \<times> u8) w1_line"

definition owm_chip :: "u64 \<Rightarrow> chip_line owm" where
  "owm_chip code = owm_line \<lparr>dv_reset = chip_reset, dv_slot = chip_slot code\<rparr>"

lemmas chip_ops = line_reset [where D = "\<lparr>dv_reset = chip_reset, dv_slot = chip_slot code\<rparr>" for code, folded owm_chip_def, simplified]
  line_read [where D = "\<lparr>dv_reset = chip_reset, dv_slot = chip_slot code\<rparr>" for code, folded owm_chip_def, simplified]
  line_write [where D = "\<lparr>dv_reset = chip_reset, dv_slot = chip_slot code\<rparr>" for code, folded owm_chip_def, simplified]

definition chip_at :: "chip \<Rightarrow> chip_line \<Rightarrow> bool" where
  "chip_at d s \<longleftrightarrow> ln_dev s = (d, 0, 0)"

interpretation chip: w1_bytes "wrpc_w1_ops (owm_chip code) port" code chip_at for port code
proof
  fix d s assume "chip_at d s"
  then show "\<exists>s'. op_reset (wrpc_w1_ops (owm_chip code) port) s = Some (1, s') \<and> chip_at (d\<lparr>ch_st := D_rom\<rparr>) s'"
    by (simp add: chip_ops chip_at_def chip_reset_def)
next
  fix d s byte assume d: "chip_at d s" "ch_out d = None"
  define P where "P k c s \<longleftrightarrow> ln_dev s = (if k < 8 then (d, k, c) else (ch_in code c d, 0, 0))"
    for k and c and s :: chip_line
  have "\<exists>s'. w1_write_byte (wrpc_w1_ops (owm_chip code) port) byte s = Some s' \<and> P 8 (word_of_int byte) s'"
    by (rule write_byte_bits) (use d in \<open>auto simp: P_def chip_ops chip_at_def\<close>)
  then show "\<exists>s'. w1_write_byte (wrpc_w1_ops (owm_chip code) port) byte s = Some s' \<and> chip_at (ch_in code (word_of_int byte) d) s'"
    by (simp add: P_def chip_at_def)
next
  fix d s b assume d: "chip_at d s" "ch_out d = Some b"
  define Q where "Q k s \<longleftrightarrow> ln_dev s = (if k < 8 then (d, k, 0) else (ch_next d, 0, 0))"
    for k and s :: chip_line
  have "\<exists>s'. w1_read_byte (wrpc_w1_ops (owm_chip code) port) s = Some (uint b, s') \<and> Q 8 s'"
    by (rule read_byte_bits) (use d in \<open>auto simp: Q_def chip_ops chip_at_def\<close>)
  then show "\<exists>s'. w1_read_byte (wrpc_w1_ops (owm_chip code) port) s = Some (uint b, s') \<and> chip_at (ch_next d) s'"
    by (simp add: Q_def chip_at_def)
qed

text \<open>
  C38. The memory of the 1-wire EEPROM. For every offset and every length within the chip, aligned to its pages or
  not, whatever the port and the busy time of the controller and whatever else is on the list of
  the bus before it, \<open>w1_write_eeprom_bus\<close> writes all bytes and returns their number,
  \<open>w1_read_eeprom_bus\<close> then reads them back, and no other byte of the memory changes.
\<close>

theorem w1_eeprom_round_trip:
  assumes "first_eeprom devs = Some code" "ln_dev s = (d, 0, 0)" "n + length bs \<le> 2560" "bs \<noteq> []"
  shows "\<exists>s1 s2 d2. w1_write_eeprom_bus (wrpc_w1_ops (owm_chip code) port) devs (int n) bs s = Some (int (length bs), s1) \<and>
    w1_read_eeprom_bus (wrpc_w1_ops (owm_chip code) port) devs (int n) (int (length bs)) s1 = Some (int (length bs), bs, s2) \<and>
    ln_dev s2 = (d2, 0, 0) \<and> (\<forall>a. a < n \<or> n + length bs \<le> a \<longrightarrow> ch_mem d2 a = ch_mem d a)"
proof -
  have at: "chip_at d s" using assms(2) by (simp add: chip_at_def)
  obtain s1 d1 where 1: "w1_write_eeprom (wrpc_w1_ops (owm_chip code) port) code (int n) bs s = Some (int (length bs), s1)"
    "chip_at d1 s1" "ch_mem d1 = mem_upd (ch_mem d) n bs"
    using chip.write_eeprom_ok [OF at assms(3,4)] by blast
  have "n < 65536" using assms(3,4) by (cases bs) auto
  then obtain s2 d2 where "w1_read_eeprom (wrpc_w1_ops (owm_chip code) port) code (int n) (int (length bs)) s1 =
      Some (int (length bs), mem_at (ch_mem d1) n (length bs), s2)" "chip_at d2 s2" "ch_mem d2 = ch_mem d1"
    using chip.read_eeprom_ok [OF 1(2) assms(3)] by blast
  then show ?thesis
    using 1 assms(1) by (auto simp: w1_write_eeprom_bus_def w1_read_eeprom_bus_def chip_at_def mem_upd_other)
qed

lemma w1_eeprom_round_trip_witness:
  "\<forall>d. \<exists>s1 s2. w1_write_eeprom_bus (wrpc_w1_ops (owm_chip 0x1100000012345643) 1) [0x2200000800000028, 0x1100000012345643] 30
      (replicate 70 7) \<lparr>ln_dev = (d, 0, 0), ln_dat = True, ln_busy = 3, ln_lag = 5\<rparr> = Some (70, s1) \<and>
    w1_read_eeprom_bus (wrpc_w1_ops (owm_chip 0x1100000012345643) 1) [0x2200000800000028, 0x1100000012345643] 30 70 s1 =
      Some (70, replicate 70 7, s2)"
proof
  fix d
  have "first_eeprom [0x2200000800000028, 0x1100000012345643] = Some 0x1100000012345643"
    by (simp add: first_eeprom_def w1_class_def)
  from w1_eeprom_round_trip [OF this, of "\<lparr>ln_dev = (d, 0, 0), ln_dat = True, ln_busy = 3, ln_lag = 5\<rparr>" d 30 "replicate 70 7" 1]
  show "\<exists>s1 s2. w1_write_eeprom_bus (wrpc_w1_ops (owm_chip 0x1100000012345643) 1) [0x2200000800000028, 0x1100000012345643] 30
      (replicate 70 7) \<lparr>ln_dev = (d, 0, 0), ln_dat = True, ln_busy = 3, ln_lag = 5\<rparr> = Some (70, s1) \<and>
    w1_read_eeprom_bus (wrpc_w1_ops (owm_chip 0x1100000012345643) 1) [0x2200000800000028, 0x1100000012345643] 30 70 s1 =
      Some (70, replicate 70 7, s2)" by auto
qed

section \<open>The thermometers\<close>

text \<open>
  The value of a DS18B20 is exact: its sixteenths of a degree, for every reading. That of a DS18S20 is not:
  at 25 degrees with 12 of 16 counts remaining, which the data sheet makes 25.0, the code returns 24.75, as the counts
  are merged into the bits of the quarter that was subtracted before.
\<close>

lemma temp_exact:
  "cls = 0x28 \<or> cls = 0x42 \<Longrightarrow> temp_value cls sp = 4096 * s16 (push_bit 8 (uint (sp ! 1)) OR uint (sp ! 0))"
proof -
  assume c: "cls = 0x28 \<or> cls = 0x42"
  have "s32 (s16 i * 4096) = s16 i * 4096" for i
  proof -
    have "- 32768 \<le> s16 i" "s16 i < 32768"
      using signed_take_bit_int_greater_eq_minus_exp [of 15 i] signed_take_bit_int_less_exp [of 15 i] by (simp_all add: s16_def)
    then show ?thesis by simp
  qed
  then show ?thesis using c by (auto simp: temp_value_def shl32_def push_bit_eq_mult Let_def)
qed

lemma temp_18s20_quarter: "temp_value 0x10 [0x32, 0, 0, 0, 0, 0, 12, 16] = 24 * 65536 + 49152"
  by (simp add: temp_value_def s16_def c_arith)

end
