(* ===== verification/Sdb_eeprom_Props.thy ===== *)
theory Sdb_eeprom_Props
  imports Sdb_eeprom W1_Devs_Props
begin

text \<open>
  Files in the SDB store. \<open>sdb_store\<close> is the contract of a device that keeps bytes; on it, opening a file that is in the table finds
  its bytes, and reads and writes within the file reach them and nothing else. The contract is discharged for the EEPROM
  of the 1-wire bus, so what the node stores it reads back, through all layers down to the registers of the controller.
\<close>

section \<open>Tables in memory\<close>

definition sdb_rec :: "(nat \<Rightarrow> u8) \<Rightarrow> nat \<Rightarrow> nat \<Rightarrow> u8 list" where
  "sdb_rec m e k = mem_at m (e + 64 * k) 64"

text \<open>A table of \<open>N\<close> records at \<open>e\<close>, the first of which counts them.\<close>

definition sdb_table :: "(nat \<Rightarrow> u8) \<Rightarrow> nat \<Rightarrow> nat \<Rightarrow> bool" where
  "sdb_table m e N \<longleftrightarrow> 0 < N \<and> sdb_records (sdb_rec m e 0) = int N"

text \<open>The first record with this identity is that of the bytes from \<open>first\<close> on.\<close>

definition sdb_file :: "(nat \<Rightarrow> u8) \<Rightarrow> nat \<Rightarrow> nat \<Rightarrow> u64 \<Rightarrow> u32 \<Rightarrow> nat \<Rightarrow> nat \<Rightarrow> bool" where
  "sdb_file m e N vid did first len \<longleftrightarrow> 0 < len \<and>
    (\<exists>j. 0 < j \<and> j < N \<and> vid = sdb_vendor_id (sdb_rec m e j) \<and> did = sdb_device_id (sdb_rec m e j) \<and>
      sdb_addr_first (sdb_rec m e j) = of_nat first \<and> sdb_addr_last (sdb_rec m e j) = of_nat (first + len - 1) \<and>
      (\<forall>i. 0 < i \<and> i < j \<longrightarrow> \<not> (vid = sdb_vendor_id (sdb_rec m e i) \<and> did = sdb_device_id (sdb_rec m e i))))"

definition fs_ok :: "nat \<Rightarrow> sdbfs \<Rightarrow> bool" where
  "fs_ok e fs \<longleftrightarrow> fs_data fs = None \<and> fs_ready fs \<and> length (current_record fs) = 64 \<and> entrypoint fs = of_nat e"

definition scanned :: "nat \<Rightarrow> nat \<Rightarrow> nat \<Rightarrow> sdbfs \<Rightarrow> bool" where
  "scanned e N k fs \<longleftrightarrow> fs_ok e fs \<and> f_offset fs = of_nat (e + 64 * k) \<and> nleft fs = int N - 1 - int k"

definition is_open :: "nat \<Rightarrow> nat \<Rightarrow> nat \<Rightarrow> sdbfs \<Rightarrow> bool" where
  "is_open e first len fs \<longleftrightarrow> fs_ok e fs \<and> currentp fs \<noteq> None \<and> f_offset fs = of_nat first \<and> f_len fs = of_nat len"

lemma of_u32_nat: "n < 2147483648 \<Longrightarrow> of_u32 (of_nat n) = int n"
  by (simp add: of_u32_def signed_of_nat signed_take_bit_int_eq_self)

lemma to_u32_nat [simp]: "to_u32 (int n) = of_nat n"
  by (simp add: to_u32_def)

lemma ucast_of_nat: "(ucast (of_nat n :: u64) :: u32) = of_nat n"
proof -
  have "(ucast (word_of_int (int n) :: u64) :: u32) = word_of_int (int n)"
    by (intro bit_eqI) (auto simp: bit_simps bit_word_of_int_iff)
  then show ?thesis by simp
qed

lemma sdb_open_ok:
  assumes "fs_ok e fs" "sdb_addr_first r = of_nat first" "sdb_addr_last r = of_nat (first + len - 1)" "0 < len" "first < 65536"
  shows "is_open e first len (sdb_open r (fs\<lparr>currentp := Some p\<rparr>))"
proof -
  have f: "ucast (ucast (of_nat first :: u64) :: u32) = (of_nat first :: u64)" "(ucast (of_nat first :: u64) :: u32) = of_nat first"
    "ucast (of_nat first :: u32) = (of_nat first :: u64)"
    using assms(5) by (simp_all add: word_eq_iff_unsigned unsigned_ucast_eq unsigned_of_nat take_bit_nat_eq_self)
  have "of_nat (first + len - 1) + 1 - of_nat first = (of_nat len :: u64)"
  proof -
    have "of_nat (first + len - 1) + 1 = (of_nat (first + len) :: u64)" using assms(4) by (cases len) simp_all
    then show ?thesis by simp
  qed
  then have "(ucast (of_nat (first + len - 1) + 1 - of_nat first :: u64) :: u32) = of_nat len"
    by (simp add: ucast_of_nat)
  then show ?thesis
    using assms(1) by (simp add: is_open_def sdb_open_def fs_ok_def assms(2,3) f Let_def)
qed

section \<open>The contract of the device\<close>

locale sdb_store =
  fixes io :: "'s sdb_io" and holds :: "'s \<Rightarrow> (nat \<Rightarrow> u8) \<Rightarrow> bool" and size :: nat
  assumes store_read: "holds s m \<Longrightarrow> off + n \<le> size \<Longrightarrow>
      \<exists>s'. fs_read io (int off) (int n) s = Some (int n, mem_at m off n, s') \<and> holds s' m"
    and store_write: "holds s m \<Longrightarrow> off + length bs \<le> size \<Longrightarrow> bs \<noteq> [] \<Longrightarrow>
      \<exists>s'. fs_write io (int off) bs s = Some (int (length bs), s') \<and> holds s' (mem_upd m off bs)"
    and small: "size < 65536"
begin

lemma readentry_ok:
  assumes "holds s m" "fs_ok e fs" "a + 64 \<le> size"
  shows "\<exists>s'. sdbfs_readentry io fs (of_nat a) s = Some (Some P_current, fs\<lparr>current_record := mem_at m a 64\<rparr>, s') \<and> holds s' m"
proof -
  have a: "of_u32 (of_nat a) = int a" using assms(3) small by (simp add: of_u32_nat)
  obtain s' where "fs_read io (int a) 64 s = Some (64, mem_at m a 64, s')" "holds s' m"
    using store_read [OF assms(1,3)] by auto
  moreover have "over (mem_at m a 64) (current_record fs) = mem_at m a 64"
    using assms(2) by (simp add: over_def fs_ok_def)
  ultimately show ?thesis using assms(2) by (simp add: sdbfs_readentry_def fs_ok_def a)
qed

lemma scan_new:
  assumes "holds s m" "fs_ok e fs" "sdb_table m e N" "e + 64 * N \<le> size"
  shows "\<exists>fs' s'. sdbfs_scan io fs True s = Some (Some P_current, fs', s') \<and> holds s' m \<and> scanned e N 0 fs' \<and>
    current_record fs' = sdb_rec m e 0"
proof -
  have "e + 64 \<le> size" using assms(3,4) by (simp add: sdb_table_def)
  from readentry_ok [OF assms(1) _ this, of e "fs\<lparr>f_offset := of_nat e\<rparr>"] assms(2)
  obtain s' where "sdbfs_readentry io (fs\<lparr>f_offset := of_nat e\<rparr>) (of_nat e) s =
      Some (Some P_current, fs\<lparr>f_offset := of_nat e, current_record := mem_at m e 64\<rparr>, s')" "holds s' m"
    by (auto simp: fs_ok_def)
  then show ?thesis
    using assms(2,3) by (simp add: sdbfs_scan_def fs_ok_def deref_def scanned_def sdb_table_def sdb_rec_def)
qed

lemma scan_next:
  assumes "holds s m" "scanned e N k fs" "Suc k < N" "e + 64 * N \<le> size"
  shows "\<exists>fs' s'. sdbfs_scan io fs False s = Some (Some P_current, fs', s') \<and> holds s' m \<and> scanned e N (Suc k) fs' \<and>
    current_record fs' = sdb_rec m e (Suc k)"
proof -
  let ?fs = "fs\<lparr>f_offset := of_nat (e + 64 * Suc k)\<rparr>"
  have a: "f_offset fs + 64 = of_nat (e + 64 * Suc k)" using assms(2) by (simp add: scanned_def)
  have "e + 64 * Suc k + 64 \<le> size" "fs_ok e ?fs" using assms(2-4) by (simp_all add: scanned_def fs_ok_def)
  from readentry_ok [OF assms(1) this(2,1)] obtain s' where
    "sdbfs_readentry io ?fs (of_nat (e + 64 * Suc k)) s = Some (Some P_current, ?fs\<lparr>current_record := sdb_rec m e (Suc k)\<rparr>, s')"
    "holds s' m" by (auto simp: sdb_rec_def)
  moreover have "sub32 (nleft fs) 1 = int N - 1 - int (Suc k)" "nleft fs \<noteq> 0"
    using assms(2-4) small by (simp_all add: scanned_def c_arith)
  ultimately show ?thesis
    using assms(2) unfolding sdbfs_scan_def if_False Let_def a by (simp add: scanned_def fs_ok_def sdb_rec_def)
qed

lemma scan_end: "scanned e N k fs \<Longrightarrow> Suc k = N \<Longrightarrow> sdbfs_scan io fs False s = Some (None, fs\<lparr>f_offset := f_offset fs + 64\<rparr>, s)"
  by (auto simp: sdbfs_scan_def scanned_def)

lemma open_loop_ok:
  assumes "holds s m" "scanned e N k fs" "k < j" "j < N" "e + 64 * N \<le> size"
    and "P (sdb_rec m e j)" "\<And>i. k < i \<Longrightarrow> i < j \<Longrightarrow> \<not> P (sdb_rec m e i)"
  shows "\<exists>fs' s'. open_loop io P fs s = Some (0, sdb_open (sdb_rec m e j) (fs'\<lparr>currentp := Some P_current\<rparr>), s') \<and>
    holds s' m \<and> fs_ok e fs'"
  using assms(1-3,7)
proof (induction "j - k" arbitrary: k fs s)
  case (Suc n)
  obtain fs1 s1 where 1: "sdbfs_scan io fs False s = Some (Some P_current, fs1, s1)" "holds s1 m" "scanned e N (Suc k) fs1"
    "current_record fs1 = sdb_rec m e (Suc k)"
    using scan_next [OF Suc.prems(1,2) _ assms(5)] Suc.prems(3) assms(4) by auto
  show ?case
  proof (cases "Suc k = j")
    case True
    then show ?thesis
      using 1 assms(6) by (subst open_loop.simps) (auto simp: deref_def scanned_def)
  next
    case False
    then have "\<not> P (sdb_rec m e (Suc k))" using Suc.prems(3,4) by simp
    moreover have "\<exists>fs' s'. open_loop io P fs1 s1 = Some (0, sdb_open (sdb_rec m e j) (fs'\<lparr>currentp := Some P_current\<rparr>), s') \<and>
        holds s' m \<and> fs_ok e fs'"
      using Suc.hyps(1) [of "Suc k" s1 fs1] Suc.hyps(2) False Suc.prems(3,4) 1(2,3) by auto
    ultimately show ?thesis using 1 by (subst open_loop.simps) (simp add: deref_def)
  qed
qed simp

lemma open_ok:
  assumes "holds s m" "fs_ok e fs" "sdb_table m e N" "e + 64 * N \<le> size" "sdb_file m e N vid did first len" "first < 65536"
  shows "\<exists>fs' s'. sdbfs_open_id io vid did fs s = Some (0, fs', s') \<and> holds s' m \<and> is_open e first len fs'"
proof -
  obtain j where j: "0 < j" "j < N" "vid = sdb_vendor_id (sdb_rec m e j) \<and> did = sdb_device_id (sdb_rec m e j)"
    "sdb_addr_first (sdb_rec m e j) = of_nat first" "sdb_addr_last (sdb_rec m e j) = of_nat (first + len - 1)" "0 < len"
    and others: "\<And>i. 0 < i \<Longrightarrow> i < j \<Longrightarrow> \<not> (vid = sdb_vendor_id (sdb_rec m e i) \<and> did = sdb_device_id (sdb_rec m e i))"
    using assms(5) by (auto simp: sdb_file_def)
  obtain fs1 s1 where 1: "sdbfs_scan io fs True s = Some (Some P_current, fs1, s1)" "holds s1 m" "scanned e N 0 fs1"
    using scan_new [OF assms(1-4)] by blast
  obtain fs2 s2 where 2: "open_loop io (\<lambda>r. vid = sdb_vendor_id r \<and> did = sdb_device_id r) fs1 s1 =
      Some (0, sdb_open (sdb_rec m e j) (fs2\<lparr>currentp := Some P_current\<rparr>), s2)" "holds s2 m" "fs_ok e fs2"
    using open_loop_ok [OF 1(2,3) j(1,2) assms(4), of "\<lambda>r. vid = sdb_vendor_id r \<and> did = sdb_device_id r"] j(3) others by blast
  have "is_open e first len (sdb_open (sdb_rec m e j) (fs2\<lparr>currentp := Some P_current\<rparr>))"
    by (rule sdb_open_ok [OF 2(3) j(4,5,6) assms(6)])
  then show ?thesis using 1(1) 2(1,2) unfolding sdbfs_open_id_def by simp
qed

text \<open>Reads and writes inside the file.\<close>

lemma range_ok:
  assumes "is_open e first len fs" "off + n \<le> len" "first + len \<le> size"
  shows "access_range fs (int off) (int n) = (int off, int n)" "of_u32 (f_offset fs + of_nat off) = int (first + off)"
proof -
  have "add32 (int off) (int n) = int (off + n)" using assms(2,3) small by (simp add: c_arith)
  moreover have "\<not> of_nat len < (of_nat (off + n) :: u32)"
    using assms(2,3) small by (simp add: word_less_nat_alt unsigned_of_nat take_bit_nat_eq_self not_less del: of_nat_add)
  ultimately show "access_range fs (int off) (int n) = (int off, int n)"
    using assms(1) unfolding access_range_def is_open_def by (simp del: of_nat_add)
  have "f_offset fs + of_nat off = of_nat (first + off)" using assms(1) by (simp add: is_open_def)
  then show "of_u32 (f_offset fs + of_nat off) = int (first + off)"
    using assms(2,3) small of_u32_nat [of "first + off"] by (simp del: of_nat_add)
qed

lemma fread_ok:
  assumes "holds s m" "is_open e first len fs" "off + n \<le> len" "first + len \<le> size"
  shows "\<exists>s'. sdbfs_fread io (int off) (int n) fs s =
    Some (int n, mem_at m (first + off) n, advance (int off) (int n) fs, s') \<and> holds s' m"
  using store_read [OF assms(1), of "first + off" n] assms(2-4) range_ok [OF assms(2-4)]
  by (auto simp: sdbfs_fread_def is_open_def fs_ok_def Let_def)

lemma fwrite_ok:
  assumes "holds s m" "is_open e first len fs" "off + length bs \<le> len" "first + len \<le> size" "bs \<noteq> []"
  shows "\<exists>s'. sdbfs_fwrite io (int off) bs fs s =
    Some (int (length bs), bs, advance (int off) (int (length bs)) fs, s') \<and> holds s' (mem_upd m (first + off) bs)"
  using store_write [OF assms(1) _ assms(5), of "first + off"] assms(2-4) range_ok [OF assms(2-4)]
  by (auto simp: sdbfs_fwrite_def is_open_def fs_ok_def Let_def)

end

text \<open>Writes outside the table leave it alone.\<close>

lemma sdb_rec_upd: "first + length bs \<le> e \<or> e + 64 * N \<le> first \<Longrightarrow> k < N \<Longrightarrow> sdb_rec (mem_upd m first bs) e k = sdb_rec m e k"
  unfolding sdb_rec_def by (rule mem_at_upd_other) auto

lemma sdb_table_upd: "first + length bs \<le> e \<or> e + 64 * N \<le> first \<Longrightarrow> sdb_table (mem_upd m first bs) e N = sdb_table m e N"
  using sdb_rec_upd [of first bs e N 0 m] by (auto simp: sdb_table_def)

lemma sdb_file_upd:
  assumes "first + length bs \<le> e \<or> e + 64 * N \<le> first"
  shows "sdb_file (mem_upd m first bs) e N vid did = sdb_file m e N vid did"
proof (intro ext)
  fix f l
  have "(0 < j \<and> j < N \<and> Q (sdb_rec (mem_upd m first bs) e j) \<and> (\<forall>i. 0 < i \<and> i < j \<longrightarrow> R (sdb_rec (mem_upd m first bs) e i))) =
      (0 < j \<and> j < N \<and> Q (sdb_rec m e j) \<and> (\<forall>i. 0 < i \<and> i < j \<longrightarrow> R (sdb_rec m e i)))" for j Q R
    using sdb_rec_upd [OF assms] by auto
  from this [where R = "\<lambda>r. \<not> (vid = sdb_vendor_id r \<and> did = sdb_device_id r)" and
    Q = "\<lambda>r. vid = sdb_vendor_id r \<and> did = sdb_device_id r \<and> sdb_addr_first r = of_nat f \<and> sdb_addr_last r = of_nat (f + l - 1)"]
  show "sdb_file (mem_upd m first bs) e N vid did f l = sdb_file m e N vid did f l"
    unfolding sdb_file_def by (simp add: conj_assoc)
qed

section \<open>The operations of the store\<close>

lemma fs_ok_cong [simp]:
  "fs_ok e (fs\<lparr>currentp := c\<rparr>) = fs_ok e fs" "fs_ok e (sdbfs_close fs) = fs_ok e fs" "fs_ok e (advance o' r fs) = fs_ok e fs"
  by (simp_all add: fs_ok_def sdbfs_close_def advance_def)

lemma is_open_ok: "is_open e first len fs \<Longrightarrow> fs_ok e fs"
  by (simp add: is_open_def)

lemma scanned_cong: "scanned e N k fs \<Longrightarrow> scanned e N k (fs\<lparr>current_record := (current_record fs)[63 := 0]\<rparr>)"
  by (simp add: scanned_def fs_ok_def)

context sdb_store
begin

lemma list_ok:
  "holds s m \<Longrightarrow> scanned e N k fs \<Longrightarrow> k < N \<Longrightarrow> e + 64 * N \<le> size \<Longrightarrow>
    \<exists>out fs' s'. sdb_list io False fs s = Some (out, fs', s') \<and> holds s' m \<and> fs_ok e fs'"
proof (induction "N - k" arbitrary: k fs s)
  case (Suc n)
  show ?case
  proof (cases "Suc k = N")
    case True
    from scan_end [OF Suc.prems(2) True, of s] Suc.prems show ?thesis
      by (subst sdb_list.simps) (simp add: scanned_def fs_ok_def)
  next
    case False
    then obtain fs1 s1 where 1: "sdbfs_scan io fs False s = Some (Some P_current, fs1, s1)" "holds s1 m" "scanned e N (Suc k) fs1"
      using scan_next [OF Suc.prems(1,2)] Suc.prems(3,4) by auto
    have "\<exists>out fs' s'. sdb_list io False (fs1\<lparr>current_record := (current_record fs1)[63 := 0]\<rparr>) s1 = Some (out, fs', s') \<and>
        holds s' m \<and> fs_ok e fs'"
      using Suc.hyps(1) [of "Suc k"] Suc.hyps(2) 1(2) scanned_cong [OF 1(3)] Suc.prems(3,4) False by auto
    then show ?thesis using 1(1) by (subst sdb_list.simps) (auto simp: deref_def)
  qed
qed simp

lemma present_ok:
  assumes "holds s m" "fs_data (wrc_sdb st) = None" "length (current_record (wrc_sdb st)) = 64" "entrypoint (wrc_sdb st) = 0"
    and "word_of_nat (be_val (mem_at m 0 4)) = SDB_MAGIC" "sdb_table m 0 N" "64 * N \<le> size"
  shows "\<exists>st' s'. sdb_eeprom_present io st s = Some (0, st', s') \<and> holds s' m \<and> fs_ok 0 (wrc_sdb st') \<and> st_has_eeprom st'"
proof -
  have size: "4 \<le> size" using assms(6,7) by (auto simp: sdb_table_def)
  obtain s1 where 1: "fs_read io 0 4 s = Some (4, mem_at m 0 4, s1)" "holds s1 m"
    using store_read [OF assms(1), of 0 4] size by auto
  have "find_magic io entry_points 0 s = Some (SDB_MAGIC, s1)"
    using 1(1) assms(5) by (simp add: entry_points_def over_def)
  moreover have ok: "fs_ok 0 ((wrc_sdb st)\<lparr>fs_ready := True\<rparr>)" using assms(2-4) by (simp add: fs_ok_def)
  obtain fs2 s2 where 2: "sdbfs_scan io ((wrc_sdb st)\<lparr>fs_ready := True\<rparr>) True s1 = Some (Some P_current, fs2, s2)"
    "holds s2 m" "scanned 0 N 0 fs2"
    using scan_new [OF 1(2) ok assms(6)] assms(7) by auto
  obtain out fs3 s3 where "sdb_list io False (fs2\<lparr>current_record := (current_record fs2)[63 := 0]\<rparr>) s2 = Some (out, fs3, s3)"
    "holds s3 m" "fs_ok 0 fs3"
    using list_ok [OF 2(2) scanned_cong [OF 2(3)]] assms(6,7) by (auto simp: sdb_table_def)
  moreover from this(1) have "\<exists>out. sdb_list io True ((wrc_sdb st)\<lparr>fs_ready := True\<rparr>) s1 = Some (out, fs3, s3)"
    using 2(1) by (subst sdb_list.simps) (simp add: deref_def)
  ultimately show ?thesis by (auto simp: sdb_eeprom_present_def)
qed

text \<open>A file that is there is opened, whatever was open before.\<close>

lemma open_file_ok:
  assumes "holds s m" "fs_ok e (wrc_sdb st)" "sdb_table m e N" "e + 64 * N \<le> size"
    and "sdb_file m e N SDB_VENDOR did first len" "first + len \<le> size"
  shows "\<exists>st' s'. sdb_open_file io did st s = Some (0, st', s') \<and> holds s' m \<and> is_open e first len (wrc_sdb st')"
proof -
  have "first < 65536" using assms(6) small by simp
  from open_ok [OF assms(1-5) this] show ?thesis by (auto simp: sdb_open_file_def)
qed

lemma fread_file:
  assumes "holds s m" "is_open e first len (wrc_sdb st)" "n \<le> len" "first + len \<le> size"
  shows "\<exists>st' s'. sdb_fread io 0 (int n) st s = Some (int n, mem_at m first n, st', s') \<and> holds s' m \<and> fs_ok e (wrc_sdb st')"
  using fread_ok [OF assms(1,2), of 0 n] assms(3,4) is_open_ok [OF assms(2)] by (auto simp: sdb_fread_def)

lemma fwrite_file:
  assumes "holds s m" "is_open e first len (wrc_sdb st)" "length bs \<le> len" "first + len \<le> size" "bs \<noteq> []"
  shows "\<exists>st' s'. sdb_fwrite io 0 bs st s = Some (int (length bs), st', s') \<and> holds s' (mem_upd m first bs) \<and>
    fs_ok e (wrc_sdb st')"
  using fwrite_ok [OF assms(1,2), of 0 bs] assms(3-5) is_open_ok [OF assms(2)] by (auto simp: sdb_fwrite_def)

definition has_file :: "(nat \<Rightarrow> u8) \<Rightarrow> nat \<Rightarrow> u32 \<Rightarrow> nat \<Rightarrow> nat \<Rightarrow> bool" where
  "has_file m N did first len \<longleftrightarrow> sdb_table m 0 N \<and> 64 * N \<le> first \<and> first + len \<le> size \<and> sdb_file m 0 N SDB_VENDOR did first len"

lemma has_file_upd: "64 * N \<le> a \<Longrightarrow> has_file (mem_upd m a bs) N did first len = has_file m N did first len"
  by (simp add: has_file_def sdb_table_upd sdb_file_upd)

lemma open_has_file:
  "holds s m \<Longrightarrow> fs_ok 0 (wrc_sdb st) \<Longrightarrow> has_file m N did first len \<Longrightarrow>
    \<exists>st' s'. sdb_open_file io did st s = Some (0, st', s') \<and> holds s' m \<and> is_open 0 first len (wrc_sdb st')"
  using open_file_ok [of s m 0 st N did first len] by (auto simp: has_file_def)

lemma set_mac_ok:
  assumes "holds s m" "fs_ok 0 (wrc_sdb st)" "has_file m N SDB_DEV_MAC first len" "6 \<le> len" "length mac = 6"
  shows "\<exists>st' s'. sdb_set_persistent_mac io mac st s = Some (0, st', s') \<and> holds s' (mem_upd m first mac) \<and> fs_ok 0 (wrc_sdb st')"
proof -
  obtain st1 s1 where 1: "sdb_open_file io SDB_DEV_MAC st s = Some (0, st1, s1)" "holds s1 m" "is_open 0 first len (wrc_sdb st1)"
    using open_has_file [OF assms(1-3)] by blast
  obtain st2 s2 where "sdb_fwrite io 0 mac st1 s1 = Some (6, st2, s2)" "holds s2 (mem_upd m first mac)" "fs_ok 0 (wrc_sdb st2)"
    using fwrite_file [OF 1(2,3), of mac] assms(3-5) by (fastforce simp: has_file_def)
  then show ?thesis using 1(1) by (simp add: sdb_set_persistent_mac_def sdb_close_def)
qed

lemma get_mac_ok:
  assumes "holds s m" "fs_ok 0 (wrc_sdb st)" "has_file m N SDB_DEV_MAC first len" "6 \<le> len" "length old = 6"
    and "mem_at m first 6 = mac" "hd mac \<noteq> 0xff" "set mac \<noteq> {0}"
  shows "\<exists>st' s'. sdb_get_persistent_mac io devs old st s = Some (0, mac, st', s') \<and> holds s' m \<and> fs_ok 0 (wrc_sdb st')"
proof -
  obtain st1 s1 where 1: "sdb_open_file io SDB_DEV_MAC st s = Some (0, st1, s1)" "holds s1 m" "is_open 0 first len (wrc_sdb st1)"
    using open_has_file [OF assms(1-3)] by blast
  obtain st2 s2 where 2: "sdb_fread io 0 6 st1 s1 = Some (6, mac, st2, s2)" "holds s2 m" "fs_ok 0 (wrc_sdb st2)"
    using fread_file [OF 1(2,3), of 6] assms(3,4,6) by (fastforce simp: has_file_def)
  have l: "length mac = 6" using assms(6) by (metis length_mem_at)
  then obtain a b c d e f where m: "mac = [a, b, c, d, e, f]" by (auto simp: numeral_eq_Suc length_Suc_conv)
  have "mac ! 0 \<noteq> 0xff" "\<not> mac ! 0 OR mac ! 1 OR mac ! 2 OR mac ! 3 OR mac ! 4 OR mac ! 5 = 0"
    using assms(7,8) unfolding m by (auto simp: or_eq_0_iff)
  moreover have "over mac old = mac" using l assms(5) by (simp add: over_def)
  ultimately show ?thesis using 1(1) 2 by (simp add: sdb_get_persistent_mac_def sdb_close_def)
qed

lemma phtrans_write_ok:
  assumes "holds s m" "fs_ok 0 (wrc_sdb st)" "has_file m N SDB_DEV_CALIB first len" "4 \<le> len"
  shows "\<exists>st' s'. sdb_phtrans io val True st s = Some (1, val, st', s') \<and>
    holds s' (mem_upd m first (be_bytes 4 (unat (val OR VALIDITY_BIT)))) \<and> fs_ok 0 (wrc_sdb st')"
proof -
  obtain st1 s1 where 1: "sdb_open_file io SDB_DEV_CALIB st s = Some (0, st1, s1)" "holds s1 m" "is_open 0 first len (wrc_sdb st1)"
    using open_has_file [OF assms(1-3)] by blast
  have b: "length (be_bytes 4 (unat (val OR VALIDITY_BIT))) = 4" "be_bytes 4 (unat (val OR VALIDITY_BIT)) \<noteq> []"
    by (simp, metis length_be_bytes list.size(3) zero_neq_numeral)
  obtain st2 s2 where "sdb_fwrite io 0 (be_bytes 4 (unat (val OR VALIDITY_BIT))) st1 s1 = Some (4, st2, s2)"
    "holds s2 (mem_upd m first (be_bytes 4 (unat (val OR VALIDITY_BIT))))" "fs_ok 0 (wrc_sdb st2)"
    using fwrite_file [OF 1(2,3) _ _ b(2)] assms(3,4) unfolding b(1) has_file_def by auto
  then show ?thesis using 1(1) by (simp add: sdb_phtrans_def sdb_close_def)
qed

lemma phtrans_read_ok:
  assumes "holds s m" "fs_ok 0 (wrc_sdb st)" "has_file m N SDB_DEV_CALIB first len" "4 \<le> len"
    and "mem_at m first 4 = be_bytes 4 (unat (v OR VALIDITY_BIT))"
  shows "\<exists>st' s'. sdb_phtrans io old False st s = Some (1, v AND NOT VALIDITY_BIT, st', s') \<and> holds s' m \<and> fs_ok 0 (wrc_sdb st')"
proof -
  obtain st1 s1 where 1: "sdb_open_file io SDB_DEV_CALIB st s = Some (0, st1, s1)" "holds s1 m" "is_open 0 first len (wrc_sdb st1)"
    using open_has_file [OF assms(1-3)] by blast
  obtain st2 s2 where 2: "sdb_fread io 0 4 st1 s1 = Some (4, mem_at m first 4, st2, s2)" "holds s2 m" "fs_ok 0 (wrc_sdb st2)"
    using fread_file [OF 1(2,3), of 4] assms(3,4) by (fastforce simp: has_file_def)
  have "be_val (be_bytes 4 (unat (v OR VALIDITY_BIT))) = unat (v OR VALIDITY_BIT)"
    using unsigned_less [of "v OR VALIDITY_BIT", where 'a = nat] by (simp add: be_val_bytes)
  then have v: "(word_of_nat (be_val (mem_at m first 4)) :: u32) = v OR VALIDITY_BIT" unfolding assms(5) by simp
  have x: "(v OR x) AND x = x" "(v OR x) AND NOT x = v AND NOT x" for x by (intro bit_eqI, auto simp: bit_simps)+
  show ?thesis using 1(1) 2 v x [of VALIDITY_BIT, simplified] by (simp add: sdb_phtrans_def sdb_close_def)
qed

end

section \<open>On the 1-wire bus\<close>

definition w1_holds :: "u64 \<Rightarrow> u64 list \<Rightarrow> chip_line \<Rightarrow> (nat \<Rightarrow> u8) \<Rightarrow> bool" where
  "w1_holds code devs s m \<longleftrightarrow> first_eeprom devs = Some code \<and> (\<exists>d. chip_at d s \<and> ch_mem d = m)"

interpretation w1: sdb_store "sdb_w1_io (wrpc_w1_ops (owm_chip code) port) devs" "w1_holds code devs" 2560
  for code port devs
proof
  fix s m and off n :: nat
  assume "w1_holds code devs s m" and r: "off + n \<le> 2560"
  then obtain d where "first_eeprom devs = Some code" "chip_at d s" "ch_mem d = m" by (auto simp: w1_holds_def)
  then show "\<exists>s'. fs_read (sdb_w1_io (wrpc_w1_ops (owm_chip code) port) devs) (int off) (int n) s = Some (int n, mem_at m off n, s') \<and>
      w1_holds code devs s' m"
    using chip.read_eeprom_ok [of d s off n code port] r
    by (fastforce simp: sdb_w1_io_def w1_read_eeprom_bus_def w1_holds_def)
next
  fix s m off and bs :: "u8 list"
  assume "w1_holds code devs s m" and r: "off + length bs \<le> 2560" "bs \<noteq> []"
  then obtain d where "first_eeprom devs = Some code" "chip_at d s" "ch_mem d = m" by (auto simp: w1_holds_def)
  then show "\<exists>s'. fs_write (sdb_w1_io (wrpc_w1_ops (owm_chip code) port) devs) (int off) bs s = Some (int (length bs), s') \<and>
      w1_holds code devs s' (mem_upd m off bs)"
    using chip.write_eeprom_ok [of d s off bs code port] r
    by (fastforce simp: sdb_w1_io_def w1_write_eeprom_bus_def w1_holds_def)
qed simp

text \<open>
  C39. The store of a node with an SDB file system at the start of its 1-wire EEPROM, through all its layers. If the
  memory starts, at offset 0, with the magic number and a table that has files for the MAC address and the calibration, of at least 6
  and 4 bytes, behind the table, inside the 2560 bytes of the chip and apart from each other, then \<open>eeprom_present\<close>
  finds it; an address that is stored, neither starting with 0xff nor all zero, is read back unchanged after both
  writes, and so is a phase transition but for its bit 31, which is the mark of a valid value. (At the other entry points that
  are tried the file system is not found: \<open>present_keeps_entry\<close>.)
\<close>

theorem sdb_store_keeps:
  assumes "first_eeprom devs = Some code" "ln_dev s = (d, 0, 0)"
    and "word_of_nat (be_val (mem_at (ch_mem d) 0 4)) = SDB_MAGIC" "sdb_table (ch_mem d) 0 N"
    and "sdb_file (ch_mem d) 0 N SDB_VENDOR SDB_DEV_MAC a la" "6 \<le> la" "64 * N \<le> a" "a + la \<le> 2560"
    and "sdb_file (ch_mem d) 0 N SDB_VENDOR SDB_DEV_CALIB b lb" "4 \<le> lb" "64 * N \<le> b" "b + lb \<le> 2560"
    and "a + la \<le> b \<or> b + lb \<le> a" "length mac = 6" "hd mac \<noteq> 0xff" "set mac \<noteq> {0}" "length old = 6"
  shows "let io = sdb_w1_io (wrpc_w1_ops (owm_chip code) port) devs in \<exists>st1 s1 st2 s2 st3 s3 st4 s4 st5 s5.
    sdb_eeprom_present io sdb_st0 s = Some (0, st1, s1) \<and>
    sdb_set_persistent_mac io mac st1 s1 = Some (0, st2, s2) \<and>
    sdb_phtrans io v True st2 s2 = Some (1, v, st3, s3) \<and>
    sdb_get_persistent_mac io devs old st3 s3 = Some (0, mac, st4, s4) \<and>
    sdb_phtrans io v' False st4 s4 = Some (1, v AND NOT VALIDITY_BIT, st5, s5)"
proof -
  define io where "io = sdb_w1_io (wrpc_w1_ops (owm_chip code) port) devs"
  let ?m = "ch_mem d" and ?w = "be_bytes 4 (unat (v OR VALIDITY_BIT))"
  have h: "w1_holds code devs s ?m" using assms(1,2) by (auto simp: w1_holds_def chip_at_def)
  have f: "w1.has_file ?m N SDB_DEV_MAC a la" "w1.has_file ?m N SDB_DEV_CALIB b lb"
    using assms(4,5,7-9,11,12) by (simp_all add: w1.has_file_def)
  have st0: "fs_data (wrc_sdb sdb_st0) = None" "length (current_record (wrc_sdb sdb_st0)) = 64" "entrypoint (wrc_sdb sdb_st0) = 0"
    by (simp_all add: sdb_st0_def)
  have n: "64 * N \<le> 2560" using assms(7,8) by simp
  obtain st1 s1 where 1: "sdb_eeprom_present io sdb_st0 s = Some (0, st1, s1)" "w1_holds code devs s1 ?m" "fs_ok 0 (wrc_sdb st1)"
    using w1.present_ok [OF h st0 assms(3,4) n] unfolding io_def by blast
  obtain st2 s2 where 2: "sdb_set_persistent_mac io mac st1 s1 = Some (0, st2, s2)" "w1_holds code devs s2 (mem_upd ?m a mac)"
    "fs_ok 0 (wrc_sdb st2)" using w1.set_mac_ok [OF 1(2,3) f(1) assms(6,14)] unfolding io_def by blast
  have f2: "w1.has_file (mem_upd ?m a mac) N SDB_DEV_CALIB b lb" using f(2) assms(7) by (simp add: w1.has_file_upd)
  obtain st3 s3 where 3: "sdb_phtrans io v True st2 s2 = Some (1, v, st3, s3)"
    "w1_holds code devs s3 (mem_upd (mem_upd ?m a mac) b ?w)" "fs_ok 0 (wrc_sdb st3)"
    using w1.phtrans_write_ok [OF 2(2,3) f2 assms(10)] unfolding io_def by blast
  have f3: "w1.has_file (mem_upd (mem_upd ?m a mac) b ?w) N SDB_DEV_MAC a la" "w1.has_file (mem_upd (mem_upd ?m a mac) b ?w) N SDB_DEV_CALIB b lb"
    using f assms(7,11) by (simp_all add: w1.has_file_upd)
  have r: "mem_at (mem_upd (mem_upd ?m a mac) b ?w) a 6 = mac" "mem_at (mem_upd (mem_upd ?m a mac) b ?w) b 4 = ?w"
  proof -
    have "a + 6 \<le> b \<or> b + length ?w \<le> a" using assms(6,10,13) by (elim disjE) simp_all
    from mem_at_upd_other [OF this, of "mem_upd ?m a mac"]
    show "mem_at (mem_upd (mem_upd ?m a mac) b ?w) a 6 = mac" using mem_at_upd_same [of ?m a mac] by (simp add: assms(14))
    show "mem_at (mem_upd (mem_upd ?m a mac) b ?w) b 4 = ?w" using mem_at_upd_same [of "mem_upd ?m a mac" b ?w] by simp
  qed
  obtain st4 s4 where 4: "sdb_get_persistent_mac io devs old st3 s3 = Some (0, mac, st4, s4)"
    "w1_holds code devs s4 (mem_upd (mem_upd ?m a mac) b ?w)" "fs_ok 0 (wrc_sdb st4)"
    using w1.get_mac_ok [OF 3(2,3) f3(1) assms(6,17) r(1) assms(15,16)] unfolding io_def by blast
  obtain st5 s5 where "sdb_phtrans io v' False st4 s4 = Some (1, v AND NOT VALIDITY_BIT, st5, s5)"
    using w1.phtrans_read_ok [OF 4(2,3) f3(2) assms(10) r(2)] unfolding io_def by blast
  then show ?thesis using 1(1) 2(1) 3(1) 4(1) unfolding io_def [symmetric] Let_def by blast
qed

text \<open>A memory with three records: the table, the address and the calibration.\<close>

definition demo_image :: "u8 list" where
  "demo_image =
    be_bytes 4 0x5344422d @ be_bytes 2 3 @ replicate 58 0 @
    replicate 8 0 @ be_bytes 8 256 @ be_bytes 8 261 @ be_bytes 8 0x46696c6544617461 @ be_bytes 4 0x6d61632d @ replicate 28 0 @
    replicate 8 0 @ be_bytes 8 264 @ be_bytes 8 267 @ be_bytes 8 0x46696c6544617461 @ be_bytes 4 0x63616c69 @ replicate 28 0"

definition demo_mem :: "nat \<Rightarrow> u8" where
  "demo_mem a = (if a < 192 then demo_image ! a else 0xff)"

lemma length_demo: "length demo_image = 192"
  by (simp add: demo_image_def)

lemma demo_rec: "k < 3 \<Longrightarrow> sdb_rec demo_mem 0 k = take 64 (drop (64 * k) demo_image)"
  unfolding sdb_rec_def by (rule nth_equalityI) (auto simp: demo_mem_def length_demo)

lemma demo_recs:
  "sdb_rec demo_mem 0 0 = be_bytes 4 0x5344422d @ be_bytes 2 3 @ replicate 58 0"
  "sdb_rec demo_mem 0 (Suc 0) =
    replicate 8 0 @ be_bytes 8 256 @ be_bytes 8 261 @ be_bytes 8 0x46696c6544617461 @ be_bytes 4 0x6d61632d @ replicate 28 0"
  "sdb_rec demo_mem 0 2 =
    replicate 8 0 @ be_bytes 8 264 @ be_bytes 8 267 @ be_bytes 8 0x46696c6544617461 @ be_bytes 4 0x63616c69 @ replicate 28 0"
  by (simp_all add: demo_rec demo_image_def)

lemmas sdb_fields = sdb_addr_first_def sdb_addr_last_def sdb_vendor_id_def sdb_device_id_def sdb_records_def rec_field_def

lemma demo_files:
  "sdb_table demo_mem 0 3" "sdb_file demo_mem 0 3 SDB_VENDOR SDB_DEV_MAC 256 6"
  "sdb_file demo_mem 0 3 SDB_VENDOR SDB_DEV_CALIB 264 4"
proof -
  show "sdb_table demo_mem 0 3" by (simp add: sdb_table_def demo_recs sdb_fields)
  show "sdb_file demo_mem 0 3 SDB_VENDOR SDB_DEV_MAC 256 6"
    unfolding sdb_file_def by (intro conjI exI [of _ "Suc 0"]) (simp_all add: demo_recs sdb_fields)
  have "0 < i \<and> i < 2 \<longleftrightarrow> i = Suc 0" for i :: nat by auto
  then show "sdb_file demo_mem 0 3 SDB_VENDOR SDB_DEV_CALIB 264 4"
    unfolding sdb_file_def by (intro conjI exI [of _ 2]) (simp_all add: demo_recs sdb_fields)
qed

lemma sdb_store_keeps_witness:
  "\<forall>d v. \<exists>st4 s4 st3 s3 st2 s2. sdb_phtrans (sdb_w1_io (wrpc_w1_ops (owm_chip 0x43) 0) [0x28, 0x43]) v True st2 s2 = Some (1, v, st3, s3) \<and>
    sdb_get_persistent_mac (sdb_w1_io (wrpc_w1_ops (owm_chip 0x43) 0) [0x28, 0x43]) [0x28, 0x43]
      [0, 0, 0, 0, 0, 0] st3 s3 = Some (0, [8, 0, 48, 1, 2, 3], st4, s4) \<and>
    (\<exists>st1 s1. sdb_eeprom_present (sdb_w1_io (wrpc_w1_ops (owm_chip 0x43) 0) [0x28, 0x43]) sdb_st0
      \<lparr>ln_dev = (d\<lparr>ch_mem := demo_mem\<rparr>, 0, 0), ln_dat = True, ln_busy = 0, ln_lag = 2\<rparr> = Some (0, st1, s1))"
proof (intro allI)
  fix d :: chip and v
  let ?s = "\<lparr>ln_dev = (d\<lparr>ch_mem := demo_mem\<rparr>, 0, 0), ln_dat = True, ln_busy = 0, ln_lag = 2\<rparr>"
  have f: "first_eeprom [0x28, 0x43] = Some 0x43" by (simp add: first_eeprom_def w1_class_def)
  have "mem_at demo_mem 0 4 = take 4 (sdb_rec demo_mem 0 0)" by (rule nth_equalityI) (simp_all add: sdb_rec_def)
  then have m: "word_of_nat (be_val (mem_at (ch_mem (d\<lparr>ch_mem := demo_mem\<rparr>)) 0 4)) = SDB_MAGIC" by (simp add: demo_recs)
  have w: "set [8, 0, 48, 1, 2, 3 :: u8] \<noteq> {0}" by (simp add: insert_eq_iff)
  note t = sdb_store_keeps [where devs = "[0x28, 0x43]" and s = ?s and d = "d\<lparr>ch_mem := demo_mem\<rparr>" and N = 3 and a = 256 and la = 6
    and b = 264 and lb = 4 and mac = "[8, 0, 48, 1, 2, 3]" and old = "[0, 0, 0, 0, 0, 0]" and port = 0 and v = v, OF f _ m _ _ _ _ _ _ _ _ _ _ _ _ w]
  show "\<exists>st4 s4 st3 s3 st2 s2. sdb_phtrans (sdb_w1_io (wrpc_w1_ops (owm_chip 0x43) 0) [0x28, 0x43]) v True st2 s2 = Some (1, v, st3, s3) \<and>
    sdb_get_persistent_mac (sdb_w1_io (wrpc_w1_ops (owm_chip 0x43) 0) [0x28, 0x43]) [0x28, 0x43]
      [0, 0, 0, 0, 0, 0] st3 s3 = Some (0, [8, 0, 48, 1, 2, 3], st4, s4) \<and>
    (\<exists>st1 s1. sdb_eeprom_present (sdb_w1_io (wrpc_w1_ops (owm_chip 0x43) 0) [0x28, 0x43]) sdb_st0 ?s = Some (0, st1, s1))"
    using t demo_files by (simp add: Let_def) blast
qed

section \<open>What goes wrong\<close>

text \<open>
  Without a file system the address is asked for all the same, through methods that were never
  set. A file system found at another entry point is scanned at the old one, as \<open>eeprom_present\<close> does not store it.
\<close>

lemma no_store_mac: "sdb_get_persistent_mac io devs mac sdb_st0 s = None"
  by (simp add: sdb_get_persistent_mac_def sdb_open_file_def open_without_methods sdb_st0_def)

lemma scan_entry: "sdbfs_scan io fs new s = Some (p, fs', s') \<Longrightarrow> entrypoint fs' = entrypoint fs"
  by (auto simp: sdbfs_scan_def sdbfs_readentry_def Let_def split: if_splits Option.bind_splits)

lemma list_entry: "sdb_list io new fs s = Some r \<Longrightarrow> entrypoint (fst (snd r)) = entrypoint fs"
proof (rule sdb_list.raw_induct [where P = "\<lambda>io new fs s r. entrypoint (fst (snd r)) = entrypoint fs"])
  fix f and io :: "'a sdb_io" and new :: bool and fs :: sdbfs and s :: 'a and r
  assume "\<And>io new fs s y. f io new fs s = Some y \<Longrightarrow> entrypoint (fst (snd y)) = entrypoint fs"
    and "do {
      (d, fs, s) \<leftarrow> sdbfs_scan io fs new s;
      case d of
        None \<Rightarrow> Some ([], fs, s)
      | Some p \<Rightarrow> do {
          r \<leftarrow> deref fs p;
          let fs = fs\<lparr>current_record := (current_record fs)[63 := 0]\<rparr>;
          (out, fs, s) \<leftarrow> f io False fs s;
          Some ((sdb_device_id r, ucast (sdb_addr_first r), takeWhile (\<lambda>b. b \<noteq> 0) (sdb_name r)) # out, fs, s)
        }
    } = Some r"
  then show "entrypoint (fst (snd r)) = entrypoint fs"
    by (fastforce simp: Let_def split: Option.bind_splits option.splits dest: scan_entry)
qed

lemma present_keeps_entry: "sdb_eeprom_present io st s = Some (r, st', s') \<Longrightarrow> entrypoint (wrc_sdb st') = entrypoint (wrc_sdb st)"
  by (auto simp: sdb_eeprom_present_def split: if_splits Option.bind_splits dest!: list_entry)

end
