(* ===== verification/Sdb.thy ===== *)
theory Sdb
  imports Board Printf
begin

text \<open>
  The table of devices of the FPGA, \<open>dev/sdb.c\<close>: the self-describing bus, a tree of tables of records of 64 bytes in the
  address space. \<open>m\<close> is what the CPU reads at an address, bytes of big endian words. A table that refers to itself makes the
  search go on for ever, which is \<open>None\<close>. The theorem says what is found in any table that describes a tree.
\<close>

abbreviation (input) SDB_DEVICE :: u8 where "SDB_DEVICE \<equiv> 0x01"
abbreviation (input) SDB_BRIDGE :: u8 where "SDB_BRIDGE \<equiv> 0x02"

definition rd16 :: "(u32 \<Rightarrow> u8) \<Rightarrow> u32 \<Rightarrow> nat" where
  "rd16 m a = unat (m a) * 256 + unat (m (a + 1))"

definition rd32 :: "(u32 \<Rightarrow> u8) \<Rightarrow> u32 \<Rightarrow> u32" where
  "rd32 m a = push_bit 24 (ucast (m a)) OR push_bit 16 (ucast (m (a + 1))) OR push_bit 8 (ucast (m (a + 2))) OR ucast (m (a + 3))"

text \<open>The fields of the records that the code uses, by their offsets.\<close>

definition bus_records :: "(u32 \<Rightarrow> u8) \<Rightarrow> u32 \<Rightarrow> nat" where
  "bus_records m r = rd16 m (r + 4)"

definition record_type :: "(u32 \<Rightarrow> u8) \<Rightarrow> u32 \<Rightarrow> u8" where
  "record_type m r = m (r + 63)"

definition sdb_child_low :: "(u32 \<Rightarrow> u8) \<Rightarrow> u32 \<Rightarrow> u32" where
  "sdb_child_low m r = rd32 m (r + 4)"

definition addr_first_low :: "(u32 \<Rightarrow> u8) \<Rightarrow> u32 \<Rightarrow> u32" where
  "addr_first_low m r = rd32 m (r + 12)"

definition vendor_id_low :: "(u32 \<Rightarrow> u8) \<Rightarrow> u32 \<Rightarrow> u32" where
  "vendor_id_low m r = rd32 m (r + 28)"

definition device_id :: "(u32 \<Rightarrow> u8) \<Rightarrow> u32 \<Rightarrow> u32" where
  "device_id m r = rd32 m (r + 32)"

definition product_name :: "(u32 \<Rightarrow> u8) \<Rightarrow> u32 \<Rightarrow> string" where
  "product_name m r = map (\<lambda>b. char_of (unat b)) (takeWhile (\<lambda>b. b \<noteq> 0) (map (\<lambda>i. m (r + 44 + of_nat i)) [0..<19]))"

section \<open>The search\<close>

text \<open>The loop over the \<open>n\<close> records from \<open>record\<close> on.\<close>

partial_function (option) find_loop :: "(u32 \<Rightarrow> u8) \<Rightarrow> u32 \<Rightarrow> u32 \<Rightarrow> nat \<Rightarrow> u32 \<Rightarrow> u32 option" where
  "find_loop m base rec n devid =
    (if n = 0 then Some 0
     else do {
       out \<leftarrow> (if record_type m rec = SDB_BRIDGE
         then let sdb = base + sdb_child_low m rec
           in find_loop m (base + addr_first_low m rec) sdb (bus_records m sdb) devid
         else Some 0);
       if out \<noteq> 0 then Some out
       else if record_type m rec = SDB_DEVICE \<and> device_id m rec = devid then Some (base + addr_first_low m rec)
       else find_loop m base (rec + 64) (n - 1) devid
     })"

definition find_device_deep :: "(u32 \<Rightarrow> u8) \<Rightarrow> u32 \<Rightarrow> u32 \<Rightarrow> u32 \<Rightarrow> u32 option" where
  "find_device_deep m base sdb devid = find_loop m base sdb (bus_records m sdb) devid"

definition find_device :: "(u32 \<Rightarrow> u8) \<Rightarrow> u32 \<Rightarrow> u32 \<Rightarrow> u32 option" where
  "find_device m SDB_ADDRESS devid = find_device_deep m 0 SDB_ADDRESS devid"

record bases =
  BASE_MINIC :: u32
  BASE_EP :: u32
  BASE_SOFTPLL :: u32
  BASE_PPS_GEN :: u32
  BASE_SYSCON :: u32
  BASE_UART :: u32
  BASE_ONEWIRE :: u32
  BASE_ETHERBONE_CFG :: u32

definition sdb_find_devices :: "(u32 \<Rightarrow> u8) \<Rightarrow> u32 \<Rightarrow> bases option" where
  "sdb_find_devices m SDB_ADDRESS =
    do {
      minic \<leftarrow> find_device m SDB_ADDRESS 0xab28633a;
      ep \<leftarrow> find_device m SDB_ADDRESS 0x650c2d4f;
      softpll \<leftarrow> find_device m SDB_ADDRESS 0x65158dc0;
      pps_gen \<leftarrow> find_device m SDB_ADDRESS 0xde0d8ced;
      syscon \<leftarrow> find_device m SDB_ADDRESS 0xff07fc47;
      uart \<leftarrow> find_device m SDB_ADDRESS 0xe2d13d04;
      onewire \<leftarrow> find_device m SDB_ADDRESS 0x779c5443;
      etherbone \<leftarrow> find_device m SDB_ADDRESS 0x68202b22;
      Some \<lparr>BASE_MINIC = minic, BASE_EP = ep, BASE_SOFTPLL = softpll, BASE_PPS_GEN = pps_gen, BASE_SYSCON = syscon,
        BASE_UART = uart, BASE_ONEWIRE = onewire, BASE_ETHERBONE_CFG = etherbone\<rparr>
    }"

text \<open>The lines that are printed.\<close>

partial_function (option) print_loop :: "(u32 \<Rightarrow> u8) \<Rightarrow> u32 \<Rightarrow> u32 \<Rightarrow> nat \<Rightarrow> string list option" where
  "print_loop m base rec n =
    (if n = 0 then Some []
     else do {
       deep \<leftarrow> (if record_type m rec = SDB_BRIDGE
         then let sdb = base + sdb_child_low m rec
           in print_loop m (base + addr_first_low m rec) sdb (bus_records m sdb)
         else Some []);
       line \<leftarrow> (if record_type m rec \<noteq> SDB_DEVICE then Some []
         else do {
           (l, _) \<leftarrow> xint_vsprintf (''%8x:%8x 0x%8x %s'' @ [CHR 0x0A])
             [A_int (vendor_id_low m rec), A_int (device_id m rec), A_int (base + addr_first_low m rec), A_str (Some (product_name m rec))];
           Some [l]
         });
       rest \<leftarrow> print_loop m base (rec + 64) (n - 1);
       Some (deep @ line @ rest)
     })"

definition print_devices_deep :: "(u32 \<Rightarrow> u8) \<Rightarrow> u32 \<Rightarrow> u32 \<Rightarrow> string list option" where
  "print_devices_deep m base sdb = print_loop m base sdb (bus_records m sdb)"

section \<open>Trees\<close>

datatype sdb_node = N_other | N_dev u32 u32 | N_bridge u32 u32 "sdb_node list"

text \<open>The records from \<open>rec\<close> on describe the nodes.\<close>

fun describes :: "(u32 \<Rightarrow> u8) \<Rightarrow> u32 \<Rightarrow> u32 \<Rightarrow> sdb_node list \<Rightarrow> bool" where
  "describes m base rec [] \<longleftrightarrow> True"
| "describes m base rec (N_other # ns) \<longleftrightarrow>
    record_type m rec \<noteq> SDB_DEVICE \<and> record_type m rec \<noteq> SDB_BRIDGE \<and> describes m base (rec + 64) ns"
| "describes m base rec (N_dev i a # ns) \<longleftrightarrow>
    record_type m rec = SDB_DEVICE \<and> device_id m rec = i \<and> addr_first_low m rec = a \<and> describes m base (rec + 64) ns"
| "describes m base rec (N_bridge a c ks # ns) \<longleftrightarrow>
    record_type m rec = SDB_BRIDGE \<and> addr_first_low m rec = a \<and> sdb_child_low m rec = c \<and>
    bus_records m (base + c) = length ks \<and> describes m (base + a) (base + c) ks \<and> describes m base (rec + 64) ns"

text \<open>The devices in depth-first order, with their absolute addresses.\<close>

fun devices :: "u32 \<Rightarrow> sdb_node list \<Rightarrow> (u32 \<times> u32) list" where
  "devices base [] = []"
| "devices base (N_other # ns) = devices base ns"
| "devices base (N_dev i a # ns) = (i, base + a) # devices base ns"
| "devices base (N_bridge a c ks # ns) = devices (base + a) ks @ devices base ns"

definition lookup :: "u32 \<Rightarrow> (u32 \<times> u32) list \<Rightarrow> u32" where
  "lookup devid ds = (case find (\<lambda>(i, _). i = devid) ds of None \<Rightarrow> 0 | Some (_, a) \<Rightarrow> a)"

lemma lookup_simps [simp]:
  "lookup devid [] = 0" "lookup devid ((i, a) # ds) = (if i = devid then a else lookup devid ds)"
  by (simp_all add: lookup_def)

lemma lookup_append: "(devid, 0) \<notin> set ds \<Longrightarrow> lookup devid (ds @ es) = (if lookup devid ds \<noteq> 0 then lookup devid ds else lookup devid es)"
  by (induction ds) (auto split: if_splits)

lemma find_loop_tree:
  "describes m base rec ns \<Longrightarrow> (devid, 0) \<notin> set (devices base ns) \<Longrightarrow>
    find_loop m base rec (length ns) devid = Some (lookup devid (devices base ns))"
proof (induction m base rec ns rule: describes.induct)
  case (4 m base rec a c ks ns)
  then show ?case by (subst find_loop.simps) (auto simp: lookup_append Let_def)
qed (subst find_loop.simps, force)+

text \<open>
  C40. The devices of the FPGA. If the table at \<open>SDB_ADDRESS\<close> describes a tree, however deep its bridges are, and none
  of the eight devices that are looked for is at the absolute address 0, \<open>sdb_find_devices\<close> returns and sets every
  base to the absolute address of the first device with its identity in depth-first order, or to 0 if there is none.
  Other devices, the RAM for instance, may be anywhere. The restriction is needed: the address 0 of a device behind a bridge
  is taken for "not found", and the search goes on to a later device of the same identity.
\<close>

theorem sdb_find_devices_tree:
  assumes "describes m 0 sdb ns" "bus_records m sdb = length ns"
    and "\<And>devid. devid \<in> {0xab28633a, 0x650c2d4f, 0x65158dc0, 0xde0d8ced, 0xff07fc47, 0xe2d13d04, 0x779c5443, 0x68202b22} \<Longrightarrow>
      (devid, 0) \<notin> set (devices 0 ns)"
  shows "sdb_find_devices m sdb = Some \<lparr>BASE_MINIC = lookup 0xab28633a (devices 0 ns), BASE_EP = lookup 0x650c2d4f (devices 0 ns),
    BASE_SOFTPLL = lookup 0x65158dc0 (devices 0 ns), BASE_PPS_GEN = lookup 0xde0d8ced (devices 0 ns),
    BASE_SYSCON = lookup 0xff07fc47 (devices 0 ns), BASE_UART = lookup 0xe2d13d04 (devices 0 ns),
    BASE_ONEWIRE = lookup 0x779c5443 (devices 0 ns), BASE_ETHERBONE_CFG = lookup 0x68202b22 (devices 0 ns)\<rparr>"
proof -
  have "find_device m sdb devid = Some (lookup devid (devices 0 ns))"
    if "devid \<in> {0xab28633a, 0x650c2d4f, 0x65158dc0, 0xde0d8ced, 0xff07fc47, 0xe2d13d04, 0x779c5443, 0x68202b22}" for devid
    using find_loop_tree [OF assms(1) assms(3) [OF that]] assms(2) by (simp add: find_device_def find_device_deep_def)
  then show ?thesis by (simp add: sdb_find_devices_def)
qed

text \<open>A bridge, and behind it the RAM at the address 0 and the Mini-NIC.\<close>

definition demo_bus :: "u32 \<Rightarrow> u8" where
  "demo_bus a =
    (if a = 0x30005 then 2 else if a = 0x3007f then 2 else if a = 0x30045 then 3 else if a = 0x30046 then 1
     else if a = 0x30105 then 2 else if a = 0x3013f then 1 else if a = 0x30120 then 0xfe
     else if a = 0x3017f then 1 else if a = 0x30160 then 0xab else if a = 0x30161 then 0x28
     else if a = 0x30162 then 0x63 else if a = 0x30163 then 0x3a else if a = 0x3014e then 4 else 0)"

lemma sdb_find_devices_tree_witness:
  "map_option BASE_MINIC (sdb_find_devices demo_bus 0x30000) = Some 0x400"
proof -
  let ?ns = "[N_other, N_bridge 0 0x30100 [N_dev 0xfe000000 0, N_dev 0xab28633a 0x400]]"
  have "describes demo_bus 0 0x30000 ?ns" "bus_records demo_bus 0x30000 = length ?ns"
    by (simp_all add: record_type_def addr_first_low_def sdb_child_low_def bus_records_def device_id_def rd32_def rd16_def demo_bus_def)
  then show ?thesis by (subst sdb_find_devices_tree [of demo_bus "0x30000" ?ns]) auto
qed

text \<open>Two devices of the same identity behind a bridge: the first, at 0, is not found.\<close>

lemma device_at_zero_lost:
  assumes "describes m 0 rec [N_bridge 0 c [N_dev devid 0], N_dev devid x]"
  shows "find_loop m 0 rec 2 devid = Some x"
proof -
  have b: "record_type m rec = SDB_BRIDGE" "addr_first_low m rec = 0" "sdb_child_low m rec = c" "bus_records m c = 1"
    "record_type m c = SDB_DEVICE" "device_id m c = devid" "addr_first_low m c = 0"
    "record_type m (rec + 64) = SDB_DEVICE" "device_id m (rec + 64) = devid" "addr_first_low m (rec + 64) = x"
    using assms by auto
  have "find_loop m 0 c 1 devid = Some 0" by (subst find_loop.simps) (simp add: b)
  moreover have "find_loop m 0 (rec + 64) 1 devid = Some x" by (subst find_loop.simps) (simp add: b)
  ultimately show ?thesis by (subst find_loop.simps) (simp add: b Let_def)
qed

text \<open>A bridge to its own table: the search goes round for ever.\<close>

lemma find_self_stuck:
  assumes "record_type m r = SDB_BRIDGE" "addr_first_low m r = 0" "base + sdb_child_low m r = r" "bus_records m r \<noteq> 0" "n \<noteq> 0"
  shows "find_loop m base r n devid = None"
proof -
  have "find_loop m base r n devid = Some y \<Longrightarrow> (m = m \<and> base = base \<and> r = r \<and> n \<noteq> 0 \<longrightarrow> False)" for y
  proof (rule find_loop.raw_induct [where P = "\<lambda>m' base' r' n devid y. m' = m \<and> base' = base \<and> r' = r \<and> n \<noteq> 0 \<longrightarrow> False"])
    fix f m' base' r' n devid y
    assume IH: "\<And>m' base' r' n devid y. f m' base' r' n devid = Some y \<Longrightarrow> m' = m \<and> base' = base \<and> r' = r \<and> n \<noteq> 0 \<longrightarrow> False"
      and e: "(if n = 0 then Some 0
     else do {
       out \<leftarrow> (if record_type m' r' = SDB_BRIDGE
         then let sdb = base' + sdb_child_low m' r'
           in f m' (base' + addr_first_low m' r') sdb (bus_records m' sdb) devid
         else Some 0);
       if out \<noteq> 0 then Some out
       else if record_type m' r' = SDB_DEVICE \<and> device_id m' r' = devid then Some (base' + addr_first_low m' r')
       else f m' base' (r' + 64) (n - 1) devid
     }) = Some y"
    show "m' = m \<and> base' = base \<and> r' = r \<and> n \<noteq> 0 \<longrightarrow> False"
    proof
      assume "m' = m \<and> base' = base \<and> r' = r \<and> n \<noteq> 0"
      then obtain out where "f m base r (bus_records m r) devid = Some out"
        using assms(1-3) e by (auto simp: Let_def split: Option.bind_splits)
      from IH [OF this] show False using assms(4) by simp
    qed
  qed
  then show ?thesis using assms(5) by (cases "find_loop m base r n devid") auto
qed

end
