(* ===== verification/Spec2Isabelle.thy ===== *)
theory Spec2Isabelle
  imports Softpll_Aux Net_Props Ipv4_Props Util Boot Ep_pfilter_Props Rxts_Props Uart Wrc_main W1_Shell Sdb_eeprom_Props Sdb
begin

text \<open>
  Verification of the White Rabbit PTP core software (wrpc-sw), the firmware of an LM32
  soft processor inside an FPGA that synchronises the clock of a node to that of its master.

  \<^bold>\<open>The program.\<close> The gateware measures phases with dual-mixer time differencers: each tag
  that arrives raises an interrupt, whose handler (\<open>softpll/softpll_ng.c\<close>) runs the software phase
  locked loops and sets the frequencies of the oscillators. The main loop (\<open>wrc_main.c\<close>) polls the PTP
  daemon (controlled by \<open>wrc_ptp_noposix.c\<close>, which starts the SoftPLL in a mode and waits for its lock), the IP stack and the shell.
  They send and receive frames with the raw sockets of
  \<open>lib/net.c\<close>, on top of the driver of the Mini-NIC (\<open>dev/minic.c\<close>); the endpoint (\<open>dev/endpoint.c\<close>) is the MAC
  and drives the link, its packet filter (\<open>dev/ep_pfilter.c\<close>) decides which frames reach the processor.
  The daemon reaches the SoftPLL and the calibration through \<open>lib/ptp-noposix-wrappers.c\<close>. Received frames are stamped; the
  sockets turn the raw stamp, the phase measured by the phase tracker of the SoftPLL and
  the transition phase found by \<open>dev/rxts_calibrator.c\<close> into picoseconds. The time is kept by
  the PPS generator (\<open>dev/pps_gen.c\<close>). Calibration, the data base of the SFP transceivers and a script
  of shell commands are in an EEPROM on the I2C bus (\<open>dev/i2c.c\<close>, \<open>dev/eeprom.c\<close>, \<open>dev/sfp.c\<close>); the shell
  (\<open>shell/shell.c\<close>, \<open>shell/cmd_*.c\<close>) runs that script at the start and then the lines typed at the console
  (\<open>dev/uart.c\<close>, or \<open>dev/uart-sw.c\<close> with a program on the host), which
  is written with \<open>pp_printf\<close> and \<open>lib/util.c\<close>. A 1-wire bus (\<open>dev/w1.c\<close>, \<open>dev/w1-hw.c\<close>) has a thermometer,
  whose code gives the MAC address, and an EEPROM, which in some builds holds a file system in place of the I2C EEPROM
  (\<open>dev/sdb-eeprom.c\<close>, \<open>sdb-lib/\<close>). Where the devices are in the address space is found in a table (\<open>dev/sdb.c\<close>).
  \<open>dev/syscon.c\<close> and \<open>lib/usleep.c\<close> are timer and delays.

  \<^bold>\<open>The model.\<close> It is a shallow embedding: one definition for every C function, in the order of the
  source, named after it; the loops of a function are functions of their own. A structure is a
  record with the fields of the source, the global variables of a file are one record, and a
  function that changes them returns the new one. Hardware registers and unsigned numbers are
  words. A signed \<open>int\<close> is an \<open>int\<close> whose every operation that can leave 32 bits wraps explicitly
  (theory \<open>Prelude\<close>). An access out of the bounds of an array, a division by zero or a loop that
  does not end is the value \<open>None\<close>, so every theorem that shows \<open>Some\<close> shows memory safety and
  termination too. What hardware, the network or a person at the console supplies (register
  contents, time stamps, pins, keys) is an argument.

  \<^bold>\<open>Theories and sources.\<close>
    \<^item> \<open>Prelude\<close>: C arithmetic, checked arrays, shared facts. \<open>Bytes\<close>: byte buffers and big-endian
      words in them. \<open>Board\<close>: \<open>board-wrc.h\<close>, \<open>board-wrs.h\<close>, conversion of tics.
    \<^item> \<open>Spll_Common\<close> (\<open>spll_common.c\<close>: PI controller with clamping, lock detector, filters, DMTD
      enabling), \<open>Spll_Helper\<close>, \<open>Spll_Main\<close>, \<open>Spll_External\<close>, \<open>Spll_Ptracker\<close> (the files of these names):
      each loop's update on a tag refines an abstract loop over unwrapped integers; controllers do
      not overflow, the phase shifter arrives, the locks have their invariants.
    \<^item> \<open>Softpll\<close> (\<open>softpll_ng.c\<close>: interrupt handler, sequencing state machine, interface),
      \<open>Softpll_Seq\<close> (the handler refines a transition relation of the sequencer, \<open>READY\<close> only with the
      loops locked), \<open>Softpll_Init\<close>, \<open>Softpll_Aux\<close> (invariants from \<open>spll_init\<close> on, auxiliary clocks).
    \<^item> \<open>Pps_gen\<close> (\<open>pps_gen.c\<close>): the set and get of the time, with the second that may turn between.
    \<^item> \<open>Minic\<close>, \<open>Minic_Props\<close> (\<open>minic.c\<close>): descriptors and the circular receive memory; frames and time
      stamps come out as they went in.
    \<^item> \<open>Net\<close>, \<open>Net_Props\<close> (\<open>lib/net.c\<close>): the byte queues of the sockets refine queues of whole
      frames; the linearisation of the receive time stamp is exact.
    \<^item> \<open>Ipv4\<close>, \<open>Ipv4_Props\<close> (\<open>ipv4.c\<close>, \<open>icmp.c\<close>, \<open>arp.c\<close>, \<open>bootp.c\<close>): replies and checksums.
    \<^item> \<open>Printf\<close>, \<open>Printf_Props\<close> (\<open>pp_printf/\<close>, \<open>atoi.c\<close>): the three formatters agree on what they
      share; numbers are printed and read back.
    \<^item> \<open>Util\<close> (\<open>lib/util.c\<close>): calendar and terminal.
    \<^item> \<open>Shell\<close>, \<open>Shell_Props\<close>, \<open>Boot\<close> (\<open>shell.c\<close>): the line editor refines a text with a cursor, the parser
      runs the typed words, the boot script runs like typed lines.
    \<^item> \<open>I2c\<close>, \<open>I2c_Mem\<close> (\<open>i2c.c\<close>, \<open>sfp.c\<close>, the GPIO of \<open>syscon.h\<close>): bit-banged bus against a
      slave that follows the bus specification, identification of the SFP.
    \<^item> \<open>Eeprom\<close>, \<open>Eeprom_Props\<close> (\<open>eeprom.c\<close>): reads, writes with polling, SFP data base, init script.
    \<^item> \<open>Ep_pfilter\<close>, \<open>Ep_pfilter_Props\<close> (\<open>ep_pfilter.c\<close>): assembler and default program, run on a model
      of the filter written from the comment of the source.
    \<^item> \<open>Rxts\<close>, \<open>Rxts_Props\<close> (\<open>rxts_calibrator.c\<close>): the scan moves the phase shifter and finds the transition phase.
    \<^item> \<open>Usleep\<close> (\<open>syscon.c\<close>, \<open>usleep.c\<close>): the timer; the calibration of the delay loop finds the right count.
    \<^item> \<open>Endpoint\<close> (\<open>endpoint.c\<close>): MAC, PHY behind the MDIO registers, address, link state.
    \<^item> \<open>Uart\<close> (\<open>uart.c\<close>, \<open>uart-sw.c\<close>, \<open>tools/wrpc-uart-sw.c\<close>): the rings in memory and the host on the other side of the bus
      are two queues.
    \<^item> \<open>Wrc_ptp\<close> (\<open>wrc_ptp_noposix.c\<close>): what the result of a change of the mode tells. \<open>Wrc_main\<close> (\<open>wrc_main.c\<close>): the round
      of the main loop, and the SoftPLL under any interleaving of its interrupt with its interface. \<open>Wrappers\<close>
      (\<open>ptp-noposix-wrappers.c\<close>, \<open>ppsi-wrappers.c\<close>): what the daemon asks of the hardware.
    \<^item> \<open>Commands\<close>, \<open>Commands_Props\<close> (\<open>shell/cmd_*.c\<close>): the commands on the states of the other parts; what
      \<open>mac\<close> prints it reads; missing arguments.
    \<^item> \<open>W1\<close>, \<open>W1_Line\<close>, \<open>W1_Props\<close> (\<open>w1.c\<close>, \<open>w1-hw.c\<close>): bytes and bits of the 1-wire bus, the search finds the devices.
      \<open>W1_Devs\<close>, \<open>W1_Devs_Props\<close>, \<open>W1_Shell\<close> (\<open>w1-eeprom.c\<close>, \<open>w1-temp.c\<close>, \<open>w1-shell.c\<close>): the EEPROM keeps what is written,
      bit by bit on the bus. \<open>Byte_Mem\<close>: memories of bytes.
    \<^item> \<open>Sdbfs\<close> (\<open>sdb-lib/\<close>), \<open>Sdb_eeprom\<close>, \<open>Sdb_eeprom_Props\<close> (\<open>sdb-eeprom.c\<close>): the file system and the store on it keep
      address and calibration. \<open>Sdb\<close> (\<open>dev/sdb.c\<close>): the search of the device table.

  \<^bold>\<open>Interfaces.\<close> The contracts between the components are locales, interpreted on the definitions of the
  provider. In \<open>I2c\<close> a link is pins with a state, a slave with an abstract byte protocol on the
  other side; in \<open>I2c_Mem\<close> a serial memory and an EEPROM chip are what that protocol means for
  an array of bytes; the EEPROM driver and the boot script are proved once against the contract of the
  chip and then instantiated on the card's bus. \<open>w1_search\<close> and \<open>w1_bytes\<close> are what the search and the EEPROM driver
  of the 1-wire bus need of it, interpreted on devices behind the registers of the controller; \<open>sdb_store\<close> is a device that keeps bytes,
  interpreted on the EEPROM driver; \<open>mdio_port\<close> and \<open>ticking\<close> are the PHY and the clock behind the endpoint
  and the timer; \<open>byte_fifo\<close> is the queue under the sockets; \<open>tagger_ctl\<close> and \<open>pi_gains\<close> are shared by the loops.

  \<^bold>\<open>Bounds and fuel.\<close> A loop over a buffer or a list is structural or has a measure. Loops
  that the code may never leave are \<open>partial_function (option)\<close>: the polling of the EEPROM and the search in the
  SFP data base, for which both the returning case and a case that never returns are proved.
  The calibration of the receiver and the polling loops of the drivers are such functions too, and the theorems show that they
  end, under hypotheses on the hardware (the phase shifter arrives, a busy flag clears).
  Loops that wait for a person or for time (the shell, the wait for the lock) take the list of what the outside
  does, and the theorems say how much of it is enough. The filter program runs 64 steps, the size
  of its memory. Nowhere does a theorem assume that the code returns.

  \<^bold>\<open>Findings.\<close> Where the code does not do what it means to, a lemma shows it on the model beside the
  component, with the conditions under which the properties hold: for instance \<open>recvfrom_short_buffer\<close>, \<open>icmp_odd_length\<close>,
  \<open>xint_unsigned_negative\<close>, \<open>eeprom_read_no_slave\<close>, \<open>w1_scan_misses_twin\<close>,
  \<open>usw_wrap_loses\<close>, \<open>present_keeps_entry\<close>, \<open>device_at_zero_lost\<close>.

  \<^bold>\<open>Not modelled.\<close> \<open>ptp-noposix\<close> and \<open>ppsi\<close>, the two PTP daemons, are git submodules whose sources are
  not in the tree: their functions are arguments. The parts of the switch firmware (\<open>wrs_main.c\<close>, \<open>dev/ad9516.c\<close>,
  \<open>dev/timer-wrs.c\<close>, \<open>ipc/\<close>) are left for a later extension. \<open>scripts/\<close> are tools of Linux; the other programs of
  \<open>tools/\<close> run on the host; \<open>arch/lm32\<close> is start-up code in assembler apart from \<open>irq.c\<close>,
  register headers are generated. The display of \<open>monitor/\<close> only prints. Of \<open>wrc_main.c\<close> the initialisation, a list
  of calls, and the copy of the stack after a crash are left out.
\<close>

end
